(* ===== verification/Prelude.thy ===== *)
theory Prelude
  imports Main "HOL-Library.Word" "HOL-Library.AList"
begin

text \<open>
  Shared vocabulary of the development: the message type of the IRC library the program uses,
  Go maps as association lists, the functions of Go's \<open>strings\<close> and \<open>strconv\<close> packages the
  sources call, and the generic lemmas the component theories rely on.

  A Go \<open>string\<close> is a byte sequence and is modelled by the HOL type \<open>string\<close> (a list of 8-bit
  characters).  A Go \<open>map\<close> is an association list with distinct keys; the order of the list is
  the (arbitrary) order in which one \<open>range\<close> loop visits the entries.  Operations that iterate
  are therefore proved correct for every order of the list.
\<close>

section \<open>Collections of rewrite rules\<close>

named_theorems go_map_simps \<open>lookup equations of Go maps\<close>
named_theorems go_str_simps \<open>equations of Go string functions\<close>

section \<open>Messages of the IRC library\<close>

record irc_prefix =
  Name :: string
  User :: string
  Host :: string

type_synonym irc_tags = "(string \<times> string) list"

record irc_message =
  Tags :: irc_tags
  Prefix :: "irc_prefix option"
  Command :: string
  Params :: "string list"

definition mk_msg :: "string \<Rightarrow> string list \<Rightarrow> irc_message" where
  "mk_msg cmd params = \<lparr>Tags = [], Prefix = None, Command = cmd, Params = params\<rparr>"

lemma mk_msg_sel [simp]:
  "Tags (mk_msg c ps) = []" "Prefix (mk_msg c ps) = None"
  "Command (mk_msg c ps) = c" "Params (mk_msg c ps) = ps"
  by (simp_all add: mk_msg_def)

lemma mk_msg_inject [simp]: "mk_msg c ps = mk_msg c' ps' \<longleftrightarrow> c = c' \<and> ps = ps'"
  by (auto simp: mk_msg_def)

section \<open>Go maps\<close>

type_synonym ('k, 'v) gomap = "('k \<times> 'v) list"

abbreviation go_get :: "('k, 'v) gomap \<Rightarrow> 'k \<Rightarrow> 'v option" where
  "go_get m \<equiv> map_of m"

abbreviation go_put :: "'k \<Rightarrow> 'v \<Rightarrow> ('k, 'v) gomap \<Rightarrow> ('k, 'v) gomap" where
  "go_put \<equiv> AList.update"

abbreviation go_del :: "'k \<Rightarrow> ('k, 'v) gomap \<Rightarrow> ('k, 'v) gomap" where
  "go_del \<equiv> AList.delete"

definition gomap_ok :: "('k, 'v) gomap \<Rightarrow> bool" where
  "gomap_ok m \<longleftrightarrow> distinct (map fst m)"

lemma go_get_put [go_map_simps, simp]:
  "go_get (go_put k v m) k' = (if k' = k then Some v else go_get m k')"
  by (simp add: update_conv)

lemma go_get_del [go_map_simps, simp]:
  "go_get (go_del k m) k' = (if k' = k then None else go_get m k')"
  by (simp add: delete_conv)

lemma gomap_ok_Nil [simp, intro]: "gomap_ok []"
  by (simp add: gomap_ok_def)

lemma gomap_ok_put [simp, intro]: "gomap_ok m \<Longrightarrow> gomap_ok (go_put k v m)"
  by (simp add: gomap_ok_def distinct_update)

lemma gomap_ok_del [simp, intro]: "gomap_ok m \<Longrightarrow> gomap_ok (go_del k m)"
  by (simp add: gomap_ok_def distinct_delete)

lemma gomap_ok_mem: "gomap_ok m \<Longrightarrow> (k, v) \<in> set m \<longleftrightarrow> go_get m k = Some v"
  by (simp add: gomap_ok_def)

lemma go_get_mem: "go_get m k = Some v \<Longrightarrow> (k, v) \<in> set m"
  by (rule map_of_SomeD)

lemma go_put_new: "go_get m k = None \<Longrightarrow> go_put k v m = m @ [(k, v)]"
  by (induction m) (auto split: if_splits)

lemma set_go_put: "gomap_ok m \<Longrightarrow> set (go_put k v m) = insert (k, v) {e \<in> set m. fst e \<noteq> k}"
  by (induction m) (auto simp: gomap_ok_def rev_image_eqI)

lemma set_go_del [simp]: "set (go_del k m) = {e \<in> set m. fst e \<noteq> k}"
  by (auto simp: AList.delete_eq)

lemma go_put_go_put [simp]: "go_put k v (go_put k w m) = go_put k v m"
  by (induction m) auto

lemma list_all_go_put: "list_all P m \<Longrightarrow> P (k, v) \<Longrightarrow> list_all P (go_put k v m)"
  by (induction m) auto

lemma length_go_put:
  "length (go_put k v m) = (if go_get m k = None then Suc (length m) else length m)"
  by (induction m) auto

section \<open>Functions of the package strings\<close>

definition HasPrefix :: "string \<Rightarrow> string \<Rightarrow> bool" where
  "HasPrefix s p \<longleftrightarrow> take (length p) s = p"

lemma HasPrefix_iff: "HasPrefix s p \<longleftrightarrow> (\<exists>r. s = p @ r)"
  by (metis HasPrefix_def append_eq_conv_conj)

lemma HasPrefix_append [simp]: "HasPrefix (p @ r) p"
  by (simp add: HasPrefix_def)

lemma HasPrefix_Nil [simp]: "HasPrefix s []"
  by (simp add: HasPrefix_def)

lemma HasPrefix_single: "HasPrefix s [c] \<longleftrightarrow> (\<exists>r. s = c # r)"
  by (simp add: HasPrefix_iff)

text \<open>\<open>strings.Cut\<close> for a one-byte separator: the parts around its first occurrence.\<close>

fun Cut :: "string \<Rightarrow> char \<Rightarrow> (string \<times> string) option" where
  "Cut [] c = None"
| "Cut (x # xs) c = (if x = c then Some ([], xs)
     else (case Cut xs c of None \<Rightarrow> None | Some (a, b) \<Rightarrow> Some (x # a, b)))"

lemma Cut_None: "Cut s c = None \<longleftrightarrow> c \<notin> set s"
  by (induction s) (auto split: option.splits)

lemma Cut_SomeD: "Cut s c = Some (a, b) \<Longrightarrow> s = a @ c # b \<and> c \<notin> set a"
proof (induction s arbitrary: a)
  case (Cons x xs)
  show ?case
  proof (cases "x = c")
    case False
    with Cons.prems obtain a' where a': "Cut xs c = Some (a', b)" "a = x # a'"
      by (auto split: option.splits)
    with Cons.IH [OF a'(1)] False show ?thesis by simp
  qed (use Cons.prems in auto)
qed simp

lemma Cut_append [simp]: "c \<notin> set a \<Longrightarrow> Cut (a @ c # b) c = Some (a, b)"
  by (induction a) auto

lemma Cut_Some: "Cut s c = Some (a, b) \<longleftrightarrow> s = a @ c # b \<and> c \<notin> set a"
  by (metis Cut_SomeD Cut_append)

lemma Cut_length: "Cut s c = Some (a, b) \<Longrightarrow> length b < length s"
  by (simp add: Cut_Some)

text \<open>\<open>strings.SplitN(s, sep, n)\<close> for a one-byte separator and \<open>n \<ge> 1\<close>.\<close>

fun SplitN :: "string \<Rightarrow> char \<Rightarrow> nat \<Rightarrow> string list" where
  "SplitN s c 0 = []"
| "SplitN s c (Suc 0) = [s]"
| "SplitN s c (Suc (Suc n)) =
     (case Cut s c of None \<Rightarrow> [s] | Some (a, b) \<Rightarrow> a # SplitN b c (Suc n))"

lemma SplitN_2: "SplitN s c 2 = (case Cut s c of None \<Rightarrow> [s] | Some (a, b) \<Rightarrow> [a, b])"
  by (simp add: numeral_2_eq_2 split: option.splits)

lemma SplitN_length: "0 < n \<Longrightarrow> 0 < length (SplitN s c n) \<and> length (SplitN s c n) \<le> n"
  by (induction s c n rule: SplitN.induct) (auto split: option.splits)

text \<open>\<open>strings.Split(s, sep)\<close> for a one-byte separator.\<close>

fun Split :: "string \<Rightarrow> char \<Rightarrow> string list" where
  "Split [] c = [[]]"
| "Split (x # xs) c = (if x = c then [] # Split xs c
     else (case Split xs c of [] \<Rightarrow> [[x]] | w # ws \<Rightarrow> (x # w) # ws))"

fun Join :: "string list \<Rightarrow> string \<Rightarrow> string" where
  "Join [] sep = []"
| "Join [w] sep = w"
| "Join (w # v # ws) sep = w @ sep @ Join (v # ws) sep"

lemma Split_nonempty [simp]: "Split s c \<noteq> []"
  by (induction s) (auto split: list.splits)

lemma Join_Cons: "ws \<noteq> [] \<Longrightarrow> Join (w # ws) sep = w @ sep @ Join ws sep"
  by (cases ws) auto

lemma Join_Split [simp]: "Join (Split s c) [c] = s"
proof (induction s)
  case (Cons x xs)
  obtain w ws where e: "Split xs c = w # ws"
    by (meson Split_nonempty neq_Nil_conv)
  show ?case
  proof (cases "x = c")
    case True
    with Cons.IH show ?thesis by (simp add: Join_Cons)
  next
    case False
    with Cons.IH e show ?thesis by (cases ws) (auto simp: Join_Cons)
  qed
qed simp

lemma Split_no_sep: "w \<in> set (Split s c) \<Longrightarrow> c \<notin> set w"
  by (induction s arbitrary: w) (auto split: list.splits if_splits)

lemma Split_append_sep: "c \<notin> set w \<Longrightarrow> Split (w @ c # s) c = w # Split s c"
  by (induction w) auto

lemma Split_single: "c \<notin> set w \<Longrightarrow> Split w c = [w]"
  by (induction w) auto

lemma Split_Join:
  "ws \<noteq> [] \<Longrightarrow> \<forall>w\<in>set ws. c \<notin> set w \<Longrightarrow> Split (Join ws [c]) c = ws"
  by (induction ws "[c]" rule: Join.induct) (auto simp: Split_append_sep Split_single)

lemma Join_length:
  "length (Join ws sep) = sum_list (map length ws) + length sep * (length ws - 1)"
  by (induction ws sep rule: Join.induct) auto

text \<open>\<open>strings.TrimLeft\<close>, \<open>strings.TrimRight\<close> and \<open>strings.Trim\<close> for an ASCII cutset.\<close>

definition TrimLeft :: "string \<Rightarrow> string \<Rightarrow> string" where
  "TrimLeft s cutset = dropWhile (\<lambda>c. c \<in> set cutset) s"

definition Trim :: "string \<Rightarrow> string \<Rightarrow> string" where
  "Trim s cutset = rev (dropWhile (\<lambda>c. c \<in> set cutset) (rev (TrimLeft s cutset)))"

text \<open>\<open>strings.IndexByte\<close>: the position of the first occurrence, \<open>None\<close> for -1.\<close>

fun IndexByte :: "string \<Rightarrow> char \<Rightarrow> nat option" where
  "IndexByte [] c = None"
| "IndexByte (x # xs) c = (if x = c then Some 0 else map_option Suc (IndexByte xs c))"

lemma IndexByte_None: "IndexByte s c = None \<longleftrightarrow> c \<notin> set s"
  by (induction s) auto

lemma IndexByte_Some:
  "IndexByte s c = Some i \<Longrightarrow> i < length s \<and> s ! i = c \<and> c \<notin> set (take i s)"
  by (induction s arbitrary: i) (auto split: if_splits)

lemma IndexByte_append: "c \<notin> set a \<Longrightarrow> IndexByte (a @ c # b) c = Some (length a)"
  by (induction a) auto

text \<open>\<open>strings.Index\<close>: the position of the first occurrence of a substring.\<close>

fun Index :: "string \<Rightarrow> string \<Rightarrow> nat option" where
  "Index [] p = (if p = [] then Some 0 else None)"
| "Index (x # xs) p = (if HasPrefix (x # xs) p then Some 0 else map_option Suc (Index xs p))"

lemma Index_Some:
  "Index s p = Some i \<Longrightarrow> i + length p \<le> length s \<and> take (length p) (drop i s) = p"
proof (induction s arbitrary: i)
  case (Cons x xs)
  show ?case
  proof (cases "HasPrefix (x # xs) p")
    case True
    then obtain r where "x # xs = p @ r" by (auto simp: HasPrefix_iff)
    then have "length (x # xs) = length p + length r" and "take (length p) (x # xs) = p"
      by simp_all
    with True Cons.prems show ?thesis by auto
  qed (use Cons in auto)
qed (auto split: if_splits)

lemma Index_Some_split:
  assumes "Index s p = Some i"
  shows "s = take i s @ p @ drop (i + length p) s"
proof -
  have "take (length p) (drop i s) @ drop (length p) (drop i s) = p @ drop (i + length p) s"
    using Index_Some [OF assms] by (simp add: add.commute)
  then show ?thesis by (metis append_take_drop_id)
qed

lemma Index_Some_shorter:
  "Index s p = Some i \<Longrightarrow> p \<noteq> [] \<Longrightarrow> length s - (i + length p) < length s"
  using Index_Some [of s p i] by (cases p) auto

lemma Index_None: "Index s p = None \<longleftrightarrow> (\<nexists>a b. s = a @ p @ b)"
proof (induction s)
  case (Cons x xs)
  show ?case
  proof
    assume n: "Index (x # xs) p = None"
    then have h: "\<not> HasPrefix (x # xs) p" and r: "Index xs p = None"
      by (auto split: if_splits)
    show "\<nexists>a b. x # xs = a @ p @ b"
    proof (intro notI, elim exE)
      fix a b
      assume e: "x # xs = a @ p @ b"
      with h r Cons.IH show False by (cases a) (auto simp: HasPrefix_iff)
    qed
  next
    assume "\<nexists>a b. x # xs = a @ p @ b"
    then have "\<not> HasPrefix (x # xs) p" and "\<nexists>a b. xs = a @ p @ b"
      by (auto simp: HasPrefix_iff) (metis append_Cons append_Nil, metis append_Cons)
    with Cons.IH show "Index (x # xs) p = None" by simp
  qed
qed auto

section \<open>Functions of the packages fmt and strconv\<close>

text \<open>Decimal digits, as printed by \<open>%d\<close> and read back by \<open>strconv.ParseUint(s, 10, 64)\<close>.\<close>

definition digit_char :: "nat \<Rightarrow> char" where
  "digit_char d = char_of (48 + d)"

definition is_digit :: "char \<Rightarrow> bool" where
  "is_digit c \<longleftrightarrow> 48 \<le> (of_char c :: nat) \<and> (of_char c :: nat) \<le> 57"

definition digit_val :: "char \<Rightarrow> nat" where
  "digit_val c = of_char c - 48"

fun show_nat :: "nat \<Rightarrow> string" where
  "show_nat n = (if n < 10 then [digit_char n] else show_nat (n div 10) @ [digit_char (n mod 10)])"

declare show_nat.simps [simp del]

definition parse_digits :: "string \<Rightarrow> nat" where
  "parse_digits s = foldl (\<lambda>a c. a * 10 + digit_val c) 0 s"

datatype num_error = ErrSyntax | ErrRange

definition ParseUint64 :: "string \<Rightarrow> num_error + nat" where
  "ParseUint64 s =
     (if s = [] \<or> \<not> list_all is_digit s then Inl ErrSyntax
      else if parse_digits s \<ge> 2 ^ 64 then Inl ErrRange
      else Inr (parse_digits s))"

lemma digit_char_is_digit [simp]: "d < 10 \<Longrightarrow> is_digit (digit_char d)"
  by (simp add: is_digit_def digit_char_def)

lemma digit_char_val [simp]: "d < 10 \<Longrightarrow> digit_val (digit_char d) = d"
  by (simp add: digit_val_def digit_char_def)

lemma show_nat_digits: "list_all is_digit (show_nat n)"
proof (induction n rule: show_nat.induct)
  case (1 n)
  then show ?case by (subst show_nat.simps) simp
qed

lemma show_nat_nonempty [simp]: "show_nat n \<noteq> []"
  by (subst show_nat.simps) simp

lemma parse_digits_show [simp]: "parse_digits (show_nat n) = n"
proof (induction n rule: show_nat.induct)
  case (1 n)
  then show ?case by (subst show_nat.simps) (simp add: parse_digits_def)
qed

lemma ParseUint64_show: "n < 2 ^ 64 \<Longrightarrow> ParseUint64 (show_nat n) = Inr n"
  by (simp add: ParseUint64_def show_nat_digits)

definition ParseInt64 :: "string \<Rightarrow> num_error + int" where
  "ParseInt64 s =
     (let (neg, ds) = (if HasPrefix s ''-'' then (True, tl s) else if HasPrefix s ''+'' then (False, tl s) else (False, s))
      in if ds = [] \<or> \<not> list_all is_digit ds then Inl ErrSyntax
         else
           let n = int (parse_digits ds) in
           if neg then (if n > 2 ^ 63 then Inl ErrRange else Inr (- n))
           else (if n \<ge> 2 ^ 63 then Inl ErrRange else Inr n))"

definition show_int :: "int \<Rightarrow> string" where
  "show_int i = (if i < 0 then ''-'' @ show_nat (nat (- i)) else show_nat (nat i))"

lemma show_nat_inj: "show_nat m = show_nat n \<Longrightarrow> m = n"
  by (metis parse_digits_show)

lemma show_nat_no_char: "\<not> is_digit c \<Longrightarrow> c \<notin> set (show_nat n)"
  using show_nat_digits [of n] by (auto simp: list_all_iff)

section \<open>Runs of operations\<close>

text \<open>A run applies operations one after the other; \<open>allowed\<close> says what an operation may rely on in the
  state it meets.\<close>

fun run_steps :: "('op \<Rightarrow> 's \<Rightarrow> 's) \<Rightarrow> 'op list \<Rightarrow> 's \<Rightarrow> 's" where
  "run_steps step [] s = s"
| "run_steps step (x # xs) s = run_steps step xs (step x s)"

fun allowed_run :: "('op \<Rightarrow> 's \<Rightarrow> 's) \<Rightarrow> ('op \<Rightarrow> 's \<Rightarrow> bool) \<Rightarrow> 'op list \<Rightarrow> 's \<Rightarrow> bool" where
  "allowed_run step allowed [] s = True"
| "allowed_run step allowed (x # xs) s = (allowed x s \<and> allowed_run step allowed xs (step x s))"

text \<open>The contract of a component whose operations keep an invariant.\<close>

locale step_invariant =
  fixes step :: "'op \<Rightarrow> 's \<Rightarrow> 's"
    and allowed :: "'op \<Rightarrow> 's \<Rightarrow> bool"
    and inv :: "'s \<Rightarrow> bool"
  assumes step_keeps: "allowed x s \<Longrightarrow> inv s \<Longrightarrow> inv (step x s)"
begin

lemma run_invariant: "allowed_run step allowed xs s \<Longrightarrow> inv s \<Longrightarrow> inv (run_steps step xs s)"
  by (induction xs arbitrary: s) (simp_all add: step_keeps)

lemma run_append: "run_steps step (xs @ ys) s = run_steps step ys (run_steps step xs s)"
  by (induction xs arbitrary: s) simp_all

end

end
