(* ===== verification/Go_Unicode.thy ===== *)
theory Go_Unicode
  imports Prelude
begin

text \<open>
  UTF-8 as Go reads it: the packages \<open>unicode/utf8\<close> and \<open>unicode\<close> and the functions of
  \<open>strings\<close> that work rune by rune.  A rune is a natural number.  The character classes are
  written out where the library has a short table (white space, the Latin-1 letters and
  numbers); the large tables above U+00FF are the parameter \<open>unicode_tables\<close>.
\<close>

type_synonym rune = nat

definition RuneError :: rune where
  "RuneError = 65533"

section \<open>Decoding and encoding\<close>

definition cont_byte :: "char \<Rightarrow> bool" where
  "cont_byte c \<longleftrightarrow> 128 \<le> (of_char c :: nat) \<and> (of_char c :: nat) \<le> 191"

definition byte_between :: "nat \<Rightarrow> nat \<Rightarrow> char \<Rightarrow> bool" where
  "byte_between lo hi c \<longleftrightarrow> lo \<le> (of_char c :: nat) \<and> (of_char c :: nat) \<le> hi"

definition cont_bits :: "char \<Rightarrow> nat" where
  "cont_bits c = of_char c - 128"

text \<open>The tails of two-, three- and four-byte sequences whose lead byte has value \<open>b\<close>.\<close>

fun decode_tail2 :: "nat \<Rightarrow> string \<Rightarrow> rune \<times> nat" where
  "decode_tail2 b (x # _) =
     (if cont_byte x then ((b - 192) * 64 + cont_bits x, 2) else (RuneError, 1))"
| "decode_tail2 b _ = (RuneError, 1)"

fun decode_tail3 :: "nat \<Rightarrow> string \<Rightarrow> rune \<times> nat" where
  "decode_tail3 b (x # y # _) =
     (if byte_between (if b = 224 then 160 else 128) (if b = 237 then 159 else 191) x \<and> cont_byte y
      then ((b - 224) * 4096 + cont_bits x * 64 + cont_bits y, 3) else (RuneError, 1))"
| "decode_tail3 b _ = (RuneError, 1)"

fun decode_tail4 :: "nat \<Rightarrow> string \<Rightarrow> rune \<times> nat" where
  "decode_tail4 b (x # y # z # _) =
     (if byte_between (if b = 240 then 144 else 128) (if b = 244 then 143 else 191) x
         \<and> cont_byte y \<and> cont_byte z
      then ((b - 240) * 262144 + cont_bits x * 4096 + cont_bits y * 64 + cont_bits z, 4)
      else (RuneError, 1))"
| "decode_tail4 b _ = (RuneError, 1)"

text \<open>\<open>utf8.DecodeRuneInString\<close>: the first rune and its width; \<open>(RuneError, 1)\<close> on a byte that
  does not start a well-formed sequence, \<open>(RuneError, 0)\<close> on the empty string.\<close>

fun decode_rune :: "string \<Rightarrow> rune \<times> nat" where
  "decode_rune [] = (RuneError, 0)"
| "decode_rune (c # s) =
     (let b = of_char c :: nat
      in if b < 128 then (b, 1)
         else if 194 \<le> b \<and> b \<le> 223 then decode_tail2 b s
         else if 224 \<le> b \<and> b \<le> 239 then decode_tail3 b s
         else if 240 \<le> b \<and> b \<le> 244 then decode_tail4 b s
         else (RuneError, 1))"

lemma decode_tail_width:
  "0 < snd (decode_tail2 b s)" "snd (decode_tail2 b s) \<le> Suc (length s)"
  "0 < snd (decode_tail3 b s)" "snd (decode_tail3 b s) \<le> Suc (length s)"
  "0 < snd (decode_tail4 b s)" "snd (decode_tail4 b s) \<le> Suc (length s)"
  by (cases "(b, s)" rule: decode_tail2.cases; simp)
     (cases "(b, s)" rule: decode_tail2.cases; simp;
      cases "(b, s)" rule: decode_tail3.cases; simp;
      cases "(b, s)" rule: decode_tail4.cases; simp)+

lemma decode_rune_width: "s \<noteq> [] \<Longrightarrow> 0 < snd (decode_rune s) \<and> snd (decode_rune s) \<le> length s"
  by (cases s) (simp_all add: Let_def decode_tail_width)

lemma decode_rune_ascii: "(of_char c :: nat) < 128 \<Longrightarrow> decode_rune (c # s) = (of_char c, 1)"
  by simp

text \<open>The runes a \<open>for ... range\<close> loop over a string visits.\<close>

function runes :: "string \<Rightarrow> rune list" where
  "runes s = (if s = [] then []
     else fst (decode_rune s) # runes (drop (snd (decode_rune s)) s))"
  by pat_completeness auto
termination
  by (relation "measure length") (auto dest: decode_rune_width)

declare runes.simps [simp del]

definition is_ascii :: "string \<Rightarrow> bool" where
  "is_ascii s \<longleftrightarrow> list_all (\<lambda>c. (of_char c :: nat) < 128) s"

lemma runes_Nil [simp]: "runes [] = []"
  by (simp add: runes.simps)

lemma runes_ascii_Cons [simp]:
  "(of_char c :: nat) < 128 \<Longrightarrow> runes (c # s) = of_char c # runes s"
  by (simp add: runes.simps [of "c # s"] decode_rune_ascii)

lemma runes_ascii: "is_ascii s \<Longrightarrow> runes s = map of_char s"
  by (induction s) (auto simp: is_ascii_def)

lemma length_runes: "length (runes s) \<le> length s"
proof (induction s rule: runes.induct)
  case (1 s)
  show ?case
  proof (cases "s = []")
    case False
    with "1.IH" have "length (runes (drop (snd (decode_rune s)) s)) \<le> length s - snd (decode_rune s)"
      by simp
    then have "Suc (length (runes (drop (snd (decode_rune s)) s))) \<le> length s"
      using decode_rune_width [OF False] by linarith
    with False show ?thesis by (simp add: runes.simps [of s])
  qed simp
qed

text \<open>\<open>utf8.AppendRune\<close> and \<open>strings.Builder.WriteRune\<close>: a code point that is not a rune (a
  surrogate, or above U+10FFFF) is written as the encoding of \<open>RuneError\<close>.\<close>

definition encode_rune :: "rune \<Rightarrow> string" where
  "encode_rune r =
     (let r = (if r > 1114111 \<or> (55296 \<le> r \<and> r \<le> 57343) then RuneError else r)
      in if r < 128 then [char_of r]
         else if r < 2048 then [char_of (192 + r div 64), char_of (128 + r mod 64)]
         else if r < 65536 then
           [char_of (224 + r div 4096), char_of (128 + r div 64 mod 64), char_of (128 + r mod 64)]
         else
           [char_of (240 + r div 262144), char_of (128 + r div 4096 mod 64),
            char_of (128 + r div 64 mod 64), char_of (128 + r mod 64)])"

definition encode_runes :: "rune list \<Rightarrow> string" where
  "encode_runes rs = concat (map encode_rune rs)"

lemma encode_rune_ascii [simp]: "r < 128 \<Longrightarrow> encode_rune r = [char_of r]"
  by (simp add: encode_rune_def)

lemma encode_runes_simps [simp]:
  "encode_runes [] = []" "encode_runes (r # rs) = encode_rune r @ encode_runes rs"
  "encode_runes (rs @ ss) = encode_runes rs @ encode_runes ss"
  by (simp_all add: encode_runes_def)

lemma encode_runes_ascii: "is_ascii s \<Longrightarrow> encode_runes (runes s) = s"
  by (induction s) (auto simp: is_ascii_def)

definition valid_rune :: "rune \<Rightarrow> bool" where
  "valid_rune r \<longleftrightarrow> r \<le> 1114111 \<and> \<not> (55296 \<le> r \<and> r \<le> 57343)"

lemma of_char_of_byte: "n < 256 \<Longrightarrow> of_char (char_of n :: char) = (n :: nat)"
  by simp

lemma decode_lead2: "194 \<le> n \<Longrightarrow> n \<le> 223 \<Longrightarrow> decode_rune (char_of n # s) = decode_tail2 n s"
  by (simp add: of_char_of_byte Let_def del: of_char_of)

lemma decode_lead3: "224 \<le> n \<Longrightarrow> n \<le> 239 \<Longrightarrow> decode_rune (char_of n # s) = decode_tail3 n s"
  by (simp add: of_char_of_byte Let_def del: of_char_of)

lemma decode_lead4: "240 \<le> n \<Longrightarrow> n \<le> 244 \<Longrightarrow> decode_rune (char_of n # s) = decode_tail4 n s"
  by (simp add: of_char_of_byte Let_def del: of_char_of)

lemma cont_byte_char_of [simp]: "n < 64 \<Longrightarrow> cont_byte (char_of (128 + n))"
  "n < 64 \<Longrightarrow> cont_bits (char_of (128 + n)) = n"
  by (simp_all add: cont_byte_def cont_bits_def)

lemma decode_encode_2:
  assumes "128 \<le> r" "r < 2048"
  shows "decode_rune (encode_rune r @ s) = (r, 2)"
proof -
  have a: "2 \<le> r div 64" "r div 64 < 32" using assms by linarith+
  have e: "encode_rune r = [char_of (192 + r div 64), char_of (128 + r mod 64)]"
    using assms by (simp add: encode_rune_def Let_def)
  show ?thesis
    using a unfolding e by (simp add: decode_lead2 del: decode_rune.simps)
qed

lemma decode_encode_3:
  assumes "2048 \<le> r" "r < 65536" "valid_rune r"
  shows "decode_rune (encode_rune r @ s) = (r, 3)"
proof -
  define a b c where abc: "a = r div 4096" "b = r div 64 mod 64" "c = r mod 64"
  have sum: "a * 4096 + b * 64 + c = r"
  proof -
    have "r = r div 64 * 64 + r mod 64" "r div 64 = r div 64 div 64 * 64 + r div 64 mod 64"
      by simp_all
    moreover have "r div 64 div 64 = r div 4096"
      by (simp add: div_mult2_eq [symmetric])
    ultimately show ?thesis unfolding abc by linarith
  qed
  have a: "a < 16" using assms unfolding abc by linarith
  have bc: "b < 64" "c < 64" unfolding abc by simp_all
  have lo: "a = 0 \<Longrightarrow> 32 \<le> b" using assms(1) sum bc by linarith
  have hi: "a = 13 \<Longrightarrow> b \<le> 31" using assms(3) sum bc unfolding valid_rune_def by linarith
  have e: "encode_rune r = [char_of (224 + a), char_of (128 + b), char_of (128 + c)]"
    using assms unfolding abc by (auto simp: encode_rune_def valid_rune_def Let_def)
  have "byte_between (if 224 + a = 224 then 160 else 128) (if 224 + a = 237 then 159 else 191)
      (char_of (128 + b))"
    using bc lo hi by (simp add: byte_between_def)
  then show ?thesis
    using a bc sum unfolding e by (simp add: decode_lead3 del: decode_rune.simps)
qed

lemma decode_encode_4:
  assumes "65536 \<le> r" "r \<le> 1114111"
  shows "decode_rune (encode_rune r @ s) = (r, 4)"
proof -
  define a b c d where abcd: "a = r div 262144" "b = r div 4096 mod 64"
    "c = r div 64 mod 64" "d = r mod 64"
  have sum: "a * 262144 + b * 4096 + c * 64 + d = r"
  proof -
    have "r = r div 64 * 64 + r mod 64" "r div 64 = r div 64 div 64 * 64 + r div 64 mod 64"
      "r div 4096 = r div 4096 div 64 * 64 + r div 4096 mod 64"
      by simp_all
    moreover have "r div 64 div 64 = r div 4096" "r div 4096 div 64 = r div 262144"
      by (simp_all add: div_mult2_eq [symmetric])
    ultimately show ?thesis unfolding abcd by linarith
  qed
  have a: "a \<le> 4" using assms unfolding abcd by linarith
  have bcd: "b < 64" "c < 64" "d < 64" unfolding abcd by simp_all
  have lo: "a = 0 \<Longrightarrow> 16 \<le> b" using assms(1) sum bcd by linarith
  have hi: "a = 4 \<Longrightarrow> b \<le> 15" using assms(2) sum bcd by linarith
  have e: "encode_rune r
      = [char_of (240 + a), char_of (128 + b), char_of (128 + c), char_of (128 + d)]"
    using assms unfolding abcd by (simp add: encode_rune_def Let_def)
  have "byte_between (if 240 + a = 240 then 144 else 128) (if 240 + a = 244 then 143 else 191)
      (char_of (128 + b))"
    using bcd lo hi by (simp add: byte_between_def)
  then show ?thesis
    using a bcd sum unfolding e by (simp add: decode_lead4 del: decode_rune.simps)
qed

lemma length_encode_rune:
  "r < 128 \<Longrightarrow> length (encode_rune r) = 1"
  "128 \<le> r \<Longrightarrow> r < 2048 \<Longrightarrow> length (encode_rune r) = 2"
  "2048 \<le> r \<Longrightarrow> r < 65536 \<Longrightarrow> length (encode_rune r) = 3"
  "65536 \<le> r \<Longrightarrow> r \<le> 1114111 \<Longrightarrow> length (encode_rune r) = 4"
  by (simp_all add: encode_rune_def RuneError_def Let_def)

lemma decode_encode:
  assumes "valid_rune r"
  shows "decode_rune (encode_rune r @ s) = (r, length (encode_rune r))"
proof -
  consider "r < 128" | "128 \<le> r" "r < 2048" | "2048 \<le> r" "r < 65536" | "65536 \<le> r" "r \<le> 1114111"
    using assms unfolding valid_rune_def by linarith
  then show ?thesis
  proof cases
    case 1
    then show ?thesis by (simp add: decode_rune_ascii length_encode_rune)
  qed (simp_all only: decode_encode_2 decode_encode_3 [OF _ _ assms] decode_encode_4
        length_encode_rune)
qed

lemma encode_rune_nonempty [simp]: "encode_rune r \<noteq> []"
  by (simp add: encode_rune_def Let_def)

lemma runes_encode: "list_all valid_rune rs \<Longrightarrow> runes (encode_runes rs) = rs"
proof (induction rs)
  case (Cons r rs)
  then have "decode_rune (encode_rune r @ encode_runes rs) = (r, length (encode_rune r))"
    by (simp add: decode_encode)
  with Cons show ?case by (simp add: runes.simps [of "encode_rune r @ encode_runes rs"])
qed simp

text \<open>\<open>utf8.DecodeLastRuneInString\<close>: walk back over at most four bytes to a byte that can start
  a rune, and decode from there.\<close>

definition rune_start :: "char \<Rightarrow> bool" where
  "rune_start c \<longleftrightarrow> \<not> (128 \<le> (of_char c :: nat) \<and> (of_char c :: nat) < 192)"

definition decode_last_rune :: "string \<Rightarrow> rune \<times> nat" where
  "decode_last_rune s =
     (if s = [] then (RuneError, 0)
      else if (of_char (last s) :: nat) < 128 then (of_char (last s), 1)
      else (case find (\<lambda>k. k \<le> length s \<and> rune_start (s ! (length s - k))) [2, 3, 4] of
              None \<Rightarrow> (RuneError, 1)
            | Some k \<Rightarrow> (let (r, w) = decode_rune (drop (length s - k) s)
                         in if w = k then (r, w) else (RuneError, 1))))"

section \<open>Character classes and case\<close>

record unicode_tables =
  tblLetter :: "rune \<Rightarrow> bool"
  tblNumber :: "rune \<Rightarrow> bool"
  tblUpper :: "rune \<Rightarrow> rune"
  tblLower :: "rune \<Rightarrow> rune"
  tblFold :: "rune \<Rightarrow> rune"

text \<open>Tables that know nothing beyond what is written out below.\<close>

definition no_tables :: unicode_tables where
  "no_tables = \<lparr>tblLetter = (\<lambda>_. False), tblNumber = (\<lambda>_. False), tblUpper = (\<lambda>r. r), tblLower = (\<lambda>r. r), tblFold = (\<lambda>r. r)\<rparr>"

definition IsSpace :: "rune \<Rightarrow> bool" where
  "IsSpace r \<longleftrightarrow>
     (9 \<le> r \<and> r \<le> 13) \<or> r = 32 \<or> r = 133 \<or> r = 160 \<or> r = 5760 \<or> (8192 \<le> r \<and> r \<le> 8202)
     \<or> r = 8232 \<or> r = 8233 \<or> r = 8239 \<or> r = 8287 \<or> r = 12288"

definition IsLetter :: "unicode_tables \<Rightarrow> rune \<Rightarrow> bool" where
  "IsLetter U r \<longleftrightarrow>
     (if r \<le> 255 then (65 \<le> r \<and> r \<le> 90) \<or> (97 \<le> r \<and> r \<le> 122) \<or> r = 170 \<or> r = 181 \<or> r = 186
        \<or> (192 \<le> r \<and> r \<le> 214) \<or> (216 \<le> r \<and> r \<le> 246) \<or> 248 \<le> r
      else tblLetter U r)"

definition IsNumber :: "unicode_tables \<Rightarrow> rune \<Rightarrow> bool" where
  "IsNumber U r \<longleftrightarrow>
     (if r \<le> 255 then (48 \<le> r \<and> r \<le> 57) \<or> r = 178 \<or> r = 179 \<or> r = 185
        \<or> (188 \<le> r \<and> r \<le> 190)
      else tblNumber U r)"

definition rune_upper :: "unicode_tables \<Rightarrow> rune \<Rightarrow> rune" where
  "rune_upper U r = (if r < 128 then (if 97 \<le> r \<and> r \<le> 122 then r - 32 else r) else tblUpper U r)"

definition rune_lower :: "unicode_tables \<Rightarrow> rune \<Rightarrow> rune" where
  "rune_lower U r = (if r < 128 then (if 65 \<le> r \<and> r \<le> 90 then r + 32 else r) else tblLower U r)"

text \<open>\<open>strings.Map\<close>, with \<open>None\<close> for a negative result (the rune is dropped), and the two case
  functions built on it.\<close>

definition str_map :: "(rune \<Rightarrow> rune option) \<Rightarrow> string \<Rightarrow> string" where
  "str_map f s = concat (map (\<lambda>r. case f r of None \<Rightarrow> [] | Some r' \<Rightarrow> encode_rune r') (runes s))"

definition ToUpper :: "unicode_tables \<Rightarrow> string \<Rightarrow> string" where
  "ToUpper U s = str_map (\<lambda>r. Some (rune_upper U r)) s"

definition ToLower :: "unicode_tables \<Rightarrow> string \<Rightarrow> string" where
  "ToLower U s = str_map (\<lambda>r. Some (rune_lower U r)) s"

lemma str_map_ascii_Cons:
  "(of_char c :: nat) < 128 \<Longrightarrow>
   str_map f (c # s) = (case f (of_char c) of None \<Rightarrow> [] | Some r' \<Rightarrow> encode_rune r') @ str_map f s"
  by (simp add: str_map_def)

lemma str_map_Nil [simp]: "str_map f [] = []"
  by (simp add: str_map_def)

lemma str_map_id_ascii: "is_ascii s \<Longrightarrow> str_map Some s = s"
  by (induction s) (auto simp: str_map_ascii_Cons is_ascii_def)

text \<open>\<open>strings.Fields\<close> and \<open>strings.FieldsFunc\<close>: the maximal non-empty runs of runes that are not
  separators.\<close>

fun fields_runes :: "(rune \<Rightarrow> bool) \<Rightarrow> rune list \<Rightarrow> rune list \<Rightarrow> rune list list" where
  "fields_runes f cur [] = (if cur = [] then [] else [cur])"
| "fields_runes f cur (r # rs) =
     (if f r then (if cur = [] then fields_runes f [] rs else cur # fields_runes f [] rs)
      else fields_runes f (cur @ [r]) rs)"

lemma fields_runes_sep_free:
  assumes "w \<in> set (fields_runes f cur rs)" "\<forall>r\<in>set cur. \<not> f r"
  shows "w \<noteq> [] \<and> (\<forall>r\<in>set w. \<not> f r)"
  using assms
proof (induction rs arbitrary: cur)
  case Nil
  then show ?case by (simp split: if_splits)
next
  case (Cons r rs)
  show ?case
  proof (cases "f r")
    case True
    then have "w = cur \<and> cur \<noteq> [] \<or> w \<in> set (fields_runes f [] rs)"
      using Cons.prems(1) by (simp split: if_splits)
    then show ?thesis
      using Cons.prems(2) Cons.IH [of "[]"] by force
  next
    case False
    then have "w \<in> set (fields_runes f (cur @ [r]) rs)" "\<forall>r\<in>set (cur @ [r]). \<not> f r"
      using Cons.prems by auto
    then show ?thesis by (rule Cons.IH)
  qed
qed

text \<open>\<open>strings.FieldsFunc\<close> keeps the bytes of the string: each rune goes with the bytes it was
  decoded from.\<close>

function rune_chunks :: "string \<Rightarrow> (rune \<times> string) list" where
  "rune_chunks s = (if s = [] then []
     else (fst (decode_rune s), take (snd (decode_rune s)) s) # rune_chunks (drop (snd (decode_rune s)) s))"
  by pat_completeness auto
termination
  by (relation "measure length") (auto dest: decode_rune_width)

declare rune_chunks.simps [simp del]

fun fields_chunks :: "(rune \<Rightarrow> bool) \<Rightarrow> string \<Rightarrow> (rune \<times> string) list \<Rightarrow> string list" where
  "fields_chunks f cur [] = (if cur = [] then [] else [cur])"
| "fields_chunks f cur ((r, b) # cs) =
     (if f r then (if cur = [] then fields_chunks f [] cs else cur # fields_chunks f [] cs)
      else fields_chunks f (cur @ b) cs)"

definition FieldsFunc :: "(rune \<Rightarrow> bool) \<Rightarrow> string \<Rightarrow> string list" where
  "FieldsFunc f s = fields_chunks f [] (rune_chunks s)"

definition Fields :: "string \<Rightarrow> string list" where
  "Fields s = FieldsFunc IsSpace s"

lemma rune_chunks_Nil [simp]: "rune_chunks [] = []"
  by (simp add: rune_chunks.simps)

lemma rune_chunks_ascii [simp]:
  "(of_char c :: nat) < 128 \<Longrightarrow> rune_chunks (c # s) = (of_char c, [c]) # rune_chunks s"
  by (simp add: rune_chunks.simps [of "c # s"])

text \<open>A word that \<open>strings.Fields\<close> keeps whole.\<close>

definition plain_word :: "(rune \<Rightarrow> bool) \<Rightarrow> string \<Rightarrow> bool" where
  "plain_word f w \<longleftrightarrow> w \<noteq> [] \<and> list_all (\<lambda>c. (of_char c :: nat) < 128 \<and> \<not> f (of_char c)) w"

lemma fields_chunks_word:
  "list_all (\<lambda>c. (of_char c :: nat) < 128 \<and> \<not> f (of_char c)) w \<Longrightarrow>
   fields_chunks f cur (rune_chunks (w @ s)) = fields_chunks f (cur @ w) (rune_chunks s)"
  by (induction w arbitrary: cur) simp_all

lemma FieldsFunc_Join:
  assumes "f (of_char sep)" and "(of_char sep :: nat) < 128" and "list_all (plain_word f) ws"
  shows "FieldsFunc f (Join ws [sep]) = ws"
  using assms(3)
proof (induction ws)
  case Nil
  then show ?case by (simp add: FieldsFunc_def)
next
  case (Cons w ws)
  then have w: "w \<noteq> []" "list_all (\<lambda>c. (of_char c :: nat) < 128 \<and> \<not> f (of_char c)) w"
    by (simp_all add: plain_word_def)
  show ?case
  proof (cases "ws = []")
    case True
    with w fields_chunks_word [of f w "[]" "[]"] show ?thesis by (simp add: FieldsFunc_def)
  next
    case False
    have "FieldsFunc f (Join (w # ws) [sep]) = w # FieldsFunc f (Join ws [sep])"
      using w fields_chunks_word [of f w "[]" "sep # Join ws [sep]"] assms(1,2)
      by (simp add: FieldsFunc_def Join_Cons [OF False])
    with Cons show ?thesis by simp
  qed
qed

lemma Fields_Join: "list_all (plain_word IsSpace) ws \<Longrightarrow> Fields (Join ws '' '') = ws"
  unfolding Fields_def by (rule FieldsFunc_Join) (simp_all add: IsSpace_def)

text \<open>\<open>strings.EqualFold\<close>: equality under simple case folding, with \<open>tblFold\<close> the canonical member of
  the folding class of a rune beyond ASCII.\<close>

definition rune_fold :: "unicode_tables \<Rightarrow> rune \<Rightarrow> rune" where
  "rune_fold U r = (if r < 128 then rune_lower U r else tblFold U r)"

definition EqualFold :: "unicode_tables \<Rightarrow> string \<Rightarrow> string \<Rightarrow> bool" where
  "EqualFold U s t \<longleftrightarrow> map (rune_fold U) (runes s) = map (rune_fold U) (runes t)"

end
