(* ===== verification/Xirc.thy ===== *)
theory Xirc
  imports Go_Unicode
begin

text \<open>
  \<^verbatim>\<open>src/xirc/xirc.go\<close>, \<^verbatim>\<open>src/xirc/caps.go\<close> and \<^verbatim>\<open>src/xirc/whox.go\<close>: CTCP parsing, channel
  statuses, membership sets, the ISUPPORT value codec, the capability registry and WHOX
  replies.  The numeric commands are those of the IRC protocol.
\<close>

section \<open>CTCP and channel statuses\<close>

definition ctcp_delim :: char where
  "ctcp_delim = CHR 0x01"

definition ParseCTCPMessage :: "unicode_tables \<Rightarrow> irc_message \<Rightarrow> (string \<times> string) option" where
  "ParseCTCPMessage U msg =
     (if (Command msg \<noteq> ''PRIVMSG'' \<and> Command msg \<noteq> ''NOTICE'') \<or> length (Params msg) < 2 then None
      else let text = Params msg ! 1 in
        if \<not> HasPrefix text [ctcp_delim] then None
        else let text = Trim text [ctcp_delim];
                 words = SplitN text (CHR '' '') 2;
                 cmd = ToUpper U (words ! 0);
                 params = (if length words > 1 then words ! 1 else [])
             in Some (cmd, params))"

text \<open>Indexing an empty string panics in Go: \<open>StatusPanic\<close>.\<close>

datatype status_error = StatusTooLong | StatusUnknown | StatusPanic

definition ChannelPublic :: char where "ChannelPublic = CHR ''=''"
definition ChannelSecret :: char where "ChannelSecret = CHR ''@''"
definition ChannelPrivate :: char where "ChannelPrivate = CHR ''*''"

definition ParseChannelStatus :: "string \<Rightarrow> status_error + char" where
  "ParseChannelStatus s =
     (if length s > 1 then Inl StatusTooLong
      else case s of
        [] \<Rightarrow> Inl StatusPanic
      | cs # _ \<Rightarrow> (if cs = ChannelPublic \<or> cs = ChannelSecret \<or> cs = ChannelPrivate then Inr cs
                   else Inl StatusUnknown))"

section \<open>Membership sets\<close>

record membership =
  m_Mode :: char
  m_Prefix :: char

type_synonym membership_set = "membership list"

text \<open>The loop of \<open>MembershipSet.Add\<close>: \<open>None\<close> when the membership is already there, otherwise the
  index to insert at.\<close>

fun add_index :: "membership list \<Rightarrow> membership_set \<Rightarrow> membership \<Rightarrow> nat \<Rightarrow> nat option" where
  "add_index [] l new i = Some i"
| "add_index (av # avs) l new i =
     (if i \<ge> length l then Some i
      else if l ! i = av then (if av = new then None else add_index avs l new (Suc i))
      else if av = new then Some i
      else add_index avs l new i)"

definition MembershipSet_Add :: "membership list \<Rightarrow> membership \<Rightarrow> membership_set \<Rightarrow> membership_set" where
  "MembershipSet_Add avail new l =
     (case add_index avail l new 0 of
        None \<Rightarrow> l
      | Some i \<Rightarrow> take i l @ [new] @ drop i l)"

fun MembershipSet_Remove :: "membership \<Rightarrow> membership_set \<Rightarrow> membership_set" where
  "MembershipSet_Remove m [] = []"
| "MembershipSet_Remove m (x # xs) = (if x = m then xs else x # MembershipSet_Remove m xs)"

text \<open>What a membership set promises: it lists a set of memberships by descending rank, the order
  of \<open>availableMemberships\<close>.\<close>

definition ranked :: "membership list \<Rightarrow> membership set \<Rightarrow> membership_set" where
  "ranked avail S = filter (\<lambda>m. m \<in> S) avail"

lemma ranked_nth: "i < length (ranked avail S) \<Longrightarrow> ranked avail S ! i \<in> S"
  using nth_mem [of i "ranked avail S"] by (simp add: ranked_def)

lemma add_index_ranked:
  assumes "distinct (pre @ avs)" "new \<in> set avs" "new \<notin> S"
  shows "add_index avs (ranked (pre @ avs) S) new (length (ranked pre S))
    = Some (length (ranked (pre @ takeWhile (\<lambda>m. m \<noteq> new) avs) S))"
  using assms
proof (induction avs arbitrary: pre)
  case (Cons av avs)
  let ?l = "ranked (pre @ av # avs) S" and ?i = "length (ranked pre S)"
  show ?case
  proof (cases "av = new")
    case True
    then have n: "\<not> ?i \<ge> length ?l \<Longrightarrow> ?l ! ?i \<noteq> new"
      using Cons.prems ranked_nth [of ?i "pre @ av # avs" S] by auto
    with True show ?thesis by (auto simp: ranked_def)
  next
    case False
    have IH: "add_index avs ?l new (length (ranked (pre @ [av]) S))
        = Some (length (ranked (pre @ av # takeWhile (\<lambda>m. m \<noteq> new) avs) S))"
      using Cons.IH [of "pre @ [av]"] Cons.prems False by simp
    show ?thesis
    proof (cases "av \<in> S")
      case True
      then show ?thesis using IH False by (simp add: ranked_def nth_append)
    next
      case out: False
      show ?thesis
      proof (cases "?i \<ge> length ?l")
        case True
        then have "\<forall>m\<in>set avs. m \<notin> S" using out by (simp add: ranked_def filter_empty_conv)
        then have "\<forall>m\<in>set (takeWhile (\<lambda>m. m \<noteq> new) avs). m \<notin> S" by (meson set_takeWhileD)
        with True out False show ?thesis by (simp add: ranked_def)
      next
        case False
        then have "?l ! ?i \<noteq> av"
          using out ranked_nth [of ?i "pre @ av # avs" S] by auto
        then show ?thesis using IH out False \<open>av \<noteq> new\<close> by (simp add: ranked_def)
      qed
    qed
  qed
qed simp

lemma add_index_present:
  assumes "distinct (pre @ avs)" "new \<in> set avs" "new \<in> S"
  shows "add_index avs (ranked (pre @ avs) S) new (length (ranked pre S)) = None"
  using assms
proof (induction avs arbitrary: pre)
  case (Cons av avs)
  let ?l = "ranked (pre @ av # avs) S" and ?i = "length (ranked pre S)"
  have "new \<in> set (ranked (av # avs) S)" using Cons.prems by (auto simp: ranked_def)
  then have ne: "\<not> ?i \<ge> length ?l"
    using Cons.prems by (auto simp: ranked_def filter_empty_conv)
  show ?case
  proof (cases "av = new")
    case True
    then show ?thesis using Cons.prems ne by (simp add: ranked_def nth_append)
  next
    case False
    have IH: "add_index avs ?l new (length (ranked (pre @ [av]) S)) = None"
      using Cons.IH [of "pre @ [av]"] Cons.prems False by simp
    show ?thesis
    proof (cases "av \<in> S")
      case True
      then show ?thesis using IH False ne by (simp add: ranked_def nth_append)
    next
      case out: False
      then have "?l ! ?i \<noteq> av"
        using ne ranked_nth [of ?i "pre @ av # avs" S] by auto
      then show ?thesis using IH out False ne by (simp add: ranked_def)
    qed
  qed
qed simp

lemma ranked_insert_split:
  assumes "distinct avail" "new \<in> set avail" "new \<notin> S"
  shows "ranked avail (insert new S)
    = take (length (ranked (takeWhile (\<lambda>m. m \<noteq> new) avail) S)) (ranked avail S) @ [new]
      @ drop (length (ranked (takeWhile (\<lambda>m. m \<noteq> new) avail) S)) (ranked avail S)"
proof -
  obtain a b where ab: "avail = a @ new # b" "new \<notin> set a"
    using split_list_first [OF assms(2)] by auto
  with assms(1) have nb: "new \<notin> set b" by auto
  have tw: "takeWhile (\<lambda>m. m \<noteq> new) avail = a" using ab by (simp add: takeWhile_append)
  have "filter (\<lambda>m. m = new \<or> m \<in> S) a = filter (\<lambda>m. m \<in> S) a"
    and "filter (\<lambda>m. m = new \<or> m \<in> S) b = filter (\<lambda>m. m \<in> S) b"
    using ab(2) nb by (auto intro: filter_cong)
  then show ?thesis unfolding tw using ab assms(3) by (simp add: ranked_def)
qed

lemma MembershipSet_Add_ranked:
  assumes "distinct avail" "new \<in> set avail"
  shows "MembershipSet_Add avail new (ranked avail S) = ranked avail (insert new S)"
proof (cases "new \<in> S")
  case True
  then have "insert new S = S" by auto
  with True add_index_present [of "[]" avail new S] assms show ?thesis
    by (simp add: MembershipSet_Add_def ranked_def)
next
  case False
  then show ?thesis
    using add_index_ranked [of "[]" avail new S] assms ranked_insert_split [OF assms False]
    by (simp add: MembershipSet_Add_def ranked_def)
qed

lemma MembershipSet_Remove_eq: "MembershipSet_Remove m l = remove1 m l"
  by (induction l) auto

lemma MembershipSet_Remove_ranked:
  "distinct avail \<Longrightarrow> MembershipSet_Remove m (ranked avail S) = ranked avail (S - {m})"
  by (auto simp: MembershipSet_Remove_eq ranked_def distinct_remove1_removeAll removeAll_filter_not_eq
      intro: filter_cong)

section \<open>ISUPPORT values\<close>

definition isupport_encode :: "string \<Rightarrow> string" where
  "isupport_encode v = concat (map (\<lambda>c. if c = CHR '' '' then [CHR 0x5C, CHR ''x'', CHR ''2'', CHR ''0'']
     else if c = CHR 0x5C then [CHR 0x5C, CHR ''x'', CHR ''5'', CHR ''C'']
     else [c]) v)"

fun DecodeIsupportValue :: "string \<Rightarrow> string" where
  "DecodeIsupportValue [] = []"
| "DecodeIsupportValue (c # s) =
     (if HasPrefix (c # s) [CHR 0x5C, CHR ''x'', CHR ''2'', CHR ''0'']
        then CHR '' '' # DecodeIsupportValue (drop 3 s)
      else if HasPrefix (c # s) [CHR 0x5C, CHR ''x'', CHR ''5'', CHR ''C'']
        then CHR 0x5C # DecodeIsupportValue (drop 3 s)
      else c # DecodeIsupportValue s)"

lemma isupport_encode_Cons:
  "isupport_encode (c # v) = (if c = CHR '' '' then [CHR 0x5C, CHR ''x'', CHR ''2'', CHR ''0'']
     else if c = CHR 0x5C then [CHR 0x5C, CHR ''x'', CHR ''5'', CHR ''C'']
     else [c]) @ isupport_encode v"
  by (simp add: isupport_encode_def)

lemma decode_encode_isupport: "DecodeIsupportValue (isupport_encode v) = v"
proof (induction v)
  case (Cons c v)
  then show ?case by (simp add: isupport_encode_Cons HasPrefix_def)
qed (simp add: isupport_encode_def)

lemma isupport_encode_no_space: "CHR '' '' \<notin> set (isupport_encode v)"
  by (induction v) (auto simp: isupport_encode_def)

section \<open>The capability registry\<close>

record cap_registry =
  Available :: "(string, string) gomap"
  Enabled :: "(string, unit) gomap"

definition NewCapRegistry :: cap_registry where
  "NewCapRegistry = \<lparr>Available = [], Enabled = []\<rparr>"

definition caps_IsAvailable :: "cap_registry \<Rightarrow> string \<Rightarrow> bool" where
  "caps_IsAvailable cr name \<longleftrightarrow> go_get (Available cr) name \<noteq> None"

definition caps_IsEnabled :: "cap_registry \<Rightarrow> string \<Rightarrow> bool" where
  "caps_IsEnabled cr name \<longleftrightarrow> go_get (Enabled cr) name \<noteq> None"

definition caps_Del :: "cap_registry \<Rightarrow> string \<Rightarrow> cap_registry" where
  "caps_Del cr name = cr\<lparr>Available := go_del name (Available cr), Enabled := go_del name (Enabled cr)\<rparr>"

definition caps_SetEnabled :: "cap_registry \<Rightarrow> string \<Rightarrow> bool \<Rightarrow> cap_registry" where
  "caps_SetEnabled cr name enabled =
     (if enabled then cr\<lparr>Enabled := go_put name () (Enabled cr)\<rparr>
      else cr\<lparr>Enabled := go_del name (Enabled cr)\<rparr>)"

lemma caps_simps [simp]:
  "\<not> caps_IsAvailable NewCapRegistry n" "\<not> caps_IsEnabled NewCapRegistry n"
  "caps_IsAvailable (caps_Del cr m) n \<longleftrightarrow> n \<noteq> m \<and> caps_IsAvailable cr n"
  "caps_IsEnabled (caps_Del cr m) n \<longleftrightarrow> n \<noteq> m \<and> caps_IsEnabled cr n"
  "caps_IsAvailable (caps_SetEnabled cr m b) n \<longleftrightarrow> caps_IsAvailable cr n"
  "caps_IsEnabled (caps_SetEnabled cr m b) n \<longleftrightarrow> (if n = m then b else caps_IsEnabled cr n)"
  by (auto simp: NewCapRegistry_def caps_IsAvailable_def caps_IsEnabled_def caps_Del_def
      caps_SetEnabled_def)

section \<open>WHOX replies\<close>

definition RPL_WHOREPLY :: string where "RPL_WHOREPLY = ''352''"
definition RPL_WHOSPCRPL :: string where "RPL_WHOSPCRPL = ''354''"

definition whoxFields :: string where
  "whoxFields = ''tcuihsnfdlaor''"

record whox_info =
  Token :: string
  wi_Channel :: string
  Username :: string
  Hostname :: string
  Server :: string
  Nickname :: string
  Flags :: string
  Account :: string
  Realname :: string

definition whox_zero :: whox_info where
  "whox_zero = \<lparr>Token = [], wi_Channel = [], Username = [], Hostname = [], Server = [],
     Nickname = [], Flags = [], Account = [], Realname = []\<rparr>"

definition whox_channel :: "whox_info \<Rightarrow> string" where
  "whox_channel info = (if wi_Channel info = [] then ''*'' else wi_Channel info)"

definition whox_hostname :: "whox_info \<Rightarrow> string" where
  "whox_hostname info = (if HasPrefix (Hostname info) '':'' then CHR ''0'' # Hostname info
     else Hostname info)"

definition whox_get :: "whox_info \<Rightarrow> char \<Rightarrow> string" where
  "whox_get info k =
     (if k = CHR ''t'' then Token info
      else if k = CHR ''c'' then whox_channel info
      else if k = CHR ''u'' then Username info
      else if k = CHR ''i'' then ''255.255.255.255''
      else if k = CHR ''h'' then whox_hostname info
      else if k = CHR ''s'' then Server info
      else if k = CHR ''n'' then Nickname info
      else if k = CHR ''f'' then Flags info
      else if k = CHR ''d'' then ''0''
      else if k = CHR ''l'' then ''0''
      else if k = CHR ''a'' then
        (if Account info \<noteq> [] \<and> Account info \<noteq> ''*'' then Account info else ''0'')
      else if k = CHR ''o'' then ''0''
      else if k = CHR ''r'' then Realname info
      else [])"

definition whox_set :: "whox_info \<Rightarrow> char \<Rightarrow> string \<Rightarrow> whox_info" where
  "whox_set info k v =
     (if k = CHR ''t'' then info\<lparr>Token := v\<rparr>
      else if k = CHR ''c'' then info\<lparr>wi_Channel := v\<rparr>
      else if k = CHR ''u'' then info\<lparr>Username := v\<rparr>
      else if k = CHR ''h'' then info\<lparr>Hostname := v\<rparr>
      else if k = CHR ''s'' then info\<lparr>Server := v\<rparr>
      else if k = CHR ''n'' then info\<lparr>Nickname := v\<rparr>
      else if k = CHR ''f'' then info\<lparr>Flags := v\<rparr>
      else if k = CHR ''a'' then info\<lparr>Account := v\<rparr>
      else if k = CHR ''r'' then info\<lparr>Realname := v\<rparr>
      else info)"

definition whox_selected :: "string \<Rightarrow> string" where
  "whox_selected flds = filter (\<lambda>f. f \<in> set flds) whoxFields"

definition GenerateWHOXReply :: "string \<Rightarrow> whox_info \<Rightarrow> irc_message" where
  "GenerateWHOXReply flds info =
     (if flds = [] then
        mk_msg RPL_WHOREPLY [''*'', whox_channel info, Username info, whox_hostname info, Server info,
          Nickname info, Flags info, ''0 '' @ Realname info]
      else mk_msg RPL_WHOSPCRPL (''*'' # map (whox_get info) (whox_selected flds)))"

definition ParseWHOXOptions :: "unicode_tables \<Rightarrow> string \<Rightarrow> string \<times> string" where
  "ParseWHOXOptions U options =
     (let optionsParts = SplitN options (CHR ''%'') 2
      in if length optionsParts = 2 then
           (let parts = SplitN (optionsParts ! 1) (CHR '','') 2;
                flds = ToLower U (parts ! 0)
            in (flds, if length parts = 2 \<and> CHR ''t'' \<in> set flds then parts ! 1 else []))
         else ([], []))"

datatype whox_error = WhoxInvalidCommand | WhoxNoParams | WhoxMissingValue char

fun whox_fill :: "string \<Rightarrow> string list \<Rightarrow> whox_info \<Rightarrow> whox_error + whox_info" where
  "whox_fill [] vs info = Inr info"
| "whox_fill (f # fs) [] info = Inl (WhoxMissingValue f)"
| "whox_fill (f # fs) (v # vs) info = whox_fill fs vs (whox_set info f v)"

definition ParseWHOXReply :: "irc_message \<Rightarrow> string \<Rightarrow> whox_error + whox_info" where
  "ParseWHOXReply msg flds =
     (if Command msg \<noteq> RPL_WHOSPCRPL then Inl WhoxInvalidCommand
      else case Params msg of
        [] \<Rightarrow> Inl WhoxNoParams
      | _ # values \<Rightarrow> whox_fill (whox_selected flds) values whox_zero)"

lemma whox_fill_map:
  "whox_fill fs (map g fs @ vs) info = Inr (foldl (\<lambda>i f. whox_set i f (g f)) info fs)"
  by (induction fs arbitrary: info) auto

lemma whox_fill_error: "length vs < length fs \<Longrightarrow> \<exists>f\<in>set fs. whox_fill fs vs info = Inl (WhoxMissingValue f)"
  by (induction fs vs info rule: whox_fill.induct) auto

lemma whox_get_set_other: "f \<noteq> k \<Longrightarrow> whox_get (whox_set info f v) k = whox_get info k"
  by (auto simp: whox_get_def whox_set_def whox_channel_def whox_hostname_def)

lemma whox_get_unknown: "k \<notin> set whoxFields \<Longrightarrow> whox_get info k = []"
  by (auto simp: whox_get_def whoxFields_def)

lemma whox_hostname_norm: "whox_hostname (i\<lparr>Hostname := whox_hostname info\<rparr>) = whox_hostname info"
  by (simp add: whox_hostname_def HasPrefix_def)

lemma whox_channel_norm: "whox_channel (i\<lparr>wi_Channel := whox_channel info\<rparr>) = whox_channel info"
  by (simp add: whox_channel_def)

lemma whox_get_set_same: "whox_get (whox_set i k (whox_get info k)) k = whox_get info k"
proof (cases "k \<in> set whoxFields")
  case True
  then have "k = CHR ''t'' \<or> k = CHR ''c'' \<or> k = CHR ''u'' \<or> k = CHR ''i'' \<or> k = CHR ''h''
      \<or> k = CHR ''s'' \<or> k = CHR ''n'' \<or> k = CHR ''f'' \<or> k = CHR ''d'' \<or> k = CHR ''l''
      \<or> k = CHR ''a'' \<or> k = CHR ''o'' \<or> k = CHR ''r''"
    by (simp add: whoxFields_def)
  then show ?thesis
    by (elim disjE)
      (simp_all add: whox_get_def whox_set_def whox_channel_norm whox_hostname_norm)
qed (simp add: whox_get_unknown)

lemma whox_fold_get:
  "distinct fs \<Longrightarrow> whox_get (foldl (\<lambda>i f. whox_set i f (whox_get info f)) i0 fs) k
     = (if k \<in> set fs then whox_get info k else whox_get i0 k)"
proof (induction fs rule: rev_induct)
  case (snoc f fs)
  then show ?case by (cases "k = f") (auto simp: whox_get_set_same whox_get_set_other)
qed simp

lemma distinct_whox_selected [simp]: "distinct (whox_selected flds)"
proof -
  have "distinct whoxFields" by (simp add: whoxFields_def)
  then show ?thesis unfolding whox_selected_def by (rule distinct_filter)
qed

lemma set_whox_selected: "k \<in> set (whox_selected flds) \<longleftrightarrow> k \<in> set whoxFields \<and> k \<in> set flds"
  by (auto simp: whox_selected_def)

section \<open>Properties\<close>

text \<open>Adding a membership to a membership set that lists a set of memberships by rank gives
  the list by rank of the set with the new membership, and removing one gives the list by rank
  of the set without it: the two operations implement set insertion and deletion and keep the
  order of descending rank.\<close>

theorem membership_set_refines:
  assumes "distinct avail" "new \<in> set avail"
  shows "MembershipSet_Add avail new (ranked avail S) = ranked avail (insert new S)
    \<and> MembershipSet_Remove new (ranked avail S) = ranked avail (S - {new})"
  using assms by (simp add: MembershipSet_Add_ranked MembershipSet_Remove_ranked)

theorem membership_set_refines_witness:
  "MembershipSet_Add [\<lparr>m_Mode = CHR ''o'', m_Prefix = CHR ''@''\<rparr>, \<lparr>m_Mode = CHR ''v'', m_Prefix = CHR ''+''\<rparr>]
     \<lparr>m_Mode = CHR ''o'', m_Prefix = CHR ''@''\<rparr> [\<lparr>m_Mode = CHR ''v'', m_Prefix = CHR ''+''\<rparr>]
   = [\<lparr>m_Mode = CHR ''o'', m_Prefix = CHR ''@''\<rparr>, \<lparr>m_Mode = CHR ''v'', m_Prefix = CHR ''+''\<rparr>]"
  using membership_set_refines [of
      "[\<lparr>m_Mode = CHR ''o'', m_Prefix = CHR ''@''\<rparr>, \<lparr>m_Mode = CHR ''v'', m_Prefix = CHR ''+''\<rparr>]"
      "\<lparr>m_Mode = CHR ''o'', m_Prefix = CHR ''@''\<rparr>" "{\<lparr>m_Mode = CHR ''v'', m_Prefix = CHR ''+''\<rparr>}"]
  by (simp add: ranked_def)

text \<open>Decoding an encoded ISUPPORT value gives the value back, and an encoded value has no
  space, so that it stays one parameter of the message.\<close>

theorem isupport_roundtrip:
  "DecodeIsupportValue (isupport_encode v) = v \<and> CHR '' '' \<notin> set (isupport_encode v)"
  by (simp add: decode_encode_isupport isupport_encode_no_space)

text \<open>C32. A WHOX reply generated for a non-empty field list parses with the same field list, and
  the parsed information answers every requested field as the original does.\<close>

theorem whox_roundtrip:
  assumes "flds \<noteq> []"
  shows "\<exists>p. ParseWHOXReply (GenerateWHOXReply flds info) flds = Inr p
    \<and> (\<forall>k\<in>set flds. whox_get p k = whox_get info k)"
proof -
  let ?p = "foldl (\<lambda>i f. whox_set i f (whox_get info f)) whox_zero (whox_selected flds)"
  have "ParseWHOXReply (GenerateWHOXReply flds info) flds = Inr ?p"
    using assms whox_fill_map [of "whox_selected flds" "whox_get info" "[]" whox_zero]
    by (simp add: ParseWHOXReply_def GenerateWHOXReply_def)
  moreover have "whox_get ?p k = whox_get info k" if "k \<in> set flds" for k
    using that by (cases "k \<in> set whoxFields")
      (simp_all add: whox_fold_get set_whox_selected whox_get_unknown)
  ultimately show ?thesis by blast
qed

theorem whox_roundtrip_witness:
  "\<exists>p. ParseWHOXReply (GenerateWHOXReply ''nah'' (whox_zero\<lparr>Nickname := ''jwz'', Hostname := ''::1''\<rparr>)) ''nah''
     = Inr p \<and> whox_get p (CHR ''h'') = ''0::1''"
  using whox_roundtrip [of "''nah''" "whox_zero\<lparr>Nickname := ''jwz'', Hostname := ''::1''\<rparr>"]
  by (auto simp: whox_get_def whox_hostname_def HasPrefix_def)

end
