(* ===== verification/Base64.thy ===== *)
theory Base64
  imports Prelude
begin

text \<open>
  Go's \<open>encoding/base64\<close>: \<open>StdEncoding\<close> (padded), used for SASL messages, and
  \<open>RawURLEncoding\<close> (no padding), used for internal message IDs.  The decoders skip carriage
  returns and line feeds, as the library does.
\<close>

definition std_alphabet :: string where
  "std_alphabet = ''ABCDEFGHIJKLMNOPQRSTUVWXYZabcdefghijklmnopqrstuvwxyz0123456789+/''"

definition url_alphabet :: string where
  "url_alphabet = ''ABCDEFGHIJKLMNOPQRSTUVWXYZabcdefghijklmnopqrstuvwxyz0123456789-_''"

definition b64_val :: "string \<Rightarrow> char \<Rightarrow> nat option" where
  "b64_val alpha c = IndexByte alpha c"

text \<open>The encoder over byte values; \<open>pad\<close> is the padding to append to an incomplete group.\<close>

fun b64_enc :: "string \<Rightarrow> bool \<Rightarrow> nat list \<Rightarrow> string" where
  "b64_enc alpha pad (a # b # c # r) =
     alpha ! (a div 4) # alpha ! (a mod 4 * 16 + b div 16) # alpha ! (b mod 16 * 4 + c div 64)
     # alpha ! (c mod 64) # b64_enc alpha pad r"
| "b64_enc alpha pad [a, b] =
     [alpha ! (a div 4), alpha ! (a mod 4 * 16 + b div 16), alpha ! (b mod 16 * 4)]
     @ (if pad then ''='' else [])"
| "b64_enc alpha pad [a] = [alpha ! (a div 4), alpha ! (a mod 4 * 16)] @ (if pad then ''=='' else [])"
| "b64_enc alpha pad [] = []"

fun b64_dec :: "string \<Rightarrow> bool \<Rightarrow> string \<Rightarrow> nat list option" where
  "b64_dec alpha pad [] = Some []"
| "b64_dec alpha pad [x] = None"
| "b64_dec alpha pad [x, y] =
     (if pad then None else
      case (b64_val alpha x, b64_val alpha y) of
        (Some p, Some q) \<Rightarrow> Some [p * 4 + q div 16]
      | _ \<Rightarrow> None)"
| "b64_dec alpha pad [x, y, z] =
     (if pad then None else
      case (b64_val alpha x, b64_val alpha y, b64_val alpha z) of
        (Some p, Some q, Some u) \<Rightarrow> Some [p * 4 + q div 16, q mod 16 * 16 + u div 4]
      | _ \<Rightarrow> None)"
| "b64_dec alpha pad (x # y # z # w # r) =
     (case (b64_val alpha x, b64_val alpha y) of
        (Some p, Some q) \<Rightarrow>
          if pad \<and> z = CHR ''='' \<and> w = CHR ''='' \<and> r = [] then Some [p * 4 + q div 16]
          else (case b64_val alpha z of None \<Rightarrow> None | Some u \<Rightarrow>
            if pad \<and> w = CHR ''='' \<and> r = [] then Some [p * 4 + q div 16, q mod 16 * 16 + u div 4]
            else (case b64_val alpha w of None \<Rightarrow> None | Some v \<Rightarrow>
              (case b64_dec alpha pad r of None \<Rightarrow> None | Some bs \<Rightarrow>
                 Some ((p * 4 + q div 16) # (q mod 16 * 16 + u div 4) # (u mod 4 * 64 + v) # bs))))
      | _ \<Rightarrow> None)"

definition skip_newlines :: "string \<Rightarrow> string" where
  "skip_newlines s = filter (\<lambda>c. c \<noteq> CHR 0x0A \<and> c \<noteq> CHR 0x0D) s"

definition std_encode :: "string \<Rightarrow> string" where
  "std_encode s = b64_enc std_alphabet True (map of_char s)"

definition std_decode :: "string \<Rightarrow> string option" where
  "std_decode s = map_option (map char_of) (b64_dec std_alphabet True (skip_newlines s))"

definition raw_url_encode :: "string \<Rightarrow> string" where
  "raw_url_encode s = b64_enc url_alphabet False (map of_char s)"

definition raw_url_decode :: "string \<Rightarrow> string option" where
  "raw_url_decode s = map_option (map char_of) (b64_dec url_alphabet False (skip_newlines s))"

section \<open>Round trip\<close>

text \<open>The contract of an alphabet.\<close>

locale b64_alphabet =
  fixes alpha :: string
  assumes alpha_length: "length alpha = 64"
    and alpha_distinct: "distinct alpha"
    and alpha_plain: "CHR ''='' \<notin> set alpha" "CHR 0x0A \<notin> set alpha" "CHR 0x0D \<notin> set alpha"
begin

lemma IndexByte_nth: "distinct s \<Longrightarrow> n < length s \<Longrightarrow> IndexByte s (s ! n) = Some n"
proof (induction s arbitrary: n)
  case (Cons x s)
  then show ?case by (cases n) auto
qed simp

lemma b64_val_nth: "n < 64 \<Longrightarrow> b64_val alpha (alpha ! n) = Some n"
  by (simp add: b64_val_def IndexByte_nth alpha_distinct alpha_length)

lemma nth_plain:
  assumes "n < 64"
  shows "alpha ! n \<noteq> CHR ''=''" "alpha ! n \<noteq> CHR 0x0A" "alpha ! n \<noteq> CHR 0x0D"
  using assms alpha_plain alpha_length by (metis nth_mem)+

lemma byte_parts:
  assumes "a < 256" "b < 256" "(c::nat) < 256"
  shows "a div 4 < 64" "a mod 4 * 16 + b div 16 < 64" "b mod 16 * 4 + c div 64 < 64" "c mod 64 < 64"
    "a mod 4 * 16 < 64" "b mod 16 * 4 < 64"
  using assms by linarith+

lemma recombine:
  assumes "a < 256" "b < 256" "(c::nat) < 256"
  shows "a div 4 * 4 + (a mod 4 * 16 + b div 16) div 16 = a"
    "(a mod 4 * 16 + b div 16) mod 16 * 16 + (b mod 16 * 4 + c div 64) div 4 = b"
    "(b mod 16 * 4 + c div 64) mod 4 * 64 + c mod 64 = c"
proof -
  have b: "b div 16 < 16" and c: "c div 64 < 4" using assms by linarith+
  show "a div 4 * 4 + (a mod 4 * 16 + b div 16) div 16 = a" using b by simp
  have "(a mod 4 * 16 + b div 16) mod 16 = b div 16"
    using b by (simp add: mod_less)
  moreover have "(b mod 16 * 4 + c div 64) div 4 = b mod 16" using c by simp
  ultimately show "(a mod 4 * 16 + b div 16) mod 16 * 16 + (b mod 16 * 4 + c div 64) div 4 = b"
    by simp
  have "(b mod 16 * 4 + c div 64) mod 4 = c div 64" using c by (simp add: mod_less)
  then show "(b mod 16 * 4 + c div 64) mod 4 * 64 + c mod 64 = c" by simp
qed

lemmas bytes_induct = b64_enc.induct [where P = "\<lambda>_ _ bs. P bs" for P, case_names Three Two One Nil]

lemma enc_plain:
  "\<forall>b\<in>set bs. b < 256 \<Longrightarrow> CHR 0x0A \<notin> set (b64_enc alpha pad bs) \<and> CHR 0x0D \<notin> set (b64_enc alpha pad bs)"
proof (induction bs rule: bytes_induct)
  case (Three alpha' pad' a b c r)
  then have lt: "a < 256" "b < 256" "c < 256" by auto
  show ?case using Three byte_parts [OF lt] by (simp add: nth_plain [THEN not_sym])
next
  case (Two alpha' pad' a b)
  then have lt: "a < 256" "b < 256" "(0::nat) < 256" by auto
  show ?case using byte_parts [OF lt] by (simp add: nth_plain [THEN not_sym])
next
  case (One alpha' pad' a)
  then have lt: "a < 256" "(0::nat) < 256" "(0::nat) < 256" by auto
  show ?case using byte_parts [OF lt] by (simp add: nth_plain [THEN not_sym])
qed simp

lemma dec_enc: "\<forall>b\<in>set bs. b < 256 \<Longrightarrow> b64_dec alpha pad (b64_enc alpha pad bs) = Some bs"
proof (induction bs rule: bytes_induct)
  case (Three alpha' pad' a b c r)
  then have lt: "a < 256" "b < 256" "c < 256" by auto
  from Three have IH: "b64_dec alpha pad (b64_enc alpha pad r) = Some r" by simp
  show ?case
    using byte_parts [OF lt] recombine [OF lt]
    by (simp add: b64_val_nth nth_plain IH)
next
  case (Two alpha' pad' a b)
  then have lt: "a < 256" "b < 256" "(0::nat) < 256" by auto
  show ?case
    using byte_parts [OF lt] recombine(1,2) [OF lt]
    by (simp add: b64_val_nth nth_plain)
next
  case (One alpha' pad' a)
  then have lt: "a < 256" "(0::nat) < 256" "(0::nat) < 256" by auto
  show ?case
    using byte_parts [OF lt] recombine(1) [OF lt]
    by (simp add: b64_val_nth nth_plain)
qed simp

lemma skip_newlines_enc: "\<forall>b\<in>set bs. b < 256 \<Longrightarrow> skip_newlines (b64_enc alpha pad bs) = b64_enc alpha pad bs"
  using enc_plain [of bs pad] by (auto simp: skip_newlines_def filter_id_conv)

end

interpretation std: b64_alphabet std_alphabet
  by unfold_locales (simp_all add: std_alphabet_def)

interpretation url: b64_alphabet url_alphabet
  by unfold_locales (simp_all add: url_alphabet_def)

lemma bytes_of_string: "\<forall>b\<in>set (map of_char s). b < (256::nat)"
  by simp

lemma std_decode_encode [simp]: "std_decode (std_encode s) = Some s"
  using std.dec_enc [OF bytes_of_string [of s]] std.skip_newlines_enc [OF bytes_of_string [of s]]
  by (simp add: std_decode_def std_encode_def comp_def)

lemma raw_url_decode_encode [simp]: "raw_url_decode (raw_url_encode s) = Some s"
  using url.dec_enc [OF bytes_of_string [of s]] url.skip_newlines_enc [OF bytes_of_string [of s]]
  by (simp add: raw_url_decode_def raw_url_encode_def comp_def)

end
