(* ===== verification/Genmsg.thy ===== *)
theory Genmsg
  imports Xirc Base64 "HOL-Library.Multiset" "HOL-Library.List_Lexorder" "HOL-Library.Char_ord" "HOL-Library.Product_Lexorder"
begin

text \<open>
  \<^verbatim>\<open>src/xirc/genmsg.go\<close>: the generators that split long lists over several IRC messages.  Each
  loop is a recursive function over the remaining items with the buffers as arguments.  The
  lemmas show that nothing is lost or reordered and that the messages respect the protocol's
  length limits.
\<close>

definition maxMessageLength :: nat where "maxMessageLength = 512"
definition maxMessageParams :: nat where "maxMessageParams = 15"
definition MaxSASLLength :: nat where "MaxSASLLength = 400"

section \<open>JOIN\<close>

text \<open>\<open>sort.Sort\<close> with \<open>joinSorter.Less\<close>: channels with a key first, then by name.  Channels that
  compare equal (same name, both with a key or both without) may come in any order; the model
  keeps their input order.\<close>

definition joinSorter_key :: "string \<times> string \<Rightarrow> bool \<times> string" where
  "joinSorter_key p = (snd p = [], fst p)"

definition join_msg :: "string \<Rightarrow> string \<Rightarrow> irc_message" where
  "join_msg channelsBuf keysBuf =
     mk_msg ''JOIN'' (channelsBuf # (if keysBuf \<noteq> [] then [keysBuf] else []))"

definition join_max :: nat where
  "join_max = maxMessageLength - (length ''JOIN'' + 2)"

fun join_loop :: "(string \<times> string) list \<Rightarrow> string \<Rightarrow> string \<Rightarrow> irc_message list" where
  "join_loop [] cb kb = (if cb \<noteq> [] then [join_msg cb kb] else [])"
| "join_loop ((channel, key) # rest) cb kb =
     (let n = length cb + length kb + 1 + length channel + (if key \<noteq> [] then 1 + length key else 0)
      in if cb \<noteq> [] \<and> n > join_max
         then join_msg cb kb # join_loop rest channel key
         else join_loop rest
                ((if cb \<noteq> [] then cb @ '','' else []) @ channel)
                (if key \<noteq> [] then (if kb \<noteq> [] then kb @ '','' else []) @ key else kb))"

text \<open>\<open>None\<close>: the index into \<open>keys\<close> is out of range and Go panics.\<close>

definition GenerateJoin :: "string list \<Rightarrow> string list \<Rightarrow> irc_message list option" where
  "GenerateJoin channels keys =
     (if length keys < length channels then None
      else Some (join_loop (sort_key joinSorter_key (zip channels keys)) [] []))"

section \<open>ISUPPORT and MOTD\<close>

definition RPL_ISUPPORT :: string where "RPL_ISUPPORT = ''005''"
definition RPL_MOTDSTART :: string where "RPL_MOTDSTART = ''375''"
definition RPL_MOTD :: string where "RPL_MOTD = ''372''"
definition RPL_ENDOFMOTD :: string where "RPL_ENDOFMOTD = ''376''"
definition RPL_NAMREPLY :: string where "RPL_NAMREPLY = ''353''"
definition RPL_ENDOFNAMES :: string where "RPL_ENDOFNAMES = ''366''"

definition isupport_token :: "string \<times> string option \<Rightarrow> string" where
  "isupport_token kv = (case kv of (k, Some v) \<Rightarrow> k @ ''='' @ v | (k, None) \<Rightarrow> k)"

definition maxTokens :: nat where
  "maxTokens = maxMessageParams - 2"

definition isupport_msg :: "string list \<Rightarrow> irc_message" where
  "isupport_msg tokens = mk_msg RPL_ISUPPORT (''*'' # map isupport_encode tokens @ [''are supported''])"

function isupport_loop :: "string list \<Rightarrow> irc_message list" where
  "isupport_loop tokens =
     (if tokens = [] then []
      else if length tokens > maxTokens
        then isupport_msg (take maxTokens tokens) # isupport_loop (drop maxTokens tokens)
      else [isupport_msg tokens])"
  by pat_completeness auto
termination
  by (relation "measure length") (auto simp: maxTokens_def maxMessageParams_def)

declare isupport_loop.simps [simp del]

definition GenerateIsupport :: "(string, string option) gomap \<Rightarrow> irc_message list" where
  "GenerateIsupport isupport = isupport_loop (sort (map isupport_token isupport))"

definition GenerateMOTD :: "string \<Rightarrow> irc_message list" where
  "GenerateMOTD motd =
     [mk_msg RPL_MOTDSTART [''*'', ''- Message of the Day -'']]
     @ map (\<lambda>l. mk_msg RPL_MOTD [''*'', l]) (Split motd (CHR 0x0A))
     @ [mk_msg RPL_ENDOFMOTD [''*'', ''End of /MOTD command.'']]"

section \<open>MONITOR\<close>

definition monitor_msg :: "string \<Rightarrow> string list \<Rightarrow> irc_message" where
  "monitor_msg subcmd buf = mk_msg ''MONITOR'' [subcmd, Join buf '','']"

definition monitor_max :: "string \<Rightarrow> int" where
  "monitor_max subcmd = int maxMessageLength - int (length (''MONITOR '' @ subcmd @ '' ''))"

fun monitor_loop :: "string \<Rightarrow> string list \<Rightarrow> string list \<Rightarrow> nat \<Rightarrow> irc_message list" where
  "monitor_loop subcmd [] buf n = (if buf \<noteq> [] then [monitor_msg subcmd buf] else [])"
| "monitor_loop subcmd (target # targets) buf n =
     (if int (n + length target + 1) > monitor_max subcmd
      then monitor_msg subcmd buf # monitor_loop subcmd targets [target] (length target + 1)
      else monitor_loop subcmd targets (buf @ [target]) (n + (length target + 1)))"

definition GenerateMonitor :: "string \<Rightarrow> string list \<Rightarrow> irc_message list" where
  "GenerateMonitor subcmd targets = monitor_loop subcmd targets [] 0"

section \<open>NAMES\<close>

text \<open>\<open>msgString\<close> stands for \<open>(*irc.Message).String\<close> of the IRC library, which the source uses to
  measure the message without members.\<close>

definition names_msg :: "char \<Rightarrow> string \<Rightarrow> string \<Rightarrow> irc_message" where
  "names_msg status channel text = mk_msg RPL_NAMREPLY [''*'', [status], channel, text]"

fun names_loop :: "int \<Rightarrow> char \<Rightarrow> string \<Rightarrow> string list \<Rightarrow> string \<Rightarrow> irc_message list" where
  "names_loop maxLength status channel [] buf =
     (if buf \<noteq> [] then [names_msg status channel buf] else [])"
| "names_loop maxLength status channel (s # members) buf =
     (if buf \<noteq> [] \<and> int (length buf + 1 + length s) > maxLength
      then names_msg status channel buf # names_loop maxLength status channel members s
      else names_loop maxLength status channel members
             ((if buf \<noteq> [] then buf @ '' '' else []) @ s))"

definition GenerateNamesReply ::
    "(irc_message \<Rightarrow> string) \<Rightarrow> string \<Rightarrow> char \<Rightarrow> string list \<Rightarrow> irc_message list" where
  "GenerateNamesReply msgString channel status members =
     (let maxLength = int maxMessageLength - int (length (msgString (names_msg status channel [])))
      in names_loop maxLength status channel members []
         @ [mk_msg RPL_ENDOFNAMES [''*'', channel, ''End of /NAMES list'']])"

section \<open>SASL\<close>

function sasl_loop :: "string \<Rightarrow> nat \<Rightarrow> irc_message list" where
  "sasl_loop encoded i =
     (if i \<le> length encoded then
        (let j = min (i + MaxSASLLength) (length encoded);
             chunk = take (j - i) (drop i encoded)
         in mk_msg ''AUTHENTICATE'' [if chunk = [] then ''+'' else chunk]
            # sasl_loop encoded (i + MaxSASLLength))
      else [])"
  by pat_completeness auto
termination
  by (relation "measure (\<lambda>(encoded, i). Suc (length encoded) - i)") (auto simp: MaxSASLLength_def)

declare sasl_loop.simps [simp del]

definition GenerateSASL :: "string \<Rightarrow> irc_message list" where
  "GenerateSASL resp = sasl_loop (std_encode resp) 0"

section \<open>Lemmas: JOIN\<close>

definition chunk_names :: "(string \<times> string) list \<Rightarrow> string list" where
  "chunk_names ch = map fst ch"

definition chunk_keys :: "(string \<times> string) list \<Rightarrow> string list" where
  "chunk_keys ch = filter (\<lambda>k. k \<noteq> []) (map snd ch)"

definition chunk_msg :: "(string \<times> string) list \<Rightarrow> irc_message" where
  "chunk_msg ch = join_msg (Join (chunk_names ch) '','') (Join (chunk_keys ch) '','')"

definition keyed_first :: "(string \<times> string) list \<Rightarrow> bool" where
  "keyed_first ch \<longleftrightarrow> sorted (map (\<lambda>p. snd p = []) ch)"

definition line_length :: "irc_message \<Rightarrow> nat" where
  "line_length m = length (Command m) + sum_list (map (\<lambda>p. Suc (length p)) (Params m))"

lemma Join_snoc: "ws \<noteq> [] \<Longrightarrow> Join (ws @ [w]) sep = Join ws sep @ sep @ w"
  by (induction ws sep rule: Join.induct) auto

lemma Join_eq_Nil: "[] \<notin> set ws \<Longrightarrow> Join ws '','' = [] \<longleftrightarrow> ws = []"
  by (induction ws "'',''" rule: Join.induct) auto

lemma keyless_filter: "sorted (map (\<lambda>p. snd p = []) ch) \<Longrightarrow> zip (map fst ch) (chunk_keys ch) = filter (\<lambda>p. snd p \<noteq> []) ch"
proof (induction ch)
  case (Cons p ch)
  show ?case
  proof (cases "snd p = []")
    case True
    then have "\<forall>q\<in>set ch. snd q = []" using Cons.prems by (auto simp: le_bool_def)
    with True show ?thesis by (simp add: chunk_keys_def filter_empty_conv)
  next
    case False
    with Cons show ?thesis by (cases p) (simp add: chunk_keys_def)
  qed
qed (simp add: chunk_keys_def)

lemma join_loop_chunks:
  assumes "\<forall>p\<in>set (cur @ ps). fst p \<noteq> []"
    and "cb = Join (chunk_names cur) '',''" "kb = Join (chunk_keys cur) '',''"
    and "\<forall>p\<in>set ps. length (fst p) + (if snd p \<noteq> [] then 1 + length (snd p) else 0) \<le> join_max"
    and "length cb + length kb \<le> join_max"
  shows "\<exists>chunks. concat chunks = cur @ ps \<and> [] \<notin> set chunks \<and> join_loop ps cb kb = map chunk_msg chunks
    \<and> (\<forall>ch\<in>set chunks. length (Join (chunk_names ch) '','') + length (Join (chunk_keys ch) '','') \<le> join_max)"
  using assms
proof (induction ps arbitrary: cur cb kb)
  case Nil
  show ?case
  proof (cases "cur = []")
    case True
    with Nil show ?thesis by (intro exI [of _ "[]"]) (simp add: chunk_names_def)
  next
    case False
    have "[] \<notin> set (chunk_names cur)" using Nil.prems(1) by (force simp: chunk_names_def)
    with False Nil.prems(2) have "cb \<noteq> []"
      by (simp add: Join_eq_Nil) (simp add: chunk_names_def)
    with Nil False show ?thesis by (intro exI [of _ "[cur]"]) (simp add: chunk_msg_def)
  qed
next
  case (Cons p ps)
  obtain c k where p: "p = (c, k)" by force
  let ?n = "length cb + length kb + 1 + length c + (if k \<noteq> [] then 1 + length k else 0)"
  have names: "[] \<notin> set (chunk_names cur)" using Cons.prems(1) by (force simp: chunk_names_def)
  have cb0: "cb = [] \<longleftrightarrow> cur = []" using names Cons.prems(2) by (simp add: Join_eq_Nil) (simp add: chunk_names_def)
  have keys: "[] \<notin> set (chunk_keys cur)" by (simp add: chunk_keys_def)
  have kb0: "kb = [] \<longleftrightarrow> chunk_keys cur = []" using keys Cons.prems(3) by (simp add: Join_eq_Nil)
  show ?case
  proof (cases "cb \<noteq> [] \<and> ?n > join_max")
    case True
    have "\<exists>chunks. concat chunks = [p] @ ps \<and> [] \<notin> set chunks \<and> join_loop ps c k = map chunk_msg chunks
      \<and> (\<forall>ch\<in>set chunks. length (Join (chunk_names ch) '','') + length (Join (chunk_keys ch) '','') \<le> join_max)"
      by (rule Cons.IH) (use Cons.prems p in \<open>auto simp: chunk_names_def chunk_keys_def split: if_splits\<close>)
    then obtain chunks where ch: "concat chunks = p # ps" "[] \<notin> set chunks"
      "join_loop ps c k = map chunk_msg chunks"
      "\<forall>ch\<in>set chunks. length (Join (chunk_names ch) '','') + length (Join (chunk_keys ch) '','') \<le> join_max"
      by auto
    from True have "join_loop (p # ps) cb kb = join_msg cb kb # join_loop ps c k"
      by (simp add: p Let_def)
    with ch Cons.prems True cb0 show ?thesis
      by (intro exI [of _ "cur # chunks"]) (simp add: chunk_msg_def)
  next
    case False
    let ?cb = "(if cb \<noteq> [] then cb @ '','' else []) @ c"
    let ?kb = "if k \<noteq> [] then (if kb \<noteq> [] then kb @ '','' else []) @ k else kb"
    have eq: "join_loop (p # ps) cb kb = join_loop ps ?cb ?kb"
      using False unfolding p join_loop.simps Let_def by (simp only: if_False)
    have "?cb = Join (chunk_names (cur @ [p])) '',''"
      using Cons.prems(2) cb0 by (auto simp: chunk_names_def p Join_snoc)
    moreover have "?kb = Join (chunk_keys (cur @ [p])) '',''"
      using Cons.prems(3) kb0 by (auto simp: chunk_keys_def p Join_snoc)
    moreover have "length ?cb + length ?kb \<le> join_max"
      using False Cons.prems(4) cb0 kb0 Cons.prems(3) by (auto simp: p chunk_keys_def)
    moreover have "\<forall>q\<in>set ((cur @ [p]) @ ps). fst q \<noteq> []" using Cons.prems(1) by simp
    ultimately show ?thesis
      unfolding eq using Cons.IH [of "cur @ [p]" ?cb ?kb] Cons.prems(4) by simp
  qed
qed

lemma sorted_joinSorter: "keyed_first (sort_key joinSorter_key ps)"
proof -
  have "sorted (map joinSorter_key (sort_key joinSorter_key ps))" by simp
  then show ?thesis
    unfolding keyed_first_def
    by (simp add: sorted_wrt_map sorted_wrt_iff_nth_less joinSorter_key_def less_eq_prod_def)
      (auto simp: sorted_wrt_iff_nth_less)
qed

lemma keyed_first_chunk: "keyed_first (concat chunks) \<Longrightarrow> ch \<in> set chunks \<Longrightarrow> keyed_first ch"
  by (auto simp: keyed_first_def sorted_append dest!: split_list)

section \<open>Lemmas: MONITOR and NAMES\<close>

lemma monitor_loop_chunks:
  assumes "\<forall>t\<in>set ts. int (length t + 1) \<le> monitor_max subcmd"
    and "n = sum_list (map (\<lambda>t. length t + 1) buf)" "int n \<le> monitor_max subcmd \<or> buf = []"
  shows "\<exists>chunks. concat chunks = buf @ ts \<and> [] \<notin> set chunks
    \<and> monitor_loop subcmd ts buf n = map (monitor_msg subcmd) chunks
    \<and> (\<forall>ch\<in>set chunks. int (sum_list (map (\<lambda>t. length t + 1) ch)) \<le> monitor_max subcmd)"
  using assms
proof (induction ts arbitrary: buf n)
  case Nil
  show ?case
  proof (cases "buf = []")
    case True
    then show ?thesis by (intro exI [of _ "[]"]) simp
  next
    case False
    with Nil show ?thesis by (intro exI [of _ "[buf]"]) simp
  qed
next
  case (Cons t ts)
  show ?case
  proof (cases "int (n + length t + 1) > monitor_max subcmd")
    case True
    with Cons.prems have ne: "buf \<noteq> []" by auto
    obtain chunks where "concat chunks = [t] @ ts" "[] \<notin> set chunks"
      "monitor_loop subcmd ts [t] (length t + 1) = map (monitor_msg subcmd) chunks"
      "\<forall>ch\<in>set chunks. int (sum_list (map (\<lambda>t. length t + 1) ch)) \<le> monitor_max subcmd"
      using Cons.IH [of "length t + 1" "[t]"] Cons.prems(1) by auto
    with True ne Cons.prems(2,3) show ?thesis
      by (intro exI [of _ "buf # chunks"]) simp
  next
    case False
    with Cons.IH [of "n + (length t + 1)" "buf @ [t]"] Cons.prems show ?thesis by simp
  qed
qed

lemma Join_comma_length: "buf \<noteq> [] \<Longrightarrow> Suc (length (Join buf '','')) = sum_list (map (\<lambda>t. length t + 1) buf)"
  by (induction buf "'',''" rule: Join.induct) auto

lemma names_loop_chunks:
  assumes "\<forall>m\<in>set ms. m \<noteq> []" "\<forall>m\<in>set buf. m \<noteq> []"
    and "\<forall>m\<in>set ms. int (length m) \<le> maxLength"
    and "int (length (Join buf '' '')) \<le> maxLength \<or> buf = []"
  shows "\<exists>chunks. concat chunks = buf @ ms \<and> [] \<notin> set chunks
    \<and> names_loop maxLength status channel ms (Join buf '' '')
        = map (\<lambda>ch. names_msg status channel (Join ch '' '')) chunks
    \<and> (\<forall>ch\<in>set chunks. int (length (Join ch '' '')) \<le> maxLength)"
  using assms
proof (induction ms arbitrary: buf)
  case Nil
  have ne: "Join buf '' '' = [] \<longleftrightarrow> buf = []"
    using Nil.prems(2) by (induction buf "'' ''" rule: Join.induct) auto
  show ?case
  proof (cases "buf = []")
    case True
    then show ?thesis by (intro exI [of _ "[]"]) simp
  next
    case False
    with Nil ne show ?thesis by (intro exI [of _ "[buf]"]) simp
  qed
next
  case (Cons m ms)
  have ne: "Join buf '' '' = [] \<longleftrightarrow> buf = []"
    using Cons.prems(2) by (induction buf "'' ''" rule: Join.induct) auto
  let ?n = "int (length (Join buf '' '') + 1 + length m)"
  show ?case
  proof (cases "buf \<noteq> [] \<and> ?n > maxLength")
    case True
    obtain chunks where "concat chunks = [m] @ ms" "[] \<notin> set chunks"
      "names_loop maxLength status channel ms (Join [m] '' '')
        = map (\<lambda>ch. names_msg status channel (Join ch '' '')) chunks"
      "\<forall>ch\<in>set chunks. int (length (Join ch '' '')) \<le> maxLength"
      using Cons.IH [of "[m]"] Cons.prems by auto
    with True ne Cons.prems(4) show ?thesis
      by (intro exI [of _ "buf # chunks"]) auto
  next
    case False
    have j: "Join (buf @ [m]) '' '' = (if Join buf '' '' \<noteq> [] then Join buf '' '' @ '' '' else []) @ m"
      using ne by (auto simp: Join_snoc)
    have "int (length (Join (buf @ [m]) '' '')) \<le> maxLength"
      using False Cons.prems(3) ne unfolding j by auto
    then have "\<exists>chunks. concat chunks = (buf @ [m]) @ ms \<and> [] \<notin> set chunks
      \<and> names_loop maxLength status channel ms (Join (buf @ [m]) '' '')
          = map (\<lambda>ch. names_msg status channel (Join ch '' '')) chunks
      \<and> (\<forall>ch\<in>set chunks. int (length (Join ch '' '')) \<le> maxLength)"
      using Cons.IH [of "buf @ [m]"] Cons.prems by simp
    moreover have "names_loop maxLength status channel (m # ms) (Join buf '' '')
        = names_loop maxLength status channel ms (Join (buf @ [m]) '' '')"
      using False ne by (auto simp: j)
    ultimately show ?thesis by simp
  qed
qed

section \<open>Lemmas: ISUPPORT and SASL\<close>

lemma isupport_loop_tokens:
  "concat (map (\<lambda>m. map DecodeIsupportValue (butlast (tl (Params m)))) (isupport_loop ts)) = ts
   \<and> (\<forall>m\<in>set (isupport_loop ts). length (Params m) \<le> maxMessageParams)"
proof (induction ts rule: isupport_loop.induct)
  case (1 ts)
  have dec: "map (DecodeIsupportValue \<circ> isupport_encode) l = l" for l
    by (simp add: decode_encode_isupport comp_def)
  consider "ts = []" | "ts \<noteq> []" "length ts > maxTokens" | "ts \<noteq> []" "\<not> length ts > maxTokens" by blast
  then show ?case
  proof cases
    case 1
    then show ?thesis by (simp add: isupport_loop.simps)
  next
    case 2
    then show ?thesis
      using "1.IH" [OF 2] isupport_loop.simps [of ts]
      by (simp add: isupport_msg_def butlast_append dec maxTokens_def maxMessageParams_def)
  next
    case 3
    then show ?thesis
      using isupport_loop.simps [of ts]
      by (simp add: isupport_msg_def butlast_append dec maxTokens_def maxMessageParams_def)
  qed
qed

definition sasl_chunk :: "irc_message \<Rightarrow> string" where
  "sasl_chunk m = (let p = hd (Params m) in if p = ''+'' then [] else p)"

lemma length_std_encode: "4 dvd length (std_encode s)"
proof -
  have s4: "4 dvd Suc (Suc (Suc (Suc n))) \<longleftrightarrow> 4 dvd n" for n :: nat by presburger
  have "4 dvd length (b64_enc alpha True bs)" for alpha bs
    by (induction bs rule: b64_enc.induct [where P = "\<lambda>_ _ bs. 4 dvd length (b64_enc alpha True bs)"])
      (simp_all add: s4)
  then show ?thesis by (simp add: std_encode_def)
qed

lemma sasl_loop_correct:
  assumes "i \<le> length encoded" "4 dvd i" "4 dvd length encoded"
  shows "concat (map sasl_chunk (sasl_loop encoded i)) = drop i encoded
    \<and> sasl_loop encoded i \<noteq> []
    \<and> (\<forall>m\<in>set (butlast (sasl_loop encoded i)). length (sasl_chunk m) = MaxSASLLength)
    \<and> length (sasl_chunk (last (sasl_loop encoded i))) < MaxSASLLength"
  using assms
proof (induction encoded i rule: sasl_loop.induct)
  case (1 encoded i)
  let ?c = "take MaxSASLLength (drop i encoded)" and ?rest = "sasl_loop encoded (i + MaxSASLLength)"
  have ck: "take (min (i + MaxSASLLength) (length encoded) - i) (drop i encoded) = ?c"
    by (simp add: min_def)
  let ?m = "mk_msg ''AUTHENTICATE'' [if ?c = [] then ''+'' else ?c]"
  have step: "sasl_loop encoded i = ?m # ?rest"
    using "1.prems"(1) ck by (subst sasl_loop.simps) (simp only: Let_def if_True)
  have "4 dvd length ?c" using "1.prems" by (simp add: MaxSASLLength_def min_def dvd_diff_nat)
  then have "?c \<noteq> ''+''" by (auto simp del: length_take)
  then have m: "sasl_chunk ?m = ?c" by (simp add: sasl_chunk_def Let_def)
  have d4: "4 dvd i + MaxSASLLength" using "1.prems"(2) by (simp add: MaxSASLLength_def)
  show ?case
  proof (cases "i + MaxSASLLength \<le> length encoded")
    case True
    have IH: "concat (map sasl_chunk ?rest) = drop (i + MaxSASLLength) encoded \<and> ?rest \<noteq> []
      \<and> (\<forall>m\<in>set (butlast ?rest). length (sasl_chunk m) = MaxSASLLength)
      \<and> length (sasl_chunk (last ?rest)) < MaxSASLLength"
      by (rule "1.IH" [OF "1.prems"(1) refl refl True d4 "1.prems"(3)])
    have "length ?c = MaxSASLLength" using True by simp
    moreover have "?c @ drop (i + MaxSASLLength) encoded = drop i encoded"
      by (metis append_take_drop_id drop_drop add.commute)
    ultimately show ?thesis using IH m unfolding step by simp
  next
    case False
    then have "?rest = []" by (simp add: sasl_loop.simps)
    with step m False "1.prems"(1) show ?thesis by (simp add: min_def)
  qed
qed

section \<open>Properties\<close>

text \<open>C33. \<open>GenerateJoin\<close> on non-empty channel names splits the channels, sorted with the keyed
  ones first, into non-empty consecutive groups, one message per group: no channel is lost or
  repeated, in every message the i-th key is the key of the i-th channel, and every message
  fits in 512 bytes.\<close>

theorem GenerateJoin_chunks:
  assumes "length channels \<le> length keys" "\<forall>c\<in>set channels. c \<noteq> []"
    and "\<forall>(c, k)\<in>set (zip channels keys). length c + (if k \<noteq> [] then 1 + length k else 0) \<le> join_max"
  shows "\<exists>msgs chunks. GenerateJoin channels keys = Some msgs \<and> msgs = map chunk_msg chunks
    \<and> concat chunks = sort_key joinSorter_key (zip channels keys) \<and> [] \<notin> set chunks
    \<and> (\<forall>ch\<in>set chunks. zip (chunk_names ch) (chunk_keys ch) = filter (\<lambda>p. snd p \<noteq> []) ch)
    \<and> (\<forall>m\<in>set msgs. line_length m \<le> maxMessageLength)"
proof -
  let ?ps = "sort_key joinSorter_key (zip channels keys)"
  have ps: "set ?ps = set (zip channels keys)" by simp
  have "\<forall>p\<in>set ([] @ ?ps). fst p \<noteq> []" using assms(2) by (auto dest: set_zip_leftD)
  moreover have "\<forall>p\<in>set ?ps. length (fst p) + (if snd p \<noteq> [] then 1 + length (snd p) else 0) \<le> join_max"
    using assms(3) ps by auto
  ultimately obtain chunks where ch: "concat chunks = ?ps" "[] \<notin> set chunks"
    "join_loop ?ps [] [] = map chunk_msg chunks"
    "\<forall>ch\<in>set chunks. length (Join (chunk_names ch) '','') + length (Join (chunk_keys ch) '','') \<le> join_max"
    using join_loop_chunks [of "[]" ?ps "[]" "[]"] by (auto simp: chunk_names_def chunk_keys_def)
  have zip: "\<forall>ch\<in>set chunks. zip (chunk_names ch) (chunk_keys ch) = filter (\<lambda>p. snd p \<noteq> []) ch"
    using keyed_first_chunk [of chunks] sorted_joinSorter [of "zip channels keys"] ch(1)
    by (simp add: keyed_first_def keyless_filter chunk_names_def)
  have "\<forall>ch\<in>set chunks. line_length (chunk_msg ch) \<le> maxMessageLength"
    using ch(4) by (auto simp: line_length_def chunk_msg_def join_msg_def join_max_def maxMessageLength_def)
  with ch zip assms(1) show ?thesis
    by (auto simp: GenerateJoin_def intro!: exI [of _ "map chunk_msg chunks"] exI [of _ chunks])
qed

theorem GenerateJoin_chunks_witness:
  "\<exists>msgs chunks. GenerateJoin [''#b'', ''#a''] [[], ''k''] = Some msgs \<and> msgs = map chunk_msg chunks
    \<and> concat chunks = [(''#a'', ''k''), (''#b'', [])]"
  using GenerateJoin_chunks [of "[''#b'', ''#a'']" "[[], ''k'']"]
  by (auto simp: join_max_def maxMessageLength_def joinSorter_key_def)

text \<open>\<open>GenerateMonitor\<close> splits the targets that fit in a message into non-empty consecutive
  groups, one MONITOR message per group, and every message fits in 512 bytes.\<close>

theorem GenerateMonitor_chunks:
  assumes "\<forall>t\<in>set targets. int (length t + 1) \<le> monitor_max subcmd"
  shows "\<exists>chunks. GenerateMonitor subcmd targets = map (monitor_msg subcmd) chunks
    \<and> concat chunks = targets \<and> [] \<notin> set chunks
    \<and> (\<forall>m\<in>set (GenerateMonitor subcmd targets). line_length m \<le> maxMessageLength)"
proof -
  obtain chunks where ch: "concat chunks = targets" "[] \<notin> set chunks"
    "GenerateMonitor subcmd targets = map (monitor_msg subcmd) chunks"
    "\<forall>ch\<in>set chunks. int (sum_list (map (\<lambda>t. length t + 1) ch)) \<le> monitor_max subcmd"
    using monitor_loop_chunks [of targets subcmd 0 "[]"] assms by (auto simp: GenerateMonitor_def)
  have "line_length (monitor_msg subcmd c) \<le> maxMessageLength" if "c \<in> set chunks" for c
  proof -
    have "c \<noteq> []" using that ch(2) by auto
    then have "int (Suc (length (Join c '',''))) \<le> monitor_max subcmd"
      using that ch(4) Join_comma_length [of c] by simp
    then show ?thesis
      by (simp add: line_length_def monitor_msg_def monitor_max_def maxMessageLength_def)
  qed
  with ch show ?thesis by auto
qed

theorem GenerateMonitor_chunks_witness:
  "\<exists>chunks. GenerateMonitor ''+'' [''alice'', ''bob''] = map (monitor_msg ''+'') chunks
    \<and> concat chunks = [''alice'', ''bob'']"
  using GenerateMonitor_chunks [of "[''alice'', ''bob'']" "''+''"]
  by (auto simp: monitor_max_def maxMessageLength_def)

text \<open>The ISUPPORT messages carry every token of the map in sorted order, decode to the tokens
  they were built from, have at most fifteen parameters each, and do not depend on the order in
  which the map is visited.\<close>

theorem GenerateIsupport_correct:
  "concat (map (\<lambda>m. map DecodeIsupportValue (butlast (tl (Params m)))) (GenerateIsupport isupport))
     = sort (map isupport_token isupport)
   \<and> (\<forall>m. m \<in> set (GenerateIsupport isupport) \<longrightarrow> length (Params m) \<le> maxMessageParams)
   \<and> (mset isupport' = mset isupport \<longrightarrow> GenerateIsupport isupport' = GenerateIsupport isupport)"
proof -
  have "sort (map isupport_token isupport') = sort (map isupport_token isupport)"
    if "mset isupport' = mset isupport"
    using that by (metis mset_map properties_for_sort sorted_sort mset_sort)
  then show ?thesis
    using isupport_loop_tokens [of "sort (map isupport_token isupport)"]
    by (auto simp: GenerateIsupport_def)
qed

theorem GenerateIsupport_correct_witness:
  "GenerateIsupport [(''NETWORK'', Some ''a b''), (''MONITOR'', None)]
    = GenerateIsupport [(''MONITOR'', None), (''NETWORK'', Some ''a b'')]"
  using GenerateIsupport_correct [of "[(''MONITOR'', None), (''NETWORK'', Some ''a b'')]"
      "[(''NETWORK'', Some ''a b''), (''MONITOR'', None)]"]
  by simp

text \<open>A SASL response is sent in chunks whose concatenation is its base64 encoding, all but
  the last exactly 400 bytes long and the last one shorter, so that the receiver can tell the
  end; a final empty chunk is written as a plus sign.\<close>

theorem GenerateSASL_chunks:
  "std_decode (concat (map sasl_chunk (GenerateSASL resp))) = Some resp
   \<and> GenerateSASL resp \<noteq> []
   \<and> list_all (\<lambda>m. length (sasl_chunk m) = MaxSASLLength) (butlast (GenerateSASL resp))
   \<and> length (sasl_chunk (last (GenerateSASL resp))) < MaxSASLLength"
  using sasl_loop_correct [of 0 "std_encode resp"] length_std_encode [of resp]
  by (simp add: GenerateSASL_def list_all_iff)

text \<open>The NAMES reply lists every member, in order, over messages none of which exceeds the
  length limit, and ends with RPL_ENDOFNAMES; \<open>msgString\<close> is the library's wire form.\<close>

theorem GenerateNamesReply_chunks:
  assumes "\<forall>m\<in>set members. m \<noteq> []"
    and "maxLength = int maxMessageLength - int (length (msgString (names_msg status channel [])))"
    and "\<forall>m\<in>set members. int (length m) \<le> maxLength"
  shows "\<exists>chunks. GenerateNamesReply msgString channel status members
      = map (\<lambda>ch. names_msg status channel (Join ch '' '')) chunks
        @ [mk_msg RPL_ENDOFNAMES [''*'', channel, ''End of /NAMES list'']]
    \<and> concat chunks = members \<and> [] \<notin> set chunks
    \<and> (\<forall>ch\<in>set chunks. int (length (Join ch '' '')) \<le> maxLength)"
  using names_loop_chunks [of members "[]" maxLength status channel] assms
  by (auto simp: GenerateNamesReply_def Let_def)

theorem GenerateNamesReply_chunks_witness:
  "\<exists>chunks. GenerateNamesReply (\<lambda>m. Join (Command m # Params m) '' '') ''#a'' (CHR ''='') [''@op'', ''bob'']
      = map (\<lambda>ch. names_msg (CHR ''='') ''#a'' (Join ch '' '')) chunks
        @ [mk_msg RPL_ENDOFNAMES [''*'', ''#a'', ''End of /NAMES list'']]
    \<and> concat chunks = [''@op'', ''bob'']"
  using GenerateNamesReply_chunks [of "[''@op'', ''bob'']"
      "int maxMessageLength - int (length (Join [RPL_NAMREPLY, ''*'', ''='', ''#a'', []] '' ''))"
      "\<lambda>m. Join (Command m # Params m) '' ''" "CHR ''=''" "''#a''"]
  by (auto simp: maxMessageLength_def names_msg_def RPL_NAMREPLY_def)

end
