(* ===== verification/Backoff.thy ===== *)
theory Backoff
  imports Prelude
begin

text \<open>
  \<^verbatim>\<open>src/rate.go\<close>: the exponential backoff between reconnection attempts.  Durations and the
  counter are Go \<open>int64\<close> values: integers with two's complement wrap-around written out.  The
  random jitter is drawn by \<open>rand.Int63n\<close>, which returns a value in the half-open interval from
  0 to its argument; the drawn value is an argument of the model.
\<close>

definition wrap64 :: "int \<Rightarrow> int" where
  "wrap64 x = (x + 2 ^ 63) mod 2 ^ 64 - 2 ^ 63"

lemma wrap64_id: "- (2 ^ 63) \<le> x \<Longrightarrow> x < 2 ^ 63 \<Longrightarrow> wrap64 x = x"
  by (simp add: wrap64_def)

record backoffer =
  b_min :: int
  b_max :: int
  b_jitter :: int
  b_n :: int

definition newBackoffer :: "int \<Rightarrow> int \<Rightarrow> int \<Rightarrow> backoffer" where
  "newBackoffer mn mx jitter = \<lparr>b_min = mn, b_max = mx, b_jitter = jitter, b_n = 0\<rparr>"

definition backoffer_Reset :: "backoffer \<Rightarrow> backoffer" where
  "backoffer_Reset b = b\<lparr>b_n := 0\<rparr>"

definition backoffer_Next :: "backoffer \<Rightarrow> int \<Rightarrow> int \<times> backoffer" where
  "backoffer_Next b rnd =
     (if b_n b = 0 then (0, b\<lparr>b_n := 1\<rparr>)
      else let d = wrap64 (b_n b * b_min b);
               (d, b) = (if d > b_max b then (b_max b, b) else (d, b\<lparr>b_n := wrap64 (b_n b * 2)\<rparr>));
               d = (if b_jitter b \<noteq> 0 then wrap64 (d + rnd) else d)
           in (d, b))"

fun backoff_run :: "backoffer \<Rightarrow> int list \<Rightarrow> int list" where
  "backoff_run b [] = []"
| "backoff_run b (r # rs) = (let (d, b') = backoffer_Next b r in d # backoff_run b' rs)"

text \<open>The configuration the program uses satisfies these bounds by a wide margin.\<close>

definition backoff_params_ok :: "backoffer \<Rightarrow> bool" where
  "backoff_params_ok b \<longleftrightarrow> 0 < b_min b \<and> b_min b \<le> b_max b \<and> 0 \<le> b_jitter b
     \<and> 2 * b_max b + b_jitter b < 2 ^ 63"

text \<open>The abstract schedule: no wait, then the minimum doubled each time, capped at the maximum.\<close>

definition backoff_delay :: "backoffer \<Rightarrow> nat \<Rightarrow> int" where
  "backoff_delay b i = (if i = 0 then 0 else min (2 ^ (i - 1) * b_min b) (b_max b))"

definition backoff_jitter_of :: "backoffer \<Rightarrow> nat \<Rightarrow> int \<Rightarrow> int" where
  "backoff_jitter_of b i r = (if i = 0 \<or> b_jitter b = 0 then 0 else r)"

text \<open>The counter after \<open>i\<close> calls: it stands for a power of two as long as the cap is not
  exceeded, and for a value whose product with the minimum exceeds the cap afterwards.\<close>

definition backoff_state :: "backoffer \<Rightarrow> nat \<Rightarrow> bool" where
  "backoff_state b i \<longleftrightarrow>
     (if i = 0 then b_n b = 0
      else 0 < b_n b \<and> b_n b * b_min b \<le> 2 * b_max b \<and>
        (b_n b = 2 ^ (i - 1) \<or> (b_max b < b_n b * b_min b \<and> b_max b < 2 ^ (i - 1) * b_min b)))"

lemma backoffer_Next_params:
  "b_min (snd (backoffer_Next b r)) = b_min b" "b_max (snd (backoffer_Next b r)) = b_max b"
  "b_jitter (snd (backoffer_Next b r)) = b_jitter b"
  by (simp_all add: backoffer_Next_def Let_def)

lemma mult_bounds:
  assumes "0 < n" "0 < (m::int)" "n * m \<le> k"
  shows "n \<le> k"
proof -
  have "n * 1 \<le> n * m" using assms(1,2) by (intro mult_left_mono) simp_all
  with assms(3) show ?thesis by simp
qed

lemma backoffer_Next_step:
  assumes ok: "backoff_params_ok b" and st: "backoff_state b i"
    and r: "0 \<le> r" "b_jitter b \<noteq> 0 \<Longrightarrow> r < b_jitter b"
  shows "fst (backoffer_Next b r) = backoff_delay b i + backoff_jitter_of b i r
    \<and> backoff_state (snd (backoffer_Next b r)) (Suc i)"
proof (cases "i = 0")
  case True
  with ok st show ?thesis
    by (simp add: backoffer_Next_def backoff_state_def backoff_delay_def backoff_jitter_of_def
        backoff_params_ok_def)
next
  case False
  let ?n = "b_n b" and ?mn = "b_min b" and ?mx = "b_max b"
  have n: "0 < ?n" "?n * ?mn \<le> 2 * ?mx" using st False by (simp_all add: backoff_state_def)
  have p: "0 < ?mn" "?mn \<le> ?mx" "2 * ?mx + b_jitter b < 2 ^ 63" "0 \<le> b_jitter b"
    using ok by (simp_all add: backoff_params_ok_def)
  have pos: "0 < ?n * ?mn" using n(1) p(1) by simp
  have w: "wrap64 (?n * ?mn) = ?n * ?mn" using n(2) p(3,4) pos by (intro wrap64_id) linarith+
  show ?thesis
  proof (cases "?n * ?mn > ?mx")
    case True
    have j: "b_jitter b \<noteq> 0 \<Longrightarrow> wrap64 (?mx + r) = ?mx + r"
      using p r by (intro wrap64_id) auto
    have "?mx < 2 ^ (i - 1) * ?mn" using st True False by (auto simp: backoff_state_def)
    moreover have "2 ^ (i - 1) * ?mn \<le> 2 ^ i * ?mn" using p by simp
    ultimately have "backoff_delay b i = ?mx" "?mx < 2 ^ i * ?mn"
      using False by (simp_all add: backoff_delay_def)
    with True n w j False show ?thesis
      by (auto simp: backoffer_Next_def Let_def backoff_state_def backoff_jitter_of_def)
  next
    case le: False
    have n2: "?n = 2 ^ (i - 1)" using st le False by (auto simp: backoff_state_def)
    have "?n \<le> ?mx" using mult_bounds [of ?n ?mn ?mx] n p le by simp
    then have w2: "wrap64 (?n * 2) = ?n * 2" using n p by (intro wrap64_id) auto
    have j: "b_jitter b \<noteq> 0 \<Longrightarrow> wrap64 (?n * ?mn + r) = ?n * ?mn + r"
      using p r le pos by (intro wrap64_id) linarith+
    have d2: "?n * 2 = 2 ^ i" using n2 False by (cases i) simp_all
    then have "2 ^ i * ?mn = 2 * (?n * ?mn)" by (metis mult.assoc mult.commute)
    then have "2 ^ i * ?mn \<le> 2 * ?mx" using le by linarith
    with d2 show ?thesis
      using le n n2 w w2 j False
      by (auto simp: backoffer_Next_def Let_def backoff_state_def backoff_jitter_of_def backoff_delay_def)
  qed
qed

lemma backoff_run_from:
  assumes "backoff_params_ok b" "backoff_state b k"
    and "\<forall>r\<in>set rs. 0 \<le> r \<and> (b_jitter b \<noteq> 0 \<longrightarrow> r < b_jitter b)" "i < length rs"
  shows "backoff_run b rs ! i = backoff_delay b (k + i) + backoff_jitter_of b (k + i) (rs ! i)"
  using assms
proof (induction rs arbitrary: b k i)
  case (Cons r rs)
  obtain d b' where e: "backoffer_Next b r = (d, b')" by force
  have step: "d = backoff_delay b k + backoff_jitter_of b k r" "backoff_state b' (Suc k)"
    using backoffer_Next_step [OF Cons.prems(1,2), of r] Cons.prems(3) e by auto
  have same: "b_min b' = b_min b" "b_max b' = b_max b" "b_jitter b' = b_jitter b"
    using backoffer_Next_params [of b r] e by auto
  show ?case
  proof (cases i)
    case 0
    then show ?thesis by (simp add: e step)
  next
    case (Suc i')
    have "backoff_run b' rs ! i' = backoff_delay b' (Suc k + i') + backoff_jitter_of b' (Suc k + i') (rs ! i')"
      using Cons.IH [of b' "Suc k" i'] Cons.prems same step(2) Suc by (simp add: backoff_params_ok_def)
    then show ?thesis
      using Suc same by (simp add: e backoff_delay_def backoff_jitter_of_def)
  qed
qed simp

text \<open>After a reset, the delays the backoff returns are zero, then the minimum delay doubled on
  each call and capped at the maximum, plus the drawn jitter; no product or sum overflows an
  \<open>int64\<close> under the stated bounds.\<close>

theorem backoff_schedule:
  assumes "backoff_params_ok b"
    and "\<forall>r\<in>set rs. 0 \<le> r \<and> (b_jitter b \<noteq> 0 \<longrightarrow> r < b_jitter b)" "i < length rs"
  shows "backoff_run (backoffer_Reset b) rs ! i = backoff_delay b i + backoff_jitter_of b i (rs ! i)"
proof -
  have "backoff_params_ok (backoffer_Reset b)" "backoff_state (backoffer_Reset b) 0"
    using assms(1) by (simp_all add: backoffer_Reset_def backoff_params_ok_def backoff_state_def)
  then show ?thesis
    using backoff_run_from [of "backoffer_Reset b" 0 rs i] assms
    by (simp add: backoffer_Reset_def backoff_delay_def backoff_jitter_of_def)
qed

text \<open>Minimum, maximum and jitter in nanoseconds: 1 minute, 10 minutes, 1 minute.\<close>

theorem backoff_schedule_witness:
  "backoff_run (backoffer_Reset (newBackoffer 60000000000 600000000000 60000000000)) [0, 0, 0, 0, 0, 7] ! 5
   = 600000000007"
  using backoff_schedule [of "newBackoffer 60000000000 600000000000 60000000000" "[0, 0, 0, 0, 0, 7]" 5]
  by (simp add: newBackoffer_def backoff_params_ok_def backoff_delay_def backoff_jitter_of_def)

end
