(* ===== verification/Casemapping.thy ===== *)
theory Casemapping
  imports Prelude
begin

text \<open>
  \<^verbatim>\<open>src/xirc/casemapping.go\<close>: the three IRC case mappings and \<open>CaseMappingMap\<close>, the map keyed by
  case-mapped names that holds the channels, members, cached users, delivery receipts and
  MONITOR targets of the bouncer.

  The locale \<open>case_mapping\<close> is the contract of a \<open>CaseMapping\<close> function; it is interpreted on
  the three mappings of the source.  The map operations are proved correct once, inside the
  locale, against the abstract view of the map as a partial function on names.
\<close>

section \<open>The case mappings\<close>

definition is_upper_AZ :: "char \<Rightarrow> bool" where
  "is_upper_AZ c \<longleftrightarrow> 65 \<le> (of_char c :: nat) \<and> (of_char c :: nat) \<le> 90"

definition lower_AZ :: "char \<Rightarrow> char" where
  "lower_AZ c = char_of ((of_char c :: nat) + 32)"

definition casemapASCII :: "string \<Rightarrow> string" where
  "casemapASCII name = map (\<lambda>r. if is_upper_AZ r then lower_AZ r else r) name"

definition casemapRFC1459 :: "string \<Rightarrow> string" where
  "casemapRFC1459 name = map (\<lambda>r.
     if is_upper_AZ r then lower_AZ r
     else if r = CHR ''{'' then CHR ''[''
     else if r = CHR ''}'' then CHR '']''
     else if r = CHR 0x5C then CHR ''|''
     else if r = CHR ''~'' then CHR ''^''
     else r) name"

definition casemapRFC1459Strict :: "string \<Rightarrow> string" where
  "casemapRFC1459Strict name = map (\<lambda>r.
     if is_upper_AZ r then lower_AZ r
     else if r = CHR ''{'' then CHR ''[''
     else if r = CHR ''}'' then CHR '']''
     else if r = CHR 0x5C then CHR ''|''
     else r) name"

text \<open>A case mapping is a function value in the source; the model names the three functions the
  program uses and applies them by name, so that mappings can be compared and stored.\<close>

datatype case_mapping_name = CaseMappingASCII | CaseMappingRFC1459 | CaseMappingRFC1459Strict

fun casemap_of :: "case_mapping_name \<Rightarrow> string \<Rightarrow> string" where
  "casemap_of CaseMappingASCII = casemapASCII"
| "casemap_of CaseMappingRFC1459 = casemapRFC1459"
| "casemap_of CaseMappingRFC1459Strict = casemapRFC1459Strict"

definition ParseCaseMapping :: "string \<Rightarrow> case_mapping_name option" where
  "ParseCaseMapping s =
     (if s = ''ascii'' then Some CaseMappingASCII
      else if s = ''rfc1459'' then Some CaseMappingRFC1459
      else if s = ''rfc1459-strict'' then Some CaseMappingRFC1459Strict
      else None)"

section \<open>The map\<close>

record 'v case_mapping_entry =
  originalKey :: string
  entry_value :: 'v

record 'v case_mapping_map =
  cmm_m :: "(string, 'v case_mapping_entry) gomap"
  cmm_casemap :: "string \<Rightarrow> string"

definition NewCaseMappingMap :: "(string \<Rightarrow> string) \<Rightarrow> 'v case_mapping_map" where
  "NewCaseMappingMap cm = \<lparr>cmm_m = [], cmm_casemap = cm\<rparr>"

definition cmm_Has :: "'v case_mapping_map \<Rightarrow> string \<Rightarrow> bool" where
  "cmm_Has cmm name \<longleftrightarrow> go_get (cmm_m cmm) (cmm_casemap cmm name) \<noteq> None"

definition cmm_Len :: "'v case_mapping_map \<Rightarrow> nat" where
  "cmm_Len cmm = length (cmm_m cmm)"

text \<open>\<open>Get\<close> returns Go's zero value when the name is absent; every caller stores pointers, maps
  or booleans, and the model returns \<open>None\<close> there.\<close>

definition cmm_Get :: "'v case_mapping_map \<Rightarrow> string \<Rightarrow> 'v option" where
  "cmm_Get cmm name = map_option entry_value (go_get (cmm_m cmm) (cmm_casemap cmm name))"

definition cmm_Set :: "'v case_mapping_map \<Rightarrow> string \<Rightarrow> 'v \<Rightarrow> 'v case_mapping_map" where
  "cmm_Set cmm name value =
     (let nameCM = cmm_casemap cmm name
      in case go_get (cmm_m cmm) nameCM of
           None \<Rightarrow> cmm\<lparr>cmm_m := go_put nameCM \<lparr>originalKey = name, entry_value = value\<rparr> (cmm_m cmm)\<rparr>
         | Some entry \<Rightarrow> cmm\<lparr>cmm_m := go_put nameCM (entry\<lparr>entry_value := value\<rparr>) (cmm_m cmm)\<rparr>)"

definition cmm_Del :: "'v case_mapping_map \<Rightarrow> string \<Rightarrow> 'v case_mapping_map" where
  "cmm_Del cmm name = cmm\<lparr>cmm_m := go_del (cmm_casemap cmm name) (cmm_m cmm)\<rparr>"

text \<open>\<open>ForEach\<close> runs its callback over the entries; the model returns the list of arguments.\<close>

definition cmm_ForEach :: "'v case_mapping_map \<Rightarrow> (string \<times> 'v) list" where
  "cmm_ForEach cmm = map (\<lambda>(_, entry). (originalKey entry, entry_value entry)) (cmm_m cmm)"

definition cmm_SetCaseMapping ::
    "'v case_mapping_map \<Rightarrow> (string \<Rightarrow> string) \<Rightarrow> 'v case_mapping_map" where
  "cmm_SetCaseMapping cmm newCasemap =
     \<lparr>cmm_m = foldl (\<lambda>m (_, entry). go_put (newCasemap (originalKey entry)) entry m) [] (cmm_m cmm),
      cmm_casemap = newCasemap\<rparr>"

text \<open>Applying a function to every value, for callers that store pointers and change what they
  point to inside \<open>ForEach\<close>.\<close>

definition cmm_map :: "(string \<Rightarrow> 'v \<Rightarrow> 'v) \<Rightarrow> 'v case_mapping_map \<Rightarrow> 'v case_mapping_map" where
  "cmm_map f cmm = cmm\<lparr>cmm_m := map (\<lambda>(k, e). (k, e\<lparr>entry_value := f (originalKey e) (entry_value e)\<rparr>)) (cmm_m cmm)\<rparr>"

text \<open>The representation invariant: keys are distinct and every entry sits under the case-mapped
  form of its original key.\<close>

definition cmm_ok :: "'v case_mapping_map \<Rightarrow> bool" where
  "cmm_ok cmm \<longleftrightarrow> gomap_ok (cmm_m cmm)
     \<and> list_all (\<lambda>(k, entry). k = cmm_casemap cmm (originalKey entry)) (cmm_m cmm)"

section \<open>Lemmas\<close>

lemma lower_AZ_props:
  assumes "is_upper_AZ c"
  shows "\<not> is_upper_AZ (lower_AZ c)" "lower_AZ c \<noteq> CHR ''{''" "lower_AZ c \<noteq> CHR ''}''"
    "lower_AZ c \<noteq> CHR 0x5C" "lower_AZ c \<noteq> CHR ''~''"
proof -
  have v: "(of_char (lower_AZ c) :: nat) = of_char c + 32"
    using assms by (simp add: lower_AZ_def is_upper_AZ_def)
  have r: "97 \<le> (of_char (lower_AZ c) :: nat)" "(of_char (lower_AZ c) :: nat) \<le> 122"
    using assms unfolding v by (simp_all add: is_upper_AZ_def)
  show "\<not> is_upper_AZ (lower_AZ c)" using r by (simp add: is_upper_AZ_def)
  show "lower_AZ c \<noteq> CHR ''{''" "lower_AZ c \<noteq> CHR ''}''"
    "lower_AZ c \<noteq> CHR 0x5C" "lower_AZ c \<noteq> CHR ''~''"
    using r by auto
qed

lemma not_upper_symbols [simp]:
  "\<not> is_upper_AZ CHR ''[''" "\<not> is_upper_AZ CHR '']''" "\<not> is_upper_AZ CHR ''|''" "\<not> is_upper_AZ CHR ''^''"
  "\<not> is_upper_AZ CHR ''{''" "\<not> is_upper_AZ CHR ''}''" "\<not> is_upper_AZ CHR 0x5C" "\<not> is_upper_AZ CHR ''~''"
  by (simp_all add: is_upper_AZ_def)

locale case_mapping =
  fixes cm :: "string \<Rightarrow> string"
  assumes cm_idem: "cm (cm s) = cm s"
    and cm_length: "length (cm s) = length s"
begin

text \<open>The abstract map: the value stored under a name.\<close>

definition denotes :: "'v case_mapping_map \<Rightarrow> bool" where
  "denotes cmm \<longleftrightarrow> cmm_casemap cmm = cm \<and> cmm_ok cmm"

lemma new_denotes: "denotes (NewCaseMappingMap cm)"
  by (simp add: denotes_def NewCaseMappingMap_def cmm_ok_def)

lemma new_empty: "cmm_Get (NewCaseMappingMap cm) n = None"
  by (simp add: cmm_Get_def NewCaseMappingMap_def)

lemma set_denotes:
  assumes "denotes cmm"
  shows "denotes (cmm_Set cmm n v)"
proof (cases "go_get (cmm_m cmm) (cm n)")
  case None
  with assms show ?thesis
    by (auto simp: denotes_def cmm_ok_def cmm_Set_def Let_def list_all_iff set_go_put)
next
  case (Some e)
  with assms have "cm n = cm (originalKey e)"
    by (auto simp: denotes_def cmm_ok_def list_all_iff dest: go_get_mem)
  with Some assms show ?thesis
    by (auto simp: denotes_def cmm_ok_def cmm_Set_def Let_def list_all_iff set_go_put)
qed

lemma del_denotes: "denotes cmm \<Longrightarrow> denotes (cmm_Del cmm n)"
  by (auto simp: denotes_def cmm_ok_def cmm_Del_def list_all_iff)

lemma get_set:
  "cmm_casemap cmm = cm \<Longrightarrow>
   cmm_Get (cmm_Set cmm n v) n' = (if cm n' = cm n then Some v else cmm_Get cmm n')"
  by (auto simp: cmm_Get_def cmm_Set_def Let_def split: option.splits)

lemma get_del:
  "cmm_casemap cmm = cm \<Longrightarrow>
   cmm_Get (cmm_Del cmm n) n' = (if cm n' = cm n then None else cmm_Get cmm n')"
  by (auto simp: cmm_Get_def cmm_Del_def)

lemma has_get: "cmm_Has cmm n \<longleftrightarrow> cmm_Get cmm n \<noteq> None"
  by (simp add: cmm_Has_def cmm_Get_def)

lemma get_cm: "cmm_casemap cmm = cm \<Longrightarrow> cmm_Get cmm (cm n) = cmm_Get cmm n"
  by (simp add: cmm_Get_def cm_idem)

lemma casemap_set [simp]: "cmm_casemap (cmm_Set cmm n v) = cmm_casemap cmm"
  by (simp add: cmm_Set_def Let_def split: option.splits)

lemma casemap_del [simp]: "cmm_casemap (cmm_Del cmm n) = cmm_casemap cmm"
  by (simp add: cmm_Del_def)

lemma for_each_mem:
  assumes "denotes cmm"
  shows "(n, v) \<in> set (cmm_ForEach cmm) \<Longrightarrow> cmm_Get cmm n = Some v"
  using assms
  by (force simp: denotes_def cmm_ok_def cmm_ForEach_def cmm_Get_def list_all_iff gomap_ok_mem [symmetric]
      simp del: gomap_ok_mem)

lemma for_each_covers:
  assumes "denotes cmm" "cmm_Get cmm n = Some v"
  shows "\<exists>n'. (n', v) \<in> set (cmm_ForEach cmm) \<and> cm n' = cm n"
proof -
  from assms obtain e where e: "(cm n, e) \<in> set (cmm_m cmm)" "entry_value e = v"
    by (auto simp: denotes_def cmm_Get_def dest: go_get_mem)
  with assms(1) have "cm n = cm (originalKey e)"
    by (auto simp: denotes_def cmm_ok_def list_all_iff)
  with e show ?thesis by (force simp: cmm_ForEach_def)
qed

end

interpretation ascii: case_mapping casemapASCII
  by unfold_locales (auto simp: casemapASCII_def lower_AZ_props)

interpretation rfc1459: case_mapping casemapRFC1459
  by unfold_locales (auto simp: casemapRFC1459_def lower_AZ_props)

interpretation rfc1459_strict: case_mapping casemapRFC1459Strict
  by unfold_locales (auto simp: casemapRFC1459Strict_def lower_AZ_props)

lemma casemap_of_case_mapping: "case_mapping (casemap_of m)"
  by (cases m) (simp_all add: ascii.case_mapping_axioms rfc1459.case_mapping_axioms
      rfc1459_strict.case_mapping_axioms)

interpretation named: case_mapping "casemap_of m" for m
  by (rule casemap_of_case_mapping)

text \<open>The same laws over the mapping a map carries, whichever it is.\<close>

lemma cmm_casemap_simps [simp]:
  "cmm_casemap (cmm_Set cmm n v) = cmm_casemap cmm" "cmm_casemap (cmm_Del cmm n) = cmm_casemap cmm"
  "cmm_casemap (cmm_map f cmm) = cmm_casemap cmm" "cmm_casemap (NewCaseMappingMap cm) = cm"
  by (simp_all add: cmm_Set_def cmm_Del_def cmm_map_def NewCaseMappingMap_def Let_def split: option.splits)

lemma cmm_Get_Set:
  "cmm_Get (cmm_Set cmm n v) n' = (if cmm_casemap cmm n' = cmm_casemap cmm n then Some v else cmm_Get cmm n')"
  by (auto simp: cmm_Get_def cmm_Set_def Let_def split: option.splits)

lemma cmm_Get_Del:
  "cmm_Get (cmm_Del cmm n) n' = (if cmm_casemap cmm n' = cmm_casemap cmm n then None else cmm_Get cmm n')"
  by (auto simp: cmm_Get_def cmm_Del_def)

lemma cmm_Get_New [simp]: "cmm_Get (NewCaseMappingMap cm) n = None"
  by (simp add: cmm_Get_def NewCaseMappingMap_def)

lemma cmm_Has_Get: "cmm_Has cmm n \<longleftrightarrow> cmm_Get cmm n \<noteq> None"
  by (simp add: cmm_Has_def cmm_Get_def)

lemma cmm_Get_cong: "cmm_casemap cmm n = cmm_casemap cmm n' \<Longrightarrow> cmm_Get cmm n = cmm_Get cmm n'"
  by (simp add: cmm_Get_def)

lemma cmm_ok_New [simp]: "cmm_ok (NewCaseMappingMap cm)"
  by (simp add: cmm_ok_def NewCaseMappingMap_def)

lemma cmm_ok_Set [intro]: "cmm_ok cmm \<Longrightarrow> cmm_ok (cmm_Set cmm n v)"
proof (cases "go_get (cmm_m cmm) (cmm_casemap cmm n)")
  case (Some e)
  assume ok: "cmm_ok cmm"
  with Some have "cmm_casemap cmm n = cmm_casemap cmm (originalKey e)"
    by (auto simp: cmm_ok_def list_all_iff dest: go_get_mem)
  with Some ok show ?thesis
    by (auto simp: cmm_ok_def cmm_Set_def Let_def list_all_iff set_go_put)
qed (auto simp: cmm_ok_def cmm_Set_def Let_def list_all_iff set_go_put)

lemma cmm_ok_Del [intro]: "cmm_ok cmm \<Longrightarrow> cmm_ok (cmm_Del cmm n)"
  by (auto simp: cmm_ok_def cmm_Del_def list_all_iff)

lemma cmm_ok_map [simp]: "cmm_ok (cmm_map f cmm) = cmm_ok cmm"
  by (simp add: cmm_ok_def cmm_map_def gomap_ok_def list_all_iff comp_def case_prod_unfold)

lemma cmm_Get_map: "cmm_Get (cmm_map (\<lambda>_. g) cmm) n = map_option g (cmm_Get cmm n)"
  by (simp add: cmm_Get_def cmm_map_def map_of_map option.map_comp comp_def)

lemma cmm_ForEach_Get: "cmm_ok cmm \<Longrightarrow> (n, v) \<in> set (cmm_ForEach cmm) \<Longrightarrow> cmm_Get cmm n = Some v"
  by (force simp: cmm_ok_def cmm_ForEach_def cmm_Get_def list_all_iff gomap_ok_mem [symmetric]
      simp del: gomap_ok_mem)

lemma cmm_Get_ForEach:
  assumes "cmm_ok cmm" "cmm_Get cmm n = Some v"
  shows "\<exists>n'. (n', v) \<in> set (cmm_ForEach cmm) \<and> cmm_casemap cmm n' = cmm_casemap cmm n"
proof -
  from assms obtain e where e: "(cmm_casemap cmm n, e) \<in> set (cmm_m cmm)" "entry_value e = v"
    by (auto simp: cmm_Get_def dest: go_get_mem)
  with assms(1) have "cmm_casemap cmm n = cmm_casemap cmm (originalKey e)"
    by (auto simp: cmm_ok_def list_all_iff)
  with e show ?thesis by (force simp: cmm_ForEach_def)
qed

section \<open>Changing the case mapping\<close>

definition rekey :: "(string \<Rightarrow> string) \<Rightarrow> 'v case_mapping_map
    \<Rightarrow> (string \<times> 'v case_mapping_entry) list" where
  "rekey cm cmm = map (\<lambda>(_, e). (cm (originalKey e), e)) (cmm_m cmm)"

lemma foldl_put_eq:
  "foldl (\<lambda>m (_, e). go_put (f e) e m) m xs = foldl (\<lambda>m (k, e). go_put k e m) m (map (\<lambda>(_, e). (f e, e)) xs)"
  by (induction xs arbitrary: m) auto

lemma foldl_put_get:
  "go_get (foldl (\<lambda>m (k, e). go_put k e m) m xs) k
     = (case go_get (rev xs) k of None \<Rightarrow> go_get m k | Some e \<Rightarrow> Some e)"
  by (induction xs arbitrary: m) (auto simp: map_add_def split: option.splits)

lemma foldl_put_ok: "gomap_ok m \<Longrightarrow> gomap_ok (foldl (\<lambda>m (k, e). go_put k e m) m xs)"
  by (induction xs arbitrary: m) auto

lemma foldl_put_new:
  "distinct (map fst (m @ xs)) \<Longrightarrow> foldl (\<lambda>m (k, e). go_put k e m) m xs = m @ xs"
proof (induction xs arbitrary: m)
  case (Cons x xs)
  obtain k e where x: "x = (k, e)" by force
  with Cons.prems have "go_get m k = None" by (auto simp: map_of_eq_None_iff)
  then have "go_put k e m = m @ [x]" by (simp add: go_put_new x)
  with Cons x show ?case by simp
qed simp

lemma SetCaseMapping_m:
  "cmm_m (cmm_SetCaseMapping cmm cm) = foldl (\<lambda>m (k, e). go_put k e m) [] (rekey cm cmm)"
  "cmm_casemap (cmm_SetCaseMapping cmm cm) = cm"
  by (simp_all add: cmm_SetCaseMapping_def rekey_def foldl_put_eq)

lemma SetCaseMapping_get:
  "go_get (cmm_m (cmm_SetCaseMapping cmm cm)) k = go_get (rev (rekey cm cmm)) k"
  by (simp add: SetCaseMapping_m foldl_put_get split: option.splits)

lemma rekey_mem: "(k, e) \<in> set (rekey cm cmm) \<longleftrightarrow> k = cm (originalKey e) \<and> (\<exists>k'. (k', e) \<in> set (cmm_m cmm))"
  by (force simp: rekey_def)

lemma ForEach_mem: "(n, v) \<in> set (cmm_ForEach cmm) \<longleftrightarrow>
    (\<exists>k e. (k, e) \<in> set (cmm_m cmm) \<and> originalKey e = n \<and> entry_value e = v)"
  by (force simp: cmm_ForEach_def)

lemma SetCaseMapping_ok [simp, intro]: "cmm_ok (cmm_SetCaseMapping cmm cm)"
proof -
  let ?m = "cmm_m (cmm_SetCaseMapping cmm cm)"
  have ok: "gomap_ok ?m" by (simp add: SetCaseMapping_m foldl_put_ok)
  have "k = cm (originalKey e)" if "(k, e) \<in> set ?m" for k e
  proof -
    from that ok have "go_get (rev (rekey cm cmm)) k = Some e"
      by (simp add: gomap_ok_mem SetCaseMapping_get)
    then have "(k, e) \<in> set (rekey cm cmm)" by (auto dest: go_get_mem)
    then show ?thesis by (simp add: rekey_mem)
  qed
  with ok show ?thesis by (auto simp: cmm_ok_def list_all_iff SetCaseMapping_m(2))
qed

lemma SetCaseMapping_resolves:
  assumes "(n, v) \<in> set (cmm_ForEach cmm)"
  shows "\<exists>n' v'. (n', v') \<in> set (cmm_ForEach cmm) \<and> cm n' = cm n
      \<and> cmm_Get (cmm_SetCaseMapping cmm cm) n = Some v'"
proof -
  from assms obtain k e where e: "(k, e) \<in> set (cmm_m cmm)" "originalKey e = n"
    by (auto simp: ForEach_mem)
  then have "cm n \<in> fst ` set (rev (rekey cm cmm))" by (force simp: rekey_def)
  then obtain e' where e': "go_get (rev (rekey cm cmm)) (cm n) = Some e'"
    by (metis map_of_eq_None_iff not_None_eq)
  then have "(cm n, e') \<in> set (rekey cm cmm)" by (auto dest: go_get_mem)
  with e' show ?thesis
    by (auto simp: rekey_mem ForEach_mem cmm_Get_def SetCaseMapping_get SetCaseMapping_m(2))
qed

lemma SetCaseMapping_ForEach:
  assumes "distinct (map (\<lambda>(_, e). cm (originalKey e)) (cmm_m cmm))"
  shows "cmm_ForEach (cmm_SetCaseMapping cmm cm) = cmm_ForEach cmm"
proof -
  have "distinct (map fst (rekey cm cmm))"
    using assms by (simp add: rekey_def comp_def case_prod_unfold)
  then have "cmm_m (cmm_SetCaseMapping cmm cm) = rekey cm cmm"
    by (simp add: SetCaseMapping_m foldl_put_new)
  then show ?thesis by (simp add: cmm_ForEach_def rekey_def comp_def case_prod_unfold)
qed

section \<open>Properties\<close>

text \<open>The equivalence RFC 1459 asks for: letters up to case, and the four pairs of symbols that
  are the upper and lower case forms of each other.\<close>

definition rfc1459_equiv :: "char \<Rightarrow> char \<Rightarrow> bool" where
  "rfc1459_equiv c d \<longleftrightarrow> c = d \<or> (is_upper_AZ c \<and> d = lower_AZ c) \<or> (is_upper_AZ d \<and> c = lower_AZ d)
     \<or> {c, d} = {CHR ''{'', CHR ''[''} \<or> {c, d} = {CHR ''}'', CHR '']''}
     \<or> {c, d} = {CHR 0x5C, CHR ''|''} \<or> {c, d} = {CHR ''~'', CHR ''^''}"

lemma lower_AZ_not_symbol [simp]:
  assumes "is_upper_AZ c"
  shows "lower_AZ c \<noteq> CHR ''[''" "lower_AZ c \<noteq> CHR '']''" "lower_AZ c \<noteq> CHR ''|''"
    "lower_AZ c \<noteq> CHR ''^''"
proof -
  have "(of_char (lower_AZ c) :: nat) = of_char c + 32"
    using assms by (simp add: lower_AZ_def is_upper_AZ_def)
  then have "97 \<le> (of_char (lower_AZ c) :: nat)" "(of_char (lower_AZ c) :: nat) \<le> 122"
    using assms by (simp_all add: is_upper_AZ_def)
  then show "lower_AZ c \<noteq> CHR ''[''" "lower_AZ c \<noteq> CHR '']''" "lower_AZ c \<noteq> CHR ''|''"
    "lower_AZ c \<noteq> CHR ''^''"
    by auto
qed

lemmas lower_AZ_distinct = lower_AZ_props lower_AZ_props(2-5) [THEN not_sym]
  lower_AZ_not_symbol lower_AZ_not_symbol [THEN not_sym]

lemma lower_AZ_inj: "is_upper_AZ c \<Longrightarrow> is_upper_AZ d \<Longrightarrow> lower_AZ c = lower_AZ d \<Longrightarrow> c = d"
proof -
  assume u: "is_upper_AZ c" "is_upper_AZ d" and e: "lower_AZ c = lower_AZ d"
  from e have "(of_char (lower_AZ c) :: nat) = of_char (lower_AZ d)" by simp
  with u have "(of_char c :: nat) = of_char d" by (simp add: lower_AZ_def is_upper_AZ_def)
  then show "c = d" by simp
qed

lemma casemapRFC1459_char:
  "casemapRFC1459 [c] = casemapRFC1459 [d] \<longleftrightarrow> rfc1459_equiv c d"
proof (cases "is_upper_AZ c"; cases "is_upper_AZ d")
  assume "is_upper_AZ c" "is_upper_AZ d"
  then show ?thesis
    by (auto simp: casemapRFC1459_def rfc1459_equiv_def doubleton_eq_iff lower_AZ_distinct
        dest: lower_AZ_inj)
next
  assume "is_upper_AZ c" "\<not> is_upper_AZ d"
  then show ?thesis
    by (auto simp: casemapRFC1459_def rfc1459_equiv_def doubleton_eq_iff lower_AZ_distinct)
next
  assume "\<not> is_upper_AZ c" "is_upper_AZ d"
  then show ?thesis
    by (auto simp: casemapRFC1459_def rfc1459_equiv_def doubleton_eq_iff lower_AZ_distinct)
next
  assume "\<not> is_upper_AZ c" "\<not> is_upper_AZ d"
  then show ?thesis
    by (auto simp: casemapRFC1459_def rfc1459_equiv_def doubleton_eq_iff)
qed

lemma casemapRFC1459_Cons:
  "casemapRFC1459 (c # s) = casemapRFC1459 [c] @ casemapRFC1459 s"
  by (simp add: casemapRFC1459_def)

lemma length_casemapRFC1459_single [simp]: "length (casemapRFC1459 [c]) = 1"
  by (simp add: casemapRFC1459_def)

text \<open>Two names have the same image under the \<open>rfc1459\<close> mapping exactly when they have the
  same length and are equivalent position by position in the sense of RFC 1459.\<close>

theorem casemapRFC1459_iff:
  "casemapRFC1459 s = casemapRFC1459 t \<longleftrightarrow> list_all2 rfc1459_equiv s t"
proof (induction s arbitrary: t)
  case Nil
  then show ?case by (cases t) (auto simp: casemapRFC1459_def)
next
  case (Cons c s)
  show ?case
  proof (cases t)
    case Nil
    then show ?thesis by (simp add: casemapRFC1459_def)
  next
    case (Cons d t')
    have "casemapRFC1459 (c # s) = casemapRFC1459 (d # t')
        \<longleftrightarrow> casemapRFC1459 [c] = casemapRFC1459 [d] \<and> casemapRFC1459 s = casemapRFC1459 t'"
      by (simp only: casemapRFC1459_Cons [of c s] casemapRFC1459_Cons [of d t'])
        (simp add: append_eq_append_conv)
    then show ?thesis using Cons.IH Cons by (simp add: casemapRFC1459_char)
  qed
qed

text \<open>The ASCII mapping, which new networks start with, is the finest of the three: names it
  identifies are identified by both RFC 1459 mappings, and the strict RFC 1459 mapping is finer
  than the full one.\<close>

theorem casemap_strictness:
  "(casemapASCII s = casemapASCII t \<longrightarrow> casemapRFC1459Strict s = casemapRFC1459Strict t)
   \<and> (casemapRFC1459Strict s = casemapRFC1459Strict t \<longrightarrow> casemapRFC1459 s = casemapRFC1459 t)"
proof -
  have a: "casemapRFC1459Strict s = casemapRFC1459Strict (casemapASCII s)" for s
    by (simp add: casemapRFC1459Strict_def casemapASCII_def lower_AZ_props)
  have b: "casemapRFC1459 s = casemapRFC1459 (casemapRFC1459Strict s)" for s
    by (simp add: casemapRFC1459_def casemapRFC1459Strict_def lower_AZ_props)
  show ?thesis using a b by metis
qed

theorem casemap_strictness_witness:
  "casemapASCII ''#Soju'' = casemapASCII ''#sOJU'' \<and>
   casemapRFC1459 ''#Soju'' = casemapRFC1459 ''#sOJU''"
proof -
  have "casemapASCII ''#Soju'' = casemapASCII ''#sOJU''" by code_simp
  then show ?thesis using casemap_strictness [of "''#Soju''" "''#sOJU''"] by blast
qed



lemma cmm_Len_card:
  assumes "cmm_ok cmm"
  shows "cmm_Len cmm = card {cmm_casemap cmm n | n. cmm_Get cmm n \<noteq> None}"
proof -
  have keys: "distinct (map fst (cmm_m cmm))" and sits: "\<And>k e. (k, e) \<in> set (cmm_m cmm) \<Longrightarrow> k = cmm_casemap cmm (originalKey e)"
    using assms by (auto simp: cmm_ok_def gomap_ok_def list_all_iff)
  have "set (map fst (cmm_m cmm)) = {cmm_casemap cmm n | n. cmm_Get cmm n \<noteq> None}"
  proof (intro set_eqI iffI)
    fix k
    assume "k \<in> set (map fst (cmm_m cmm))"
    then obtain e where e: "(k, e) \<in> set (cmm_m cmm)" by auto
    then have "cmm_Get cmm (originalKey e) \<noteq> None"
      using sits [OF e] by (auto simp: cmm_Get_def map_of_eq_None_iff image_iff intro!: bexI [OF _ e])
    with sits [OF e] show "k \<in> {cmm_casemap cmm n | n. cmm_Get cmm n \<noteq> None}" by auto
  next
    fix k
    assume "k \<in> {cmm_casemap cmm n | n. cmm_Get cmm n \<noteq> None}"
    then show "k \<in> set (map fst (cmm_m cmm))" by (auto simp: cmm_Get_def map_of_eq_None_iff)
  qed
  with distinct_card [OF keys] show ?thesis by (simp add: cmm_Len_def)
qed

text \<open>C26. The operations implement a partial function on names up to the case mapping: \<open>Get\<close> after
  \<open>Set\<close> and after \<open>Del\<close>, for each of the three mappings; \<open>Has\<close> tells whether \<open>Get\<close> finds a value, before and after;
  \<open>Len\<close> counts the names up to case that have one; and \<open>Set\<close> and \<open>Del\<close> keep the map well formed.\<close>

theorem cmm_operations_correct:
  fixes cmm :: "'v case_mapping_map"
  assumes "cmm_casemap cmm = casemap_of m" "cmm_ok cmm"
  shows "cmm_Get (cmm_Set cmm n v) n'
           = (if casemap_of m n' = casemap_of m n then Some v else cmm_Get cmm n')
    \<and> cmm_Get (cmm_Del cmm n) n'
           = (if casemap_of m n' = casemap_of m n then None else cmm_Get cmm n')
    \<and> (cmm_Has cmm n' \<longleftrightarrow> cmm_Get cmm n' \<noteq> None)
    \<and> (cmm_Has (cmm_Set cmm n v) n' \<longleftrightarrow> casemap_of m n' = casemap_of m n \<or> cmm_Has cmm n')
    \<and> (cmm_Has (cmm_Del cmm n) n' \<longleftrightarrow> casemap_of m n' \<noteq> casemap_of m n \<and> cmm_Has cmm n')
    \<and> cmm_Len cmm = card {casemap_of m x | x. cmm_Get cmm x \<noteq> None}
    \<and> cmm_ok (cmm_Set cmm n v) \<and> cmm_ok (cmm_Del cmm n)"
  using assms named.get_set [of cmm m] named.get_del [of cmm m]
    named.set_denotes [of m cmm] named.del_denotes [of m cmm] cmm_Len_card [of cmm]
  by (simp add: named.denotes_def cmm_Has_Get)

theorem cmm_operations_correct_witness:
  "cmm_Get (cmm_Set (NewCaseMappingMap casemapRFC1459) ''Nick{a}'' (1::nat)) ''nick[A]'' = Some 1
    \<and> cmm_Has (cmm_Set (NewCaseMappingMap casemapRFC1459) ''Nick{a}'' (1::nat)) ''nick[A]''
    \<and> cmm_Len (cmm_Set (NewCaseMappingMap casemapRFC1459) ''Nick{a}'' (1::nat)) = card {casemapRFC1459 ''nick[A]''}"
proof -
  let ?e = "NewCaseMappingMap casemapRFC1459" and ?n = "''Nick{a}''" and ?n' = "''nick[A]''"
  have eq: "casemapRFC1459 ?n' = casemapRFC1459 ?n" by code_simp
  have ok: "cmm_casemap ?e = casemap_of CaseMappingRFC1459" "cmm_ok ?e" by (simp_all add: NewCaseMappingMap_def cmm_ok_def gomap_ok_def)
  note get = cmm_operations_correct [OF ok, of ?n "1::nat"]
  have none: "cmm_Get ?e x = None" for x by (simp add: NewCaseMappingMap_def cmm_Get_def)
  have "cmm_casemap (cmm_Set ?e ?n (1::nat)) = casemap_of CaseMappingRFC1459" by (simp add: NewCaseMappingMap_def cmm_Set_def)
  then have "cmm_Len (cmm_Set ?e ?n (1::nat)) = card {casemapRFC1459 x | x. cmm_Get (cmm_Set ?e ?n (1::nat)) x \<noteq> None}"
    using cmm_operations_correct [of "cmm_Set ?e ?n (1::nat)" CaseMappingRFC1459] get [of ?n] by simp
  also have "{casemapRFC1459 x | x. cmm_Get (cmm_Set ?e ?n (1::nat)) x \<noteq> None} = {casemapRFC1459 ?n'}"
    using get none eq by auto
  finally show ?thesis using get [of ?n'] eq by simp
qed

end
