(* ===== verification/Modes.thy ===== *)
theory Modes
  imports Xirc Casemapping
begin

text \<open>
  The mode handling of \<^verbatim>\<open>src/irc.go\<close>: user modes, channel modes and membership changes from
  MODE messages, and the membership prefixes of \<^verbatim>\<open>src/irc.go\<close> and
  \<^verbatim>\<open>upstreamConn.parseMembershipPrefix\<close>.  The record \<open>upstream_channel\<close> is the channel state of
  \<^verbatim>\<open>src/upstream.go\<close> these functions change.
\<close>

section \<open>User modes\<close>

type_synonym user_modes = string

definition userModes_Has :: "user_modes \<Rightarrow> char \<Rightarrow> bool" where
  "userModes_Has ms c \<longleftrightarrow> IndexByte ms c \<noteq> None"

definition userModes_Add :: "user_modes \<Rightarrow> char \<Rightarrow> user_modes" where
  "userModes_Add ms c = (if \<not> userModes_Has ms c then ms @ encode_rune (of_char c) else ms)"

definition userModes_Del :: "user_modes \<Rightarrow> char \<Rightarrow> user_modes" where
  "userModes_Del ms c = (case IndexByte ms c of None \<Rightarrow> ms | Some i \<Rightarrow> take i ms @ drop (Suc i) ms)"

datatype modes_error = MissingPlusMinus | MissingModeArgument char char

text \<open>\<open>plusMinus\<close> is \<open>None\<close> while no sign has been read.  The modes are changed in place, so the
  changes made before an error stay: the function returns the error, if any, with the modes.\<close>

fun userModes_apply_loop :: "char option \<Rightarrow> string \<Rightarrow> user_modes \<Rightarrow> modes_error option \<times> user_modes" where
  "userModes_apply_loop pm [] ms = (None, ms)"
| "userModes_apply_loop pm (c # s) ms =
     (if c = CHR ''+'' \<or> c = CHR ''-'' then userModes_apply_loop (Some c) s ms
      else case pm of
        None \<Rightarrow> (Some MissingPlusMinus, ms)
      | Some p \<Rightarrow> userModes_apply_loop pm s
          (if p = CHR ''+'' then userModes_Add ms c else userModes_Del ms c))"

definition userModes_Apply :: "user_modes \<Rightarrow> string \<Rightarrow> modes_error option \<times> user_modes" where
  "userModes_Apply ms s = userModes_apply_loop None s ms"

section \<open>Channel modes\<close>

datatype channel_mode_type = modeTypeA | modeTypeB | modeTypeC | modeTypeD

definition stdChannelModes :: "(char, channel_mode_type) gomap" where
  "stdChannelModes =
     [(CHR ''b'', modeTypeA), (CHR ''e'', modeTypeA), (CHR ''I'', modeTypeA), (CHR ''k'', modeTypeB),
      (CHR ''l'', modeTypeC), (CHR ''i'', modeTypeD), (CHR ''m'', modeTypeD), (CHR ''n'', modeTypeD),
      (CHR ''s'', modeTypeD), (CHR ''t'', modeTypeD)]"

definition stdChannelTypes :: string where
  "stdChannelTypes = ''#&+!''"

definition stdMemberships :: "membership list" where
  "stdMemberships =
     [\<lparr>m_Mode = CHR ''q'', m_Prefix = CHR ''~''\<rparr>, \<lparr>m_Mode = CHR ''a'', m_Prefix = CHR ''&''\<rparr>,
      \<lparr>m_Mode = CHR ''o'', m_Prefix = CHR ''@''\<rparr>, \<lparr>m_Mode = CHR ''h'', m_Prefix = CHR ''%''\<rparr>,
      \<lparr>m_Mode = CHR ''v'', m_Prefix = CHR ''+''\<rparr>]"

type_synonym channel_modes = "(char, string) gomap"

text \<open>The state of a joined channel.  \<open>modes\<close> is \<open>None\<close> for Go's nil map; \<open>detachTimer\<close> holds the
  delay of the running auto-detach timer, \<open>None\<close> when there is none.\<close>

record upstream_channel =
  uch_Name :: string
  uch_Topic :: string
  uch_TopicWho :: "irc_prefix option"
  uch_TopicTime :: "int option"
  uch_Status :: "char option"
  uch_modes :: "channel_modes option"
  uch_creationTime :: string
  uch_Members :: "membership_set case_mapping_map"
  uch_complete :: bool
  uch_detachTimer :: "int option"

text \<open>One step of the loop of \<open>applyChannelModes\<close> for a mode that is a membership.\<close>

definition apply_membership ::
    "membership list \<Rightarrow> membership \<Rightarrow> char \<Rightarrow> string \<Rightarrow> upstream_channel \<Rightarrow> upstream_channel" where
  "apply_membership avail membership pm member ch =
     (case cmm_Get (uch_Members ch) member of
        None \<Rightarrow> ch
      | Some m \<Rightarrow> ch\<lparr>uch_Members := cmm_Set (uch_Members ch) member
          (if pm = CHR ''+'' then MembershipSet_Add avail membership m
           else MembershipSet_Remove membership m)\<rparr>)"

text \<open>One step for a channel mode of a known type; the second component is the number of arguments
  it consumes.\<close>

definition apply_chanmode ::
    "channel_mode_type \<Rightarrow> char \<Rightarrow> char \<Rightarrow> string option \<Rightarrow> channel_modes option \<Rightarrow> channel_modes option \<times> nat" where
  "apply_chanmode mt pm mode arg modes =
     (if mt = modeTypeA then (modes, 1)
      else if mt = modeTypeB \<or> (mt = modeTypeC \<and> pm = CHR ''+'') then
        (if pm = CHR ''+'' then map_option (go_put mode (case arg of None \<Rightarrow> [] | Some a \<Rightarrow> a)) modes
         else map_option (go_del mode) modes, 1)
      else
        (if pm = CHR ''+'' then map_option (go_put mode []) modes
         else map_option (go_del mode) modes, 0))"

fun apply_modes_loop ::
    "membership list \<Rightarrow> (char, channel_mode_type) gomap \<Rightarrow> string list \<Rightarrow> char option \<Rightarrow> nat \<Rightarrow> string
     \<Rightarrow> upstream_channel \<Rightarrow> modes_error option \<times> upstream_channel" where
  "apply_modes_loop avail chanmodes args pm next [] ch = (None, ch)"
| "apply_modes_loop avail chanmodes args pm next (mode # s) ch =
     (if mode = CHR ''+'' \<or> mode = CHR ''-'' then apply_modes_loop avail chanmodes args (Some mode) next s ch
      else case pm of
        None \<Rightarrow> (Some MissingPlusMinus, ch)
      | Some p \<Rightarrow>
         (case find (\<lambda>m. m_Mode m = mode) avail of
            Some membership \<Rightarrow>
              if next \<ge> length args then (Some (MissingModeArgument p mode), ch)
              else apply_modes_loop avail chanmodes args pm (Suc next) s
                     (apply_membership avail membership p (args ! next) ch)
          | None \<Rightarrow>
             (case go_get chanmodes mode of
                None \<Rightarrow> apply_modes_loop avail chanmodes args pm next s ch
              | Some mt \<Rightarrow>
                  (let arg = (if next < length args then Some (args ! next) else None);
                       (modes', used) = apply_chanmode mt p mode arg (uch_modes ch)
                   in apply_modes_loop avail chanmodes args pm (next + used) s (ch\<lparr>uch_modes := modes'\<rparr>)))))"

text \<open>\<open>avail\<close> and \<open>chanmodes\<close> are the connection's \<open>availableMemberships\<close> and
  \<open>availableChannelModes\<close>.\<close>

definition applyChannelModes ::
    "membership list \<Rightarrow> (char, channel_mode_type) gomap \<Rightarrow> upstream_channel \<Rightarrow> string \<Rightarrow> string list
     \<Rightarrow> modes_error option \<times> upstream_channel" where
  "applyChannelModes avail chanmodes ch modeStr arguments =
     apply_modes_loop avail chanmodes arguments None 0 modeStr ch"

definition channelModes_Format :: "channel_modes \<Rightarrow> string \<times> string list" where
  "channelModes_Format cm =
     (let withValues = filter (\<lambda>(mode, value). value \<noteq> []) cm;
          withoutValues = filter (\<lambda>(mode, value). value = []) cm;
          letters = (\<lambda>l. concat (map (\<lambda>(mode, _). encode_rune (of_char mode)) l))
      in (''+'' @ letters withValues @ letters withoutValues, map snd withValues))"

section \<open>Membership prefixes\<close>

text \<open>\<open>multiPrefix\<close>: whether the downstream connection has enabled the capability.\<close>

definition formatMemberPrefix :: "membership_set \<Rightarrow> bool \<Rightarrow> string" where
  "formatMemberPrefix ms multiPrefix =
     (if \<not> multiPrefix then (case ms of [] \<Rightarrow> [] | m # _ \<Rightarrow> encode_rune (of_char (m_Prefix m)))
      else map m_Prefix ms)"

definition stripMemberPrefixes :: "string \<Rightarrow> membership list \<Rightarrow> string" where
  "stripMemberPrefixes flgs avail =
     str_map (\<lambda>r. if \<exists>v\<in>set avail. char_of (r mod 256) = m_Prefix v then None else Some r) flgs"

fun parse_prefix_loop :: "membership list \<Rightarrow> string \<Rightarrow> membership_set \<times> string" where
  "parse_prefix_loop [] s = ([], s)"
| "parse_prefix_loop (m # avail) [] = ([], [])"
| "parse_prefix_loop (m # avail) (c # s) =
     (if c = m_Prefix m then (let (ms, nick) = parse_prefix_loop avail s in (m # ms, nick))
      else parse_prefix_loop avail (c # s))"

definition parseMembershipPrefix :: "membership list \<Rightarrow> string \<Rightarrow> membership_set \<times> string" where
  "parseMembershipPrefix avail s = parse_prefix_loop avail s"

section \<open>Other helpers\<close>

datatype params_error = NeedMoreParams string

text \<open>\<open>parseMessageParams\<close> stores the first parameters in the given variables: the model returns
  the first \<open>n\<close> parameters.\<close>

definition parseMessageParams :: "irc_message \<Rightarrow> nat \<Rightarrow> params_error + string list" where
  "parseMessageParams msg n =
     (if length (Params msg) < n then Inl (NeedMoreParams (Command msg)) else Inr (take n (Params msg)))"

definition copyClientTags :: "irc_tags \<Rightarrow> irc_tags" where
  "copyClientTags tags = filter (\<lambda>(k, v). HasPrefix k ''+'') tags"

definition isNumeric :: "string \<Rightarrow> bool" where
  "isNumeric cmd \<longleftrightarrow> length cmd = 3 \<and> list_all is_digit cmd"

definition RPL_UNAWAY :: string where "RPL_UNAWAY = ''305''"
definition RPL_NOWAWAY :: string where "RPL_NOWAWAY = ''306''"

definition generateAwayReply :: "bool \<Rightarrow> irc_message" where
  "generateAwayReply away =
     (if away then mk_msg RPL_NOWAWAY [''*'', ''You have been marked as being away'']
      else mk_msg RPL_UNAWAY [''*'', ''You are no longer marked as being away''])"

section \<open>Lemmas: user modes\<close>

lemma encode_ascii_char [simp]: "(of_char c :: nat) < 128 \<Longrightarrow> encode_rune (of_char c) = [c]"
  by simp

lemma userModes_Has_iff: "userModes_Has ms c \<longleftrightarrow> c \<in> set ms"
  by (simp add: userModes_Has_def IndexByte_None)

lemma userModes_Add_set:
  assumes "distinct ms" "(of_char c :: nat) < 128"
  shows "distinct (userModes_Add ms c) \<and> set (userModes_Add ms c) = insert c (set ms)"
  using assms by (auto simp: userModes_Add_def userModes_Has_iff)

lemma userModes_Del_set:
  assumes "distinct ms"
  shows "distinct (userModes_Del ms c) \<and> set (userModes_Del ms c) = set ms - {c}"
proof (cases "IndexByte ms c")
  case None
  then have "c \<notin> set ms" by (simp add: IndexByte_None)
  with None assms show ?thesis by (simp add: userModes_Del_def)
next
  case (Some i)
  then have i: "i < length ms" "ms ! i = c" by (auto dest: IndexByte_Some)
  then have e: "ms = take i ms @ c # drop (Suc i) ms" by (metis id_take_nth_drop)
  define a b where ab: "a = take i ms" "b = drop (Suc i) ms"
  have "distinct (a @ c # b)" "set ms = set (a @ c # b)" using e assms unfolding ab by metis+
  then have "distinct (a @ b) \<and> set (a @ b) = set ms - {c}" by auto
  with Some show ?thesis by (simp add: userModes_Del_def ab)
qed

text \<open>The abstract reading of a mode string over sets of modes.\<close>

fun mode_string_set :: "char option \<Rightarrow> string \<Rightarrow> char set \<Rightarrow> char set" where
  "mode_string_set pm [] S = S"
| "mode_string_set pm (c # s) S =
     (if c = CHR ''+'' \<or> c = CHR ''-'' then mode_string_set (Some c) s S
      else case pm of None \<Rightarrow> S
        | Some p \<Rightarrow> mode_string_set pm s (if p = CHR ''+'' then insert c S else S - {c}))"

lemma userModes_apply_loop_set:
  assumes "distinct ms" "is_ascii s"
  shows "distinct (snd (userModes_apply_loop pm s ms))
    \<and> set (snd (userModes_apply_loop pm s ms)) = mode_string_set pm s (set ms)"
  using assms
proof (induction pm s ms rule: userModes_apply_loop.induct)
  case (2 pm c s ms)
  have c: "(of_char c :: nat) < 128" "is_ascii s" using "2.prems"(2) by (simp_all add: is_ascii_def)
  show ?case
  proof (cases "c = CHR ''+'' \<or> c = CHR ''-''")
    case True
    then show ?thesis using "2.IH"(1) "2.prems" c by auto
  next
    case False
    then show ?thesis
      using "2.IH"(2) "2.prems" c userModes_Add_set [OF "2.prems"(1) c(1)]
        userModes_Del_set [OF "2.prems"(1), of c]
      by (cases pm) auto
  qed
qed simp

section \<open>Lemmas: channel modes\<close>

definition all_values :: "('v \<Rightarrow> bool) \<Rightarrow> 'v case_mapping_map \<Rightarrow> bool" where
  "all_values P cmm \<longleftrightarrow> list_all (\<lambda>(k, e). P (entry_value e)) (cmm_m cmm)"

lemma set_go_put_subset: "set (go_put k v m) \<subseteq> insert (k, v) (set m)"
  by (induction m) auto

lemma all_values_Set: "all_values P cmm \<Longrightarrow> P v \<Longrightarrow> all_values P (cmm_Set cmm n v)"
  using set_go_put_subset
  by (fastforce simp: all_values_def cmm_Set_def Let_def list_all_iff split: option.splits)

lemma all_values_Get: "all_values P cmm \<Longrightarrow> cmm_Get cmm n = Some v \<Longrightarrow> P v"
  by (auto simp: all_values_def cmm_Get_def list_all_iff dest!: go_get_mem)

lemma all_values_New [simp]: "all_values P (NewCaseMappingMap cm)"
  by (simp add: all_values_def NewCaseMappingMap_def)

lemma all_values_Del: "all_values P cmm \<Longrightarrow> all_values P (cmm_Del cmm n)"
  by (auto simp: all_values_def cmm_Del_def list_all_iff)

lemma all_values_map: "(\<And>v. P v \<Longrightarrow> Q (g v)) \<Longrightarrow> all_values P cmm \<Longrightarrow> all_values Q (cmm_map (\<lambda>_. g) cmm)"
  by (auto simp: all_values_def cmm_map_def list_all_iff)

text \<open>The invariant of a channel: every member's membership set is listed by rank.\<close>

definition members_ranked :: "membership list \<Rightarrow> upstream_channel \<Rightarrow> bool" where
  "members_ranked avail ch \<longleftrightarrow> all_values (\<lambda>ms. ms = ranked avail (set ms)) (uch_Members ch)"

lemma ranked_set: "set (ranked avail S) = S \<inter> set avail"
  by (auto simp: ranked_def)

lemma ranked_idem: "ranked avail (set (ranked avail S)) = ranked avail S"
  unfolding ranked_set by (auto simp: ranked_def intro: filter_cong)

lemma apply_membership_ranked:
  assumes "distinct avail" "membership \<in> set avail" "members_ranked avail ch"
  shows "members_ranked avail (apply_membership avail membership pm member ch)"
proof (cases "cmm_Get (uch_Members ch) member")
  case (Some m)
  then have "m = ranked avail (set m)"
    using assms(3) by (auto simp: members_ranked_def dest: all_values_Get)
  then have "MembershipSet_Add avail membership m = ranked avail (insert membership (set m))"
    "MembershipSet_Remove membership m = ranked avail (set m - {membership})"
    using MembershipSet_Add_ranked [OF assms(1,2), of "set m"]
      MembershipSet_Remove_ranked [OF assms(1), of membership "set m"] by simp_all
  with Some assms(3) show ?thesis
    by (auto simp: apply_membership_def members_ranked_def ranked_idem intro!: all_values_Set)
qed (use assms(3) in \<open>simp add: apply_membership_def\<close>)

lemma find_mem: "find P xs = Some x \<Longrightarrow> x \<in> set xs \<and> P x"
  by (metis find_Some_iff nth_mem)

lemma apply_modes_loop_invariant:
  assumes mem: "\<And>ch membership p member. membership \<in> set avail \<Longrightarrow> P ch
      \<Longrightarrow> P (apply_membership avail membership p member ch)"
    and modes: "\<And>ch m. P ch \<Longrightarrow> P (ch\<lparr>uch_modes := m\<rparr>)"
    and "P ch"
  shows "P (snd (apply_modes_loop avail chanmodes args pm nxt s ch))"
  using assms(3)
proof (induction s arbitrary: pm nxt ch)
  case (Cons mode s)
  show ?case
  proof (cases "mode = CHR ''+'' \<or> mode = CHR ''-''")
    case True
    then show ?thesis using Cons by auto
  next
    case False
    show ?thesis
    proof (cases "find (\<lambda>m. m_Mode m = mode) avail")
      case (Some membership)
      then have "membership \<in> set avail" using find_mem by metis
      with Some False Cons show ?thesis by (auto split: option.splits intro: mem)
    next
      case None
      with False Cons show ?thesis by (auto split: option.splits prod.splits intro: modes)
    qed
  qed
qed simp

lemma uch_modes_same: "uch_modes ch = x \<Longrightarrow> ch\<lparr>uch_modes := x\<rparr> = ch"
  by (cases ch) simp

lemma apply_with_values:
  assumes "\<forall>(k, v)\<in>set W. k \<noteq> CHR ''+'' \<and> k \<noteq> CHR ''-'' \<and> find (\<lambda>m. m_Mode m = k) avail = None
      \<and> (go_get chanmodes k = Some modeTypeB \<or> go_get chanmodes k = Some modeTypeC)"
    and "args = pre @ map snd W @ post" "uch_modes ch = Some m"
  shows "apply_modes_loop avail chanmodes args (Some (CHR ''+'')) (length pre) (map fst W @ s) ch
    = apply_modes_loop avail chanmodes args (Some (CHR ''+'')) (length pre + length W) s
        (ch\<lparr>uch_modes := Some (foldl (\<lambda>m (k, v). go_put k v m) m W)\<rparr>)"
  using assms
proof (induction W arbitrary: pre ch m)
  case (Cons kv W)
  obtain k v where kv: "kv = (k, v)" by force
  have k: "k \<noteq> CHR ''+''" "k \<noteq> CHR ''-''" "find (\<lambda>m. m_Mode m = k) avail = None"
    "go_get chanmodes k = Some modeTypeB \<or> go_get chanmodes k = Some modeTypeC"
    using Cons.prems(1) kv by auto
  let ?ch = "ch\<lparr>uch_modes := Some (go_put k v m)\<rparr>"
  have "apply_modes_loop avail chanmodes args (Some (CHR ''+'')) (length pre) (k # map fst W @ s) ch
      = apply_modes_loop avail chanmodes args (Some (CHR ''+'')) (Suc (length pre)) (map fst W @ s) ?ch"
    using k Cons.prems(2,3) kv by (auto simp: apply_chanmode_def)
  also have "\<dots> = apply_modes_loop avail chanmodes args (Some (CHR ''+'')) (length (pre @ [v]) + length W) s
      (?ch\<lparr>uch_modes := Some (foldl (\<lambda>m (k, v). go_put k v m) (go_put k v m) W)\<rparr>)"
    using Cons.IH [of "pre @ [v]" ?ch "go_put k v m"] Cons.prems kv by simp
  finally show ?case by (simp add: kv)
qed (simp add: uch_modes_same)

lemma apply_without_values:
  assumes "\<forall>(k, v)\<in>set W. v = [] \<and> k \<noteq> CHR ''+'' \<and> k \<noteq> CHR ''-'' \<and> find (\<lambda>m. m_Mode m = k) avail = None
      \<and> (\<exists>mt. go_get chanmodes k = Some mt \<and> mt \<noteq> modeTypeA)"
    and "length args \<le> nxt" "uch_modes ch = Some m"
  shows "apply_modes_loop avail chanmodes args (Some (CHR ''+'')) nxt (map fst W) ch
    = (None, ch\<lparr>uch_modes := Some (foldl (\<lambda>m (k, v). go_put k v m) m W)\<rparr>)"
  using assms
proof (induction W arbitrary: nxt ch m)
  case (Cons kv W)
  obtain k v where kv: "kv = (k, v)" by force
  obtain mt where k: "k \<noteq> CHR ''+''" "k \<noteq> CHR ''-''" "find (\<lambda>m. m_Mode m = k) avail = None"
    "go_get chanmodes k = Some mt" "mt \<noteq> modeTypeA" "v = []"
    using Cons.prems(1) kv by auto
  let ?ch = "ch\<lparr>uch_modes := Some (go_put k [] m)\<rparr>"
  define nxt' where "nxt' = (if mt = modeTypeD then nxt else Suc nxt)"
  have n: "length args \<le> nxt'"
    "apply_modes_loop avail chanmodes args (Some (CHR ''+'')) nxt (k # map fst W) ch
      = apply_modes_loop avail chanmodes args (Some (CHR ''+'')) nxt' (map fst W) ?ch"
    using k Cons.prems(2,3) by (cases mt; simp add: apply_chanmode_def nxt'_def)+
  with Cons.IH [OF _ n(1), of ?ch "go_put k [] m"] Cons.prems kv k show ?case by simp
qed (simp add: uch_modes_same)

section \<open>Properties\<close>

text \<open>Applying an ASCII user mode string keeps the modes free of duplicates and changes the set
  of modes as the string reads: each letter is added or removed according to the sign before it,
  up to the first letter without a sign.\<close>

theorem userModes_Apply_correct:
  assumes "distinct ms" "is_ascii s"
  shows "distinct (snd (userModes_Apply ms s)) \<and>
    set (snd (userModes_Apply ms s)) = mode_string_set None s (set ms)"
  using userModes_apply_loop_set [OF assms] by (simp add: userModes_Apply_def)

theorem userModes_Apply_correct_witness:
  "set (snd (userModes_Apply ''iw'' ''-w+ox'')) = {CHR ''i'', CHR ''o'', CHR ''x''}"
  using userModes_Apply_correct [of "''iw''" "''-w+ox''"] by (auto simp: is_ascii_def)

text \<open>C31. Whatever the mode string and its arguments, and also when it is rejected half-way, a MODE
  message leaves every member's membership set listed by descending rank.\<close>

theorem applyChannelModes_ranked:
  assumes "distinct avail" "members_ranked avail ch"
  shows "members_ranked avail (snd (applyChannelModes avail chanmodes ch modeStr args))"
  unfolding applyChannelModes_def
proof (rule apply_modes_loop_invariant)
  fix ch' membership p member
  assume "membership \<in> set avail" "members_ranked avail ch'"
  with assms(1) show "members_ranked avail (apply_membership avail membership p member ch')"
    by (rule apply_membership_ranked)
next
  fix ch' :: upstream_channel and m
  assume "members_ranked avail ch'"
  then show "members_ranked avail (ch'\<lparr>uch_modes := m\<rparr>)" by (simp add: members_ranked_def)
qed (rule assms(2))

definition example_channel :: upstream_channel where
  "example_channel = \<lparr>uch_Name = ''#c'', uch_Topic = [], uch_TopicWho = None, uch_TopicTime = None,
     uch_Status = None, uch_modes = Some [],
     uch_creationTime = [], uch_Members = cmm_Set (NewCaseMappingMap casemapRFC1459) ''joe'' [],
     uch_complete = True, uch_detachTimer = None\<rparr>"

theorem applyChannelModes_ranked_witness:
  "members_ranked stdMemberships
     (snd (applyChannelModes stdMemberships stdChannelModes example_channel ''+vo'' [''joe'', ''joe'']))"
  by (rule applyChannelModes_ranked)
    (simp_all add: stdMemberships_def members_ranked_def example_channel_def all_values_Set ranked_def)

text \<open>The mode string and parameters that \<open>Format\<close> produces for a channel's modes, read back by
  \<open>applyChannelModes\<close> into a channel with no modes, restore the same modes: for every order in
  which the map is visited, when the modes are ASCII letters of known types and only modes that
  take a parameter carry a value.\<close>

theorem channelModes_roundtrip:
  assumes ok: "gomap_ok cm"
    and known: "\<forall>(k, v)\<in>set cm. (of_char k :: nat) < 128 \<and> k \<noteq> CHR ''+'' \<and> k \<noteq> CHR ''-''
      \<and> find (\<lambda>m. m_Mode m = k) avail = None
      \<and> (if v = [] then \<exists>mt. go_get chanmodes k = Some mt \<and> mt \<noteq> modeTypeA
         else go_get chanmodes k = Some modeTypeB \<or> go_get chanmodes k = Some modeTypeC)"
    and "uch_modes ch = Some []"
  shows "\<exists>m. (let (modeStr, params) = channelModes_Format cm
         in applyChannelModes avail chanmodes ch modeStr params) = (None, ch\<lparr>uch_modes := Some m\<rparr>)
      \<and> go_get m = go_get cm"
proof -
  define W where "W = filter (\<lambda>(k, v). v \<noteq> []) cm"
  define W0 where "W0 = filter (\<lambda>(k, v). v = []) cm"
  let ?put = "foldl (\<lambda>m (k, v). go_put k v m)"
  have letters: "concat (map (\<lambda>(k, _). encode_rune (of_char k)) l) = map fst l"
    if "set l \<subseteq> set cm" for l
    using that known by (induction l) (auto simp del: encode_rune_ascii)
  have fmt: "channelModes_Format cm = (CHR ''+'' # map fst W @ map fst W0, map snd W)"
    unfolding channelModes_Format_def Let_def W_def [symmetric] W0_def [symmetric]
    by (simp add: letters W_def W0_def)
  have w: "\<forall>(k, v)\<in>set W. k \<noteq> CHR ''+'' \<and> k \<noteq> CHR ''-'' \<and> find (\<lambda>m. m_Mode m = k) avail = None
      \<and> (go_get chanmodes k = Some modeTypeB \<or> go_get chanmodes k = Some modeTypeC)"
    and w0: "\<forall>(k, v)\<in>set W0. v = [] \<and> k \<noteq> CHR ''+'' \<and> k \<noteq> CHR ''-'' \<and> find (\<lambda>m. m_Mode m = k) avail = None
      \<and> (\<exists>mt. go_get chanmodes k = Some mt \<and> mt \<noteq> modeTypeA)"
    using known by (fastforce simp: W_def W0_def)+
  let ?ch = "ch\<lparr>uch_modes := Some (?put [] W)\<rparr>"
  have "applyChannelModes avail chanmodes ch (CHR ''+'' # map fst W @ map fst W0) (map snd W)
      = apply_modes_loop avail chanmodes (map snd W) (Some (CHR ''+'')) (length W) (map fst W0) ?ch"
    using apply_with_values [OF w, of "map snd W" "[]" "[]" ch "[]" "map fst W0"] assms(3)
    by (simp add: applyChannelModes_def)
  also have "\<dots> = (None, ?ch\<lparr>uch_modes := Some (?put (?put [] W) W0)\<rparr>)"
    by (rule apply_without_values [OF w0]) simp_all
  finally have run: "applyChannelModes avail chanmodes ch (CHR ''+'' # map fst W @ map fst W0) (map snd W)
      = (None, ch\<lparr>uch_modes := Some (?put [] (W @ W0))\<rparr>)" by simp
  have dist: "distinct (map fst (W @ W0))"
    using ok unfolding W_def W0_def gomap_ok_def
    by (auto simp: distinct_map inj_on_def dest: distinct_filter)
  have "set (W @ W0) = set cm" by (auto simp: W_def W0_def)
  then have "go_get (W @ W0) = go_get cm"
    using dist ok by (intro map_of_inject_set [THEN iffD2]) (auto simp: gomap_ok_def)
  moreover have "?put [] (W @ W0) = W @ W0" using foldl_put_new [of "[]" "W @ W0"] dist by simp
  ultimately show ?thesis
    using fmt run by (intro exI [of _ "W @ W0"]) (simp del: foldl_append map_of_append)
qed

theorem channelModes_roundtrip_witness:
  "\<exists>m. (let (modeStr, params) = channelModes_Format [(CHR ''n'', []), (CHR ''k'', ''key'')]
         in applyChannelModes stdMemberships stdChannelModes example_channel modeStr params)
       = (None, example_channel\<lparr>uch_modes := Some m\<rparr>)
     \<and> go_get m = go_get [(CHR ''n'', []), (CHR ''k'', ''key'')]"
  by (rule channelModes_roundtrip)
    (simp_all add: gomap_ok_def stdMemberships_def stdChannelModes_def example_channel_def)

lemma parse_prefix_ranked:
  assumes "distinct (map m_Prefix avail)" "nick = [] \<or> hd nick \<notin> m_Prefix ` set avail"
  shows "parse_prefix_loop avail (map m_Prefix (ranked avail S) @ nick) = (ranked avail S, nick)"
  using assms
proof (induction avail)
  case (Cons m avail)
  have IH: "parse_prefix_loop avail (map m_Prefix (ranked avail S) @ nick) = (ranked avail S, nick)"
    using Cons by auto
  show ?case
  proof (cases "m \<in> S")
    case True
    then show ?thesis using IH by (simp add: ranked_def)
  next
    case False
    have eq: "ranked (m # avail) S = ranked avail S" using False by (simp add: ranked_def)
    show ?thesis
    proof (cases "map m_Prefix (ranked avail S) @ nick")
      case Nil
      then show ?thesis unfolding eq by (simp add: ranked_def)
    next
      case (Cons c s)
      have "c \<noteq> m_Prefix m"
      proof (cases "ranked avail S")
        case Nil
        with Cons Cons.prems show ?thesis by auto
      next
        case (Cons x xs)
        then have "x \<in> set avail" by (metis list.set_intros(1) ranked_set Int_iff)
        then have "m_Prefix x \<in> m_Prefix ` set avail" by simp
        moreover have "c = m_Prefix x"
          using Cons \<open>map m_Prefix (ranked avail S) @ nick = c # s\<close> by simp
        moreover have "m_Prefix m \<notin> m_Prefix ` set avail" using Cons.prems(1) by simp
        ultimately show ?thesis by metis
      qed
      then show ?thesis unfolding eq using IH Cons by simp
    qed
  qed
qed (simp add: ranked_def)

text \<open>The prefixes a multi-prefix client is sent for a member parse back to the same membership
  set and nick, for every set of memberships.\<close>

theorem member_prefix_roundtrip:
  assumes "distinct (map m_Prefix avail)" "nick = [] \<or> hd nick \<notin> m_Prefix ` set avail"
  shows "parseMembershipPrefix avail (formatMemberPrefix (ranked avail S) True @ nick) = (ranked avail S, nick)"
  using parse_prefix_ranked [OF assms] by (simp add: parseMembershipPrefix_def formatMemberPrefix_def)

theorem member_prefix_roundtrip_witness:
  "parseMembershipPrefix stdMemberships ''@+joe''
   = ([\<lparr>m_Mode = CHR ''o'', m_Prefix = CHR ''@''\<rparr>, \<lparr>m_Mode = CHR ''v'', m_Prefix = CHR ''+''\<rparr>], ''joe'')"
  using member_prefix_roundtrip [of stdMemberships "''joe''"
      "{\<lparr>m_Mode = CHR ''o'', m_Prefix = CHR ''@''\<rparr>, \<lparr>m_Mode = CHR ''v'', m_Prefix = CHR ''+''\<rparr>}"]
  by (simp add: stdMemberships_def ranked_def formatMemberPrefix_def)

end
