(* ===== verification/Msgid.thy ===== *)
theory Msgid
  imports Base64 "HOL-Library.Word"
begin

text \<open>
  Internal message IDs, \<^verbatim>\<open>src/msgstore/msgstore.go\<close>: a header and a store-specific body in the BARE
  encoding, written in unpadded URL-safe base64.  The BARE library is not part of the sources;
  its marshal and unmarshal functions for the two structures are the parameter \<open>bare_codec\<close>, and
  \<open>bare_ok\<close> states what the format documents: reading back what was written gives the value and
  leaves the bytes after it, for the integers of 64 bits and the strings the library accepts
  (valid UTF-8 within its size limit, the field \<open>accepts\<close>).
\<close>

datatype msg_id_type = msgIDNone | msgIDMemory | msgIDFS | msgIDDB

record msg_id_header =
  Version :: nat
  Network :: int
  Target :: string
  IDType :: msg_id_type

record fs_date =
  Year :: int
  Month :: int
  Day :: int

text \<open>The bodies of the three stores: \<open>memoryMsgID\<close>, \<open>fsMsgID\<close> and \<open>dbMsgID\<close>.\<close>

datatype msg_id_body = MemoryMsgID "64 word" | FSMsgID fs_date int | DBMsgID "64 word"

fun msgIDType :: "msg_id_body \<Rightarrow> msg_id_type" where
  "msgIDType (MemoryMsgID _) = msgIDMemory"
| "msgIDType (FSMsgID _ _) = msgIDFS"
| "msgIDType (DBMsgID _) = msgIDDB"

definition msgIDVersion :: nat where
  "msgIDVersion = 0"

definition int64_ok :: "int \<Rightarrow> bool" where
  "int64_ok i \<longleftrightarrow> - (2 ^ 63) \<le> i \<and> i < 2 ^ 63"

record bare_codec =
  accepts :: "string \<Rightarrow> bool"
  marshalHeader :: "msg_id_header \<Rightarrow> string"
  unmarshalHeader :: "string \<Rightarrow> (msg_id_header \<times> string) option"
  marshalBody :: "msg_id_body \<Rightarrow> string"
  unmarshalBody :: "msg_id_type \<Rightarrow> string \<Rightarrow> (msg_id_body \<times> string) option"

definition header_ok :: "bare_codec \<Rightarrow> msg_id_header \<Rightarrow> bool" where
  "header_ok B h \<longleftrightarrow> Version h < 2 ^ 64 \<and> int64_ok (Network h) \<and> accepts B (Target h)"

fun body_ok :: "msg_id_body \<Rightarrow> bool" where
  "body_ok (FSMsgID d off) \<longleftrightarrow> int64_ok (Year d) \<and> int64_ok (Month d) \<and> int64_ok (Day d) \<and> int64_ok off"
| "body_ok _ \<longleftrightarrow> True"

definition bare_ok :: "bare_codec \<Rightarrow> bool" where
  "bare_ok B \<longleftrightarrow>
     (\<forall>h r. header_ok B h \<longrightarrow> unmarshalHeader B (marshalHeader B h @ r) = Some (h, r))
     \<and> (\<forall>b r. body_ok b \<longrightarrow> unmarshalBody B (msgIDType b) (marshalBody B b @ r) = Some (b, r))"

definition formatMsgID :: "bare_codec \<Rightarrow> int \<Rightarrow> string \<Rightarrow> msg_id_body \<Rightarrow> string" where
  "formatMsgID B netID tgt body =
     raw_url_encode (marshalHeader B \<lparr>Version = msgIDVersion, Network = netID, Target = tgt,
        IDType = msgIDType body\<rparr> @ marshalBody B body)"

datatype msg_id_error = IDNotBase64 | IDBadHeader | IDBadVersion nat | IDBadType msg_id_type | IDBadBody

text \<open>\<open>typ\<close> is the type of the body to fill in, \<open>None\<close> for a nil body.\<close>

definition ParseMsgID ::
    "bare_codec \<Rightarrow> string \<Rightarrow> msg_id_type option \<Rightarrow> msg_id_error + (int \<times> string \<times> msg_id_body option)" where
  "ParseMsgID B s typ =
     (case raw_url_decode s of
        None \<Rightarrow> Inl IDNotBase64
      | Some b \<Rightarrow>
         (case unmarshalHeader B b of
            None \<Rightarrow> Inl IDBadHeader
          | Some (header, rest) \<Rightarrow>
             if Version header \<noteq> msgIDVersion then Inl (IDBadVersion (Version header))
             else (case typ of
                None \<Rightarrow> Inr (Network header, Target header, None)
              | Some t \<Rightarrow>
                 if IDType header \<noteq> t then Inl (IDBadType (IDType header))
                 else (case unmarshalBody B t rest of
                    None \<Rightarrow> Inl IDBadBody
                  | Some (body, _) \<Rightarrow> Inr (Network header, Target header, Some body)))))"

section \<open>A concrete codec\<close>

text \<open>The BARE rules for the types used here: unsigned integers in base 128 with a continuation
  bit, signed integers folded onto the unsigned ones, strings preceded by their length.\<close>

fun bare_uint :: "nat \<Rightarrow> nat list" where
  "bare_uint n = (if n < 128 then [n] else (n mod 128 + 128) # bare_uint (n div 128))"

declare bare_uint.simps [simp del]

fun read_uint :: "nat list \<Rightarrow> (nat \<times> nat list) option" where
  "read_uint [] = None"
| "read_uint (b # bs) = (if b < 128 then Some (b, bs)
     else map_option (\<lambda>(n, r). (n * 128 + (b - 128), r)) (read_uint bs))"

lemma read_bare_uint: "read_uint (bare_uint n @ r) = Some (n, r)"
proof (induction n rule: bare_uint.induct)
  case (1 n)
  show ?case
  proof (cases "n < 128")
    case True
    then show ?thesis by (subst bare_uint.simps) simp
  next
    case False
    then show ?thesis using 1 by (subst bare_uint.simps) simp
  qed
qed

definition zigzag :: "int \<Rightarrow> nat" where
  "zigzag i = (if i \<ge> 0 then nat (2 * i) else nat (- 2 * i - 1))"

definition unzigzag :: "nat \<Rightarrow> int" where
  "unzigzag n = (if even n then int (n div 2) else - int ((n + 1) div 2))"

lemma unzigzag_zigzag [simp]: "unzigzag (zigzag i) = i"
proof (cases "i \<ge> 0")
  case True
  then show ?thesis by (simp add: zigzag_def unzigzag_def nat_mult_distrib)
next
  case False
  then obtain k where k: "i = - int (Suc k)" by (metis int_cases linorder_not_less of_nat_0_le_iff)
  have "nat (- 2 * i - 1) = 2 * k + 1" by (simp add: k nat_add_distrib)
  with False show ?thesis by (simp add: zigzag_def unzigzag_def k)
qed

fun type_code :: "msg_id_type \<Rightarrow> nat" where
  "type_code msgIDNone = 0"
| "type_code msgIDMemory = 1"
| "type_code msgIDFS = 2"
| "type_code msgIDDB = 3"

fun type_of_code :: "nat \<Rightarrow> msg_id_type" where
  "type_of_code n = (if n = 1 then msgIDMemory else if n = 2 then msgIDFS else if n = 3 then msgIDDB
     else msgIDNone)"

lemma type_of_type_code [simp]: "type_of_code (type_code t) = t"
  by (cases t) simp_all

declare type_of_code.simps [simp del]

definition bare_header :: "msg_id_header \<Rightarrow> nat list" where
  "bare_header h = bare_uint (Version h) @ bare_uint (zigzag (Network h))
     @ bare_uint (length (Target h)) @ map of_char (Target h) @ bare_uint (type_code (IDType h))"

definition read_header :: "nat list \<Rightarrow> (msg_id_header \<times> nat list) option" where
  "read_header bs =
     (case read_uint bs of None \<Rightarrow> None | Some (v, bs) \<Rightarrow>
      (case read_uint bs of None \<Rightarrow> None | Some (n, bs) \<Rightarrow>
      (case read_uint bs of None \<Rightarrow> None | Some (l, bs) \<Rightarrow>
       if length bs < l then None else
      (case read_uint (drop l bs) of None \<Rightarrow> None | Some (t, r) \<Rightarrow>
       Some (\<lparr>Version = v, Network = unzigzag n, Target = map char_of (take l bs), IDType = type_of_code t\<rparr>, r)))))"

lemma read_bare_header: "read_header (bare_header h @ r) = Some (h, r)"
  by (simp add: read_header_def bare_header_def read_bare_uint comp_def)

fun bare_body :: "msg_id_body \<Rightarrow> nat list" where
  "bare_body (MemoryMsgID n) = bare_uint (unat n)"
| "bare_body (DBMsgID n) = bare_uint (unat n)"
| "bare_body (FSMsgID d off) = bare_uint (zigzag (Year d)) @ bare_uint (zigzag (Month d))
     @ bare_uint (zigzag (Day d)) @ bare_uint (zigzag off)"

fun read_body :: "msg_id_type \<Rightarrow> nat list \<Rightarrow> (msg_id_body \<times> nat list) option" where
  "read_body msgIDNone bs = None"
| "read_body msgIDMemory bs = map_option (\<lambda>(n, r). (MemoryMsgID (of_nat n), r)) (read_uint bs)"
| "read_body msgIDDB bs = map_option (\<lambda>(n, r). (DBMsgID (of_nat n), r)) (read_uint bs)"
| "read_body msgIDFS bs =
     (case read_uint bs of None \<Rightarrow> None | Some (y, bs) \<Rightarrow>
      (case read_uint bs of None \<Rightarrow> None | Some (m, bs) \<Rightarrow>
      (case read_uint bs of None \<Rightarrow> None | Some (d, bs) \<Rightarrow>
      (case read_uint bs of None \<Rightarrow> None | Some (off, r) \<Rightarrow>
       Some (FSMsgID \<lparr>Year = unzigzag y, Month = unzigzag m, Day = unzigzag d\<rparr> (unzigzag off), r)))))"

lemma read_bare_body: "read_body (msgIDType b) (bare_body b @ r) = Some (b, r)"
  by (cases b) (simp_all add: read_bare_uint)

lemma bare_uint_bytes: "b \<in> set (bare_uint n) \<Longrightarrow> b < 256"
proof (induction n rule: bare_uint.induct)
  case (1 n)
  then show ?case by (subst (asm) bare_uint.simps) (auto split: if_splits)
qed

definition bytes_of :: "nat list \<Rightarrow> string" where
  "bytes_of bs = map char_of bs"

lemma bytes_roundtrip: "\<forall>b\<in>set bs. b < 256 \<Longrightarrow> map of_char (bytes_of bs) = bs"
  by (induction bs) (auto simp: bytes_of_def)

lemma bare_header_bytes: "\<forall>b\<in>set (bare_header h). b < 256"
  by (auto simp: bare_header_def dest: bare_uint_bytes)

lemma bare_body_bytes: "\<forall>b\<in>set (bare_body bd). b < 256"
  by (cases bd) (auto dest: bare_uint_bytes)

definition bare_concrete :: bare_codec where
  "bare_concrete = \<lparr>
     accepts = (\<lambda>_. True),
     marshalHeader = (\<lambda>h. bytes_of (bare_header h)),
     unmarshalHeader = (\<lambda>s. map_option (\<lambda>(h, r). (h, bytes_of r)) (read_header (map of_char s))),
     marshalBody = (\<lambda>b. bytes_of (bare_body b)),
     unmarshalBody = (\<lambda>t s. map_option (\<lambda>(b, r). (b, bytes_of r)) (read_body t (map of_char s)))\<rparr>"

lemma bare_concrete_ok: "bare_ok bare_concrete"
  by (simp add: bare_ok_def bare_concrete_def bytes_roundtrip bare_header_bytes bare_body_bytes
      read_bare_header read_bare_body) (simp add: bytes_of_def comp_def)

section \<open>Properties\<close>

text \<open>The arguments of \<open>formatMsgID\<close> that the encoding represents.\<close>

definition msgid_ok :: "bare_codec \<Rightarrow> int \<Rightarrow> string \<Rightarrow> msg_id_body \<Rightarrow> bool" where
  "msgid_ok B netID tgt body \<longleftrightarrow> int64_ok netID \<and> accepts B tgt \<and> body_ok body"

lemma ParseMsgID_format:
  assumes B: "bare_ok B" and ok: "msgid_ok B netID tgt body"
  shows "ParseMsgID B (formatMsgID B netID tgt body) typ =
    (case typ of None \<Rightarrow> Inr (netID, tgt, None)
     | Some t \<Rightarrow> if t = msgIDType body then Inr (netID, tgt, Some body) else Inl (IDBadType (msgIDType body)))"
proof -
  define h where "h = \<lparr>Version = msgIDVersion, Network = netID, Target = tgt, IDType = msgIDType body\<rparr>"
  have "header_ok B h" "body_ok body"
    using ok by (simp_all add: h_def header_ok_def msgid_ok_def msgIDVersion_def)
  then have h: "unmarshalHeader B (marshalHeader B h @ marshalBody B body) = Some (h, marshalBody B body)"
    and b: "unmarshalBody B (msgIDType body) (marshalBody B body) = Some (body, [])"
    using B unfolding bare_ok_def by (blast, metis append_Nil2)
  show ?thesis
    unfolding ParseMsgID_def formatMsgID_def h_def [symmetric] raw_url_decode_encode
    using h b by (auto simp: h_def split: option.splits)
qed

text \<open>A formatted internal message ID parses back to its network, target and body when read
  with the type of the store that wrote it, and is rejected when read by another store.\<close>

theorem msgid_roundtrip:
  assumes "bare_ok B" and "msgid_ok B netID tgt body"
  shows "ParseMsgID B (formatMsgID B netID tgt body) (Some t)
    = (if t = msgIDType body then Inr (netID, tgt, Some body) else Inl (IDBadType (msgIDType body)))"
  using ParseMsgID_format [OF assms] by simp

theorem msgid_roundtrip_witness:
  "ParseMsgID bare_concrete (formatMsgID bare_concrete 3 ''#soju'' (MemoryMsgID 300)) (Some msgIDMemory)
   = Inr (3, ''#soju'', Some (MemoryMsgID 300))"
  using msgid_roundtrip [OF bare_concrete_ok, of 3 "''#soju''" "MemoryMsgID 300" msgIDMemory]
  by (simp add: msgid_ok_def int64_ok_def bare_concrete_def)

end
