(* ===== verification/Memory_Store.thy ===== *)
theory Memory_Store
  imports Msgid
begin

text \<open>
  The in-memory message store, \<^verbatim>\<open>src/msgstore/memory.go\<close>: one ring buffer of messages per network
  and entity, addressed by 64-bit sequence numbers.  The locale \<open>history_buffer\<close> is the contract a
  bounded buffer gives its clients, over the whole sequence of messages ever appended; the ring
  buffer is its instance, and the store's properties rest on the facts of that interpretation.
\<close>

section \<open>The ring buffer\<close>

record message_ring_buffer =
  buf :: "irc_message option list"
  cur :: "64 word"

definition newMessageRingBuffer :: "nat \<Rightarrow> message_ring_buffer" where
  "newMessageRingBuffer capacity = \<lparr>buf = replicate capacity None, cur = 1\<rparr>"

definition rb_cap :: "message_ring_buffer \<Rightarrow> 64 word" where
  "rb_cap rb = of_nat (length (buf rb))"

text \<open>\<open>None\<close> is the run-time panic of a division by zero.\<close>

definition rb_Append :: "message_ring_buffer \<Rightarrow> irc_message \<Rightarrow> (64 word \<times> message_ring_buffer) option" where
  "rb_Append rb msg =
     (if rb_cap rb = 0 then None
      else Some (cur rb, rb\<lparr>buf := (buf rb)[unat (cur rb mod rb_cap rb) := Some msg], cur := cur rb + 1\<rparr>))"

datatype load_error = SeqTooLarge | RingPanic

text \<open>The loop of \<open>LoadLatestSeq\<close>: \<open>i\<close> from 0 to \<open>diff\<close>.  A negative \<open>limit\<close> makes the length given to
  \<open>make\<close> negative, which panics.\<close>

definition LoadLatestSeq ::
    "message_ring_buffer \<Rightarrow> 64 word \<Rightarrow> int \<Rightarrow> load_error + irc_message option list" where
  "LoadLatestSeq rb seq limit =
     (if seq > cur rb then Inl SeqTooLarge
      else if seq = cur rb then Inr []
      else
        let diff = cur rb - seq - 1;
            diff = (if diff > rb_cap rb then rb_cap rb else diff);
            diff = (if sint diff > limit then word_of_int limit else diff)
        in if sint diff < 0 then Inl RingPanic
           else Inr (map (\<lambda>i. buf rb ! unat ((cur rb - diff + of_nat i) mod rb_cap rb)) [0..<unat diff]))"

section \<open>The store\<close>

type_synonym memory_message_store = "(int \<times> string, message_ring_buffer) gomap"

definition messageRingBufferCap :: nat where
  "messageRingBufferCap = 4096"

definition NewMemoryStore :: memory_message_store where
  "NewMemoryStore = []"

definition formatMemoryMsgID :: "bare_codec \<Rightarrow> int \<Rightarrow> string \<Rightarrow> 64 word \<Rightarrow> string" where
  "formatMemoryMsgID B netID entity seq = formatMsgID B netID entity (MemoryMsgID seq)"

definition parseMemoryMsgID :: "bare_codec \<Rightarrow> string \<Rightarrow> msg_id_error + (int \<times> string \<times> 64 word)" where
  "parseMemoryMsgID B s =
     (case ParseMsgID B s (Some msgIDMemory) of
        Inl e \<Rightarrow> Inl e
      | Inr (netID, entity, Some (MemoryMsgID seq)) \<Rightarrow> Inr (netID, entity, seq)
      | Inr (netID, entity, _) \<Rightarrow> Inr (netID, entity, 0))"

definition memory_LastMsgID :: "bare_codec \<Rightarrow> memory_message_store \<Rightarrow> int \<Rightarrow> string \<Rightarrow> string" where
  "memory_LastMsgID B ms netID entity =
     formatMemoryMsgID B netID entity
       (case go_get ms (netID, entity) of Some rb \<Rightarrow> cur rb | None \<Rightarrow> 0)"

definition memory_Append ::
    "bare_codec \<Rightarrow> memory_message_store \<Rightarrow> int \<Rightarrow> string \<Rightarrow> irc_message \<Rightarrow> (string \<times> memory_message_store) option" where
  "memory_Append B ms netID entity msg =
     (if Command msg = ''PRIVMSG'' \<or> Command msg = ''NOTICE'' then
        let rb = (case go_get ms (netID, entity) of
                    Some rb \<Rightarrow> rb | None \<Rightarrow> newMessageRingBuffer messageRingBufferCap)
        in (case rb_Append rb msg of
              None \<Rightarrow> None
            | Some (seq, rb') \<Rightarrow>
                Some (formatMemoryMsgID B netID entity seq, go_put (netID, entity) rb' ms))
      else Some ([], ms))"

datatype store_error = EventsUnsupported | BadMsgID msg_id_error | LoadError load_error

definition memory_LoadLatestID ::
    "bare_codec \<Rightarrow> memory_message_store \<Rightarrow> string \<Rightarrow> int \<Rightarrow> string \<Rightarrow> int \<Rightarrow> bool
     \<Rightarrow> store_error + irc_message option list" where
  "memory_LoadLatestID B ms msgid netID entity limit events =
     (if events then Inl EventsUnsupported
      else (case parseMemoryMsgID B msgid of
        Inl e \<Rightarrow> Inl (BadMsgID e)
      | Inr (_, _, seq) \<Rightarrow>
         (case go_get ms (netID, entity) of
            None \<Rightarrow> Inr []
          | Some rb \<Rightarrow> (case LoadLatestSeq rb seq limit of Inl e \<Rightarrow> Inl (LoadError e) | Inr l \<Rightarrow> Inr l))))"

section \<open>The contract of a bounded history\<close>

definition last_n :: "nat \<Rightarrow> 'a list \<Rightarrow> 'a list" where
  "last_n n xs = drop (length xs - n) xs"

lemma last_n_append: "n \<le> length ys \<Longrightarrow> last_n n (xs @ ys) = last_n n ys"
  by (simp add: last_n_def)

text \<open>\<open>repr c h b\<close>: the buffer \<open>b\<close> of capacity \<open>c\<close> has received the messages \<open>h\<close>, the oldest first.
  \<open>bound\<close> is how many messages may ever be appended.\<close>

locale history_buffer =
  fixes repr :: "nat \<Rightarrow> 'm list \<Rightarrow> 'b \<Rightarrow> bool"
    and fresh :: "nat \<Rightarrow> 'b"
    and push :: "'b \<Rightarrow> 'm \<Rightarrow> ('i \<times> 'b) option"
    and load :: "'b \<Rightarrow> 'i \<Rightarrow> nat \<Rightarrow> 'e + 'm option list"
    and number :: "nat \<Rightarrow> 'i"
    and bound :: nat
    and max_cap :: nat
  assumes fresh_repr: "0 < c \<Longrightarrow> c < max_cap \<Longrightarrow> repr c [] (fresh c)"
    and push_repr: "repr c h b \<Longrightarrow> length h < bound \<Longrightarrow>
      \<exists>b'. push b m = Some (number (length h + 1), b') \<and> repr c (h @ [m]) b'"
    and load_repr: "repr c h b \<Longrightarrow> s \<le> length h \<Longrightarrow> length h \<le> bound \<Longrightarrow>
      load b (number s) n = Inr (map Some (last_n (min n (min c (length h - s))) h))"
begin

fun push_all :: "'b \<Rightarrow> 'm list \<Rightarrow> 'b option" where
  "push_all b [] = Some b"
| "push_all b (m # ms) = (case push b m of None \<Rightarrow> None | Some (_, b') \<Rightarrow> push_all b' ms)"

lemma push_all_repr:
  "repr c h b \<Longrightarrow> length h + length ms \<le> bound \<Longrightarrow> \<exists>b'. push_all b ms = Some b' \<and> repr c (h @ ms) b'"
proof (induction ms arbitrary: h b)
  case Nil
  then show ?case by simp
next
  case (Cons m ms)
  then obtain b1 where b1: "push b m = Some (number (length h + 1), b1)" "repr c (h @ [m]) b1"
    using push_repr [of c h b m] by auto
  from Cons.IH [OF b1(2)] Cons.prems(2) b1(1) show ?case by auto
qed

text \<open>Reading from the number of a message gives what was appended after it, up to the limit and
  the capacity.\<close>

lemma load_after_push:
  assumes "repr c h b" and "push b m = Some (i, b1)" and "push_all b1 ms = Some b2"
    and "length h + 1 + length ms \<le> bound"
  shows "load b2 i n = Inr (map Some (last_n (min n c) ms))"
proof -
  have 1: "i = number (length h + 1)" "repr c (h @ [m]) b1"
    using push_repr [OF assms(1), of m] assms(2,4) by auto
  have 2: "repr c ((h @ [m]) @ ms) b2"
    using push_all_repr [OF 1(2), of ms] assms(3,4) by auto
  have "last_n (min n (min c (length ms))) ((h @ [m]) @ ms) = last_n (min n c) ms"
    by (subst last_n_append) (auto simp: last_n_def min_def)
  with load_repr [OF 2, of "length h + 1" n] assms(4) show ?thesis by (simp add: 1(1))
qed

lemma load_all:
  assumes "0 < c" "c < max_cap" and "push_all (fresh c) ms = Some b" and "length ms \<le> bound"
  shows "load b (number 0) n = Inr (map Some (last_n (min n c) ms))"
proof -
  have "repr c ([] @ ms) b"
    using push_all_repr [OF fresh_repr [OF assms(1,2)], of ms] assms(3,4) by auto
  from load_repr [OF this, of 0 n] assms(4) show ?thesis
    by (simp add: last_n_def min_def)
qed

end

section \<open>The ring buffer keeps the contract\<close>

text \<open>The history of a ring buffer: the slot of the message with number \<open>i + 1\<close> holds it as long as
  fewer than \<open>c\<close> messages came after.\<close>

definition rb_repr :: "nat \<Rightarrow> irc_message list \<Rightarrow> message_ring_buffer \<Rightarrow> bool" where
  "rb_repr c h rb \<longleftrightarrow> 0 < c \<and> c < 2 ^ 63 \<and> length (buf rb) = c \<and> length h < 2 ^ 64 - 1
     \<and> cur rb = of_nat (length h + 1)
     \<and> (\<forall>i < length h. length h \<le> i + c \<longrightarrow> buf rb ! ((i + 1) mod c) = Some (h ! i))"

lemma unat_of_nat64: "n < 2 ^ 64 \<Longrightarrow> unat (of_nat n :: 64 word) = n"
  by (simp only: unat_of_nat take_bit_nat_eq_self len_num0 len_num1 len_bit0 len_bit1) simp

lemma sint_small: "unat w < 2 ^ 63 \<Longrightarrow> sint (w :: 64 word) = int (unat w)"
proof -
  assume "unat w < 2 ^ 63"
  then have "int (unat w) < int (2 ^ 63)" by (simp only: of_nat_less_iff)
  then have "uint w < 2 ^ 63" by (simp only: uint_nat of_nat_power of_nat_numeral)
  moreover have "- (2 ^ 63) \<le> uint w" using uint_ge_0 [of w] by (rule order_trans [rotated]) simp
  ultimately have "signed_take_bit 63 (uint w) = uint w" by (intro signed_take_bit_int_eq_self)
  then show ?thesis by (simp add: sint_uint)
qed

lemma unat_add64: "unat a + unat b < 2 ^ 64 \<Longrightarrow> unat (a + b :: 64 word) = unat a + unat b"
  using unat_add_lem [of a b] by simp

lemma rb_reprD:
  assumes "rb_repr c h rb"
  shows "unat (rb_cap rb) = c" "unat (cur rb) = length h + 1" "rb_cap rb \<noteq> 0"
    "length (buf rb) = c" "0 < c" "cur rb = of_nat (length h + 1)"
proof -
  show c: "unat (rb_cap rb) = c" "unat (cur rb) = length h + 1"
    using assms by (simp_all add: rb_repr_def rb_cap_def unat_of_nat64 del: of_nat_Suc of_nat_add)
  show "length (buf rb) = c" "0 < c" "cur rb = of_nat (length h + 1)"
    using assms by (simp_all add: rb_repr_def)
  with c show "rb_cap rb \<noteq> 0" by auto
qed

lemma mod_neq_close: "a < b \<Longrightarrow> b < a + c \<Longrightarrow> a mod c \<noteq> b mod (c::nat)"
  by (metis add_diff_cancel_left' less_imp_add_positive mod_less nat_neq_iff
      mod_eq_dvd_iff_nat nat_dvd_not_less add_less_cancel_left less_imp_le)

lemma rb_push:
  assumes r: "rb_repr c h rb" and b: "length h < 2 ^ 64 - 2"
  shows "\<exists>rb'. rb_Append rb m = Some (of_nat (length h + 1), rb') \<and> rb_repr c (h @ [m]) rb'"
proof -
  note d = rb_reprD [OF r]
  let ?j = "(length h + 1) mod c"
  let ?rb = "rb\<lparr>buf := (buf rb)[?j := Some m], cur := cur rb + 1\<rparr>"
  have j: "unat (cur rb mod rb_cap rb) = ?j" by (simp add: unat_mod d(1,2))
  have old: "buf rb ! ((i + 1) mod c) = Some (h ! i)" if "i < length h" "length h \<le> i + c" for i
    using r that by (simp add: rb_repr_def)
  have new: "(buf rb)[?j := Some m] ! ((i + 1) mod c) = Some ((h @ [m]) ! i)"
    if i: "i < length h + 1" "length h + 1 \<le> i + c" for i
  proof (cases "i = length h")
    case True
    then show ?thesis using d(4,5) by simp
  next
    case False
    with i have "i < length h" by simp
    moreover have "(i + 1) mod c \<noteq> ?j" using i \<open>i < length h\<close> by (intro mod_neq_close) auto
    ultimately show ?thesis using old [of i] i by (simp add: nth_append)
  qed
  have "rb_repr c (h @ [m]) ?rb"
    using r b new by (simp add: rb_repr_def d(6))
  with d(3) j show ?thesis by (simp add: rb_Append_def d(6))
qed

lemma rb_index:
  assumes r: "rb_repr c h rb" and d: "unat d = k" and k: "k \<le> length h" "k \<le> c" and i: "i < k"
  shows "buf rb ! unat ((cur rb - d + of_nat i) mod rb_cap rb) = Some (last_n k h ! i)"
proof -
  let ?L = "length h"
  note rb = rb_reprD [OF r]
  have L: "?L + 1 < 2 ^ 64" using r by (auto simp: rb_repr_def)
  have "d \<le> cur rb" using d rb(2) k(1) by (simp add: word_le_nat_alt)
  then have "unat (cur rb - d) = ?L + 1 - k" using d rb(2) by (simp add: unat_sub)
  moreover have "unat (of_nat i :: 64 word) = i" using i k(1) L by (intro unat_of_nat64) linarith
  ultimately have sum: "unat (cur rb - d) + unat (of_nat i :: 64 word) = (?L - k + i) + 1"
    using k(1) by linarith
  have "(?L - k + i) + 1 < 2 ^ 64" using i k(1) L by linarith
  then have "unat (cur rb - d + of_nat i) = (?L - k + i) + 1"
    unfolding sum [symmetric] by (rule unat_add64)
  then have "unat ((cur rb - d + of_nat i) mod rb_cap rb) = ((?L - k + i) + 1) mod c"
    by (simp add: unat_mod rb(1))
  moreover have "buf rb ! (((?L - k + i) + 1) mod c) = Some (h ! (?L - k + i))"
    using r i k by (auto simp: rb_repr_def)
  ultimately show ?thesis using k by (simp add: last_n_def)
qed

lemma rb_load:
  assumes r: "rb_repr c h rb" and s: "s \<le> length h"
  shows "LoadLatestSeq rb (of_nat s) (int n) = Inr (map Some (last_n (min n (min c (length h - s))) h))"
proof -
  note d = rb_reprD [OF r]
  let ?L = "length h"
  have L: "?L + 1 < 2 ^ 64" and c: "c < 2 ^ 63" using r by (auto simp: rb_repr_def)
  have us: "unat (of_nat s :: 64 word) = s" using s L by (simp add: unat_of_nat64)
  define diff where "diff = cur rb - of_nat s - 1"
  define diff1 where "diff1 = (if diff > rb_cap rb then rb_cap rb else diff)"
  define diff2 where "diff2 = (if sint diff1 > int n then word_of_int (int n) else diff1)"
  have le1: "(of_nat s :: 64 word) \<le> cur rb" using s us d(2) by (simp add: word_le_nat_alt)
  have un1: "unat (cur rb - of_nat s) = ?L + 1 - s" using le1 us d(2) by (simp add: unat_sub)
  have "unat diff = ?L - s"
    unfolding diff_def using un1 s by (subst unat_sub) (auto simp: word_le_nat_alt)
  then have u1: "unat diff1 = min c (?L - s)"
    by (auto simp: diff1_def word_less_nat_alt d(1))
  then have "unat diff1 < 2 ^ 63" using c by simp
  then have s1: "sint diff1 = int (min c (?L - s))"
    by (simp add: sint_small u1)
  have u2: "unat diff2 = min n (min c (?L - s))"
  proof (cases "sint diff1 > int n")
    case True
    then have "n < min c (?L - s)" using s1 by simp
    with c L have "n < 2 ^ 64" by simp
    with \<open>n < min c (?L - s)\<close> True show ?thesis by (simp add: diff2_def unat_of_nat64)
  next
    case False
    then show ?thesis using s1 u1 by (auto simp: diff2_def)
  qed
  then have "unat diff2 < 2 ^ 63" using c by simp
  then have s2: "\<not> sint diff2 < 0"
    by (simp add: sint_small)
  define k where "k = min n (min c (?L - s))"
  have k: "k \<le> ?L" "k \<le> c" and u2: "unat diff2 = k" using u2 by (simp_all add: k_def)
  have "map (\<lambda>i. buf rb ! unat ((cur rb - diff2 + of_nat i) mod rb_cap rb)) [0..<unat diff2]
      = map Some (last_n k h)"
    using rb_index [OF r u2 k] u2 k(1) by (intro nth_equalityI) (auto simp: last_n_def)
  moreover have "\<not> of_nat s > cur rb" "of_nat s \<noteq> cur rb"
    using le1 us d(2) s by auto
  ultimately show ?thesis
    unfolding LoadLatestSeq_def Let_def diff_def [symmetric] diff1_def [symmetric]
      diff2_def [symmetric] k_def [symmetric]
    using s2 by simp
qed

interpretation ring: history_buffer rb_repr newMessageRingBuffer rb_Append
  "\<lambda>rb seq n. LoadLatestSeq rb seq (int n)" of_nat "2 ^ 64 - 2" "2 ^ 63"
proof unfold_locales
  show "rb_repr c [] (newMessageRingBuffer c)" if "0 < c" "c < 2 ^ 63" for c
    using that by (simp add: rb_repr_def newMessageRingBuffer_def)
qed (use rb_push rb_load in auto)

section \<open>The history of the store\<close>

definition is_stored :: "irc_message \<Rightarrow> bool" where
  "is_stored msg \<longleftrightarrow> Command msg = ''PRIVMSG'' \<or> Command msg = ''NOTICE''"

text \<open>A sequence of appends to any entities, and the messages of one entity among them.\<close>

fun memory_append_all ::
    "bare_codec \<Rightarrow> memory_message_store \<Rightarrow> (int \<times> string \<times> irc_message) list \<Rightarrow> memory_message_store option" where
  "memory_append_all B ms [] = Some ms"
| "memory_append_all B ms ((netID, entity, msg) # ops) =
     (case memory_Append B ms netID entity msg of
        None \<Rightarrow> None
      | Some (_, ms') \<Rightarrow> memory_append_all B ms' ops)"

fun history_of :: "int \<times> string \<Rightarrow> (int \<times> string \<times> irc_message) list \<Rightarrow> irc_message list" where
  "history_of k [] = []"
| "history_of k ((netID, entity, msg) # ops) =
     (if (netID, entity) = k \<and> is_stored msg then msg # history_of k ops else history_of k ops)"

definition mem_repr :: "(int \<times> string \<Rightarrow> irc_message list) \<Rightarrow> memory_message_store \<Rightarrow> bool" where
  "mem_repr H ms \<longleftrightarrow> (\<forall>k. case go_get ms k of
      None \<Rightarrow> H k = []
    | Some rb \<Rightarrow> H k \<noteq> [] \<and> rb_repr messageRingBufferCap (H k) rb)"

lemma history_of_append [simp]: "history_of k (xs @ ys) = history_of k xs @ history_of k ys"
  by (induction k xs rule: history_of.induct) auto

lemma length_history_of: "length (history_of k ops) \<le> length ops"
  by (induction ops) (auto split: prod.splits)

lemma history_of_Cons: "history_of k (op # ops) = history_of k [op] @ history_of k ops"
  by (cases op) auto

lemma mem_repr_new: "mem_repr (\<lambda>_. []) NewMemoryStore"
  by (simp add: mem_repr_def NewMemoryStore_def)

lemma memory_Append_repr:
  assumes r: "mem_repr H ms" and b: "length (H (netID, entity)) < 2 ^ 64 - 2"
  shows "\<exists>ms'. memory_Append B ms netID entity msg =
      Some (if is_stored msg then formatMemoryMsgID B netID entity (of_nat (length (H (netID, entity)) + 1))
            else [], ms')
    \<and> mem_repr (\<lambda>k. H k @ history_of k [(netID, entity, msg)]) ms'"
proof (cases "is_stored msg")
  case False
  then show ?thesis using r by (simp add: memory_Append_def is_stored_def)
next
  case True
  let ?k = "(netID, entity)"
  let ?rb = "case go_get ms ?k of Some rb \<Rightarrow> rb | None \<Rightarrow> newMessageRingBuffer messageRingBufferCap"
  have "rb_repr messageRingBufferCap (H ?k) ?rb"
    using r [unfolded mem_repr_def, rule_format, of ?k] ring.fresh_repr [of messageRingBufferCap]
    by (auto simp: messageRingBufferCap_def split: option.splits)
  then obtain rb' where rb': "rb_Append ?rb msg = Some (of_nat (length (H ?k) + 1), rb')"
    "rb_repr messageRingBufferCap (H ?k @ [msg]) rb'"
    using ring.push_repr b by blast
  have "mem_repr (\<lambda>k. H k @ history_of k [(netID, entity, msg)]) (go_put ?k rb' ms)"
    unfolding mem_repr_def
  proof
    fix k
    show "case go_get (go_put ?k rb' ms) k of None \<Rightarrow> H k @ history_of k [(netID, entity, msg)] = []
      | Some rb \<Rightarrow> H k @ history_of k [(netID, entity, msg)] \<noteq> [] \<and>
          rb_repr messageRingBufferCap (H k @ history_of k [(netID, entity, msg)]) rb"
      using r [unfolded mem_repr_def, rule_format, of k] rb'(2) True
      by (cases "k = ?k") (auto simp: update_conv' split: option.splits)
  qed
  with True rb'(1) show ?thesis
    by (auto simp: memory_Append_def is_stored_def [symmetric] Let_def split del: if_split)
qed

lemma memory_append_all_repr:
  "mem_repr H ms \<Longrightarrow> \<forall>k. length (H k) + length ops \<le> 2 ^ 64 - 2 \<Longrightarrow>
   \<exists>ms'. memory_append_all B ms ops = Some ms' \<and> mem_repr (\<lambda>k. H k @ history_of k ops) ms'"
proof (induction ops arbitrary: H ms)
  case Nil
  then show ?case by simp
next
  case (Cons op ops)
  obtain netID entity msg where op: "op = (netID, entity, msg)" by (cases op)
  have "length (H (netID, entity)) < 2 ^ 64 - 2"
    using Cons.prems(2) [rule_format, of "(netID, entity)"] by simp
  from memory_Append_repr [OF Cons.prems(1) this, of B msg]
  obtain i ms1 where ms1: "memory_Append B ms netID entity msg = Some (i, ms1)"
    "mem_repr (\<lambda>k. H k @ history_of k [op]) ms1"
    using op by blast
  have "length (H k @ history_of k [op]) + length ops \<le> 2 ^ 64 - 2" for k
    using Cons.prems(2) [rule_format, of k] length_history_of [of k "[op]"] by simp
  with Cons.IH [OF ms1(2)]
  obtain ms2 where "memory_append_all B ms1 ops = Some ms2"
    "mem_repr (\<lambda>k. (H k @ history_of k [op]) @ history_of k ops) ms2" by blast
  then show ?case
    using ms1(1) by (subst history_of_Cons) (simp add: op del: history_of.simps)
qed

lemma parse_formatMemoryMsgID:
  assumes "bare_ok B" and "int64_ok netID" and "accepts B entity"
  shows "parseMemoryMsgID B (formatMemoryMsgID B netID entity seq) = Inr (netID, entity, seq)"
  using ParseMsgID_format [OF assms(1), of netID entity "MemoryMsgID seq" "Some msgIDMemory"] assms(2,3)
  by (simp add: parseMemoryMsgID_def formatMemoryMsgID_def msgid_ok_def)

lemma memory_Load_repr:
  assumes r: "mem_repr H ms" and B: "bare_ok B" "int64_ok netID" "accepts B entity"
    and s: "s \<le> length (H (netID, entity))" and b: "length (H (netID, entity)) \<le> 2 ^ 64 - 2"
  shows "memory_LoadLatestID B ms (formatMemoryMsgID B netID entity (of_nat s)) netID entity (int n) False
    = Inr (map Some (last_n (min n messageRingBufferCap) (drop s (H (netID, entity)))))"
proof (cases "go_get ms (netID, entity)")
  case None
  then have "H (netID, entity) = []"
    using r [unfolded mem_repr_def, rule_format, of "(netID, entity)"] by simp
  with None show ?thesis
    by (simp add: memory_LoadLatestID_def parse_formatMemoryMsgID [OF B] last_n_def)
next
  case (Some rb)
  let ?h = "H (netID, entity)"
  have "rb_repr messageRingBufferCap ?h rb"
    using r [unfolded mem_repr_def, rule_format, of "(netID, entity)"] Some by simp
  from ring.load_repr [OF this s b, of n]
  have "LoadLatestSeq rb (of_nat s) (int n) =
      Inr (map Some (last_n (min n (min messageRingBufferCap (length ?h - s))) ?h))" .
  moreover have "last_n (min n (min messageRingBufferCap (length ?h - s))) ?h
      = last_n (min n messageRingBufferCap) (drop s ?h)"
    using s by (auto simp: last_n_def min_def)
  ultimately show ?thesis
    using Some by (simp add: memory_LoadLatestID_def parse_formatMemoryMsgID [OF B])
qed

section \<open>Properties\<close>

lemma append_from_new:
  assumes "length ops \<le> 2 ^ 64 - 2"
  shows "\<exists>ms. memory_append_all B NewMemoryStore ops = Some ms \<and> mem_repr (\<lambda>k. history_of k ops) ms"
  using memory_append_all_repr [OF mem_repr_new, of ops B] assms by simp

text \<open>C17. Appending never fails, and loading from the identifier that the append of a message
  returned gives exactly the messages stored for that network and entity after it, oldest first,
  cut to the last 4096 and to the limit asked for: whatever was appended before, and however the
  appends to other entities interleave.\<close>

theorem memory_store_load:
  assumes "bare_ok B" and "int64_ok netID" and "accepts B entity" and m: "is_stored m"
    and len: "length before + length after < 2 ^ 64 - 2"
  shows "\<exists>ms1 msgid ms2 ms3. memory_append_all B NewMemoryStore before = Some ms1
    \<and> memory_Append B ms1 netID entity m = Some (msgid, ms2)
    \<and> memory_append_all B ms2 after = Some ms3
    \<and> memory_LoadLatestID B ms3 msgid netID entity (int n) False
       = Inr (map Some (last_n (min n 4096) (history_of (netID, entity) after)))"
proof -
  let ?k = "(netID, entity)" and ?op = "[(netID, entity, m)]"
  obtain ms1 where 1: "memory_append_all B NewMemoryStore before = Some ms1"
    "mem_repr (\<lambda>k. history_of k before) ms1"
    using append_from_new [of before B] len by auto
  have l: "length (history_of ?k before) \<le> length before" by (rule length_history_of)
  with len have "length (history_of ?k before) < 2 ^ 64 - 2" by linarith
  from memory_Append_repr [OF 1(2) this, of B m] m
  obtain ms2 where 2: "memory_Append B ms1 netID entity m
      = Some (formatMemoryMsgID B netID entity (of_nat (length (history_of ?k before) + 1)), ms2)"
    "mem_repr (\<lambda>k. history_of k before @ history_of k ?op) ms2" by auto
  have "length (history_of k before @ history_of k ?op) + length after \<le> 2 ^ 64 - 2" for k
    using len length_history_of [of k before] length_history_of [of k ?op] by simp
  with memory_append_all_repr [OF 2(2), of after B]
  obtain ms3 where 3: "memory_append_all B ms2 after = Some ms3"
    "mem_repr (\<lambda>k. (history_of k before @ history_of k ?op) @ history_of k after) ms3" by blast
  have "length ((history_of ?k before @ history_of ?k ?op) @ history_of ?k after) \<le> 2 ^ 64 - 2"
    using len length_history_of [of ?k before] length_history_of [of ?k after] m by simp
  with memory_Load_repr [OF 3(2) assms(1-3), of "length (history_of ?k before) + 1" n] m
  have "memory_LoadLatestID B ms3 (formatMemoryMsgID B netID entity
      (of_nat (length (history_of ?k before) + 1))) netID entity (int n) False
      = Inr (map Some (last_n (min n 4096) (history_of ?k after)))"
    by (simp add: messageRingBufferCap_def del: of_nat_add of_nat_Suc)
  with 1(1) 2(1) 3(1) show ?thesis by blast
qed

definition privmsg :: "string \<Rightarrow> irc_message" where
  "privmsg t = mk_msg ''PRIVMSG'' [''#soju'', t]"

theorem memory_store_load_witness:
  "\<exists>ms1 msgid ms2 ms3. memory_append_all bare_concrete NewMemoryStore [(1, ''#a'', privmsg ''x'')] = Some ms1
    \<and> memory_Append bare_concrete ms1 1 ''#soju'' (privmsg ''y'') = Some (msgid, ms2)
    \<and> memory_append_all bare_concrete ms2 [(1, ''#soju'', privmsg ''z''), (2, ''#soju'', privmsg ''w'')] = Some ms3
    \<and> memory_LoadLatestID bare_concrete ms3 msgid 1 ''#soju'' (int 10) False = Inr [Some (privmsg ''z'')]"
  using memory_store_load [OF bare_concrete_ok, of 1 "''#soju''" "privmsg ''y''"
      "[(1, ''#a'', privmsg ''x'')]" "[(1, ''#soju'', privmsg ''z''), (2, ''#soju'', privmsg ''w'')]" 10]
  by (simp add: int64_ok_def bare_concrete_def is_stored_def privmsg_def mk_msg_def last_n_def)

text \<open>What \<open>LastMsgID\<close> gives in this store: the number of the \<^emph>\<open>next\<close> message, not of the last one.
  Loading from it skips the first message stored afterwards, unless nothing had been stored for
  the entity before.\<close>

theorem memory_LastMsgID_skips:
  assumes "bare_ok B" and "int64_ok netID" and "accepts B entity"
    and len: "length before + length after < 2 ^ 64 - 2" and a: "history_of (netID, entity) after \<noteq> []"
  shows "\<exists>ms1 ms2. memory_append_all B NewMemoryStore before = Some ms1
    \<and> memory_append_all B ms1 after = Some ms2
    \<and> memory_LoadLatestID B ms2 (memory_LastMsgID B ms1 netID entity) netID entity (int n) False
       = Inr (map Some (last_n (min n 4096)
           ((if history_of (netID, entity) before = [] then id else tl) (history_of (netID, entity) after))))"
proof -
  let ?k = "(netID, entity)"
  let ?s = "if history_of ?k before = [] then 0 else length (history_of ?k before) + 1"
  obtain ms1 where 1: "memory_append_all B NewMemoryStore before = Some ms1"
    "mem_repr (\<lambda>k. history_of k before) ms1"
    using append_from_new [of before B] len by auto
  have "length (history_of k before) + length after \<le> 2 ^ 64 - 2" for k
    using len length_history_of [of k before] by linarith
  with memory_append_all_repr [OF 1(2), of after B]
  obtain ms2 where 2: "memory_append_all B ms1 after = Some ms2"
    "mem_repr (\<lambda>k. history_of k before @ history_of k after) ms2" by blast
  have l: "length (history_of ?k before @ history_of ?k after) \<le> 2 ^ 64 - 2"
    using len length_history_of [of ?k before] length_history_of [of ?k after] by simp
  have s: "?s \<le> length (history_of ?k before @ history_of ?k after)"
    using a by (cases "history_of ?k after") auto
  have "memory_LastMsgID B ms1 netID entity = formatMemoryMsgID B netID entity (of_nat ?s)"
    using 1(2) [unfolded mem_repr_def, rule_format, of ?k]
    by (auto simp: memory_LastMsgID_def rb_repr_def split: option.splits)
  with memory_Load_repr [OF 2(2) assms(1-3) s l, of n]
  have "memory_LoadLatestID B ms2 (memory_LastMsgID B ms1 netID entity) netID entity (int n) False
       = Inr (map Some (last_n (min n 4096)
           ((if history_of ?k before = [] then id else tl) (history_of ?k after))))"
    by (auto simp: messageRingBufferCap_def drop_Suc)
  with 1(1) 2(1) show ?thesis by blast
qed

theorem memory_LastMsgID_skips_witness:
  "\<exists>ms1 ms2. memory_append_all bare_concrete NewMemoryStore [(1, ''#soju'', privmsg ''x'')] = Some ms1
    \<and> memory_append_all bare_concrete ms1 [(1, ''#soju'', privmsg ''y'')] = Some ms2
    \<and> memory_LoadLatestID bare_concrete ms2 (memory_LastMsgID bare_concrete ms1 1 ''#soju'') 1 ''#soju'' (int 10) False
       = Inr []"
  using memory_LastMsgID_skips [OF bare_concrete_ok, of 1 "''#soju''"
      "[(1, ''#soju'', privmsg ''x'')]" "[(1, ''#soju'', privmsg ''y'')]" 10]
  by (simp add: int64_ok_def bare_concrete_def is_stored_def privmsg_def mk_msg_def last_n_def)

end
