(* ===== verification/Highlight.thy ===== *)
theory Highlight
  imports Go_Unicode
begin

text \<open>
  Nick highlights, \<^verbatim>\<open>src/irc.go\<close>: \<open>isWordBoundary\<close>, \<open>isURIPrefix\<close> and the search loop of
  \<open>isHighlight\<close>, on byte strings with the runes decoded where the code decodes them.  The letter and
  number tables beyond Latin-1 are the parameter \<open>U\<close>.
\<close>

definition isWordBoundary :: "unicode_tables \<Rightarrow> rune \<Rightarrow> bool" where
  "isWordBoundary U r =
     (if r = of_char CHR ''-'' \<or> r = of_char CHR ''_'' \<or> r = of_char CHR ''|'' then False
      else \<not> IsLetter U r \<and> \<not> IsNumber U r)"

lemma decode_last_rune_width: "s \<noteq> [] \<Longrightarrow> 0 < snd (decode_last_rune s)"
  by (auto simp: decode_last_rune_def find_Some_iff Let_def split: option.splits prod.splits if_splits)

text \<open>\<open>strings.LastIndexFunc\<close>.\<close>

function LastIndexFunc :: "(rune \<Rightarrow> bool) \<Rightarrow> string \<Rightarrow> nat option" where
  "LastIndexFunc f s =
     (if s = [] then None
      else if f (fst (decode_last_rune s)) then Some (length s - snd (decode_last_rune s))
      else LastIndexFunc f (take (length s - snd (decode_last_rune s)) s))"
  by auto
termination
  by (relation "measure (\<lambda>(f, s). length s)") (auto simp: decode_last_rune_width)

declare LastIndexFunc.simps [simp del]

definition isURIPrefix :: "string \<Rightarrow> bool" where
  "isURIPrefix text =
     (let text = (case LastIndexFunc IsSpace text of Some i \<Rightarrow> drop i text | None \<Rightarrow> text)
      in case Index text ''://'' of
           None \<Rightarrow> False
         | Some i \<Rightarrow>
             (let r = fst (decode_last_rune (take i text))
              in if r = of_char CHR ''+'' \<or> r = of_char CHR ''-'' \<or> r = of_char CHR ''.'' then True
                 else (of_char CHR ''0'' \<le> r \<and> r \<le> of_char CHR ''9'')
                   \<or> (of_char CHR ''a'' \<le> r \<and> r \<le> of_char CHR ''z'')
                   \<or> (of_char CHR ''A'' \<le> r \<and> r \<le> of_char CHR ''Z'')))"

text \<open>The test of the loop's body on an occurrence with \<open>left\<close> before it and \<open>right\<close> after it.\<close>

definition stands_alone :: "unicode_tables \<Rightarrow> string \<Rightarrow> string \<Rightarrow> bool" where
  "stands_alone U left right \<longleftrightarrow>
     isWordBoundary U (fst (decode_last_rune left)) \<and> isWordBoundary U (fst (decode_rune right))
     \<and> \<not> isURIPrefix left"

function highlight_loop :: "unicode_tables \<Rightarrow> string \<Rightarrow> string \<Rightarrow> bool" where
  "highlight_loop U nick text =
     (case Index text nick of
        None \<Rightarrow> False
      | Some i \<Rightarrow>
          if nick = [] then False
          else if stands_alone U (take i text) (drop (i + length nick) text) then True
          else highlight_loop U nick (drop (i + length nick) text))"
  by auto
termination
  by (relation "measure (\<lambda>(U, nick, text). length text)") (auto simp: Index_Some_shorter)

declare highlight_loop.simps [simp del]

text \<open>\<open>None\<close> is the panic on an empty nick.\<close>

definition isHighlight :: "unicode_tables \<Rightarrow> string \<Rightarrow> string \<Rightarrow> bool option" where
  "isHighlight U text nick = (if nick = [] then None else Some (highlight_loop U nick text))"

section \<open>Properties\<close>

lemma highlight_loop_split:
  assumes "nick \<noteq> []" and "highlight_loop U nick s"
  shows "\<exists>a b c. s = a @ b @ nick @ c \<and> stands_alone U b c \<and> (a = [] \<or> (\<exists>a'. a = a' @ nick))"
  using assms
proof (induction "length s" arbitrary: s rule: less_induct)
  case less
  obtain i where i: "Index s nick = Some i"
    using less.prems(2) by (subst (asm) highlight_loop.simps) (auto split: option.splits)
  let ?l = "take i s" and ?r = "drop (i + length nick) s"
  have t: "s = ?l @ nick @ ?r" using Index_Some_split [OF i] .
  have len: "length ?r < length s" using Index_Some_shorter [OF i less.prems(1)] by simp
  show ?case
  proof (cases "stands_alone U ?l ?r")
    case True
    with t show ?thesis by (intro exI [of _ "[]"] exI [of _ ?l] exI [of _ ?r]) auto
  next
    case False
    then have "highlight_loop U nick ?r"
      using less.prems i by (subst (asm) highlight_loop.simps) simp
    from less.hyps [OF len less.prems(1) this] obtain a b c
      where "?r = a @ b @ nick @ c" "stands_alone U b c" "a = [] \<or> (\<exists>a'. a = a' @ nick)" by blast
    with t show ?thesis
      by (intro exI [of _ "?l @ nick @ a"] exI [of _ b] exI [of _ c]) auto
  qed
qed

lemma highlight_loop_step:
  assumes "nick \<noteq> []" and "Index (l @ nick @ r) nick = Some (length l)"
  shows "highlight_loop U nick (l @ nick @ r) \<longleftrightarrow> stands_alone U l r \<or> highlight_loop U nick r"
  using assms by (subst highlight_loop.simps) simp

lemma highlight_loop_absent: "Index text nick = None \<Longrightarrow> \<not> highlight_loop U nick text"
  by (subst highlight_loop.simps) simp

text \<open>A text that does not contain the nick is not a highlight; one that contains it once is a
  highlight exactly when the nick stands between word boundaries and outside of a URI; and every
  highlight has an occurrence that passes this test, on the text since the start or since the
  previous occurrence.\<close>

theorem isHighlight_correct:
  assumes "nick \<noteq> []"
  shows "(Index text nick = None \<longrightarrow> isHighlight U text nick = Some False)
    \<and> (text = l @ nick @ r \<and> Index text nick = Some (length l) \<and> Index r nick = None \<longrightarrow>
        isHighlight U text nick = Some (stands_alone U l r))
    \<and> (isHighlight U text nick = Some True \<longrightarrow>
        (\<exists>a b c. text = a @ b @ nick @ c \<and> stands_alone U b c \<and> (a = [] \<or> (\<exists>a'. a = a' @ nick))))"
  using assms highlight_loop_step [of nick l r U] highlight_loop_absent [of _ nick U]
    highlight_loop_split [of nick U "text"]
  by (auto simp: isHighlight_def)

theorem isHighlight_correct_witness:
  "isHighlight no_tables ''hi soju!'' ''soju'' = Some (stands_alone no_tables ''hi '' ''!'')
   \<and> Index ''hi soju!'' ''soju'' = Some (length ''hi '') \<and> Index ''!'' ''soju'' = None"
  using isHighlight_correct [of "''soju''" "''hi soju!''" no_tables "''hi ''" "''!''"]
  by (simp add: HasPrefix_def)

text \<open>A nick repeated at the end of a text is a highlight whatever precedes the first copy, a
  letter or a URI scheme included: the loop drops the text before the second copy.  (The
  replacement rune, which stands for a missing neighbour, is neither a letter nor a number.)\<close>

theorem isHighlight_repeated:
  assumes "nick \<noteq> []" and "Index (l @ nick @ nick) nick = Some (length l)"
    and "\<not> tblLetter U RuneError" and "\<not> tblNumber U RuneError"
  shows "isHighlight U (l @ nick @ nick) nick = Some True"
proof -
  have "Index nick nick = Some 0" using assms(1) by (cases nick) (auto simp: HasPrefix_def)
  moreover have "isWordBoundary U RuneError"
    using assms(3,4) by (simp add: isWordBoundary_def RuneError_def IsLetter_def IsNumber_def)
  then have "stands_alone U [] []"
    by (simp add: stands_alone_def decode_last_rune_def isURIPrefix_def LastIndexFunc.simps Let_def)
  ultimately have "highlight_loop U nick nick" using assms(1) by (subst highlight_loop.simps) simp
  with highlight_loop_step [OF assms(1,2)] assms(1) show ?thesis by (simp add: isHighlight_def)
qed

theorem isHighlight_repeated_witness:
  "isHighlight no_tables ''https://sojusoju'' ''soju'' = Some True"
  using isHighlight_repeated [of "''soju''" "''https://''" no_tables]
  by (simp add: no_tables_def HasPrefix_def)

end
