(* ===== verification/Service_Words.thy ===== *)
theory Service_Words
  imports Go_Unicode
begin

text \<open>
  Splitting a command line of the bouncer service into words, \<open>splitWords\<close> of \<^verbatim>\<open>src/service.go\<close>: the
  loop over the runes is a left fold of \<open>split_step\<close> over the loop's local variables.
\<close>

record split_state =
  ss_words :: "string list"
  ss_lastWord :: string
  ss_escape :: bool
  ss_prev :: rune
  ss_wordDelim :: rune

abbreviation r_space :: rune where "r_space \<equiv> 32"
abbreviation r_dquote :: rune where "r_dquote \<equiv> 34"
abbreviation r_squote :: rune where "r_squote \<equiv> 39"
abbreviation r_backslash :: rune where "r_backslash \<equiv> 92"

definition WriteRune :: "rune \<Rightarrow> split_state \<Rightarrow> split_state" where
  "WriteRune r st = st\<lparr>ss_lastWord := ss_lastWord st @ encode_rune r\<rparr>"

definition split_body :: "split_state \<Rightarrow> rune \<Rightarrow> split_state" where
  "split_body st r =
     (if ss_escape st then (WriteRune r st)\<lparr>ss_escape := False\<rparr>
      else if r = r_backslash then st\<lparr>ss_escape := True\<rparr>
      else if ss_wordDelim st = r_space \<and> IsSpace r then
        (if \<not> IsSpace (ss_prev st)
         then st\<lparr>ss_words := ss_words st @ [ss_lastWord st], ss_lastWord := []\<rparr> else st)
      else if r = ss_wordDelim st then st\<lparr>ss_wordDelim := r_space\<rparr>
      else if r = r_dquote \<or> r = r_squote then
        (if ss_wordDelim st = r_space then st\<lparr>ss_wordDelim := r\<rparr> else WriteRune r st)
      else WriteRune r st)"

definition split_step :: "split_state \<Rightarrow> rune \<Rightarrow> split_state" where
  "split_step st r = (split_body st r)\<lparr>ss_prev := r\<rparr>"

definition split_init :: split_state where
  "split_init = \<lparr>ss_words = [], ss_lastWord = [], ss_escape = False, ss_prev = r_space, ss_wordDelim = r_space\<rparr>"

datatype split_error = UnterminatedQuote | UnterminatedBackslash

definition split_finish :: "split_state \<Rightarrow> split_error + string list" where
  "split_finish st =
     (if ss_wordDelim st \<noteq> r_space then Inl UnterminatedQuote
      else if ss_escape st then Inl UnterminatedBackslash
      else Inr (if \<not> IsSpace (ss_prev st) then ss_words st @ [ss_lastWord st] else ss_words st))"

definition splitWords :: "string \<Rightarrow> split_error + string list" where
  "splitWords s = split_finish (foldl split_step split_init (runes s))"

section \<open>Quoted words\<close>

text \<open>How a client writes any list of words: each between double quotes, with a backslash before
  a quote or a backslash.\<close>

definition quote_rune :: "rune \<Rightarrow> rune list" where
  "quote_rune r = (if r = r_dquote \<or> r = r_backslash then [r_backslash, r] else [r])"

definition quote_word :: "rune list \<Rightarrow> rune list" where
  "quote_word w = r_dquote # concat (map quote_rune w) @ [r_dquote]"

fun quote_line :: "rune list list \<Rightarrow> rune list" where
  "quote_line [] = []"
| "quote_line [w] = quote_word w"
| "quote_line (w # ws) = quote_word w @ r_space # quote_line ws"

lemma not_space [simp]: "\<not> IsSpace r_dquote" "\<not> IsSpace r_backslash" "IsSpace r_space"
  by (simp_all add: IsSpace_def)

lemmas split_simps = split_step_def split_body_def WriteRune_def

text \<open>Inside a quoted word the loop only writes.\<close>

lemma split_in_quotes:
  "ss_wordDelim st = r_dquote \<Longrightarrow> \<not> ss_escape st \<Longrightarrow>
   \<exists>p. foldl split_step st (concat (map quote_rune w))
     = st\<lparr>ss_lastWord := ss_lastWord st @ encode_runes w, ss_prev := p\<rparr>"
proof (induction w arbitrary: st)
  case Nil
  then show ?case by (intro exI [of _ "ss_prev st"]) simp
next
  case (Cons r w)
  let ?st = "st\<lparr>ss_lastWord := ss_lastWord st @ encode_rune r, ss_prev := r\<rparr>"
  have "foldl split_step st (quote_rune r) = ?st"
    using Cons.prems by (cases "r = r_backslash") (auto simp: quote_rune_def split_simps)
  moreover obtain p where "foldl split_step ?st (concat (map quote_rune w))
      = ?st\<lparr>ss_lastWord := ss_lastWord ?st @ encode_runes w, ss_prev := p\<rparr>"
    using Cons.IH [of ?st] Cons.prems by auto
  ultimately show ?case by (intro exI [of _ p]) simp
qed

lemma split_quote_word:
  assumes "ss_wordDelim st = r_space" "\<not> ss_escape st" "ss_lastWord st = []"
  shows "foldl split_step st (quote_word w) = st\<lparr>ss_lastWord := encode_runes w, ss_prev := r_dquote\<rparr>"
proof -
  let ?st = "st\<lparr>ss_wordDelim := r_dquote, ss_prev := r_dquote\<rparr>"
  obtain p where "foldl split_step ?st (concat (map quote_rune w))
      = ?st\<lparr>ss_lastWord := ss_lastWord ?st @ encode_runes w, ss_prev := p\<rparr>"
    using split_in_quotes [of ?st w] assms by auto
  moreover have "split_step st r_dquote = ?st"
    using assms by (simp add: split_simps)
  ultimately show ?thesis using assms by (simp add: quote_word_def split_simps)
qed

lemma split_quote_line:
  assumes "ss_wordDelim st = r_space" "\<not> ss_escape st" "ss_lastWord st = []" "IsSpace (ss_prev st)"
  shows "split_finish (foldl split_step st (quote_line ws)) = Inr (ss_words st @ map encode_runes ws)"
  using assms
proof (induction ws arbitrary: st rule: quote_line.induct)
  case 1
  then show ?case by (simp add: split_finish_def)
next
  case (2 w)
  then show ?case by (simp add: split_quote_word split_finish_def)
next
  case (3 w v ws)
  let ?st = "st\<lparr>ss_words := ss_words st @ [encode_runes w], ss_prev := r_space\<rparr>"
  have "foldl split_step st (quote_word w @ [r_space]) = ?st"
    using "3.prems" by (simp add: split_quote_word) (simp add: split_simps)
  then have "foldl split_step st (quote_line (w # v # ws)) = foldl split_step ?st (quote_line (v # ws))"
    by (metis quote_line.simps(3) foldl_append append.assoc append_Cons append_Nil)
  with "3.IH" [of ?st] "3.prems" show ?case by simp
qed

section \<open>Plain words\<close>

definition plain_rune :: "rune \<Rightarrow> bool" where
  "plain_rune r \<longleftrightarrow> r \<noteq> r_dquote \<and> r \<noteq> r_squote \<and> r \<noteq> r_backslash"

text \<open>Without quotes and backslashes the loop computes the fields; \<open>cur\<close> is the word being read,
  empty exactly when the previous rune was a space.\<close>

lemma split_plain:
  assumes "list_all plain_rune rs" "ss_wordDelim st = r_space" "\<not> ss_escape st"
    "ss_lastWord st = encode_runes cur" "IsSpace (ss_prev st) \<longleftrightarrow> cur = []"
  shows "split_finish (foldl split_step st rs) = Inr (ss_words st @ map encode_runes (fields_runes IsSpace cur rs))"
  using assms
proof (induction rs arbitrary: st cur)
  case Nil
  then show ?case by (simp add: split_finish_def)
next
  case (Cons r rs)
  show ?case
  proof (cases "IsSpace r")
    case True
    let ?st = "split_step st r"
    have "ss_lastWord ?st = encode_runes []" "ss_wordDelim ?st = r_space" "\<not> ss_escape ?st"
      "IsSpace (ss_prev ?st)"
      "ss_words ?st = (if cur = [] then ss_words st else ss_words st @ [encode_runes cur])"
      using True Cons.prems by (auto simp: split_simps plain_rune_def)
    with Cons.IH [of ?st "[]"] Cons.prems(1) True show ?thesis by simp
  next
    case False
    let ?st = "split_step st r"
    have "r \<noteq> r_space" using False by auto
    then have "ss_lastWord ?st = encode_runes (cur @ [r])" "ss_wordDelim ?st = r_space" "\<not> ss_escape ?st"
      "ss_prev ?st = r" "ss_words ?st = ss_words st"
      using False Cons.prems by (auto simp: split_simps plain_rune_def)
    with Cons.IH [of ?st "cur @ [r]"] Cons.prems(1) False show ?thesis by simp
  qed
qed

section \<open>Properties\<close>

text \<open>C34. Every list of words, whatever runes they hold, can be sent to the service: the line that
  quotes each of them splits back into the words.\<close>

theorem splitWords_quoted:
  assumes "list_all (list_all valid_rune) ws"
  shows "splitWords (encode_runes (quote_line ws)) = Inr (map encode_runes ws)"
proof -
  have "list_all valid_rune (quote_word w)" if "list_all valid_rune w" for w
    using that by (auto simp: quote_word_def quote_rune_def valid_rune_def list_all_iff)
  with assms have "list_all valid_rune (quote_line ws)"
    by (induction ws rule: quote_line.induct) (simp_all add: valid_rune_def)
  then show ?thesis
    using split_quote_line [of split_init ws] by (simp add: splitWords_def runes_encode split_init_def)
qed

theorem splitWords_quoted_witness:
  "splitWords (encode_runes (quote_line [[97, 34], [], [32, 92]])) = Inr (map encode_runes [[97, 34], [], [32, 92]])"
  by (rule splitWords_quoted) (simp add: valid_rune_def)

text \<open>On a line without quotes and backslashes the words are the maximal runs of non-space
  runes.\<close>

theorem splitWords_plain:
  assumes "list_all plain_rune (runes s)"
  shows "splitWords s = Inr (map encode_runes (fields_runes IsSpace [] (runes s)))"
  using split_plain [OF assms, of split_init "[]"] by (simp add: splitWords_def split_init_def)

theorem splitWords_plain_witness:
  "splitWords ''net  status'' = Inr [''net'', ''status'']"
proof -
  have r: "runes ''net  status'' = [110, 101, 116, 32, 32, 115, 116, 97, 116, 117, 115]"
    by code_simp
  have "list_all plain_rune (runes ''net  status'')"
    unfolding r by (simp add: plain_rune_def)
  moreover have "map encode_runes (fields_runes IsSpace [] (runes ''net  status'')) = [''net'', ''status'']"
    unfolding r by (simp add: IsSpace_def encode_runes_def, code_simp)
  ultimately show ?thesis using splitWords_plain by metis
qed

text \<open>The escaped space at the end of a line counts as a separator after all: the word that it
  ends is lost, and a line of one such word splits into no word at all.\<close>

theorem splitWords_escaped_space_lost:
  assumes "list_all plain_rune w" and "list_all (\<lambda>r. valid_rune r \<and> \<not> IsSpace r) w"
  shows "splitWords (encode_runes (w @ [r_backslash, r_space])) = Inr []"
proof -
  have "foldl split_step st w = st\<lparr>ss_lastWord := ss_lastWord st @ encode_runes w,
      ss_prev := last (ss_prev st # w)\<rparr>"
    if "ss_wordDelim st = r_space" "\<not> ss_escape st" for st
    using that assms
  proof (induction w arbitrary: st)
    case (Cons r w)
    have "r \<noteq> r_space" using Cons.prems(4) by auto
    then have "split_step st r = st\<lparr>ss_lastWord := ss_lastWord st @ encode_rune r, ss_prev := r\<rparr>"
      using Cons.prems by (simp add: split_simps plain_rune_def)
    with Cons.IH [of "split_step st r"] Cons.prems show ?case by simp
  qed simp
  from this [of split_init]
  have f: "foldl split_step split_init (w @ [r_backslash, r_space])
      = \<lparr>ss_words = [], ss_lastWord = encode_runes (w @ [r_space]), ss_escape = False,
         ss_prev = r_space, ss_wordDelim = r_space\<rparr>"
    by (simp add: split_init_def split_simps)
  have v: "list_all valid_rune (w @ [r_backslash, r_space])"
    using assms(2) by (simp add: list_all_iff valid_rune_def)
  show ?thesis unfolding splitWords_def runes_encode [OF v] f by (simp add: split_finish_def)
qed

theorem splitWords_escaped_space_lost_witness:
  "splitWords (encode_runes ([104, 101, 108, 112] @ [r_backslash, r_space])) = Inr []"
  by (rule splitWords_escaped_space_lost) (simp_all add: plain_rune_def valid_rune_def IsSpace_def)

end
