(* ===== verification/Service_Commands.thy ===== *)
theory Service_Commands
  imports Service_Words "HOL-Library.Word" "HOL-Library.List_Lexorder" "HOL-Library.Char_ord" "HOL-Library.Multiset"
begin

text \<open>
  The command table of the bouncer service and its dispatch, \<^verbatim>\<open>src/service.go\<close>: \<open>serviceCommandSet.Get\<close>,
  \<open>handleServiceCommand\<close> with its guards, and the help listing.  A handler is named by a value of
  \<open>service_handler\<close>; what the handlers do is the argument \<open>run\<close> of the dispatcher, a function on the
  state of the bouncer, so the guards are proved for every behaviour of the handlers.
\<close>

datatype service_handler =
    HServiceHelp
  | HServiceNetworkCreate
  | HServiceNetworkStatus
  | HServiceNetworkUpdate
  | HServiceNetworkDelete
  | HServiceNetworkQuote
  | HServiceCertFPGenerate
  | HServiceCertFPFingerprints
  | HServiceSASLStatus
  | HServiceSASLSetPlain
  | HServiceSASLReset
  | HUserStatus
  | HUserCreate
  | HUserUpdate
  | HUserDelete
  | HUserRun
  | HServiceChannelStatus
  | HServiceChannelCreate
  | HServiceChannelUpdate
  | HServiceChannelDelete
  | HServiceDeviceCertificateStatus
  | HServiceDeviceCertificateCreate
  | HServiceDeviceCertificateDelete
  | HServiceServerStatus
  | HServiceServerNotice
  | HServiceServerDebug

datatype service_command = ServiceCommand
  (cmd_usage: string) (cmd_desc: string) (cmd_handle: "service_handler option")
  (cmd_children: "(string \<times> service_command) list") (cmd_admin: bool) (cmd_global: bool)

type_synonym service_command_set = "(string \<times> service_command) list"

text \<open>The table itself.\<close>

definition serviceCommands :: service_command_set where
  "serviceCommands = [
      (''help'', ServiceCommand ''[command]'' ''print help message''
        (Some HServiceHelp) [] False True),
      (''network'', ServiceCommand [] []
        None [
          (''create'', ServiceCommand ''-addr <addr> [-name name] [-username username] [-pass pass] [-realname realname] [-certfp fingerprint] [-nick nick] [-auto-away auto-away] [-enabled enabled] [-ignore-limit ignore-limit] [-connect-command command]...'' ''add a new network''
            (Some HServiceNetworkCreate) [] False False),
          (''status'', ServiceCommand [] ''show a list of saved networks and their current status''
            (Some HServiceNetworkStatus) [] False False),
          (''update'', ServiceCommand ''[name] [-addr addr] [-name name] [-username username] [-pass pass] [-realname realname] [-certfp fingerprint] [-nick nick] [-auto-away auto-away] [-enabled enabled] [-ignore-limit ignore-limit] [-connect-command command]...'' ''update a network''
            (Some HServiceNetworkUpdate) [] False False),
          (''delete'', ServiceCommand ''[name]'' ''delete a network''
            (Some HServiceNetworkDelete) [] False False),
          (''quote'', ServiceCommand ''[name] <command>'' ''send a raw line to a network''
            (Some HServiceNetworkQuote) [] False False)] False False),
      (''certfp'', ServiceCommand [] []
        None [
          (''generate'', ServiceCommand ''[-key-type rsa|ecdsa|ed25519] [-bits N] [-network name]'' ''generate a new self-signed certificate, defaults to using RSA-3072 key''
            (Some HServiceCertFPGenerate) [] False False),
          (''fingerprint'', ServiceCommand ''[-network name]'' ''show fingerprints of certificate''
            (Some HServiceCertFPFingerprints) [] False False)] False False),
      (''sasl'', ServiceCommand [] []
        None [
          (''status'', ServiceCommand ''[-network name]'' ''show SASL status''
            (Some HServiceSASLStatus) [] False False),
          (''set-plain'', ServiceCommand ''[-network name] <username> <password>'' ''set SASL PLAIN credentials''
            (Some HServiceSASLSetPlain) [] False False),
          (''reset'', ServiceCommand ''[-network name]'' ''disable SASL authentication and remove stored credentials''
            (Some HServiceSASLReset) [] False False)] False False),
      (''user'', ServiceCommand [] []
        None [
          (''status'', ServiceCommand ''[username]'' ''show a list of users and their current status''
            (Some HUserStatus) [] True True),
          (''create'', ServiceCommand ''-username <username> -password <password> [-disable-password] [-admin true|false] [-nick <nick>] [-realname <realname>] [-enabled true|false]  [-max-networks <max-networks>]'' ''create a new soju user''
            (Some HUserCreate) [] True True),
          (''update'', ServiceCommand ''[username] [-password <password>] [-disable-password] [-admin true|false] [-nick <nick>] [-realname <realname>] [-enabled true|false] [-max-networks <max-networks>]'' ''update a user''
            (Some HUserUpdate) [] False True),
          (''delete'', ServiceCommand ''<username> [confirmation token]'' ''delete a user''
            (Some HUserDelete) [] False True),
          (''run'', ServiceCommand ''<username> <command>'' ''run a command as another user''
            (Some HUserRun) [] True True)] False True),
      (''channel'', ServiceCommand [] []
        None [
          (''status'', ServiceCommand ''[-network name]'' ''show a list of saved channels and their current status''
            (Some HServiceChannelStatus) [] False False),
          (''create'', ServiceCommand ''<name> [-detached true|false] [-relay-detached default|none|highlight|message] [-reattach-on default|none|highlight|message] [-detach-after <duration>] [-detach-on default|none|highlight|message]'' ''create a channel''
            (Some HServiceChannelCreate) [] False False),
          (''update'', ServiceCommand ''<name> [-detached true|false] [-relay-detached default|none|highlight|message] [-reattach-on default|none|highlight|message] [-detach-after <duration>] [-detach-on default|none|highlight|message]'' ''update a channel''
            (Some HServiceChannelUpdate) [] False False),
          (''delete'', ServiceCommand ''<name>'' ''delete a channel''
            (Some HServiceChannelDelete) [] False False)] False False),
      (''device-certificate'', ServiceCommand [] []
        None [
          (''status'', ServiceCommand [] ''show a list of device certificates''
            (Some HServiceDeviceCertificateStatus) [] False False),
          (''create'', ServiceCommand ''-fingerprint <fingerprint> -label <label>'' ''create a new device certificate''
            (Some HServiceDeviceCertificateCreate) [] False False),
          (''delete'', ServiceCommand ''<fingerprint>'' ''delete a device certificate''
            (Some HServiceDeviceCertificateDelete) [] False False)] False False),
      (''server'', ServiceCommand [] []
        None [
          (''status'', ServiceCommand [] ''show server statistics''
            (Some HServiceServerStatus) [] True True),
          (''notice'', ServiceCommand ''<notice>'' ''broadcast a notice to all connected bouncer users''
            (Some HServiceServerNotice) [] True True),
          (''debug'', ServiceCommand ''true|false'' ''enable/disable debug logging to stderr (will leak sensitive information)''
            (Some HServiceServerDebug) [] True True)] True False)]"

section \<open>Looking up a command\<close>

datatype get_error = NoCommand | CommandAmbiguous string | CommandNotFound string

text \<open>The loop over the map: \<open>cmd\<close> is the match found so far.\<close>

fun prefix_loop :: "string \<Rightarrow> service_command_set \<Rightarrow> service_command option \<Rightarrow> get_error + service_command option" where
  "prefix_loop name [] cmd = Inr cmd"
| "prefix_loop name ((k, c) # cmds) cmd =
     (if \<not> HasPrefix k name then prefix_loop name cmds cmd
      else if cmd \<noteq> None then Inl (CommandAmbiguous name)
      else prefix_loop name cmds (Some c))"

definition find_command :: "service_command_set \<Rightarrow> string \<Rightarrow> get_error + service_command" where
  "find_command cmds name =
     (case map_of cmds name of
        Some c \<Rightarrow> Inr c
      | None \<Rightarrow> (case prefix_loop name cmds None of
            Inl e \<Rightarrow> Inl e
          | Inr None \<Rightarrow> Inl (CommandNotFound name)
          | Inr (Some c) \<Rightarrow> Inr c))"

fun service_Get :: "service_command_set \<Rightarrow> string list \<Rightarrow> get_error + (service_command \<times> string list)" where
  "service_Get cmds [] = Inl NoCommand"
| "service_Get cmds (name # params) =
     (case find_command cmds name of
        Inl e \<Rightarrow> Inl e
      | Inr cmd \<Rightarrow>
          if params = [] \<or> cmd_children cmd = [] then Inr (cmd, params)
          else service_Get (cmd_children cmd) params)"

definition service_Names :: "service_command_set \<Rightarrow> string list" where
  "service_Names cmds = sort (map fst cmds)"

section \<open>Help\<close>

lemma map_of_size [termination_simp]:
  "map_of cmds name = Some c \<Longrightarrow>
   size_list (size_prod (\<lambda>_. 0) size) (cmd_children c) < size_list (size_prod (\<lambda>_. 0) size) cmds"
proof -
  assume "map_of cmds name = Some c"
  then have "(name, c) \<in> set cmds" by (rule map_of_SomeD)
  then have "size_prod (\<lambda>_. 0) size (name, c) < size_list (size_prod (\<lambda>_. 0) size) cmds"
    by (induction cmds) auto
  then show ?thesis by (cases c) simp
qed

function appendServiceCommandSetHelp :: "service_command_set \<Rightarrow> string list \<Rightarrow> bool \<Rightarrow> bool \<Rightarrow> string list" where
  "appendServiceCommandSetHelp cmds prefix admin global =
     concat (map (\<lambda>name. case map_of cmds name of
         None \<Rightarrow> []
       | Some cmd \<Rightarrow>
           if cmd_admin cmd \<and> \<not> admin then []
           else if \<not> cmd_global cmd \<and> global then []
           else if cmd_children cmd = [] then [Join (prefix @ [name]) '' '']
           else appendServiceCommandSetHelp (cmd_children cmd) (prefix @ [name]) admin global)
       (service_Names cmds))"
  by auto
termination
  by (relation "measure (\<lambda>(cmds, _). size_list (size_prod (\<lambda>_. 0) size) cmds)")
    (auto simp: map_of_size)

declare appendServiceCommandSetHelp.simps [simp del]

section \<open>Dispatch\<close>

text \<open>The network is named by its object, the client by its identifier.\<close>

record service_context =
  sc_admin :: bool
  sc_user :: "string option"
  sc_nick :: string
  sc_network :: "nat option"
  sc_dc :: "64 word option"

datatype 'e service_error =
    GetError get_error
  | SplitError split_error
  | AdminRequired
  | UserRequired
  | CommandWithoutHandler string
  | UnsupportedFlag string
  | HandlerError 'e

text \<open>What a handler returns: nil, \<open>flag.ErrHelp\<close> or another error, with the lines it prints.\<close>

datatype 'e handler_result = HandlerOk | HandlerHelp | HandlerFail 'e

type_synonym ('e, 's) handler_run =
  "service_handler \<Rightarrow> service_context \<Rightarrow> string list \<Rightarrow> 's \<Rightarrow> 'e handler_result \<times> string list \<times> 's"

definition available_commands :: "string list \<Rightarrow> string" where
  "available_commands l = ''available commands: '' @ Join l '', ''"

definition handleServiceCommand ::
    "('e, 's) handler_run \<Rightarrow> service_context \<Rightarrow> string list \<Rightarrow> 's
     \<Rightarrow> 'e service_error option \<times> string list \<times> 's" where
  "handleServiceCommand run ctx words s =
     (case service_Get serviceCommands words of
        Inl e \<Rightarrow> (Some (GetError e), [], s)
      | Inr (cmd, params) \<Rightarrow>
          if cmd_admin cmd \<and> \<not> sc_admin ctx then (Some AdminRequired, [], s)
          else if \<not> cmd_global cmd \<and> sc_user ctx = None then (Some UserRequired, [], s)
          else (case cmd_handle cmd of
              None \<Rightarrow>
                if cmd_children cmd \<noteq> [] then
                  (None, [available_commands (appendServiceCommandSetHelp (cmd_children cmd) words
                     (sc_admin ctx) (sc_user ctx = None))], s)
                else (Some (CommandWithoutHandler (hd words)), [], s)
            | Some h \<Rightarrow>
                (case run h ctx params s of
                   (HandlerOk, out, s') \<Rightarrow> (None, out, s')
                 | (HandlerHelp, out, s') \<Rightarrow>
                     (Some (UnsupportedFlag (Join (take (length words - length params) words) '' '')), out, s')
                 | (HandlerFail e, out, s') \<Rightarrow> (Some (HandlerError e), out, s'))))"

definition handleServicePRIVMSG ::
    "('e, 's) handler_run \<Rightarrow> service_context \<Rightarrow> string \<Rightarrow> 's
     \<Rightarrow> 'e service_error option \<times> string list \<times> 's" where
  "handleServicePRIVMSG run ctx line s =
     (case splitWords line of
        Inl e \<Rightarrow> (Some (SplitError e), [], s)
      | Inr words \<Rightarrow> handleServiceCommand run ctx words s)"

definition handleServiceHelp :: "service_context \<Rightarrow> string list \<Rightarrow> get_error option \<times> string list" where
  "handleServiceHelp ctx params =
     (if params \<noteq> [] then
        (case service_Get serviceCommands params of
           Inl e \<Rightarrow> (Some e, [])
         | Inr (cmd, rest) \<Rightarrow>
             let words = take (length params - length rest) params in
             if cmd_children cmd \<noteq> [] then
               (None, [available_commands (appendServiceCommandSetHelp (cmd_children cmd) words
                  (sc_admin ctx) (sc_user ctx = None))])
             else
               (None, [Join words '' '' @ (if cmd_usage cmd \<noteq> [] then '' '' @ cmd_usage cmd else [])
                  @ '': '' @ cmd_desc cmd]))
      else (None, [available_commands (appendServiceCommandSetHelp serviceCommands []
              (sc_admin ctx) (sc_user ctx = None))]))"

section \<open>Lookup lemmas\<close>

fun all_nodes :: "service_command \<Rightarrow> service_command list" where
  "all_nodes (ServiceCommand u d h ch a g) =
     ServiceCommand u d h ch a g # concat (map (\<lambda>p. all_nodes (snd p)) ch)"

definition all_commands :: "service_command_set \<Rightarrow> service_command list" where
  "all_commands cmds = concat (map (\<lambda>p. all_nodes (snd p)) cmds)"

lemma all_nodes_self: "c \<in> set (all_nodes c)"
  by (cases c) simp

lemma all_nodes_children: "c' \<in> set (all_commands (cmd_children c)) \<Longrightarrow> c' \<in> set (all_nodes c)"
  by (cases c) (simp add: all_commands_def)

text \<open>The two ways a command is found.\<close>

definition prefix_matches :: "string \<Rightarrow> service_command_set \<Rightarrow> service_command list" where
  "prefix_matches name cmds = map snd (filter (\<lambda>(k, _). HasPrefix k name) cmds)"

lemma prefix_loop_matches:
  "prefix_loop name cmds acc =
     (case (acc, prefix_matches name cmds) of
        (None, []) \<Rightarrow> Inr None
      | (None, [c]) \<Rightarrow> Inr (Some c)
      | (Some c, []) \<Rightarrow> Inr (Some c)
      | _ \<Rightarrow> Inl (CommandAmbiguous name))"
proof (induction name cmds acc rule: prefix_loop.induct)
  case (1 name cmd)
  then show ?case by (simp add: prefix_matches_def split: option.split)
next
  case (2 name k c cmds cmd)
  show ?case
  proof (cases "HasPrefix k name \<and> cmd = None")
    case True
    then have "prefix_loop name ((k, c) # cmds) cmd = prefix_loop name cmds (Some c)" by simp
    with True 2(2) show ?thesis by (simp add: prefix_matches_def split: list.split)
  next
    case False
    with 2(1) show ?thesis by (auto simp: prefix_matches_def split: option.split)
  qed
qed

lemma find_command_matches:
  "find_command cmds name =
     (case map_of cmds name of Some c \<Rightarrow> Inr c
      | None \<Rightarrow> (case prefix_matches name cmds of
           [] \<Rightarrow> Inl (CommandNotFound name) | [c] \<Rightarrow> Inr c | _ \<Rightarrow> Inl (CommandAmbiguous name)))"
  by (simp add: find_command_def prefix_loop_matches split: option.split list.split)

lemma find_command_mem: "find_command cmds name = Inr c \<Longrightarrow> \<exists>k. (k, c) \<in> set cmds"
proof -
  assume f: "find_command cmds name = Inr c"
  have "c \<in> set (prefix_matches name cmds) \<Longrightarrow> \<exists>k. (k, c) \<in> set cmds"
    by (auto simp: prefix_matches_def)
  moreover have "map_of cmds name = Some c \<or> prefix_matches name cmds = [c]"
    using f by (auto simp: find_command_matches split: option.splits list.splits)
  ultimately show ?thesis by (auto dest: map_of_SomeD)
qed

lemma service_Get_mem: "service_Get cmds words = Inr (c, params) \<Longrightarrow> c \<in> set (all_commands cmds)"
proof (induction cmds words rule: service_Get.induct)
  case (2 cmds name params')
  then obtain d where d: "find_command cmds name = Inr d"
    by (auto split: sum.splits)
  then obtain k where k: "(k, d) \<in> set cmds" using find_command_mem by blast
  have "c \<in> set (all_nodes d)"
  proof (cases "params' = [] \<or> cmd_children d = []")
    case True
    with 2(2) d show ?thesis by (auto simp: all_nodes_self)
  next
    case False
    with 2(2) d have "service_Get (cmd_children d) params' = Inr (c, params)" by auto
    with 2(1) [OF d] False all_nodes_children show ?thesis by blast
  qed
  with k show ?case by (force simp: all_commands_def)
qed simp

lemma find_command_perm:
  assumes "mset cmds = mset cmds'" "distinct (map fst cmds)"
  shows "find_command cmds name = find_command cmds' name"
proof -
  have "set cmds = set cmds'" using assms(1) by (rule mset_eq_setD)
  moreover have "distinct (map fst cmds')"
    using assms by (metis mset_map mset_eq_imp_distinct_iff)
  ultimately have m: "map_of cmds = map_of cmds'"
    using assms(2) by (intro map_of_inject_set [THEN iffD2])
  have "mset (prefix_matches name cmds) = mset (prefix_matches name cmds')"
    unfolding prefix_matches_def mset_map mset_filter assms(1) ..
  then have "prefix_matches name cmds' = [c] \<longleftrightarrow> prefix_matches name cmds = [c]"
    and "prefix_matches name cmds' = [] \<longleftrightarrow> prefix_matches name cmds = []" for c
    by (metis mset_single_iff mset_single_iff_right mset.simps, metis mset_zero_iff)
  then have "(case prefix_matches name cmds of
         [] \<Rightarrow> Inl (CommandNotFound name) | [c] \<Rightarrow> Inr c | _ \<Rightarrow> Inl (CommandAmbiguous name))
    = (case prefix_matches name cmds' of
         [] \<Rightarrow> Inl (CommandNotFound name) | [c] \<Rightarrow> Inr c | _ \<Rightarrow> Inl (CommandAmbiguous name))"
    by (cases "prefix_matches name cmds" rule: remdups_adj.cases;
        cases "prefix_matches name cmds'" rule: remdups_adj.cases) auto
  with m show ?thesis by (cases "map_of cmds' name") (simp_all add: find_command_matches)
qed

section \<open>The guards of the table\<close>

definition admin_handlers :: "service_handler list" where
  "admin_handlers = [HUserStatus, HUserCreate, HUserRun, HServiceServerStatus,
     HServiceServerNotice, HServiceServerDebug]"

definition global_handlers :: "service_handler list" where
  "global_handlers = admin_handlers @ [HServiceHelp, HUserUpdate, HUserDelete]"

definition guarded_as_listed :: "service_command \<Rightarrow> bool" where
  "guarded_as_listed c \<longleftrightarrow> (case cmd_handle c of None \<Rightarrow> True | Some h \<Rightarrow>
     cmd_admin c = List.member admin_handlers h \<and> cmd_global c = List.member global_handlers h)"

lemma table_guarded: "list_all guarded_as_listed (all_commands serviceCommands)"
  by code_simp

lemma service_Get_length: "service_Get cmds words = Inr (c, params) \<Longrightarrow> length params < length words"
proof (induction cmds words rule: service_Get.induct)
  case (2 cmds name params)
  then show ?case by (auto simp: Let_def split: sum.splits if_splits)
qed simp

definition cmd_permitted :: "service_context \<Rightarrow> service_command \<Rightarrow> bool" where
  "cmd_permitted ctx c \<longleftrightarrow> (cmd_admin c \<longrightarrow> sc_admin ctx) \<and> (cmd_global c \<or> sc_user ctx \<noteq> None)"

lemma refused_iff:
  assumes "service_Get serviceCommands words = Inr (c, params)"
  shows "fst (handleServiceCommand run ctx words s) \<in> {Some AdminRequired, Some UserRequired}
    \<longleftrightarrow> \<not> cmd_permitted ctx c"
  using assms
  by (auto simp: handleServiceCommand_def cmd_permitted_def
      split: option.split prod.split handler_result.split)

section \<open>Commands and their help\<close>

function leaf_paths :: "service_command_set \<Rightarrow> string list list" where
  "leaf_paths cmds = concat (map (\<lambda>(name, c).
     if cmd_children c = [] then [[name]] else map ((#) name) (leaf_paths (cmd_children c))) cmds)"
  by auto
termination
proof (relation "measure (size_list (size_prod (\<lambda>_. 0) size))")
  fix cmds :: service_command_set and p name c
  assume "p \<in> set cmds" "(name, c) = p"
  then have "size_prod (\<lambda>_. 0) size (name, c) < size_list (size_prod (\<lambda>_. 0) size) cmds"
    by (induction cmds) auto
  then show "(cmd_children c, cmds) \<in> measure (size_list (size_prod (\<lambda>_. 0) size))"
    by (cases c) simp
qed simp

declare leaf_paths.simps [simp del]

text \<open>The commands that run something, with the flags of their entry.\<close>

definition leaf_table :: "(string list \<times> bool \<times> bool) list" where
  "leaf_table =
   [([''help''], False, True),
    ([''network'', ''create''], False, False),
    ([''network'', ''status''], False, False),
    ([''network'', ''update''], False, False),
    ([''network'', ''delete''], False, False),
    ([''network'', ''quote''], False, False),
    ([''certfp'', ''generate''], False, False),
    ([''certfp'', ''fingerprint''], False, False),
    ([''sasl'', ''status''], False, False),
    ([''sasl'', ''set-plain''], False, False),
    ([''sasl'', ''reset''], False, False),
    ([''user'', ''status''], True, True),
    ([''user'', ''create''], True, True),
    ([''user'', ''update''], False, True),
    ([''user'', ''delete''], False, True),
    ([''user'', ''run''], True, True),
    ([''channel'', ''status''], False, False),
    ([''channel'', ''create''], False, False),
    ([''channel'', ''update''], False, False),
    ([''channel'', ''delete''], False, False),
    ([''device-certificate'', ''status''], False, False),
    ([''device-certificate'', ''create''], False, False),
    ([''device-certificate'', ''delete''], False, False),
    ([''server'', ''status''], True, True),
    ([''server'', ''notice''], True, True),
    ([''server'', ''debug''], True, True)]"

lemma leaf_guards:
  "map (\<lambda>p. (p, case service_Get serviceCommands p of
       Inr (c, []) \<Rightarrow> Some (cmd_admin c, cmd_global c) | _ \<Rightarrow> None)) (leaf_paths serviceCommands)
   = map (\<lambda>(p, a, g). (p, Some (a, g))) leaf_table"
  by code_simp

lemma leaf_pathD:
  assumes "path \<in> set (leaf_paths serviceCommands)"
  shows "\<exists>c. service_Get serviceCommands path = Inr (c, []) \<and> (path, cmd_admin c, cmd_global c) \<in> set leaf_table"
proof -
  let ?g = "case service_Get serviceCommands path of
       Inr (c, []) \<Rightarrow> Some (cmd_admin c, cmd_global c) | _ \<Rightarrow> None"
  have "(path, ?g) \<in> set (map (\<lambda>(p, a, g). (p, Some (a, g))) leaf_table)"
    unfolding leaf_guards [symmetric] using assms by simp
  then obtain a g where "(path, a, g) \<in> set leaf_table" "?g = Some (a, g)" by auto
  then show ?thesis by (auto split: sum.splits list.splits)
qed

lemma help_admin_user:
  "appendServiceCommandSetHelp serviceCommands [] True False =
    [''certfp fingerprint'', ''certfp generate'', ''channel create'', ''channel delete'',
     ''channel status'', ''channel update'', ''device-certificate create'',
     ''device-certificate delete'', ''device-certificate status'', ''help'', ''network create'',
     ''network delete'', ''network quote'', ''network status'', ''network update'', ''sasl reset'',
     ''sasl set-plain'', ''sasl status'', ''server debug'', ''server notice'', ''server status'',
     ''user create'', ''user delete'', ''user run'', ''user status'', ''user update'']"
  by code_simp

lemma help_admin_global:
  "appendServiceCommandSetHelp serviceCommands [] True True =
    [''help'', ''user create'', ''user delete'', ''user run'', ''user status'', ''user update'']"
  by code_simp

lemma help_plain_user:
  "appendServiceCommandSetHelp serviceCommands [] False False =
    [''certfp fingerprint'', ''certfp generate'', ''channel create'', ''channel delete'',
     ''channel status'', ''channel update'', ''device-certificate create'',
     ''device-certificate delete'', ''device-certificate status'', ''help'', ''network create'',
     ''network delete'', ''network quote'', ''network status'', ''network update'', ''sasl reset'',
     ''sasl set-plain'', ''sasl status'', ''user delete'', ''user update'']"
  by code_simp

lemma help_plain_global:
  "appendServiceCommandSetHelp serviceCommands [] False True =
    [''help'', ''user delete'', ''user update'']"
  by code_simp

lemmas help_lists = help_admin_user help_plain_user help_admin_global help_plain_global

definition table_agrees :: "bool \<Rightarrow> bool \<Rightarrow> string list \<Rightarrow> (string list \<times> bool \<times> bool) \<Rightarrow> bool" where
  "table_agrees admin has_user listing entry = (case entry of (p, a, g) \<Rightarrow>
     List.member listing (Join p '' '') = ((a \<longrightarrow> admin) \<and> (g \<or> has_user)))"

lemma help_table_user:
  "list_all (table_agrees admin True (appendServiceCommandSetHelp serviceCommands [] admin False)) leaf_table"
  by (cases admin) (simp_all only: help_lists, code_simp+)

lemma help_table_global:
  "list_all (\<lambda>e. table_agrees admin False (appendServiceCommandSetHelp serviceCommands [] admin True) e
     = (\<not> (admin \<and> hd (fst e) = ''server''))) leaf_table"
  by (cases admin) (simp_all only: help_lists, code_simp+)

section \<open>Properties\<close>

lemma handleServiceCommand_runs:
  assumes "handleServiceCommand run ctx words s = (e, out, s')"
  shows "s' = s \<or> (\<exists>h params. length params < length words \<and> snd (snd (run h ctx params s)) = s'
    \<and> (h \<in> set admin_handlers \<longrightarrow> sc_admin ctx) \<and> (h \<notin> set global_handlers \<longrightarrow> sc_user ctx \<noteq> None))"
proof (cases "s' = s")
  case False
  obtain c params where g: "service_Get serviceCommands words = Inr (c, params)"
    using assms False by (auto simp: handleServiceCommand_def split: sum.splits)
  from assms False g obtain h where h: "cmd_handle c = Some h" "snd (snd (run h ctx params s)) = s'"
    and p: "cmd_admin c \<longrightarrow> sc_admin ctx" "cmd_global c \<or> sc_user ctx \<noteq> None"
    by (auto simp: handleServiceCommand_def
        split: if_splits option.splits prod.splits handler_result.splits)
  have "guarded_as_listed c"
    using table_guarded service_Get_mem [OF g] by (auto simp: list_all_iff)
  with h(1) have "cmd_admin c \<longleftrightarrow> h \<in> set admin_handlers" "cmd_global c \<longleftrightarrow> h \<in> set global_handlers"
    by (simp_all add: guarded_as_listed_def List.member_iff)
  with h(2) p service_Get_length [OF g] show ?thesis by blast
qed simp

text \<open>C8. The dispatcher changes the state only by running a handler, and runs the handlers of the
  admin commands only for admins, the handlers that need a user only in the context of one.  The
  admin commands are the six listed in \<open>admin_handlers\<close>.\<close>

theorem service_dispatch_guarded:
  assumes "handleServiceCommand run ctx words s = (e, out, s')" and "s' \<noteq> s"
  shows "\<exists>h params. snd (snd (run h ctx params s)) = s'
    \<and> (h \<in> set admin_handlers \<longrightarrow> sc_admin ctx) \<and> (h \<notin> set global_handlers \<longrightarrow> sc_user ctx \<noteq> None)"
  using handleServiceCommand_runs [OF assms(1)] assms(2) by blast

definition count_run :: "(unit, nat) handler_run" where
  "count_run h ctx params n = (HandlerOk, [], n + 1)"

theorem service_dispatch_guarded_witness:
  "\<exists>h params. snd (snd (count_run h \<lparr>sc_admin = True, sc_user = None, sc_nick = [], sc_network = None, sc_dc = None\<rparr> params 0)) = 1
    \<and> (h \<in> set admin_handlers \<longrightarrow> sc_admin \<lparr>sc_admin = True, sc_user = None, sc_nick = [], sc_network = None, sc_dc = None\<rparr>)
    \<and> (h \<notin> set global_handlers \<longrightarrow> sc_user \<lparr>sc_admin = True, sc_user = None, sc_nick = [], sc_network = None, sc_dc = None\<rparr> \<noteq> None)"
proof (rule service_dispatch_guarded)
  show "handleServiceCommand count_run \<lparr>sc_admin = True, sc_user = None, sc_nick = [], sc_network = None, sc_dc = None\<rparr> [''serv'', ''stat''] 0 = (None, [], 1)"
    by code_simp
qed simp

text \<open>Which command a line names does not depend on the order in which the table is walked:
  the lookup gives the same command, or the same error, for every order of the top-level entries.\<close>

theorem service_Get_order:
  assumes "mset cmds = mset cmds'" and "distinct (map fst cmds)"
  shows "service_Get cmds words = service_Get cmds' words"
  using find_command_perm [OF assms] by (cases words) simp_all

theorem service_Get_order_witness:
  "service_Get (rev serviceCommands) [''net'', ''st''] = service_Get serviceCommands [''net'', ''st'']"
proof (rule service_Get_order)
  show "distinct (map fst (rev serviceCommands))" by (simp add: serviceCommands_def)
qed simp

text \<open>A handler runs for the name of a command when the output and the state are those of the handler without arguments, whatever it does.\<close>

definition handler_runs :: "service_context \<Rightarrow> string list \<Rightarrow> service_handler \<Rightarrow> bool" where
  "handler_runs ctx words h \<longleftrightarrow>
     (\<forall>(run :: (unit, nat) handler_run) s. snd (handleServiceCommand run ctx words s) = snd (run h ctx [] s))"

lemma leaf_handled:
  "list_all (\<lambda>p. case service_Get serviceCommands p of Inr (c, []) \<Rightarrow> cmd_handle c \<noteq> None | _ \<Rightarrow> False) (leaf_paths serviceCommands)"
  by code_simp

lemma leaf_runs_iff:
  assumes "path \<in> set (leaf_paths serviceCommands)" and c: "service_Get serviceCommands path = Inr (c, [])"
  shows "(\<exists>h. handler_runs ctx path h) \<longleftrightarrow> cmd_permitted ctx c"
proof
  assume "cmd_permitted ctx c"
  moreover obtain h where "cmd_handle c = Some h"
    using bspec [OF leaf_handled [unfolded list_all_iff] assms(1)] c by auto
  ultimately have "handler_runs ctx path h"
    using c by (auto simp: handler_runs_def handleServiceCommand_def cmd_permitted_def split: prod.split handler_result.split)
  then show "\<exists>h. handler_runs ctx path h" ..
next
  assume "\<exists>h. handler_runs ctx path h"
  then obtain h where h: "handler_runs ctx path h" ..
  show "cmd_permitted ctx c"
  proof (rule ccontr)
    assume "\<not> cmd_permitted ctx c"
    then have "snd (handleServiceCommand count_run ctx path 0) = ([], 0)"
      using c by (auto simp: handleServiceCommand_def cmd_permitted_def)
    moreover have "snd (handleServiceCommand count_run ctx path 0) = snd (count_run h ctx [] 0)"
      using h unfolding handler_runs_def by metis
    ultimately show False by (simp add: count_run_def)
  qed
qed

lemma help_names_leaves:
  "list_all (\<lambda>s. List.member (map (\<lambda>p. Join p '' '') (leaf_paths serviceCommands)) s) (appendServiceCommandSetHelp serviceCommands [] admin False)"
  "distinct (appendServiceCommandSetHelp serviceCommands [] admin False)"
  by (cases admin; simp only: help_lists; code_simp)+

text \<open>C35. For a user, the help listing is exact: it prints the names of the commands of the table for which the
  dispatcher runs a handler, each of them once, and nothing else.\<close>

theorem help_exact_for_users:
  assumes "sc_user ctx \<noteq> None"
  shows "\<exists>l. handleServiceHelp ctx [] = (None, [available_commands l]) \<and> distinct l
    \<and> set l = {Join path '' '' | path. path \<in> set (leaf_paths serviceCommands) \<and> (\<exists>h. handler_runs ctx path h)}"
proof -
  let ?l = "appendServiceCommandSetHelp serviceCommands [] (sc_admin ctx) False"
  have listed: "Join path '' '' \<in> set ?l \<longleftrightarrow> (\<exists>h. handler_runs ctx path h)" if path: "path \<in> set (leaf_paths serviceCommands)" for path
  proof -
    obtain c where c: "service_Get serviceCommands path = Inr (c, [])" "(path, cmd_admin c, cmd_global c) \<in> set leaf_table"
      using leaf_pathD [OF path] by blast
    then have "table_agrees (sc_admin ctx) True ?l (path, cmd_admin c, cmd_global c)"
      using help_table_user [of "sc_admin ctx"] unfolding list_all_iff by blast
    then show ?thesis
      unfolding leaf_runs_iff [OF path c(1)] using assms by (simp add: table_agrees_def cmd_permitted_def List.member_iff)
  qed
  have "\<exists>path. s = Join path '' '' \<and> path \<in> set (leaf_paths serviceCommands)" if "s \<in> set ?l" for s
    using that help_names_leaves(1) [of "sc_admin ctx"] by (auto simp: list_all_iff List.member_iff)
  with listed have "set ?l = {Join path '' '' | path. path \<in> set (leaf_paths serviceCommands) \<and> (\<exists>h. handler_runs ctx path h)}"
    by blast
  moreover have "handleServiceHelp ctx [] = (None, [available_commands ?l])" using assms by (auto simp: handleServiceHelp_def)
  ultimately show ?thesis using help_names_leaves(2) by blast
qed

theorem help_exact_for_users_witness:
  "\<exists>l. handleServiceHelp \<lparr>sc_admin = False, sc_user = Some ''alice'', sc_nick = [], sc_network = None, sc_dc = None\<rparr> [] = (None, [available_commands l])
    \<and> distinct l \<and> set l = {Join path '' '' | path. path \<in> set (leaf_paths serviceCommands)
        \<and> (\<exists>h. handler_runs \<lparr>sc_admin = False, sc_user = Some ''alice'', sc_nick = [], sc_network = None, sc_dc = None\<rparr> path h)}"
  using help_exact_for_users [of "\<lparr>sc_admin = False, sc_user = Some ''alice'', sc_nick = [], sc_network = None, sc_dc = None\<rparr>"] by simp

text \<open>Outside of a user's context, as on the administration socket, the listing leaves out the
  commands under \<open>server\<close> although the dispatcher runs them: the entry lacks the flag \<open>global\<close> that
  its children have.\<close>

theorem help_hides_server_commands:
  assumes "sc_admin ctx" and "sc_user ctx = None"
  shows "list_all (\<lambda>path. (Join path '' '' \<in> set (appendServiceCommandSetHelp serviceCommands [] True True)
      \<longleftrightarrow> fst (handleServiceCommand run ctx path s) \<notin> {Some AdminRequired, Some UserRequired})
      \<longleftrightarrow> hd path \<noteq> ''server'')
    (leaf_paths serviceCommands)"
  unfolding list_all_iff
proof
  fix path
  assume "path \<in> set (leaf_paths serviceCommands)"
  then obtain c where c: "service_Get serviceCommands path = Inr (c, [])"
    "(path, cmd_admin c, cmd_global c) \<in> set leaf_table" using leaf_pathD by blast
  have "table_agrees True False (appendServiceCommandSetHelp serviceCommands [] True True)
      (path, cmd_admin c, cmd_global c) \<longleftrightarrow> hd path \<noteq> ''server''"
    using help_table_global [of True] c(2) unfolding list_all_iff by fastforce
  then show "(Join path '' '' \<in> set (appendServiceCommandSetHelp serviceCommands [] True True)
      \<longleftrightarrow> fst (handleServiceCommand run ctx path s) \<notin> {Some AdminRequired, Some UserRequired})
      \<longleftrightarrow> hd path \<noteq> ''server''"
    unfolding refused_iff [OF c(1)] using assms
    by (simp add: table_agrees_def cmd_permitted_def List.member_iff)
qed

theorem help_hides_server_commands_witness:
  "list_all (\<lambda>path. (Join path '' '' \<in> set (appendServiceCommandSetHelp serviceCommands [] True True)
      \<longleftrightarrow> fst (handleServiceCommand count_run \<lparr>sc_admin = True, sc_user = None, sc_nick = [], sc_network = None, sc_dc = None\<rparr> path 0)
           \<notin> {Some AdminRequired, Some UserRequired})
      \<longleftrightarrow> hd path \<noteq> ''server'')
    (leaf_paths serviceCommands)"
  using help_hides_server_commands [of "\<lparr>sc_admin = True, sc_user = None, sc_nick = [], sc_network = None, sc_dc = None\<rparr>" count_run 0] by simp

end
