(* ===== verification/Bouncer_State.thy ===== *)
theory Bouncer_State
  imports Modes Backoff
begin

text \<open>
  The data model that the connection and user theories share: the records of the database
  (\<^verbatim>\<open>src/database/database.go\<close>), the upstream and downstream connections, the networks and the
  user (\<^verbatim>\<open>src/upstream.go\<close>, \<^verbatim>\<open>src/downstream.go\<close>, \<^verbatim>\<open>src/user.go\<close>).

  Objects the code compares by pointer carry a reference: a network its \<open>n_ref\<close>, a downstream
  connection its \<open>dc_id\<close>.  What a step sends or asks of the rest of the system is a list of
  \<open>effect\<close> values, in the order of the calls.
\<close>

section \<open>Database records\<close>

record db_user =
  user_ID :: int
  user_Username :: string
  user_Password :: string
  user_Nick :: string
  user_Realname :: string
  user_Admin :: bool
  user_Enabled :: bool
  user_DownstreamInteractedAt :: int
  user_MaxNetworks :: int

record db_sasl =
  sasl_Mechanism :: string
  sasl_PlainUsername :: string
  sasl_PlainPassword :: string
  sasl_CertBlob :: "string option"
  sasl_PrivKeyBlob :: "string option"

record db_network =
  net_ID :: int
  net_Name :: string
  net_Addr :: string
  net_Nick :: string
  net_Username :: string
  net_Realname :: string
  net_Pass :: string
  net_ConnectCommands :: "string list"
  net_CertFP :: string
  net_SASL :: db_sasl
  net_AutoAway :: bool
  net_Enabled :: bool

datatype message_filter = FilterDefault | FilterNone | FilterHighlight | FilterMessage

record db_channel =
  ch_ID :: int
  ch_Name :: string
  ch_Key :: string
  ch_Detached :: bool
  ch_DetachedInternalMsgID :: string
  ch_RelayDetached :: message_filter
  ch_ReattachOn :: message_filter
  ch_DetachAfter :: int
  ch_DetachOn :: message_filter

record delivery_receipt =
  rcpt_Target :: string
  rcpt_Client :: string
  rcpt_InternalMsgID :: string

definition NewUser :: "string \<Rightarrow> db_user" where
  "NewUser username = \<lparr>user_ID = 0, user_Username = username, user_Password = [], user_Nick = [],
     user_Realname = [], user_Admin = False, user_Enabled = True, user_DownstreamInteractedAt = 0,
     user_MaxNetworks = - 1\<rparr>"

definition no_sasl :: db_sasl where
  "no_sasl = \<lparr>sasl_Mechanism = [], sasl_PlainUsername = [], sasl_PlainPassword = [],
     sasl_CertBlob = None, sasl_PrivKeyBlob = None\<rparr>"

definition NewNetwork :: "string \<Rightarrow> db_network" where
  "NewNetwork addr = \<lparr>net_ID = 0, net_Name = [], net_Addr = addr, net_Nick = [], net_Username = [],
     net_Realname = [], net_Pass = [], net_ConnectCommands = [], net_CertFP = [], net_SASL = no_sasl,
     net_AutoAway = True, net_Enabled = True\<rparr>"

definition GetName :: "db_network \<Rightarrow> string" where
  "GetName net = (if net_Name net \<noteq> [] then net_Name net else net_Addr net)"

definition GetNick :: "db_user \<Rightarrow> db_network option \<Rightarrow> string" where
  "GetNick u net =
     (case net of
        Some n \<Rightarrow> if net_Nick n \<noteq> [] then net_Nick n
                  else if user_Nick u \<noteq> [] then user_Nick u else user_Username u
      | None \<Rightarrow> if user_Nick u \<noteq> [] then user_Nick u else user_Username u)"

definition GetUsername :: "db_user \<Rightarrow> db_network option \<Rightarrow> string" where
  "GetUsername u net =
     (case net of
        Some n \<Rightarrow> if net_Username n \<noteq> [] then net_Username n else GetNick u net
      | None \<Rightarrow> GetNick u net)"

definition GetRealname :: "db_user \<Rightarrow> db_network option \<Rightarrow> string" where
  "GetRealname u net =
     (case net of
        Some n \<Rightarrow> if net_Realname n \<noteq> [] then net_Realname n
                  else if user_Realname u \<noteq> [] then user_Realname u else GetNick u net
      | None \<Rightarrow> if user_Realname u \<noteq> [] then user_Realname u else GetNick u net)"

section \<open>Upstream connections\<close>

record upstream_user =
  uu_Nickname :: string
  uu_Username :: string
  uu_Hostname :: string
  uu_Server :: string
  uu_Flags :: string
  uu_Account :: string
  uu_Realname :: string

record upstream_batch =
  b_Type :: string
  b_Params :: "string list"
  b_Outer :: "string option"
  b_Label :: string

text \<open>\<open>pc_sentAt\<close> is \<open>None\<close> for the zero time.\<close>

record pending_upstream_command =
  pc_downstreamID :: "64 word"
  pc_downstreamLabel :: string
  pc_msg :: irc_message
  pc_sentAt :: "int option"

datatype sasl_client = SaslPlain string string | SaslExternal

record upstream_conn =
  uc_serverPrefix :: irc_prefix
  uc_serverName :: string
  uc_availableUserModes :: string
  uc_availableChannelModes :: "(char, channel_mode_type) gomap"
  uc_availableChannelTypes :: string
  uc_availableStatusMsg :: string
  uc_availableMemberships :: "membership list"
  uc_isupport :: "(string, string option) gomap"
  uc_registered :: bool
  uc_nick :: string
  uc_username :: string
  uc_realname :: string
  uc_hostname :: string
  uc_modes :: user_modes
  uc_channels :: "upstream_channel case_mapping_map"
  uc_users :: "upstream_user case_mapping_map"
  uc_caps :: cap_registry
  uc_batches :: "(string, upstream_batch) gomap"
  uc_away :: bool
  uc_account :: string
  uc_nextLabelID :: "64 word"
  uc_monitored :: "bool case_mapping_map"
  uc_saslClient :: "sasl_client option"
  uc_saslStarted :: bool
  uc_pendingCmds :: "(string, pending_upstream_command list) gomap"
  uc_pendingRegainNick :: string
  uc_regainNickTimer :: "int option"
  uc_regainNickBackoff :: "backoffer option"
  uc_gotMotd :: bool
  uc_hasDesiredNick :: bool
  uc_rateLimit :: bool

text \<open>The connection that \<open>connectToUpstream\<close> returns.\<close>

definition new_upstream_conn :: upstream_conn where
  "new_upstream_conn = \<lparr>
     uc_serverPrefix = \<lparr>Name = ''*'', User = [], Host = []\<rparr>,
     uc_serverName = [],
     uc_availableUserModes = [],
     uc_availableChannelModes = stdChannelModes,
     uc_availableChannelTypes = stdChannelTypes,
     uc_availableStatusMsg = [],
     uc_availableMemberships = stdMemberships,
     uc_isupport = [],
     uc_registered = False,
     uc_nick = [], uc_username = [], uc_realname = [], uc_hostname = [],
     uc_modes = [],
     uc_channels = NewCaseMappingMap casemapRFC1459,
     uc_users = NewCaseMappingMap casemapRFC1459,
     uc_caps = NewCapRegistry,
     uc_batches = [],
     uc_away = False,
     uc_account = [],
     uc_nextLabelID = 0,
     uc_monitored = NewCaseMappingMap casemapRFC1459,
     uc_saslClient = None,
     uc_saslStarted = False,
     uc_pendingCmds = [],
     uc_pendingRegainNick = [],
     uc_regainNickTimer = None,
     uc_regainNickBackoff = None,
     uc_gotMotd = False,
     uc_hasDesiredNick = True,
     uc_rateLimit = True\<rparr>"

section \<open>Downstream connections\<close>

text \<open>A SASL exchange underway: \<open>ds_responses\<close> are the responses the mechanism's server has been given, the
  first one absent; the credentials are identity, user name and password, and user name and token.\<close>

record downstream_sasl =
  ds_mechanism :: string
  ds_responses :: "string option list"
  ds_plain :: "(string \<times> string \<times> string) option"
  ds_oauthBearer :: "(string \<times> string) option"
  ds_pendingResp :: string

record downstream_registration =
  reg_nick :: string
  reg_username :: string
  reg_pass :: string
  reg_networkName :: string
  reg_networkID :: int
  reg_negotiatingCaps :: bool
  reg_authUsername :: string

text \<open>\<open>dc_network\<close> is the reference of the network object, \<open>None\<close> for nil; \<open>dc_closed\<close> is the state of
  the underlying connection.\<close>

record downstream_conn =
  dc_id :: "64 word"
  dc_closed :: bool
  dc_registered :: bool
  dc_network :: "nat option"
  dc_clientName :: string
  dc_impersonating :: bool
  dc_nick :: string
  dc_nickCM :: string
  dc_realname :: string
  dc_username :: string
  dc_hostname :: string
  dc_account :: string
  dc_away :: "string option"
  dc_capVersion :: int
  dc_caps :: cap_registry
  dc_isupport :: "(string, string option) gomap"
  dc_sasl :: "downstream_sasl option"
  dc_registration :: "downstream_registration option"
  dc_lastBatchRef :: "64 word"
  dc_casemap :: "string \<Rightarrow> string"
  dc_monitored :: "unit case_mapping_map"
  dc_metadataSubs :: "string list"

section \<open>Networks and the user\<close>

type_synonym delivered_store = "(string, string) gomap case_mapping_map"

record network =
  n_ref :: nat
  n_record :: db_network
  n_stopped :: bool
  n_conn :: "upstream_conn option"
  n_channels :: "db_channel case_mapping_map"
  n_delivered :: delivered_store
  n_lastError :: "string option"
  n_casemap :: "string \<Rightarrow> string"
  n_pushTargets :: "int case_mapping_map"

text \<open>The maps start with the strictest case mapping, the network itself with the standard one.\<close>

definition newNetwork :: "nat \<Rightarrow> db_network \<Rightarrow> db_channel list \<Rightarrow> network" where
  "newNetwork ref rec channels = \<lparr>n_ref = ref, n_record = rec, n_stopped = False, n_conn = None,
     n_channels = foldl (\<lambda>m ch. cmm_Set m (ch_Name ch) ch) (NewCaseMappingMap casemapASCII) channels,
     n_delivered = NewCaseMappingMap casemapASCII,
     n_lastError = None,
     n_casemap = casemapRFC1459,
     n_pushTargets = NewCaseMappingMap casemapASCII\<rparr>"

datatype msg_store_kind = NoStore | MemoryStore | FSStore | DBStore

record user_state =
  u_record :: db_user
  u_networks :: "network list"
  u_downstreamConns :: "downstream_conn list"
  u_msgStore :: msg_store_kind
  u_nextRef :: nat

datatype effect =
    DownSend "64 word" irc_message
  | DownClose "64 word"
  | DownEndSASL "64 word" irc_message
  | UpSend nat irc_message
  | NetStart nat
  | NetStop nat
  | DbStoreUser db_user
  | DbStoreNetwork db_network
  | DbDeleteNetwork int
  | DbStoreChannel int db_channel
  | DbDeleteChannel int
  | DbStoreReceipts int string "delivery_receipt list"

definition forEachDownstream :: "user_state \<Rightarrow> nat \<Rightarrow> downstream_conn list" where
  "forEachDownstream u ref = filter (\<lambda>dc. dc_network dc = Some ref) (u_downstreamConns u)"

definition downstreamByID :: "downstream_conn list \<Rightarrow> 64 word \<Rightarrow> downstream_conn option" where
  "downstreamByID dcs did = find (\<lambda>dc. dc_id dc = did) dcs"

end
