(* ===== verification/Upstream_Queue.thy ===== *)
theory Upstream_Queue
  imports Bouncer_State
begin

text \<open>
  The queue of commands in progress of an upstream connection and the labels that tie replies to
  a downstream connection, \<^verbatim>\<open>src/upstream.go\<close>.  Replies to commands such as \<open>WHO\<close> carry no mark of
  who asked, so at most one command of each type is in flight: the head of its queue.

  Each operation returns the messages it sends with the changed connection; \<open>None\<close> is a panic.
\<close>

section \<open>Labels\<close>

definition format_label :: "64 word \<Rightarrow> 64 word \<Rightarrow> string \<Rightarrow> string" where
  "format_label did n label = ''sd-'' @ show_nat (unat did) @ ''-'' @ show_nat (unat n) @ ''-'' @ label"

text \<open>What \<open>SendMessage\<close> puts on the wire: no tags unless the server takes them.\<close>

definition upstream_SendMessage :: "upstream_conn \<Rightarrow> irc_message \<Rightarrow> irc_message" where
  "upstream_SendMessage uc msg =
     (if caps_IsEnabled (uc_caps uc) ''message-tags'' then msg else msg\<lparr>Tags := []\<rparr>)"

text \<open>\<open>SendMessageLabeled\<close> changes the message it is given, the one in the queue, before it sends it:
  the first component is that message, not yet what is sent.  \<open>label\<close> is the label of the downstream
  context, empty when there is none.\<close>

definition SendMessageLabeled :: "upstream_conn \<Rightarrow> 64 word \<Rightarrow> string \<Rightarrow> irc_message \<Rightarrow> irc_message \<times> upstream_conn" where
  "SendMessageLabeled uc did label msg =
     (if caps_IsEnabled (uc_caps uc) ''labeled-response'' then
        (msg\<lparr>Tags := go_put ''label'' (format_label did (uc_nextLabelID uc) label) (Tags msg)\<rparr>,
         uc\<lparr>uc_nextLabelID := uc_nextLabelID uc + 1\<rparr>)
      else (msg, uc))"

datatype label_error = LabelTooShort | LabelBadPrefix string | LabelBadID num_error

definition parseLabel :: "string \<Rightarrow> label_error + (64 word \<times> string)" where
  "parseLabel label =
     (if label = [] then Inr (0, [])
      else let parts = SplitN label CHR ''-'' 4 in
        if length parts < 4 then Inl LabelTooShort
        else if parts ! 0 \<noteq> ''sd'' then Inl (LabelBadPrefix (parts ! 0))
        else (case ParseUint64 (parts ! 1) of
                Inl e \<Rightarrow> Inl (LabelBadID e)
              | Inr n \<Rightarrow> Inr (of_nat n, parts ! 3)))"

section \<open>The queue\<close>

definition pending :: "upstream_conn \<Rightarrow> string \<Rightarrow> pending_upstream_command list" where
  "pending uc cmd = (case go_get (uc_pendingCmds uc) cmd of None \<Rightarrow> [] | Some l \<Rightarrow> l)"

definition set_pending :: "string \<Rightarrow> pending_upstream_command list \<Rightarrow> upstream_conn \<Rightarrow> upstream_conn" where
  "set_pending cmd l uc = uc\<lparr>uc_pendingCmds := go_put cmd l (uc_pendingCmds uc)\<rparr>"

text \<open>The built-in \<open>copy(dst, src)\<close>, on the contents of \<open>dst\<close>.\<close>

definition go_copy :: "'a list \<Rightarrow> 'a list \<Rightarrow> 'a list" where
  "go_copy dst src = take (length dst) src @ drop (length src) dst"

definition pendingTypes :: "string list" where
  "pendingTypes = [''LIST'', ''WHO'', ''WHOIS'', ''AUTHENTICATE'', ''REGISTER'', ''VERIFY'']"

definition sendNextPendingCommand :: "int \<Rightarrow> string \<Rightarrow> upstream_conn \<Rightarrow> irc_message list \<times> upstream_conn" where
  "sendNextPendingCommand now cmd uc =
     (case pending uc cmd of
        [] \<Rightarrow> ([], uc)
      | p # ps \<Rightarrow>
          (let sent = SendMessageLabeled uc (pc_downstreamID p) (pc_downstreamLabel p) (pc_msg p)
           in ([upstream_SendMessage (snd sent) (fst sent)],
               set_pending cmd (p\<lparr>pc_msg := fst sent, pc_sentAt := Some now\<rparr> # ps) (snd sent))))"

definition pendingTimeout :: int where
  "pendingTimeout = 30 * 1000000000"

definition expired :: "int \<Rightarrow> pending_upstream_command \<Rightarrow> bool" where
  "expired now p = (case pc_sentAt p of None \<Rightarrow> False | Some t \<Rightarrow> now - t > pendingTimeout)"

definition enqueueCommand ::
    "int \<Rightarrow> 64 word \<Rightarrow> string \<Rightarrow> irc_message \<Rightarrow> upstream_conn \<Rightarrow> (irc_message list \<times> upstream_conn) option" where
  "enqueueCommand now did label msg uc =
     (if \<not> List.member pendingTypes (Command msg) then None
      else
        let cmd = Command msg;
            q = pending uc cmd @ [\<lparr>pc_downstreamID = did, pc_downstreamLabel = label, pc_msg = msg, pc_sentAt = None\<rparr>];
            q = (if expired now (hd q) then go_copy q (tl q) else q);
            uc = set_pending cmd q uc
        in Some (if length q = 1 then sendNextPendingCommand now cmd uc else ([], uc)))"

definition currentPendingCommand ::
    "downstream_conn list \<Rightarrow> string \<Rightarrow> upstream_conn \<Rightarrow> downstream_conn option \<times> irc_message option" where
  "currentPendingCommand dcs cmd uc =
     (case pending uc cmd of
        [] \<Rightarrow> (None, None)
      | p # _ \<Rightarrow> (downstreamByID dcs (pc_downstreamID p), Some (pc_msg p)))"

definition dequeueCommand ::
    "int \<Rightarrow> downstream_conn list \<Rightarrow> string \<Rightarrow> upstream_conn
     \<Rightarrow> (downstream_conn option \<times> irc_message option) \<times> irc_message list \<times> upstream_conn" where
  "dequeueCommand now dcs cmd uc =
     (let q = pending uc cmd;
          q' = take (length q - 1) (go_copy q (tl q));
          uc' = (if q \<noteq> [] then set_pending cmd q' uc else uc)
      in (currentPendingCommand dcs cmd uc, sendNextPendingCommand now cmd uc'))"

text \<open>The loop runs from the last entry down to the second.\<close>

fun cancel_loop :: "64 word \<Rightarrow> nat \<Rightarrow> pending_upstream_command list \<Rightarrow> pending_upstream_command list" where
  "cancel_loop did 0 q = q"
| "cancel_loop did (Suc i) q =
     cancel_loop did i (if pc_downstreamID (q ! Suc i) = did then take (Suc i) q @ drop (Suc (Suc i)) q else q)"

definition cancelPendingCommandsByDownstreamID :: "64 word \<Rightarrow> upstream_conn \<Rightarrow> upstream_conn" where
  "cancelPendingCommandsByDownstreamID did uc =
     uc\<lparr>uc_pendingCmds := map (\<lambda>(cmd, q). (cmd, cancel_loop did (length q - 1) q)) (uc_pendingCmds uc)\<rparr>"

definition RPL_LISTEND :: string where "RPL_LISTEND = ''323''"
definition RPL_ENDOFWHO :: string where "RPL_ENDOFWHO = ''315''"
definition RPL_ENDOFWHOIS :: string where "RPL_ENDOFWHOIS = ''318''"
definition ERR_SASLABORTED :: string where "ERR_SASLABORTED = ''906''"

text \<open>The reply that tells a downstream connection that its command is given up; \<open>None\<close> is a panic,
  for a command that is never queued or a \<open>WHOIS\<close>, \<open>REGISTER\<close> or \<open>VERIFY\<close> without parameters.\<close>

definition abort_reply :: "downstream_conn \<Rightarrow> irc_message \<Rightarrow> effect option" where
  "abort_reply dc msg =
     (if Command msg = ''LIST'' then
        Some (DownSend (dc_id dc) (mk_msg RPL_LISTEND [dc_nick dc, ''Command aborted'']))
      else if Command msg = ''WHO'' then
        Some (DownSend (dc_id dc) (mk_msg RPL_ENDOFWHO
          [dc_nick dc, (case Params msg of [] \<Rightarrow> ''*'' | m # _ \<Rightarrow> m), ''Command aborted'']))
      else if Command msg = ''WHOIS'' then
        (if Params msg = [] then None
         else Some (DownSend (dc_id dc) (mk_msg RPL_ENDOFWHOIS [dc_nick dc, last (Params msg), ''Command aborted''])))
      else if Command msg = ''AUTHENTICATE'' then
        Some (DownEndSASL (dc_id dc) (mk_msg ERR_SASLABORTED [dc_nick dc, ''SASL authentication aborted'']))
      else if Command msg = ''REGISTER'' \<or> Command msg = ''VERIFY'' then
        (case Params msg of
           [] \<Rightarrow> None
         | a # _ \<Rightarrow> Some (DownSend (dc_id dc)
             (mk_msg ''FAIL'' [Command msg, ''TEMPORARILY_UNAVAILABLE'', a, ''Command aborted''])))
      else None)"

fun abort_loop :: "downstream_conn list \<Rightarrow> pending_upstream_command list \<Rightarrow> effect list option" where
  "abort_loop dcs [] = Some []"
| "abort_loop dcs (p # ps) =
     (case downstreamByID dcs (pc_downstreamID p) of
        None \<Rightarrow> abort_loop dcs ps
      | Some dc \<Rightarrow>
          (case abort_reply dc (pc_msg p) of
             None \<Rightarrow> None
           | Some e \<Rightarrow> map_option ((#) e) (abort_loop dcs ps)))"

definition abortPendingCommands :: "downstream_conn list \<Rightarrow> upstream_conn \<Rightarrow> (effect list \<times> upstream_conn) option" where
  "abortPendingCommands dcs uc =
     (case abort_loop dcs (concat (map snd (uc_pendingCmds uc))) of
        None \<Rightarrow> None
      | Some es \<Rightarrow> Some (es, uc\<lparr>uc_pendingCmds := []\<rparr>))"

section \<open>The invariant\<close>

text \<open>What is queued under a command is that command; its head has been sent and nothing behind it
  has.\<close>

definition queue_ok :: "string \<Rightarrow> pending_upstream_command list \<Rightarrow> bool" where
  "queue_ok cmd q \<longleftrightarrow> List.member pendingTypes cmd
     \<and> list_all (\<lambda>p. Command (pc_msg p) = cmd) q
     \<and> (q \<noteq> [] \<longrightarrow> pc_sentAt (hd q) \<noteq> None)
     \<and> list_all (\<lambda>p. pc_sentAt p = None) (tl q)"

definition queues_ok :: "upstream_conn \<Rightarrow> bool" where
  "queues_ok uc \<longleftrightarrow> list_all (\<lambda>(cmd, q). queue_ok cmd q) (uc_pendingCmds uc)"

lemma pending_set_pending [simp]:
  "pending (set_pending cmd q uc) c = (if c = cmd then q else pending uc c)"
  by (simp add: pending_def set_pending_def update_conv')

lemma queues_ok_set_pending:
  "queues_ok uc \<Longrightarrow> queue_ok cmd q \<Longrightarrow> queues_ok (set_pending cmd q uc)"
  by (simp add: queues_ok_def set_pending_def list_all_go_put)

lemma queue_ok_pending: "queues_ok uc \<Longrightarrow> List.member pendingTypes cmd \<Longrightarrow> queue_ok cmd (pending uc cmd)"
proof (cases "go_get (uc_pendingCmds uc) cmd")
  case (Some q)
  then have "(cmd, q) \<in> set (uc_pendingCmds uc)" by (rule map_of_SomeD)
  then show "queues_ok uc \<Longrightarrow> queue_ok cmd (pending uc cmd)"
    using Some by (auto simp: queues_ok_def list_all_iff pending_def)
qed (simp add: pending_def queue_ok_def)

lemma SendMessageLabeled_pending [simp]:
  "pending (snd (SendMessageLabeled uc d l m)) c = pending uc c"
  "uc_pendingCmds (snd (SendMessageLabeled uc d l m)) = uc_pendingCmds uc"
  "queues_ok (snd (SendMessageLabeled uc d l m)) = queues_ok uc"
  by (simp_all add: SendMessageLabeled_def pending_def queues_ok_def)

lemma SendMessageLabeled_msg [simp]:
  "Command (fst (SendMessageLabeled uc d l m)) = Command m"
  "Params (fst (SendMessageLabeled uc d l m)) = Params m"
  by (simp_all add: SendMessageLabeled_def)

text \<open>\<open>q\<close> becomes the queue with its head in flight.\<close>

lemma sendNext_pending:
  "pending (snd (sendNextPendingCommand now cmd uc)) c =
     (if c = cmd then (case pending uc cmd of [] \<Rightarrow> []
        | p # ps \<Rightarrow> p\<lparr>pc_msg := fst (SendMessageLabeled uc (pc_downstreamID p) (pc_downstreamLabel p) (pc_msg p)),
            pc_sentAt := Some now\<rparr> # ps)
      else pending uc c)"
  by (simp add: sendNextPendingCommand_def Let_def split: list.split)

lemma sendNext_ok:
  assumes "queues_ok uc'" and "pending uc cmd = q" and "uc = set_pending cmd q uc'"
    and "List.member pendingTypes cmd"
    and "list_all (\<lambda>p. Command (pc_msg p) = cmd) q" "list_all (\<lambda>p. pc_sentAt p = None) q"
  shows "queues_ok (snd (sendNextPendingCommand now cmd uc))"
proof (cases q)
  case Nil
  with assms show ?thesis
    by (simp add: sendNextPendingCommand_def queues_ok_set_pending queue_ok_def)
next
  case (Cons p ps)
  let ?s = "SendMessageLabeled uc (pc_downstreamID p) (pc_downstreamLabel p) (pc_msg p)"
  let ?p = "p\<lparr>pc_msg := fst ?s, pc_sentAt := Some now\<rparr>"
  have "set_pending cmd (?p # ps) (snd ?s)
      = set_pending cmd (?p # ps) (uc'\<lparr>uc_nextLabelID := uc_nextLabelID (snd ?s)\<rparr>)"
    unfolding assms(3) by (simp add: SendMessageLabeled_def set_pending_def)
  moreover have "queues_ok (uc'\<lparr>uc_nextLabelID := uc_nextLabelID (snd ?s)\<rparr>)"
    using assms(1) by (simp add: queues_ok_def)
  moreover have "queue_ok cmd (?p # ps)" using assms(4-6) Cons by (simp add: queue_ok_def)
  ultimately have "queues_ok (set_pending cmd (?p # ps) (snd ?s))"
    by (simp add: queues_ok_set_pending)
  with Cons assms(2) show ?thesis
    by (simp add: sendNextPendingCommand_def Let_def)
qed

section \<open>Operations on one queue\<close>

lemma go_copy_tl: "q \<noteq> [] \<Longrightarrow> go_copy q (tl q) = tl q @ [last q]"
  by (cases q rule: rev_cases) (auto simp: go_copy_def)

definition new_pending :: "64 word \<Rightarrow> string \<Rightarrow> irc_message \<Rightarrow> pending_upstream_command" where
  "new_pending did label msg = \<lparr>pc_downstreamID = did, pc_downstreamLabel = label, pc_msg = msg, pc_sentAt = None\<rparr>"

lemma enqueue_waiting:
  assumes "List.member pendingTypes (Command msg)" and "pending uc (Command msg) \<noteq> []"
    and "\<not> expired now (hd (pending uc (Command msg)))"
  shows "enqueueCommand now did label msg uc
    = Some ([], set_pending (Command msg) (pending uc (Command msg) @ [new_pending did label msg]) uc)"
  using assms by (simp add: enqueueCommand_def Let_def new_pending_def)

lemma enqueue_first:
  assumes "List.member pendingTypes (Command msg)" and "pending uc (Command msg) = []"
  shows "enqueueCommand now did label msg uc
    = Some (sendNextPendingCommand now (Command msg) (set_pending (Command msg) [new_pending did label msg] uc))"
  using assms by (simp add: enqueueCommand_def Let_def new_pending_def expired_def)

lemma dequeue_eq:
  "snd (dequeueCommand now dcs cmd uc) =
     (if pending uc cmd = [] then ([], uc)
      else sendNextPendingCommand now cmd (set_pending cmd (tl (pending uc cmd)) uc))"
proof (cases "pending uc cmd = []")
  case False
  then have "take (length (pending uc cmd) - 1) (go_copy (pending uc cmd) (tl (pending uc cmd)))
      = tl (pending uc cmd)"
    by (simp add: go_copy_tl)
  with False show ?thesis by (simp add: dequeueCommand_def Let_def)
qed (simp add: dequeueCommand_def Let_def sendNextPendingCommand_def)

lemma enqueue_ok:
  assumes "queues_ok uc" and "List.member pendingTypes (Command msg)"
    and "pending uc (Command msg) = [] \<or> \<not> expired now (hd (pending uc (Command msg)))"
  shows "\<exists>out uc'. enqueueCommand now did label msg uc = Some (out, uc') \<and> queues_ok uc'"
proof (cases "pending uc (Command msg) = []")
  case True
  have "queues_ok (snd (sendNextPendingCommand now (Command msg)
      (set_pending (Command msg) [new_pending did label msg] uc)))"
    by (rule sendNext_ok [OF assms(1) _ refl assms(2)]) (simp_all add: new_pending_def)
  with enqueue_first [OF assms(2) True] show ?thesis by (metis prod.collapse)
next
  case False
  then have "queue_ok (Command msg) (pending uc (Command msg) @ [new_pending did label msg])"
    using queue_ok_pending [OF assms(1,2)] by (simp add: queue_ok_def new_pending_def)
  with enqueue_waiting [OF assms(2) False] assms(1,3) False show ?thesis
    by (simp add: queues_ok_set_pending)
qed

lemma dequeue_ok:
  assumes "queues_ok uc" and "List.member pendingTypes cmd"
  shows "queues_ok (snd (snd (dequeueCommand now dcs cmd uc)))"
proof (cases "pending uc cmd = []")
  case True
  with assms(1) show ?thesis by (simp add: dequeue_eq)
next
  case False
  have "queue_ok cmd (pending uc cmd)" by (rule queue_ok_pending [OF assms])
  then have "list_all (\<lambda>p. Command (pc_msg p) = cmd) (tl (pending uc cmd))"
    "list_all (\<lambda>p. pc_sentAt p = None) (tl (pending uc cmd))"
    using False by (auto simp: queue_ok_def list_all_iff dest: list.set_sel(2))
  then have "queues_ok (snd (sendNextPendingCommand now cmd (set_pending cmd (tl (pending uc cmd)) uc)))"
    by (intro sendNext_ok [OF assms(1) _ refl assms(2)]) simp_all
  with False show ?thesis by (simp add: dequeue_eq)
qed

lemma cancel_loop_eq:
  "i < length q \<Longrightarrow> cancel_loop did i q
     = hd q # filter (\<lambda>p. pc_downstreamID p \<noteq> did) (take i (tl q)) @ drop (Suc i) q"
proof (induction did i q rule: cancel_loop.induct)
  case (1 did q)
  then show ?case by (cases q) auto
next
  case (2 did i q)
  let ?q = "if pc_downstreamID (q ! Suc i) = did then take (Suc i) q @ drop (Suc (Suc i)) q else q"
  have t: "take (Suc i) (tl q) = take i (tl q) @ [q ! Suc i]"
    using "2.prems" by (cases q) (auto simp: take_Suc_conv_app_nth)
  have "hd ?q = hd q" "take i (tl ?q) = take i (tl q)"
    using "2.prems" by (cases q; auto)+
  moreover have "drop (Suc i) ?q = (if pc_downstreamID (q ! Suc i) = did then [] else [q ! Suc i]) @ drop (Suc (Suc i)) q"
    using "2.prems" by (auto simp: Cons_nth_drop_Suc)
  moreover have "i < length ?q" using "2.prems" by auto
  ultimately show ?case using "2.IH" t by simp
qed

lemma cancel_loop_all:
  "cancel_loop did (length q - Suc 0) q = (case q of [] \<Rightarrow> [] | p # ps \<Rightarrow> p # filter (\<lambda>x. pc_downstreamID x \<noteq> did) ps)"
  by (cases q) (simp_all add: cancel_loop_eq)

section \<open>Sequences of operations\<close>

datatype queue_op = Enqueue int "64 word" string irc_message | Dequeue int string

fun queue_step :: "downstream_conn list \<Rightarrow> queue_op \<Rightarrow> upstream_conn \<Rightarrow> (irc_message list \<times> upstream_conn) option" where
  "queue_step dcs (Enqueue now did label msg) uc = enqueueCommand now did label msg uc"
| "queue_step dcs (Dequeue now cmd) uc = Some (snd (dequeueCommand now dcs cmd uc))"

fun queue_run :: "downstream_conn list \<Rightarrow> queue_op list \<Rightarrow> upstream_conn \<Rightarrow> (irc_message list \<times> upstream_conn) option" where
  "queue_run dcs [] uc = Some ([], uc)"
| "queue_run dcs (op # ops) uc =
     (case queue_step dcs op uc of
        None \<Rightarrow> None
      | Some (out, uc') \<Rightarrow> map_option (\<lambda>(out', uc''). (out @ out', uc'')) (queue_run dcs ops uc'))"

text \<open>A run in which every command is of a supported type, and no enqueue finds the command in
  flight older than the timeout.\<close>

fun op_timely :: "queue_op \<Rightarrow> upstream_conn \<Rightarrow> bool" where
  "op_timely (Enqueue now did label msg) uc \<longleftrightarrow> List.member pendingTypes (Command msg)
     \<and> (pending uc (Command msg) = [] \<or> \<not> expired now (hd (pending uc (Command msg))))"
| "op_timely (Dequeue now cmd) uc \<longleftrightarrow> List.member pendingTypes cmd"

fun run_timely :: "downstream_conn list \<Rightarrow> queue_op list \<Rightarrow> upstream_conn \<Rightarrow> bool" where
  "run_timely dcs [] uc \<longleftrightarrow> True"
| "run_timely dcs (op # ops) uc \<longleftrightarrow> op_timely op uc
     \<and> (case queue_step dcs op uc of None \<Rightarrow> False | Some (_, uc') \<Rightarrow> run_timely dcs ops uc')"

definition msg_key :: "irc_message \<Rightarrow> string \<times> string list" where
  "msg_key m = (Command m, Params m)"

definition keys_of :: "string \<Rightarrow> irc_message list \<Rightarrow> (string \<times> string list) list" where
  "keys_of cmd ms = map msg_key (filter (\<lambda>m. Command m = cmd) ms)"

definition waiting :: "string \<Rightarrow> upstream_conn \<Rightarrow> (string \<times> string list) list" where
  "waiting cmd uc = map (msg_key \<circ> pc_msg) (tl (pending uc cmd))"

fun op_enqueued :: "queue_op \<Rightarrow> irc_message list" where
  "op_enqueued (Enqueue now did label msg) = [msg]"
| "op_enqueued (Dequeue now cmd) = []"

lemma upstream_SendMessage_sel [simp]:
  "Command (upstream_SendMessage uc m) = Command m" "Params (upstream_SendMessage uc m) = Params m"
  by (simp_all add: upstream_SendMessage_def)

lemma msg_key_sent [simp]:
  "msg_key (fst (SendMessageLabeled uc d l m)) = msg_key m"
  "msg_key (upstream_SendMessage uc m) = msg_key m"
  by (simp_all add: msg_key_def)

lemma sendNext_out:
  "fst (sendNextPendingCommand now cmd uc) =
     (case pending uc cmd of [] \<Rightarrow> []
      | p # ps \<Rightarrow> (let sent = SendMessageLabeled uc (pc_downstreamID p) (pc_downstreamLabel p) (pc_msg p)
          in [upstream_SendMessage (snd sent) (fst sent)]))"
  by (simp add: sendNextPendingCommand_def Let_def split: list.split)

lemma queue_step_fifo:
  assumes ok: "queues_ok uc" and t: "op_timely op uc"
  shows "\<exists>out uc'. queue_step dcs op uc = Some (out, uc') \<and> queues_ok uc'
    \<and> keys_of cmd out @ waiting cmd uc' = waiting cmd uc @ keys_of cmd (op_enqueued op)"
proof (cases op)
  case (Enqueue now did label msg)
  let ?c = "Command msg"
  have m: "List.member pendingTypes ?c"
    and e: "pending uc ?c = [] \<or> \<not> expired now (hd (pending uc ?c))" using t Enqueue by simp_all
  from enqueue_ok [OF ok m e] obtain out uc' where r: "enqueueCommand now did label msg uc = Some (out, uc')"
    and ok': "queues_ok uc'" by blast
  have "keys_of cmd out @ waiting cmd uc' = waiting cmd uc @ keys_of cmd [msg]"
  proof (cases "pending uc ?c = []")
    case True
    let ?uc = "set_pending ?c [new_pending did label msg] uc"
    have "out = fst (sendNextPendingCommand now ?c ?uc)" "uc' = snd (sendNextPendingCommand now ?c ?uc)"
      using r unfolding enqueue_first [OF m True] by (metis fst_conv option.sel, metis snd_conv option.sel)
    then show ?thesis
      using True by (auto simp: sendNext_out Let_def waiting_def sendNext_pending keys_of_def new_pending_def)
  next
    case False
    with r enqueue_waiting [OF m False] e
    have "out = []" "uc' = set_pending ?c (pending uc ?c @ [new_pending did label msg]) uc" by auto
    with False show ?thesis by (auto simp: waiting_def keys_of_def new_pending_def)
  qed
  with r ok' Enqueue show ?thesis by auto
next
  case (Dequeue now c)
  have m: "List.member pendingTypes c" using t Dequeue by simp
  let ?d = "snd (dequeueCommand now dcs c uc)"
  have q: "list_all (\<lambda>p. Command (pc_msg p) = c) (pending uc c)"
    using queue_ok_pending [OF ok m] by (simp add: queue_ok_def)
  have "keys_of cmd (fst ?d) @ waiting cmd (snd ?d) = waiting cmd uc"
  proof (cases "tl (pending uc c)")
    case Nil
    then show ?thesis
      by (cases "pending uc c") (auto simp: dequeue_eq sendNext_out Let_def sendNext_pending waiting_def keys_of_def)
  next
    case (Cons p ps)
    then have "pending uc c \<noteq> []" by auto
    moreover have "Command (pc_msg p) = c"
      using q Cons by (cases "pending uc c") auto
    ultimately show ?thesis
      using Cons by (auto simp: dequeue_eq sendNext_out Let_def sendNext_pending waiting_def keys_of_def)
  qed
  with dequeue_ok [OF ok m, of now dcs] Dequeue show ?thesis
    by (metis op_enqueued.simps(2) queue_step.simps(2) prod.collapse keys_of_def filter.simps(1)
        list.map(1) append_Nil2)
qed

lemma keys_of_append [simp]: "keys_of cmd (xs @ ys) = keys_of cmd xs @ keys_of cmd ys"
  by (simp add: keys_of_def)

lemma queue_run_fifo:
  "queues_ok uc \<Longrightarrow> run_timely dcs ops uc \<Longrightarrow>
   \<exists>out uc'. queue_run dcs ops uc = Some (out, uc') \<and> queues_ok uc'
    \<and> keys_of cmd out @ waiting cmd uc' = waiting cmd uc @ keys_of cmd (concat (map op_enqueued ops))"
proof (induction ops arbitrary: uc)
  case Nil
  then show ?case by (simp add: keys_of_def)
next
  case (Cons op ops)
  from queue_step_fifo [OF Cons.prems(1), of op dcs cmd] Cons.prems(2)
  obtain out1 uc1 where 1: "queue_step dcs op uc = Some (out1, uc1)" "queues_ok uc1"
    "keys_of cmd out1 @ waiting cmd uc1 = waiting cmd uc @ keys_of cmd (op_enqueued op)" by auto
  from Cons.IH [OF 1(2)] Cons.prems(2) 1(1)
  obtain out2 uc2 where 2: "queue_run dcs ops uc1 = Some (out2, uc2)" "queues_ok uc2"
    "keys_of cmd out2 @ waiting cmd uc2 = waiting cmd uc1 @ keys_of cmd (concat (map op_enqueued ops))"
    by auto
  have "keys_of cmd (out1 @ out2) @ waiting cmd uc2
      = waiting cmd uc @ keys_of cmd (concat (map op_enqueued (op # ops)))"
    using 1(3) 2(3) by simp
  with 1(1) 2(1,2) show ?case by simp
qed

section \<open>Properties\<close>

text \<open>A label that the bouncer puts on a command it sends upstream leads back to the downstream
  connection and to the label that the client had chosen, whatever characters that label has.\<close>

theorem parseLabel_format: "parseLabel (format_label did n label) = Inr (did, label)"
proof -
  have d: "CHR ''-'' \<notin> set (show_nat k)" for k by (rule show_nat_no_char) (simp add: is_digit_def)
  have "SplitN (format_label did n label) CHR ''-'' 4 = [''sd'', show_nat (unat did), show_nat (unat n), label]"
    using d by (simp add: format_label_def numeral_eq_Suc Cut_append)
  moreover have "unat did < 2 ^ 64" using unsigned_less [of did, where 'a = nat] by simp
  ultimately show ?thesis
    by (simp add: parseLabel_def format_label_def ParseUint64_show)
qed

text \<open>C5. As long as no reply is late, commands of a type go out one at a time and in the order they
  were asked for: after any sequence of requests and replies nothing has panicked, at most the
  head of each queue is in flight, and the commands sent followed by those still waiting are
  exactly the commands enqueued.\<close>

theorem pending_commands_fifo:
  assumes "queues_ok uc" and "pending uc cmd = []" and "run_timely dcs ops uc"
  shows "\<exists>out uc'. queue_run dcs ops uc = Some (out, uc') \<and> queues_ok uc'
    \<and> keys_of cmd out @ waiting cmd uc' = keys_of cmd (concat (map op_enqueued ops))"
  using queue_run_fifo [OF assms(1,3), of cmd] assms(2) by (simp add: waiting_def)

lemma new_conn_queues: "queues_ok new_upstream_conn" "pending new_upstream_conn cmd = []"
  by (simp_all add: queues_ok_def new_upstream_conn_def pending_def)

definition example_ops :: "queue_op list" where
  "example_ops = [Enqueue 0 1 [] (mk_msg ''WHO'' [''#a'']), Enqueue 5 2 ''x'' (mk_msg ''WHO'' [''#b'']),
     Enqueue 6 1 [] (mk_msg ''LIST'' []), Dequeue 9 ''WHO'']"

theorem pending_commands_fifo_witness:
  "\<exists>out uc'. queue_run [] example_ops new_upstream_conn = Some (out, uc') \<and> queues_ok uc'
    \<and> keys_of ''WHO'' out @ waiting ''WHO'' uc' = [(''WHO'', [''#a'']), (''WHO'', [''#b''])]"
proof -
  have "run_timely [] example_ops new_upstream_conn"
    by (simp add: example_ops_def pendingTypes_def mk_msg_def new_conn_queues enqueue_first
        sendNextPendingCommand_def SendMessageLabeled_def caps_IsEnabled_def Let_def expired_def
        new_pending_def pendingTimeout_def enqueue_waiting new_upstream_conn_def NewCapRegistry_def
        pending_def set_pending_def split: prod.split)
  moreover have "keys_of ''WHO'' (concat (map op_enqueued example_ops)) = [(''WHO'', [''#a'']), (''WHO'', [''#b''])]"
    by (simp add: example_ops_def keys_of_def msg_key_def mk_msg_def)
  ultimately show ?thesis
    using pending_commands_fifo [OF new_conn_queues, of "[]" example_ops "''WHO''"] by simp
qed

text \<open>When a client leaves, its commands are dropped from every queue except the one in flight,
  and the queues stay well-formed.\<close>

theorem cancelPendingCommands_correct:
  assumes "queues_ok uc"
  shows "queues_ok (cancelPendingCommandsByDownstreamID did uc)
    \<and> pending (cancelPendingCommandsByDownstreamID did uc) cmd
        = take 1 (pending uc cmd) @ filter (\<lambda>p. pc_downstreamID p \<noteq> did) (drop 1 (pending uc cmd))"
proof -
  have "queue_ok c (cancel_loop did (length q - 1) q)" if "queue_ok c q" for c q
    using that unfolding One_nat_def cancel_loop_all by (cases q) (auto simp: queue_ok_def list_all_iff)
  with assms have "queues_ok (cancelPendingCommandsByDownstreamID did uc)"
    by (auto simp: queues_ok_def cancelPendingCommandsByDownstreamID_def list_all_iff)
  moreover have "pending (cancelPendingCommandsByDownstreamID did uc) cmd
      = (case pending uc cmd of [] \<Rightarrow> [] | p # ps \<Rightarrow> p # filter (\<lambda>x. pc_downstreamID x \<noteq> did) ps)"
    using cancel_loop_all [of did]
    by (simp add: cancelPendingCommandsByDownstreamID_def pending_def map_of_map
        split: option.split)
  ultimately show ?thesis by (simp split: list.split)
qed

theorem cancelPendingCommands_correct_witness:
  "queues_ok (cancelPendingCommandsByDownstreamID 1 new_upstream_conn)
    \<and> pending (cancelPendingCommandsByDownstreamID 1 new_upstream_conn) ''WHO'' = []"
  using cancelPendingCommands_correct [OF new_conn_queues(1), of 1 "''WHO''"]
  by (simp add: new_conn_queues)

text \<open>A late reply breaks the queue: when the command in flight is older than the timeout, the new
  command replaces it \<^emph>\<open>and\<close> keeps its own place, so it is queued twice; nothing is sent, neither
  now nor on the next request, because the head is not the only entry and was never sent.\<close>

theorem enqueueCommand_timeout:
  assumes "List.member pendingTypes (Command msg)"
    and "pending uc (Command msg) = p # ps" and "expired now p"
    and "list_all (\<lambda>q. pc_sentAt q = None) ps" and "Command msg' = Command msg"
  shows "\<exists>uc' uc''. enqueueCommand now did label msg uc = Some ([], uc')
    \<and> pending uc' (Command msg) = ps @ [new_pending did label msg, new_pending did label msg]
    \<and> enqueueCommand now' did' label' msg' uc' = Some ([], uc'') \<and> \<not> queues_ok uc'"
proof -
  let ?n = "new_pending did label msg"
  let ?uc = "set_pending (Command msg) (ps @ [?n, ?n]) uc"
  have 1: "enqueueCommand now did label msg uc = Some ([], ?uc)"
    using assms(1-3) by (simp add: enqueueCommand_def Let_def new_pending_def go_copy_def)
  have h: "pc_sentAt (hd (ps @ [?n, ?n])) = None"
    using assms(4) by (cases ps) (simp_all add: new_pending_def)
  then have "\<not> expired now' (hd (pending ?uc (Command msg')))"
    by (simp add: expired_def assms(5))
  then have "\<exists>uc''. enqueueCommand now' did' label' msg' ?uc = Some ([], uc'')"
    using enqueue_waiting [of msg' ?uc now' did' label'] assms(1,5) by simp
  moreover have "\<not> queues_ok ?uc"
    using queue_ok_pending [of ?uc "Command msg"] assms(1) h by (auto simp: queue_ok_def)
  ultimately show ?thesis using 1 by auto
qed

definition late_conn :: upstream_conn where
  "late_conn = set_pending ''WHO'' [(new_pending 1 [] (mk_msg ''WHO'' [''#a'']))\<lparr>pc_sentAt := Some 0\<rparr>] new_upstream_conn"

theorem enqueueCommand_timeout_witness:
  "\<exists>uc' uc''. enqueueCommand 31000000000 2 [] (mk_msg ''WHO'' [''#b'']) late_conn = Some ([], uc')
    \<and> pending uc' ''WHO'' = [new_pending 2 [] (mk_msg ''WHO'' [''#b'']), new_pending 2 [] (mk_msg ''WHO'' [''#b''])]
    \<and> enqueueCommand 90000000000 3 [] (mk_msg ''WHO'' [''#c'']) uc' = Some ([], uc'') \<and> \<not> queues_ok uc'"
  using enqueueCommand_timeout [of "mk_msg ''WHO'' [''#b'']" late_conn
      "(new_pending 1 [] (mk_msg ''WHO'' [''#a'']))\<lparr>pc_sentAt := Some 0\<rparr>" "[]" 31000000000
      "mk_msg ''WHO'' [''#c'']" 2 "[]" 90000000000 3 "[]"]
  by (simp add: late_conn_def pendingTypes_def mk_msg_def expired_def pendingTimeout_def)

end
