(* ===== verification/Upstream_Caps.thy ===== *)
theory Upstream_Caps
  imports Upstream_Queue
begin

text \<open>
  Registration with an upstream server and the negotiation of capabilities, \<^verbatim>\<open>src/upstream.go\<close>:
  \<open>register\<close>, \<open>handleSupportedCaps\<close>, \<open>updateCaps\<close>, \<open>supportsSASL\<close>, \<open>requestSASL\<close>, \<open>handleCapAck\<close>, the \<open>CAP\<close>
  branch of \<open>handleMessage\<close> and the ISUPPORT values \<open>CHANMODES\<close> and \<open>PREFIX\<close>.  \<open>net\<close> is the network's
  record; each step returns the messages it sends.
\<close>

section \<open>Registration\<close>

definition register :: "db_user \<Rightarrow> db_network \<Rightarrow> upstream_conn \<Rightarrow> irc_message list \<times> upstream_conn" where
  "register u net uc =
     (let uc = uc\<lparr>uc_nick := GetNick u (Some net), uc_username := GetUsername u (Some net),
                  uc_realname := GetRealname u (Some net)\<rparr>
      in ([mk_msg ''CAP'' [''LS'', ''302'']]
          @ (if net_Pass net \<noteq> [] then [mk_msg ''PASS'' [net_Pass net]] else [])
          @ [mk_msg ''NICK'' [uc_nick uc],
             mk_msg ''USER'' [uc_username uc, ''0'', ''*'', uc_realname uc]], uc))"

section \<open>Capabilities\<close>

definition permanentUpstreamCaps :: "string list" where
  "permanentUpstreamCaps = [''account-notify'', ''account-tag'', ''away-notify'', ''batch'', ''chghost'',
     ''extended-join'', ''extended-monitor'', ''invite-notify'', ''labeled-response'', ''message-tags'',
     ''multi-prefix'', ''sasl'', ''server-time'', ''setname'', ''draft/account-registration'',
     ''draft/extended-monitor'', ''draft/message-redaction'']"

definition set_cap_available :: "unicode_tables \<Rightarrow> cap_registry \<Rightarrow> string \<Rightarrow> cap_registry" where
  "set_cap_available U cr s =
     (let kv = SplitN s CHR ''='' 2
      in cr\<lparr>Available := go_put (ToLower U (kv ! 0)) (if length kv = 2 then kv ! 1 else []) (Available cr)\<rparr>)"

definition handleSupportedCaps :: "unicode_tables \<Rightarrow> string \<Rightarrow> upstream_conn \<Rightarrow> upstream_conn" where
  "handleSupportedCaps U capsStr uc =
     uc\<lparr>uc_caps := foldl (set_cap_available U) (uc_caps uc) (Fields capsStr)\<rparr>"

definition requestCaps :: "upstream_conn \<Rightarrow> string list" where
  "requestCaps uc =
     filter (\<lambda>c. caps_IsAvailable (uc_caps uc) c \<and> \<not> caps_IsEnabled (uc_caps uc) c) permanentUpstreamCaps
     @ (let echoMessage = caps_IsAvailable (uc_caps uc) ''labeled-response''
        in if \<not> caps_IsEnabled (uc_caps uc) ''echo-message'' \<and> echoMessage then [''echo-message'']
           else if caps_IsEnabled (uc_caps uc) ''echo-message'' \<and> \<not> echoMessage then [''-echo-message'']
           else [])"

definition updateCaps :: "upstream_conn \<Rightarrow> irc_message list" where
  "updateCaps uc =
     (if requestCaps uc = [] then [] else [mk_msg ''CAP'' [''REQ'', Join (requestCaps uc) '' '']])"

definition supportsSASL :: "unicode_tables \<Rightarrow> upstream_conn \<Rightarrow> string \<Rightarrow> bool" where
  "supportsSASL U uc mech =
     (case go_get (Available (uc_caps uc)) ''sasl'' of
        None \<Rightarrow> False
      | Some v \<Rightarrow> if v = [] then True else list_ex (\<lambda>m. EqualFold U m mech) (Split v CHR '',''))"

definition requestSASL :: "unicode_tables \<Rightarrow> db_network \<Rightarrow> upstream_conn \<Rightarrow> bool" where
  "requestSASL U net uc =
     (if sasl_Mechanism (net_SASL net) = [] then False
      else supportsSASL U uc (sasl_Mechanism (net_SASL net)))"

datatype cap_error = UnsupportedMechanism | CapNeedMoreParams

definition handleCapAck ::
    "unicode_tables \<Rightarrow> db_network \<Rightarrow> string \<Rightarrow> bool \<Rightarrow> upstream_conn
     \<Rightarrow> cap_error option \<times> irc_message list \<times> upstream_conn" where
  "handleCapAck U net name ok uc =
     (let uc = uc\<lparr>uc_caps := caps_SetEnabled (uc_caps uc) name ok\<rparr> in
      if name = ''sasl'' then
        (if \<not> requestSASL U net uc then (None, [], uc)
         else if \<not> ok then (None, [], uc)
         else let auth = net_SASL net in
           if sasl_Mechanism auth = ''PLAIN'' then
             (None, [mk_msg ''AUTHENTICATE'' [sasl_Mechanism auth]],
              uc\<lparr>uc_saslClient := Some (SaslPlain (sasl_PlainUsername auth) (sasl_PlainPassword auth))\<rparr>)
           else if sasl_Mechanism auth = ''EXTERNAL'' then
             (None, [mk_msg ''AUTHENTICATE'' [sasl_Mechanism auth]], uc\<lparr>uc_saslClient := Some SaslExternal\<rparr>)
           else (Some UnsupportedMechanism, [], uc))
      else (None, [], uc))"

fun cap_ack_loop ::
    "unicode_tables \<Rightarrow> db_network \<Rightarrow> bool \<Rightarrow> string list \<Rightarrow> upstream_conn
     \<Rightarrow> cap_error option \<times> irc_message list \<times> upstream_conn" where
  "cap_ack_loop U net ack [] uc = (None, [], uc)"
| "cap_ack_loop U net ack (name # names) uc =
     (let (nm, enable) = (if HasPrefix name ''-'' then (tl name, False) else (name, ack)) in
      case handleCapAck U net (ToLower U nm) enable uc of
        (Some e, out, uc') \<Rightarrow> (Some e, out, uc')
      | (None, out, uc') \<Rightarrow>
          (case cap_ack_loop U net ack names uc' of (e, out', uc'') \<Rightarrow> (e, out @ out', uc'')))"

text \<open>The last component tells whether the supported capabilities of the downstream connections
  are refreshed.\<close>

definition handleCAP ::
    "unicode_tables \<Rightarrow> db_network \<Rightarrow> irc_message \<Rightarrow> upstream_conn
     \<Rightarrow> cap_error option \<times> irc_message list \<times> upstream_conn \<times> bool" where
  "handleCAP U net msg uc =
     (if length (Params msg) < 2 then (Some CapNeedMoreParams, [], uc, False)
      else
        let subCmd = ToUpper U (Params msg ! 1); subParams = drop 2 (Params msg) in
        if subCmd = ''LS'' then
          (if subParams = [] then (Some CapNeedMoreParams, [], uc, False)
           else
             let caps = last subParams;
                 more = (length subParams \<ge> 2 \<and> Params msg ! (length subParams - 2) = ''*'');
                 uc = handleSupportedCaps U caps uc
             in if more then (None, [], uc, False)
                else if requestSASL U net uc then (None, updateCaps uc, uc, False)
                else (None, updateCaps uc @ [mk_msg ''CAP'' [''END'']], uc, False))
        else if subCmd = ''ACK'' \<or> subCmd = ''NAK'' then
          (if subParams = [] then (Some CapNeedMoreParams, [], uc, False)
           else (case cap_ack_loop U net (subCmd = ''ACK'') (Fields (hd subParams)) uc of
               (Some e, out, uc') \<Rightarrow> (Some e, out, uc', False)
             | (None, out, uc') \<Rightarrow> (None, out, uc', uc_registered uc')))
        else if subCmd = ''NEW'' then
          (if subParams = [] then (Some CapNeedMoreParams, [], uc, False)
           else let uc = handleSupportedCaps U (hd subParams) uc in (None, updateCaps uc, uc, False))
        else if subCmd = ''DEL'' then
          (if subParams = [] then (Some CapNeedMoreParams, [], uc, False)
           else let uc = uc\<lparr>uc_caps := foldl caps_Del (uc_caps uc) (Fields (hd subParams))\<rparr>
                in (None, [], uc, uc_registered uc))
        else (None, [], uc, False))"

section \<open>ISUPPORT values\<close>

datatype isupport_error = MalformedChanModes | MalformedPrefix

definition put_modes :: "channel_mode_type \<Rightarrow> string \<Rightarrow> (char, channel_mode_type) gomap \<Rightarrow> (char, channel_mode_type) gomap" where
  "put_modes mt s modes = foldl (\<lambda>m c. go_put c mt m) modes s"

definition handleChanModes :: "string \<Rightarrow> upstream_conn \<Rightarrow> isupport_error + upstream_conn" where
  "handleChanModes s uc =
     (let parts = SplitN s CHR '','' 5 in
      if length parts < 4 then Inl MalformedChanModes
      else Inr (uc\<lparr>uc_availableChannelModes :=
        put_modes modeTypeD (parts ! 3) (put_modes modeTypeC (parts ! 2)
          (put_modes modeTypeB (parts ! 1) (put_modes modeTypeA (parts ! 0) [])))\<rparr>))"

definition handleMemberships :: "string \<Rightarrow> upstream_conn \<Rightarrow> isupport_error + upstream_conn" where
  "handleMemberships s uc =
     (if s = [] then Inr (uc\<lparr>uc_availableMemberships := []\<rparr>)
      else if s ! 0 \<noteq> CHR ''('' then Inl MalformedPrefix
      else (case IndexByte s CHR '')'' of
              None \<Rightarrow> Inl MalformedPrefix
            | Some sep \<Rightarrow>
                if length s \<noteq> sep * 2 then Inl MalformedPrefix
                else Inr (uc\<lparr>uc_availableMemberships :=
                  map (\<lambda>i. \<lparr>m_Mode = s ! (i + 1), m_Prefix = s ! (sep + i + 1)\<rparr>) [0..<length s div 2 - 1]\<rparr>)))"

section \<open>Capability names\<close>

lemma ToLower_lower:
  "list_all (\<lambda>c. (of_char c :: nat) < 128 \<and> \<not> (65 \<le> (of_char c :: nat) \<and> (of_char c :: nat) \<le> 90)) s
   \<Longrightarrow> ToLower U s = s"
proof (induction s)
  case (Cons c s)
  then show ?case by (auto simp: ToLower_def str_map_ascii_Cons rune_lower_def)
qed (simp add: ToLower_def)

definition cap_name :: "string \<Rightarrow> bool" where
  "cap_name w \<longleftrightarrow> plain_word IsSpace w
     \<and> list_all (\<lambda>c. (of_char c :: nat) < 128 \<and> \<not> (65 \<le> (of_char c :: nat) \<and> (of_char c :: nat) \<le> 90)) w"

lemma cap_names: "list_all cap_name permanentUpstreamCaps" "cap_name ''echo-message''" "cap_name ''-echo-message''"
  by (simp_all add: permanentUpstreamCaps_def cap_name_def plain_word_def IsSpace_def)

lemma requestCaps_names: "list_all cap_name (requestCaps uc)"
  using cap_names by (auto simp: requestCaps_def Let_def list_all_iff)

lemma permanent_no_dash: "list_all (\<lambda>c. \<not> HasPrefix c ''-'') permanentUpstreamCaps"
  by (simp add: permanentUpstreamCaps_def HasPrefix_def)

lemma requestCaps_dash: "c \<in> set (requestCaps uc) \<Longrightarrow> HasPrefix c ''-'' \<longleftrightarrow> c = ''-echo-message''"
  using permanent_no_dash
  by (auto simp: requestCaps_def Let_def list_all_iff HasPrefix_def split: if_splits)

section \<open>Acknowledgements\<close>

definition mechanism_known :: "db_network \<Rightarrow> bool" where
  "mechanism_known net \<longleftrightarrow> List.member [[], ''PLAIN'', ''EXTERNAL''] (sasl_Mechanism (net_SASL net))"

lemma handleCapAck_ok:
  assumes "mechanism_known net"
  shows "\<exists>out uc'. handleCapAck U net name ok uc = (None, out, uc')
    \<and> uc_caps uc' = caps_SetEnabled (uc_caps uc) name ok \<and> uc_registered uc' = uc_registered uc"
  using assms by (auto simp: handleCapAck_def Let_def mechanism_known_def requestSASL_def)

text \<open>The capability that an acknowledged name switches, and how.\<close>

definition ack_target :: "bool \<Rightarrow> string \<Rightarrow> string \<times> bool" where
  "ack_target ack name = (if HasPrefix name ''-'' then (tl name, False) else (name, ack))"

lemma cap_ack_loop_ok:
  assumes "mechanism_known net" and "list_all cap_name names"
    and "list_all (\<lambda>n. HasPrefix n ''-'' \<longrightarrow> cap_name (tl n)) names"
  shows "\<exists>out uc'. cap_ack_loop U net ack names uc = (None, out, uc')
    \<and> uc_caps uc' = foldl (\<lambda>cr n. caps_SetEnabled cr (fst (ack_target ack n)) (snd (ack_target ack n))) (uc_caps uc) names
    \<and> uc_registered uc' = uc_registered uc"
  using assms(2,3)
proof (induction names arbitrary: uc)
  case (Cons n names)
  let ?t = "ack_target ack n"
  have l: "ToLower U (fst ?t) = fst ?t"
    using Cons.prems by (simp add: ack_target_def cap_name_def ToLower_lower)
  obtain out1 uc1 where 1: "handleCapAck U net (fst ?t) (snd ?t) uc = (None, out1, uc1)"
    "uc_caps uc1 = caps_SetEnabled (uc_caps uc) (fst ?t) (snd ?t)" "uc_registered uc1 = uc_registered uc"
    using handleCapAck_ok [OF assms(1)] by blast
  obtain out2 uc2 where 2: "cap_ack_loop U net ack names uc1 = (None, out2, uc2)"
    "uc_caps uc2 = foldl (\<lambda>cr n. caps_SetEnabled cr (fst (ack_target ack n)) (snd (ack_target ack n))) (uc_caps uc1) names"
    "uc_registered uc2 = uc_registered uc1"
    using Cons.IH [of uc1] Cons.prems by auto
  have "cap_ack_loop U net ack (n # names) uc = (None, out1 @ out2, uc2)"
    using 1(1) 2(1) l by (cases "HasPrefix n ''-''") (simp_all add: ack_target_def)
  with 1(2,3) 2(2,3) show ?case by simp
qed simp

lemma SetEnabled_fold:
  "caps_IsAvailable (foldl (\<lambda>cr n. caps_SetEnabled cr (fst (ack_target ack n)) (snd (ack_target ack n))) cr names) c
     \<longleftrightarrow> caps_IsAvailable cr c"
  "list_all (\<lambda>n. fst (ack_target ack n) = c \<longrightarrow> snd (ack_target ack n) = b) names \<Longrightarrow>
   caps_IsEnabled (foldl (\<lambda>cr n. caps_SetEnabled cr (fst (ack_target ack n)) (snd (ack_target ack n))) cr names) c
     \<longleftrightarrow> (if \<exists>n\<in>set names. fst (ack_target ack n) = c then b else caps_IsEnabled cr c)"
  by (induction names arbitrary: cr) auto

section \<open>Memberships\<close>

definition format_prefix :: "membership list \<Rightarrow> string" where
  "format_prefix ms = (if ms = [] then [] else ''('' @ map m_Mode ms @ '')'' @ map m_Prefix ms)"

section \<open>Properties\<close>

lemma echo_tl: "HasPrefix ''-echo-message'' ''-''" "tl ''-echo-message'' = ''echo-message''"
  by (simp_all add: HasPrefix_def)

lemma ack_target_request:
  "c \<in> set (requestCaps uc) \<Longrightarrow>
   ack_target True c = (if c = ''-echo-message'' then (''echo-message'', False) else (c, True))"
  using requestCaps_dash [of c uc] echo_tl by (simp add: ack_target_def)

lemma requestCaps_mem:
  "c \<in> set (requestCaps uc) \<longleftrightarrow>
     (c \<in> set permanentUpstreamCaps \<and> caps_IsAvailable (uc_caps uc) c \<and> \<not> caps_IsEnabled (uc_caps uc) c)
     \<or> (c = ''echo-message'' \<and> \<not> caps_IsEnabled (uc_caps uc) ''echo-message'' \<and> caps_IsAvailable (uc_caps uc) ''labeled-response'')
     \<or> (c = ''-echo-message'' \<and> caps_IsEnabled (uc_caps uc) ''echo-message'' \<and> \<not> caps_IsAvailable (uc_caps uc) ''labeled-response'')"
  by (auto simp: requestCaps_def Let_def)

lemma echo_not_permanent: "''echo-message'' \<notin> set permanentUpstreamCaps" "''-echo-message'' \<notin> set permanentUpstreamCaps"
  by (simp_all add: permanentUpstreamCaps_def)

text \<open>The capabilities after the server has acknowledged a list of names.\<close>

abbreviation acked :: "cap_registry \<Rightarrow> string list \<Rightarrow> cap_registry" where
  "acked cr names \<equiv> foldl (\<lambda>cr n. caps_SetEnabled cr (fst (ack_target True n)) (snd (ack_target True n))) cr names"

lemma acked_echo:
  "caps_IsEnabled (acked (uc_caps uc) (requestCaps uc)) ''echo-message'' \<longleftrightarrow> caps_IsAvailable (uc_caps uc) ''labeled-response''"
proof -
  let ?rs = "requestCaps uc"
  have "list_all (\<lambda>n. fst (ack_target True n) = ''echo-message'' \<longrightarrow>
      snd (ack_target True n) = caps_IsAvailable (uc_caps uc) ''labeled-response'') ?rs"
    using echo_not_permanent by (auto simp: list_all_iff ack_target_request requestCaps_mem)
  note fold = SetEnabled_fold(2) [OF this, of "uc_caps uc"]
  have "fst (ack_target True m) = ''echo-message'' \<longleftrightarrow> m = ''echo-message'' \<or> m = ''-echo-message''"
    if "m \<in> set ?rs" for m using ack_target_request [OF that] by simp
  then have "(\<exists>m\<in>set ?rs. fst (ack_target True m) = ''echo-message'')
      \<longleftrightarrow> ''echo-message'' \<in> set ?rs \<or> ''-echo-message'' \<in> set ?rs"
    by blast
  also have "\<dots> \<longleftrightarrow> caps_IsEnabled (uc_caps uc) ''echo-message'' \<noteq> caps_IsAvailable (uc_caps uc) ''labeled-response''"
    using echo_not_permanent by (auto simp: requestCaps_mem)
  finally show ?thesis using fold by simp
qed

lemma acked_other:
  assumes "n \<noteq> ''echo-message''"
  shows "caps_IsEnabled (acked (uc_caps uc) (requestCaps uc)) n \<longleftrightarrow>
    caps_IsEnabled (uc_caps uc) n \<or> (n \<in> set permanentUpstreamCaps \<and> caps_IsAvailable (uc_caps uc) n)"
proof -
  let ?rs = "requestCaps uc"
  have "list_all (\<lambda>m. fst (ack_target True m) = n \<longrightarrow> snd (ack_target True m) = True) ?rs"
    using assms by (auto simp: list_all_iff ack_target_request)
  from SetEnabled_fold(2) [OF this, of "uc_caps uc"]
  have "caps_IsEnabled (acked (uc_caps uc) ?rs) n \<longleftrightarrow>
      (\<exists>m\<in>set ?rs. fst (ack_target True m) = n) \<or> caps_IsEnabled (uc_caps uc) n"
    by auto
  moreover have "(\<exists>m\<in>set ?rs. fst (ack_target True m) = n) \<longleftrightarrow> (\<exists>m\<in>set ?rs. m = n \<and> n \<noteq> ''-echo-message'')"
    using assms by (intro bex_cong refl) (auto simp: ack_target_request)
  ultimately show ?thesis using assms echo_not_permanent by (auto simp: requestCaps_mem)
qed

text \<open>Once what was requested is acknowledged there is nothing to request.\<close>

lemma acked_settled:
  assumes "uc_caps uc' = acked (uc_caps uc) (requestCaps uc)"
  shows "updateCaps uc' = []"
proof -
  have "caps_IsAvailable (uc_caps uc') n \<longleftrightarrow> caps_IsAvailable (uc_caps uc) n" for n
    unfolding assms by (rule SetEnabled_fold(1))
  then have "m \<notin> set (requestCaps uc')" for m
    using acked_other [of m uc] acked_echo [of uc] echo_not_permanent unfolding requestCaps_mem assms by auto
  then have "requestCaps uc' = []" by (cases "requestCaps uc'") auto
  then show ?thesis by (simp add: updateCaps_def)
qed

text \<open>C24. The negotiation of capabilities settles in one round: when the server acknowledges the
  capabilities the bouncer requested, the enabled ones are exactly the permanent capabilities that
  the server has, plus \<open>echo-message\<close> when labels tell the echoes apart, plus what was enabled
  before, and there is nothing left to request.\<close>

theorem capability_negotiation_settles:
  assumes "mechanism_known net"
  shows "\<exists>out uc' b. handleCAP U net (mk_msg ''CAP'' [nick, ''ACK'', Join (requestCaps uc) '' '']) uc = (None, out, uc', b)
    \<and> updateCaps uc' = []
    \<and> (caps_IsEnabled (uc_caps uc') c \<longleftrightarrow>
        (if c = ''echo-message'' then caps_IsAvailable (uc_caps uc) ''labeled-response''
         else caps_IsEnabled (uc_caps uc) c
           \<or> (c \<in> set permanentUpstreamCaps \<and> caps_IsAvailable (uc_caps uc) c)))"
proof -
  let ?rs = "requestCaps uc"
  have f: "Fields (Join ?rs '' '') = ?rs"
    using requestCaps_names [of uc] by (intro Fields_Join) (auto simp: list_all_iff cap_name_def)
  have d: "list_all (\<lambda>n. HasPrefix n ''-'' \<longrightarrow> cap_name (tl n)) ?rs"
    unfolding list_all_iff by (metis requestCaps_dash echo_tl(2) cap_names(2))
  obtain out uc' where r: "cap_ack_loop U net True ?rs uc = (None, out, uc')" "uc_caps uc' = acked (uc_caps uc) ?rs"
    using cap_ack_loop_ok [OF assms requestCaps_names d] by blast
  have "ToUpper U ''ACK'' = ''ACK''"
    by (simp add: ToUpper_def str_map_ascii_Cons rune_upper_def, code_simp)
  then have "handleCAP U net (mk_msg ''CAP'' [nick, ''ACK'', Join ?rs '' '']) uc = (None, out, uc', uc_registered uc')"
    using r(1) f by (simp add: handleCAP_def mk_msg_def Let_def)
  moreover have "updateCaps uc' = []" by (rule acked_settled [OF r(2)])
  ultimately show ?thesis using acked_echo [of uc] acked_other [of c uc] by (simp add: r(2))
qed

theorem capability_negotiation_settles_witness:
  "\<exists>out uc' b. handleCAP no_tables (NewNetwork ''irc.example.org'')
      (mk_msg ''CAP'' [''*'', ''ACK'', Join (requestCaps new_upstream_conn) '' '']) new_upstream_conn = (None, out, uc', b)
    \<and> updateCaps uc' = []
    \<and> (caps_IsEnabled (uc_caps uc') ''batch'' \<longleftrightarrow> caps_IsEnabled (uc_caps new_upstream_conn) ''batch''
         \<or> (''batch'' \<in> set permanentUpstreamCaps \<and> caps_IsAvailable (uc_caps new_upstream_conn) ''batch''))"
  using capability_negotiation_settles [of "NewNetwork ''irc.example.org''" no_tables "''*''" new_upstream_conn "''batch''"]
  by (simp add: mechanism_known_def NewNetwork_def no_sasl_def)

text \<open>The first line of a capability list in several lines is taken for the last one when the
  server addresses it to the nick instead of \<open>*\<close>: the code looks for the continuation mark in the
  wrong parameter, and ends the negotiation with \<open>CAP END\<close>.\<close>

theorem cap_ls_continuation:
  assumes "sasl_Mechanism (net_SASL net) = []"
  shows "handleCAP U net (mk_msg ''CAP'' [nick, ''LS'', ''*'', caps]) uc =
    (None, if nick = ''*'' then [] else updateCaps (handleSupportedCaps U caps uc) @ [mk_msg ''CAP'' [''END'']],
     handleSupportedCaps U caps uc, False)"
proof -
  have "ToUpper U ''LS'' = ''LS''"
    by (simp add: ToUpper_def str_map_ascii_Cons rune_upper_def, code_simp)
  then show ?thesis
    using assms by (simp add: handleCAP_def mk_msg_def Let_def requestSASL_def)
qed

theorem cap_ls_continuation_witness:
  "handleCAP no_tables (NewNetwork ''irc.example.org'') (mk_msg ''CAP'' [''alice'', ''LS'', ''*'', ''batch'']) new_upstream_conn =
    (None, updateCaps (handleSupportedCaps no_tables ''batch'' new_upstream_conn) @ [mk_msg ''CAP'' [''END'']],
     handleSupportedCaps no_tables ''batch'' new_upstream_conn, False)"
  using cap_ls_continuation [of "NewNetwork ''irc.example.org''" no_tables "''alice''" "''batch''" new_upstream_conn]
  by (simp add: NewNetwork_def no_sasl_def)

text \<open>A string of the right length with the parentheses in place is the format of what stands between and after them.\<close>

lemma prefix_format_nth:
  assumes "length s = 2 * n + 2" and "s ! 0 = CHR ''(''" and "s ! Suc n = CHR '')''"
  defines "ms \<equiv> map (\<lambda>i. \<lparr>m_Mode = s ! (i + 1), m_Prefix = s ! (Suc n + i + 1)\<rparr>) [0..<n]"
  shows "s = ''('' @ map m_Mode ms @ '')'' @ map m_Prefix ms"
proof (rule nth_equalityI)
  fix k
  assume k: "k < length s"
  consider "k = 0" | "k \<noteq> 0" "k < Suc n" | "k = Suc n" | "Suc n < k" by linarith
  then show "s ! k = (''('' @ map m_Mode ms @ '')'' @ map m_Prefix ms) ! k"
  proof cases
    case 2
    then obtain j where "k = Suc j" "j < n" by (cases k) auto
    then show ?thesis by (simp add: nth_append ms_def)
  next
    case 4
    define j where "j = k - Suc n - 1"
    have "k = Suc n + Suc j" "j < n" using 4 k assms(1) by (auto simp: j_def)
    then show ?thesis by (simp add: nth_append ms_def)
  qed (use assms in \<open>auto simp: nth_append\<close>)
qed (simp add: assms(1) ms_def)

text \<open>The \<open>PREFIX\<close> value of ISUPPORT: every list of memberships is read back from its formatted
  value, and a value is accepted only if it is the formatted value of the memberships it gives.\<close>

theorem handleMemberships_correct:
  assumes "CHR '')'' \<notin> m_Mode ` set ms"
  shows "handleMemberships (format_prefix ms) uc = Inr (uc\<lparr>uc_availableMemberships := ms\<rparr>)
    \<and> (handleMemberships s uc = Inr uc' \<longrightarrow> s \<in> {format_prefix (uc_availableMemberships uc'), ''()''})"
proof
  let ?n = "length ms" and ?s = "''('' @ map m_Mode ms @ '')'' @ map m_Prefix ms"
  have "IndexByte ?s CHR '')'' = Some (Suc ?n)"
    using assms IndexByte_append [of "CHR '')''" "CHR ''('' # map m_Mode ms" "map m_Prefix ms"] by simp
  moreover have "map (\<lambda>i. \<lparr>m_Mode = ?s ! (i + 1), m_Prefix = ?s ! (Suc ?n + i + 1)\<rparr>) [0..<?n] = ms"
    by (intro nth_equalityI) (auto simp: nth_append)
  ultimately show "handleMemberships (format_prefix ms) uc = Inr (uc\<lparr>uc_availableMemberships := ms\<rparr>)"
    by (simp add: handleMemberships_def format_prefix_def)
next
  show "handleMemberships s uc = Inr uc' \<longrightarrow> s \<in> {format_prefix (uc_availableMemberships uc'), ''()''}"
  proof
    assume h: "handleMemberships s uc = Inr uc'"
    show "s \<in> {format_prefix (uc_availableMemberships uc'), ''()''}"
    proof (cases s)
      case Nil
      with h show ?thesis by (auto simp: handleMemberships_def format_prefix_def)
    next
      case (Cons c t)
      with h obtain sep where sep: "c = CHR ''(''" "IndexByte s CHR '')'' = Some sep" "length s = sep * 2"
        and u: "uc' = uc\<lparr>uc_availableMemberships :=
          map (\<lambda>i. \<lparr>m_Mode = s ! (i + 1), m_Prefix = s ! (sep + i + 1)\<rparr>) [0..<length s div 2 - 1]\<rparr>"
        by (auto simp: handleMemberships_def split: if_splits option.splits)
      from IndexByte_Some [OF sep(2)] have i: "sep < length s" "s ! sep = CHR '')''" by auto
      then have "sep \<noteq> 0" using Cons sep(1) by (cases sep) auto
      then obtain n where n: "sep = Suc n" by (cases sep) auto
      let ?ms = "map (\<lambda>i. \<lparr>m_Mode = s ! (i + 1), m_Prefix = s ! (sep + i + 1)\<rparr>) [0..<n]"
      have len: "length s = 2 * n + 2" using sep(3) n by simp
      have "s = ''('' @ map m_Mode ?ms @ '')'' @ map m_Prefix ?ms"
        using prefix_format_nth [OF len] Cons sep(1) i(2) n by simp
      moreover have "uc_availableMemberships uc' = ?ms" using u n len by simp
      ultimately show ?thesis by (cases "n = 0") (auto simp: format_prefix_def)
    qed
  qed
qed

theorem handleMemberships_correct_witness:
  "handleMemberships (format_prefix stdMemberships) new_upstream_conn
     = Inr (new_upstream_conn\<lparr>uc_availableMemberships := stdMemberships\<rparr>)"
  using handleMemberships_correct [of stdMemberships new_upstream_conn] by (simp add: stdMemberships_def)

end
