(* ===== verification/Go_Time.thy ===== *)
theory Go_Time
  imports Prelude
begin

text \<open>
  Instants of Go's \<open>time\<close> package, as nanoseconds since 1970-01-01 in UTC, the civil calendar behind
  them, and \<open>Format\<close> and \<open>Parse\<close> for the server-time layout of \<^verbatim>\<open>src/xirc/xirc.go\<close>.  With
  \<open>parseChatHistoryBound\<close> of \<^verbatim>\<open>src/irc.go\<close>.
\<close>

section \<open>The civil calendar\<close>

text \<open>Years are cut into eras of 400 years that start on the first of March, so that the leap day is
  the last day of its year.\<close>

definition is_leap :: "int \<Rightarrow> bool" where
  "is_leap y \<longleftrightarrow> y mod 4 = 0 \<and> (y mod 100 \<noteq> 0 \<or> y mod 400 = 0)"

definition days_in :: "int \<Rightarrow> int \<Rightarrow> int" where
  "days_in m y = (if m = 2 then (if is_leap y then 29 else 28)
     else if m = 4 \<or> m = 6 \<or> m = 9 \<or> m = 11 then 30 else 31)"

text \<open>The day number of a date.\<close>

definition days_of_date :: "int \<Rightarrow> int \<Rightarrow> int \<Rightarrow> int" where
  "days_of_date y m d =
     (let y' = (if m \<le> 2 then y - 1 else y);
          mp = (if m > 2 then m - 3 else m + 9)
      in 365 * y' + y' div 4 - y' div 100 + y' div 400 + (153 * mp + 2) div 5 + d - 1 - 719468)"

text \<open>The date of a day number: the era, the century, the cycle of four years and the year are cut
  off in turn.\<close>

definition year_day :: "int \<Rightarrow> int \<times> int" where
  "year_day n =
     (let z = n + 719468;
          era = z div 146097; doe = z mod 146097;
          n100 = min 3 (doe div 36524); r = doe - n100 * 36524;
          n4 = r div 1461; r' = r mod 1461;
          n1 = min 3 (r' div 365)
      in (400 * era + 100 * n100 + 4 * n4 + n1, r' - n1 * 365))"

definition date_of_days :: "int \<Rightarrow> int \<times> int \<times> int" where
  "date_of_days n =
     (let (y, doy) = year_day n;
          mp = (5 * doy + 2) div 153;
          d = doy - (153 * mp + 2) div 5 + 1;
          m = (if mp < 10 then mp + 3 else mp - 9)
      in (if m \<le> 2 then y + 1 else y, m, d))"

lemma year_day_spec:
  assumes "year_day n = (y, doy)"
  shows "0 \<le> doy" "doy \<le> 365" "doy = 365 \<Longrightarrow> is_leap (y + 1)"
    "n + 719468 = 365 * y + y div 4 - y div 100 + y div 400 + doy"
proof -
  define z where "z = n + 719468"
  define era doe where "era = z div 146097" and "doe = z mod 146097"
  define n100 where "n100 = min 3 (doe div 36524)"
  define r where "r = doe - n100 * 36524"
  define n4 r' where "n4 = r div 1461" and "r' = r mod 1461"
  define n1 where "n1 = min 3 (r' div 365)"
  have y: "y = 400 * era + 100 * n100 + 4 * n4 + n1" and d: "doy = r' - n1 * 365"
    using assms unfolding year_day_def Let_def z_def [symmetric] era_def [symmetric] doe_def [symmetric]
      n100_def [symmetric] r_def [symmetric] n4_def [symmetric] r'_def [symmetric] n1_def [symmetric] by auto
  have doe: "0 \<le> doe" "doe < 146097" "z = 146097 * era + doe" by (auto simp: doe_def era_def)
  have "r = 36524 \<Longrightarrow> n100 = 3"
    unfolding n100_def r_def min_def by (cases "3 \<le> doe div 36524") (simp, presburger)
  with doe(1,2) have c: "0 \<le> n100" "n100 \<le> 3" "0 \<le> r" "r \<le> 36524" "r = 36524 \<Longrightarrow> n100 = 3"
    by (auto simp: n100_def r_def min_def)
  have q: "0 \<le> n4" "n4 \<le> 24" "0 \<le> r'" "r' < 1461" "r = 1461 * n4 + r'"
    using c by (auto simp: n4_def r'_def)
  have o: "0 \<le> n1" "n1 \<le> 3" using q by (auto simp: n1_def)
  have "doy = 365 \<Longrightarrow> n1 = 3"
    unfolding d n1_def min_def by (cases "3 \<le> r' div 365") (simp, presburger)
  with q(3,4) have dd: "0 \<le> doy" "doy \<le> 365" "doy = 365 \<Longrightarrow> n1 = 3 \<and> r' = 1460"
    by (auto simp: d n1_def min_def)
  show "0 \<le> doy" "doy \<le> 365" by (rule dd)+
  show "is_leap (y + 1)" if "doy = 365"
  proof -
    have n: "n1 = 3" "r' = 1460" using dd(3) [OF that] by auto
    have "n4 = 24 \<Longrightarrow> n100 = 3" using c(5) q(5) n(2) by auto
    moreover have e: "y + 1 = 4 * (n4 + 1) + 100 * (4 * era + n100)" by (simp add: y n(1))
    moreover have "(y + 1) mod 100 = 4 * (n4 + 1)" if "n4 \<noteq> 24"
      unfolding e using that q(1,2) by (simp only: mod_mult_self2) simp
    ultimately show ?thesis
      using q(1,2) by (cases "n4 = 24") (simp_all add: is_leap_def mod_add_eq, presburger?)
  qed
  have v: "y div 4 = 100 * era + 25 * n100 + n4" "y div 100 = 4 * era + n100" "y div 400 = era"
    using c(1,2) q(1,2) o by (simp_all add: y)
  show "n + 719468 = 365 * y + y div 4 - y div 100 + y div 400 + doy"
    unfolding z_def [symmetric] v using doe(3) q(5) by (simp add: y d r_def)
qed

lemma date_of_days_spec:
  assumes "date_of_days n = (y, m, d)"
  shows "1 \<le> m" "m \<le> 12" "1 \<le> d" "d \<le> days_in m y" "days_of_date y m d = n"
proof -
  obtain y' doy where yd: "year_day n = (y', doy)" by force
  note s = year_day_spec [OF yd]
  define mp where "mp = (5 * doy + 2) div 153"
  have mp: "0 \<le> mp" "mp \<le> 11" using s(1,2) by (auto simp: mp_def)
  have dm: "d = doy - (153 * mp + 2) div 5 + 1" "m = (if mp < 10 then mp + 3 else mp - 9)"
    "y = (if m \<le> 2 then y' + 1 else y')"
    using assms yd by (auto simp: date_of_days_def Let_def mp_def)
  show "1 \<le> m" "m \<le> 12" using mp dm(2) by auto
  show "1 \<le> d" using s(1) by (simp add: dm(1) mp_def)
  show "days_of_date y m d = n"
    using s(4) mp dm by (auto simp: days_of_date_def Let_def)
  have dl: "5 * doy + 2 < 153 * (mp + 1)" by (simp add: mp_def)
  have c: "mp = 0 \<or> mp = 1 \<or> mp = 2 \<or> mp = 3 \<or> mp = 4 \<or> mp = 5 \<or> mp = 6 \<or> mp = 7 \<or> mp = 8 \<or> mp = 9
    \<or> mp = 10 \<or> mp = 11" using mp by presburger
  show "d \<le> days_in m y"
  proof (cases "mp = 11")
    case True
    then have "m = 2" "y = y' + 1" "d = doy - 336" using dm by auto
    then show ?thesis using s(2,3) by (cases "doy = 365") (auto simp: days_in_def)
  next
    case False
    with c dl show ?thesis by (auto simp: dm(1,2) days_in_def)
  qed
qed

lemma year_days_bound:
  fixes y :: int
  shows "y \<le> - 1 \<Longrightarrow> 365 * y + y div 4 - y div 100 + y div 400 \<le> - 366"
    and "y \<le> - 2 \<Longrightarrow> 365 * y + y div 4 - y div 100 + y div 400 \<le> - 731"
    and "y \<ge> 9999 \<Longrightarrow> 365 * y + y div 4 - y div 100 + y div 400 \<ge> 3652059"
    and "y \<ge> 10000 \<Longrightarrow> 365 * y + y div 4 - y div 100 + y div 400 \<ge> 3652425"
proof -
  have q: "100 * (y div 100) \<le> y" "y - 99 \<le> 100 * (y div 100)" by presburger+
  show "365 * y + y div 4 - y div 100 + y div 400 \<le> - 366" if "y \<le> - 1"
    using q that zdiv_mono1 [OF that, of 4] zdiv_mono1 [OF that, of 400] by simp
  show "365 * y + y div 4 - y div 100 + y div 400 \<le> - 731" if "y \<le> - 2"
    using q that zdiv_mono1 [OF that, of 4] zdiv_mono1 [OF that, of 400] by simp
  show "365 * y + y div 4 - y div 100 + y div 400 \<ge> 3652059" if "y \<ge> 9999"
    using q that zdiv_mono1 [OF that, of 4] zdiv_mono1 [OF that, of 400] by simp
  show "365 * y + y div 4 - y div 100 + y div 400 \<ge> 3652425" if "y \<ge> 10000"
    using q that zdiv_mono1 [OF that, of 4] zdiv_mono1 [OF that, of 400] by simp
qed

lemma date_year_bound:
  assumes "date_of_days n = (y, m, d)"
  shows "days_of_date 0 1 1 \<le> n \<Longrightarrow> 0 \<le> y" and "n < days_of_date 10000 1 1 \<Longrightarrow> y < 10000"
proof -
  note s = date_of_days_spec [OF assms]
  define f :: "int \<Rightarrow> int" where "f = (\<lambda>y. 365 * y + y div 4 - y div 100 + y div 400)"
  have d: "d \<le> 31" using s(4) by (auto simp: days_in_def split: if_splits)
  have early: "n + 719468 = f (y - 1) + (if m = 1 then 306 else 337) + d - 1" if "m \<le> 2"
  proof -
    have "m = 1 \<or> m = 2" using that s(1) by presburger
    then show ?thesis using s(5) by (auto simp: days_of_date_def f_def Let_def)
  qed
  have late: "f y + d - 1 \<le> n + 719468" "n + 719468 \<le> f y + 275 + d - 1" if "m > 2"
  proof -
    have "0 \<le> (153 * (m - 3) + 2) div 5" using that by simp
    moreover have "(153 * (m - 3) + 2) div 5 \<le> 275"
      using zdiv_mono1 [of "153 * (m - 3) + 2" 1379 5] s(2) by simp
    ultimately have "0 \<le> (153 * (m - 3) + 2) div 5" "(153 * (m - 3) + 2) div 5 \<le> 275" .
    then show "f y + d - 1 \<le> n + 719468" "n + 719468 \<le> f y + 275 + d - 1"
      using s(5) that by (simp_all add: days_of_date_def f_def)
  qed
  show "0 \<le> y" if "days_of_date 0 1 1 \<le> n"
  proof (rule ccontr)
    assume y: "\<not> 0 \<le> y"
    have "- 60 \<le> n + 719468" using that by (simp add: days_of_date_def)
    then show False
      using year_days_bound(1) [of y] year_days_bound(2) [of "y - 1"] d y early late(2)
      by (cases "m \<le> 2") (simp_all add: f_def split: if_splits)
  qed
  show "y < 10000" if "n < days_of_date 10000 1 1"
  proof (rule ccontr)
    assume y: "\<not> y < 10000"
    have "n + 719468 < 3652365" using that by (simp add: days_of_date_def)
    then show False
      using year_days_bound(4) [of y] year_days_bound(3) [of "y - 1"] s(3) y early late(1)
      by (cases "m \<le> 2") (simp_all add: f_def split: if_splits)
  qed
qed

section \<open>Formatting\<close>

text \<open>\<open>appendInt\<close> of the package: a number padded with zeros to a width.\<close>

fun pad_nat :: "nat \<Rightarrow> nat \<Rightarrow> string" where
  "pad_nat 0 n = (if n = 0 then [] else show_nat n)"
| "pad_nat (Suc w) n = pad_nat w (n div 10) @ [digit_char (n mod 10)]"

definition appendInt :: "int \<Rightarrow> nat \<Rightarrow> string" where
  "appendInt x w = (if x < 0 then ''-'' else []) @ pad_nat w (nat \<bar>x\<bar>)"

definition day_ns :: int where "day_ns = 86400000000000"

text \<open>\<open>t.UTC().Format(ServerTimeLayout)\<close>; the layout is \<^verbatim>\<open>2006-01-02T15:04:05.000Z\<close>.\<close>

definition FormatServerTime :: "int \<Rightarrow> string" where
  "FormatServerTime t =
     (let (y, m, d) = date_of_days (t div day_ns);
          ms = (t mod day_ns) div 1000000
      in appendInt y 4 @ ''-'' @ appendInt m 2 @ ''-'' @ appendInt d 2 @ ''T''
         @ appendInt (ms div 3600000) 2 @ '':'' @ appendInt (ms div 60000 mod 60) 2 @ '':''
         @ appendInt (ms div 1000 mod 60) 2 @ ''.'' @ appendInt (ms mod 1000) 3 @ ''Z'')"

section \<open>Parsing\<close>

text \<open>\<open>getnum\<close> reads one or two digits, two when \<open>fixed\<close>.\<close>

fun getnum :: "bool \<Rightarrow> string \<Rightarrow> (int \<times> string) option" where
  "getnum fixed (a # b # s) =
     (if \<not> is_digit a then None
      else if is_digit b then Some (int (digit_val a * 10 + digit_val b), s)
      else if fixed then None else Some (int (digit_val a), b # s))"
| "getnum fixed [a] = (if is_digit a \<and> \<not> fixed then Some (int (digit_val a), []) else None)"
| "getnum fixed [] = None"

text \<open>\<open>atoi\<close> of the package takes a sign.\<close>

definition time_atoi :: "string \<Rightarrow> int option" where
  "time_atoi s =
     (let (neg, ds) = (if HasPrefix s ''-'' then (True, tl s) else if HasPrefix s ''+'' then (False, tl s) else (False, s))
      in if list_all is_digit ds then Some ((if neg then - 1 else 1) * int (parse_digits ds)) else None)"

definition skip_char :: "char \<Rightarrow> string \<Rightarrow> string option" where
  "skip_char c s = (case s of x # r \<Rightarrow> if x = c then Some r else None | [] \<Rightarrow> None)"

definition getyear :: "string \<Rightarrow> (int \<times> string) option" where
  "getyear s =
     (if length s < 4 \<or> \<not> is_digit (s ! 0) then None
      else map_option (\<lambda>y. (y, drop 4 s)) (time_atoi (take 4 s)))"

text \<open>Three digits of a fraction of a second, after a period or a comma.\<close>

definition getmillis :: "string \<Rightarrow> (int \<times> string) option" where
  "getmillis s =
     (if length s < 4 \<or> (s ! 0 \<noteq> CHR ''.'' \<and> s ! 0 \<noteq> CHR '','') then None
      else (case time_atoi (take 3 (tl s)) of
          None \<Rightarrow> None
        | Some ms \<Rightarrow> if ms < 0 then None else Some (ms, drop 4 s)))"

definition in_range :: "int \<Rightarrow> int \<Rightarrow> (int \<times> string) option \<Rightarrow> (int \<times> string) option" where
  "in_range lo hi r = (case r of None \<Rightarrow> None | Some (x, s) \<Rightarrow> if lo \<le> x \<and> x < hi then Some (x, s) else None)"

definition ParseServerTime :: "string \<Rightarrow> int option" where
  "ParseServerTime s =
     Option.bind (getyear s) (\<lambda>(y, s).
     Option.bind (skip_char CHR ''-'' s) (\<lambda>s.
     Option.bind (in_range 1 13 (getnum True s)) (\<lambda>(m, s).
     Option.bind (skip_char CHR ''-'' s) (\<lambda>s.
     Option.bind (getnum True s) (\<lambda>(d, s).
     Option.bind (skip_char CHR ''T'' s) (\<lambda>s.
     Option.bind (in_range 0 24 (getnum False s)) (\<lambda>(h, s).
     Option.bind (skip_char CHR '':'' s) (\<lambda>s.
     Option.bind (in_range 0 60 (getnum True s)) (\<lambda>(mi, s).
     Option.bind (skip_char CHR '':'' s) (\<lambda>s.
     Option.bind (in_range 0 60 (getnum True s)) (\<lambda>(sec, s).
     Option.bind (getmillis s) (\<lambda>(ms, s).
     Option.bind (skip_char CHR ''Z'' s) (\<lambda>s.
     if s = [] \<and> 1 \<le> d \<and> d \<le> days_in m y
     then Some (days_of_date y m d * day_ns + (((h * 60 + mi) * 60 + sec) * 1000 + ms) * 1000000)
     else None)))))))))))))"

text \<open>The zero time, the first of January of year 1.\<close>

definition zero_time :: int where
  "zero_time = days_of_date 1 1 1 * day_ns"

definition parseChatHistoryBound :: "string \<Rightarrow> int" where
  "parseChatHistoryBound param =
     (let parts = SplitN param CHR ''='' 2 in
      if length parts \<noteq> 2 then zero_time
      else if parts ! 0 = ''timestamp'' then
        (case ParseServerTime (parts ! 1) of None \<Rightarrow> zero_time | Some t \<Rightarrow> t)
      else zero_time)"

section \<open>Round trip\<close>

lemma pad_nat_digits: "list_all is_digit (pad_nat w n)"
  by (induction w arbitrary: n) (auto simp: show_nat_digits)

lemma pad_nat_length: "n < 10 ^ w \<Longrightarrow> length (pad_nat w n) = w"
  by (induction w arbitrary: n) auto

lemma pad_nat_value: "parse_digits (pad_nat w n) = n"
proof (induction w arbitrary: n)
  case (Suc w)
  have "parse_digits (pad_nat (Suc w) n) = parse_digits (pad_nat w (n div 10)) * 10 + n mod 10"
    by (simp add: parse_digits_def)
  then show ?case using Suc by simp
qed (simp add: parse_digits_def [of "[]"])

lemma appendInt_pos: "0 \<le> x \<Longrightarrow> appendInt x w = pad_nat w (nat x)"
  by (simp add: appendInt_def)

lemma getnum_append: "0 \<le> x \<Longrightarrow> x < 100 \<Longrightarrow> getnum fixed (appendInt x 2 @ s) = Some (x, s)"
  by (auto simp: appendInt_pos numeral_2_eq_2)

lemma skip_char_Cons [simp]: "skip_char c (c # s) = Some s"
  by (simp add: skip_char_def)

lemma time_atoi_pad: "time_atoi (pad_nat w n) = Some (int n)"
proof -
  have "\<not> HasPrefix (pad_nat w n) [c]" if "\<not> is_digit c" for c
    using pad_nat_digits [of w n] that by (auto simp: HasPrefix_single)
  then show ?thesis
    by (simp add: time_atoi_def pad_nat_digits pad_nat_value is_digit_def)
qed

lemma getyear_append: "0 \<le> y \<Longrightarrow> y < 10000 \<Longrightarrow> getyear (appendInt y 4 @ s) = Some (y, s)"
proof -
  assume y: "0 \<le> y" "y < 10000"
  then have l: "length (pad_nat 4 (nat y)) = 4" by (intro pad_nat_length) simp
  then have "is_digit (pad_nat 4 (nat y) ! 0)" using pad_nat_digits [of 4 "nat y"] by (auto simp: list_all_length)
  with y l show ?thesis by (simp add: getyear_def appendInt_pos nth_append time_atoi_pad)
qed

lemma getmillis_append: "0 \<le> x \<Longrightarrow> x < 1000 \<Longrightarrow> getmillis (CHR ''.'' # appendInt x 3 @ s) = Some (x, s)"
proof -
  assume x: "0 \<le> x" "x < 1000"
  then have "length (pad_nat 3 (nat x)) = 3" by (intro pad_nat_length) simp
  with x show ?thesis by (simp add: getmillis_def appendInt_pos time_atoi_pad)
qed

lemma days_in_bound: "days_in m y < 100"
  by (simp add: days_in_def)

lemma ParseServerTime_parts:
  assumes "0 \<le> y" "y < 10000" "1 \<le> m" "m \<le> 12" "1 \<le> d" "d \<le> days_in m y"
    and "0 \<le> h" "h < 24" "0 \<le> mi" "mi < 60" "0 \<le> sec" "sec < 60" "0 \<le> ms" "ms < 1000"
  shows "ParseServerTime (appendInt y 4 @ ''-'' @ appendInt m 2 @ ''-'' @ appendInt d 2 @ ''T'' @ appendInt h 2 @ '':''
      @ appendInt mi 2 @ '':'' @ appendInt sec 2 @ ''.'' @ appendInt ms 3 @ ''Z'')
    = Some (days_of_date y m d * day_ns + (((h * 60 + mi) * 60 + sec) * 1000 + ms) * 1000000)"
proof -
  have "d < 100" using assms(6) days_in_bound [of m y] by simp
  with assms show ?thesis
    by (simp add: ParseServerTime_def getyear_append getnum_append getmillis_append in_range_def del: append.assoc)
qed

text \<open>C28. Times survive the server-time tag up to the millisecond: parsing a formatted time gives it
  back truncated to milliseconds, for every instant of the years 0 to 9999.\<close>

theorem server_time_roundtrip:
  assumes "days_of_date 0 1 1 * day_ns \<le> t" and "t < days_of_date 10000 1 1 * day_ns"
  shows "ParseServerTime (FormatServerTime t) = Some (t - t mod 1000000)"
proof -
  obtain y m d where date: "date_of_days (t div day_ns) = (y, m, d)" by (metis prod_cases3)
  note s = date_of_days_spec [OF date]
  have "days_of_date 0 1 1 \<le> t div day_ns"
    using zdiv_mono1 [OF assms(1), of day_ns] by (simp add: day_ns_def)
  moreover have "t div day_ns < days_of_date 10000 1 1"
    using assms(2) div_mult_mod_eq [of t day_ns] pos_mod_sign [of day_ns t]
    by (auto simp: day_ns_def)
  ultimately have "days_of_date 0 1 1 \<le> t div day_ns" "t div day_ns < days_of_date 10000 1 1" .
  then have y: "0 \<le> y" "y < 10000" using date_year_bound [OF date] by auto
  define ms where "ms = (t mod day_ns) div 1000000"
  have ms: "0 \<le> ms" "ms < 86400000" by (auto simp: ms_def day_ns_def)
  have "ms div 60000 div 60 = ms div 3600000" "ms div 1000 div 60 = ms div 60000"
    using zdiv_zmult2_eq [of 60 ms 60000] zdiv_zmult2_eq [of 60 ms 1000] by simp_all
  moreover have "ms div 3600000 < 24" using zdiv_mono1 [of ms 86399999 3600000] ms by simp
  ultimately have parts: "ms div 3600000 < 24"
    "((ms div 3600000 * 60 + ms div 60000 mod 60) * 60 + ms div 1000 mod 60) * 1000 + ms mod 1000 = ms"
    using ms div_mult_mod_eq [of "ms div 60000" 60] div_mult_mod_eq [of "ms div 1000" 60] div_mult_mod_eq [of ms 1000]
    by simp_all
  have t: "t - t mod 1000000 = t div day_ns * day_ns + ms * 1000000"
  proof -
    have "t mod day_ns mod 1000000 = t mod 1000000"
      unfolding day_ns_def by (rule mod_mod_cancel) simp
    then have "ms * 1000000 = t mod day_ns - t mod 1000000"
      using div_mult_mod_eq [of "t mod day_ns" 1000000] by (simp add: ms_def)
    then show ?thesis using div_mult_mod_eq [of t day_ns] by linarith
  qed
  have "ParseServerTime (FormatServerTime t) = Some (days_of_date y m d * day_ns
      + (((ms div 3600000 * 60 + ms div 60000 mod 60) * 60 + ms div 1000 mod 60) * 1000 + ms mod 1000) * 1000000)"
    unfolding FormatServerTime_def Let_def date prod.case ms_def [symmetric]
    by (rule ParseServerTime_parts) (use s y ms parts(1) in simp_all)
  then show ?thesis by (simp only: parts(2) s(5) t)
qed

theorem server_time_roundtrip_witness:
  "ParseServerTime (FormatServerTime 1700000000123456789) = Some (1700000000123456789 - 1700000000123456789 mod 1000000)"
  by (rule server_time_roundtrip) (simp_all add: days_of_date_def day_ns_def)

section \<open>The range of parsed times\<close>

lemma year_days_range:
  fixes y :: int
  shows "y \<ge> - 1 \<Longrightarrow> 365 * y + y div 4 - y div 100 + y div 400 \<ge> - 366"
    and "y \<ge> 0 \<Longrightarrow> 365 * y + y div 4 - y div 100 + y div 400 \<ge> 0"
    and "y \<le> 9999 \<Longrightarrow> 365 * y + y div 4 - y div 100 + y div 400 \<le> 3652059"
    and "y \<le> 9998 \<Longrightarrow> 365 * y + y div 4 - y div 100 + y div 400 \<le> 3651694"
proof -
  have q: "100 * (y div 100) \<le> y" "y - 99 \<le> 100 * (y div 100)" by presburger+
  show "365 * y + y div 4 - y div 100 + y div 400 \<ge> - 366" if "y \<ge> - 1"
    using q that zdiv_mono1 [OF that, of 4] zdiv_mono1 [OF that, of 400] by simp
  show "365 * y + y div 4 - y div 100 + y div 400 \<ge> 0" if "y \<ge> 0"
    using q that zdiv_mono1 [OF that, of 4] zdiv_mono1 [OF that, of 400] by simp
  show "365 * y + y div 4 - y div 100 + y div 400 \<le> 3652059" if "y \<le> 9999"
    using q that zdiv_mono1 [OF that, of 4] zdiv_mono1 [OF that, of 400] by simp
  show "365 * y + y div 4 - y div 100 + y div 400 \<le> 3651694" if "y \<le> 9998"
    using q that zdiv_mono1 [OF that, of 4] zdiv_mono1 [OF that, of 400] by simp
qed

lemma days_of_date_range:
  assumes "0 \<le> y" "y \<le> 9999" "1 \<le> m" "m \<le> 12" "1 \<le> d" "d \<le> days_in m y"
  shows "days_of_date 0 1 1 \<le> days_of_date y m d" "days_of_date y m d < days_of_date 10000 1 1"
proof -
  define f :: "int \<Rightarrow> int" where "f = (\<lambda>y. 365 * y + y div 4 - y div 100 + y div 400)"
  have d: "d \<le> 31" using assms(6) by (auto simp: days_in_def split: if_splits)
  have e: "days_of_date 0 1 1 = - 719528" "days_of_date 10000 1 1 = 2932897" by (simp_all add: days_of_date_def)
  have "- 719528 \<le> days_of_date y m d \<and> days_of_date y m d < 2932897"
  proof (cases "m \<le> 2")
    case True
    then have "m = 1 \<or> m = 2" using assms(3) by presburger
    then have "days_of_date y m d = f (y - 1) + (if m = 1 then 306 else 337) + d - 1 - 719468"
      by (auto simp: days_of_date_def f_def Let_def)
    moreover have "- 366 \<le> f (y - 1)" "f (y - 1) \<le> 3651694"
      using year_days_range(1) [of "y - 1"] year_days_range(4) [of "y - 1"] assms(1,2) by (simp_all add: f_def)
    ultimately show ?thesis using assms(5) d by (simp split: if_splits)
  next
    case False
    have "0 \<le> (153 * (m - 3) + 2) div 5" using False by simp
    moreover have "(153 * (m - 3) + 2) div 5 \<le> 275"
      using zdiv_mono1 [of "153 * (m - 3) + 2" 1379 5] assms(4) by simp
    moreover have "days_of_date y m d = f y + (153 * (m - 3) + 2) div 5 + d - 1 - 719468"
      using False by (simp add: days_of_date_def f_def)
    moreover have "0 \<le> f y" "f y \<le> 3652059"
      using year_days_range(2,3) [of y] assms(1,2) by (simp_all add: f_def)
    ultimately show ?thesis using assms(5) d by linarith
  qed
  then show "days_of_date 0 1 1 \<le> days_of_date y m d" "days_of_date y m d < days_of_date 10000 1 1"
    by (simp_all add: e)
qed

lemma parse_digits_bound: "list_all is_digit s \<Longrightarrow> parse_digits s < 10 ^ length s"
proof (induction s rule: rev_induct)
  case (snoc c s)
  then have "parse_digits s < 10 ^ length s" "digit_val c \<le> 9" by (auto simp: is_digit_def digit_val_def)
  moreover have "parse_digits (s @ [c]) = parse_digits s * 10 + digit_val c" by (simp add: parse_digits_def)
  ultimately show ?case by simp
qed (simp add: parse_digits_def)

lemma time_atoi_bound:
  assumes "time_atoi s = Some x"
  shows "x < 10 ^ length s"
proof -
  have *: "int (parse_digits ds) < 10 ^ length ds" if "list_all is_digit ds" for ds
    using parse_digits_bound [OF that] by (metis of_nat_less_iff of_nat_numeral of_nat_power)
  have mono: "(10::int) ^ length (tl s) \<le> 10 ^ length s" by (rule power_increasing) simp_all
  have "0 < (10::int) ^ length s" by simp
  moreover have "x = int (parse_digits s) \<and> list_all is_digit s
      \<or> x = int (parse_digits (tl s)) \<and> list_all is_digit (tl s) \<or> x \<le> 0"
    using assms by (auto simp: time_atoi_def Let_def split: if_splits)
  ultimately show ?thesis using * [of "tl s"] * [of s] mono by linarith
qed

lemma getyear_range: "getyear s = Some (y, r) \<Longrightarrow> 0 \<le> y \<and> y \<le> 9999"
proof -
  assume a: "getyear s = Some (y, r)"
  then have l: "length s \<ge> 4" "is_digit (s ! 0)" and t: "time_atoi (take 4 s) = Some y"
    by (auto simp: getyear_def split: if_splits)
  have "\<not> HasPrefix (take 4 s) ''-''"
  proof
    assume "HasPrefix (take 4 s) ''-''"
    then obtain q where "take 4 s = CHR ''-'' # q" by (auto simp: HasPrefix_single)
    then have "s ! 0 = CHR ''-''" by (metis nth_Cons_0 nth_take zero_less_numeral)
    with l(2) show False by (simp add: is_digit_def)
  qed
  with t have "0 \<le> y" by (auto simp: time_atoi_def Let_def split: if_splits)
  with time_atoi_bound [OF t] l(1) show "0 \<le> y \<and> y \<le> 9999" by simp
qed

lemma getmillis_range: "getmillis s = Some (x, r) \<Longrightarrow> 0 \<le> x \<and> x < 1000"
  using time_atoi_bound [of "take 3 (tl s)" x]
  by (auto simp: getmillis_def split: if_splits option.splits)

lemma ParseServerTime_range:
  assumes "ParseServerTime s = Some t"
  shows "days_of_date 0 1 1 * day_ns \<le> t" "t < days_of_date 10000 1 1 * day_ns"
proof -
  from assms obtain y m d h mi sec ms r where t: "t = days_of_date y m d * day_ns + (((h * 60 + mi) * 60 + sec) * 1000 + ms) * 1000000"
    and y: "0 \<le> y" "y \<le> 9999" and m: "1 \<le> m" "m \<le> 12" and d: "1 \<le> d" "d \<le> days_in m y"
    and h: "0 \<le> h" "h < 24" "0 \<le> mi" "mi < 60" "0 \<le> sec" "sec < 60" "0 \<le> ms" "ms < 1000"
    unfolding ParseServerTime_def
    by (auto simp: bind_eq_Some_conv in_range_def split: option.splits if_splits prod.splits
        dest!: getyear_range getmillis_range)
  define n where "n = ((h * 60 + mi) * 60 + sec) * 1000 + ms"
  have n: "0 \<le> n" "n < 86400000" using h by (auto simp: n_def)
  note r = days_of_date_range [OF y m d]
  show "days_of_date 0 1 1 * day_ns \<le> t" "t < days_of_date 10000 1 1 * day_ns"
    using r n unfolding t n_def [symmetric] day_ns_def by linarith+
qed

end
