(* ===== verification/Upstream_State.thy ===== *)
theory Upstream_State
  imports Upstream_Caps Genmsg Highlight Go_Time
begin

text \<open>
  The state that the messages of an upstream server change and the helpers of \<^verbatim>\<open>src/upstream.go\<close>
  that the handlers share: the cache of user information, auto-detach timers, the message log
  with delivery receipts, \<open>produce\<close>, automatic away, \<open>MONITOR\<close> and the attempts to regain the desired
  nick; and the delivery receipts of \<^verbatim>\<open>src/user.go\<close>.

  A step works on the connection and its network; what it asks of the rest of the program is a
  list of actions, in the order of the calls.
\<close>

datatype up_action =
    ASend irc_message
  | AAppend string irc_message
  | ASendWithID "64 word" irc_message string
  | AAdvanceWithID "64 word" irc_message string
  | ADown "64 word" irc_message
  | AUpdateNick "64 word"
  | AUpdateHost "64 word"
  | AUpdateRealname "64 word"
  | AUpdateAccount "64 word"
  | AUpdateSupportedCaps "64 word"
  | AUpdateIsupport "64 word"
  | AUpdateCasemapping "64 word"
  | AForwardChannel "64 word" string
  | ABacklog "64 word" string string
  | ARelayDetached "64 word" irc_message
  | AEndSASL "64 word" irc_message
  | AStoreNetwork db_network
  | AStoreChannel db_channel
  | ALabel "64 word" string string
  | AClearLabel "64 word"
  | AFlushBatch "64 word"
  | APushLater string int irc_message
  | APush irc_message

text \<open>A network with its connection.  \<open>us_current\<close> tells whether the network's \<open>conn\<close> field holds the
  connection: it is nil while the connection registers and after it is lost.  \<open>us_orphanTimers\<close>
  holds the channel names of the auto-detach timers that still run although their channel object is
  no longer reachable from the connection.\<close>

record up_state =
  us_uc :: upstream_conn
  us_net :: network
  us_current :: bool
  us_orphanTimers :: "string list"

text \<open>What a step reads and does not change: the user's record, the connections of the user's
  clients, the clock, the answers of the message store, \<open>None\<close> for an error, whether a message target
  is muted and blocked, \<open>None\<close> when the database has no such target, the prefix parser of the IRC
  library, the client side of the SASL library, \<open>None\<close> for an error, and the server's prefix.\<close>

record up_env =
  e_user :: db_user
  e_msgStore :: msg_store_kind
  e_dcs :: "downstream_conn list"
  e_now :: int
  e_jitter :: int
  e_lastMsgID :: "string \<Rightarrow> string option"
  e_append :: "string \<Rightarrow> irc_message \<Rightarrow> string option"
  e_parsePrefix :: "string \<Rightarrow> irc_prefix"
  e_unicode :: unicode_tables
  e_messageTarget :: "string \<Rightarrow> (bool \<times> bool) option"
  e_saslStart :: "sasl_client \<Rightarrow> string option"
  e_saslNext :: "sasl_client \<Rightarrow> string \<Rightarrow> string option"
  e_srvPrefix :: irc_prefix

definition net_dcs :: "up_env \<Rightarrow> network \<Rightarrow> downstream_conn list" where
  "net_dcs env net = filter (\<lambda>dc. dc_network dc = Some (n_ref net)) (e_dcs env)"

definition dcs_by_id :: "up_env \<Rightarrow> network \<Rightarrow> 64 word \<Rightarrow> downstream_conn list" where
  "dcs_by_id env net did = filter (\<lambda>dc. did = 0 \<or> did = dc_id dc) (net_dcs env net)"

definition forwardMessage :: "up_env \<Rightarrow> network \<Rightarrow> irc_message \<Rightarrow> up_action list" where
  "forwardMessage env net msg = map (\<lambda>dc. ADown (dc_id dc) msg) (net_dcs env net)"

definition forwardMsgByID :: "up_env \<Rightarrow> network \<Rightarrow> 64 word \<Rightarrow> irc_message \<Rightarrow> up_action list" where
  "forwardMsgByID env net did msg = map (\<lambda>dc. ADown (dc_id dc) msg) (dcs_by_id env net did)"

definition equalCasemap :: "network \<Rightarrow> string \<Rightarrow> string \<Rightarrow> bool" where
  "equalCasemap net a b \<longleftrightarrow> n_casemap net a = n_casemap net b"

definition isOurNick :: "up_state \<Rightarrow> string \<Rightarrow> bool" where
  "isOurNick st nick \<longleftrightarrow> equalCasemap (us_net st) (uc_nick (us_uc st)) nick"

definition isChannel :: "upstream_conn \<Rightarrow> string \<Rightarrow> bool" where
  "isChannel uc entity \<longleftrightarrow> entity \<noteq> [] \<and> List.member (runes (uc_availableChannelTypes uc)) (of_char (entity ! 0))"

definition wantNick :: "up_env \<Rightarrow> network \<Rightarrow> string" where
  "wantNick env net = GetNick (e_user env) (Some (n_record net))"

section \<open>Delivery receipts\<close>

definition newDeliveredStore :: "(string \<Rightarrow> string) \<Rightarrow> delivered_store" where
  "newDeliveredStore cm = NewCaseMappingMap cm"

definition ds_Empty :: "delivered_store \<Rightarrow> bool" where
  "ds_Empty ds \<longleftrightarrow> cmm_Len ds = 0"

definition ds_HasTarget :: "delivered_store \<Rightarrow> string \<Rightarrow> bool" where
  "ds_HasTarget ds target \<longleftrightarrow> cmm_Get ds target \<noteq> None"

definition ds_LoadID :: "delivered_store \<Rightarrow> string \<Rightarrow> string \<Rightarrow> string" where
  "ds_LoadID ds target client =
     (case cmm_Get ds target of
        None \<Rightarrow> []
      | Some clients \<Rightarrow> (case go_get clients client of None \<Rightarrow> [] | Some i \<Rightarrow> i))"

definition ds_StoreID :: "delivered_store \<Rightarrow> string \<Rightarrow> string \<Rightarrow> string \<Rightarrow> delivered_store" where
  "ds_StoreID ds target client msgID =
     (let clients = (case cmm_Get ds target of None \<Rightarrow> [] | Some c \<Rightarrow> c)
      in cmm_Set ds target (go_put client msgID clients))"

definition ds_ForEachTarget :: "delivered_store \<Rightarrow> string list" where
  "ds_ForEachTarget ds = map fst (cmm_ForEach ds)"

definition ds_ForEachClient :: "delivered_store \<Rightarrow> string list" where
  "ds_ForEachClient ds = remdups (concat (map (\<lambda>(_, delivered). map fst delivered) (cmm_ForEach ds)))"

text \<open>The receipts that \<open>storeClientDeliveryReceipts\<close> writes, \<open>None\<close> when the message store is not
  persistent.\<close>

definition storeClientDeliveryReceipts :: "msg_store_kind \<Rightarrow> network \<Rightarrow> string \<Rightarrow> delivery_receipt list option" where
  "storeClientDeliveryReceipts store net client =
     (if store = NoStore \<or> store = MemoryStore then None
      else Some (map (\<lambda>target. \<lparr>rcpt_Target = target, rcpt_Client = client,
                     rcpt_InternalMsgID = ds_LoadID (n_delivered net) target client\<rparr>)
             (filter (\<lambda>target. ds_LoadID (n_delivered net) target client \<noteq> [])
               (ds_ForEachTarget (n_delivered net)))))"

section \<open>Cached user information\<close>

definition has_whox_field :: "upstream_user \<Rightarrow> char \<Rightarrow> bool" where
  "has_whox_field uu k \<longleftrightarrow>
     (if k = CHR ''n'' then uu_Nickname uu \<noteq> []
      else if k = CHR ''u'' then uu_Username uu \<noteq> []
      else if k = CHR ''h'' then uu_Hostname uu \<noteq> []
      else if k = CHR ''s'' then uu_Server uu \<noteq> []
      else if k = CHR ''f'' then uu_Flags uu \<noteq> []
      else if k = CHR ''a'' then uu_Account uu \<noteq> []
      else if k = CHR ''r'' then uu_Realname uu \<noteq> []
      else List.member ''tcidlo'' k)"

definition hasWHOXFields :: "upstream_user \<Rightarrow> string \<Rightarrow> bool" where
  "hasWHOXFields uu flds \<longleftrightarrow> list_all (has_whox_field uu) flds"

definition updateFrom :: "upstream_user \<Rightarrow> upstream_user \<Rightarrow> upstream_user" where
  "updateFrom uu upd = \<lparr>
     uu_Nickname = (if uu_Nickname upd \<noteq> [] then uu_Nickname upd else uu_Nickname uu),
     uu_Username = (if uu_Username upd \<noteq> [] then uu_Username upd else uu_Username uu),
     uu_Hostname = (if uu_Hostname upd \<noteq> [] then uu_Hostname upd else uu_Hostname uu),
     uu_Server = (if uu_Server upd \<noteq> [] then uu_Server upd else uu_Server uu),
     uu_Flags = (if uu_Flags upd \<noteq> [] then uu_Flags upd else uu_Flags uu),
     uu_Account = (if uu_Account upd \<noteq> [] then uu_Account upd else uu_Account uu),
     uu_Realname = (if uu_Realname upd \<noteq> [] then uu_Realname upd else uu_Realname uu)\<rparr>"

definition no_info :: upstream_user where
  "no_info = \<lparr>uu_Nickname = [], uu_Username = [], uu_Hostname = [], uu_Server = [], uu_Flags = [],
     uu_Account = [], uu_Realname = []\<rparr>"

text \<open>\<open>None\<close> is the panic on an empty nick.\<close>

definition cache_user ::
    "string \<Rightarrow> upstream_user \<Rightarrow> upstream_user case_mapping_map \<Rightarrow> upstream_user case_mapping_map option" where
  "cache_user nick info users =
     (if nick = [] then None
      else Some (case cmm_Get users nick of
          None \<Rightarrow>
            let info = (if uu_Nickname info \<noteq> [] then info else info\<lparr>uu_Nickname := nick\<rparr>)
            in cmm_Set users (uu_Nickname info) info
        | Some uu \<Rightarrow>
            let uu' = updateFrom uu info
            in if uu_Nickname info \<noteq> [] \<and> nick \<noteq> uu_Nickname info
               then cmm_Set (cmm_Del users nick) (uu_Nickname uu') uu'
               else cmm_Set users nick uu'))"

definition cacheUserInfo :: "string \<Rightarrow> upstream_user \<Rightarrow> up_state \<Rightarrow> up_state option" where
  "cacheUserInfo nick info st =
     map_option (\<lambda>users. st\<lparr>us_uc := (us_uc st)\<lparr>uc_users := users\<rparr>\<rparr>) (cache_user nick info (uc_users (us_uc st)))"

definition shouldCacheUserInfo :: "up_state \<Rightarrow> string \<Rightarrow> bool" where
  "shouldCacheUserInfo st nick \<longleftrightarrow>
     isOurNick st nick \<or> cmm_Has (uc_monitored (us_uc st)) nick
     \<or> list_ex (\<lambda>(_, ch). cmm_Has (uch_Members ch) nick) (cmm_ForEach (uc_channels (us_uc st)))"

definition forget_user :: "string \<Rightarrow> up_state \<Rightarrow> up_state" where
  "forget_user nick st =
     (if shouldCacheUserInfo st nick then st
      else st\<lparr>us_uc := (us_uc st)\<lparr>uc_users := cmm_Del (uc_users (us_uc st)) nick\<rparr>\<rparr>)"

definition cached_who_fields :: "string \<Rightarrow> string" where
  "cached_who_fields flds = (if flds = [] then ''cuhsnfdr'' else flds)"

definition getCachedWHO :: "upstream_conn \<Rightarrow> string \<Rightarrow> string \<Rightarrow> upstream_user list option" where
  "getCachedWHO uc msk flds =
     (let flds = cached_who_fields flds in
      if List.member flds CHR ''a'' \<and> \<not> caps_IsEnabled (uc_caps uc) ''account-notify'' then None
      else if List.member flds CHR ''f'' \<and> \<not> caps_IsEnabled (uc_caps uc) ''away-notify'' then None
      else (case cmm_Get (uc_users uc) msk of
          Some uu \<Rightarrow> if hasWHOXFields uu flds then Some [uu] else None
        | None \<Rightarrow>
            (case cmm_Get (uc_channels uc) msk of
               None \<Rightarrow> None
             | Some uch \<Rightarrow>
                 if list_all (\<lambda>(nick, _). case cmm_Get (uc_users uc) nick of
                      None \<Rightarrow> False | Some uu \<Rightarrow> hasWHOXFields uu flds) (cmm_ForEach (uch_Members uch))
                 then Some (map (\<lambda>(nick, _). the (cmm_Get (uc_users uc) nick)) (cmm_ForEach (uch_Members uch)))
                 else None)))"

section \<open>Auto-detach timers\<close>

definition updateAutoDetach :: "int \<Rightarrow> upstream_channel \<Rightarrow> upstream_channel" where
  "updateAutoDetach dur uch = uch\<lparr>uch_detachTimer := (if dur = 0 then None else Some dur)\<rparr>"

definition updateChannelAutoDetach :: "string \<Rightarrow> up_state \<Rightarrow> up_state" where
  "updateChannelAutoDetach name st =
     (case cmm_Get (uc_channels (us_uc st)) name of
        None \<Rightarrow> st
      | Some uch \<Rightarrow>
          (case cmm_Get (n_channels (us_net st)) name of
             None \<Rightarrow> st
           | Some ch \<Rightarrow>
               if ch_Detached ch then st
               else st\<lparr>us_uc := (us_uc st)\<lparr>uc_channels :=
                      cmm_Set (uc_channels (us_uc st)) name (updateAutoDetach (ch_DetachAfter ch) uch)\<rparr>\<rparr>))"

section \<open>The message log\<close>

definition storableMessageTags :: "string list" where
  "storableMessageTags = [''+draft/react'', ''+react'', ''+draft/unreact'', ''+unreact'']"

text \<open>The identifier of the logged message, empty when it is not logged.\<close>

definition appendLog :: "up_env \<Rightarrow> string \<Rightarrow> irc_message \<Rightarrow> up_state \<Rightarrow> string \<times> up_action list \<times> up_state" where
  "appendLog env entity msg st =
     (let net = us_net st; entityCM = n_casemap net entity in
      if e_msgStore env = NoStore then ([], [], st)
      else if Command msg = ''TAGMSG'' \<and> \<not> list_ex (\<lambda>(tag, _). List.member storableMessageTags tag) (Tags msg)
      then ([], [], st)
      else if HasPrefix entity ''$'' then ([], [], st)
      else if entityCM = ''nickserv'' then ([], [], st)
      else
        let first = (\<not> ds_Empty (n_delivered net) \<and> \<not> ds_HasTarget (n_delivered net) entity) in
        if first \<and> e_lastMsgID env entityCM = None then ([], [], st)
        else
          let st = (if first then
                 st\<lparr>us_net := net\<lparr>n_delivered := foldl (\<lambda>ds client. ds_StoreID ds entity client (the (e_lastMsgID env entityCM)))
                    (n_delivered net) (ds_ForEachClient (n_delivered net))\<rparr>\<rparr>
               else st)
          in (case e_append env entityCM msg of
                None \<Rightarrow> ([], [AAppend entityCM msg], st)
              | Some msgID \<Rightarrow> (msgID, [AAppend entityCM msg], st)))"

definition produce_one :: "up_state \<Rightarrow> bool \<Rightarrow> bool \<Rightarrow> 64 word \<Rightarrow> irc_message \<Rightarrow> string \<Rightarrow> downstream_conn \<Rightarrow> up_action list" where
  "produce_one st detached blocked originID msg msgID dc =
     (if blocked \<and> \<not> List.member (dc_metadataSubs dc) ''soju.im/blocked'' then []
      else
        let echo = (dc_id dc = originID \<and> (case Prefix msg of None \<Rightarrow> False | Some p \<Rightarrow> isOurNick st (Name p)))
        in if \<not> detached \<and> (\<not> echo \<or> caps_IsEnabled (dc_caps dc) ''echo-message'')
           then [ASendWithID (dc_id dc) msg msgID] else [AAdvanceWithID (dc_id dc) msg msgID])"

text \<open>\<open>blocked\<close> is the mark that the context carries for a blocked source.\<close>

definition produce :: "up_env \<Rightarrow> bool \<Rightarrow> string \<Rightarrow> irc_message \<Rightarrow> 64 word \<Rightarrow> up_state \<Rightarrow> up_action list \<times> up_state" where
  "produce env blocked target msg originID st =
     (let (msgID, log, st) = (if target \<noteq> [] then appendLog env target msg st else ([], [], st));
          detached = (case cmm_Get (n_channels (us_net st)) target of None \<Rightarrow> False | Some ch \<Rightarrow> ch_Detached ch)
      in (log @ concat (map (produce_one st detached blocked originID msg msgID) (net_dcs env (us_net st))), st))"

section \<open>Away\<close>

definition updateAway :: "up_env \<Rightarrow> up_state \<Rightarrow> up_action list \<times> up_state" where
  "updateAway env st =
     (let uc = us_uc st; net = us_net st in
      if \<not> net_AutoAway (n_record net) then ([], st)
      else
        let away = list_all (\<lambda>dc. dc_away dc \<noteq> None) (net_dcs env net) in
        if away = uc_away uc then ([], st)
        else ([ASend (if away then mk_msg ''AWAY'' [if caps_IsAvailable (uc_caps uc) ''draft/pre-away'' then ''*'' else ''Auto away'']
                      else mk_msg ''AWAY'' [])], st\<lparr>us_uc := uc\<lparr>uc_away := away\<rparr>\<rparr>))"

section \<open>Monitoring\<close>

definition serviceNick :: string where "serviceNick = ''BouncerServ''"
definition serviceNickCM :: string where "serviceNickCM = ''bouncerserv''"

text \<open>The targets of the clients, case-mapped, in the order of the loops.\<close>

definition monitor_targets :: "up_env \<Rightarrow> up_state \<Rightarrow> string list" where
  "monitor_targets env st =
     filter (\<lambda>t. t \<noteq> serviceNickCM)
       (concat (map (\<lambda>dc. map (\<lambda>(target, _). n_casemap (us_net st) target) (cmm_ForEach (dc_monitored dc)))
         (net_dcs env (us_net st))))"

text \<open>A list built by appending each element once.\<close>

fun append_new :: "string list \<Rightarrow> string list \<Rightarrow> string list" where
  "append_new acc [] = acc"
| "append_new acc (t # ts) = append_new (if List.member acc t then acc else acc @ [t]) ts"

definition monitor_add :: "up_env \<Rightarrow> up_state \<Rightarrow> string list" where
  "monitor_add env st =
     (let uc = us_uc st; net = us_net st;
          addList = append_new [] (filter (\<lambda>t. \<not> cmm_Has (uc_monitored uc) t) (monitor_targets env st));
          want = wantNick env net; wantCM = n_casemap net want
      in if \<not> List.member addList wantCM \<and> \<not> cmm_Has (uc_monitored uc) want \<and> \<not> isOurNick st want \<and> \<not> uc_hasDesiredNick uc
         then addList @ [wantCM] else addList)"

definition monitor_seen :: "up_env \<Rightarrow> up_state \<Rightarrow> string list" where
  "monitor_seen env st = filter (cmm_Has (uc_monitored (us_uc st))) (monitor_targets env st)"

definition monitor_remove :: "up_env \<Rightarrow> up_state \<Rightarrow> string list" where
  "monitor_remove env st =
     filter (\<lambda>nick. \<not> List.member (monitor_seen env st) (n_casemap (us_net st) nick))
       (map fst (cmm_ForEach (uc_monitored (us_uc st))))"

definition monitor_forget :: "string \<Rightarrow> up_state \<Rightarrow> up_state" where
  "monitor_forget target st =
     forget_user target (st\<lparr>us_uc := (us_uc st)\<lparr>uc_monitored := cmm_Del (uc_monitored (us_uc st)) target\<rparr>\<rparr>)"

definition updateMonitor :: "up_env \<Rightarrow> up_state \<Rightarrow> up_action list \<times> up_state" where
  "updateMonitor env st =
     (if go_get (uc_isupport (us_uc st)) ''MONITOR'' = None then ([], st)
      else
        let addList = monitor_add env st;
            removeList = monitor_remove env st;
            removeAll = list_all (\<lambda>(nick, _). \<not> List.member (monitor_seen env st) (n_casemap (us_net st) nick))
              (cmm_ForEach (uc_monitored (us_uc st)));
            msgs = (if removeAll \<and> addList = [] \<and> removeList \<noteq> [] then [mk_msg ''MONITOR'' [''C'']]
                    else GenerateMonitor ''-'' removeList @ GenerateMonitor ''+'' addList)
        in (map ASend msgs, foldl (\<lambda>st t. monitor_forget t st) st removeList))"

section \<open>Regaining the desired nick\<close>

definition stopRegainNickTimer :: "upstream_conn \<Rightarrow> upstream_conn" where
  "stopRegainNickTimer uc = uc\<lparr>uc_regainNickTimer := None, uc_regainNickBackoff := None\<rparr>"

definition regainBackoff :: backoffer where
  "regainBackoff = newBackoffer (15 * 1000000000) (600 * 1000000000) (10 * 1000000000)"

text \<open>\<open>None\<close> is a panic: of a second call to \<open>startRegainNickTimer\<close>, and of the nil backoff in
  \<open>tryRegainNick\<close>.\<close>

definition startRegainNickTimer :: "up_env \<Rightarrow> up_state \<Rightarrow> up_state option" where
  "startRegainNickTimer env st =
     (let uc = us_uc st in
      if uc_regainNickBackoff uc \<noteq> None \<or> uc_regainNickTimer uc \<noteq> None then None
      else if isOurNick st (wantNick env (us_net st)) then Some st
      else let (delay, b) = backoffer_Next regainBackoff (e_jitter env)
           in Some (st\<lparr>us_uc := uc\<lparr>uc_regainNickBackoff := Some b, uc_regainNickTimer := Some delay\<rparr>\<rparr>))"

definition tryRegainNick :: "up_env \<Rightarrow> string \<Rightarrow> up_state \<Rightarrow> (up_action list \<times> up_state) option" where
  "tryRegainNick env nick st =
     (let uc = us_uc st; want = wantNick env (us_net st) in
      case uc_regainNickTimer uc of
        None \<Rightarrow> Some ([], st)
      | Some _ \<Rightarrow>
          if want \<noteq> nick \<or> isOurNick st want then Some ([], st\<lparr>us_uc := stopRegainNickTimer uc\<rparr>)
          else (case uc_regainNickBackoff uc of
              None \<Rightarrow> None
            | Some b \<Rightarrow>
                let (delay, b') = backoffer_Next b (e_jitter env);
                    uc = uc\<lparr>uc_regainNickTimer := Some delay, uc_regainNickBackoff := Some b'\<rparr>
                in Some (if uc_pendingRegainNick uc \<noteq> [] then ([], st\<lparr>us_uc := uc\<rparr>)
                   else ([ASend (mk_msg ''NICK'' [want])], st\<lparr>us_uc := uc\<lparr>uc_pendingRegainNick := want\<rparr>\<rparr>))))"

section \<open>A fresh connection\<close>

text \<open>A connection of a network without saved channels that has been given a nick, for a user
  without a message store: the starting point of concrete runs.\<close>

definition example_env :: "downstream_conn list \<Rightarrow> up_env" where
  "example_env dcs = \<lparr>e_user = NewUser ''alice'', e_msgStore = NoStore, e_dcs = dcs, e_now = 0, e_jitter = 0,
     e_lastMsgID = (\<lambda>_. None), e_append = (\<lambda>_ _. None), e_parsePrefix = (\<lambda>s. \<lparr>Name = s, User = [], Host = []\<rparr>),
     e_unicode = no_tables, e_messageTarget = (\<lambda>_. None), e_saslStart = (\<lambda>_. None), e_saslNext = (\<lambda>_ _. None),
     e_srvPrefix = \<lparr>Name = ''bouncer.example.org'', User = [], Host = []\<rparr>\<rparr>"

definition fresh_up_state :: "string \<Rightarrow> db_channel list \<Rightarrow> up_state" where
  "fresh_up_state nick channels = \<lparr>us_uc = new_upstream_conn\<lparr>uc_nick := nick\<rparr>,
     us_net = newNetwork 0 (NewNetwork ''irc.example.org'') channels, us_current = True, us_orphanTimers = []\<rparr>"

text \<open>A client of the first network.\<close>

definition example_dc :: "64 word \<Rightarrow> string list \<Rightarrow> downstream_conn" where
  "example_dc d subs = \<lparr>dc_id = d, dc_closed = False, dc_registered = True, dc_network = Some 0, dc_clientName = [],
     dc_impersonating = False, dc_nick = ''alice'', dc_nickCM = ''alice'', dc_realname = [], dc_username = [], dc_hostname = [],
     dc_account = [], dc_away = None, dc_capVersion = 302, dc_caps = NewCapRegistry, dc_isupport = [], dc_sasl = None,
     dc_registration = None, dc_lastBatchRef = 0, dc_casemap = casemapASCII, dc_monitored = NewCaseMappingMap casemapASCII,
     dc_metadataSubs = subs\<rparr>"

end
