(* ===== verification/Upstream_Channels.thy ===== *)
theory Upstream_Channels
  imports Upstream_State
begin

text \<open>
  The messages that change what the bouncer knows of channels and their members, branches of
  \<open>handleMessage\<close> in \<^verbatim>\<open>src/upstream.go\<close>, with \<open>updateCasemapping\<close>, \<open>attach\<close> and \<open>detach\<close> of
  \<^verbatim>\<open>src/user.go\<close>.  The message's prefix has been filled in by the caller.
\<close>

datatype up_error =
    UpNeedMoreParams
  | UpUnknownChannel string
  | UpModes modes_error
  | UpUnknownNick string
  | UpBadStatus
  | UpBadTime
  | UpUnexpectedEndOfNames
  | UpUnexpectedReply string
  | UpMalformedWho
  | UpIsupport isupport_error
  | UpCap cap_error
  | UpLabel label_error
  | UpBadBatch string
  | UpWhox whox_error
  | UpUnexpectedAuthenticate
  | UpSasl
  | UpFatal string
  | UpRegistration irc_message
  | UpPanic
  | UpDiverges

type_synonym up_result = "up_error option \<times> up_action list \<times> up_state"

definition msg_name :: "irc_message \<Rightarrow> string" where
  "msg_name msg = (case Prefix msg of None \<Rightarrow> [] | Some p \<Rightarrow> Name p)"

definition set_uc :: "(upstream_conn \<Rightarrow> upstream_conn) \<Rightarrow> up_state \<Rightarrow> up_state" where
  "set_uc f st = st\<lparr>us_uc := f (us_uc st)\<rparr>"

definition set_channels ::
    "(upstream_channel case_mapping_map \<Rightarrow> upstream_channel case_mapping_map) \<Rightarrow> up_state \<Rightarrow> up_state" where
  "set_channels f st = set_uc (\<lambda>uc. uc\<lparr>uc_channels := f (uc_channels uc)\<rparr>) st"

definition put_channel :: "string \<Rightarrow> upstream_channel \<Rightarrow> up_state \<Rightarrow> up_state" where
  "put_channel name ch st = set_channels (\<lambda>chs. cmm_Set chs name ch) st"

definition get_channel :: "up_state \<Rightarrow> string \<Rightarrow> upstream_channel option" where
  "get_channel st name = cmm_Get (uc_channels (us_uc st)) name"

text \<open>Whether messages of a channel go to the clients: it is not a saved channel that is detached.\<close>

definition is_attached :: "up_state \<Rightarrow> string \<Rightarrow> bool" where
  "is_attached st name = (case cmm_Get (n_channels (us_net st)) name of None \<Rightarrow> True | Some c \<Rightarrow> \<not> ch_Detached c)"

section \<open>Case mapping, attaching and detaching\<close>

definition net_updateCasemapping :: "up_env \<Rightarrow> (string \<Rightarrow> string) \<Rightarrow> up_state \<Rightarrow> up_action list \<times> up_state" where
  "net_updateCasemapping env cm st =
     (let net = us_net st;
          st = st\<lparr>us_net := net\<lparr>n_casemap := cm,
                 n_channels := cmm_SetCaseMapping (n_channels net) cm,
                 n_delivered := cmm_SetCaseMapping (n_delivered net) cm,
                 n_pushTargets := cmm_SetCaseMapping (n_pushTargets net) cm\<rparr>\<rparr>;
          st = (if us_current st then
                  set_uc (\<lambda>uc. uc\<lparr>
                    uc_channels := cmm_map (\<lambda>_ uch. uch\<lparr>uch_Members := cmm_SetCaseMapping (uch_Members uch) cm\<rparr>)
                      (cmm_SetCaseMapping (uc_channels uc) cm),
                    uc_users := cmm_SetCaseMapping (uc_users uc) cm,
                    uc_monitored := cmm_SetCaseMapping (uc_monitored uc) cm\<rparr>) st
                else st)
      in (map (\<lambda>dc. AUpdateCasemapping (dc_id dc)) (net_dcs env (us_net st)), st))"

definition dc_prefix :: "downstream_conn \<Rightarrow> irc_prefix" where
  "dc_prefix dc = \<lparr>Name = dc_nick dc, User = dc_username dc, Host = dc_hostname dc\<rparr>"

definition dc_msg :: "downstream_conn \<Rightarrow> string \<Rightarrow> string list \<Rightarrow> irc_message" where
  "dc_msg dc cmd ps = (mk_msg cmd ps)\<lparr>Prefix := Some (dc_prefix dc)\<rparr>"

definition set_db_channel :: "db_channel \<Rightarrow> up_state \<Rightarrow> up_state" where
  "set_db_channel ch st = st\<lparr>us_net := (us_net st)\<lparr>n_channels := cmm_Set (n_channels (us_net st)) (ch_Name ch) ch\<rparr>\<rparr>"

definition net_detach :: "up_env \<Rightarrow> db_channel \<Rightarrow> up_state \<Rightarrow> up_action list \<times> up_state" where
  "net_detach env ch st =
     (if ch_Detached ch then ([], st)
      else
        let net = us_net st;
            ch = ch\<lparr>ch_Detached := True\<rparr>;
            ch = (if e_msgStore env = NoStore then ch
                  else ch\<lparr>ch_DetachedInternalMsgID :=
                    (case e_lastMsgID env (n_casemap net (ch_Name ch)) of None \<Rightarrow> [] | Some i \<Rightarrow> i)\<rparr>);
            st = set_db_channel ch st;
            st = (if us_current st then
                    (case get_channel st (ch_Name ch) of
                       None \<Rightarrow> st | Some uch \<Rightarrow> put_channel (ch_Name ch) (updateAutoDetach 0 uch) st)
                  else st)
        in (map (\<lambda>dc. ADown (dc_id dc) (dc_msg dc ''PART'' [ch_Name ch, ''Detach''])) (net_dcs env net), st))"

definition net_attach :: "up_env \<Rightarrow> db_channel \<Rightarrow> up_state \<Rightarrow> up_action list \<times> up_state" where
  "net_attach env ch st =
     (if \<not> ch_Detached ch then ([], st)
      else
        let net = us_net st;
            detachedMsgID = ch_DetachedInternalMsgID ch;
            ch = ch\<lparr>ch_Detached := False, ch_DetachedInternalMsgID := []\<rparr>;
            st = set_db_channel ch st;
            uch = (if us_current st then get_channel st (ch_Name ch) else None);
            st = (if us_current st then updateChannelAutoDetach (ch_Name ch) st else st)
        in (concat (map (\<lambda>dc.
              [ADown (dc_id dc) (dc_msg dc ''JOIN'' [ch_Name ch])]
              @ (case uch of None \<Rightarrow> [] | Some _ \<Rightarrow> [AForwardChannel (dc_id dc) (ch_Name ch)])
              @ (if detachedMsgID \<noteq> [] then [ABacklog (dc_id dc) (ch_Name ch) detachedMsgID] else []))
            (net_dcs env net)), st))"

section \<open>Nicks\<close>

definition rename_member :: "string \<Rightarrow> string \<Rightarrow> upstream_channel \<Rightarrow> upstream_channel" where
  "rename_member old new ch =
     (case cmm_Get (uch_Members ch) old of
        None \<Rightarrow> ch
      | Some ms \<Rightarrow> ch\<lparr>uch_Members := cmm_Set (cmm_Del (uch_Members ch) old) new ms\<rparr>)"

definition remove_member :: "string \<Rightarrow> upstream_channel \<Rightarrow> upstream_channel" where
  "remove_member nick ch = ch\<lparr>uch_Members := cmm_Del (uch_Members ch) nick\<rparr>"

definition channels_with :: "string \<Rightarrow> up_state \<Rightarrow> string list" where
  "channels_with nick st =
     map (\<lambda>(_, ch). uch_Name ch) (filter (\<lambda>(_, ch). cmm_Has (uch_Members ch) nick) (cmm_ForEach (uc_channels (us_uc st))))"

fun log_all :: "up_env \<Rightarrow> irc_message \<Rightarrow> string list \<Rightarrow> up_state \<Rightarrow> up_action list \<times> up_state" where
  "log_all env msg [] st = ([], st)"
| "log_all env msg (name # names) st =
     (let (_, acts, st) = appendLog env name msg st; (acts', st) = log_all env msg names st in (acts @ acts', st))"

definition own_nick_changed :: "up_env \<Rightarrow> string \<Rightarrow> up_state \<Rightarrow> up_state" where
  "own_nick_changed env newNick st =
     (let st = set_uc (\<lambda>uc. uc\<lparr>uc_nick := newNick\<rparr>) st;
          st = (if equalCasemap (us_net st) (uc_pendingRegainNick (us_uc st)) newNick
                then set_uc (\<lambda>uc. stopRegainNickTimer (uc\<lparr>uc_pendingRegainNick := []\<rparr>)) st else st)
      in if equalCasemap (us_net st) (wantNick env (us_net st)) newNick
         then set_uc (\<lambda>uc. uc\<lparr>uc_hasDesiredNick := True\<rparr>) st else st)"

definition handle_NICK :: "up_env \<Rightarrow> irc_message \<Rightarrow> up_state \<Rightarrow> up_result" where
  "handle_NICK env msg st =
     (case Params msg of
        [] \<Rightarrow> (Some UpNeedMoreParams, [], st)
      | newNick # _ \<Rightarrow>
          let old = msg_name msg;
              me = isOurNick st old;
              st = (if me then own_nick_changed env newNick st else st);
              names = channels_with old st;
              st = set_channels (cmm_map (\<lambda>_. rename_member old newNick)) st;
              (log, st) = log_all env msg names st
          in (case cacheUserInfo old (no_info\<lparr>uu_Nickname := newNick\<rparr>) st of
                None \<Rightarrow> (Some UpPanic, log, st)
              | Some st \<Rightarrow>
                  if \<not> me then (None, log @ forwardMessage env (us_net st) msg, st)
                  else
                    let (acts, st') = updateMonitor env st
                    in (None, log @ map (\<lambda>dc. AUpdateNick (dc_id dc)) (net_dcs env (us_net st)) @ acts, st')))"

definition handle_SETNAME :: "up_env \<Rightarrow> irc_message \<Rightarrow> up_state \<Rightarrow> up_result" where
  "handle_SETNAME env msg st =
     (case Params msg of
        [] \<Rightarrow> (Some UpNeedMoreParams, [], st)
      | newRealname # _ \<Rightarrow>
          (case cacheUserInfo (msg_name msg) (no_info\<lparr>uu_Realname := newRealname\<rparr>) st of
             None \<Rightarrow> (Some UpPanic, [], st)
           | Some st \<Rightarrow>
               if isOurNick st (msg_name msg) then
                 (None, map (\<lambda>dc. AUpdateRealname (dc_id dc)) (net_dcs env (us_net st)),
                  set_uc (\<lambda>uc. uc\<lparr>uc_realname := newRealname\<rparr>) st)
               else (None, forwardMessage env (us_net st) msg, st)))"

definition handle_CHGHOST :: "up_env \<Rightarrow> irc_message \<Rightarrow> up_state \<Rightarrow> up_result" where
  "handle_CHGHOST env msg st =
     (case Params msg of
        newUsername # newHostname # _ \<Rightarrow>
          if isOurNick st (msg_name msg) then
            (None, map (\<lambda>dc. AUpdateHost (dc_id dc)) (net_dcs env (us_net st)),
             set_uc (\<lambda>uc. uc\<lparr>uc_username := newUsername, uc_hostname := newHostname\<rparr>) st)
          else (None, forwardMessage env (us_net st) msg, st)
      | _ \<Rightarrow> (Some UpNeedMoreParams, [], st))"

section \<open>Joining and leaving\<close>

definition new_channel :: "(string \<Rightarrow> string) \<Rightarrow> string \<Rightarrow> upstream_channel" where
  "new_channel cm name = \<lparr>uch_Name = name, uch_Topic = [], uch_TopicWho = None, uch_TopicTime = None,
     uch_Status = None, uch_modes = None, uch_creationTime = [], uch_Members = NewCaseMappingMap cm,
     uch_complete = False, uch_detachTimer = None\<rparr>"

definition with_first_param :: "string \<Rightarrow> irc_message \<Rightarrow> irc_message" where
  "with_first_param p msg = msg\<lparr>Params := (Params msg)[0 := p]\<rparr>"

text \<open>The timer of a channel object that is dropped from the map without being stopped.\<close>

definition orphan_timer :: "string \<Rightarrow> up_state \<Rightarrow> up_state" where
  "orphan_timer ch st =
     (case get_channel st ch of
        None \<Rightarrow> st
      | Some uch \<Rightarrow> if uch_detachTimer uch = None then st
                     else st\<lparr>us_orphanTimers := uch_Name uch # us_orphanTimers st\<rparr>)"

fun join_channels :: "up_env \<Rightarrow> irc_message \<Rightarrow> string list \<Rightarrow> up_state \<Rightarrow> up_result" where
  "join_channels env msg [] st = (None, [], st)"
| "join_channels env msg (ch # chs) st =
     (let finish = (\<lambda>acts st.
            let (acts', st) = produce env False ch (with_first_param ch msg) 0 st;
                (e, acts'', st) = join_channels env msg chs st
            in (e, acts @ acts' @ acts'', st))
      in if isOurNick st (msg_name msg) then
           finish [ASend (mk_msg ''MODE'' [ch])]
             (updateChannelAutoDetach ch (put_channel ch (new_channel (n_casemap (us_net st)) ch) (orphan_timer ch st)))
         else (case get_channel st ch of
             None \<Rightarrow> (Some (UpUnknownChannel ch), [], st)
           | Some uch \<Rightarrow>
               finish [] (put_channel ch (uch\<lparr>uch_Members := cmm_Set (uch_Members uch) (msg_name msg) []\<rparr>) st)))"

definition join_info :: "irc_message \<Rightarrow> upstream_conn \<Rightarrow> upstream_user" where
  "join_info msg uc =
     (let (user, host) = (case Prefix msg of None \<Rightarrow> ([], []) | Some p \<Rightarrow> (User p, Host p));
          flags = (if caps_IsEnabled (uc_caps uc) ''away-notify''
                   then ''H'' @ (if go_get (Tags msg) ''bot'' = None then []
                                 else (case go_get (uc_isupport uc) ''BOT'' of Some (Some b) \<Rightarrow> b | _ \<Rightarrow> []))
                   else []);
          extended = length (Params msg) > 2
      in no_info\<lparr>uu_Username := user, uu_Hostname := host, uu_Flags := flags,
           uu_Account := (if extended then Params msg ! 1 else []),
           uu_Realname := (if extended then Params msg ! 2 else [])\<rparr>)"

definition handle_JOIN :: "up_env \<Rightarrow> irc_message \<Rightarrow> up_state \<Rightarrow> up_result" where
  "handle_JOIN env msg st =
     (case Params msg of
        [] \<Rightarrow> (Some UpNeedMoreParams, [], st)
      | channels # _ \<Rightarrow>
          (case cacheUserInfo (msg_name msg) (join_info msg (us_uc st)) st of
             None \<Rightarrow> (Some UpPanic, [], st)
           | Some st \<Rightarrow> join_channels env msg (Split channels CHR '','') st))"

text \<open>Forgetting the members of a channel that the bouncer left.\<close>

definition forget_members :: "upstream_channel \<Rightarrow> up_state \<Rightarrow> up_state" where
  "forget_members uch st = foldl (\<lambda>st (nick, _). forget_user nick st) st (cmm_ForEach (uch_Members uch))"

definition leave_channel :: "string \<Rightarrow> up_state \<Rightarrow> up_state" where
  "leave_channel ch st =
     (case get_channel st ch of
        None \<Rightarrow> st
      | Some uch \<Rightarrow> forget_members uch (set_channels (\<lambda>chs. cmm_Del chs ch) st))"

definition remove_from :: "string \<Rightarrow> upstream_channel \<Rightarrow> string \<Rightarrow> up_state \<Rightarrow> up_state" where
  "remove_from ch uch nick st = forget_user nick (put_channel ch (remove_member nick uch) st)"

fun part_channels :: "up_env \<Rightarrow> irc_message \<Rightarrow> string list \<Rightarrow> up_state \<Rightarrow> up_result" where
  "part_channels env msg [] st = (None, [], st)"
| "part_channels env msg (ch # chs) st =
     (let finish = (\<lambda>st.
            let (acts, st) = produce env False ch (with_first_param ch msg) 0 st;
                (e, acts', st) = part_channels env msg chs st
            in (e, acts @ acts', st))
      in if isOurNick st (msg_name msg) then finish (leave_channel ch st)
         else (case get_channel st ch of
             None \<Rightarrow> (Some (UpUnknownChannel ch), [], st)
           | Some uch \<Rightarrow> finish (remove_from ch uch (msg_name msg) st)))"

definition handle_PART :: "up_env \<Rightarrow> irc_message \<Rightarrow> up_state \<Rightarrow> up_result" where
  "handle_PART env msg st =
     (case Params msg of
        [] \<Rightarrow> (Some UpNeedMoreParams, [], st)
      | channels # _ \<Rightarrow> part_channels env msg (Split channels CHR '','') st)"

definition handle_KICK :: "up_env \<Rightarrow> irc_message \<Rightarrow> up_state \<Rightarrow> up_result" where
  "handle_KICK env msg st =
     (case Params msg of
        channel # user # _ \<Rightarrow>
          if isOurNick st user then
            (let (acts, st) = produce env False channel msg 0 (leave_channel channel (orphan_timer channel st)) in (None, acts, st))
          else (case get_channel st channel of
              None \<Rightarrow> (Some (UpUnknownChannel channel), [], st)
            | Some uch \<Rightarrow>
                (let (acts, st) = produce env False channel msg 0 (remove_from channel uch user st)
                 in (None, acts, st)))
      | _ \<Rightarrow> (Some UpNeedMoreParams, [], st))"

definition handle_QUIT :: "up_env \<Rightarrow> irc_message \<Rightarrow> up_state \<Rightarrow> up_result" where
  "handle_QUIT env msg st =
     (let nick = msg_name msg;
          names = channels_with nick st;
          st = set_channels (cmm_map (\<lambda>_ ch. if cmm_Has (uch_Members ch) nick then remove_member nick ch else ch)) st;
          (log, st) = log_all env msg names st;
          st = set_uc (\<lambda>uc. uc\<lparr>uc_users := cmm_Del (uc_users uc) nick\<rparr>) st
      in (None, log @ (if nick \<noteq> uc_nick (us_uc st) then forwardMessage env (us_net st) msg else []), st))"

section \<open>Topics and modes\<close>

definition RPL_TOPIC :: string where "RPL_TOPIC = ''332''"
definition RPL_NOTOPIC :: string where "RPL_NOTOPIC = ''331''"

definition handle_RPL_TOPIC :: "up_env \<Rightarrow> 64 word \<Rightarrow> irc_message \<Rightarrow> up_state \<Rightarrow> up_result" where
  "handle_RPL_TOPIC env did msg st =
     (case Params msg of
        _ # name # topic # _ \<Rightarrow>
          (case get_channel st name of
             None \<Rightarrow> (None, forwardMsgByID env (us_net st) did msg, st)
           | Some ch \<Rightarrow>
               (None, [], put_channel name (ch\<lparr>uch_Topic := (if Command msg = RPL_TOPIC then topic else [])\<rparr>) st))
      | _ \<Rightarrow> (Some UpNeedMoreParams, [], st))"

definition handle_TOPIC :: "up_env \<Rightarrow> irc_message \<Rightarrow> up_state \<Rightarrow> up_result" where
  "handle_TOPIC env msg st =
     (case Params msg of
        [] \<Rightarrow> (Some UpNeedMoreParams, [], st)
      | name # rest \<Rightarrow>
          (case get_channel st name of
             None \<Rightarrow> (Some (UpUnknownChannel name), [], st)
           | Some ch \<Rightarrow>
               let ch' = (case rest of
                     topic # _ \<Rightarrow> ch\<lparr>uch_Topic := topic, uch_TopicWho := Prefix msg, uch_TopicTime := Some (e_now env)\<rparr>
                   | [] \<Rightarrow> ch\<lparr>uch_Topic := []\<rparr>);
                   (acts, st) = produce env False (uch_Name ch) msg 0 (put_channel name ch' st)
               in (None, acts, st)))"

definition handle_MODE :: "up_env \<Rightarrow> irc_message \<Rightarrow> up_state \<Rightarrow> up_result" where
  "handle_MODE env msg st =
     (case Params msg of
        name # modeStr # args \<Rightarrow>
          if \<not> isChannel (us_uc st) name then
            (if name \<noteq> uc_nick (us_uc st) then (Some (UpUnknownNick name), [], st)
             else (case userModes_Apply (uc_modes (us_uc st)) modeStr of
                 (Some e, modes) \<Rightarrow> (Some (UpModes e), [], set_uc (\<lambda>uc. uc\<lparr>uc_modes := modes\<rparr>) st)
               | (None, modes) \<Rightarrow> (None, forwardMessage env (us_net st) msg, set_uc (\<lambda>uc. uc\<lparr>uc_modes := modes\<rparr>) st)))
          else (case get_channel st name of
              None \<Rightarrow> (Some (UpUnknownChannel name), [], st)
            | Some ch \<Rightarrow>
                (case applyChannelModes (uc_availableMemberships (us_uc st)) (uc_availableChannelModes (us_uc st)) ch modeStr args of
                   (Some e, ch') \<Rightarrow> (Some (UpModes e), [], put_channel name ch' st)
                 | (None, ch') \<Rightarrow>
                     let (_, log, st) = appendLog env (uch_Name ch) msg (put_channel name ch' st)
                     in (None, log @ (if is_attached st name then forwardMessage env (us_net st) msg else []), st)))
      | _ \<Rightarrow> (Some UpNeedMoreParams, [], st))"

definition handle_RPL_UMODEIS :: "up_env \<Rightarrow> irc_message \<Rightarrow> up_state \<Rightarrow> up_result" where
  "handle_RPL_UMODEIS env msg st =
     (if Params msg = [] then (Some UpNeedMoreParams, [], st)
      else
        let modeStr = (if length (Params msg) > 1 then Params msg ! 1 else []) in
        case userModes_Apply [] modeStr of
          (Some e, modes) \<Rightarrow> (Some (UpModes e), [], set_uc (\<lambda>uc. uc\<lparr>uc_modes := modes\<rparr>) st)
        | (None, modes) \<Rightarrow> (None, forwardMessage env (us_net st) msg, set_uc (\<lambda>uc. uc\<lparr>uc_modes := modes\<rparr>) st))"

definition handle_RPL_CHANNELMODEIS :: "up_env \<Rightarrow> 64 word \<Rightarrow> irc_message \<Rightarrow> up_state \<Rightarrow> up_result" where
  "handle_RPL_CHANNELMODEIS env did msg st =
     (case Params msg of
        _ # channel # rest \<Rightarrow>
          let (modeStr, modeArgs) = (case rest of [] \<Rightarrow> ([], []) | m # args \<Rightarrow> (m, args)) in
          (case get_channel st channel of
             None \<Rightarrow> (None, forwardMsgByID env (us_net st) did msg, st)
           | Some ch \<Rightarrow>
               (case applyChannelModes (uc_availableMemberships (us_uc st)) (uc_availableChannelModes (us_uc st))
                       (ch\<lparr>uch_modes := Some []\<rparr>) modeStr modeArgs of
                  (Some e, ch') \<Rightarrow> (Some (UpModes e), [], put_channel channel ch' st)
                | (None, ch') \<Rightarrow>
                    (None, if uch_modes ch = None \<and> is_attached st channel then forwardMessage env (us_net st) msg else [],
                     put_channel channel ch' st)))
      | _ \<Rightarrow> (Some UpNeedMoreParams, [], st))"

definition handle_RPL_CREATIONTIME :: "up_env \<Rightarrow> 64 word \<Rightarrow> irc_message \<Rightarrow> up_state \<Rightarrow> up_result" where
  "handle_RPL_CREATIONTIME env did msg st =
     (case Params msg of
        _ # channel # creationTime # _ \<Rightarrow>
          (case get_channel st channel of
             None \<Rightarrow> (None, forwardMsgByID env (us_net st) did msg, st)
           | Some ch \<Rightarrow>
               (None, if uch_creationTime ch = [] \<and> is_attached st channel then forwardMessage env (us_net st) msg else [],
                put_channel channel (ch\<lparr>uch_creationTime := creationTime\<rparr>) st))
      | _ \<Rightarrow> (Some UpNeedMoreParams, [], st))"

definition handle_RPL_TOPICWHOTIME :: "up_env \<Rightarrow> 64 word \<Rightarrow> irc_message \<Rightarrow> up_state \<Rightarrow> up_result" where
  "handle_RPL_TOPICWHOTIME env did msg st =
     (case Params msg of
        _ # channel # who # timeStr # _ \<Rightarrow>
          (case get_channel st channel of
             None \<Rightarrow> (None, forwardMsgByID env (us_net st) did msg, st)
           | Some ch \<Rightarrow>
               let ch' = ch\<lparr>uch_TopicWho := Some (e_parsePrefix env who)\<rparr> in
               (case ParseInt64 timeStr of
                  Inl _ \<Rightarrow> (Some UpBadTime, [], put_channel channel ch' st)
                | Inr sec \<Rightarrow>
                    (None, if uch_TopicWho ch = None \<and> is_attached st channel then forwardMessage env (us_net st) msg else [],
                     put_channel channel (ch'\<lparr>uch_TopicTime := Some (sec * 1000000000)\<rparr>) st)))
      | _ \<Rightarrow> (Some UpNeedMoreParams, [], st))"

section \<open>Names\<close>

definition splitSpace :: "string \<Rightarrow> string list" where
  "splitSpace s = FieldsFunc (\<lambda>r. r = 32) s"

definition set_member :: "membership list \<Rightarrow> upstream_channel \<Rightarrow> string \<Rightarrow> upstream_channel" where
  "set_member avail ch s =
     (let (ms, nick) = parseMembershipPrefix avail s in ch\<lparr>uch_Members := cmm_Set (uch_Members ch) nick ms\<rparr>)"

definition handle_RPL_NAMREPLY :: "up_env \<Rightarrow> 64 word \<Rightarrow> irc_message \<Rightarrow> up_state \<Rightarrow> up_result" where
  "handle_RPL_NAMREPLY env did msg st =
     (case Params msg of
        _ # statusStr # name # members # _ \<Rightarrow>
          (case get_channel st name of
             None \<Rightarrow> (None, forwardMsgByID env (us_net st) did msg, st)
           | Some ch \<Rightarrow>
               (case ParseChannelStatus statusStr of
                  Inl StatusPanic \<Rightarrow> (Some UpPanic, [], st)
                | Inl _ \<Rightarrow> (Some UpBadStatus, [], st)
                | Inr status \<Rightarrow>
                    (None, [], put_channel name (foldl (set_member (uc_availableMemberships (us_uc st)))
                       (ch\<lparr>uch_Status := Some status\<rparr>) (splitSpace members)) st)))
      | _ \<Rightarrow> (Some UpNeedMoreParams, [], st))"

definition handle_RPL_ENDOFNAMES :: "up_env \<Rightarrow> 64 word \<Rightarrow> irc_message \<Rightarrow> up_state \<Rightarrow> up_result" where
  "handle_RPL_ENDOFNAMES env did msg st =
     (case Params msg of
        _ # name # _ \<Rightarrow>
          (case get_channel st name of
             None \<Rightarrow> (None, forwardMsgByID env (us_net st) did msg, st)
           | Some ch \<Rightarrow>
               if uch_complete ch then (Some UpUnexpectedEndOfNames, [], st)
               else
                 (None, if is_attached st name then map (\<lambda>dc. AForwardChannel (dc_id dc) (uch_Name ch)) (net_dcs env (us_net st)) else [],
                  put_channel name (ch\<lparr>uch_complete := True\<rparr>) st))
      | _ \<Rightarrow> (Some UpNeedMoreParams, [], st))"

section \<open>What the steps leave alone\<close>

text \<open>Logging, producing and caching touch neither the channels nor the case mapping.\<close>

definition same_channels :: "up_state \<Rightarrow> up_state \<Rightarrow> bool" where
  "same_channels st st' \<longleftrightarrow> uc_channels (us_uc st') = uc_channels (us_uc st)
     \<and> n_casemap (us_net st') = n_casemap (us_net st) \<and> n_channels (us_net st') = n_channels (us_net st)
     \<and> uc_nick (us_uc st') = uc_nick (us_uc st) \<and> us_orphanTimers st' = us_orphanTimers st
     \<and> uc_availableMemberships (us_uc st') = uc_availableMemberships (us_uc st)
     \<and> us_current st' = us_current st \<and> uc_pendingCmds (us_uc st') = uc_pendingCmds (us_uc st)"

lemma same_refl [simp]: "same_channels st st"
  by (simp add: same_channels_def)

lemma same_trans: "same_channels a b \<Longrightarrow> same_channels b c \<Longrightarrow> same_channels a c"
  by (simp add: same_channels_def)

lemma appendLog_same: "appendLog env entity msg st = (i, acts, st') \<Longrightarrow> same_channels st st'"
  by (auto simp: appendLog_def Let_def same_channels_def split: if_splits option.splits)

lemma produce_same: "produce env b target msg o' st = (acts, st') \<Longrightarrow> same_channels st st'"
  by (auto simp: produce_def Let_def dest: appendLog_same split: if_splits prod.splits)

lemma log_all_same: "log_all env msg names st = (acts, st') \<Longrightarrow> same_channels st st'"
proof (induction names arbitrary: st acts st')
  case (Cons n names)
  obtain i a st1 where 1: "appendLog env n msg st = (i, a, st1)" by (cases "appendLog env n msg st") auto
  obtain a2 st2 where 2: "log_all env msg names st1 = (a2, st2)" by force
  from Cons.prems 1 2 have "st' = st2" by simp
  with same_trans [OF appendLog_same [OF 1] Cons.IH [OF 2]] show ?case by simp
qed simp

lemma forget_user_same [simp]: "same_channels st (forget_user nick st)"
  by (simp add: forget_user_def same_channels_def)

lemma forget_members_same [simp]: "same_channels st (forget_members uch st)"
proof -
  have "same_channels st (foldl (\<lambda>st (nick, _). forget_user nick st) st xs)" for xs :: "(string \<times> membership_set) list"
  proof (induction xs arbitrary: st)
    case (Cons x xs)
    obtain n m where x: "x = (n, m)" by force
    show ?case
      using same_trans [OF forget_user_same [of st n] Cons.IH [of "forget_user n st"]] by (simp add: x)
  qed simp
  then show ?thesis by (simp add: forget_members_def)
qed

lemma cacheUserInfo_same: "cacheUserInfo nick info st = Some st' \<Longrightarrow> same_channels st st'"
  by (auto simp: cacheUserInfo_def same_channels_def)

lemma updateMonitor_same: "updateMonitor env st = (acts, st') \<Longrightarrow> same_channels st st'"
proof -
  have "same_channels st (foldl (\<lambda>st t. monitor_forget t st) st xs)" for xs
  proof (induction xs arbitrary: st)
    case (Cons t xs)
    have "same_channels st (monitor_forget t st)"
      by (simp add: monitor_forget_def forget_user_def same_channels_def)
    from same_trans [OF this Cons.IH] show ?case by simp
  qed simp
  then show "updateMonitor env st = (acts, st') \<Longrightarrow> same_channels st st'"
    by (auto simp: updateMonitor_def Let_def split: if_splits)
qed

section \<open>Membership\<close>

text \<open>The abstract view: which nicks are known to be in which joined channels.\<close>

definition in_channel :: "up_state \<Rightarrow> string \<Rightarrow> string \<Rightarrow> bool" where
  "in_channel st c n \<longleftrightarrow> (case get_channel st c of None \<Rightarrow> False | Some ch \<Rightarrow> cmm_Has (uch_Members ch) n)"

definition joined :: "up_state \<Rightarrow> string \<Rightarrow> bool" where
  "joined st c \<longleftrightarrow> get_channel st c \<noteq> None"

text \<open>All the maps of a connection use the network's case mapping.\<close>

definition channel_wf :: "(string \<Rightarrow> string) \<Rightarrow> upstream_channel \<Rightarrow> bool" where
  "channel_wf cm ch \<longleftrightarrow> cmm_casemap (uch_Members ch) = cm \<and> cmm_ok (uch_Members ch)"

definition up_wf :: "up_state \<Rightarrow> bool" where
  "up_wf st \<longleftrightarrow> cmm_casemap (uc_channels (us_uc st)) = n_casemap (us_net st)
     \<and> cmm_ok (uc_channels (us_uc st))
     \<and> all_values (channel_wf (n_casemap (us_net st))) (uc_channels (us_uc st))"

lemma up_wf_same: "same_channels st st' \<Longrightarrow> up_wf st' = up_wf st"
  by (simp add: same_channels_def up_wf_def)

lemma in_channel_same: "same_channels st st' \<Longrightarrow> in_channel st' c n = in_channel st c n"
  by (simp add: same_channels_def in_channel_def get_channel_def)

lemma joined_same: "same_channels st st' \<Longrightarrow> joined st' c = joined st c"
  by (simp add: same_channels_def joined_def get_channel_def)

lemma isOurNick_same: "same_channels st st' \<Longrightarrow> isOurNick st' n = isOurNick st n"
  by (simp add: same_channels_def isOurNick_def equalCasemap_def)

definition ucm :: "up_state \<Rightarrow> string \<Rightarrow> string" where
  "ucm st = n_casemap (us_net st)"

lemma ucm_same: "same_channels st st' \<Longrightarrow> ucm st' = ucm st"
  by (simp add: same_channels_def ucm_def)

lemma put_channel_view:
  assumes "up_wf st"
  shows "joined (put_channel name ch st) c \<longleftrightarrow> ucm st c = ucm st name \<or> joined st c"
    and "in_channel (put_channel name ch st) c n
      \<longleftrightarrow> (if ucm st c = ucm st name then cmm_Has (uch_Members ch) n else in_channel st c n)"
    and "channel_wf (ucm st) ch \<Longrightarrow> up_wf (put_channel name ch st)"
  using assms
  by (auto simp: joined_def in_channel_def get_channel_def put_channel_def set_channels_def set_uc_def
      up_wf_def ucm_def cmm_Get_Set all_values_Set)

lemma put_channel_fixed [simp]:
  "ucm (put_channel name ch st) = ucm st" "isOurNick (put_channel name ch st) n = isOurNick st n"
  by (simp_all add: ucm_def put_channel_def set_channels_def set_uc_def isOurNick_def equalCasemap_def)

lemma del_channel_view:
  assumes "up_wf st"
  shows "joined (set_channels (\<lambda>chs. cmm_Del chs name) st) c \<longleftrightarrow> ucm st c \<noteq> ucm st name \<and> joined st c"
    and "in_channel (set_channels (\<lambda>chs. cmm_Del chs name) st) c n
      \<longleftrightarrow> ucm st c \<noteq> ucm st name \<and> in_channel st c n"
    and "up_wf (set_channels (\<lambda>chs. cmm_Del chs name) st)"
  using assms
  by (auto simp: joined_def in_channel_def get_channel_def set_channels_def set_uc_def
      up_wf_def ucm_def cmm_Get_Del all_values_Del)

lemma del_channel_fixed [simp]:
  "ucm (set_channels f st) = ucm st" "isOurNick (set_channels f st) n = isOurNick st n"
  by (simp_all add: ucm_def set_channels_def set_uc_def isOurNick_def equalCasemap_def)

lemma get_channel_wf: "up_wf st \<Longrightarrow> get_channel st name = Some ch \<Longrightarrow> channel_wf (ucm st) ch"
  by (auto simp: up_wf_def get_channel_def ucm_def dest: all_values_Get)

lemma get_channel_cong: "up_wf st \<Longrightarrow> ucm st a = ucm st b \<Longrightarrow> get_channel st a = get_channel st b"
  by (auto simp: up_wf_def get_channel_def ucm_def intro: cmm_Get_cong)

lemma in_channel_get:
  "up_wf st \<Longrightarrow> get_channel st name = Some ch \<Longrightarrow> ucm st c = ucm st name \<Longrightarrow> in_channel st c n = cmm_Has (uch_Members ch) n"
  using get_channel_cong [of st c name] by (simp add: in_channel_def)

lemma in_channel_joined: "in_channel st c n \<Longrightarrow> joined st c"
  by (auto simp: in_channel_def joined_def split: option.splits)

lemma orphan_timer_view [simp]:
  "joined (orphan_timer x st) c = joined st c" "in_channel (orphan_timer x st) c n = in_channel st c n"
  "up_wf (orphan_timer x st) = up_wf st" "ucm (orphan_timer x st) = ucm st"
  "isOurNick (orphan_timer x st) n = isOurNick st n" "get_channel (orphan_timer x st) c = get_channel st c"
  by (auto simp: orphan_timer_def joined_def in_channel_def get_channel_def up_wf_def ucm_def isOurNick_def
      equalCasemap_def split: option.split)

lemma updateChannelAutoDetach_view:
  assumes "up_wf st"
  shows "joined (updateChannelAutoDetach x st) c = joined st c"
    and "in_channel (updateChannelAutoDetach x st) c n = in_channel st c n"
    and "up_wf (updateChannelAutoDetach x st)" and "ucm (updateChannelAutoDetach x st) = ucm st"
    and "isOurNick (updateChannelAutoDetach x st) m = isOurNick st m"
proof -
  have "updateChannelAutoDetach x st =
    (case (get_channel st x, cmm_Get (n_channels (us_net st)) x) of
       (Some uch, Some ch) \<Rightarrow> if ch_Detached ch then st else put_channel x (updateAutoDetach (ch_DetachAfter ch) uch) st
     | _ \<Rightarrow> st)"
    by (simp add: updateChannelAutoDetach_def get_channel_def put_channel_def set_channels_def set_uc_def
        split: option.split)
  then consider "updateChannelAutoDetach x st = st"
    | uch d where "get_channel st x = Some uch" "updateChannelAutoDetach x st = put_channel x (updateAutoDetach d uch) st"
    by (auto split: option.splits if_splits)
  then have "joined (updateChannelAutoDetach x st) c = joined st c
    \<and> in_channel (updateChannelAutoDetach x st) c n = in_channel st c n
    \<and> up_wf (updateChannelAutoDetach x st) \<and> ucm (updateChannelAutoDetach x st) = ucm st
    \<and> isOurNick (updateChannelAutoDetach x st) m = isOurNick st m"
  proof cases
    case (2 uch d)
    note v = put_channel_view [OF assms]
    have m: "uch_Members (updateAutoDetach d uch) = uch_Members uch" by (simp add: updateAutoDetach_def)
    have "joined (put_channel x (updateAutoDetach d uch) st) c = joined st c"
      unfolding v(1) using get_channel_cong [OF assms, of c x] 2(1) by (auto simp: joined_def)
    moreover have "in_channel (put_channel x (updateAutoDetach d uch) st) c n = in_channel st c n"
      unfolding v(2) m using in_channel_get [OF assms 2(1)] by simp
    moreover have "channel_wf (ucm st) (updateAutoDetach d uch)"
      using get_channel_wf [OF assms 2(1)] by (simp add: channel_wf_def m)
    ultimately show ?thesis using v(3) by (simp add: 2(2))
  qed (use assms in simp)
  then show "joined (updateChannelAutoDetach x st) c = joined st c"
    "in_channel (updateChannelAutoDetach x st) c n = in_channel st c n"
    "up_wf (updateChannelAutoDetach x st)" "ucm (updateChannelAutoDetach x st) = ucm st"
    "isOurNick (updateChannelAutoDetach x st) m = isOurNick st m"
    by simp_all
qed

section \<open>The specification of membership\<close>

datatype member_event =
    OwnJoin "string list"
  | Join_by string "string list"
  | OwnLeave "string list"
  | Leave_by string "string list"
  | Quit_by string
  | Rename string string

type_synonym member_view = "(string \<Rightarrow> bool) \<times> (string \<Rightarrow> string \<Rightarrow> bool)"

fun member_step :: "(string \<Rightarrow> string) \<Rightarrow> member_event \<Rightarrow> member_view \<Rightarrow> member_view" where
  "member_step cm (OwnJoin chs) (J, M) =
     (\<lambda>c. J c \<or> List.member (map cm chs) (cm c), \<lambda>c n. M c n \<and> \<not> List.member (map cm chs) (cm c))"
| "member_step cm (Join_by nick chs) (J, M) =
     (J, \<lambda>c n. M c n \<or> (List.member (map cm chs) (cm c) \<and> cm n = cm nick))"
| "member_step cm (OwnLeave chs) (J, M) =
     (\<lambda>c. J c \<and> \<not> List.member (map cm chs) (cm c), \<lambda>c n. M c n \<and> \<not> List.member (map cm chs) (cm c))"
| "member_step cm (Leave_by nick chs) (J, M) =
     (J, \<lambda>c n. M c n \<and> \<not> (List.member (map cm chs) (cm c) \<and> cm n = cm nick))"
| "member_step cm (Quit_by nick) (J, M) = (J, \<lambda>c n. M c n \<and> cm n \<noteq> cm nick)"
| "member_step cm (Rename old new) (J, M) =
     (J, \<lambda>c n. if cm n = cm new then M c old \<or> M c new else M c n \<and> cm n \<noteq> cm old)"

definition view :: "up_state \<Rightarrow> member_view" where
  "view st = (joined st, in_channel st)"

lemma view_same: "same_channels st st' \<Longrightarrow> view st' = view st"
  by (simp add: view_def fun_eq_iff in_channel_same joined_same)

text \<open>What one channel does, followed by what the rest of the list does.\<close>

lemma member_step_Cons:
  "member_step cm (OwnJoin (c # chs)) v = member_step cm (OwnJoin chs) (member_step cm (OwnJoin [c]) v)"
  "member_step cm (Join_by n (c # chs)) v = member_step cm (Join_by n chs) (member_step cm (Join_by n [c]) v)"
  "member_step cm (OwnLeave (c # chs)) v = member_step cm (OwnLeave chs) (member_step cm (OwnLeave [c]) v)"
  "member_step cm (Leave_by n (c # chs)) v = member_step cm (Leave_by n chs) (member_step cm (Leave_by n [c]) v)"
  by (cases v, auto simp: fun_eq_iff)+

lemma member_step_Nil [simp]:
  "member_step cm (OwnJoin []) v = v" "member_step cm (Join_by n []) v = v"
  "member_step cm (OwnLeave []) v = v" "member_step cm (Leave_by n []) v = v"
  by (cases v, auto simp: fun_eq_iff)+

section \<open>The handlers implement the specification\<close>

text \<open>\<open>refines ev st st'\<close>: the step from \<open>st\<close> to \<open>st'\<close> keeps the connection well formed and does the
  event \<open>ev\<close> to the view; the nick of the bouncer and the case mapping stay.\<close>

definition refines :: "member_event \<Rightarrow> up_state \<Rightarrow> up_state \<Rightarrow> bool" where
  "refines ev st st' \<longleftrightarrow> up_wf st' \<and> ucm st' = ucm st \<and> (\<forall>n. isOurNick st' n = isOurNick st n)
     \<and> view st' = member_step (ucm st) ev (view st)"

lemma refines_same: "refines ev st st1 \<Longrightarrow> same_channels st1 st' \<Longrightarrow> refines ev st st'"
  by (simp add: refines_def up_wf_same ucm_same isOurNick_same view_same)

lemma own_join_refines:
  assumes "up_wf st"
  shows "refines (OwnJoin [ch]) st
    (updateChannelAutoDetach ch (put_channel ch (new_channel (n_casemap (us_net st)) ch) (orphan_timer ch st)))"
proof -
  let ?new = "new_channel (ucm st) ch" and ?st = "orphan_timer ch st"
  have wf: "up_wf ?st" using assms by simp
  have "channel_wf (ucm ?st) ?new" by (simp add: channel_wf_def new_channel_def)
  then have wf': "up_wf (put_channel ch ?new ?st)" by (rule put_channel_view(3) [OF wf])
  note d = updateChannelAutoDetach_view [OF wf'] and v = put_channel_view [OF wf]
  show ?thesis
    unfolding refines_def view_def ucm_def [symmetric]
    using d v(1,2) by (auto simp: fun_eq_iff new_channel_def cmm_Has_Get)
qed

lemma other_join_refines:
  assumes "up_wf st" and "get_channel st ch = Some uch"
  shows "refines (Join_by nick [ch]) st (put_channel ch (uch\<lparr>uch_Members := cmm_Set (uch_Members uch) nick []\<rparr>) st)"
proof -
  let ?u = "uch\<lparr>uch_Members := cmm_Set (uch_Members uch) nick []\<rparr>"
  have w: "channel_wf (ucm st) uch" by (rule get_channel_wf [OF assms])
  then have "channel_wf (ucm st) ?u" by (auto simp: channel_wf_def)
  then have "up_wf (put_channel ch ?u st)" by (rule put_channel_view(3) [OF assms(1)])
  moreover have "joined st c" if "ucm st c = ucm st ch" for c
    using get_channel_cong [OF assms(1) that] assms(2) by (simp add: joined_def)
  moreover have "cmm_Has (uch_Members ?u) n \<longleftrightarrow> cmm_Has (uch_Members uch) n \<or> ucm st n = ucm st nick" for n
    using w by (auto simp: cmm_Has_Get cmm_Get_Set channel_wf_def)
  ultimately show ?thesis
    unfolding refines_def view_def
    using put_channel_view(1,2) [OF assms(1)] in_channel_get [OF assms]
    by (auto simp: fun_eq_iff)
qed

lemma leave_channel_refines:
  assumes "up_wf st"
  shows "refines (OwnLeave [ch]) st (leave_channel ch st)"
proof (cases "get_channel st ch")
  case None
  then have "\<not> joined st c" if "ucm st c = ucm st ch" for c
    using get_channel_cong [OF assms that] by (simp add: joined_def)
  with None assms in_channel_joined show ?thesis
    by (auto simp: refines_def leave_channel_def view_def fun_eq_iff)
next
  case (Some uch)
  let ?st = "set_channels (\<lambda>chs. cmm_Del chs ch) st"
  have "refines (OwnLeave [ch]) st ?st"
    unfolding refines_def view_def using del_channel_view [OF assms] by (auto simp: fun_eq_iff)
  from refines_same [OF this forget_members_same] Some show ?thesis
    by (simp add: leave_channel_def)
qed

lemma remove_from_refines:
  assumes "up_wf st" and "get_channel st ch = Some uch"
  shows "refines (Leave_by nick [ch]) st (remove_from ch uch nick st)"
proof -
  let ?u = "remove_member nick uch"
  have w: "channel_wf (ucm st) uch" by (rule get_channel_wf [OF assms])
  then have "channel_wf (ucm st) ?u" by (auto simp: channel_wf_def remove_member_def)
  then have "up_wf (put_channel ch ?u st)" by (rule put_channel_view(3) [OF assms(1)])
  moreover have "joined st c" if "ucm st c = ucm st ch" for c
    using get_channel_cong [OF assms(1) that] assms(2) by (simp add: joined_def)
  moreover have "cmm_Has (uch_Members ?u) n \<longleftrightarrow> cmm_Has (uch_Members uch) n \<and> ucm st n \<noteq> ucm st nick" for n
    using w by (auto simp: cmm_Has_Get cmm_Get_Del channel_wf_def remove_member_def)
  ultimately have "refines (Leave_by nick [ch]) st (put_channel ch ?u st)"
    unfolding refines_def view_def
    using put_channel_view(1,2) [OF assms(1)] in_channel_get [OF assms]
    by (auto simp: fun_eq_iff)
  from refines_same [OF this forget_user_same] show ?thesis by (simp add: remove_from_def)
qed

lemma refines_joined:
  "refines (Join_by n chs) st st' \<Longrightarrow> joined st' c = joined st c"
  "refines (Leave_by n chs) st st' \<Longrightarrow> joined st' c = joined st c"
  by (auto simp: refines_def view_def)

lemma refines_Nil:
  "up_wf st \<Longrightarrow> refines (OwnJoin []) st st" "up_wf st \<Longrightarrow> refines (Join_by n []) st st"
  "up_wf st \<Longrightarrow> refines (OwnLeave []) st st" "up_wf st \<Longrightarrow> refines (Leave_by n []) st st"
  by (simp_all add: refines_def)

lemma refines_Cons:
  "refines (OwnJoin [c]) st st1 \<Longrightarrow> refines (OwnJoin chs) st1 st' \<Longrightarrow> refines (OwnJoin (c # chs)) st st'"
  "refines (Join_by n [c]) st st1 \<Longrightarrow> refines (Join_by n chs) st1 st' \<Longrightarrow> refines (Join_by n (c # chs)) st st'"
  "refines (OwnLeave [c]) st st1 \<Longrightarrow> refines (OwnLeave chs) st1 st' \<Longrightarrow> refines (OwnLeave (c # chs)) st st'"
  "refines (Leave_by n [c]) st st1 \<Longrightarrow> refines (Leave_by n chs) st1 st' \<Longrightarrow> refines (Leave_by n (c # chs)) st st'"
  unfolding refines_def by (simp_all add: member_step_Cons(1,3) [of _ c chs] member_step_Cons(2,4) [of _ n c chs])

lemma refines_wf: "refines ev st st' \<Longrightarrow> up_wf st'" "refines ev st st' \<Longrightarrow> isOurNick st' n = isOurNick st n"
  by (simp_all add: refines_def)

lemma join_channels_own:
  "up_wf st \<Longrightarrow> isOurNick st (msg_name msg) \<Longrightarrow>
   \<exists>acts st'. join_channels env msg chs st = (None, acts, st') \<and> refines (OwnJoin chs) st st'"
proof (induction chs arbitrary: st)
  case Nil
  then show ?case by (simp add: refines_Nil)
next
  case (Cons ch chs)
  let ?st1 = "updateChannelAutoDetach ch (put_channel ch (new_channel (n_casemap (us_net st)) ch) (orphan_timer ch st))"
  obtain a2 st2 where 2: "produce env False ch (with_first_param ch msg) 0 ?st1 = (a2, st2)" by force
  have r: "refines (OwnJoin [ch]) st st2"
    by (rule refines_same [OF own_join_refines [OF Cons.prems(1)] produce_same [OF 2]])
  from Cons.IH [OF refines_wf(1) [OF r]] refines_wf(2) [OF r] Cons.prems(2)
  obtain a3 st3 where 3: "join_channels env msg chs st2 = (None, a3, st3)" "refines (OwnJoin chs) st2 st3"
    by blast
  from refines_Cons(1) [OF r 3(2)] 2 3(1) Cons.prems(2) show ?case by simp
qed

lemma join_channels_other:
  "up_wf st \<Longrightarrow> \<not> isOurNick st (msg_name msg) \<Longrightarrow> \<forall>ch\<in>set chs. joined st ch \<Longrightarrow>
   \<exists>acts st'. join_channels env msg chs st = (None, acts, st') \<and> refines (Join_by (msg_name msg) chs) st st'"
proof (induction chs arbitrary: st)
  case Nil
  then show ?case by (simp add: refines_Nil)
next
  case (Cons ch chs)
  then obtain uch where u: "get_channel st ch = Some uch" by (auto simp: joined_def)
  let ?st1 = "put_channel ch (uch\<lparr>uch_Members := cmm_Set (uch_Members uch) (msg_name msg) []\<rparr>) st"
  obtain a2 st2 where 2: "produce env False ch (with_first_param ch msg) 0 ?st1 = (a2, st2)" by force
  have r: "refines (Join_by (msg_name msg) [ch]) st st2"
    by (rule refines_same [OF other_join_refines [OF Cons.prems(1) u] produce_same [OF 2]])
  from Cons.IH [OF refines_wf(1) [OF r]] refines_wf(2) [OF r] refines_joined(1) [OF r] Cons.prems(2,3)
  obtain a3 st3 where 3: "join_channels env msg chs st2 = (None, a3, st3)" "refines (Join_by (msg_name msg) chs) st2 st3"
    by auto
  from refines_Cons(2) [OF r 3(2)] 2 3(1) Cons.prems(2) u show ?case by simp
qed

lemma part_channels_own:
  "up_wf st \<Longrightarrow> isOurNick st (msg_name msg) \<Longrightarrow>
   \<exists>acts st'. part_channels env msg chs st = (None, acts, st') \<and> refines (OwnLeave chs) st st'"
proof (induction chs arbitrary: st)
  case Nil
  then show ?case by (simp add: refines_Nil)
next
  case (Cons ch chs)
  obtain a2 st2 where 2: "produce env False ch (with_first_param ch msg) 0 (leave_channel ch st) = (a2, st2)" by force
  have r: "refines (OwnLeave [ch]) st st2"
    by (rule refines_same [OF leave_channel_refines [OF Cons.prems(1)] produce_same [OF 2]])
  from Cons.IH [OF refines_wf(1) [OF r]] refines_wf(2) [OF r] Cons.prems(2)
  obtain a3 st3 where 3: "part_channels env msg chs st2 = (None, a3, st3)" "refines (OwnLeave chs) st2 st3"
    by blast
  from refines_Cons(3) [OF r 3(2)] 2 3(1) Cons.prems(2) show ?case by simp
qed

lemma part_channels_other:
  "up_wf st \<Longrightarrow> \<not> isOurNick st (msg_name msg) \<Longrightarrow> \<forall>ch\<in>set chs. joined st ch \<Longrightarrow>
   \<exists>acts st'. part_channels env msg chs st = (None, acts, st') \<and> refines (Leave_by (msg_name msg) chs) st st'"
proof (induction chs arbitrary: st)
  case Nil
  then show ?case by (simp add: refines_Nil)
next
  case (Cons ch chs)
  then obtain uch where u: "get_channel st ch = Some uch" by (auto simp: joined_def)
  obtain a2 st2 where 2: "produce env False ch (with_first_param ch msg) 0 (remove_from ch uch (msg_name msg) st) = (a2, st2)"
    by force
  have r: "refines (Leave_by (msg_name msg) [ch]) st st2"
    by (rule refines_same [OF remove_from_refines [OF Cons.prems(1) u] produce_same [OF 2]])
  from Cons.IH [OF refines_wf(1) [OF r]] refines_wf(2) [OF r] refines_joined(2) [OF r] Cons.prems(2,3)
  obtain a3 st3 where 3: "part_channels env msg chs st2 = (None, a3, st3)" "refines (Leave_by (msg_name msg) chs) st2 st3"
    by auto
  from refines_Cons(4) [OF r 3(2)] 2 3(1) Cons.prems(2) u show ?case by simp
qed

lemma get_channel_map: "get_channel (set_channels (cmm_map (\<lambda>_. g)) st) c = map_option g (get_channel st c)"
  by (simp add: get_channel_def set_channels_def set_uc_def cmm_Get_map)

lemma map_channels_wf:
  assumes "up_wf st" and "\<And>ch. channel_wf (ucm st) ch \<Longrightarrow> channel_wf (ucm st) (g ch)"
  shows "up_wf (set_channels (cmm_map (\<lambda>_. g)) st)"
  using assms by (auto simp: up_wf_def set_channels_def set_uc_def ucm_def intro: all_values_map)

lemma map_channels_view:
  assumes wf: "up_wf st" and g: "\<And>ch. channel_wf (ucm st) ch \<Longrightarrow> channel_wf (ucm st) (g ch)"
    and h: "\<And>c ch n. get_channel st c = Some ch \<Longrightarrow> channel_wf (ucm st) ch \<Longrightarrow>
      cmm_Has (uch_Members (g ch)) n \<longleftrightarrow> P (cmm_Has (uch_Members ch)) n"
    and P: "\<And>n. \<not> P (\<lambda>_. False) n"
  shows "view (set_channels (cmm_map (\<lambda>_. g)) st) = (joined st, \<lambda>c n. P (in_channel st c) n)"
proof -
  have "in_channel (set_channels (cmm_map (\<lambda>_. g)) st) c n = P (in_channel st c) n" for c n
  proof (cases "get_channel st c")
    case None
    then have "in_channel st c = (\<lambda>_. False)" by (simp add: in_channel_def fun_eq_iff)
    with None P show ?thesis by (simp add: in_channel_def get_channel_map)
  next
    case (Some ch)
    then have "in_channel st c = cmm_Has (uch_Members ch)" by (simp add: in_channel_def fun_eq_iff)
    with Some h [OF Some get_channel_wf [OF wf Some]] show ?thesis
      by (simp add: in_channel_def get_channel_map)
  qed
  moreover have "joined (set_channels (cmm_map (\<lambda>_. g)) st) = joined st"
    by (simp add: joined_def get_channel_map fun_eq_iff)
  ultimately show ?thesis by (simp add: view_def fun_eq_iff)
qed

lemma remove_member_view:
  assumes "up_wf st"
  shows "up_wf (set_channels (cmm_map (\<lambda>_ ch. if cmm_Has (uch_Members ch) nick then remove_member nick ch else ch)) st)"
    and "view (set_channels (cmm_map (\<lambda>_ ch. if cmm_Has (uch_Members ch) nick then remove_member nick ch else ch)) st)
      = member_step (ucm st) (Quit_by nick) (view st)"
proof -
  let ?g = "\<lambda>ch. if cmm_Has (uch_Members ch) nick then remove_member nick ch else ch"
  have g: "channel_wf (ucm st) (?g ch)" if "channel_wf (ucm st) ch" for ch
    using that by (auto simp: channel_wf_def remove_member_def)
  then show "up_wf (set_channels (cmm_map (\<lambda>_. ?g)) st)" by (rule map_channels_wf [OF assms])
  have "view (set_channels (cmm_map (\<lambda>_. ?g)) st) = (joined st, \<lambda>c n. in_channel st c n \<and> ucm st n \<noteq> ucm st nick)"
  proof (rule map_channels_view [OF assms g, where P = "\<lambda>M n. M n \<and> ucm st n \<noteq> ucm st nick"])
    fix c ch n
    assume w: "channel_wf (ucm st) ch"
    then show "cmm_Has (uch_Members (?g ch)) n \<longleftrightarrow> cmm_Has (uch_Members ch) n \<and> ucm st n \<noteq> ucm st nick"
      using cmm_Get_cong [of "uch_Members ch" n nick]
      by (auto simp: cmm_Has_Get cmm_Get_Del channel_wf_def remove_member_def)
  qed auto
  then show "view (set_channels (cmm_map (\<lambda>_. ?g)) st) = member_step (ucm st) (Quit_by nick) (view st)"
    by (simp add: view_def)
qed

lemma rename_member_view:
  assumes "up_wf st"
  shows "up_wf (set_channels (cmm_map (\<lambda>_. rename_member old new)) st)"
    and "view (set_channels (cmm_map (\<lambda>_. rename_member old new)) st) = member_step (ucm st) (Rename old new) (view st)"
proof -
  have g: "channel_wf (ucm st) (rename_member old new ch)" if "channel_wf (ucm st) ch" for ch
    using that by (auto simp: channel_wf_def rename_member_def split: option.split)
  then show "up_wf (set_channels (cmm_map (\<lambda>_. rename_member old new)) st)" by (rule map_channels_wf [OF assms])
  let ?P = "\<lambda>M n. if ucm st n = ucm st new then M old \<or> M new else M n \<and> ucm st n \<noteq> ucm st old"
  have "view (set_channels (cmm_map (\<lambda>_. rename_member old new)) st) = (joined st, \<lambda>c n. ?P (in_channel st c) n)"
  proof (rule map_channels_view [OF assms g, where P = ?P])
    fix c ch n
    assume w: "channel_wf (ucm st) ch"
    then have "cmm_casemap (uch_Members ch) = ucm st" by (simp add: channel_wf_def)
    then show "cmm_Has (uch_Members (rename_member old new ch)) n \<longleftrightarrow> ?P (cmm_Has (uch_Members ch)) n"
      using cmm_Get_cong [of "uch_Members ch" n new] cmm_Get_cong [of "uch_Members ch" n old]
      by (auto simp: cmm_Has_Get cmm_Get_Set cmm_Get_Del rename_member_def split: option.split)
  qed auto
  then show "view (set_channels (cmm_map (\<lambda>_. rename_member old new)) st) = member_step (ucm st) (Rename old new) (view st)"
    by (simp add: view_def)
qed

text \<open>The events of the messages, and the messages that a server may send: others join and leave
  only channels that the bouncer has joined.\<close>

definition member_event_of :: "up_state \<Rightarrow> irc_message \<Rightarrow> member_event option" where
  "member_event_of st msg =
     (case Params msg of
        [] \<Rightarrow> (if Command msg = ''QUIT'' then Some (Quit_by (msg_name msg)) else None)
      | p # ps \<Rightarrow>
          if Command msg = ''JOIN'' then
            Some (if isOurNick st (msg_name msg) then OwnJoin (Split p CHR '','') else Join_by (msg_name msg) (Split p CHR '',''))
          else if Command msg = ''PART'' then
            Some (if isOurNick st (msg_name msg) then OwnLeave (Split p CHR '','') else Leave_by (msg_name msg) (Split p CHR '',''))
          else if Command msg = ''KICK'' then
            (case ps of [] \<Rightarrow> None
             | user # _ \<Rightarrow> Some (if isOurNick st user then OwnLeave [p] else Leave_by user [p]))
          else if Command msg = ''QUIT'' then Some (Quit_by (msg_name msg))
          else if Command msg = ''NICK'' then Some (Rename (msg_name msg) p)
          else None)"

fun event_known :: "up_state \<Rightarrow> member_event \<Rightarrow> bool" where
  "event_known st (Join_by n chs) \<longleftrightarrow> list_all (joined st) chs"
| "event_known st (Leave_by n chs) \<longleftrightarrow> list_all (joined st) chs"
| "event_known st _ \<longleftrightarrow> True"

definition handle_membership :: "up_env \<Rightarrow> irc_message \<Rightarrow> up_state \<Rightarrow> up_result" where
  "handle_membership env msg st =
     (if Command msg = ''NICK'' then handle_NICK env msg st
      else if Command msg = ''JOIN'' then handle_JOIN env msg st
      else if Command msg = ''PART'' then handle_PART env msg st
      else if Command msg = ''KICK'' then handle_KICK env msg st
      else handle_QUIT env msg st)"


section \<open>The simulation\<close>

lemma cacheUserInfo_ok:
  assumes "nick \<noteq> []"
  obtains st' where "cacheUserInfo nick info st = Some st'" "same_channels st st'"
  using assms cacheUserInfo_same [of nick info st] by (auto simp: cacheUserInfo_def cache_user_def)

lemma own_nick_changed_view:
  "up_wf (own_nick_changed env n st) = up_wf st" "view (own_nick_changed env n st) = view st"
  "ucm (own_nick_changed env n st) = ucm st"
  by (simp_all add: own_nick_changed_def Let_def set_uc_def stopRegainNickTimer_def up_wf_def view_def ucm_def
      joined_def in_channel_def get_channel_def fun_eq_iff)

text \<open>\<open>simulates\<close> is \<open>refines\<close> without the nick of the bouncer, which a \<open>NICK\<close> message changes.\<close>

definition simulates :: "member_event \<Rightarrow> up_state \<Rightarrow> up_state \<Rightarrow> bool" where
  "simulates ev st st' \<longleftrightarrow> up_wf st' \<and> ucm st' = ucm st \<and> view st' = member_step (ucm st) ev (view st)"

lemma refines_simulates: "refines ev st st' \<Longrightarrow> simulates ev st st'"
  by (simp add: refines_def simulates_def)

lemma simulates_same: "simulates ev st st1 \<Longrightarrow> same_channels st1 st' \<Longrightarrow> simulates ev st st'"
  by (simp add: simulates_def up_wf_same ucm_same view_same)

lemma refines_from_same:
  "same_channels st st1 \<Longrightarrow> refines ev st1 st' \<Longrightarrow> refines ev st st'"
  by (simp add: refines_def ucm_same isOurNick_same view_same)

lemma handle_NICK_simulates:
  assumes "up_wf st" and "msg_name msg \<noteq> []" and "Params msg = new # rest"
  shows "\<exists>acts st'. handle_NICK env msg st = (None, acts, st') \<and> simulates (Rename (msg_name msg) new) st st'"
proof -
  let ?me = "isOurNick st (msg_name msg)"
  define st1 where "st1 = (if ?me then own_nick_changed env new st else st)"
  define st2 where "st2 = set_channels (cmm_map (\<lambda>_. rename_member (msg_name msg) new)) st1"
  have "up_wf st1" "view st1 = view st" "ucm st1 = ucm st"
    using assms(1) by (simp_all add: st1_def own_nick_changed_view)
  with rename_member_view [of st1] have 2: "simulates (Rename (msg_name msg) new) st st2"
    by (simp add: simulates_def st2_def)
  obtain log st3 where 3: "log_all env msg (channels_with (msg_name msg) st1) st2 = (log, st3)" by force
  obtain st4 where 4: "cacheUserInfo (msg_name msg) (no_info\<lparr>uu_Nickname := new\<rparr>) st3 = Some st4" "same_channels st3 st4"
    by (rule cacheUserInfo_ok [OF assms(2)])
  obtain acts st5 where 5: "updateMonitor env st4 = (acts, st5)" by force
  have s4: "simulates (Rename (msg_name msg) new) st st4"
    by (rule simulates_same [OF simulates_same [OF 2 log_all_same [OF 3]] 4(2)])
  with simulates_same [OF s4 updateMonitor_same [OF 5]] show ?thesis
    using assms(3) 3 4(1) 5 by (simp add: handle_NICK_def Let_def flip: st1_def st2_def)
qed

lemma handle_QUIT_simulates:
  assumes "up_wf st"
  shows "\<exists>acts st'. handle_QUIT env msg st = (None, acts, st') \<and> simulates (Quit_by (msg_name msg)) st st'"
proof -
  let ?nick = "msg_name msg"
  define st1 where "st1 = set_channels
    (cmm_map (\<lambda>_ ch. if cmm_Has (uch_Members ch) ?nick then remove_member ?nick ch else ch)) st"
  have 1: "simulates (Quit_by ?nick) st st1"
    unfolding simulates_def using remove_member_view [OF assms, of ?nick] by (simp add: st1_def)
  obtain log st2 where 2: "log_all env msg (channels_with ?nick st) st1 = (log, st2)" by force
  have "same_channels st2 (set_uc (\<lambda>uc. uc\<lparr>uc_users := cmm_Del (uc_users uc) ?nick\<rparr>) st2)"
    by (simp add: same_channels_def set_uc_def)
  from simulates_same [OF simulates_same [OF 1 log_all_same [OF 2]] this] 2 show ?thesis
    by (simp add: handle_QUIT_def Let_def flip: st1_def)
qed

lemma handle_JOIN_refines:
  assumes "up_wf st" and "msg_name msg \<noteq> []" and "Params msg = chs # rest"
    and "isOurNick st (msg_name msg) \<or> list_all (joined st) (Split chs CHR '','')"
  shows "\<exists>acts st'. handle_JOIN env msg st = (None, acts, st')
    \<and> refines (if isOurNick st (msg_name msg) then OwnJoin (Split chs CHR '','')
               else Join_by (msg_name msg) (Split chs CHR '','')) st st'"
proof -
  let ?chs = "Split chs CHR '',''"
  obtain st1 where 1: "cacheUserInfo (msg_name msg) (join_info msg (us_uc st)) st = Some st1" "same_channels st st1"
    by (rule cacheUserInfo_ok [OF assms(2)])
  have wf: "up_wf st1" and me: "isOurNick st1 (msg_name msg) = isOurNick st (msg_name msg)"
    using assms(1) 1(2) by (simp_all add: up_wf_same isOurNick_same)
  have "\<exists>acts st'. join_channels env msg ?chs st1 = (None, acts, st') \<and>
    refines (if isOurNick st (msg_name msg) then OwnJoin ?chs else Join_by (msg_name msg) ?chs) st1 st'"
    using join_channels_own [OF wf] join_channels_other [OF wf, of msg ?chs] me assms(4) 1(2)
    by (auto simp: list_all_iff joined_same)
  with refines_from_same [OF 1(2)] assms(3) 1(1) show ?thesis
    by (auto simp: handle_JOIN_def)
qed

lemma handle_PART_refines:
  assumes "up_wf st" and "Params msg = chs # rest"
    and "isOurNick st (msg_name msg) \<or> list_all (joined st) (Split chs CHR '','')"
  shows "\<exists>acts st'. handle_PART env msg st = (None, acts, st')
    \<and> refines (if isOurNick st (msg_name msg) then OwnLeave (Split chs CHR '','')
               else Leave_by (msg_name msg) (Split chs CHR '','')) st st'"
  using part_channels_own [OF assms(1)] part_channels_other [OF assms(1)] assms(2,3)
  by (auto simp: handle_PART_def list_all_iff)

lemma orphan_refines: "refines ev (orphan_timer c st) st' \<Longrightarrow> refines ev st st'"
proof -
  have "view (orphan_timer c st) = view st" by (simp add: view_def fun_eq_iff)
  then show "refines ev (orphan_timer c st) st' \<Longrightarrow> refines ev st st'" by (simp add: refines_def)
qed

lemma handle_KICK_refines:
  assumes "up_wf st" and "Params msg = ch # user # rest" and "isOurNick st user \<or> joined st ch"
  shows "\<exists>acts st'. handle_KICK env msg st = (None, acts, st')
    \<and> refines (if isOurNick st user then OwnLeave [ch] else Leave_by user [ch]) st st'"
proof (cases "isOurNick st user")
  case True
  obtain acts st2 where 2: "produce env False ch msg 0 (leave_channel ch (orphan_timer ch st)) = (acts, st2)" by force
  have "refines (OwnLeave [ch]) (orphan_timer ch st) (leave_channel ch (orphan_timer ch st))"
    using assms(1) by (simp add: leave_channel_refines)
  from orphan_refines [OF refines_same [OF this produce_same [OF 2]]] True 2 assms(2) show ?thesis
    by (simp add: handle_KICK_def)
next
  case False
  with assms(3) obtain uch where u: "get_channel st ch = Some uch" by (auto simp: joined_def)
  obtain acts st2 where 2: "produce env False ch msg 0 (remove_from ch uch user st) = (acts, st2)" by force
  from refines_same [OF remove_from_refines [OF assms(1) u] produce_same [OF 2]] False 2 u assms(2) show ?thesis
    by (simp add: handle_KICK_def)
qed

text \<open>C1. The tracking of channel members refines its specification: every \<open>JOIN\<close>, \<open>PART\<close>, \<open>KICK\<close>,
  \<open>QUIT\<close> and \<open>NICK\<close> message of the server, with any list of channels, is handled without an error and
  changes the set of joined channels and the set of known members of each of them the way the event
  says, up to the case mapping of the network, and the maps of the connection stay well formed.  The
  message must name its sender, and others join and leave only channels that the bouncer is in.\<close>

theorem membership_refinement:
  assumes "up_wf st" and "msg_name msg \<noteq> []"
    and "member_event_of st msg = Some ev" and "event_known st ev"
  shows "\<exists>acts st'. handle_membership env msg st = (None, acts, st') \<and> up_wf st' \<and> ucm st' = ucm st
    \<and> view st' = member_step (ucm st) ev (view st)"
proof -
  consider (nick) p ps where "Command msg = ''NICK''" "Params msg = p # ps" "ev = Rename (msg_name msg) p"
    | (join) p ps where "Command msg = ''JOIN''" "Params msg = p # ps"
        "ev = (if isOurNick st (msg_name msg) then OwnJoin (Split p CHR '','') else Join_by (msg_name msg) (Split p CHR '',''))"
    | (part) p ps where "Command msg = ''PART''" "Params msg = p # ps"
        "ev = (if isOurNick st (msg_name msg) then OwnLeave (Split p CHR '','') else Leave_by (msg_name msg) (Split p CHR '',''))"
    | (kick) p u ps where "Command msg = ''KICK''" "Params msg = p # u # ps"
        "ev = (if isOurNick st u then OwnLeave [p] else Leave_by u [p])"
    | (quit) "Command msg = ''QUIT''" "ev = Quit_by (msg_name msg)"
    using assms(3) by (auto simp: member_event_of_def split: list.splits if_splits)
  then have "\<exists>acts st'. handle_membership env msg st = (None, acts, st') \<and> simulates ev st st'"
  proof cases
    case nick
    then show ?thesis using handle_NICK_simulates [OF assms(1,2)] by (simp add: handle_membership_def)
  next
    case join
    then show ?thesis
      using handle_JOIN_refines [OF assms(1,2) join(2), of env] assms(4)
      by (auto simp: handle_membership_def intro: refines_simulates split: if_splits)
  next
    case part
    then show ?thesis
      using handle_PART_refines [OF assms(1) part(2), of env] assms(4)
      by (auto simp: handle_membership_def intro: refines_simulates split: if_splits)
  next
    case kick
    then show ?thesis
      using handle_KICK_refines [OF assms(1) kick(2), of env] assms(4)
      by (auto simp: handle_membership_def intro: refines_simulates split: if_splits)
  next
    case quit
    then show ?thesis using handle_QUIT_simulates [OF assms(1)] by (simp add: handle_membership_def)
  qed
  then show ?thesis by (simp add: simulates_def)
qed

lemma fresh_up_state_wf [simp]: "up_wf (fresh_up_state nick channels)"
  by (simp add: up_wf_def fresh_up_state_def new_upstream_conn_def newNetwork_def all_values_def
      NewCaseMappingMap_def cmm_ok_def)

definition from_nick :: "string \<Rightarrow> string \<Rightarrow> string list \<Rightarrow> irc_message" where
  "from_nick nick cmd ps = (mk_msg cmd ps)\<lparr>Prefix := Some \<lparr>Name = nick, User = [], Host = []\<rparr>\<rparr>"

theorem membership_refinement_witness:
  "\<exists>acts st'. handle_membership (example_env []) (from_nick ''bob'' ''JOIN'' [''#a,#b'']) (fresh_up_state ''Bob'' []) = (None, acts, st')
    \<and> up_wf st' \<and> ucm st' = ucm (fresh_up_state ''Bob'' [])
    \<and> view st' = member_step (ucm (fresh_up_state ''Bob'' [])) (OwnJoin [''#a'', ''#b'']) (view (fresh_up_state ''Bob'' []))"
proof (rule membership_refinement)
  show "member_event_of (fresh_up_state ''Bob'' []) (from_nick ''bob'' ''JOIN'' [''#a,#b'']) = Some (OwnJoin [''#a'', ''#b''])"
    by code_simp
qed (simp_all add: from_nick_def msg_name_def)

text \<open>A bouncer that is kicked from a channel leaves the timer for detaching it running, a bouncer
  that parts stops it: after \<open>KICK\<close> the timer of the channel object still runs though the object is
  no longer reachable, after \<open>PART\<close> no more timers run than before.\<close>

theorem kick_leaves_timer:
  assumes "get_channel st ch = Some uch" and "uch_detachTimer uch = Some d"
    and "isOurNick st nick" and "CHR '','' \<notin> set ch"
  shows "us_orphanTimers (snd (snd (handle_KICK env (from_nick kicker ''KICK'' [ch, nick]) st))) = uch_Name uch # us_orphanTimers st
    \<and> us_orphanTimers (snd (snd (handle_PART env (from_nick nick ''PART'' [ch]) st))) = us_orphanTimers st"
proof -
  have leave: "us_orphanTimers (leave_channel ch st1) = us_orphanTimers st1" for st1
    using forget_members_same
    by (auto simp: leave_channel_def same_channels_def set_channels_def set_uc_def split: option.split)
  have prod: "us_orphanTimers (snd (produce env False ch m 0 st1)) = us_orphanTimers st1" for m st1
    by (metis prod.collapse produce_same same_channels_def)
  have split: "Split ch CHR '','' = [ch]"
    by (rule Split_single [OF assms(4)])
  have "us_orphanTimers (orphan_timer ch st) = uch_Name uch # us_orphanTimers st"
    using assms(1,2) by (simp add: orphan_timer_def)
  then show ?thesis
    using assms(3) leave prod
    by (simp add: handle_KICK_def handle_PART_def from_nick_def msg_name_def split case_prod_beta)
qed

theorem kick_leaves_timer_witness:
  "\<exists>st. us_orphanTimers (snd (snd (handle_KICK (example_env []) (from_nick ''op'' ''KICK'' [''#a'', ''bob'']) st))) = ''#a'' # us_orphanTimers st
    \<and> us_orphanTimers (snd (snd (handle_PART (example_env []) (from_nick ''bob'' ''PART'' [''#a'']) st))) = us_orphanTimers st"
proof -
  let ?uch = "(new_channel casemapRFC1459 ''#a'')\<lparr>uch_detachTimer := Some 60\<rparr>"
  let ?st = "put_channel ''#a'' ?uch (fresh_up_state ''bob'' [])"
  have g: "get_channel ?st ''#a'' = Some ?uch" and n: "uch_Name ?uch = ''#a''"
    by (simp_all add: get_channel_def put_channel_def set_channels_def set_uc_def cmm_Get_Set new_channel_def)
  have me: "isOurNick ?st ''bob''"
    by (simp add: isOurNick_def equalCasemap_def put_channel_def set_channels_def set_uc_def fresh_up_state_def)
  show ?thesis
    by (rule exI, rule kick_leaves_timer [OF g _ me, of 60 "example_env []" "''op''", unfolded n]) simp_all
qed

end
