(* ===== verification/Upstream_Messages.thy ===== *)
theory Upstream_Messages
  imports Upstream_Channels
begin

text \<open>
  The messages of an upstream server that do not concern the membership of channels, branches of
  \<open>handleMessage\<close> in \<^verbatim>\<open>src/upstream.go\<close>: text messages with detached channels and notifications,
  authentication, registration, ISUPPORT, replies to pending commands, invitations, monitoring
  and errors; with \<open>isHighlight\<close>, \<open>detachedMessageNeedsRelay\<close> and \<open>autoSaveSASLPlain\<close> of
  \<^verbatim>\<open>src/user.go\<close>.
\<close>

section \<open>Text messages\<close>

definition user_FormatServerTime :: "msg_store_kind \<Rightarrow> int \<Rightarrow> string" where
  "user_FormatServerTime store t = FormatServerTime (if store = FSStore then t - t mod 1000000000 else t)"

text \<open>\<open>None\<close> is the endless loop on an empty nick.\<close>

definition net_isHighlight :: "up_env \<Rightarrow> up_state \<Rightarrow> irc_message \<Rightarrow> bool option" where
  "net_isHighlight env st msg =
     (if Command msg \<noteq> ''PRIVMSG'' \<and> Command msg \<noteq> ''NOTICE'' then Some False
      else
        let nick = (if us_current st then uc_nick (us_uc st) else wantNick env (us_net st)) in
        if msg_name msg = nick then Some False else isHighlight (e_unicode env) (Params msg ! 1) nick)"

definition detachedMessageNeedsRelay :: "bool \<Rightarrow> db_channel \<Rightarrow> bool" where
  "detachedMessageNeedsRelay highlight ch \<longleftrightarrow> ch_RelayDetached ch = FilterMessage
     \<or> ((ch_RelayDetached ch = FilterHighlight \<or> ch_RelayDetached ch = FilterDefault) \<and> highlight)"

text \<open>The channel object after the call comes first.\<close>

definition handleDetachedMessage ::
    "up_env \<Rightarrow> bool \<Rightarrow> db_channel \<Rightarrow> irc_message \<Rightarrow> up_state \<Rightarrow> db_channel \<times> up_action list \<times> up_state" where
  "handleDetachedMessage env highlight ch msg st =
     (let relay = (if detachedMessageNeedsRelay highlight ch
                   then map (\<lambda>dc. ARelayDetached (dc_id dc) msg) (net_dcs env (us_net st)) else [])
      in if ch_ReattachOn ch = FilterMessage \<or> (ch_ReattachOn ch = FilterHighlight \<and> highlight) then
           let (acts, st) = net_attach env ch st;
               ch = (if ch_Detached ch then ch\<lparr>ch_Detached := False, ch_DetachedInternalMsgID := []\<rparr> else ch)
           in (ch, relay @ acts @ [AStoreChannel ch], st)
         else (ch, relay, st))"

text \<open>The buffer a message belongs to, and whether it is a direct message.\<close>

definition message_buffer :: "string \<Rightarrow> irc_message \<Rightarrow> up_state \<Rightarrow> string \<times> bool" where
  "message_buffer target msg st =
     (let direct = isOurNick st target;
          buffer = (if direct then msg_name msg else target)
      in case go_get (Tags msg) ''+draft/channel-context'' of
           None \<Rightarrow> (buffer, direct)
         | Some t \<Rightarrow>
             (case get_channel st t of
                Some ch \<Rightarrow> if cmm_Has (uch_Members ch) (msg_name msg) then (uch_Name ch, False) else (buffer, direct)
              | None \<Rightarrow> (buffer, direct)))"

text \<open>The part on saved channels: highlight, whether the channel is detached and not relayed, the
  actions and the state.\<close>

definition saved_channel_message ::
    "up_env \<Rightarrow> string \<Rightarrow> bool \<Rightarrow> irc_message \<Rightarrow> up_state \<Rightarrow> (bool \<times> bool \<times> up_action list \<times> up_state) option" where
  "saved_channel_message env buffer relevant msg st =
     (case cmm_Get (n_channels (us_net st)) buffer of
        None \<Rightarrow> Some (False, False, [], st)
      | Some ch \<Rightarrow>
          if \<not> relevant then Some (False, False, [], st)
          else (case net_isHighlight env st msg of
              None \<Rightarrow> None
            | Some highlight \<Rightarrow>
                let (ch, acts, st) = (if ch_Detached ch then handleDetachedMessage env highlight ch msg st else (ch, [], st));
                    st = (if ch_DetachOn ch = FilterMessage \<or> ch_DetachOn ch = FilterDefault
                            \<or> (ch_DetachOn ch = FilterHighlight \<and> highlight)
                          then updateChannelAutoDetach buffer st else st)
                in Some (highlight, ch_Detached ch \<and> ch_RelayDetached ch = FilterNone, acts, st)))"

definition is_server_message :: "string \<Rightarrow> irc_message \<Rightarrow> up_state \<Rightarrow> bool" where
  "is_server_message target msg st \<longleftrightarrow> \<not> uc_registered (us_uc st)
     \<or> equalCasemap (us_net st) (msg_name msg) (Name (uc_serverPrefix (us_uc st))) \<or> target = ''*'' \<or> HasPrefix target ''$''"

text \<open>The end of the branch: the notification, if the message may cause one and its sender is neither
  muted nor blocked, and the delivery.\<close>

definition deliver_text :: "up_env \<Rightarrow> 64 word \<Rightarrow> irc_message \<Rightarrow> string \<Rightarrow> bool \<Rightarrow> up_action list \<Rightarrow> up_state \<Rightarrow> up_result" where
  "deliver_text env did msg buffer notify acts st =
     (let mt = e_messageTarget env (n_casemap (us_net st) (msg_name msg));
          blocked = (case mt of None \<Rightarrow> False | Some (_, b) \<Rightarrow> b);
          push = (notify \<and> (case mt of None \<Rightarrow> True | Some (muted, b) \<Rightarrow> \<not> muted \<and> \<not> b));
          (acts', st') = produce env blocked buffer msg did st
      in if push then
           (case ParseServerTime (case go_get (Tags msg) ''time'' of None \<Rightarrow> [] | Some t \<Rightarrow> t) of
              None \<Rightarrow> (Some UpPanic, acts, st)
            | Some ts \<Rightarrow> (None, acts @ [APushLater buffer ts msg] @ acts', st'))
         else (None, acts @ acts', st'))"

definition handle_text :: "up_env \<Rightarrow> 64 word \<Rightarrow> irc_message \<Rightarrow> up_state \<Rightarrow> up_result" where
  "handle_text env did msg st =
     (let isText = (Command msg = ''NOTICE'' \<or> Command msg = ''PRIVMSG'') in
      if length (Params msg) < (if isText then 2 else 1) then (Some UpNeedMoreParams, [], st)
      else
        let target = TrimLeft (Params msg ! 0) (uc_availableStatusMsg (us_uc st)) in
        if equalCasemap (us_net st) (msg_name msg) serviceNick then (None, [], st)
        else if equalCasemap (us_net st) target serviceNick then (None, [], st)
        else if is_server_message target msg st then
          (let (acts, st) = produce env False [] msg 0 st in (None, acts, st))
        else
          let (buffer, direct) = message_buffer target msg st;
              self = isOurNick st (msg_name msg)
          in case saved_channel_message env buffer (isText \<and> \<not> self) msg st of
               None \<Rightarrow> (Some UpDiverges, [], st)
             | Some (highlight, detached, acts, st') \<Rightarrow>
                 deliver_text env did msg buffer (\<not> self \<and> \<not> detached \<and> isText \<and> (highlight \<or> direct)) acts st')"

section \<open>Authentication\<close>

definition abort_sasl :: irc_message where
  "abort_sasl = mk_msg ''AUTHENTICATE'' [''*'']"

definition handle_AUTHENTICATE :: "up_env \<Rightarrow> irc_message \<Rightarrow> up_state \<Rightarrow> up_result" where
  "handle_AUTHENTICATE env msg st =
     (case uc_saslClient (us_uc st) of
        None \<Rightarrow> (Some UpUnexpectedAuthenticate, [], st)
      | Some client \<Rightarrow>
          (case Params msg of
             [] \<Rightarrow> (Some UpNeedMoreParams, [ASend abort_sasl], st)
           | challengeStr # _ \<Rightarrow>
               (case (if challengeStr = ''+'' then Some [] else std_decode challengeStr) of
                  None \<Rightarrow> (Some UpSasl, [ASend abort_sasl], st)
                | Some challenge \<Rightarrow>
                    let (resp, st) =
                      (if \<not> uc_saslStarted (us_uc st)
                       then (e_saslStart env client, set_uc (\<lambda>uc. uc\<lparr>uc_saslStarted := True\<rparr>) st)
                       else (e_saslNext env client challenge, st))
                    in (case resp of
                          None \<Rightarrow> (Some UpSasl, [ASend abort_sasl], st)
                        | Some r \<Rightarrow> (None, map ASend (GenerateSASL r), st)))))"

definition update_account_host :: "up_env \<Rightarrow> up_state \<Rightarrow> up_action list" where
  "update_account_host env st = concat (map (\<lambda>dc. [AUpdateAccount (dc_id dc), AUpdateHost (dc_id dc)]) (net_dcs env (us_net st)))"

definition handle_RPL_LOGGEDIN :: "up_env \<Rightarrow> irc_message \<Rightarrow> up_state \<Rightarrow> up_result" where
  "handle_RPL_LOGGEDIN env msg st =
     (case Params msg of
        _ # rawPrefix # account # _ \<Rightarrow>
          let p = e_parsePrefix env rawPrefix in
          (None, update_account_host env st,
           set_uc (\<lambda>uc. uc\<lparr>uc_account := account, uc_username := User p, uc_hostname := Host p\<rparr>) st)
      | _ \<Rightarrow> (Some UpNeedMoreParams, [], st))"

definition handle_RPL_LOGGEDOUT :: "up_env \<Rightarrow> irc_message \<Rightarrow> up_state \<Rightarrow> up_result" where
  "handle_RPL_LOGGEDOUT env msg st =
     (case Params msg of
        _ # rawPrefix # _ \<Rightarrow>
          let p = e_parsePrefix env rawPrefix in
          (None, update_account_host env st,
           set_uc (\<lambda>uc. uc\<lparr>uc_account := [], uc_username := User p, uc_hostname := Host p\<rparr>) st)
      | _ \<Rightarrow> (Some UpNeedMoreParams, [], st))"

definition handle_RPL_VISIBLEHOST :: "up_env \<Rightarrow> irc_message \<Rightarrow> up_state \<Rightarrow> up_result" where
  "handle_RPL_VISIBLEHOST env msg st =
     (case Params msg of
        _ # rawHost # _ \<Rightarrow>
          let parts = SplitN rawHost CHR ''@'' 2 in
          (None, map (\<lambda>dc. AUpdateHost (dc_id dc)) (net_dcs env (us_net st)),
           if length parts = 2 then set_uc (\<lambda>uc. uc\<lparr>uc_username := parts ! 0, uc_hostname := parts ! 1\<rparr>) st
           else set_uc (\<lambda>uc. uc\<lparr>uc_hostname := rawHost\<rparr>) st)
      | _ \<Rightarrow> (Some UpNeedMoreParams, [], st))"

text \<open>Credentials are saved unless another mechanism is configured.\<close>

definition autoSaveSASLPlain :: "string \<Rightarrow> string \<Rightarrow> up_state \<Rightarrow> up_action list \<times> up_state" where
  "autoSaveSASLPlain username password st =
     (let net = us_net st; r = n_record net; m = sasl_Mechanism (net_SASL r) in
      if m \<noteq> [] \<and> m \<noteq> ''PLAIN'' then ([], st)
      else
        let r = r\<lparr>net_SASL := (net_SASL r)\<lparr>sasl_Mechanism := ''PLAIN'', sasl_PlainUsername := username,
                    sasl_PlainPassword := password\<rparr>\<rparr>
        in ([AStoreNetwork r], st\<lparr>us_net := net\<lparr>n_record := r\<rparr>\<rparr>))"

definition dequeue :: "up_env \<Rightarrow> string \<Rightarrow> up_state \<Rightarrow> (downstream_conn option \<times> irc_message option) \<times> up_action list \<times> up_state" where
  "dequeue env cmd st =
     (let (r, out, uc) = dequeueCommand (e_now env) (e_dcs env) cmd (us_uc st) in (r, map ASend out, st\<lparr>us_uc := uc\<rparr>))"

definition current_pending :: "up_env \<Rightarrow> string \<Rightarrow> up_state \<Rightarrow> downstream_conn option \<times> irc_message option" where
  "current_pending env cmd st = currentPendingCommand (e_dcs env) cmd (us_uc st)"

definition RPL_SASLSUCCESS :: string where "RPL_SASLSUCCESS = ''903''"

definition handle_SASL_result :: "up_env \<Rightarrow> irc_message \<Rightarrow> up_state \<Rightarrow> up_result" where
  "handle_SASL_result env msg st =
     (if length (Params msg) < 2 then (Some UpNeedMoreParams, [], st)
      else
        let st = set_uc (\<lambda>uc. uc\<lparr>uc_saslClient := None, uc_saslStarted := False\<rparr>) st;
            ((dc, _), acts, st) = dequeue env ''AUTHENTICATE'' st;
            finish = (\<lambda>(acts, st). (None, acts @ (if \<not> uc_registered (us_uc st) then [ASend (mk_msg ''CAP'' [''END''])] else []), st))
        in case dc of
             None \<Rightarrow> finish (acts, st)
           | Some dc \<Rightarrow>
               (case dc_sasl dc of
                  None \<Rightarrow> finish (acts, st)
                | Some sasl \<Rightarrow>
                    if Command msg = RPL_SASLSUCCESS then
                      (case ds_plain sasl of
                         None \<Rightarrow> (Some UpPanic, acts, st)
                       | Some (_, user, pass) \<Rightarrow>
                           let (save, st) = autoSaveSASLPlain user pass st
                           in finish (acts @ save @ [AEndSASL (dc_id dc) msg], st))
                    else finish (acts @ [AEndSASL (dc_id dc) msg], st)))"

definition handle_REGISTER :: "up_env \<Rightarrow> irc_message \<Rightarrow> up_state \<Rightarrow> up_result" where
  "handle_REGISTER env msg st =
     (case dequeue env (Command msg) st of
        ((Some dc, cmd), acts, st) \<Rightarrow>
          if Command msg = ''REGISTER'' then
            (case (Params msg, map_option Params cmd) of
               (_ # account # _, Some (_ # _ # password # _)) \<Rightarrow>
                 let (save, st) = autoSaveSASLPlain account password st
                 in (None, acts @ save @ [ADown (dc_id dc) msg], st)
             | _ \<Rightarrow> (Some UpNeedMoreParams, acts, st))
          else (None, acts @ [ADown (dc_id dc) msg], st)
      | ((None, _), acts, st) \<Rightarrow> (None, acts, st))"

section \<open>The welcome burst\<close>

definition handle_RPL_WELCOME :: "irc_message \<Rightarrow> up_state \<Rightarrow> up_result" where
  "handle_RPL_WELCOME msg st =
     (case Params msg of
        [] \<Rightarrow> (Some UpNeedMoreParams, [], st)
      | nick # _ \<Rightarrow>
          (None, [], set_uc (\<lambda>uc. uc\<lparr>uc_nick := nick, uc_registered := True,
             uc_serverPrefix := (case Prefix msg of Some p \<Rightarrow> p | None \<Rightarrow> uc_serverPrefix uc)\<rparr>) st))"

definition handle_RPL_MYINFO :: "irc_message \<Rightarrow> up_state \<Rightarrow> up_result" where
  "handle_RPL_MYINFO msg st =
     (case Params msg of
        _ # serverName # _ # userModes # _ # _ \<Rightarrow>
          (None, [], set_uc (\<lambda>uc. uc\<lparr>uc_serverName := serverName, uc_availableUserModes := userModes\<rparr>) st)
      | _ \<Rightarrow> (Some UpNeedMoreParams, [], st))"

text \<open>Negation, the normalised parameter name and the decoded value, \<open>None\<close> when there is none.\<close>

definition parse_isupport_token :: "unicode_tables \<Rightarrow> string \<Rightarrow> bool \<times> string \<times> string option" where
  "parse_isupport_token U token =
     (let negate = HasPrefix token ''-'';
          (parameter, val) =
            (if negate then (tl token, None)
             else (case Cut token CHR ''='' of None \<Rightarrow> (token, None) | Some (p, v) \<Rightarrow> (p, Some v)));
          parameter = (case Cut parameter CHR ''/'' of
              Some (prefix, key) \<Rightarrow> ToLower U prefix @ ''/'' @ ToUpper U key
            | None \<Rightarrow> ToUpper U parameter)
      in (negate, parameter, map_option DecodeIsupportValue val))"

definition isupport_token_effect ::
    "up_env \<Rightarrow> bool \<Rightarrow> string \<Rightarrow> string \<Rightarrow> up_state \<Rightarrow> up_result" where
  "isupport_token_effect env negate parameter val st =
     (if parameter = ''CASEMAPPING'' then
        (let (acts, st) = net_updateCasemapping env
               (casemap_of (case ParseCaseMapping val of Some cm \<Rightarrow> cm | None \<Rightarrow> CaseMappingRFC1459)) st
         in (None, acts, st))
      else if parameter = ''CHANMODES'' then
        (if \<not> negate then
           (case handleChanModes val (us_uc st) of
              Inl e \<Rightarrow> (Some (UpIsupport e), [], st) | Inr uc \<Rightarrow> (None, [], st\<lparr>us_uc := uc\<rparr>))
         else (None, [], set_uc (\<lambda>uc. uc\<lparr>uc_availableChannelModes := stdChannelModes\<rparr>) st))
      else if parameter = ''CHANTYPES'' then
        (None, [], set_uc (\<lambda>uc. uc\<lparr>uc_availableChannelTypes := (if \<not> negate then val else stdChannelTypes)\<rparr>) st)
      else if parameter = ''STATUSMSG'' then
        (None, [], set_uc (\<lambda>uc. uc\<lparr>uc_availableStatusMsg := (if \<not> negate then val else [])\<rparr>) st)
      else if parameter = ''PREFIX'' then
        (if \<not> negate then
           (case handleMemberships val (us_uc st) of
              Inl e \<Rightarrow> (Some (UpIsupport e), [], st) | Inr uc \<Rightarrow> (None, [], st\<lparr>us_uc := uc\<rparr>))
         else (None, [], set_uc (\<lambda>uc. uc\<lparr>uc_availableMemberships := stdMemberships\<rparr>) st))
      else if parameter = ''soju.im/SAFERATE'' then (None, [], set_uc (\<lambda>uc. uc\<lparr>uc_rateLimit := negate\<rparr>) st)
      else (None, [], st))"

fun handle_isupport_tokens :: "up_env \<Rightarrow> string list \<Rightarrow> up_state \<Rightarrow> up_result" where
  "handle_isupport_tokens env [] st = (None, [], st)"
| "handle_isupport_tokens env (token # tokens) st =
     (let (negate, parameter, val) = parse_isupport_token (e_unicode env) token;
          st = set_uc (\<lambda>uc. uc\<lparr>uc_isupport :=
                 (case val of Some v \<Rightarrow> go_put parameter (Some v) (uc_isupport uc)
                  | None \<Rightarrow> if \<not> negate then go_put parameter None (uc_isupport uc) else go_del parameter (uc_isupport uc))\<rparr>) st
      in case isupport_token_effect env negate parameter (case val of Some v \<Rightarrow> v | None \<Rightarrow> []) st of
           (Some e, acts, st) \<Rightarrow> (Some e, acts, st)
         | (None, acts, st) \<Rightarrow>
             (case handle_isupport_tokens env tokens st of (e, acts', st) \<Rightarrow> (e, acts @ acts', st)))"

definition handle_RPL_ISUPPORT :: "up_env \<Rightarrow> irc_message \<Rightarrow> up_state \<Rightarrow> up_result" where
  "handle_RPL_ISUPPORT env msg st =
     (if length (Params msg) < 2 then (Some UpNeedMoreParams, [], st)
      else (case handle_isupport_tokens env (butlast (tl (Params msg))) st of
          (Some e, acts, st) \<Rightarrow> (Some e, acts, st)
        | (None, acts, st) \<Rightarrow>
            let (acts', st) = updateMonitor env st
            in (None, acts @ acts' @ map (\<lambda>dc. AUpdateIsupport (dc_id dc)) (net_dcs env (us_net st)), st)))"

definition handle_ENDOFMOTD :: "up_env \<Rightarrow> 64 word \<Rightarrow> irc_message \<Rightarrow> up_state \<Rightarrow> up_result" where
  "handle_ENDOFMOTD env did msg st =
     (if uc_gotMotd (us_uc st) then (None, forwardMsgByID env (us_net st) did msg, st)
      else
        let st = set_uc (\<lambda>uc. uc\<lparr>uc_gotMotd := True\<rparr>) st;
            noCM = (case go_get (uc_isupport (us_uc st)) ''CASEMAPPING'' of Some (Some _) \<Rightarrow> False | _ \<Rightarrow> True);
            (acts, st) = (if noCM then net_updateCasemapping env casemapRFC1459 st else ([], st))
        in if go_get (uc_isupport (us_uc st)) ''MONITOR'' = None then
             (case startRegainNickTimer env st of
                None \<Rightarrow> (Some UpPanic, acts, st) | Some st \<Rightarrow> (None, acts, st))
           else (None, acts, st))"

end
