(* ===== verification/Upstream_Dispatch.thy ===== *)
theory Upstream_Dispatch
  imports Upstream_Messages
begin

text \<open>
  The rest of \<open>handleMessage\<close> in \<^verbatim>\<open>src/upstream.go\<close>: batches, replies to pending commands,
  invitations, monitoring, away and account changes, errors, the labels and batch references of
  messages, and the dispatch on the command; and \<open>registrationError\<close>.
\<close>

section \<open>Labels and batches\<close>

text \<open>What the label of a message says: the downstream connection and its label, the raw label and
  the batch that the message belongs to.\<close>

record msg_ctx =
  mc_did :: "64 word"
  mc_label :: string
  mc_rawLabel :: string
  mc_batch :: "(string \<times> upstream_batch) option"

definition handle_BATCH :: "up_env \<Rightarrow> msg_ctx \<Rightarrow> irc_message \<Rightarrow> up_state \<Rightarrow> up_result" where
  "handle_BATCH env c msg st =
     (let uc = us_uc st; out = (mk_msg ''BATCH'' (Params msg))\<lparr>Prefix := Some (e_srvPrefix env)\<rparr> in
      case Params msg of
        [] \<Rightarrow> (Some UpNeedMoreParams, [], st)
      | tag # rest \<Rightarrow>
          if HasPrefix tag ''+'' then
            let tag = tl tag in
            if go_get (uc_batches uc) tag \<noteq> None then (Some (UpBadBatch tag), [], st)
            else (case rest of
                [] \<Rightarrow> (Some UpNeedMoreParams, [], st)
              | batchType # params \<Rightarrow>
                  let label = (if mc_rawLabel c = [] then (case mc_batch c of None \<Rightarrow> [] | Some (_, b) \<Rightarrow> b_Label b) else mc_rawLabel c);
                      b = \<lparr>b_Type = batchType, b_Params = params, b_Outer = map_option fst (mc_batch c), b_Label = label\<rparr>
                  in (None,
                      if mc_did c \<noteq> 0 \<and> mc_label c \<noteq> [] then
                        concat (map (\<lambda>dc. [AClearLabel (dc_id dc), ADown (dc_id dc) (out\<lparr>Tags := [(''label'', mc_label c)]\<rparr>)]) (dcs_by_id env (us_net st) (mc_did c)))
                      else [],
                      set_uc (\<lambda>uc. uc\<lparr>uc_batches := go_put tag b (uc_batches uc)\<rparr>) st))
          else if HasPrefix tag ''-'' then
            let tag = tl tag in
            (case go_get (uc_batches uc) tag of
               None \<Rightarrow> (Some (UpBadBatch tag), [], st)
             | Some b \<Rightarrow>
                 (None,
                  (case parseLabel (b_Label b) of
                     Inr (did, label) \<Rightarrow>
                       if did \<noteq> 0 \<and> label \<noteq> [] then map (\<lambda>dc. ADown (dc_id dc) out) (dcs_by_id env (us_net st) did) else []
                   | Inl _ \<Rightarrow> []),
                  set_uc (\<lambda>uc. uc\<lparr>uc_batches := go_del tag (uc_batches uc)\<rparr>) st))
          else (Some (UpBadBatch tag), [], st))"

section \<open>Replies to pending commands\<close>

text \<open>A reply goes to the client whose command is in flight, if it is still there.\<close>

definition handle_pending_reply :: "up_env \<Rightarrow> string \<Rightarrow> irc_message \<Rightarrow> up_state \<Rightarrow> up_result" where
  "handle_pending_reply env cmd msg st =
     (case current_pending env cmd st of
        (_, None) \<Rightarrow> (Some (UpUnexpectedReply (Command msg)), [], st)
      | (None, Some _) \<Rightarrow> (None, [], st)
      | (Some dc, Some _) \<Rightarrow> (None, [ADown (dc_id dc) msg], st))"

definition handle_pending_end :: "up_env \<Rightarrow> bool \<Rightarrow> string \<Rightarrow> irc_message \<Rightarrow> up_state \<Rightarrow> up_result" where
  "handle_pending_end env strict cmd msg st =
     (case dequeue env cmd st of
        ((_, None), acts, st) \<Rightarrow> (if strict then Some (UpUnexpectedReply (Command msg)) else None, acts, st)
      | ((None, Some _), acts, st) \<Rightarrow> (None, acts, st)
      | ((Some dc, Some _), acts, st) \<Rightarrow> (None, acts @ [ADown (dc_id dc) msg], st))"

definition cache_if_known :: "string \<Rightarrow> upstream_user \<Rightarrow> up_action list \<Rightarrow> up_state \<Rightarrow> up_result" where
  "cache_if_known nick info acts st =
     (if shouldCacheUserInfo st nick then
        (case cacheUserInfo nick info st of None \<Rightarrow> (Some UpPanic, acts, st) | Some st \<Rightarrow> (None, acts, st))
      else (None, acts, st))"

definition handle_RPL_WHOREPLY :: "up_env \<Rightarrow> irc_message \<Rightarrow> up_state \<Rightarrow> up_result" where
  "handle_RPL_WHOREPLY env msg st =
     (case Params msg of
        _ # _ # username # host # server # nick # flgs # trailing # _ \<Rightarrow>
          (case current_pending env ''WHO'' st of
             (_, None) \<Rightarrow> (Some (UpUnexpectedReply (Command msg)), [], st)
           | (None, Some _) \<Rightarrow> (None, [], st)
           | (Some dc, Some _) \<Rightarrow>
               let parts = SplitN trailing CHR '' '' 2 in
               if length parts \<noteq> 2 then (Some UpMalformedWho, [], st)
               else cache_if_known nick
                 \<lparr>uu_Nickname = nick, uu_Username = username, uu_Hostname = host, uu_Server = server,
                  uu_Flags = stripMemberPrefixes flgs (uc_availableMemberships (us_uc st)), uu_Account = [],
                  uu_Realname = parts ! 1\<rparr> [ADown (dc_id dc) msg] st)
      | _ \<Rightarrow> (Some UpNeedMoreParams, [], st))"

definition handle_RPL_WHOSPCRPL :: "up_env \<Rightarrow> irc_message \<Rightarrow> up_state \<Rightarrow> up_result" where
  "handle_RPL_WHOSPCRPL env msg st =
     (case current_pending env ''WHO'' st of
        (_, None) \<Rightarrow> (Some (UpUnexpectedReply (Command msg)), [], st)
      | (None, Some _) \<Rightarrow> (None, [], st)
      | (Some dc, Some cmd) \<Rightarrow>
          let out = [ADown (dc_id dc) msg] in
          if length (Params cmd) \<le> 1 then (None, out, st)
          else
            let flds = fst (ParseWHOXOptions (e_unicode env) (Params cmd ! 1)) in
            if \<not> List.member flds CHR ''n'' then (None, out, st)
            else (case ParseWHOXReply msg flds of
                Inl e \<Rightarrow> (Some (UpWhox e), out, st)
              | Inr info \<Rightarrow>
                  cache_if_known (Nickname info)
                    \<lparr>uu_Nickname = Nickname info, uu_Username = Username info, uu_Hostname = Hostname info,
                     uu_Server = Server info, uu_Flags = stripMemberPrefixes (Flags info) (uc_availableMemberships (us_uc st)),
                     uu_Account = Account info, uu_Realname = Realname info\<rparr> out st))"

section \<open>Invitations, monitoring, away and account changes\<close>

definition handle_INVITE :: "up_env \<Rightarrow> irc_message \<Rightarrow> up_state \<Rightarrow> up_result" where
  "handle_INVITE env msg st =
     (case Params msg of
        nick # channel # _ \<Rightarrow>
          let us = isOurNick st nick;
              saved = cmm_Get (n_channels (us_net st)) channel
          in if us \<and> get_channel st channel = None \<and> saved \<noteq> None then
               (None, map ASend (the (GenerateJoin [ch_Name (the saved)] [ch_Key (the saved)])), st)
             else
               let blocked = (us \<and> (case e_messageTarget env (n_casemap (us_net st) (msg_name msg)) of
                     None \<Rightarrow> False | Some (_, b) \<Rightarrow> b))
               in (None,
                   concat (map (\<lambda>dc.
                     if \<not> us \<and> \<not> caps_IsEnabled (dc_caps dc) ''invite-notify'' then []
                     else if blocked \<and> \<not> List.member (dc_metadataSubs dc) ''soju.im/blocked'' then []
                     else [ADown (dc_id dc) msg]) (net_dcs env (us_net st)))
                   @ (if us then [APush msg] else []), st)
      | _ \<Rightarrow> (Some UpNeedMoreParams, [], st))"

definition RPL_MONONLINE :: string where "RPL_MONONLINE = ''730''"

definition handle_MONITOR_status :: "up_env \<Rightarrow> irc_message \<Rightarrow> up_state \<Rightarrow> up_result" where
  "handle_MONITOR_status env msg st =
     (case Params msg of
        _ # targetsStr # _ \<Rightarrow>
          let targets = Split targetsStr CHR '','';
              names = map (\<lambda>t. Name (e_parsePrefix env t)) targets;
              online = (Command msg = RPL_MONONLINE);
              st = set_uc (\<lambda>uc. uc\<lparr>uc_monitored := foldl (\<lambda>m n. cmm_Set m n online) (uc_monitored uc) names\<rparr>) st;
              want = wantNick env (us_net st);
              free = (\<not> online \<and> \<not> isOurNick st want \<and> \<not> uc_hasDesiredNick (us_uc st)
                \<and> list_ex (\<lambda>n. equalCasemap (us_net st) n want) names)
          in (None,
              (if free then [ASend (mk_msg ''NICK'' [want])] else [])
              @ concat (map (\<lambda>dc. concat (map (\<lambda>t.
                  if cmm_Has (dc_monitored dc) (Name (e_parsePrefix env t))
                  then [ADown (dc_id dc) (mk_msg (Command msg) [dc_nick dc, t])] else []) targets)) (net_dcs env (us_net st))), st)
      | _ \<Rightarrow> (Some UpNeedMoreParams, [], st))"

definition handle_ERR_MONLISTFULL :: "up_env \<Rightarrow> irc_message \<Rightarrow> up_state \<Rightarrow> up_result" where
  "handle_ERR_MONLISTFULL env msg st =
     (case Params msg of
        _ # limit # targetsStr # _ \<Rightarrow>
          (None, concat (map (\<lambda>dc. concat (map (\<lambda>t.
              if cmm_Has (dc_monitored dc) t then [ADown (dc_id dc) (mk_msg (Command msg) [dc_nick dc, limit, t])] else [])
              (Split targetsStr CHR '',''))) (net_dcs env (us_net st))), st)
      | _ \<Rightarrow> (Some UpNeedMoreParams, [], st))"

definition handle_AWAY :: "up_env \<Rightarrow> irc_message \<Rightarrow> up_state \<Rightarrow> up_result" where
  "handle_AWAY env msg st =
     (let fwd = forwardMessage env (us_net st) msg in
      case cmm_Get (uc_users (us_uc st)) (msg_name msg) of
        None \<Rightarrow> (None, fwd, st)
      | Some uu \<Rightarrow>
          if uu_Flags uu = [] then (None, fwd, st)
          else
            let flgs = map (if Params msg \<noteq> [] then (\<lambda>c. if c = CHR ''H'' then CHR ''G'' else c)
                            else (\<lambda>c. if c = CHR ''G'' then CHR ''H'' else c)) (uu_Flags uu)
            in case cacheUserInfo (msg_name msg) (no_info\<lparr>uu_Flags := flgs\<rparr>) st of
                 None \<Rightarrow> (Some UpPanic, [], st) | Some st \<Rightarrow> (None, fwd, st))"

definition handle_ACCOUNT :: "up_env \<Rightarrow> irc_message \<Rightarrow> up_state \<Rightarrow> up_result" where
  "handle_ACCOUNT env msg st =
     (case Params msg of
        [] \<Rightarrow> (Some UpNeedMoreParams, [], st)
      | account # _ \<Rightarrow>
          (case cacheUserInfo (msg_name msg) (no_info\<lparr>uu_Account := account\<rparr>) st of
             None \<Rightarrow> (Some UpPanic, [], st)
           | Some st \<Rightarrow> (None, forwardMessage env (us_net st) msg, st)))"

section \<open>Errors\<close>

text \<open>A \<open>WHOIS\<close> in flight without parameters makes the code index out of range.\<close>

definition handle_ERR_NOSUCHNICK :: "up_env \<Rightarrow> 64 word \<Rightarrow> irc_message \<Rightarrow> up_state \<Rightarrow> up_result" where
  "handle_ERR_NOSUCHNICK env did msg st =
     (case Params msg of
        _ # nick # _ # _ \<Rightarrow>
          (case current_pending env ''WHOIS'' st of
             (_, None) \<Rightarrow> (None, forwardMsgByID env (us_net st) did msg, st)
           | (dc, Some cmd) \<Rightarrow>
               if Params cmd = [] then (Some UpPanic, [], st)
               else if equalCasemap (us_net st) (last (Params cmd)) nick then
                 (let (_, acts, st) = dequeue env ''WHOIS'' st
                  in (None, acts @ (case dc of None \<Rightarrow> [] | Some dc \<Rightarrow> [ADown (dc_id dc) msg]), st))
               else (None, forwardMsgByID env (us_net st) did msg, st))
      | _ \<Rightarrow> (Some UpNeedMoreParams, [], st))"

definition dequeue_and_forward :: "up_env \<Rightarrow> 64 word \<Rightarrow> string \<Rightarrow> irc_message \<Rightarrow> up_state \<Rightarrow> up_action list \<times> up_state" where
  "dequeue_and_forward env did command msg st =
     (let ((dc, _), acts, st) = dequeue env command st;
          did = (case dc of Some d \<Rightarrow> if did = 0 then dc_id d else did | None \<Rightarrow> did)
      in (acts @ forwardMsgByID env (us_net st) did msg, st))"

definition handle_command_error :: "up_env \<Rightarrow> 64 word \<Rightarrow> irc_message \<Rightarrow> up_state \<Rightarrow> up_result" where
  "handle_command_error env did msg st =
     (case Params msg of
        _ # command # _ # _ \<Rightarrow>
          (let (acts, st) = dequeue_and_forward env did command msg st
           in (None, acts, if command = ''AUTHENTICATE''
                 then set_uc (\<lambda>uc. uc\<lparr>uc_saslClient := None, uc_saslStarted := False\<rparr>) st else st))
      | _ \<Rightarrow> (Some UpNeedMoreParams, [], st))"

definition handle_FAIL :: "up_env \<Rightarrow> 64 word \<Rightarrow> irc_message \<Rightarrow> up_state \<Rightarrow> up_result" where
  "handle_FAIL env did msg st =
     (case Params msg of
        command # code # _ \<Rightarrow>
          if \<not> uc_registered (us_uc st) \<and> command = ''*'' \<and> code = ''ACCOUNT_REQUIRED'' then
            (Some (UpRegistration msg), [], st)
          else (let (acts, st) = dequeue_and_forward env did command msg st in (None, acts, st))
      | _ \<Rightarrow> (Some UpNeedMoreParams, [], st))"

definition handle_registration_error :: "up_env \<Rightarrow> 64 word \<Rightarrow> irc_message \<Rightarrow> up_state \<Rightarrow> up_result" where
  "handle_registration_error env did msg st =
     (if \<not> uc_registered (us_uc st) then (Some (UpRegistration msg), [], st)
      else (None, forwardMsgByID env (us_net st) did msg, st))"

definition handle_ERR_NICKNAMEINUSE :: "up_env \<Rightarrow> 64 word \<Rightarrow> irc_message \<Rightarrow> up_state \<Rightarrow> up_result" where
  "handle_ERR_NICKNAMEINUSE env did msg st =
     (let uc = us_uc st in
      if \<not> uc_registered uc \<and> length (uc_nick uc) + 1 < 30 then
        (None, [ASend (mk_msg ''NICK'' [uc_nick uc @ ''_''])],
         set_uc (\<lambda>uc. uc\<lparr>uc_nick := uc_nick uc @ ''_'', uc_hasDesiredNick := False\<rparr>) st)
      else (case Params msg of
          _ # failedNick # _ \<Rightarrow>
            if equalCasemap (us_net st) (uc_pendingRegainNick uc) failedNick then
              (None, [], set_uc (\<lambda>uc. uc\<lparr>uc_pendingRegainNick := []\<rparr>) st)
            else handle_registration_error env did msg st
        | _ \<Rightarrow> (Some UpNeedMoreParams, [], st)))"

text \<open>\<open>registrationError\<close>; \<open>None\<close> is the panic on a \<open>FAIL\<close> with less than two parameters.\<close>

definition registrationError_Reason :: "irc_message \<Rightarrow> string" where
  "registrationError_Reason msg = (if Params msg \<noteq> [] then last (Params msg) else Command msg)"

definition registrationError_Temporary :: "irc_message \<Rightarrow> bool option" where
  "registrationError_Temporary msg =
     (if Command msg = ''464'' \<or> Command msg = ''432'' then Some False
      else if Command msg = ''FAIL'' then
        (case Params msg of _ # code # _ \<Rightarrow> Some (code \<noteq> ''ACCOUNT_REQUIRED'') | _ \<Rightarrow> None)
      else Some True)"

section \<open>Dispatch\<close>

text \<open>The numeric replies, by the branch they take.\<close>

definition whois_replies :: "string list" where
  "whois_replies = [''276'', ''307'', ''311'', ''312'', ''319'', ''313'', ''317'', ''320'', ''330'', ''338'', ''378'', ''379'', ''671'']"

definition list_mode_replies :: "string list" where
  "list_mode_replies = [''367'', ''346'', ''348'', ''368'', ''347'', ''349'']"

definition burst_replies :: "string list" where
  "burst_replies = [''251'', ''252'', ''253'', ''254'', ''255'', ''240'', ''246'', ''247'', ''250'', ''265'', ''266'', ''375'', ''372'']"

definition ignored_replies :: "string list" where
  "ignored_replies = [''ACK'', ''306'', ''305'', ''002'', ''003'']"

definition registration_errors :: "string list" where
  "registration_errors = [''464'', ''432'', ''436'', ''437'', ''463'', ''465'']"

definition handle_CAP :: "up_env \<Rightarrow> irc_message \<Rightarrow> up_state \<Rightarrow> up_result" where
  "handle_CAP env msg st =
     (case handleCAP (e_unicode env) (n_record (us_net st)) msg (us_uc st) of
        (e, out, uc, refresh) \<Rightarrow>
          (map_option UpCap e,
           map ASend out @ (if refresh then map (\<lambda>dc. AUpdateSupportedCaps (dc_id dc)) (net_dcs env (us_net st)) else []),
           st\<lparr>us_uc := uc\<rparr>))"

definition is_reply :: "irc_message \<Rightarrow> string list \<Rightarrow> bool" where
  "is_reply msg cmds \<longleftrightarrow> List.member cmds (Command msg)"

definition dispatch_command :: "up_env \<Rightarrow> msg_ctx \<Rightarrow> irc_message \<Rightarrow> up_state \<Rightarrow> up_result" where
  "dispatch_command env c msg st =
     (if is_reply msg [''PING''] then (None, [ASend (mk_msg ''PONG'' (Params msg))], st)
      else if is_reply msg [''NOTICE'', ''PRIVMSG'', ''TAGMSG'', ''REDACT''] then handle_text env (mc_did c) msg st
      else if is_reply msg [''CAP''] then handle_CAP env msg st
      else if is_reply msg [''AUTHENTICATE''] then handle_AUTHENTICATE env msg st
      else if is_reply msg [''REGISTER'', ''VERIFY''] then handle_REGISTER env msg st
      else if is_reply msg [''BATCH''] then handle_BATCH env c msg st
      else if is_reply msg [''NICK'', ''JOIN'', ''PART'', ''KICK'', ''QUIT''] then handle_membership env msg st
      else if is_reply msg [''SETNAME''] then handle_SETNAME env msg st
      else if is_reply msg [''CHGHOST''] then handle_CHGHOST env msg st
      else if is_reply msg [''TOPIC''] then handle_TOPIC env msg st
      else if is_reply msg [''MODE''] then handle_MODE env msg st
      else if is_reply msg [''INVITE''] then handle_INVITE env msg st
      else if is_reply msg [''AWAY''] then handle_AWAY env msg st
      else if is_reply msg [''ACCOUNT''] then handle_ACCOUNT env msg st
      else if is_reply msg [''FAIL''] then handle_FAIL env (mc_did c) msg st
      else if is_reply msg [''ERROR''] then
        (case Params msg of [] \<Rightarrow> (Some UpNeedMoreParams, [], st) | t # _ \<Rightarrow> (Some (UpFatal t), [], st))
      else if is_reply msg (''301'' # list_mode_replies) then (None, forwardMsgByID env (us_net st) (mc_did c) msg, st)
      else if is_reply msg ignored_replies then (None, [], st)
      else if is_reply msg burst_replies then
        (None, if uc_gotMotd (us_uc st) then forwardMsgByID env (us_net st) (mc_did c) msg else [], st)
      else if is_reply msg registration_errors then handle_registration_error env (mc_did c) msg st
      else if is_reply msg whois_replies then handle_pending_reply env ''WHOIS'' msg st
      else if is_reply msg [''900''] then handle_RPL_LOGGEDIN env msg st
      else if is_reply msg [''901''] then handle_RPL_LOGGEDOUT env msg st
      else if is_reply msg [''396''] then handle_RPL_VISIBLEHOST env msg st
      else if is_reply msg [''902'', ''903'', ''904'', ''905'', ''906''] then handle_SASL_result env msg st
      else if is_reply msg [''001''] then handle_RPL_WELCOME msg st
      else if is_reply msg [''004''] then handle_RPL_MYINFO msg st
      else if is_reply msg [''005''] then handle_RPL_ISUPPORT env msg st
      else if is_reply msg [''422'', ''376''] then handle_ENDOFMOTD env (mc_did c) msg st
      else if is_reply msg [''332'', ''331''] then handle_RPL_TOPIC env (mc_did c) msg st
      else if is_reply msg [''221''] then handle_RPL_UMODEIS env msg st
      else if is_reply msg [''324''] then handle_RPL_CHANNELMODEIS env (mc_did c) msg st
      else if is_reply msg [''329''] then handle_RPL_CREATIONTIME env (mc_did c) msg st
      else if is_reply msg [''333''] then handle_RPL_TOPICWHOTIME env (mc_did c) msg st
      else if is_reply msg [''321'', ''322''] then handle_pending_reply env ''LIST'' msg st
      else if is_reply msg [''323''] then handle_pending_end env True ''LIST'' msg st
      else if is_reply msg [''353''] then handle_RPL_NAMREPLY env (mc_did c) msg st
      else if is_reply msg [''366''] then handle_RPL_ENDOFNAMES env (mc_did c) msg st
      else if is_reply msg [''352''] then handle_RPL_WHOREPLY env msg st
      else if is_reply msg [''354''] then handle_RPL_WHOSPCRPL env msg st
      else if is_reply msg [''315''] then handle_pending_end env False ''WHO'' msg st
      else if is_reply msg [''318''] then handle_pending_end env True ''WHOIS'' msg st
      else if is_reply msg [''341''] then
        (if length (Params msg) < 3 then (Some UpNeedMoreParams, [], st)
         else (None, forwardMsgByID env (us_net st) (mc_did c) msg, st))
      else if is_reply msg [''730'', ''731''] then handle_MONITOR_status env msg st
      else if is_reply msg [''734''] then handle_ERR_MONLISTFULL env msg st
      else if is_reply msg [''401'', ''402''] then handle_ERR_NOSUCHNICK env (mc_did c) msg st
      else if is_reply msg [''400'', ''421'', ''461'', ''263''] then handle_command_error env (mc_did c) msg st
      else if is_reply msg [''433''] then handle_ERR_NICKNAMEINUSE env (mc_did c) msg st
      else (None, forwardMsgByID env (us_net st) (mc_did c) msg, st))"

text \<open>The label of the message, or of its batch.\<close>

definition message_context :: "irc_message \<Rightarrow> up_state \<Rightarrow> up_error + (msg_ctx \<times> bool \<times> irc_message)" where
  "message_context msg st =
     (let label = (case go_get (Tags msg) ''label'' of None \<Rightarrow> [] | Some l \<Rightarrow> l);
          tags = go_del ''label'' (Tags msg);
          resolve = (\<lambda>label fromBatch batch tags.
            case parseLabel label of
              Inl e \<Rightarrow> Inl (UpLabel e)
            | Inr (did, dlabel) \<Rightarrow>
                Inr (\<lparr>mc_did = did, mc_label = dlabel, mc_rawLabel = label, mc_batch = batch\<rparr>, fromBatch, msg\<lparr>Tags := tags\<rparr>))
      in case go_get tags ''batch'' of
           None \<Rightarrow> resolve label False None tags
         | Some bn \<Rightarrow>
             (case go_get (uc_batches (us_uc st)) bn of
                None \<Rightarrow> Inl (UpBadBatch bn)
              | Some b \<Rightarrow>
                  if label = [] then resolve (b_Label b) True (Some (bn, b)) (go_del ''batch'' tags)
                  else resolve label False (Some (bn, b)) (go_del ''batch'' tags)))"

text \<open>The prefix and the time of a message that has none.\<close>

definition complete_message :: "up_env \<Rightarrow> irc_message \<Rightarrow> up_state \<Rightarrow> irc_message" where
  "complete_message env msg st =
     (let msg = (if Prefix msg = None then msg\<lparr>Prefix := Some (uc_serverPrefix (us_uc st))\<rparr> else msg)
      in if isNumeric (Command msg) then msg
         else
           let t = (case ParseServerTime (case go_get (Tags msg) ''time'' of None \<Rightarrow> [] | Some t \<Rightarrow> t) of
                 None \<Rightarrow> e_now env | Some t \<Rightarrow> t)
           in msg\<lparr>Tags := go_put ''time'' (user_FormatServerTime (e_msgStore env) t) (Tags msg)\<rparr>)"

definition up_handleMessage :: "up_env \<Rightarrow> irc_message \<Rightarrow> up_state \<Rightarrow> up_result" where
  "up_handleMessage env msg st =
     (case message_context msg st of
        Inl e \<Rightarrow> (Some e, [], st)
      | Inr (c, fromBatch, msg) \<Rightarrow>
          let dcs = (if mc_did c \<noteq> 0 then dcs_by_id env (us_net st) (mc_did c) else []);
              batch = (if fromBatch then (case mc_batch c of Some (n, _) \<Rightarrow> n | None \<Rightarrow> []) else []);
              (e, acts, st) = dispatch_command env c (complete_message env msg st) st
          in (e, map (\<lambda>dc. ALabel (dc_id dc) (mc_label c) batch) dcs @ acts
                 @ (if fromBatch then [] else map (\<lambda>dc. AFlushBatch (dc_id dc)) dcs), st))"

text \<open>The loop of \<open>runUntilRegistered\<close> on the messages read so far: the remaining ones, and the error
  that ended it; the connection is not registered when the messages ran out.\<close>

fun runUntilRegistered :: "up_env \<Rightarrow> irc_message list \<Rightarrow> up_state \<Rightarrow> up_error option \<times> up_action list \<times> up_state \<times> irc_message list" where
  "runUntilRegistered env msgs st =
     (if uc_registered (us_uc st) then (None, [], st, msgs)
      else (case msgs of
          [] \<Rightarrow> (None, [], st, [])
        | m # ms \<Rightarrow>
            (case up_handleMessage env m st of
               (Some e, acts, st') \<Rightarrow> (Some e, acts, st', ms)
             | (None, acts, st') \<Rightarrow>
                 (case runUntilRegistered env ms st' of (e, acts', st'', rest) \<Rightarrow> (e, acts @ acts', st'', rest)))))"

declare runUntilRegistered.simps [simp del]

end
