(* ===== verification/Upstream_Steps.thy ===== *)
theory Upstream_Steps
  imports Upstream_Dispatch
begin

text \<open>
  The contract between the messages of a server and what they preserve.  The handlers of \<open>handleMessage\<close> change the
  state of a connection by a few steps only: a channel is put, removed or edited, a user is cached, a nick is
  monitored, a command leaves its queue, the case mapping changes.  The locale \<open>up_steps\<close> assumes that a predicate on states
  survives each of these steps and shows that it survives every message.
\<close>

section \<open>Messages without a label\<close>

definition no_context :: msg_ctx where
  "no_context = \<lparr>mc_did = 0, mc_label = [], mc_rawLabel = [], mc_batch = None\<rparr>"

definition unlabelled :: "irc_message \<Rightarrow> bool" where
  "unlabelled msg \<longleftrightarrow> go_get (Tags msg) ''label'' = None \<and> go_get (Tags msg) ''batch'' = None"

lemma go_del_absent: "go_get m k = None \<Longrightarrow> go_del k m = m"
  by (induction m) (auto split: if_splits)

lemma unlabelled_message:
  assumes "unlabelled msg"
  shows "up_handleMessage env msg st = dispatch_command env no_context (complete_message env msg st) st"
proof -
  have "message_context msg st = Inr (no_context, False, msg)"
    using assms by (simp add: unlabelled_def message_context_def go_del_absent parseLabel_def no_context_def)
  then show ?thesis by (simp add: up_handleMessage_def no_context_def)
qed

lemma complete_message_simps [simp]:
  "Command (complete_message env msg st) = Command msg" "Params (complete_message env msg st) = Params msg"
  by (simp_all add: complete_message_def Let_def)

lemma complete_numeric: "isNumeric (Command msg) \<Longrightarrow> Prefix msg \<noteq> None \<Longrightarrow> complete_message env msg st = msg"
  by (simp add: complete_message_def)

lemmas reply_lists = burst_replies_def ignored_replies_def whois_replies_def list_mode_replies_def registration_errors_def

section \<open>Edits of a map of members\<close>

inductive edited :: "'v case_mapping_map \<Rightarrow> 'v case_mapping_map \<Rightarrow> bool" for m where
  same: "edited m m"
| put: "edited m m' \<Longrightarrow> edited m (cmm_Set m' name v)"
| del: "edited m m' \<Longrightarrow> edited m (cmm_Del m' name)"

lemmas edited_intros [intro] = edited.intros

lemma rename_member_edited: "edited (uch_Members ch) (uch_Members (rename_member old new ch))"
  by (auto simp: rename_member_def split: option.split)

lemma remove_member_edited: "edited (uch_Members ch) (uch_Members (remove_member nick ch))"
  by (auto simp: remove_member_def)

lemma set_member_edited: "edited m (uch_Members ch) \<Longrightarrow> edited m (uch_Members (set_member avail ch s))"
  by (auto simp: set_member_def split: prod.split)

lemma set_members_edited: "edited m (uch_Members ch) \<Longrightarrow> edited m (uch_Members (foldl (set_member avail) ch ss))"
  by (induction ss arbitrary: ch) (simp_all add: set_member_edited)

lemma applyChannelModes_edited:
  assumes "edited m (uch_Members ch)"
  shows "edited m (uch_Members (snd (applyChannelModes avail chanmodes ch s args)))"
proof -
  have "edited m (uch_Members (apply_membership avail membership p member ch))" if "edited m (uch_Members ch)" for ch membership p member
    using that by (auto simp: apply_membership_def split: option.split)
  then show ?thesis
    unfolding applyChannelModes_def
    by (intro apply_modes_loop_invariant [where P = "\<lambda>ch. edited m (uch_Members ch)"]) (simp_all add: assms)
qed

section \<open>The contract\<close>

text \<open>The fields of a connection that are more than bookkeeping: maps, queues, the nick and whether it is registered.\<close>

definition uc_core where
  "uc_core uc = (uc_channels uc, uc_users uc, uc_monitored uc, uc_pendingCmds uc, uc_nick uc, uc_registered uc, uc_pendingRegainNick uc)"

text \<open>The commands that change the nick of the bouncer; they are left to an extension of the contract.\<close>

definition nick_commands :: "string list" where
  "nick_commands = [''NICK'', ''001'', ''433'']"

locale up_steps =
  fixes P :: "up_state \<Rightarrow> bool"
  assumes bookkeeping: "P st \<Longrightarrow> uc_core uc = uc_core (us_uc st) \<Longrightarrow> P (st\<lparr>us_uc := uc\<rparr>)"
    and timers: "P st \<Longrightarrow> P (st\<lparr>us_orphanTimers := ts\<rparr>)"
    and receipt: "P st \<Longrightarrow> P (st\<lparr>us_net := (us_net st)\<lparr>n_delivered := ds_StoreID (n_delivered (us_net st)) target client msgid\<rparr>\<rparr>)"
    and saved_channel: "P st \<Longrightarrow> P (set_db_channel db st)"
    and saved_sasl: "P st \<Longrightarrow> P (st\<lparr>us_net := (us_net st)\<lparr>n_record := (n_record (us_net st))\<lparr>net_SASL := sasl\<rparr>\<rparr>\<rparr>)"
    and cached: "P st \<Longrightarrow> cacheUserInfo nick info st = Some st' \<Longrightarrow> P st'"
    and uncached: "P st \<Longrightarrow> P (set_uc (\<lambda>uc. uc\<lparr>uc_users := cmm_Del (uc_users uc) nick\<rparr>) st)"
    and monitored: "P st \<Longrightarrow> P (set_uc (\<lambda>uc. uc\<lparr>uc_monitored := cmm_Set (uc_monitored uc) nick online\<rparr>) st)"
    and unmonitored: "P st \<Longrightarrow> P (set_uc (\<lambda>uc. uc\<lparr>uc_monitored := cmm_Del (uc_monitored uc) nick\<rparr>) st)"
    and dequeued: "P st \<Longrightarrow> P (snd (snd (dequeue env cmd st)))"
    and channel_edited: "P st \<Longrightarrow> get_channel st name = Some ch \<Longrightarrow> edited (uch_Members ch) (uch_Members ch') \<Longrightarrow> P (put_channel name ch' st)"
    and channel_new: "P st \<Longrightarrow> P (put_channel name (new_channel (n_casemap (us_net st)) name) st)"
    and channel_gone: "P st \<Longrightarrow> P (set_channels (\<lambda>chs. cmm_Del chs name) st)"
    and channels_edited: "P st \<Longrightarrow> (\<And>n ch. edited (uch_Members ch) (uch_Members (f n ch))) \<Longrightarrow> P (set_channels (cmm_map f) st)"
    and casemapping: "P st \<Longrightarrow> P (snd (net_updateCasemapping env (casemap_of m) st))"
begin

lemma set_bookkeeping [simp]: "P st \<Longrightarrow> (\<And>uc. uc_core (f uc) = uc_core uc) \<Longrightarrow> P (set_uc f st)"
  by (simp add: set_uc_def bookkeeping)

lemma fold_steps: "(\<And>x st. P st \<Longrightarrow> P (f st x)) \<Longrightarrow> P st \<Longrightarrow> P (foldl f st xs)"
  by (induction xs arbitrary: st) simp_all

lemma receipts: "P st \<Longrightarrow> P (st\<lparr>us_net := (us_net st)\<lparr>n_delivered :=
    foldl (\<lambda>ds client. ds_StoreID ds target client msgid) (n_delivered (us_net st)) clients\<rparr>\<rparr>)"
proof (induction clients arbitrary: st)
  case (Cons c cs)
  from Cons.IH [OF receipt [OF Cons.prems, of target c msgid]] show ?case by simp
qed simp

lemma appendLog_step [simp]: "P st \<Longrightarrow> P (snd (snd (appendLog env entity msg st)))"
  by (simp add: appendLog_def Let_def receipts split: option.split)

lemma produce_step [simp]: "P st \<Longrightarrow> P (snd (produce env b target msg d st))"
  by (simp add: produce_def Let_def case_prod_beta)

lemma log_all_step [simp]: "P st \<Longrightarrow> P (snd (log_all env msg names st))"
  by (induction names arbitrary: st) (simp_all add: case_prod_beta Let_def)

lemma forget_user_step [simp]: "P st \<Longrightarrow> P (forget_user nick st)"
  using uncached [of st nick] by (simp add: forget_user_def set_uc_def)

lemma forget_members_step [simp]: "P st \<Longrightarrow> P (forget_members uch st)"
  by (simp add: forget_members_def fold_steps case_prod_beta)

lemma updateMonitor_step [simp]: "P st \<Longrightarrow> P (snd (updateMonitor env st))"
proof -
  have "P (monitor_forget t st)" if "P st" for t st
    using unmonitored [OF that, of t] by (simp add: monitor_forget_def set_uc_def)
  then show "P st \<Longrightarrow> P (snd (updateMonitor env st))" by (simp add: updateMonitor_def Let_def fold_steps)
qed

lemma channel_kept: "P st \<Longrightarrow> get_channel st name = Some ch \<Longrightarrow> uch_Members ch' = uch_Members ch \<Longrightarrow> P (put_channel name ch' st)"
  using channel_edited [of st name ch ch'] by auto

lemma updateChannelAutoDetach_step [simp]: "P st \<Longrightarrow> P (updateChannelAutoDetach name st)"
proof -
  assume st: "P st"
  have "P (put_channel name (updateAutoDetach d uch) st)" if "get_channel st name = Some uch" for uch d
    using st that by (rule channel_kept) (simp add: updateAutoDetach_def)
  then show ?thesis
    using st by (simp add: updateChannelAutoDetach_def get_channel_def put_channel_def set_channels_def set_uc_def split: option.split)
qed

lemma orphan_timer_step [simp]: "P st \<Longrightarrow> P (orphan_timer name st)"
  by (simp add: orphan_timer_def timers split: option.split)

lemma net_attach_step [simp]: "P st \<Longrightarrow> P (snd (net_attach env ch st))"
  by (simp add: net_attach_def Let_def saved_channel)

lemma autoSaveSASLPlain_step [simp]: "P st \<Longrightarrow> P (snd (autoSaveSASLPlain u p st))"
  by (simp add: autoSaveSASLPlain_def Let_def saved_sasl)

lemma leave_channel_step [simp]: "P st \<Longrightarrow> P (leave_channel name st)"
  by (simp add: leave_channel_def channel_gone split: option.split)

lemma remove_from_step: "P st \<Longrightarrow> get_channel st name = Some uch \<Longrightarrow> P (remove_from name uch nick st)"
  by (simp add: remove_from_def channel_edited remove_member_edited)

lemma cache_if_known_step [simp]: "P st \<Longrightarrow> P (snd (snd (cache_if_known nick info acts st)))"
  by (auto simp: cache_if_known_def cached split: option.split)

lemma startRegainNickTimer_step: "P st \<Longrightarrow> startRegainNickTimer env st = Some st' \<Longrightarrow> P st'"
  by (auto simp: startRegainNickTimer_def Let_def case_prod_beta uc_core_def intro!: bookkeeping split: if_splits)

lemma casemap_RFC1459_step [simp]: "P st \<Longrightarrow> P (snd (net_updateCasemapping env casemapRFC1459 st))"
  using casemapping [of st env CaseMappingRFC1459] by simp

section \<open>The handlers\<close>

definition keeps :: "(up_state \<Rightarrow> up_result) \<Rightarrow> bool" where
  "keeps f \<longleftrightarrow> (\<forall>st. P st \<longrightarrow> P (snd (snd (f st))))"

lemma keepsI: "(\<And>st. P st \<Longrightarrow> P (snd (snd (f st)))) \<Longrightarrow> keeps f"
  by (simp add: keeps_def)

lemma keepsD: "keeps f \<Longrightarrow> P st \<Longrightarrow> P (snd (snd (f st)))"
  by (simp add: keeps_def)

lemma keeps_const: "keeps (\<lambda>st. (e st, acts st, st))"
  by (simp add: keeps_def)

lemma keeps_if: "(b \<Longrightarrow> keeps f) \<Longrightarrow> (\<not> b \<Longrightarrow> keeps g) \<Longrightarrow> keeps (\<lambda>st. if b then f st else g st)"
  by (simp add: keeps_def)

lemma join_channels_step: "P st \<Longrightarrow> P (snd (snd (join_channels env msg chs st)))"
proof (induction chs arbitrary: st)
  case (Cons ch chs)
  have "P (put_channel ch (new_channel (n_casemap (us_net st)) ch) (orphan_timer ch st))"
    using channel_new [OF orphan_timer_step [OF Cons.prems], of ch ch] orphan_timer_view(4) [of ch st] by (simp add: ucm_def)
  moreover have "P (put_channel ch (uch\<lparr>uch_Members := cmm_Set (uch_Members uch) nick []\<rparr>) st)" if "get_channel st ch = Some uch" for uch nick
    using Cons.prems that by (rule channel_edited) auto
  ultimately show ?case using Cons by (simp add: Let_def case_prod_beta split: option.split)
qed simp

lemma part_channels_step: "P st \<Longrightarrow> P (snd (snd (part_channels env msg chs st)))"
  by (induction chs arbitrary: st) (simp_all add: Let_def case_prod_beta remove_from_step split: option.split)

lemma channel_handlers_keep:
  "keeps (handle_JOIN env msg)" "keeps (handle_PART env msg)" "keeps (handle_KICK env msg)" "keeps (handle_QUIT env msg)"
proof -
  show "keeps (handle_JOIN env msg)"
    by (rule keepsI) (auto simp: handle_JOIN_def cached intro: join_channels_step split: list.split option.split)
  show "keeps (handle_PART env msg)" by (rule keepsI) (simp add: handle_PART_def part_channels_step split: list.split)
  show "keeps (handle_KICK env msg)"
    by (rule keepsI) (simp add: handle_KICK_def case_prod_beta remove_from_step split: list.split option.split)
  have "edited (uch_Members ch) (uch_Members (if cmm_Has (uch_Members ch) nick then remove_member nick ch else ch))" for ch nick
    using remove_member_edited by auto
  then show "keeps (handle_QUIT env msg)"
    by (intro keepsI) (simp add: handle_QUIT_def Let_def case_prod_beta uncached channels_edited)
qed

lemma put_handlers_keep:
  "keeps (handle_TOPIC env msg)" "keeps (handle_RPL_TOPIC env d msg)" "keeps (handle_RPL_CREATIONTIME env d msg)"
  "keeps (handle_RPL_TOPICWHOTIME env d msg)" "keeps (handle_RPL_ENDOFNAMES env d msg)"
  by (rule keepsI, auto simp: handle_TOPIC_def handle_RPL_TOPIC_def handle_RPL_CREATIONTIME_def handle_RPL_TOPICWHOTIME_def
      handle_RPL_ENDOFNAMES_def Let_def case_prod_beta split: list.split option.split sum.split intro!: produce_step channel_kept)+

lemma put_modes_step:
  "P st \<Longrightarrow> get_channel st name = Some ch \<Longrightarrow> uch_Members ch' = uch_Members ch \<Longrightarrow> P (put_channel name (snd (applyChannelModes av cms ch' s args)) st)"
  by (rule channel_edited, assumption, assumption, rule applyChannelModes_edited) auto

lemma mode_handlers_keep: "keeps (handle_MODE env msg)" "keeps (handle_RPL_CHANNELMODEIS env d msg)" "keeps (handle_RPL_UMODEIS env msg)"
  by (rule keepsI, simp add: handle_MODE_def handle_RPL_CHANNELMODEIS_def handle_RPL_UMODEIS_def Let_def case_prod_beta put_modes_step uc_core_def
      split: list.split option.split)+

lemma handle_RPL_NAMREPLY_keeps: "keeps (handle_RPL_NAMREPLY env d msg)"
proof -
  have "P (put_channel name (foldl (set_member av) (ch\<lparr>uch_Status := x\<rparr>) ss) st)" if "P st" "get_channel st name = Some ch" for st name ch av x ss
    using that by (rule channel_edited) (rule set_members_edited, auto)
  then show ?thesis
    by (intro keepsI) (simp add: handle_RPL_NAMREPLY_def split: list.split option.split sum.split status_error.split)
qed

lemma user_handlers_keep:
  "keeps (handle_SETNAME env msg)" "keeps (handle_CHGHOST env msg)" "keeps (handle_AWAY env msg)" "keeps (handle_ACCOUNT env msg)"
  by (rule keepsI, auto simp: handle_SETNAME_def handle_CHGHOST_def handle_AWAY_def handle_ACCOUNT_def Let_def cached uc_core_def
      intro!: set_bookkeeping split: list.split option.split prod.split)+

lemma handleDetachedMessage_step [simp]: "P st \<Longrightarrow> P (snd (snd (handleDetachedMessage env h ch msg st)))"
  by (simp add: handleDetachedMessage_def Let_def case_prod_beta)

lemma saved_channel_message_step: "P st \<Longrightarrow> saved_channel_message env b r msg st = Some (h, d, acts, st') \<Longrightarrow> P st'"
  using handleDetachedMessage_step [of st env]
  by (auto simp: saved_channel_message_def Let_def case_prod_beta split: option.splits if_splits)

lemma deliver_text_step: "P st \<Longrightarrow> P (snd (snd (deliver_text env d msg b n acts st)))"
  by (simp add: deliver_text_def Let_def case_prod_beta split: option.split)

lemma handle_text_keeps: "keeps (handle_text env d msg)"
  by (rule keepsI)
    (auto simp: handle_text_def Let_def case_prod_beta intro: deliver_text_step saved_channel_message_step split: option.split)

lemma auth_handlers_keep:
  "keeps (handle_AUTHENTICATE env msg)" "keeps (handle_RPL_LOGGEDIN env msg)" "keeps (handle_RPL_LOGGEDOUT env msg)"
  "keeps (handle_RPL_VISIBLEHOST env msg)" "keeps (handle_SASL_result env msg)"
  by (rule keepsI, simp add: handle_AUTHENTICATE_def handle_RPL_LOGGEDIN_def handle_RPL_LOGGEDOUT_def handle_RPL_VISIBLEHOST_def
      handle_SASL_result_def Let_def case_prod_beta dequeued uc_core_def split: list.split option.split)+

lemma handle_REGISTER_keeps: "keeps (handle_REGISTER env msg)"
proof (rule keepsI)
  fix st
  assume "P st"
  then have "P (snd (snd (dequeue env (Command msg) st)))" by (rule dequeued)
  then show "P (snd (snd (handle_REGISTER env msg st)))"
    by (cases "dequeue env (Command msg) st") (auto simp: handle_REGISTER_def Let_def case_prod_beta split: option.split list.split)
qed

lemma handle_RPL_MYINFO_keeps: "keeps (handle_RPL_MYINFO msg)"
  by (rule keepsI) (simp add: handle_RPL_MYINFO_def uc_core_def split: list.split)

lemma isupport_values_keep:
  "keeps (\<lambda>st. case handleChanModes v (us_uc st) of Inl e \<Rightarrow> (Some (UpIsupport e), [], st) | Inr uc \<Rightarrow> (None, [], st\<lparr>us_uc := uc\<rparr>))"
  "keeps (\<lambda>st. case handleMemberships v (us_uc st) of Inl e \<Rightarrow> (Some (UpIsupport e), [], st) | Inr uc \<Rightarrow> (None, [], st\<lparr>us_uc := uc\<rparr>))"
  "keeps (\<lambda>st. let (acts, st) = net_updateCasemapping env (casemap_of m) st in (None, acts, st))"
proof -
  have "uc_core uc' = uc_core uc" if "handleChanModes v uc = Inr uc'" for uc uc'
    using that by (auto simp: handleChanModes_def Let_def uc_core_def split: if_splits)
  then show "keeps (\<lambda>st. case handleChanModes v (us_uc st) of Inl e \<Rightarrow> (Some (UpIsupport e), [], st) | Inr uc \<Rightarrow> (None, [], st\<lparr>us_uc := uc\<rparr>))"
    by (auto intro!: keepsI bookkeeping split: sum.split)
  have "uc_core uc' = uc_core uc" if "handleMemberships v uc = Inr uc'" for uc uc'
    using that by (auto simp: handleMemberships_def Let_def uc_core_def split: if_splits option.splits)
  then show "keeps (\<lambda>st. case handleMemberships v (us_uc st) of Inl e \<Rightarrow> (Some (UpIsupport e), [], st) | Inr uc \<Rightarrow> (None, [], st\<lparr>us_uc := uc\<rparr>))"
    by (auto intro!: keepsI bookkeeping split: sum.split)
qed (simp add: keeps_def case_prod_beta casemapping)

lemma keeps_bookkeeping: "(\<And>uc. uc_core (f uc) = uc_core uc) \<Longrightarrow> keeps (\<lambda>st. (None, [], set_uc f st))"
  by (simp add: keeps_def)

lemma isupport_token_effect_keeps: "keeps (isupport_token_effect env n p v)"
  unfolding isupport_token_effect_def
  by (intro keeps_if isupport_values_keep keeps_const keeps_bookkeeping) (simp_all add: uc_core_def)

lemma handle_isupport_tokens_keeps: "keeps (handle_isupport_tokens env tokens)"
proof (induction tokens)
  case (Cons t ts)
  show ?case
  proof (rule keepsI)
    fix st
    assume st: "P st"
    obtain n p v where t: "parse_isupport_token (e_unicode env) t = (n, p, v)" by (metis prod_cases3)
    define st0 where "st0 = set_uc (\<lambda>uc. uc\<lparr>uc_isupport := (case v of Some v \<Rightarrow> go_put p (Some v) (uc_isupport uc)
      | None \<Rightarrow> if \<not> n then go_put p None (uc_isupport uc) else go_del p (uc_isupport uc))\<rparr>) st"
    have "P st0" using st unfolding st0_def by (simp add: uc_core_def)
    define val where "val = (case v of Some v \<Rightarrow> v | None \<Rightarrow> [])"
    obtain e acts st1 where 1: "isupport_token_effect env n p val st0 = (e, acts, st1)" by (metis prod_cases3)
    obtain e2 acts2 st2 where 2: "handle_isupport_tokens env ts st1 = (e2, acts2, st2)" by (metis prod_cases3)
    have "P st1" using keepsD [OF isupport_token_effect_keeps \<open>P st0\<close>, of env n p val] by (simp add: 1)
    moreover have "P st2" using keepsD [OF Cons.IH \<open>P st1\<close>] by (simp add: 2)
    moreover have "snd (snd (handle_isupport_tokens env (t # ts) st)) = (case e of Some _ \<Rightarrow> st1 | None \<Rightarrow> st2)"
      by (simp add: t 1 2 flip: st0_def val_def split: option.split)
    ultimately show "P (snd (snd (handle_isupport_tokens env (t # ts) st)))" by (simp split: option.split)
  qed
qed (simp add: keeps_def)

lemma burst_handlers_keep: "keeps (handle_RPL_ISUPPORT env msg)" "keeps (handle_ENDOFMOTD env d msg)"
proof -
  show "keeps (handle_RPL_ISUPPORT env msg)"
    using keepsD [OF handle_isupport_tokens_keeps]
    by (auto intro!: keepsI simp: handle_RPL_ISUPPORT_def Let_def case_prod_beta split: option.split)
  show "keeps (handle_ENDOFMOTD env d msg)"
  proof (rule keepsI)
    fix st
    assume st: "P st"
    let ?st = "set_uc (\<lambda>uc. uc\<lparr>uc_gotMotd := True\<rparr>) st"
    have "P ?st" using st by (simp add: uc_core_def)
    then show "P (snd (snd (handle_ENDOFMOTD env d msg st)))"
      using st startRegainNickTimer_step [OF \<open>P ?st\<close>] startRegainNickTimer_step [OF casemap_RFC1459_step [OF \<open>P ?st\<close>]]
      by (simp add: handle_ENDOFMOTD_def Let_def case_prod_beta casemap_RFC1459_step split: option.split)
  qed
qed

lemma pending_handlers_keep: "keeps (handle_pending_reply env cmd msg)" "keeps (handle_pending_end env strict cmd msg)"
proof -
  show "keeps (handle_pending_reply env cmd msg)"
    by (rule keepsI) (auto simp: handle_pending_reply_def split: prod.split option.split)
  show "keeps (handle_pending_end env strict cmd msg)"
  proof (rule keepsI)
    fix st
    assume "P st"
    then have "P (snd (snd (dequeue env cmd st)))" by (rule dequeued)
    then show "P (snd (snd (handle_pending_end env strict cmd msg st)))"
      by (cases "dequeue env cmd st") (auto simp: handle_pending_end_def split: option.split)
  qed
qed

lemma monitor_status_step:
  "P st \<Longrightarrow> P (set_uc (\<lambda>uc. uc\<lparr>uc_monitored := foldl (\<lambda>m n. cmm_Set m n online) (uc_monitored uc) names\<rparr>) st)"
proof (induction names arbitrary: st)
  case (Cons n ns)
  from Cons.IH [OF monitored [OF Cons.prems, of n online]] show ?case by (simp add: set_uc_def)
qed (simp add: set_uc_def)

lemma misc_handlers_keep:
  "keeps (handle_BATCH env c msg)" "keeps (handle_RPL_WHOREPLY env msg)" "keeps (handle_RPL_WHOSPCRPL env msg)" "keeps (handle_INVITE env msg)"
  "keeps (handle_MONITOR_status env msg)" "keeps (handle_ERR_MONLISTFULL env msg)" "keeps (handle_registration_error env d msg)"
  by (rule keepsI, simp add: handle_BATCH_def handle_RPL_WHOREPLY_def handle_RPL_WHOSPCRPL_def handle_INVITE_def handle_MONITOR_status_def
      handle_ERR_MONLISTFULL_def handle_registration_error_def Let_def uc_core_def monitor_status_step
      split: list.split option.split prod.split sum.split)+

lemma dequeue_and_forward_step: "P st \<Longrightarrow> P (snd (dequeue_and_forward env d cmd msg st))"
  by (simp add: dequeue_and_forward_def Let_def case_prod_beta dequeued)

lemma error_handlers_keep:
  "keeps (handle_ERR_NOSUCHNICK env d msg)" "keeps (handle_command_error env d msg)" "keeps (handle_FAIL env d msg)"
  by (rule keepsI, simp add: handle_ERR_NOSUCHNICK_def handle_command_error_def handle_FAIL_def Let_def case_prod_beta
      dequeue_and_forward_step dequeued uc_core_def split: list.split option.split)+

lemma handle_CAP_keeps: "keeps (handle_CAP env msg)"
proof -
  have "uc_core (snd (snd (handleCapAck U net nm ok uc))) = uc_core uc" for U net nm ok uc
    by (simp add: handleCapAck_def Let_def uc_core_def)
  then have "uc_core (snd (snd (cap_ack_loop U net ack names uc))) = uc_core uc" for U net ack names uc
    by (induction names arbitrary: uc) (simp_all add: Let_def case_prod_beta split: option.split)
  then have "uc_core (fst (snd (snd (handleCAP U net msg uc)))) = uc_core uc" for U net uc
    by (simp add: handleCAP_def Let_def case_prod_beta handleSupportedCaps_def split: option.split) (simp add: uc_core_def)
  then show ?thesis by (intro keepsI) (simp add: handle_CAP_def case_prod_beta bookkeeping)
qed

lemma error_keeps: "keeps (\<lambda>st. case ps of [] \<Rightarrow> (Some UpNeedMoreParams, [], st) | t # _ \<Rightarrow> (Some (UpFatal t), [], st))"
  by (rule keepsI) (simp split: list.split)

lemmas handlers_keep = channel_handlers_keep put_handlers_keep mode_handlers_keep handle_RPL_NAMREPLY_keeps user_handlers_keep
  handle_text_keeps auth_handlers_keep handle_REGISTER_keeps handle_RPL_MYINFO_keeps burst_handlers_keep pending_handlers_keep
  misc_handlers_keep error_handlers_keep handle_CAP_keeps error_keeps keeps_const

lemma dispatch_keeps_unless:
  assumes "is_reply msg nick_commands \<Longrightarrow> keeps (handle_NICK env msg) \<and> keeps (handle_RPL_WELCOME msg) \<and> (\<forall>d. keeps (handle_ERR_NICKNAMEINUSE env d msg))"
  shows "keeps (dispatch_command env c msg)"
proof -
  have n: "keeps (handle_NICK env msg)" if "is_reply msg [''NICK'', ''JOIN'', ''PART'', ''KICK'', ''QUIT'']" "Command msg = ''NICK''"
    using that assms by (simp add: is_reply_def nick_commands_def)
  have "keeps (handle_membership env msg)" if "is_reply msg [''NICK'', ''JOIN'', ''PART'', ''KICK'', ''QUIT'']"
    unfolding handle_membership_def by (intro keeps_if channel_handlers_keep n that)
  moreover have "keeps (handle_RPL_WELCOME msg)" if "is_reply msg [''001'']" using that assms by (simp add: is_reply_def nick_commands_def)
  moreover have "keeps (handle_ERR_NICKNAMEINUSE env (mc_did c) msg)" if "is_reply msg [''433'']"
    using that assms by (simp add: is_reply_def nick_commands_def)
  ultimately show ?thesis unfolding dispatch_command_def by (intro keeps_if handlers_keep)
qed

lemma message_keeps:
  assumes "\<And>c fb m. message_context msg st = Inr (c, fb, m) \<Longrightarrow> keeps (dispatch_command env c (complete_message env m st))"
    and "P st" and "up_handleMessage env msg st = (e, acts, st')"
  shows "P st'"
  using keepsD [OF assms(1), where st = st] assms(2,3)
  by (auto simp: up_handleMessage_def Let_def case_prod_beta split: sum.splits prod.splits)

end

text \<open>A predicate that does not depend on the nick survives every message.\<close>

definition uc_maps where
  "uc_maps uc = (uc_channels uc, uc_users uc, uc_monitored uc, uc_pendingCmds uc)"

locale up_all_steps = up_steps +
  assumes any_nick: "P st \<Longrightarrow> uc_maps uc = uc_maps (us_uc st) \<Longrightarrow> P (st\<lparr>us_uc := uc\<rparr>)"
begin

lemma set_nick_step: "P st \<Longrightarrow> (\<And>uc. uc_maps (f uc) = uc_maps uc) \<Longrightarrow> P (set_uc f st)"
  by (simp add: set_uc_def any_nick)

lemma own_nick_step: "P st \<Longrightarrow> P (own_nick_changed env n st)"
  by (auto simp: own_nick_changed_def Let_def uc_maps_def stopRegainNickTimer_def intro!: set_nick_step)

lemma handle_NICK_keeps: "keeps (handle_NICK env msg)"
proof (rule keepsI)
  fix st
  assume "P st"
  then have "P (set_channels (cmm_map (\<lambda>_. rename_member old new)) st)" "P (set_channels (cmm_map (\<lambda>_. rename_member old new)) (own_nick_changed env n st))"
    for old new n by (auto intro: channels_edited rename_member_edited own_nick_step)
  then show "P (snd (snd (handle_NICK env msg st)))"
    using \<open>P st\<close> by (auto simp: handle_NICK_def Let_def case_prod_beta dest!: cached [rotated] split: list.split option.split)
qed

lemma nick_handlers_keep: "keeps (handle_RPL_WELCOME msg)" "keeps (handle_ERR_NICKNAMEINUSE env d msg)"
  using misc_handlers_keep(7) [of env d msg]
  by (auto simp: keeps_def handle_RPL_WELCOME_def handle_ERR_NICKNAMEINUSE_def Let_def uc_maps_def intro!: set_nick_step split: list.split)

lemma every_message_keeps: "up_handleMessage env msg st = (e, acts, st') \<Longrightarrow> P st \<Longrightarrow> P st'"
  by (rule message_keeps [rotated], assumption+) (simp add: dispatch_keeps_unless handle_NICK_keeps nick_handlers_keep)

end

end
