(* ===== verification/Upstream_Invariant.thy ===== *)
theory Upstream_Invariant
  imports Upstream_Steps
begin

text \<open>
  The invariant of an upstream connection and that every message of the server keeps it, errors
  included: the maps of the network and of its connection follow the case mapping of the network, also when the server
  changes it, and the queues of pending commands stay in order.
\<close>

section \<open>The invariant\<close>

text \<open>A map that is well formed and, when it has to, follows a case mapping.\<close>

definition keyed :: "bool \<Rightarrow> (string \<Rightarrow> string) \<Rightarrow> 'v case_mapping_map \<Rightarrow> bool" where
  "keyed b cm m \<longleftrightarrow> cmm_ok m \<and> (b \<longrightarrow> cmm_casemap m = cm)"

text \<open>The maps of a network (saved channels, receipts and push targets) and of a connection (channels, their members, cached
  users and monitored nicks).  They start with fixed case mappings, before the server has said which one it uses, so that
  following the case mapping of the network is a flag: \<open>up_inv True\<close> says that the maps of the network follow it, and those of the
  connection that the network has; \<open>up_inv False\<close> says that they are well formed, each for its own case mapping.  Before a
  connection is registered the network does not have it.\<close>

definition net_keyed :: "bool \<Rightarrow> network \<Rightarrow> bool" where
  "net_keyed b net \<longleftrightarrow> keyed b (n_casemap net) (n_channels net) \<and> keyed b (n_casemap net) (n_delivered net)
     \<and> keyed b (n_casemap net) (n_pushTargets net)"

definition conn_keyed :: "bool \<Rightarrow> (string \<Rightarrow> string) \<Rightarrow> upstream_conn \<Rightarrow> bool" where
  "conn_keyed b cm uc \<longleftrightarrow> keyed b cm (uc_channels uc) \<and> all_values (\<lambda>ch. keyed b cm (uch_Members ch)) (uc_channels uc)
     \<and> keyed b cm (uc_users uc) \<and> keyed b cm (uc_monitored uc)"

definition up_inv :: "bool \<Rightarrow> up_state \<Rightarrow> bool" where
  "up_inv follows st \<longleftrightarrow> net_keyed follows (us_net st) \<and> conn_keyed (follows \<and> us_current st) (n_casemap (us_net st)) (us_uc st)
     \<and> queues_ok (us_uc st)"

lemma up_inv_weaken: "up_inv True st \<Longrightarrow> up_inv b st"
  by (auto simp: up_inv_def net_keyed_def conn_keyed_def keyed_def all_values_def list_all_iff)

lemma keyed_simps [simp]:
  "keyed b cm m \<Longrightarrow> keyed b cm (cmm_Set m n v)" "keyed b cm m \<Longrightarrow> keyed b cm (cmm_Del m n)"
  "keyed b cm (cmm_map f m) = keyed b cm m" "keyed b cm (NewCaseMappingMap cm)"
  by (auto simp: keyed_def)

lemma keyed_edited: "edited m m' \<Longrightarrow> keyed b cm m \<Longrightarrow> keyed b cm m'"
  by (induction rule: edited.induct) auto

lemma keyed_StoreID [simp]: "keyed b cm ds \<Longrightarrow> keyed b cm (ds_StoreID ds target client i)"
  by (simp add: ds_StoreID_def Let_def)

lemma keyed_rekeyed [simp]: "keyed b cm (cmm_SetCaseMapping m cm)"
  by (simp add: keyed_def SetCaseMapping_m(2))

lemma keyed_cache_user: "cache_user nick info users = Some users' \<Longrightarrow> keyed b cm users \<Longrightarrow> keyed b cm users'"
  by (auto simp: cache_user_def Let_def split: if_splits option.splits)

lemma all_values_SetCaseMapping: "all_values P cmm \<Longrightarrow> all_values P (cmm_SetCaseMapping cmm cm)"
proof -
  have *: "all_values P cmm \<Longrightarrow> list_all (\<lambda>(k, e). P (entry_value e)) m \<Longrightarrow>
    list_all (\<lambda>(k, e). P (entry_value e)) (foldl (\<lambda>m (k, e). go_put k e m) m xs)"
    if "list_all (\<lambda>(k, e). P (entry_value e)) xs" for xs m
    using that by (induction xs arbitrary: m) (auto intro: list_all_go_put)
  show "all_values P cmm \<Longrightarrow> all_values P (cmm_SetCaseMapping cmm cm)"
    unfolding all_values_def SetCaseMapping_m(1)
    by (rule * [rotated]) (auto simp: all_values_def rekey_def list_all_iff)
qed

lemma all_values_map_names: "all_values P m \<Longrightarrow> (\<And>n v. P v \<Longrightarrow> Q (f n v)) \<Longrightarrow> all_values Q (cmm_map f m)"
  by (auto simp: all_values_def cmm_map_def list_all_iff)

text \<open>A command that is never queued has no queue.\<close>

lemma pending_unknown: "queues_ok uc \<Longrightarrow> \<not> List.member pendingTypes cmd \<Longrightarrow> pending uc cmd = []"
proof (cases "go_get (uc_pendingCmds uc) cmd")
  case (Some q)
  then have "(cmd, q) \<in> set (uc_pendingCmds uc)" by (rule map_of_SomeD)
  then show "queues_ok uc \<Longrightarrow> \<not> List.member pendingTypes cmd \<Longrightarrow> pending uc cmd = []"
    by (auto simp: queues_ok_def list_all_iff queue_ok_def)
qed (simp add: pending_def)

lemma dequeueCommand_maps:
  "conn_keyed b cm (snd (snd (dequeueCommand now dcs cmd uc))) = conn_keyed b cm uc"
  by (simp add: dequeueCommand_def sendNextPendingCommand_def Let_def set_pending_def SendMessageLabeled_def conn_keyed_def split: list.split)

lemma dequeueCommand_queues:
  "queues_ok uc \<Longrightarrow> queues_ok (snd (snd (dequeueCommand now dcs cmd uc)))"
proof (cases "List.member pendingTypes cmd")
  case True
  then show "queues_ok uc \<Longrightarrow> queues_ok (snd (snd (dequeueCommand now dcs cmd uc)))" using dequeue_ok by simp
next
  case False
  then show "queues_ok uc \<Longrightarrow> queues_ok (snd (snd (dequeueCommand now dcs cmd uc)))"
    using pending_unknown by (simp add: dequeueCommand_def sendNextPendingCommand_def Let_def)
qed

lemma conn_keyed_channels:
  "conn_keyed b cm (uc\<lparr>uc_channels := chs\<rparr>)
   = (keyed b cm chs \<and> all_values (\<lambda>ch. keyed b cm (uch_Members ch)) chs \<and> keyed b cm (uc_users uc) \<and> keyed b cm (uc_monitored uc))"
  by (simp add: conn_keyed_def)

section \<open>Messages\<close>

text \<open>A new case mapping re-keys every map.\<close>

lemma net_updateCasemapping_follows:
  assumes "up_inv False st"
  shows "up_inv True (snd (net_updateCasemapping env cm st))"
proof -
  have "all_values (\<lambda>_. True) (cmm_SetCaseMapping (uc_channels (us_uc st)) cm)"
    by (rule all_values_SetCaseMapping) (simp add: all_values_def list_all_iff)
  moreover have "all_values (\<lambda>ch. keyed False cm (uch_Members ch)) (uc_channels (us_uc st))"
    using assms by (simp add: up_inv_def conn_keyed_def keyed_def)
  ultimately show ?thesis
    using assms by (auto simp: net_updateCasemapping_def Let_def up_inv_def net_keyed_def conn_keyed_def set_uc_def queues_ok_def keyed_def [of False]
        intro: all_values_map)
qed

interpretation inv: up_all_steps "up_inv b" for b
proof unfold_locales
  fix st st' uc env cmd name ch ch' f m nick info
  assume inv: "up_inv b st"
  note d = inv [unfolded up_inv_def net_keyed_def conn_keyed_def]
  show maps: "up_inv b (st\<lparr>us_uc := uc\<rparr>)" if "uc_maps uc = uc_maps (us_uc st)"
    using that d by (simp add: up_inv_def net_keyed_def conn_keyed_def uc_maps_def queues_ok_def)
  show "up_inv b (st\<lparr>us_uc := uc\<rparr>)" if "uc_core uc = uc_core (us_uc st)" using that by (intro maps) (simp add: uc_core_def uc_maps_def)
  show "up_inv b st'" if "cacheUserInfo nick info st = Some st'"
    using that d by (auto simp: cacheUserInfo_def up_inv_def net_keyed_def conn_keyed_def queues_ok_def intro: keyed_cache_user)
  show "up_inv b (snd (snd (dequeue env cmd st)))"
    using inv by (simp add: dequeue_def case_prod_beta up_inv_def dequeueCommand_maps dequeueCommand_queues)
  have put: "up_inv b (put_channel name ch' st)" if "keyed (b \<and> us_current st) (n_casemap (us_net st)) (uch_Members ch')" for ch'
    using that d by (simp add: put_channel_def set_channels_def set_uc_def up_inv_def net_keyed_def conn_keyed_channels all_values_Set queues_ok_def)
  show "up_inv b (put_channel name ch' st)" if "get_channel st name = Some ch" "edited (uch_Members ch) (uch_Members ch')"
    using that d by (intro put) (auto simp: get_channel_def intro: keyed_edited dest: all_values_Get)
  show "up_inv b (put_channel name (new_channel (n_casemap (us_net st)) name) st)" by (rule put) (simp add: new_channel_def)
  show "up_inv b (set_channels (\<lambda>chs. cmm_Del chs name) st)"
    using d by (simp add: set_channels_def set_uc_def up_inv_def net_keyed_def conn_keyed_channels all_values_Del queues_ok_def)
  show "up_inv b (set_channels (cmm_map f) st)" if "\<And>n ch. edited (uch_Members ch) (uch_Members (f n ch))"
    using d by (auto simp: set_channels_def set_uc_def up_inv_def net_keyed_def conn_keyed_channels queues_ok_def
        intro!: all_values_map_names keyed_edited [OF that])
  have "up_inv False st" using inv by (auto simp: up_inv_def net_keyed_def conn_keyed_def keyed_def all_values_def list_all_iff)
  then show "up_inv b (snd (net_updateCasemapping env (casemap_of m) st))" by (rule up_inv_weaken [OF net_updateCasemapping_follows])
qed (auto simp: up_inv_def net_keyed_def conn_keyed_def queues_ok_def set_uc_def set_db_channel_def)

section \<open>Reachable states\<close>

text \<open>The states that a sequence of messages can lead to, whatever the other parts of the program and
  the clock do in between.\<close>

inductive up_reaches :: "up_state \<Rightarrow> up_state \<Rightarrow> bool" for st where
  start: "up_reaches st st"
| message: "up_reaches st st1 \<Longrightarrow> up_handleMessage env msg st1 = (e, acts, st2) \<Longrightarrow> up_reaches st st2"

text \<open>A message that announces the case mapping of the server.\<close>

definition announces :: "irc_message \<Rightarrow> bool" where
  "announces msg \<longleftrightarrow> Command msg = ''005'' \<and> unlabelled msg
     \<and> length (Params msg) > 2 \<and> HasPrefix (Params msg ! 1) ''CASEMAPPING=''"

lemma parse_casemapping: "\<exists>v. parse_isupport_token U (''CASEMAPPING='' @ s) = (False, ''CASEMAPPING'', v)"
proof -
  have "ToUpper U ''CASEMAPPING'' = ''CASEMAPPING''"
    by (simp add: ToUpper_def str_map_ascii_Cons rune_upper_def, code_simp)
  then show ?thesis by (simp add: parse_isupport_token_def HasPrefix_def Let_def)
qed

lemma announcement_follows:
  assumes "up_inv False st" and "announces msg"
  shows "up_inv True (snd (snd (up_handleMessage env msg st)))"
proof -
  obtain t token rest v where ps: "Params msg = t # token # rest" "rest \<noteq> []"
    and tok: "parse_isupport_token (e_unicode env) token = (False, ''CASEMAPPING'', v)"
  proof -
    obtain t s rest where "Params msg = t # (''CASEMAPPING='' @ s) # rest" "rest \<noteq> []"
      using assms(2) by (cases "Params msg"; cases "tl (Params msg)") (auto simp: announces_def HasPrefix_iff)
    with that parse_casemapping [of "e_unicode env" s] show thesis by blast
  qed
  let ?tokens = "token # butlast rest"
  have tokens: "up_inv True (snd (snd (handle_isupport_tokens env ?tokens st)))"
  proof -
    define st0 where "st0 = set_uc (\<lambda>uc. uc\<lparr>uc_isupport := (case v of Some v \<Rightarrow> go_put ''CASEMAPPING'' (Some v) (uc_isupport uc)
      | None \<Rightarrow> if \<not> False then go_put ''CASEMAPPING'' None (uc_isupport uc) else go_del ''CASEMAPPING'' (uc_isupport uc))\<rparr>) st"
    define cm where "cm = casemap_of (case ParseCaseMapping (case v of Some v \<Rightarrow> v | None \<Rightarrow> []) of Some cm \<Rightarrow> cm | None \<Rightarrow> CaseMappingRFC1459)"
    obtain acts st1 where 1: "net_updateCasemapping env cm st0 = (acts, st1)" by fastforce
    have "up_inv False st0" unfolding st0_def by (rule inv.set_bookkeeping [OF assms(1)]) (simp add: uc_core_def)
    then have "up_inv True st1" using net_updateCasemapping_follows [of st0 env cm] by (simp add: 1)
    then have "up_inv True (snd (snd (handle_isupport_tokens env (butlast rest) st1)))"
      by (rule inv.keepsD [OF inv.handle_isupport_tokens_keeps])
    moreover have "snd (snd (handle_isupport_tokens env ?tokens st)) = snd (snd (handle_isupport_tokens env (butlast rest) st1))"
      by (simp add: tok isupport_token_effect_def 1 split: prod.split flip: st0_def cm_def)
    ultimately show ?thesis by simp
  qed
  have "up_inv True (snd (snd (handle_RPL_ISUPPORT env m st)))" if "Params m = Params msg" for m
    using tokens ps
    by (cases "handle_isupport_tokens env ?tokens st")
      (simp add: handle_RPL_ISUPPORT_def that Let_def case_prod_beta split: option.split del: handle_isupport_tokens.simps)
  moreover have "dispatch_command env c m st = handle_RPL_ISUPPORT env m st" if "Command m = ''005''" for c m
    by (simp add: dispatch_command_def is_reply_def reply_lists that)
  ultimately show ?thesis using assms(2) by (simp add: announces_def unlabelled_message)
qed


lemma fresh_up_inv: "up_inv False (fresh_up_state nick channels)"
proof -
  have "keyed False cm (foldl (\<lambda>m ch. cmm_Set m (ch_Name ch) ch) m channels)" if "cmm_ok m" for m cm
    using that by (induction channels arbitrary: m) (auto simp: keyed_def)
  then show ?thesis
    using new_conn_queues(1)
    by (simp add: up_inv_def fresh_up_state_def net_keyed_def conn_keyed_def newNetwork_def queues_ok_def) (simp add: new_upstream_conn_def keyed_def)
qed


end
