(* ===== verification/Upstream_Properties.thy ===== *)
theory Upstream_Properties
  imports Upstream_Invariant "HOL-Library.Sublist"
begin

text \<open>
  What the upstream connection promises to clients and to the user: messages of blocked senders stay
  hidden, notifications have a time, replies reach the client that asked, registration gives up
  after a bounded number of nicks, and the desired nick.
\<close>

section \<open>Blocked senders\<close>

text \<open>A client that asked to see the messages of blocked senders.\<close>

definition shows_blocked :: "up_env \<Rightarrow> up_state \<Rightarrow> 64 word \<Rightarrow> bool" where
  "shows_blocked env st d \<longleftrightarrow> list_ex (\<lambda>dc. dc_id dc = d \<and> List.member (dc_metadataSubs dc) ''soju.im/blocked'') (net_dcs env (us_net st))"

fun hidden_action :: "up_env \<Rightarrow> up_state \<Rightarrow> up_action \<Rightarrow> bool" where
  "hidden_action env st (ASendWithID d m i) = shows_blocked env st d"
| "hidden_action env st (AAdvanceWithID d m i) = shows_blocked env st d"
| "hidden_action env st (APushLater b t m) = False"
| "hidden_action env st (APush m) = False"
| "hidden_action env st _ = True"

lemma appendLog_acts: "appendLog env e msg st = (i, acts, st') \<Longrightarrow> list_all (hidden_action env0 st0) acts \<and> n_ref (us_net st') = n_ref (us_net st)"
  by (auto simp: appendLog_def Let_def split: if_splits option.splits)

lemma net_dcs_ref: "n_ref net = n_ref net' \<Longrightarrow> net_dcs env net = net_dcs env net'"
  by (simp add: net_dcs_def)

lemma produce_one_hidden:
  "dc \<in> set (net_dcs env (us_net st0)) \<Longrightarrow> list_all (hidden_action env st0) (produce_one st det True d msg i dc)"
  by (auto simp: produce_one_def Let_def shows_blocked_def list_ex_iff)

lemma produce_hidden:
  assumes "n_ref (us_net st0) = n_ref (us_net st)"
  shows "list_all (hidden_action env st0) (fst (produce env True target msg d st))"
proof -
  obtain i log st1 where 1: "(if target \<noteq> [] then appendLog env target msg st else ([], [], st)) = (i, log, st1)"
    by (metis prod_cases3)
  then have "list_all (hidden_action env st0) log \<and> n_ref (us_net st1) = n_ref (us_net st)"
    using appendLog_acts by (auto split: if_splits)
  then show ?thesis
    using 1 assms produce_one_hidden [of _ env st0] net_dcs_ref [of "us_net st1" "us_net st0" env]
    by (auto simp: produce_def Let_def list_all_iff simp del: hidden_action.simps)
qed

lemma net_attach_hidden:
  "list_all (hidden_action env0 st0) (fst (net_attach env ch st))"
  by (auto simp: net_attach_def Let_def list_all_iff split: option.splits)

text \<open>The parts of the network that the steps on saved channels leave alone.\<close>

definition same_net :: "up_state \<Rightarrow> up_state \<Rightarrow> bool" where
  "same_net st st' \<longleftrightarrow> n_ref (us_net st') = n_ref (us_net st) \<and> n_casemap (us_net st') = n_casemap (us_net st)"

lemma updateChannelAutoDetach_net [simp]:
  "n_ref (us_net (updateChannelAutoDetach x st)) = n_ref (us_net st)"
  "n_casemap (us_net (updateChannelAutoDetach x st)) = n_casemap (us_net st)"
  by (simp_all add: updateChannelAutoDetach_def split: option.split)

lemma net_attach_net: "same_net st (snd (net_attach env ch st))"
  by (simp add: net_attach_def Let_def same_net_def set_db_channel_def)

lemma handleDetachedMessage_hidden:
  assumes "handleDetachedMessage env h ch msg st = (ch', acts, st')"
  shows "list_all (hidden_action env0 st0) acts \<and> same_net st st'"
proof -
  have r: "list_all (hidden_action env0 st0) (map (\<lambda>dc. ARelayDetached (dc_id dc) msg) dcs)" for dcs
    by (simp add: list_all_iff)
  have s: "same_net st st" by (simp add: same_net_def)
  from assms r s net_attach_hidden [of env0 st0 env ch st] net_attach_net [of st env ch] show ?thesis
    unfolding handleDetachedMessage_def Let_def by (auto simp: case_prod_beta split: if_splits)
qed

lemma saved_channel_message_hidden:
  assumes "saved_channel_message env b r msg st = Some (h, d, acts, st')"
  shows "list_all (hidden_action env0 st0) acts \<and> same_net st st'"
proof (cases "cmm_Get (n_channels (us_net st)) b = None \<or> \<not> r")
  case True
  then show ?thesis using assms by (auto simp: saved_channel_message_def same_net_def split: option.splits)
next
  case False
  then obtain ch where ch: "cmm_Get (n_channels (us_net st)) b = Some ch" and r by auto
  obtain hl where hl: "net_isHighlight env st msg = Some hl"
    using assms ch \<open>r\<close> by (auto simp: saved_channel_message_def split: option.splits)
  obtain ch1 a1 st1 where 1: "(if ch_Detached ch then handleDetachedMessage env hl ch msg st else (ch, [], st)) = (ch1, a1, st1)"
    by (metis prod_cases3)
  then have "list_all (hidden_action env0 st0) a1 \<and> same_net st st1"
    using handleDetachedMessage_hidden by (auto simp: same_net_def split: if_splits)
  moreover have "acts = a1 \<and> (st' = st1 \<or> st' = updateChannelAutoDetach b st1)"
    using assms ch \<open>r\<close> hl 1 by (auto simp: saved_channel_message_def Let_def split: if_splits)
  ultimately show ?thesis
    by (auto simp: same_net_def)
qed

text \<open>C13. A message from a sender that the user blocked is neither shown to a client that did not ask to
  see such messages nor turned into a notification; it is only logged and, in a detached channel,
  relayed.  Messages of the server itself have no sender to block.\<close>

theorem blocked_sender_hidden:
  assumes "e_messageTarget env (n_casemap (us_net st) (msg_name msg)) = Some (muted, True)"
    and "\<not> is_server_message (TrimLeft (Params msg ! 0) (uc_availableStatusMsg (us_uc st))) msg st"
  shows "list_all (hidden_action env st) (fst (snd (handle_text env d msg st)))"
proof -
  let ?target = "TrimLeft (Params msg ! 0) (uc_availableStatusMsg (us_uc st))"
  obtain b direct where b: "message_buffer ?target msg st = (b, direct)" by force
  have deliver: "list_all (hidden_action env st) (fst (snd (deliver_text env d msg b n acts st1)))"
    if s: "list_all (hidden_action env st) acts \<and> same_net st st1" for n acts st1
  proof -
    have "e_messageTarget env (n_casemap (us_net st1) (msg_name msg)) = Some (muted, True)"
      using assms(1) s by (simp add: same_net_def)
    then show ?thesis
      using s produce_hidden [of st st1 env b msg d] by (simp add: deliver_text_def Let_def case_prod_beta same_net_def)
  qed
  have "list_all (hidden_action env st) (fst (snd (case saved_channel_message env b r msg st of
      None \<Rightarrow> (Some UpDiverges, [], st)
    | Some (h, det, acts, st1) \<Rightarrow> deliver_text env d msg b (n h det) acts st1)))" for r n
    by (cases "saved_channel_message env b r msg st") (auto intro!: deliver elim!: saved_channel_message_hidden)
  then show ?thesis using assms(2) b by (simp add: handle_text_def Let_def)
qed

text \<open>A network with a client, and an environment in which \<open>eve\<close> is blocked.\<close>

definition blocking_env :: up_env where
  "blocking_env = (example_env [example_dc 1 []])\<lparr>e_messageTarget := (\<lambda>n. if n = ''eve'' then Some (False, True) else None)\<rparr>"

definition registered_state :: "string \<Rightarrow> db_channel list \<Rightarrow> up_state" where
  "registered_state nick chs = set_uc (\<lambda>uc. uc\<lparr>uc_registered := True\<rparr>) (fresh_up_state nick chs)"

theorem blocked_sender_hidden_witness:
  "list_all (hidden_action blocking_env (registered_state ''alice'' []))
     (fst (snd (handle_text blocking_env 0 (from_nick ''eve'' ''PRIVMSG'' [''alice'', ''hi'']) (registered_state ''alice'' []))))"
proof (rule blocked_sender_hidden)
  show "e_messageTarget blocking_env (n_casemap (us_net (registered_state ''alice'' []))
      (msg_name (from_nick ''eve'' ''PRIVMSG'' [''alice'', ''hi'']))) = Some (False, True)"
    by code_simp
  show "\<not> is_server_message (TrimLeft (Params (from_nick ''eve'' ''PRIVMSG'' [''alice'', ''hi'']) ! 0)
      (uc_availableStatusMsg (us_uc (registered_state ''alice'' []))))
      (from_nick ''eve'' ''PRIVMSG'' [''alice'', ''hi'']) (registered_state ''alice'' [])"
    by code_simp
qed

text \<open>C40. A detached channel that relays every message relays those of blocked senders too, to every
  client of the network, whether it asked to see them or not.\<close>

theorem blocked_sender_relayed:
  assumes "cmm_Get (n_channels (us_net st)) target = Some ch" and "ch_Detached ch"
    and "ch_RelayDetached ch = FilterMessage" and "ch_ReattachOn ch = FilterNone"
    and "net_isHighlight env st msg = Some False"
    and "Command msg = ''PRIVMSG''" and "Params msg = [target, body]" and "uc_availableStatusMsg (us_uc st) = []"
    and "\<not> equalCasemap (us_net st) (msg_name msg) serviceNick" and "\<not> equalCasemap (us_net st) target serviceNick"
    and "\<not> is_server_message target msg st" and "message_buffer target msg st = (target, False)"
    and "\<not> isOurNick st (msg_name msg)"
  shows "\<exists>acts. fst (snd (handle_text env d msg st)) = map (\<lambda>dc. ARelayDetached (dc_id dc) msg) (net_dcs env (us_net st)) @ acts"
proof -
  have "saved_channel_message env target True msg st =
      Some (False, False, map (\<lambda>dc. ARelayDetached (dc_id dc) msg) (net_dcs env (us_net st)),
        if ch_DetachOn ch = FilterMessage \<or> ch_DetachOn ch = FilterDefault then updateChannelAutoDetach target st else st)"
    using assms(1-5) by (simp add: saved_channel_message_def handleDetachedMessage_def detachedMessageNeedsRelay_def Let_def)
  then show ?thesis
    using assms(6-13) by (simp add: handle_text_def deliver_text_def Let_def case_prod_beta TrimLeft_def)
qed

definition relayed_channel :: db_channel where
  "relayed_channel = \<lparr>ch_ID = 1, ch_Name = ''#a'', ch_Key = [], ch_Detached = True, ch_DetachedInternalMsgID = [],
     ch_RelayDetached = FilterMessage, ch_ReattachOn = FilterNone, ch_DetachAfter = 0, ch_DetachOn = FilterNone\<rparr>"

theorem blocked_sender_relayed_witness:
  "\<exists>acts. fst (snd (handle_text blocking_env 0 (from_nick ''eve'' ''PRIVMSG'' [''#a'', ''hi'']) (registered_state ''alice'' [relayed_channel])))
    = map (\<lambda>dc. ARelayDetached (dc_id dc) (from_nick ''eve'' ''PRIVMSG'' [''#a'', ''hi'']))
        (net_dcs blocking_env (us_net (registered_state ''alice'' [relayed_channel]))) @ acts"
proof (rule blocked_sender_relayed)
  show "cmm_Get (n_channels (us_net (registered_state ''alice'' [relayed_channel]))) ''#a'' = Some relayed_channel"
    by (simp add: registered_state_def set_uc_def fresh_up_state_def newNetwork_def cmm_Get_Set) (simp add: relayed_channel_def)
  show "net_isHighlight blocking_env (registered_state ''alice'' [relayed_channel]) (from_nick ''eve'' ''PRIVMSG'' [''#a'', ''hi'']) = Some False"
    by code_simp
  show "\<not> equalCasemap (us_net (registered_state ''alice'' [relayed_channel])) (msg_name (from_nick ''eve'' ''PRIVMSG'' [''#a'', ''hi''])) serviceNick"
    by code_simp
  show "\<not> equalCasemap (us_net (registered_state ''alice'' [relayed_channel])) ''#a'' serviceNick" by code_simp
  show "\<not> is_server_message ''#a'' (from_nick ''eve'' ''PRIVMSG'' [''#a'', ''hi'']) (registered_state ''alice'' [relayed_channel])" by code_simp
  show "message_buffer ''#a'' (from_nick ''eve'' ''PRIVMSG'' [''#a'', ''hi'']) (registered_state ''alice'' [relayed_channel]) = (''#a'', False)" by code_simp
  show "\<not> isOurNick (registered_state ''alice'' [relayed_channel]) (msg_name (from_nick ''eve'' ''PRIVMSG'' [''#a'', ''hi'']))" by code_simp
  show "uc_availableStatusMsg (us_uc (registered_state ''alice'' [relayed_channel])) = []" by code_simp
qed (simp_all add: relayed_channel_def from_nick_def)

section \<open>The time of a notification\<close>

lemma truncated_bounds:
  assumes "days_of_date 0 1 1 * day_ns \<le> t" and "t < days_of_date 10000 1 1 * day_ns"
  shows "days_of_date 0 1 1 * day_ns \<le> t - t mod 1000000000" "t - t mod 1000000000 < days_of_date 10000 1 1 * day_ns"
proof -
  have lo: "days_of_date 0 1 1 * day_ns = (days_of_date 0 1 1 * 86400) * 1000000000"
    by (simp add: day_ns_def)
  have "days_of_date 0 1 1 * 86400 \<le> t div 1000000000"
    using zdiv_mono1 [OF assms(1), of 1000000000] by (simp add: lo)
  then show "days_of_date 0 1 1 * day_ns \<le> t - t mod 1000000000"
    using div_mult_mod_eq [of t 1000000000] lo by linarith
  show "t - t mod 1000000000 < days_of_date 10000 1 1 * day_ns"
    using assms(2) pos_mod_sign [of 1000000000 t] by linarith
qed

lemma user_FormatServerTime_parses:
  assumes "days_of_date 0 1 1 * day_ns \<le> t" and "t < days_of_date 10000 1 1 * day_ns"
  shows "ParseServerTime (user_FormatServerTime store t) \<noteq> None"
  using server_time_roundtrip [OF assms] server_time_roundtrip [OF truncated_bounds [OF assms]]
  by (simp add: user_FormatServerTime_def)

lemma complete_message_time:
  assumes "days_of_date 0 1 1 * day_ns \<le> e_now env" and "e_now env < days_of_date 10000 1 1 * day_ns"
    and "\<not> isNumeric (Command msg)"
  shows "\<exists>s. go_get (Tags (complete_message env msg st)) ''time'' = Some s \<and> ParseServerTime s \<noteq> None"
proof -
  define t where "t = (case ParseServerTime (case go_get (Tags msg) ''time'' of None \<Rightarrow> [] | Some t \<Rightarrow> t) of
    None \<Rightarrow> e_now env | Some t \<Rightarrow> t)"
  have "days_of_date 0 1 1 * day_ns \<le> t \<and> t < days_of_date 10000 1 1 * day_ns"
    using assms(1,2) ParseServerTime_range by (auto simp: t_def split: option.split)
  then have "ParseServerTime (user_FormatServerTime (e_msgStore env) t) \<noteq> None"
    by (intro user_FormatServerTime_parses) simp_all
  moreover have "go_get (Tags (complete_message env msg st)) ''time'' = Some (user_FormatServerTime (e_msgStore env) t)"
    using assms(3) by (simp add: complete_message_def Let_def t_def)
  ultimately show ?thesis by simp
qed

text \<open>The notification of a text message never fails on the time of the message, whatever time tag the
  server sent: the tag that the bouncer puts on every message can be parsed back, as long as the
  clock shows a year between 0 and 9999.\<close>

theorem notification_time_parses:
  assumes "days_of_date 0 1 1 * day_ns \<le> e_now env" and "e_now env < days_of_date 10000 1 1 * day_ns"
    and "Command msg = ''PRIVMSG'' \<or> Command msg = ''NOTICE''"
  shows "fst (handle_text env d (complete_message env msg st) st) \<noteq> Some UpPanic"
proof -
  have "\<not> isNumeric (Command msg)" using assms(3) by (auto simp: isNumeric_def)
  from complete_message_time [OF assms(1,2) this] obtain s ts
    where t: "go_get (Tags (complete_message env msg st)) ''time'' = Some s" "ParseServerTime s = Some ts" by blast
  have "fst (deliver_text env d (complete_message env msg st) b n acts st1) \<noteq> Some UpPanic" for b n acts st1
    by (simp add: deliver_text_def Let_def case_prod_beta t)
  then show ?thesis
    by (simp add: handle_text_def Let_def case_prod_beta split: option.split)
qed

theorem notification_time_parses_witness:
  "fst (handle_text (example_env []) 0 (complete_message (example_env []) (from_nick ''eve'' ''PRIVMSG'' [''alice'', ''hi''])
     (registered_state ''alice'' [])) (registered_state ''alice'' [])) \<noteq> Some UpPanic"
  by (rule notification_time_parses) (simp_all add: example_env_def days_of_date_def day_ns_def from_nick_def)

section \<open>Nicks during registration\<close>

text \<open>What registration rests on: the nick, whether the connection is registered, the nick it tries to regain, and a case mapping
  under which only the empty name looks empty.\<close>

definition keeps_empty :: "(string \<Rightarrow> string) \<Rightarrow> bool" where
  "keeps_empty cm \<longleftrightarrow> (\<forall>x. cm x = [] \<longleftrightarrow> x = [])"

definition registering :: "string \<Rightarrow> up_state \<Rightarrow> bool" where
  "registering nick st \<longleftrightarrow> uc_nick (us_uc st) = nick \<and> \<not> uc_registered (us_uc st) \<and> uc_pendingRegainNick (us_uc st) = []
     \<and> keeps_empty (n_casemap (us_net st))"

lemma casemap_of_Nil: "keeps_empty (casemap_of m)"
  by (cases m) (auto simp: keeps_empty_def casemapASCII_def casemapRFC1459_def casemapRFC1459Strict_def)

interpretation reg: up_steps "registering nick" for nick
proof unfold_locales
  show "registering nick (snd (snd (dequeue env cmd st)))" if "registering nick st" for env cmd st
    using that
    by (simp add: registering_def dequeue_def case_prod_beta dequeueCommand_def sendNextPendingCommand_def set_pending_def SendMessageLabeled_def Let_def
        split: list.split)
  show "registering nick (snd (net_updateCasemapping env (casemap_of m) st))" if "registering nick st" for env m st
    using that by (simp add: registering_def net_updateCasemapping_def Let_def set_uc_def casemap_of_Nil)
qed (auto simp: registering_def uc_core_def set_uc_def set_db_channel_def put_channel_def set_channels_def cacheUserInfo_def
    split: option.splits if_splits)

lemma other_message_registering:
  assumes "\<not> is_reply msg nick_commands" and "registering nick st" and "up_handleMessage env msg st = (e, acts, st')"
  shows "registering nick st'"
proof (rule reg.message_keeps [OF _ assms(2,3)])
  fix c fb m
  assume "message_context msg st = Inr (c, fb, m)"
  then have "Command m = Command msg" by (auto simp: message_context_def Let_def split: option.splits sum.splits if_splits)
  then show "reg.keeps nick (dispatch_command env c (complete_message env m st))"
    using assms(1) by (intro reg.dispatch_keeps_unless) (simp add: is_reply_def)
qed

text \<open>A server that refuses a nick.\<close>

definition refuses :: "irc_message \<Rightarrow> bool" where
  "refuses msg \<longleftrightarrow> Command msg = ''433'' \<and> unlabelled msg \<and> Prefix msg \<noteq> None \<and> length (Params msg) > 1 \<and> Params msg ! 1 \<noteq> []"

lemma refusal_handled:
  assumes "refuses msg"
  shows "up_handleMessage env msg st = handle_ERR_NICKNAMEINUSE env 0 msg st"
proof -
  have "complete_message env msg st = msg" using assms by (intro complete_numeric) (auto simp: refuses_def isNumeric_def is_digit_def)
  moreover have "dispatch_command env no_context msg st = handle_ERR_NICKNAMEINUSE env 0 msg st"
    using assms by (simp add: refuses_def dispatch_command_def is_reply_def reply_lists no_context_def)
  ultimately show ?thesis using assms by (simp add: unlabelled_message refuses_def)
qed

lemma refusal_retried:
  assumes "refuses msg" and "registering nick st" and "length nick < 29"
  shows "\<exists>st'. up_handleMessage env msg st = (None, [ASend (mk_msg ''NICK'' [nick @ ''_''])], st') \<and> registering (nick @ ''_'') st'"
  using assms by (simp add: refusal_handled handle_ERR_NICKNAMEINUSE_def Let_def registering_def set_uc_def)

lemma refusal_ends:
  assumes "refuses msg" and "registering nick st" and "\<not> length nick < 29"
  shows "up_handleMessage env msg st = (Some (UpRegistration msg), [], st)"
proof -
  obtain x failed rest where "Params msg = x # failed # rest" "failed \<noteq> []"
    using assms(1) by (cases "Params msg"; cases "tl (Params msg)") (auto simp: refuses_def)
  moreover have "\<not> equalCasemap (us_net st) [] failed" if "failed \<noteq> []"
  proof -
    have "keeps_empty (n_casemap (us_net st))" using assms(2) by (simp add: registering_def)
    then have "n_casemap (us_net st) [] = []" "n_casemap (us_net st) failed \<noteq> []" using that by (simp_all add: keeps_empty_def)
    then show ?thesis by (simp add: equalCasemap_def)
  qed
  ultimately show ?thesis
    using assms by (simp add: refusal_handled handle_ERR_NICKNAMEINUSE_def handle_registration_error_def Let_def registering_def)
qed

text \<open>The nicks that are tried after \<open>n\<close>, \<open>k\<close> of them.\<close>

definition fallback_nicks :: "string \<Rightarrow> nat \<Rightarrow> irc_message list" where
  "fallback_nicks n k = map (\<lambda>i. mk_msg ''NICK'' [n @ replicate (Suc i) CHR ''_'']) [0..<k]"

lemma fallback_nicks_Suc: "fallback_nicks n (Suc k) = mk_msg ''NICK'' [n @ ''_''] # fallback_nicks (n @ ''_'') k"
  by (simp add: fallback_nicks_def upt_conv_Cons map_Suc_upt [symmetric] del: upt_Suc)

text \<open>How a run of refusals and other messages ends, with \<open>k\<close> more nicks tried.\<close>

definition gives_up :: "up_env \<Rightarrow> irc_message list \<Rightarrow> string \<Rightarrow> nat \<Rightarrow> up_error option \<times> up_action list \<times> up_state \<times> irc_message list \<Rightarrow> bool" where
  "gives_up env msgs nick k r \<longleftrightarrow>
     (\<exists>e acts st' rest. r = (Some e, acts, st', rest) \<and> \<not> uc_registered (us_uc st') \<and> uc_nick (us_uc st') = nick @ replicate k CHR ''_''
       \<and> k \<le> 29 - length nick \<and> subseq (map ASend (fallback_nicks nick k)) acts
       \<and> ((\<exists>msg. msg \<in> set msgs \<and> refuses msg \<and> e = UpRegistration msg \<and> k = 29 - length nick)
          \<or> (\<exists>msg s. msg \<in> set msgs \<and> \<not> refuses msg \<and> fst (up_handleMessage env msg s) = Some e)))"

lemma runUntilRegistered_next:
  assumes "\<not> uc_registered (us_uc st)" and "up_handleMessage env msg st = (None, acts, st')" and "runUntilRegistered env msgs st' = (e, acts', st'', rest)"
  shows "runUntilRegistered env (msg # msgs) st = (e, acts @ acts', st'', rest)"
  using assms by (simp add: runUntilRegistered.simps [of env "msg # msgs"])

lemma gives_up_after:
  assumes "gives_up env msgs nick k (runUntilRegistered env msgs st')" and "\<not> uc_registered (us_uc st)" and "up_handleMessage env msg st = (None, acts, st')"
  shows "gives_up env (msg # msgs) nick k (runUntilRegistered env (msg # msgs) st)"
proof -
  obtain e acts' st2 rest where r: "runUntilRegistered env msgs st' = (Some e, acts', st2, rest)" using assms(1) unfolding gives_up_def by blast
  note g = assms(1) [unfolded r gives_up_def, simplified]
  have "subseq (map ASend (fallback_nicks nick k)) (acts @ acts')" using g by (intro list_emb_append2) simp
  with g show ?thesis unfolding runUntilRegistered_next [OF assms(2,3) r] gives_up_def by auto
qed

lemma gives_up_retry:
  assumes "gives_up env msgs (nick @ ''_'') k (runUntilRegistered env msgs st')" and "\<not> uc_registered (us_uc st)" and "length nick < 29"
    and "up_handleMessage env msg st = (None, [ASend (mk_msg ''NICK'' [nick @ ''_''])], st')"
  shows "gives_up env (msg # msgs) nick (Suc k) (runUntilRegistered env (msg # msgs) st)"
proof -
  obtain e acts' st2 rest where r: "runUntilRegistered env msgs st' = (Some e, acts', st2, rest)" using assms(1) unfolding gives_up_def by blast
  note g = assms(1) [unfolded r gives_up_def, simplified]
  have "Suc k \<le> 29 - length nick" "k = 28 - length nick \<longleftrightarrow> Suc k = 29 - length nick" using g assms(3) by auto
  with g show ?thesis unfolding runUntilRegistered_next [OF assms(2,4) r] gives_up_def by (auto simp: fallback_nicks_Suc)
qed

lemma nick_fallback:
  assumes "registering nick st" and "list_all (\<lambda>msg. refuses msg \<or> \<not> is_reply msg nick_commands) msgs" and "29 - length nick < length (filter refuses msgs)"
  shows "\<exists>k. gives_up env msgs nick k (runUntilRegistered env msgs st)"
  using assms
proof (induction msgs arbitrary: nick st)
  case (Cons msg msgs)
  have reg: "\<not> uc_registered (us_uc st)" "uc_nick (us_uc st) = nick" using Cons.prems(1) by (simp_all add: registering_def)
  obtain e acts st' where h: "up_handleMessage env msg st = (e, acts, st')" by (metis prod_cases3)
  consider (other) "\<not> refuses msg" "e = None" | (failed) x where "\<not> refuses msg" "e = Some x" | (retry) "refuses msg" "length nick < 29"
    | (last) "refuses msg" "\<not> length nick < 29" by (cases e) auto
  then show ?case
  proof cases
    case other
    then have "registering nick st'" using other_message_registering [OF _ Cons.prems(1) h] Cons.prems(2) by simp
    then obtain k where "gives_up env msgs nick k (runUntilRegistered env msgs st')" using Cons.IH [of nick st'] Cons.prems(2,3) other by auto
    then show ?thesis using gives_up_after [OF _ reg(1)] h other by blast
  next
    case failed
    then have "\<not> uc_registered (us_uc st') \<and> uc_nick (us_uc st') = nick"
      using other_message_registering [OF _ Cons.prems(1) h] Cons.prems(2) by (simp add: registering_def)
    moreover have "\<exists>m s. m \<in> set (msg # msgs) \<and> \<not> refuses m \<and> fst (up_handleMessage env m s) = Some x"
      using h failed by (intro exI [of _ msg] exI [of _ st]) simp
    ultimately have "gives_up env (msg # msgs) nick 0 (runUntilRegistered env (msg # msgs) st)"
      using failed h reg by (subst runUntilRegistered.simps) (simp add: gives_up_def fallback_nicks_def)
    then show ?thesis ..
  next
    case retry
    then obtain st1 where s: "up_handleMessage env msg st = (None, [ASend (mk_msg ''NICK'' [nick @ ''_''])], st1)" "registering (nick @ ''_'') st1"
      using refusal_retried [OF _ Cons.prems(1)] by blast
    have "29 - length (nick @ ''_'') < length (filter refuses msgs)" using Cons.prems(3) retry by simp
    from Cons.IH [OF s(2) _ this] Cons.prems(2) obtain k where "gives_up env msgs (nick @ ''_'') k (runUntilRegistered env msgs st1)" by auto
    then show ?thesis using gives_up_retry [OF _ reg(1) retry(2) s(1)] by blast
  next
    case last
    then have "gives_up env (msg # msgs) nick 0 (runUntilRegistered env (msg # msgs) st)"
      using reg refusal_ends [OF _ Cons.prems(1)] by (subst runUntilRegistered.simps) (auto simp: gives_up_def fallback_nicks_def)
    then show ?thesis ..
  qed
qed simp

text \<open>C27. Registration ends when the server takes none of the nicks: however the server words its refusals and whatever it sends in
  between, as long as it neither welcomes the bouncer nor changes its nick, reading messages ends with an error once there were
  more refusals than there are characters missing to 29.  After each refusal the bouncer has tried the nick with one more
  underscore, in order; and it has given up at a refusal of the longest one, unless another message failed before.\<close>

theorem nick_fallback_bounded:
  assumes "\<not> uc_registered (us_uc st)" and "uc_pendingRegainNick (us_uc st) = []" and "n_casemap (us_net st) = casemap_of m"
    and "list_all (\<lambda>msg. refuses msg \<or> \<not> is_reply msg nick_commands) msgs" and "29 - length (uc_nick (us_uc st)) < length (filter refuses msgs)"
  shows "\<exists>k e acts st' rest. runUntilRegistered env msgs st = (Some e, acts, st', rest) \<and> \<not> uc_registered (us_uc st')
    \<and> uc_nick (us_uc st') = uc_nick (us_uc st) @ replicate k CHR ''_'' \<and> k \<le> 29 - length (uc_nick (us_uc st))
    \<and> subseq (map ASend (fallback_nicks (uc_nick (us_uc st)) k)) acts
    \<and> ((\<exists>msg. msg \<in> set msgs \<and> refuses msg \<and> e = UpRegistration msg \<and> k = 29 - length (uc_nick (us_uc st)))
       \<or> (\<exists>msg s. msg \<in> set msgs \<and> \<not> refuses msg \<and> fst (up_handleMessage env msg s) = Some e))"
proof -
  have "registering (uc_nick (us_uc st)) st" using assms(1-3) by (simp add: registering_def casemap_of_Nil)
  from nick_fallback [OF this assms(4,5)] show ?thesis unfolding gives_up_def by blast
qed

definition nick_in_use :: irc_message where
  "nick_in_use = \<lparr>Tags = [], Prefix = Some \<lparr>Name = ''irc.example.org'', User = [], Host = []\<rparr>, Command = ''433'',
     Params = [''*'', ''alice'', ''Nickname is already in use'']\<rparr>"

definition refusing_server :: "irc_message list" where
  "refusing_server = mk_msg ''PING'' [''x''] # replicate 25 nick_in_use"

theorem nick_fallback_bounded_witness:
  "\<exists>k e acts st' rest. runUntilRegistered (example_env []) refusing_server (fresh_up_state ''alice'' []) = (Some e, acts, st', rest) \<and> \<not> uc_registered (us_uc st')
    \<and> uc_nick (us_uc st') = ''alice'' @ replicate k CHR ''_'' \<and> k \<le> 24 \<and> subseq (map ASend (fallback_nicks ''alice'' k)) acts
    \<and> ((\<exists>msg. msg \<in> set refusing_server \<and> refuses msg \<and> e = UpRegistration msg \<and> k = 24)
       \<or> (\<exists>msg s. msg \<in> set refusing_server \<and> \<not> refuses msg \<and> fst (up_handleMessage (example_env []) msg s) = Some e))"
proof -
  have r: "refuses nick_in_use" "\<not> refuses (mk_msg ''PING'' [''x''])" by (simp_all add: refuses_def nick_in_use_def unlabelled_def mk_msg_def)
  have "list_all (\<lambda>msg. refuses msg \<or> \<not> is_reply msg nick_commands) refusing_server"
    using r by (auto simp: refusing_server_def list_all_iff) (simp add: is_reply_def nick_commands_def mk_msg_def)
  moreover have "length (filter refuses refusing_server) = 25" using r by (simp add: refusing_server_def filter_replicate)
  moreover have "uc_nick (us_uc (fresh_up_state ''alice'' [])) = ''alice''" by (simp add: fresh_up_state_def)
  moreover have "n_casemap (us_net (fresh_up_state ''alice'' [])) = casemap_of CaseMappingRFC1459" by (simp add: fresh_up_state_def newNetwork_def)
  moreover have "\<not> uc_registered (us_uc (fresh_up_state ''alice'' []))" "uc_pendingRegainNick (us_uc (fresh_up_state ''alice'' [])) = []"
    by (simp_all add: fresh_up_state_def new_upstream_conn_def)
  ultimately show ?thesis
    using nick_fallback_bounded [of "fresh_up_state ''alice'' []" CaseMappingRFC1459 refusing_server "example_env []"] by simp
qed

section \<open>Replies to commands\<close>

text \<open>The queue a reply belongs to, and the queue that a reply ends.\<close>

definition reply_queue :: "irc_message \<Rightarrow> string option" where
  "reply_queue msg = (if is_reply msg whois_replies then Some ''WHOIS'' else if is_reply msg [''321'', ''322''] then Some ''LIST'' else None)"

definition end_queue :: "irc_message \<Rightarrow> string option" where
  "end_queue msg = (if is_reply msg [''318''] then Some ''WHOIS'' else if is_reply msg [''323''] then Some ''LIST''
     else if is_reply msg [''315''] then Some ''WHO'' else None)"

lemma dispatch_reply:
  assumes "reply_queue msg = Some cmd"
  shows "dispatch_command env c msg st = handle_pending_reply env cmd msg st"
proof -
  have whois: "dispatch_command env c msg st = handle_pending_reply env ''WHOIS'' msg st" if "Command msg \<in> set whois_replies"
    using that unfolding whois_replies_def list.set
    by (elim insertE emptyE) (simp_all add: dispatch_command_def is_reply_def reply_lists)
  have "dispatch_command env c msg st = handle_pending_reply env ''LIST'' msg st" if "Command msg \<in> set [''321'', ''322'']"
    using that unfolding list.set by (elim insertE emptyE) (simp_all add: dispatch_command_def is_reply_def reply_lists)
  with whois show ?thesis using assms unfolding reply_queue_def is_reply_def List.member_iff by (metis option.distinct(1) option.inject)
qed

lemma dispatch_end:
  assumes "end_queue msg = Some cmd"
  shows "dispatch_command env c msg st = handle_pending_end env (cmd \<noteq> ''WHO'') cmd msg st"
proof -
  have "Command msg = ''318'' \<and> cmd = ''WHOIS'' \<or> Command msg = ''323'' \<and> cmd = ''LIST'' \<or> Command msg = ''315'' \<and> cmd = ''WHO''"
    using assms by (simp add: end_queue_def is_reply_def split: if_splits)
  then show ?thesis by (elim disjE conjE) (simp_all add: dispatch_command_def is_reply_def reply_lists)
qed

lemma downstreamByID_none: "downstreamByID dcs d = None \<longleftrightarrow> \<not> list_ex (\<lambda>dc. dc_id dc = d) dcs"
  by (auto simp: downstreamByID_def find_None_iff list_ex_iff)

lemma downstreamByID_id: "downstreamByID dcs d = Some dc \<Longrightarrow> dc_id dc = d"
  by (auto simp: downstreamByID_def dest!: find_mem)

text \<open>What the client that asked gets.\<close>

definition to_asker :: "up_env \<Rightarrow> pending_upstream_command \<Rightarrow> irc_message \<Rightarrow> up_action list" where
  "to_asker env p msg = (if list_ex (\<lambda>dc. dc_id dc = pc_downstreamID p) (e_dcs env) then [ADown (pc_downstreamID p) msg] else [])"

lemma to_asker_found:
  "to_asker env p msg = (case downstreamByID (e_dcs env) (pc_downstreamID p) of None \<Rightarrow> [] | Some dc \<Rightarrow> [ADown (dc_id dc) msg])"
proof (cases "downstreamByID (e_dcs env) (pc_downstreamID p)")
  case None
  then have "\<not> list_ex (\<lambda>dc. dc_id dc = pc_downstreamID p) (e_dcs env)" unfolding downstreamByID_none .
  with None show ?thesis unfolding to_asker_def by simp
next
  case (Some dc)
  then have "list_ex (\<lambda>dc. dc_id dc = pc_downstreamID p) (e_dcs env)" using downstreamByID_none [of "e_dcs env" "pc_downstreamID p"] by simp
  with Some show ?thesis unfolding to_asker_def by (simp add: downstreamByID_id)
qed

lemma pending_reply_asker:
  "handle_pending_reply env cmd msg st =
     (case pending (us_uc st) cmd of [] \<Rightarrow> (Some (UpUnexpectedReply (Command msg)), [], st) | p # _ \<Rightarrow> (None, to_asker env p msg, st))"
  by (auto simp: handle_pending_reply_def current_pending_def currentPendingCommand_def to_asker_found
      split: list.split option.split)

lemma pending_end_asker:
  assumes "pending (us_uc st) cmd = p # q"
  shows "\<exists>out st'. handle_pending_end env strict cmd msg st = (None, map ASend out @ to_asker env p msg, st')
    \<and> length out = min 1 (length q) \<and> map pc_downstreamID (pending (us_uc st') cmd) = map pc_downstreamID q"
proof -
  obtain out uc where d: "dequeueCommand (e_now env) (e_dcs env) cmd (us_uc st) = ((downstreamByID (e_dcs env) (pc_downstreamID p), Some (pc_msg p)), out, uc)"
    "length out = min 1 (length q)" "map pc_downstreamID (pending uc cmd) = map pc_downstreamID q"
    using assms by (cases q) (auto simp: dequeueCommand_def currentPendingCommand_def sendNextPendingCommand_def go_copy_def Let_def pending_def
        set_pending_def SendMessageLabeled_def split: option.splits)
  show ?thesis
    using d
    by (auto simp: handle_pending_end_def dequeue_def to_asker_found split: option.split)
qed

text \<open>C12. A reply that carries no label goes to the client whose command is in flight and to no other: whatever reply to \<open>LIST\<close> or
  \<open>WHOIS\<close>, or end of \<open>LIST\<close>, \<open>WHOIS\<close> or \<open>WHO\<close>, arrives, the client at the head of the queue receives it, if it is still
  connected, and nobody else receives anything; the end of a command takes it off the queue and sends the next one.  Without a command in
  the queue nobody receives anything, and the reply is an error, except for the end of \<open>WHO\<close>.\<close>

theorem reply_goes_to_asker:
  assumes "unlabelled msg" and "reply_queue msg = Some cmd \<or> end_queue msg = Some cmd" and "up_handleMessage env msg st = (e, acts, st')"
  shows "case pending (us_uc st) cmd of
      [] \<Rightarrow> acts = [] \<and> (e = None \<longleftrightarrow> cmd = ''WHO'')
    | p # q \<Rightarrow> e = None \<and> (\<exists>out. acts = map ASend out
          @ (if list_ex (\<lambda>dc. dc_id dc = pc_downstreamID p) (e_dcs env) then [ADown (pc_downstreamID p) (complete_message env msg st)] else [])
        \<and> (if end_queue msg = None then out = [] \<and> st' = st
           else length out = min 1 (length q) \<and> map pc_downstreamID (pending (us_uc st') cmd) = map pc_downstreamID q))"
proof -
  let ?msg = "complete_message env msg st"
  have r: "reply_queue ?msg = reply_queue msg" "end_queue ?msg = end_queue msg" by (simp_all add: reply_queue_def end_queue_def is_reply_def)
  note h = assms(3) [unfolded unlabelled_message [OF assms(1)]]
  show ?thesis
  proof (cases "end_queue msg")
    case None
    then have reply: "reply_queue msg = Some cmd" using assms(2) by simp
    then have "cmd \<noteq> ''WHO''" by (auto simp: reply_queue_def split: if_splits)
    moreover have "handle_pending_reply env cmd ?msg st = (e, acts, st')" using h dispatch_reply [of ?msg cmd] reply r by simp
    ultimately show ?thesis using None unfolding pending_reply_asker by (auto simp: to_asker_def split: list.splits)
  next
    case (Some cmd')
    have "reply_queue msg = None" using Some by (auto simp: reply_queue_def end_queue_def is_reply_def reply_lists split: if_splits)
    then have cmd: "end_queue msg = Some cmd" using assms(2) by simp
    then have fin: "handle_pending_end env (cmd \<noteq> ''WHO'') cmd ?msg st = (e, acts, st')" using h dispatch_end [of ?msg cmd] r by simp
    show ?thesis
    proof (cases "pending (us_uc st) cmd")
      case Nil
      then show ?thesis
        using fin by (auto simp: handle_pending_end_def dequeue_def dequeueCommand_def currentPendingCommand_def sendNextPendingCommand_def Let_def
          split: if_splits)
    next
      case (Cons p q)
      obtain out where "e = None" "acts = map ASend out @ to_asker env p ?msg" "length out = min 1 (length q)"
        "map pc_downstreamID (pending (us_uc st') cmd) = map pc_downstreamID q"
        using pending_end_asker [OF Cons, of env "cmd \<noteq> ''WHO''" ?msg] fin by auto
      then show ?thesis using cmd Cons by (auto simp: to_asker_def)
    qed
  qed
qed

text \<open>A client that asked for the list of channels, and another one.\<close>

definition listing_state :: up_state where
  "listing_state = set_uc (set_pending ''LIST'' [\<lparr>pc_downstreamID = 2, pc_downstreamLabel = [], pc_msg = mk_msg ''LIST'' [], pc_sentAt = Some 0\<rparr>])
     (fresh_up_state ''a'' [])"

theorem reply_goes_to_asker_witness:
  "\<exists>e acts st'. up_handleMessage (example_env [example_dc 1 [], example_dc 2 []]) (from_nick ''irc.example.org'' ''322'' [''a'', ''#c'', ''5'', [] ]) listing_state = (e, acts, st')
    \<and> e = None \<and> acts = [ADown 2 (from_nick ''irc.example.org'' ''322'' [''a'', ''#c'', ''5'', [] ])]"
proof -
  let ?env = "example_env [example_dc 1 [], example_dc 2 []]" and ?msg = "from_nick ''irc.example.org'' ''322'' [''a'', ''#c'', ''5'', [] ]"
  obtain e acts st' where h: "up_handleMessage ?env ?msg listing_state = (e, acts, st')" by (metis prod_cases3)
  have "unlabelled ?msg" "reply_queue ?msg = Some ''LIST''" "end_queue ?msg = None"
    by (simp_all add: unlabelled_def from_nick_def mk_msg_def reply_queue_def end_queue_def is_reply_def whois_replies_def)
  moreover have "complete_message ?env ?msg listing_state = ?msg"
    by (rule complete_numeric) (simp_all add: from_nick_def mk_msg_def isNumeric_def is_digit_def)
  moreover have "pending (us_uc listing_state) ''LIST'' = [\<lparr>pc_downstreamID = 2, pc_downstreamLabel = [], pc_msg = mk_msg ''LIST'' [], pc_sentAt = Some 0\<rparr>]"
    by (simp add: listing_state_def set_uc_def pending_def set_pending_def)
  moreover have "list_ex (\<lambda>dc. dc_id dc = 2) (e_dcs ?env)" by (simp add: example_env_def example_dc_def)
  ultimately have "e = None \<and> acts = [ADown 2 ?msg]" using reply_goes_to_asker [OF _ _ h, of "''LIST''"] by simp
  with h show ?thesis by blast
qed

section \<open>The desired nick\<close>

lemma monitored_seen_nil:
  "e_dcs env = [] \<Longrightarrow> monitor_seen env st = []"
  by (simp add: monitor_seen_def monitor_targets_def net_dcs_def)

text \<open>Watching for the desired nick undoes itself: once the server has confirmed that the nick is
  monitored, the next update of the monitored targets removes it when no client monitors it, though
  the bouncer still waits for it.\<close>

theorem desired_nick_unmonitored:
  assumes "go_get (uc_isupport (us_uc st)) ''MONITOR'' \<noteq> None" and "e_dcs env = []"
    and "uc_monitored (us_uc st) = cmm_Set (NewCaseMappingMap (n_casemap (us_net st))) (wantNick env (us_net st)) online"
    and "\<not> uc_hasDesiredNick (us_uc st)"
  shows "\<not> cmm_Has (uc_monitored (us_uc (snd (updateMonitor env st)))) (wantNick env (us_net st))
    \<and> fst (updateMonitor env st) = [ASend (mk_msg ''MONITOR'' [''C''])]"
proof -
  let ?want = "wantNick env (us_net st)" and ?cm = "n_casemap (us_net st)"
  have each: "cmm_ForEach (uc_monitored (us_uc st)) = [(?want, online)]"
    unfolding assms(3) by (simp add: cmm_ForEach_def cmm_Set_def NewCaseMappingMap_def)
  have has: "cmm_Has (uc_monitored (us_uc st)) ?want" unfolding assms(3) by (simp add: cmm_Has_Get cmm_Get_Set)
  have add: "monitor_add env st = []"
    using has assms(2) by (simp add: monitor_add_def monitor_targets_def net_dcs_def Let_def)
  have rem: "monitor_remove env st = [?want]"
    by (simp add: monitor_remove_def each monitored_seen_nil [OF assms(2)])
  have "\<not> cmm_Has (uc_monitored (us_uc (monitor_forget ?want st))) ?want"
    unfolding monitor_forget_def forget_user_def by (simp add: assms(3) cmm_Has_Get cmm_Get_Del)
  then show ?thesis
    using assms(1) add rem each monitored_seen_nil [OF assms(2)] by (simp add: updateMonitor_def Let_def)
qed

theorem desired_nick_unmonitored_witness:
  "\<exists>st. \<not> cmm_Has (uc_monitored (us_uc (snd (updateMonitor (example_env []) st)))) ''alice''
    \<and> fst (updateMonitor (example_env []) st) = [ASend (mk_msg ''MONITOR'' [''C''])]"
proof -
  let ?st = "set_uc (\<lambda>uc. uc\<lparr>uc_isupport := [(''MONITOR'', None)], uc_hasDesiredNick := False,
    uc_monitored := cmm_Set (NewCaseMappingMap casemapRFC1459) ''alice'' True\<rparr>) (fresh_up_state ''alice_'' [])"
  have w: "wantNick (example_env []) (us_net ?st) = ''alice''"
    by (simp add: wantNick_def GetNick_def example_env_def set_uc_def fresh_up_state_def newNetwork_def NewNetwork_def NewUser_def)
  show ?thesis
    by (rule exI [of _ ?st], rule desired_nick_unmonitored [of ?st "example_env []" True, unfolded w])
      (simp_all add: set_uc_def example_env_def fresh_up_state_def newNetwork_def)
qed

end
