(* ===== verification/Go_Url.thy ===== *)
theory Go_Url
  imports Go_Unicode
begin

text \<open>
  The functions \<open>url.Parse\<close> and \<open>net.SplitHostPort\<close> of Go's standard library, which the program uses on
  the addresses of networks and listeners.  Of the user information of a URL only its presence is
  kept.
\<close>

section \<open>URLs\<close>

record go_url =
  url_Scheme :: string
  url_Opaque :: string
  url_User :: bool
  url_Host :: string
  url_Path :: string
  url_RawQuery :: string
  url_Fragment :: string

definition no_url :: go_url where
  "no_url = \<lparr>url_Scheme = [], url_Opaque = [], url_User = False, url_Host = [], url_Path = [], url_RawQuery = [], url_Fragment = []\<rparr>"

definition is_letter :: "char \<Rightarrow> bool" where
  "is_letter c \<longleftrightarrow> (let n = (of_char c :: nat) in (97 \<le> n \<and> n \<le> 122) \<or> (65 \<le> n \<and> n \<le> 90))"

text \<open>\<open>getScheme\<close>: the scheme and the rest, \<open>None\<close> when the scheme is missing.\<close>

fun scheme_loop :: "string \<Rightarrow> string \<Rightarrow> (string \<times> string) option" where
  "scheme_loop seen [] = Some ([], rev seen)"
| "scheme_loop seen (c # s) =
     (if is_letter c then scheme_loop (c # seen) s
      else if is_digit c \<or> List.member ''+-.'' c then
        (if seen = [] then Some ([], c # s) else scheme_loop (c # seen) s)
      else if c = CHR '':'' then (if seen = [] then None else Some (rev seen, s))
      else Some ([], rev seen @ c # s))"

definition getScheme :: "string \<Rightarrow> (string \<times> string) option" where
  "getScheme s = scheme_loop [] s"

definition is_hex :: "char \<Rightarrow> bool" where
  "is_hex c \<longleftrightarrow> is_digit c \<or> List.member ''abcdefABCDEF'' c"

definition hex_val :: "char \<Rightarrow> nat" where
  "hex_val c = (let n = (of_char c :: nat) in if n \<le> 57 then n - 48 else if n \<le> 70 then n - 55 else n - 87)"

datatype url_encoding = encodePath | encodeHost | encodeZone | encodeUserPassword | encodeFragment

definition host_ok :: "char \<Rightarrow> bool" where
  "host_ok c \<longleftrightarrow> is_letter c \<or> is_digit c \<or> List.member ''!$&()*+,;=:[]<>'' c \<or> List.member ''-_.~'' c
     \<or> c = CHR 0x27 \<or> c = CHR 0x22"

fun unescape :: "url_encoding \<Rightarrow> string \<Rightarrow> string option" where
  "unescape mode [] = Some []"
| "unescape mode (c # s) =
     (if c = CHR ''%'' then
        (case s of
           a # b # r \<Rightarrow>
             if is_hex a \<and> is_hex b
               \<and> \<not> (mode = encodeHost \<and> hex_val a < 8 \<and> \<not> (a = CHR ''2'' \<and> b = CHR ''5''))
               \<and> \<not> (mode = encodeZone \<and> \<not> (a = CHR ''2'' \<and> b = CHR ''5'') \<and> hex_val a * 16 + hex_val b \<noteq> 32
                    \<and> \<not> host_ok (char_of (hex_val a * 16 + hex_val b)))
             then map_option ((#) (char_of (hex_val a * 16 + hex_val b))) (unescape mode r)
             else None
         | _ \<Rightarrow> None)
      else if (mode = encodeHost \<or> mode = encodeZone) \<and> (of_char c :: nat) < 128 \<and> \<not> host_ok c then None
      else map_option ((#) c) (unescape mode s))"

definition last_index :: "string \<Rightarrow> char \<Rightarrow> nat option" where
  "last_index s c = map_option (\<lambda>i. length s - 1 - i) (IndexByte (rev s) c)"

definition validOptionalPort :: "string \<Rightarrow> bool" where
  "validOptionalPort port \<longleftrightarrow> port = [] \<or> (port ! 0 = CHR '':'' \<and> list_all is_digit (tl port))"

definition parseHost :: "string \<Rightarrow> string option" where
  "parseHost host =
     (if HasPrefix host ''['' then
        (case last_index host CHR '']'' of
           None \<Rightarrow> None
         | Some i \<Rightarrow>
             if \<not> validOptionalPort (drop (Suc i) host) then None
             else (case Index (take i host) ''%25'' of
                 Some zone \<Rightarrow>
                   (case (unescape encodeHost (take zone host), unescape encodeZone (take (i - zone) (drop zone host)),
                          unescape encodeHost (drop i host)) of
                      (Some a, Some b, Some c) \<Rightarrow> Some (a @ b @ c)
                    | _ \<Rightarrow> None)
               | None \<Rightarrow> unescape encodeHost host))
      else (case last_index host CHR '':'' of
          Some i \<Rightarrow> if validOptionalPort (drop i host) then unescape encodeHost host else None
        | None \<Rightarrow> unescape encodeHost host))"

definition validUserinfo :: "string \<Rightarrow> bool" where
  "validUserinfo s \<longleftrightarrow> list_all (\<lambda>c. is_letter c \<or> is_digit c \<or> List.member ''-._:~!$&()*+,;=%@'' c \<or> c = CHR 0x27) s"

definition parseAuthority :: "string \<Rightarrow> (bool \<times> string) option" where
  "parseAuthority authority =
     (case last_index authority CHR ''@'' of
        None \<Rightarrow> map_option (Pair False) (parseHost authority)
      | Some i \<Rightarrow>
          (case parseHost (drop (Suc i) authority) of
             None \<Rightarrow> None
           | Some host \<Rightarrow>
               let userinfo = take i authority in
               if \<not> validUserinfo userinfo then None
               else (case Cut userinfo CHR '':'' of
                   None \<Rightarrow> (case unescape encodeUserPassword userinfo of None \<Rightarrow> None | Some _ \<Rightarrow> Some (True, host))
                 | Some (a, b) \<Rightarrow>
                     (case (unescape encodeUserPassword a, unescape encodeUserPassword b) of
                        (Some _, Some _) \<Rightarrow> Some (True, host) | _ \<Rightarrow> None))))"

definition cut_or_all :: "string \<Rightarrow> char \<Rightarrow> string \<times> string" where
  "cut_or_all s c = (case Cut s c of None \<Rightarrow> (s, []) | Some p \<Rightarrow> p)"

definition url_parse :: "unicode_tables \<Rightarrow> string \<Rightarrow> go_url option" where
  "url_parse U s =
     (if list_ex (\<lambda>c. (of_char c :: nat) < 32 \<or> (of_char c :: nat) = 127) s then None
      else if s = ''*'' then Some (no_url\<lparr>url_Path := ''*''\<rparr>)
      else (case getScheme s of
          None \<Rightarrow> None
        | Some (scheme, rest) \<Rightarrow>
            let scheme = ToLower U scheme;
                (rest, query) = (if last_index rest CHR ''?'' = Some (length rest - 1) \<and> Suc 0 = length (filter (\<lambda>c. c = CHR ''?'') rest)
                                 then (butlast rest, []) else cut_or_all rest CHR ''?'')
            in if \<not> HasPrefix rest ''/'' \<and> scheme \<noteq> [] then
                 Some (no_url\<lparr>url_Scheme := scheme, url_Opaque := rest, url_RawQuery := query\<rparr>)
               else if \<not> HasPrefix rest ''/'' \<and> List.member (fst (cut_or_all rest CHR ''/'')) CHR '':'' then None
               else if (scheme \<noteq> [] \<or> \<not> HasPrefix rest ''///'') \<and> HasPrefix rest ''//'' then
                 (let auth = takeWhile (\<lambda>c. c \<noteq> CHR ''/'') (drop 2 rest);
                      path = dropWhile (\<lambda>c. c \<noteq> CHR ''/'') (drop 2 rest)
                  in case (parseAuthority auth, unescape encodePath path) of
                       (Some (user, host), Some p) \<Rightarrow>
                         Some (no_url\<lparr>url_Scheme := scheme, url_User := user, url_Host := host, url_Path := p, url_RawQuery := query\<rparr>)
                     | _ \<Rightarrow> None)
               else map_option (\<lambda>p. no_url\<lparr>url_Scheme := scheme, url_Path := p, url_RawQuery := query\<rparr>) (unescape encodePath rest)))"

definition url_Parse :: "unicode_tables \<Rightarrow> string \<Rightarrow> go_url option" where
  "url_Parse U rawURL =
     (let (s, frag) = cut_or_all rawURL CHR ''#'' in
      case url_parse U s of
        None \<Rightarrow> None
      | Some u \<Rightarrow>
          if frag = [] then Some u
          else map_option (\<lambda>f. u\<lparr>url_Fragment := f\<rparr>) (unescape encodeFragment frag))"

section \<open>Hosts with ports\<close>

definition SplitHostPort :: "string \<Rightarrow> (string \<times> string) option" where
  "SplitHostPort hp =
     (case last_index hp CHR '':'' of
        None \<Rightarrow> None
      | Some i \<Rightarrow>
          (case (if hp ! 0 = CHR ''['' then
               (case IndexByte hp CHR '']'' of
                  None \<Rightarrow> None
                | Some e \<Rightarrow> if Suc e = i then Some (take (e - 1) (tl hp), 1, Suc e) else None)
             else if List.member (take i hp) CHR '':'' then None
             else Some (take i hp, 0, 0)) of
             None \<Rightarrow> None
           | Some (host, j, k) \<Rightarrow>
               if List.member (drop j hp) CHR ''['' \<or> List.member (drop k hp) CHR '']'' then None
               else Some (host, drop (Suc i) hp)))"

section \<open>Lemmas\<close>

text \<open>A plain host name, such as a domain name or an IPv4 address.\<close>

definition plain_host :: "string \<Rightarrow> bool" where
  "plain_host h \<longleftrightarrow> list_all (\<lambda>c. is_letter c \<or> is_digit c \<or> List.member ''-_.~'' c) h"

lemma unescape_plain: "plain_host h \<Longrightarrow> unescape encodeHost (h @ s) = map_option ((@) h) (unescape encodeHost s)"
proof (induction h)
  case (Cons c h)
  then have "c \<noteq> CHR ''%''" "host_ok c"
    by (auto simp: plain_host_def host_ok_def is_letter_def is_digit_def Let_def)
  with Cons show ?case by (simp add: plain_host_def option.map_comp comp_def)
next
  case Nil
  show ?case by (cases "unescape encodeHost s") simp_all
qed

lemma plain_host_no: "plain_host h \<Longrightarrow> \<not> (is_letter c \<or> is_digit c \<or> List.member ''-_.~'' c) \<Longrightarrow> c \<notin> set h"
  by (auto simp: plain_host_def list_all_iff)

lemma plain_host_chars:
  assumes "plain_host h"
  shows "CHR '':'' \<notin> set h" "CHR ''['' \<notin> set h" "CHR '']'' \<notin> set h" "CHR ''@'' \<notin> set h" "CHR ''/'' \<notin> set h"
    "CHR ''?'' \<notin> set h" "CHR ''#'' \<notin> set h" "CHR ''%'' \<notin> set h"
  by (rule plain_host_no [OF assms]; simp add: is_letter_def is_digit_def Let_def)+

lemma plain_digits: "list_all is_digit s \<Longrightarrow> plain_host s"
  by (simp add: plain_host_def list_all_iff)

lemma last_index_None: "c \<notin> set s \<Longrightarrow> last_index s c = None"
  by (simp add: last_index_def IndexByte_None)

lemma last_index_append: "c \<notin> set b \<Longrightarrow> last_index (a @ c # b) c = Some (length a)"
  using IndexByte_append [of c "rev b" "rev a"] by (simp add: last_index_def)

lemma SplitHostPort_plain:
  assumes "plain_host h" and "list_all is_digit p"
  shows "SplitHostPort (h @ '':'' @ p) = Some (h, p)" and "SplitHostPort h = None"
proof -
  have "(h @ '':'' @ p) ! 0 \<noteq> CHR ''[''"
    using plain_host_chars(2) [OF assms(1)] by (cases h) auto
  moreover have "last_index (h @ '':'' @ p) CHR '':'' = Some (length h)"
    using plain_host_chars(1) [OF plain_digits [OF assms(2)]] last_index_append by simp
  ultimately show "SplitHostPort (h @ '':'' @ p) = Some (h, p)"
    using plain_host_chars(1-3) [OF assms(1)] plain_host_chars(2,3) [OF plain_digits [OF assms(2)]]
    by (simp add: SplitHostPort_def)
  show "SplitHostPort h = None"
    using plain_host_chars(1) [OF assms(1)] by (simp add: SplitHostPort_def last_index_None)
qed

text \<open>The authority part of an address: a plain host, with a port after a colon if there is one.\<close>

definition authority :: "string \<Rightarrow> string \<Rightarrow> string" where
  "authority h p = h @ (if p = [] then [] else '':'' @ p)"

lemma authority_chars:
  assumes "plain_host h" and "list_all is_digit p"
  shows "CHR ''/'' \<notin> set (authority h p)" "CHR ''@'' \<notin> set (authority h p)" "CHR ''?'' \<notin> set (authority h p)"
    "CHR ''#'' \<notin> set (authority h p)" "list_all (\<lambda>c. 32 \<le> (of_char c :: nat) \<and> (of_char c :: nat) \<noteq> 127) (authority h p)"
proof -
  note c = plain_host_chars [OF assms(1)] plain_host_chars [OF plain_digits [OF assms(2)]]
  show "CHR ''/'' \<notin> set (authority h p)" "CHR ''@'' \<notin> set (authority h p)" "CHR ''?'' \<notin> set (authority h p)"
    "CHR ''#'' \<notin> set (authority h p)" using c by (auto simp: authority_def)
  have "32 \<le> (of_char c :: nat) \<and> (of_char c :: nat) \<noteq> 127" if "is_letter c \<or> is_digit c \<or> List.member ''-_.~'' c" for c
    using that by (auto simp: is_letter_def is_digit_def Let_def)
  then show "list_all (\<lambda>c. 32 \<le> (of_char c :: nat) \<and> (of_char c :: nat) \<noteq> 127) (authority h p)"
    using assms(1) plain_digits [OF assms(2)] unfolding authority_def plain_host_def by (auto simp: list_all_iff)
qed

lemma parseAuthority_plain:
  assumes "plain_host h" and "list_all is_digit p"
  shows "parseAuthority (authority h p) = Some (False, authority h p)"
proof -
  have ph: "plain_host p" by (rule plain_digits [OF assms(2)])
  have nb: "\<not> HasPrefix (authority h p) ''[''"
    using plain_host_chars(2) [OF assms(1)] by (cases h) (auto simp: authority_def HasPrefix_single)
  have u: "unescape encodeHost (authority h p) = Some (authority h p)"
    using unescape_plain [OF assms(1), of "'':'' @ p"] unescape_plain [OF assms(1), of "[]"] unescape_plain [OF ph, of "[]"]
    by (simp add: authority_def host_ok_def)
  have "parseHost (authority h p) = Some (authority h p)"
  proof (cases "p = []")
    case True
    then show ?thesis
      using nb u plain_host_chars(1) [OF assms(1)] by (simp add: parseHost_def authority_def last_index_None)
  next
    case False
    then have l: "last_index (authority h p) CHR '':'' = Some (length h)"
      using plain_host_chars(1) [OF ph] last_index_append [of "CHR '':''" p h] by (simp add: authority_def)
    have "validOptionalPort (drop (length h) (authority h p))"
      using False assms(2) by (simp add: authority_def validOptionalPort_def)
    with nb u l show ?thesis by (simp add: parseHost_def)
  qed
  then show ?thesis using authority_chars(2) [OF assms] by (simp add: parseAuthority_def last_index_None)
qed

lemma url_Parse_plain:
  assumes "plain_host h" and "list_all is_digit p" and "getScheme (sch @ ''://'' @ authority h p) = Some (sch, ''//'' @ authority h p)"
    and "ToLower U sch = sch" and "sch \<noteq> []" and "CHR ''#'' \<notin> set sch"
    and "list_all (\<lambda>c. 32 \<le> (of_char c :: nat) \<and> (of_char c :: nat) \<noteq> 127) sch"
  shows "url_Parse U (sch @ ''://'' @ authority h p) = Some (no_url\<lparr>url_Scheme := sch, url_Host := authority h p\<rparr>)"
proof -
  note c = authority_chars [OF assms(1,2)]
  have slash: "takeWhile (\<lambda>c. c \<noteq> CHR ''/'') (authority h p) = authority h p" "dropWhile (\<lambda>c. c \<noteq> CHR ''/'') (authority h p) = []"
    using c(1) by (auto simp: takeWhile_eq_all_conv dropWhile_eq_Nil_conv)
  have ctl: "\<not> list_ex (\<lambda>c. (of_char c :: nat) < 32 \<or> (of_char c :: nat) = 127) (sch @ ''://'' @ authority h p)"
    using c(5) assms(7) by (auto simp: list_ex_iff list_all_iff)
  have q: "last_index (''//'' @ authority h p) CHR ''?'' = None" "Cut (''//'' @ authority h p) CHR ''?'' = None"
    using c(3) by (auto intro!: last_index_None simp: Cut_None [THEN iffD2])
  have "url_parse U (sch @ ''://'' @ authority h p) = Some (no_url\<lparr>url_Scheme := sch, url_Host := authority h p\<rparr>)"
    using ctl q assms(3-5) parseAuthority_plain [OF assms(1,2)]
    by (simp add: url_parse_def cut_or_all_def HasPrefix_def Let_def no_url_def slash)
  moreover have "Cut (sch @ ''://'' @ authority h p) CHR ''#'' = None"
    using c(4) assms(6) by (auto simp: Cut_None [THEN iffD2])
  ultimately show ?thesis by (simp add: url_Parse_def cut_or_all_def)
qed

lemma url_Parse_irc:
  assumes "plain_host h" and "list_all is_digit p"
  shows "url_Parse U (''ircs://'' @ authority h p) = Some (no_url\<lparr>url_Scheme := ''ircs'', url_Host := authority h p\<rparr>)"
    and "url_Parse U (''irc+insecure://'' @ authority h p) = Some (no_url\<lparr>url_Scheme := ''irc+insecure'', url_Host := authority h p\<rparr>)"
proof -
  have l: "ToLower U ''ircs'' = ''ircs''" "ToLower U ''irc+insecure'' = ''irc+insecure''"
    by (simp_all add: ToLower_def str_map_ascii_Cons rune_lower_def, code_simp+)
  show "url_Parse U (''ircs://'' @ authority h p) = Some (no_url\<lparr>url_Scheme := ''ircs'', url_Host := authority h p\<rparr>)"
    using url_Parse_plain [OF assms, of "''ircs''" U] l
    by (simp add: getScheme_def is_letter_def is_digit_def Let_def)
  show "url_Parse U (''irc+insecure://'' @ authority h p) = Some (no_url\<lparr>url_Scheme := ''irc+insecure'', url_Host := authority h p\<rparr>)"
    using url_Parse_plain [OF assms, of "''irc+insecure''" U] l
    by (simp add: getScheme_def is_letter_def is_digit_def Let_def)
qed

end
