(* ===== verification/Networks.thy ===== *)
theory Networks
  imports Upstream_Invariant Go_Url
begin

text \<open>
  The networks of a user, \<^verbatim>\<open>src/user.go\<close>: lookups, the checks on a network's record, creating,
  updating and deleting networks, changes of the user's record, and the notifications of clients;
  with \<open>Network.URL\<close> of \<^verbatim>\<open>src/database/database.go\<close> and the attributes of a network in
  \<^verbatim>\<open>src/downstream.go\<close>.

  A network object is named by its reference \<open>n_ref\<close>; \<open>updateNetwork\<close> puts a new object in the place of
  the old one.  What the steps ask of other parts is a list of actions in the order of the calls.
\<close>

section \<open>Addresses\<close>

definition network_URL :: "unicode_tables \<Rightarrow> db_network \<Rightarrow> go_url option" where
  "network_URL U net =
     (let s = net_Addr net;
          s = (if Index s ''://'' = None then ''ircs://'' @ s else s)
      in map_option (\<lambda>u. if url_Scheme u = ''irc+unix'' \<or> url_Scheme u = ''unix''
                         then u\<lparr>url_Path := url_Host u @ url_Path u, url_Host := []\<rparr> else u) (url_Parse U s))"

definition fillNetworkAddrAttrs :: "unicode_tables \<Rightarrow> db_network \<Rightarrow> irc_tags \<Rightarrow> irc_tags" where
  "fillNetworkAddrAttrs U net attrs =
     (case network_URL U net of
        None \<Rightarrow> attrs
      | Some u \<Rightarrow>
          let hasHostPort = (url_Scheme u = ''ircs'' \<or> url_Scheme u = ''irc+insecure'');
              attrs = (if url_Scheme u = ''ircs'' then go_put ''tls'' ''1'' attrs
                       else if url_Scheme u = ''irc+insecure'' then go_put ''tls'' ''0'' attrs else attrs)
          in (case SplitHostPort (url_Host u) of
                Some (host, port) \<Rightarrow> if hasHostPort then go_put ''port'' port (go_put ''host'' host attrs) else attrs
              | None \<Rightarrow> if hasHostPort then go_put ''host'' (url_Host u) attrs else attrs))"

definition tag_or_empty :: "irc_tags \<Rightarrow> string \<Rightarrow> string" where
  "tag_or_empty attrs k = (case go_get attrs k of None \<Rightarrow> [] | Some v \<Rightarrow> v)"

definition networkAddrFromAttrs :: "irc_tags \<Rightarrow> string" where
  "networkAddrFromAttrs attrs =
     (let host = tag_or_empty attrs ''host'' in
      if host = [] then []
      else
        let addr = (if tag_or_empty attrs ''port'' \<noteq> [] then host @ '':'' @ tag_or_empty attrs ''port'' else host)
        in if tag_or_empty attrs ''tls'' = ''0'' then ''irc+insecure://'' @ addr else addr)"

datatype attrs_error = UnknownAttribute string | MissingHost

fun attrs_loop :: "irc_tags \<Rightarrow> db_network \<Rightarrow> irc_tags \<Rightarrow> bool \<Rightarrow> attrs_error + (db_network \<times> irc_tags \<times> bool)" where
  "attrs_loop [] r addrAttrs upd = Inr (r, addrAttrs, upd)"
| "attrs_loop ((k, s) # attrs) r addrAttrs upd =
     (if k = ''host'' \<or> k = ''port'' \<or> k = ''tls'' then attrs_loop attrs r (go_put k s addrAttrs) True
      else if k = ''name'' then attrs_loop attrs (r\<lparr>net_Name := s\<rparr>) addrAttrs upd
      else if k = ''nickname'' then attrs_loop attrs (r\<lparr>net_Nick := s\<rparr>) addrAttrs upd
      else if k = ''username'' then attrs_loop attrs (r\<lparr>net_Username := s\<rparr>) addrAttrs upd
      else if k = ''realname'' then attrs_loop attrs (r\<lparr>net_Realname := s\<rparr>) addrAttrs upd
      else if k = ''pass'' then attrs_loop attrs (r\<lparr>net_Pass := s\<rparr>) addrAttrs upd
      else Inl (UnknownAttribute k))"

definition updateNetworkAttrs :: "unicode_tables \<Rightarrow> db_network \<Rightarrow> irc_tags \<Rightarrow> attrs_error + db_network" where
  "updateNetworkAttrs U r attrs =
     (case attrs_loop attrs r (fillNetworkAddrAttrs U r []) False of
        Inl e \<Rightarrow> Inl e
      | Inr (r', addrAttrs, upd) \<Rightarrow>
          if upd then
            (let addr = networkAddrFromAttrs addrAttrs
             in if addr = [] then Inl MissingHost else Inr (r'\<lparr>net_Addr := addr\<rparr>))
          else Inr r')"

section \<open>The environment of a user\<close>

text \<open>What the database answers, \<open>None\<close> and \<open>False\<close> for an error; \<open>ue_storeNetwork\<close> gives, for the identifiers in use, that of
  the stored record.  \<open>ue_formatTags\<close> is the tag printer of the IRC library.\<close>

record user_env =
  ue_up :: up_env
  ue_storeNetwork :: "int list \<Rightarrow> db_network \<Rightarrow> int option"
  ue_deleteNetwork :: "int \<Rightarrow> bool"
  ue_storeUser :: "db_user \<Rightarrow> bool"
  ue_deleteChannel :: "int \<Rightarrow> bool"
  ue_maxUserNetworks :: int
  ue_formatTags :: "irc_tags \<Rightarrow> string"

datatype user_action =
    UEffect effect
  | UUp nat up_action
  | UUpdateCaps "64 word"
  | UUpdateCasemapping "64 word"
  | URenameStore db_network db_network
  | UUserUpdated

definition up_env_of :: "user_env \<Rightarrow> user_state \<Rightarrow> up_env" where
  "up_env_of env u = (ue_up env)\<lparr>e_user := u_record u, e_dcs := u_downstreamConns u, e_msgStore := u_msgStore u\<rparr>"

abbreviation ue_unicode :: "user_env \<Rightarrow> unicode_tables" where
  "ue_unicode env \<equiv> e_unicode (ue_up env)"

section \<open>Lookups\<close>

abbreviation nid :: "network \<Rightarrow> int" where
  "nid n \<equiv> net_ID (n_record n)"

definition network_ids :: "user_state \<Rightarrow> int list" where
  "network_ids u = map nid (u_networks u)"

definition getNetwork :: "user_state \<Rightarrow> string \<Rightarrow> network option" where
  "getNetwork u name = find (\<lambda>n. net_Addr (n_record n) = name \<or> (net_Name (n_record n) \<noteq> [] \<and> net_Name (n_record n) = name)) (u_networks u)"

definition getNetworkByID :: "user_state \<Rightarrow> int \<Rightarrow> network option" where
  "getNetworkByID u i = find (\<lambda>n. net_ID (n_record n) = i) (u_networks u)"

definition network_by_ref :: "user_state \<Rightarrow> nat \<Rightarrow> network option" where
  "network_by_ref u ref = find (\<lambda>n. n_ref n = ref) (u_networks u)"

definition net_name :: "network \<Rightarrow> string" where
  "net_name n = GetName (n_record n)"

definition map_network :: "nat \<Rightarrow> (network \<Rightarrow> network) \<Rightarrow> user_state \<Rightarrow> user_state" where
  "map_network ref f u = u\<lparr>u_networks := map (\<lambda>n. if n_ref n = ref then f n else n) (u_networks u)\<rparr>"

section \<open>Notifications\<close>

definition servicePrefix :: irc_prefix where
  "servicePrefix = \<lparr>Name = ''BouncerServ'', User = ''BouncerServ'', Host = ''BouncerServ''\<rparr>"

definition sendServiceNOTICE :: "downstream_conn \<Rightarrow> string \<Rightarrow> user_action" where
  "sendServiceNOTICE dc s = UEffect (DownSend (dc_id dc) ((mk_msg ''NOTICE'' [dc_nick dc, s])\<lparr>Prefix := Some servicePrefix\<rparr>))"

definition notify_clients :: "user_state \<Rightarrow> int \<Rightarrow> string \<Rightarrow> user_action list" where
  "notify_clients u netID attrs =
     map (\<lambda>dc. UEffect (DownSend (dc_id dc) (mk_msg ''BOUNCER'' [''NETWORK'', show_int netID, attrs])))
       (filter (\<lambda>dc. caps_IsEnabled (dc_caps dc) ''soju.im/bouncer-networks-notify'') (u_downstreamConns u))"

definition notifyBouncerNetworkState :: "user_env \<Rightarrow> int \<Rightarrow> irc_tags \<Rightarrow> user_state \<Rightarrow> user_action list" where
  "notifyBouncerNetworkState env netID attrs u =
     (if getNetworkByID u netID = None then [] else notify_clients u netID (ue_formatTags env attrs))"

definition getNetworkAttrs :: "user_env \<Rightarrow> db_user \<Rightarrow> network \<Rightarrow> irc_tags" where
  "getNetworkAttrs env usr n =
     (let r = n_record n;
          attrs = [(''name'', GetName r), (''state'', if n_conn n = None then ''disconnected'' else ''connected''),
                   (''nickname'', GetNick usr (Some r))];
          attrs = (if net_Username r \<noteq> [] then go_put ''username'' (net_Username r) attrs else attrs);
          attrs = (if GetRealname usr (Some r) \<noteq> [] then go_put ''realname'' (GetRealname usr (Some r)) attrs else attrs);
          attrs = (case n_lastError n of None \<Rightarrow> attrs | Some e \<Rightarrow> go_put ''error'' e attrs)
      in fillNetworkAddrAttrs (ue_unicode env) r attrs)"

section \<open>The list of networks\<close>

definition addNetwork :: "network \<Rightarrow> user_state \<Rightarrow> user_action list \<times> user_state" where
  "addNetwork n u = ([UEffect (NetStart (n_ref n))], u\<lparr>u_networks := sort_key (\<lambda>n. net_ID (n_record n)) (u_networks u @ [n])\<rparr>)"

definition stop_network :: "network \<Rightarrow> user_action list" where
  "stop_network n = (if n_stopped n then [] else [UEffect (NetStop (n_ref n))])"

text \<open>\<open>None\<close> is the panic on a network that is not in the list.\<close>

definition removeNetwork :: "network \<Rightarrow> user_state \<Rightarrow> (user_action list \<times> user_state) option" where
  "removeNetwork n u =
     (if network_by_ref u (n_ref n) = None then None
      else Some (stop_network n @ map (\<lambda>dc. UEffect (DownClose (dc_id dc))) (forEachDownstream u (n_ref n)),
                 u\<lparr>u_networks := filter (\<lambda>m. n_ref m \<noteq> n_ref n) (u_networks u)\<rparr>))"

datatype net_error =
    NetLimit | NetUrl | NetHasUser | NetHasQuery | NetHasFragment | NetNoHost | NetHasPath | NetNotAdmin
  | NetHasHost | NetNoPath | NetUnknownScheme string | NetNoName | NetDash | NetDuplicate string | NetDb
  | NetUserUpdate | NetUnknownChannel string | NetPanic

definition max_networks :: "user_env \<Rightarrow> user_state \<Rightarrow> int" where
  "max_networks env u = (if user_MaxNetworks (u_record u) < 0 then ue_maxUserNetworks env else user_MaxNetworks (u_record u))"

definition enabled_networks :: "user_state \<Rightarrow> nat" where
  "enabled_networks u = length (filter (\<lambda>n. net_Enabled (n_record n)) (u_networks u))"

definition canEnableNewNetwork :: "user_env \<Rightarrow> user_state \<Rightarrow> bool" where
  "canEnableNewNetwork env u \<longleftrightarrow> max_networks env u < 0 \<or> int (enabled_networks u) < max_networks env u"

definition check_url :: "user_state \<Rightarrow> go_url \<Rightarrow> net_error option" where
  "check_url u url =
     (if url_User url then Some NetHasUser
      else if url_RawQuery url \<noteq> [] then Some NetHasQuery
      else if url_Fragment url \<noteq> [] then Some NetHasFragment
      else if url_Scheme url = ''ircs'' \<or> url_Scheme url = ''irc+insecure'' then
        (if url_Host url = [] then Some NetNoHost else if url_Path url \<noteq> [] then Some NetHasPath else None)
      else if url_Scheme url = ''irc+unix'' \<or> url_Scheme url = ''unix'' then
        (if \<not> user_Admin (u_record u) then Some NetNotAdmin
         else if url_Host url \<noteq> [] then Some NetHasHost
         else if url_Path url = [] then Some NetNoPath else None)
      else Some (NetUnknownScheme (url_Scheme url)))"

definition checkNetwork :: "user_env \<Rightarrow> db_network \<Rightarrow> user_state \<Rightarrow> net_error option" where
  "checkNetwork env r u =
     (case network_URL (ue_unicode env) r of
        None \<Rightarrow> Some NetUrl
      | Some url \<Rightarrow>
          (case check_url u url of
             Some e \<Rightarrow> Some e
           | None \<Rightarrow>
               if GetName r = [] then Some NetNoName
               else if HasPrefix (GetName r) ''-'' then Some NetDash
               else if list_ex (\<lambda>n. net_name n = GetName r \<and> net_ID (n_record n) \<noteq> net_ID r) (u_networks u)
               then Some (NetDuplicate (GetName r)) else None))"

type_synonym 'a net_result = "(net_error + 'a) \<times> user_action list \<times> user_state"

definition createNetwork :: "user_env \<Rightarrow> db_network \<Rightarrow> bool \<Rightarrow> user_state \<Rightarrow> nat net_result" where
  "createNetwork env r enforceLimit u =
     (if net_ID r \<noteq> 0 then (Inl NetPanic, [], u)
      else if enforceLimit \<and> net_Enabled r \<and> \<not> canEnableNewNetwork env u then (Inl NetLimit, [], u)
      else (case checkNetwork env r u of
          Some e \<Rightarrow> (Inl e, [], u)
        | None \<Rightarrow>
            (case ue_storeNetwork env (network_ids u) r of
               None \<Rightarrow> (Inl NetDb, [], u)
             | Some i \<Rightarrow>
                 let n = newNetwork (u_nextRef u) (r\<lparr>net_ID := i\<rparr>) [];
                     (acts, u) = addNetwork n (u\<lparr>u_nextRef := Suc (u_nextRef u)\<rparr>)
                 in (Inr (n_ref n), UEffect (DbStoreNetwork (n_record n)) # acts
                       @ notifyBouncerNetworkState env i (getNetworkAttrs env (u_record u) n) u, u))))"

text \<open>The bookkeeping when a connection of the network \<open>ref\<close> is lost; \<open>None\<close> is a panic.\<close>

definition handleUpstreamDisconnected ::
    "user_env \<Rightarrow> nat \<Rightarrow> upstream_conn \<Rightarrow> user_state \<Rightarrow> (user_action list \<times> user_state) option" where
  "handleUpstreamDisconnected env ref uc u =
     (let u = map_network ref (\<lambda>n. n\<lparr>n_conn := None\<rparr>) u in
      case abortPendingCommands (u_downstreamConns u) (stopRegainNickTimer uc) of
        None \<Rightarrow> None
      | Some (es, _) \<Rightarrow>
          let acts = map UEffect es @ map (\<lambda>dc. UUpdateCaps (dc_id dc)) (forEachDownstream u ref)
          in (case network_by_ref u ref of
                None \<Rightarrow> Some (acts, u)
              | Some n \<Rightarrow>
                  Some (acts @ notifyBouncerNetworkState env (net_ID (n_record n)) [(''state'', ''disconnected'')] u
                    @ (if n_lastError n = None then
                         map (\<lambda>dc. sendServiceNOTICE dc (''disconnected from '' @ net_name n))
                           (filter (\<lambda>dc. \<not> caps_IsEnabled (dc_caps dc) ''soju.im/bouncer-networks'') (forEachDownstream u ref))
                       else []), u)))"

text \<open>The record with the settings wiped that equal the user's.\<close>

definition wipe_defaults :: "db_user \<Rightarrow> db_network \<Rightarrow> db_network" where
  "wipe_defaults usr r =
     (let r = (if net_Nick r = user_Nick usr then r\<lparr>net_Nick := []\<rparr> else r)
      in if net_Realname r = user_Realname usr then r\<lparr>net_Realname := []\<rparr> else r)"

text \<open>The new object takes over what is not in the record, under the old case mapping.\<close>

definition transfer_network :: "network \<Rightarrow> network \<Rightarrow> network" where
  "transfer_network old new =
     (let cm = n_casemap old in
      new\<lparr>n_delivered := cmm_SetCaseMapping (n_delivered old) cm,
          n_pushTargets := cmm_SetCaseMapping (n_pushTargets old) cm,
          n_lastError := (if net_Enabled (n_record new) then n_lastError old else n_lastError new),
          n_casemap := cm,
          n_channels := cmm_SetCaseMapping (n_channels new) cm\<rparr>)"

definition patch_clients :: "nat \<Rightarrow> nat \<Rightarrow> user_state \<Rightarrow> user_state" where
  "patch_clients old new u = u\<lparr>u_downstreamConns :=
     map (\<lambda>dc. if dc_network dc = Some old then dc\<lparr>dc_network := Some new\<rparr> else dc) (u_downstreamConns u)\<rparr>"

text \<open>Replacing the object \<open>n\<close>: first the old connection is shut down, then the clients are moved to the
  new object before the old one is removed.\<close>

definition shutdown_network :: "user_env \<Rightarrow> network \<Rightarrow> user_state \<Rightarrow> (user_action list \<times> user_state) option" where
  "shutdown_network env n u =
     (let u = map_network (n_ref n) (\<lambda>m. m\<lparr>n_stopped := True\<rparr>) u
      in map_option (\<lambda>(acts, u). (stop_network n @ acts, u))
           (case n_conn n of None \<Rightarrow> Some ([], u) | Some uc \<Rightarrow> handleUpstreamDisconnected env (n_ref n) uc u))"

definition install_network :: "user_env \<Rightarrow> network \<Rightarrow> network \<Rightarrow> user_state \<Rightarrow> (user_action list \<times> user_state) option" where
  "install_network env n fresh u =
     (case removeNetwork (n\<lparr>n_stopped := True\<rparr>) (patch_clients (n_ref n) (n_ref fresh) u) of
        None \<Rightarrow> None
      | Some (acts, u) \<Rightarrow>
          let fresh = transfer_network n fresh;
              casemap = map (\<lambda>dc. UUpdateCasemapping (dc_id dc)) (forEachDownstream u (n_ref fresh));
              rename = (if u_msgStore u = FSStore \<and> net_name fresh \<noteq> net_name n then [URenameStore (n_record n) (n_record fresh)] else []);
              (add, u) = addNetwork fresh u
          in Some (acts @ casemap @ rename @ add
               @ notifyBouncerNetworkState env (nid fresh) (getNetworkAttrs env (u_record u) fresh) u, u))"

definition replace_network :: "user_env \<Rightarrow> network \<Rightarrow> db_network \<Rightarrow> user_state \<Rightarrow> (nat \<times> user_action list \<times> user_state) option" where
  "replace_network env n r u =
     (let fresh = newNetwork (u_nextRef u) r (map snd (cmm_ForEach (n_channels n)))
      in case shutdown_network env n (u\<lparr>u_nextRef := Suc (u_nextRef u)\<rparr>) of
           None \<Rightarrow> None
         | Some (acts, u) \<Rightarrow>
             map_option (\<lambda>(acts', u). (n_ref fresh, acts @ acts', u)) (install_network env n fresh u))"

definition updateNetwork :: "user_env \<Rightarrow> db_network \<Rightarrow> bool \<Rightarrow> user_state \<Rightarrow> nat net_result" where
  "updateNetwork env r enforceLimit u =
     (if net_ID r = 0 then (Inl NetPanic, [], u)
      else if enforceLimit \<and> net_Enabled r \<and> \<not> canEnableNewNetwork env u then (Inl NetLimit, [], u)
      else
        let r = wipe_defaults (u_record u) r in
        (case checkNetwork env r u of
           Some e \<Rightarrow> (Inl e, [], u)
         | None \<Rightarrow>
             (case getNetworkByID u (net_ID r) of
                None \<Rightarrow> (Inl NetPanic, [], u)
              | Some n \<Rightarrow>
                  (case ue_storeNetwork env (network_ids u) r of
                     None \<Rightarrow> (Inl NetDb, [], u)
                   | Some _ \<Rightarrow>
                       (case replace_network env n r u of
                          None \<Rightarrow> (Inl NetPanic, [], u)
                        | Some (ref, acts, u) \<Rightarrow> (Inr ref, UEffect (DbStoreNetwork r) # acts, u))))))"

definition deleteNetwork :: "user_env \<Rightarrow> int \<Rightarrow> user_state \<Rightarrow> unit net_result" where
  "deleteNetwork env i u =
     (case getNetworkByID u i of
        None \<Rightarrow> (Inl NetPanic, [], u)
      | Some n \<Rightarrow>
          if \<not> ue_deleteNetwork env i then (Inl NetDb, [], u)
          else (case removeNetwork n u of
              None \<Rightarrow> (Inl NetPanic, [], u)
            | Some (acts, u) \<Rightarrow> (Inr (), UEffect (DbDeleteNetwork i) # acts @ notify_clients u i ''*'', u)))"

text \<open>The network after the call; a failing database leaves the timer stopped.\<close>

definition deleteChannel :: "user_env \<Rightarrow> network \<Rightarrow> string \<Rightarrow> net_error option \<times> user_action list \<times> network" where
  "deleteChannel env n name =
     (case cmm_Get (n_channels n) name of
        None \<Rightarrow> (Some (NetUnknownChannel name), [], n)
      | Some ch \<Rightarrow>
          let stop = (\<lambda>uc. case cmm_Get (uc_channels uc) (ch_Name ch) of
                None \<Rightarrow> uc | Some uch \<Rightarrow> uc\<lparr>uc_channels := cmm_Set (uc_channels uc) (ch_Name ch) (updateAutoDetach 0 uch)\<rparr>);
              n = n\<lparr>n_conn := map_option stop (n_conn n)\<rparr>
          in if \<not> ue_deleteChannel env (ch_ID ch) then (Some NetDb, [], n)
             else (None, [UEffect (DbDeleteChannel (ch_ID ch))], n\<lparr>n_channels := cmm_Del (n_channels n) name\<rparr>))"

section \<open>Changes of the user's record\<close>

text \<open>The networks that a change of the real name or of the enabled flag reconnects, and the
  \<open>SETNAME\<close> messages that save a reconnection.\<close>

definition realname_updates :: "db_user \<Rightarrow> bool \<Rightarrow> network list \<Rightarrow> user_action list \<times> db_network list" where
  "realname_updates usr enabledUpdated ns =
     (let setname = (\<lambda>n. net_Realname (n_record n) = [] \<and>
            (case n_conn n of None \<Rightarrow> False | Some uc \<Rightarrow> caps_IsEnabled (uc_caps uc) ''setname''))
      in if enabledUpdated then ([], map n_record ns)
         else (map (\<lambda>n. UEffect (UpSend (n_ref n) (mk_msg ''SETNAME'' [GetRealname usr (Some (n_record n))]))) (filter setname ns),
               map n_record (filter (\<lambda>n. net_Realname (n_record n) = [] \<and> \<not> setname n) ns)))"

fun update_networks :: "user_env \<Rightarrow> db_network list \<Rightarrow> user_state \<Rightarrow> net_error option \<times> user_action list \<times> user_state" where
  "update_networks env [] u = (None, [], u)"
| "update_networks env (r # rs) u =
     (case updateNetwork env r False u of
        (Inl NetPanic, acts, u) \<Rightarrow> (Some NetPanic, acts, u)
      | (res, acts, u) \<Rightarrow>
          (case update_networks env rs u of
             (e, acts', u) \<Rightarrow> (case e of Some e \<Rightarrow> Some e | None \<Rightarrow> (case res of Inl e \<Rightarrow> Some e | Inr _ \<Rightarrow> None), acts @ acts', u)))"

definition updateUser :: "user_env \<Rightarrow> (db_user \<Rightarrow> db_user option) \<Rightarrow> user_state \<Rightarrow> net_error option \<times> user_action list \<times> user_state" where
  "updateUser env upd u =
     (case upd (u_record u) of
        None \<Rightarrow> (Some NetUserUpdate, [], u)
      | Some r \<Rightarrow>
          if \<not> ue_storeUser env r then (Some NetDb, [], u)
          else
            let old = u_record u;
                u = u\<lparr>u_record := r\<rparr>;
                nicks = (if user_Nick old \<noteq> user_Nick r then
                    map (\<lambda>n. UEffect (UpSend (n_ref n) (mk_msg ''NICK'' [GetNick r (Some (n_record n))])))
                      (filter (\<lambda>n. net_Nick (n_record n) = [] \<and> n_conn n \<noteq> None) (u_networks u))
                  else []);
                realname = (user_Realname old \<noteq> user_Realname r); enabled = (user_Enabled old \<noteq> user_Enabled r);
                (setnames, need) = (if realname \<or> enabled then realname_updates r enabled (u_networks u) else ([], []));
                (e, acts, u) = update_networks env need u;
                acts = UEffect (DbStoreUser r) # nicks @ setnames @ acts
            in (case e of
                  Some e \<Rightarrow> (Some e, acts, u)
                | None \<Rightarrow> (None, acts @ (if \<not> user_Enabled r then map (\<lambda>dc. UEffect (DownClose (dc_id dc))) (u_downstreamConns u) else []), u)))"

section \<open>The invariant of the list\<close>

definition name_ok :: "string \<Rightarrow> bool" where
  "name_ok s \<longleftrightarrow> s \<noteq> [] \<and> \<not> HasPrefix s ''-''"

definition nets_ok :: "user_state \<Rightarrow> bool" where
  "nets_ok u \<longleftrightarrow> sorted (map nid (u_networks u)) \<and> distinct (map nid (u_networks u))
     \<and> distinct (map net_name (u_networks u)) \<and> distinct (map n_ref (u_networks u))
     \<and> list_all (\<lambda>n. n_ref n < u_nextRef u \<and> 0 < nid n \<and> name_ok (net_name n)) (u_networks u)"

lemma distinct_sort_map: "distinct (map f (sort_key k xs)) = distinct (map f xs)"
  by (rule mset_eq_imp_distinct_iff) simp

lemma addNetwork_ok:
  assumes "nets_ok u" and "n_ref n < u_nextRef u" and "n_ref n \<notin> n_ref ` set (u_networks u)"
    and "0 < nid n" and "nid n \<notin> nid ` set (u_networks u)"
    and "name_ok (net_name n)" and "net_name n \<notin> net_name ` set (u_networks u)"
  shows "nets_ok (snd (addNetwork n u))"
  using assms unfolding nets_ok_def addNetwork_def by (simp add: distinct_sort_map list_all_iff sorted_sort_key)

lemma removeNetwork_ok: "nets_ok u \<Longrightarrow> removeNetwork n u = Some (acts, u') \<Longrightarrow> nets_ok u'"
  by (auto simp: removeNetwork_def nets_ok_def list_all_iff distinct_map sorted_filter inj_on_def distinct_filter split: if_splits)

lemma map_network_filter [simp]:
  "(\<And>n. n_ref (f n) = n_ref n) \<Longrightarrow> filter (\<lambda>m. n_ref m \<noteq> ref) (u_networks (map_network ref f u)) = filter (\<lambda>m. n_ref m \<noteq> ref) (u_networks u)"
proof -
  assume f: "\<And>n. n_ref (f n) = n_ref n"
  have "filter (\<lambda>m. n_ref m \<noteq> ref) (map (\<lambda>n. if n_ref n = ref then f n else n) ns) = filter (\<lambda>m. n_ref m \<noteq> ref) ns" for ns
    using f by (induction ns) auto
  then show ?thesis by (simp add: map_network_def)
qed

lemma map_network_sel [simp]:
  "u_record (map_network ref f u) = u_record u" "u_nextRef (map_network ref f u) = u_nextRef u"
  "u_downstreamConns (map_network ref f u) = u_downstreamConns u" "u_msgStore (map_network ref f u) = u_msgStore u"
  by (simp_all add: map_network_def)

lemma handleUpstreamDisconnected_state:
  "handleUpstreamDisconnected env ref uc u = Some (acts, u') \<Longrightarrow> u' = map_network ref (\<lambda>n. n\<lparr>n_conn := None\<rparr>) u"
  by (auto simp: handleUpstreamDisconnected_def Let_def split: option.splits)

lemma transfer_network_sel [simp]:
  "n_ref (transfer_network old new) = n_ref new" "n_record (transfer_network old new) = n_record new"
  by (simp_all add: transfer_network_def Let_def)

lemma newNetwork_sel [simp]: "n_ref (newNetwork ref r chs) = ref" "n_record (newNetwork ref r chs) = r" "n_conn (newNetwork ref r chs) = None"
  by (simp_all add: newNetwork_def)

text \<open>What replacing the object of a network does to the user.\<close>

lemma replace_network_state:
  assumes "replace_network env n r u = Some (ref, acts, u')"
  shows "\<exists>n'. n' = transfer_network n (newNetwork (u_nextRef u) r (map snd (cmm_ForEach (n_channels n))))
    \<and> n_ref n' = u_nextRef u \<and> n_record n' = r \<and> ref = u_nextRef u
    \<and> u_networks u' = sort_key nid (filter (\<lambda>m. n_ref m \<noteq> n_ref n) (u_networks u) @ [n'])
    \<and> u_nextRef u' = Suc (u_nextRef u) \<and> u_record u' = u_record u \<and> u_msgStore u' = u_msgStore u
    \<and> u_downstreamConns u' = u_downstreamConns (patch_clients (n_ref n) (u_nextRef u) u)"
proof -
  let ?u0 = "u\<lparr>u_nextRef := Suc (u_nextRef u)\<rparr>"
  let ?fresh = "newNetwork (u_nextRef u) r (map snd (cmm_ForEach (n_channels n)))"
  from assms obtain a1 u1 a2 where 1: "shutdown_network env n ?u0 = Some (a1, u1)"
    and 2: "install_network env n ?fresh u1 = Some (a2, u')" and ref: "ref = u_nextRef u"
    by (auto simp: replace_network_def Let_def split: option.splits)
  have "u1 = map_network (n_ref n) (\<lambda>m. m\<lparr>n_stopped := True\<rparr>) ?u0
      \<or> u1 = map_network (n_ref n) (\<lambda>n. n\<lparr>n_conn := None\<rparr>) (map_network (n_ref n) (\<lambda>m. m\<lparr>n_stopped := True\<rparr>) ?u0)"
    using 1 by (auto simp: shutdown_network_def Let_def split: option.splits dest: handleUpstreamDisconnected_state)
  then have u1: "filter (\<lambda>m. n_ref m \<noteq> n_ref n) (u_networks u1) = filter (\<lambda>m. n_ref m \<noteq> n_ref n) (u_networks u)"
    "u_nextRef u1 = Suc (u_nextRef u)" "u_record u1 = u_record u" "u_downstreamConns u1 = u_downstreamConns u" "u_msgStore u1 = u_msgStore u"
    by auto
  from 2 obtain a3 u3 where 3: "removeNetwork (n\<lparr>n_stopped := True\<rparr>) (patch_clients (n_ref n) (u_nextRef u) u1) = Some (a3, u3)"
    and u': "u' = snd (addNetwork (transfer_network n ?fresh) u3)"
    by (auto simp: install_network_def Let_def case_prod_beta split: option.splits)
  from 3 u1 have "u_networks u3 = filter (\<lambda>m. n_ref m \<noteq> n_ref n) (u_networks u)" "u_nextRef u3 = Suc (u_nextRef u)"
    "u_record u3 = u_record u" "u_downstreamConns u3 = u_downstreamConns (patch_clients (n_ref n) (u_nextRef u) u)"
    "u_msgStore u3 = u_msgStore u"
    by (auto simp: removeNetwork_def patch_clients_def split: if_splits)
  with ref show ?thesis by (intro exI [of _ "transfer_network n ?fresh"]) (simp add: addNetwork_def u')
qed

lemma GetName_ID [simp]: "GetName (r\<lparr>net_ID := i\<rparr>) = GetName r"
  by (simp add: GetName_def)

lemma find_iff: "find P xs = Some x \<Longrightarrow> x \<in> set xs \<and> P x"
  by (metis find_Some_iff nth_mem)

lemma checkNetwork_None:
  assumes "checkNetwork env r u = None"
  shows "name_ok (GetName r)" "\<And>n. n \<in> set (u_networks u) \<Longrightarrow> net_name n = GetName r \<Longrightarrow> nid n = net_ID r"
  using assms by (auto simp: checkNetwork_def name_ok_def list_ex_iff split: option.splits if_splits)

lemma nets_ok_ID: "nets_ok u \<Longrightarrow> n \<in> set (u_networks u) \<Longrightarrow> m \<in> set (u_networks u) \<Longrightarrow> nid n = nid m \<Longrightarrow> n = m"
  by (auto simp: nets_ok_def distinct_map inj_on_def)

lemma wipe_defaults_sel [simp]:
  "net_ID (wipe_defaults usr r) = net_ID r" "net_Enabled (wipe_defaults usr r) = net_Enabled r"
  "net_Name (wipe_defaults usr r) = net_Name r" "net_Addr (wipe_defaults usr r) = net_Addr r"
  by (simp_all add: wipe_defaults_def Let_def)

lemma createNetwork_ok:
  assumes ok: "nets_ok u" and db: "\<And>i. ue_storeNetwork env (network_ids u) r = Some i \<Longrightarrow> 0 < i \<and> getNetworkByID u i = None"
  shows "nets_ok (snd (snd (createNetwork env r enf u)))"
proof -
  have "nets_ok (snd (addNetwork (newNetwork (u_nextRef u) (r\<lparr>net_ID := i\<rparr>) []) (u\<lparr>u_nextRef := Suc (u_nextRef u)\<rparr>)))"
    if "checkNetwork env r u = None" "net_ID r = 0" "ue_storeNetwork env (network_ids u) r = Some i" for i
  proof (rule addNetwork_ok)
    have i: "0 < i" "i \<notin> nid ` set (u_networks u)"
      using db [OF that(3)] by (auto simp: getNetworkByID_def find_None_iff)
    show "nets_ok (u\<lparr>u_nextRef := Suc (u_nextRef u)\<rparr>)" using ok by (auto simp: nets_ok_def list_all_iff)
    show "n_ref (newNetwork (u_nextRef u) (r\<lparr>net_ID := i\<rparr>) []) \<notin> n_ref ` set (u_networks (u\<lparr>u_nextRef := Suc (u_nextRef u)\<rparr>))"
      using ok by (auto simp: nets_ok_def list_all_iff)
    show "name_ok (net_name (newNetwork (u_nextRef u) (r\<lparr>net_ID := i\<rparr>) []))"
      using checkNetwork_None(1) [OF that(1)] by (simp add: net_name_def)
    have "net_name n \<noteq> GetName r" if n: "n \<in> set (u_networks u)" for n
      using checkNetwork_None(2) [OF \<open>checkNetwork env r u = None\<close> n] \<open>net_ID r = 0\<close> ok n
      by (auto simp: nets_ok_def list_all_iff)
    then show "net_name (newNetwork (u_nextRef u) (r\<lparr>net_ID := i\<rparr>) []) \<notin> net_name ` set (u_networks (u\<lparr>u_nextRef := Suc (u_nextRef u)\<rparr>))"
      by (fastforce simp: net_name_def [of "newNetwork _ _ _"])
  qed (use db [OF that(3)] in \<open>auto simp: getNetworkByID_def find_None_iff\<close>)
  then show ?thesis using ok by (auto simp: createNetwork_def Let_def case_prod_beta split: option.split)
qed

lemma replace_network_ok:
  assumes ok: "nets_ok u" and r: "replace_network env n r u = Some (ref, acts, u')"
    and n: "n \<in> set (u_networks u)" "net_ID r = nid n" and c: "checkNetwork env r u = None"
  shows "nets_ok u'"
proof -
  from replace_network_state [OF r] obtain n' where n': "n_ref n' = u_nextRef u" "n_record n' = r"
    and u': "u_networks u' = sort_key nid (filter (\<lambda>m. n_ref m \<noteq> n_ref n) (u_networks u) @ [n'])" "u_nextRef u' = Suc (u_nextRef u)"
    by blast
  let ?ns = "filter (\<lambda>m. n_ref m \<noteq> n_ref n) (u_networks u)"
  have other: "nid m \<noteq> net_ID r" "net_name m \<noteq> GetName r" "n_ref m \<noteq> u_nextRef u" if "m \<in> set ?ns" for m
  proof -
    show id: "nid m \<noteq> net_ID r" using nets_ok_ID [OF ok, of m n] that n by auto
    show "net_name m \<noteq> GetName r" using checkNetwork_None(2) [OF c, of m] id that by auto
    show "n_ref m \<noteq> u_nextRef u" using ok that by (auto simp: nets_ok_def list_all_iff)
  qed
  have old: "distinct (map nid ?ns)" "distinct (map net_name ?ns)" "distinct (map n_ref ?ns)"
    "list_all (\<lambda>n. n_ref n < Suc (u_nextRef u) \<and> 0 < nid n \<and> name_ok (net_name n)) ?ns"
    using ok by (auto simp: nets_ok_def distinct_map inj_on_def list_all_iff less_SucI)
  have pos: "0 < net_ID r" using ok n by (auto simp: nets_ok_def list_all_iff)
  have "net_name n' = GetName r" by (simp add: net_name_def n'(2))
  then show ?thesis
    unfolding nets_ok_def u' distinct_sort_map
    using old pos n' checkNetwork_None(1) [OF c] other
    by (simp add: sorted_sort_key list_all_iff image_iff) (metis (no_types, lifting))
qed

lemma updateNetwork_ok:
  assumes ok: "nets_ok u"
  shows "nets_ok (snd (snd (updateNetwork env r enf u)))"
proof -
  have "nets_ok u'" if "checkNetwork env (wipe_defaults (u_record u) r) u = None" "getNetworkByID u (net_ID r) = Some n"
    "replace_network env n (wipe_defaults (u_record u) r) u = Some (ref, acts, u')" for n ref acts u'
    using replace_network_ok [OF ok that(3) _ _ that(1)] find_iff [OF that(2) [unfolded getNetworkByID_def]] by simp
  then show ?thesis using ok by (auto simp: updateNetwork_def Let_def split: option.split)
qed

lemma deleteNetwork_ok: "nets_ok u \<Longrightarrow> nets_ok (snd (snd (deleteNetwork env i u)))"
  by (auto simp: deleteNetwork_def removeNetwork_ok split: option.split)

lemma update_networks_ok: "nets_ok u \<Longrightarrow> nets_ok (snd (snd (update_networks env rs u)))"
proof (induction rs arbitrary: u)
  case (Cons r rs)
  have "nets_ok (snd (snd (updateNetwork env r False u)))" by (rule updateNetwork_ok [OF Cons.prems])
  with Cons.IH show ?case
    by (cases "updateNetwork env r False u") (auto simp: case_prod_beta split: sum.split net_error.split)
qed simp

lemma updateUser_ok: "nets_ok u \<Longrightarrow> nets_ok (snd (snd (updateUser env upd u)))"
proof -
  assume "nets_ok u"
  then have r: "nets_ok (u\<lparr>u_record := r\<rparr>)" for r by (simp add: nets_ok_def)
  show ?thesis
    unfolding updateUser_def Let_def case_prod_beta
    using r update_networks_ok [OF r] \<open>nets_ok u\<close> by (simp split: option.split)
qed

end
