(* ===== verification/Network_Properties.thy ===== *)
theory Network_Properties
  imports Networks
begin

text \<open>
  What the operations on the networks of a user guarantee: the list stays well formed, the limit on
  enabled networks holds, clients survive the update of their network, and the address of a network
  survives its attributes unless it is an IPv6 address.
\<close>

section \<open>An example\<close>

definition example_user_env :: user_env where
  "example_user_env = \<lparr>ue_up = example_env [], ue_storeNetwork = (\<lambda>ids r. Some (if net_ID r = 0 then foldr max ids 0 + 1 else net_ID r)),
     ue_deleteNetwork = (\<lambda>_. True), ue_storeUser = (\<lambda>_. True), ue_deleteChannel = (\<lambda>_. True), ue_maxUserNetworks = 1,
     ue_formatTags = (\<lambda>_. [])\<rparr>"

definition new_user :: user_state where
  "new_user = \<lparr>u_record = NewUser ''alice'', u_networks = [], u_downstreamConns = [], u_msgStore = NoStore, u_nextRef = 0\<rparr>"

definition example_record :: db_network where
  "example_record = (NewNetwork ''irc.example.org'')\<lparr>net_ID := 1\<rparr>"

definition one_network :: user_state where
  "one_network = new_user\<lparr>u_networks := [newNetwork 0 example_record []], u_nextRef := 1\<rparr>"

section \<open>Plain addresses\<close>

lemma Index_authority:
  assumes "plain_host h" and "list_all is_digit p"
  shows "Index (authority h p) ''://'' = None"
  using authority_chars(1) [OF assms] by (auto simp: Index_None)

text \<open>The URL of a plain address: without a scheme it is a TLS address.\<close>

definition irc_url :: "bool \<Rightarrow> string \<Rightarrow> string \<Rightarrow> go_url" where
  "irc_url tls h p = no_url\<lparr>url_Scheme := if tls then ''ircs'' else ''irc+insecure'', url_Host := authority h p\<rparr>"

lemma network_URL_plain:
  assumes "plain_host h" and "list_all is_digit p"
    and "(pre, tls) \<in> {([], True), (''ircs://'', True), (''irc+insecure://'', False)}" and "net_Addr net = pre @ authority h p"
  shows "network_URL U net = Some (irc_url tls h p)"
proof -
  have i: "Index (''ircs://'' @ a) ''://'' = Some 4" "Index (''irc+insecure://'' @ a) ''://'' = Some 12" for a
    by (simp_all add: HasPrefix_def)
  show ?thesis
    using assms(3,4) url_Parse_irc [OF assms(1,2)] Index_authority [OF assms(1,2)] i [of "authority h p"]
    by (auto simp: network_URL_def Let_def irc_url_def no_url_def simp del: Index.simps)
qed

section \<open>The operations as steps\<close>

datatype net_op =
    CreateNetwork db_network bool
  | UpdateNetwork db_network bool
  | DeleteNetwork int
  | UpdateUser "db_user \<Rightarrow> db_user option"

fun net_step :: "user_env \<times> net_op \<Rightarrow> user_state \<Rightarrow> user_state" where
  "net_step (env, CreateNetwork r enf) u = snd (snd (createNetwork env r enf u))"
| "net_step (env, UpdateNetwork r enf) u = snd (snd (updateNetwork env r enf u))"
| "net_step (env, DeleteNetwork i) u = snd (snd (deleteNetwork env i u))"
| "net_step (env, UpdateUser f) u = snd (snd (updateUser env f u))"

text \<open>What the database promises: a new record gets a positive identifier that no network has.\<close>

fun fresh_ids :: "user_env \<times> net_op \<Rightarrow> user_state \<Rightarrow> bool" where
  "fresh_ids (env, CreateNetwork r enf) u = (case ue_storeNetwork env (network_ids u) r of None \<Rightarrow> True | Some i \<Rightarrow> 0 < i \<and> getNetworkByID u i = None)"
| "fresh_ids (env, op) u = True"

interpretation networks: step_invariant net_step fresh_ids nets_ok
proof
  fix op u assume a: "fresh_ids op u" and ok: "nets_ok u"
  obtain env op' where op: "op = (env, op')" by fastforce
  show "nets_ok (net_step op u)"
  proof (cases op')
    case (CreateNetwork r enf)
    then show ?thesis using createNetwork_ok [OF ok, of env r enf] a by (simp add: op split: option.splits)
  qed (simp_all add: op updateNetwork_ok deleteNetwork_ok updateUser_ok ok)
qed

text \<open>C9. Whatever networks a user creates, changes and deletes and however the account changes, in any order
  and whether the operations succeed or fail: the list of networks is sorted by identifier, no
  two networks share an identifier, a name or an object, and every network has a name that no flag of a
  service command can be mistaken for.  The database is relied on for fresh positive identifiers.\<close>

theorem networks_invariant:
  assumes "u_networks u = []" and "allowed_run net_step fresh_ids ops u"
  shows "nets_ok (run_steps net_step ops u)"
  using networks.run_invariant [OF assms(2)] assms(1) by (simp add: nets_ok_def)

theorem networks_invariant_witness:
  "nets_ok (run_steps net_step
     [(example_user_env, CreateNetwork (NewNetwork ''irc.example.org'') True),
      (example_user_env, UpdateNetwork (example_record\<lparr>net_Name := ''example''\<rparr>) False),
      (example_user_env, UpdateUser (\<lambda>r. Some (r\<lparr>user_Realname := ''Alice''\<rparr>))),
      (example_user_env, DeleteNetwork 1)] new_user)"
  by (rule networks_invariant) (simp_all add: new_user_def example_user_env_def getNetworkByID_def NewNetwork_def network_ids_def)

section \<open>The limit on enabled networks\<close>

lemma enabled_networks_mset:
  "enabled_networks u = size (filter_mset (\<lambda>n. net_Enabled (n_record n)) (mset (u_networks u)))"
  by (simp add: enabled_networks_def flip: mset_filter)

lemma enabled_addNetwork:
  "enabled_networks (snd (addNetwork n u)) = enabled_networks u + (if net_Enabled (n_record n) then 1 else 0)"
  by (simp add: enabled_networks_mset addNetwork_def)

lemma filter_ref: "distinct (map n_ref ns) \<Longrightarrow> n \<in> set ns \<Longrightarrow> filter (\<lambda>m. n_ref m = n_ref n) ns = [n]"
proof (induction ns)
  case (Cons a ns)
  show ?case
  proof (cases "a = n")
    case True
    with Cons.prems(1) show ?thesis by (auto simp: filter_empty_conv rev_image_eqI)
  next
    case False
    with Cons show ?thesis by (auto simp: image_iff)
  qed
qed simp

lemma enabled_replace:
  assumes "nets_ok u" and "n \<in> set (u_networks u)" and "replace_network env n r u = Some (ref, acts, u')"
  shows "enabled_networks u' + (if net_Enabled (n_record n) then 1 else 0) = enabled_networks u + (if net_Enabled r then 1 else 0)"
proof -
  let ?E = "\<lambda>n. net_Enabled (n_record n)"
  let ?rest = "filter_mset ?E (filter_mset (\<lambda>m. n_ref m \<noteq> n_ref n) (mset (u_networks u)))"
  from replace_network_state [OF assms(3)] obtain n' where n': "n_record n' = r"
    "u_networks u' = sort_key nid (filter (\<lambda>m. n_ref m \<noteq> n_ref n) (u_networks u) @ [n'])" by blast
  have "filter_mset ?E (mset (u_networks u)) = filter_mset ?E (filter_mset (\<lambda>m. n_ref m = n_ref n) (mset (u_networks u))) + ?rest"
    by (metis filter_union_mset multiset_partition)
  also have "filter_mset (\<lambda>m. n_ref m = n_ref n) (mset (u_networks u)) = {#n#}"
    using filter_ref [OF _ assms(2)] assms(1) by (simp add: nets_ok_def flip: mset_filter)
  finally have "enabled_networks u = (if ?E n then 1 else 0) + size ?rest"
    by (simp add: enabled_networks_mset)
  moreover have "enabled_networks u' = size ?rest + (if net_Enabled r then 1 else 0)"
    by (simp add: enabled_networks_mset n')
  ultimately show ?thesis by simp
qed

definition within_limit :: "user_env \<Rightarrow> user_state \<Rightarrow> bool" where
  "within_limit env u \<longleftrightarrow> max_networks env u < 0 \<or> int (enabled_networks u) \<le> max_networks env u"

lemma max_networks_record: "u_record u' = u_record u \<Longrightarrow> max_networks env u' = max_networks env u"
  by (simp add: max_networks_def)

lemma createNetwork_limit:
  assumes "within_limit env u"
  shows "within_limit env (snd (snd (createNetwork env r True u)))"
proof -
  have "within_limit env (snd (addNetwork (newNetwork ref r' []) (u\<lparr>u_nextRef := k\<rparr>)))"
    if "net_Enabled r' \<longrightarrow> canEnableNewNetwork env u" for r' k ref
  proof -
    have "max_networks env (snd (addNetwork (newNetwork ref r' []) (u\<lparr>u_nextRef := k\<rparr>))) = max_networks env u"
      by (rule max_networks_record) (simp add: addNetwork_def)
    moreover have "enabled_networks (u\<lparr>u_nextRef := k\<rparr>) = enabled_networks u" by (simp add: enabled_networks_def)
    ultimately show ?thesis
      using assms that by (auto simp: within_limit_def canEnableNewNetwork_def enabled_addNetwork)
  qed
  then show ?thesis using assms by (auto simp: createNetwork_def Let_def case_prod_beta split: option.split)
qed

lemma updateNetwork_limit:
  assumes "nets_ok u" and "within_limit env u" and "getNetworkByID u (net_ID r) = Some n"
  shows "within_limit env (snd (snd (updateNetwork env r (\<not> net_Enabled (n_record n)) u)))"
proof -
  let ?r = "wipe_defaults (u_record u) r"
  have "within_limit env u'" if "net_Enabled r \<longrightarrow> net_Enabled (n_record n) \<or> canEnableNewNetwork env u"
    "replace_network env n ?r u = Some (ref, acts, u')" for ref acts u'
  proof -
    have "n \<in> set (u_networks u)" using find_iff [OF assms(3) [unfolded getNetworkByID_def]] by simp
    note e = enabled_replace [OF assms(1) this that(2)]
    have "u_record u' = u_record u" using replace_network_state [OF that(2)] by blast
    from max_networks_record [OF this] have m: "max_networks env u' = max_networks env u" .
    show ?thesis
      using assms(2) that(1) e unfolding within_limit_def canEnableNewNetwork_def m by (auto split: if_splits)
  qed
  then show ?thesis using assms(2,3) by (auto simp: updateNetwork_def Let_def split: option.split)
qed

text \<open>C11. The limit on enabled networks, as the client commands and the service enforce it: a user within
  the limit stays within it when a network is created, or when one is changed and the limit is enforced
  for a network that was not enabled before.\<close>

theorem network_limit:
  assumes "nets_ok u" and "within_limit env u" and "getNetworkByID u (net_ID r) = Some n"
  shows "within_limit env (snd (snd (createNetwork env r' True u)))
    \<and> within_limit env (snd (snd (updateNetwork env r (\<not> net_Enabled (n_record n)) u)))"
  by (simp add: createNetwork_limit updateNetwork_limit assms)

theorem network_limit_witness:
  "within_limit example_user_env (snd (snd (createNetwork example_user_env (NewNetwork ''irc.example.com'') True one_network)))
    \<and> within_limit example_user_env (snd (snd (updateNetwork example_user_env example_record
        (\<not> net_Enabled (n_record (newNetwork 0 example_record []))) one_network)))"
proof (rule network_limit)
  show "nets_ok one_network" "within_limit example_user_env one_network" by code_simp+
  show "getNetworkByID one_network (net_ID example_record) = Some (newNetwork 0 example_record [])"
    by (simp add: one_network_def getNetworkByID_def)
qed

section \<open>Clients of an updated network\<close>

definition closes :: "user_action list \<Rightarrow> bool" where
  "closes acts \<longleftrightarrow> list_ex (\<lambda>a. case a of UEffect (DownClose _) \<Rightarrow> True | _ \<Rightarrow> False) acts"

lemma closes_simps [simp]:
  "\<not> closes []" "closes (a @ b) = (closes a \<or> closes b)" "closes (UUp k x # a) = closes a"
  "\<not> closes (map (\<lambda>dc. UUpdateCaps (f dc)) dcs)" "\<not> closes (map (\<lambda>dc. UUpdateCasemapping (f dc)) dcs)"
  "\<not> closes (map (\<lambda>dc. sendServiceNOTICE dc s) dcs)" "\<not> closes (stop_network n)"
  "\<not> closes (notify_clients u i attrs)" "\<not> closes (notifyBouncerNetworkState env i tags u)"
  "closes (UEffect (NetStart ref) # a) = closes a" "closes (URenameStore r r' # a) = closes a" "closes (UEffect (DbStoreNetwork r) # a) = closes a"
  by (auto simp: closes_def list_ex_iff sendServiceNOTICE_def stop_network_def notify_clients_def notifyBouncerNetworkState_def)

lemma closes_if: "closes (if b then x else y) = (if b then closes x else closes y)"
  by simp

lemma abort_loop_no_close: "abort_loop dcs ps = Some es \<Longrightarrow> \<not> closes (map UEffect es)"
  by (induction ps arbitrary: es) (auto simp: abort_reply_def closes_def split: option.splits if_splits list.splits)

lemma handleUpstreamDisconnected_no_close:
  assumes "handleUpstreamDisconnected env ref uc u = Some (acts, u')"
  shows "\<not> closes acts"
proof -
  from assms obtain es where es: "abort_loop (u_downstreamConns u) (concat (map snd (uc_pendingCmds (stopRegainNickTimer uc)))) = Some es"
    by (auto simp: handleUpstreamDisconnected_def abortPendingCommands_def Let_def split: option.splits)
  show ?thesis
    using assms abort_loop_no_close [OF es] es
    by (auto simp: handleUpstreamDisconnected_def abortPendingCommands_def Let_def closes_if split: option.splits if_splits)
qed

lemma shutdown_network_no_close: "shutdown_network env n u = Some (acts, u') \<Longrightarrow> \<not> closes acts"
  using handleUpstreamDisconnected_no_close by (fastforce simp: shutdown_network_def Let_def split: option.splits)

lemma patch_clients_none:
  "old \<noteq> new \<Longrightarrow> forEachDownstream (patch_clients old new u) old = []"
  by (auto simp: forEachDownstream_def patch_clients_def filter_empty_conv)

lemma install_network_no_close:
  assumes "install_network env n fresh u = Some (acts, u')" and "n_ref n \<noteq> n_ref fresh"
  shows "\<not> closes acts"
  using assms patch_clients_none [OF assms(2), of u]
  by (auto simp: install_network_def removeNetwork_def case_prod_beta addNetwork_def Let_def split: option.splits if_splits)

definition clients_ok :: "user_state \<Rightarrow> bool" where
  "clients_ok u \<longleftrightarrow> list_all (\<lambda>dc. case dc_network dc of None \<Rightarrow> True | Some ref \<Rightarrow> network_by_ref u ref \<noteq> None) (u_downstreamConns u)"

lemma network_by_ref_iff: "network_by_ref u ref \<noteq> None \<longleftrightarrow> ref \<in> n_ref ` set (u_networks u)"
  by (auto simp: network_by_ref_def find_None_iff)

lemma replace_network_no_close:
  assumes "n_ref n \<noteq> u_nextRef u" and "replace_network env n r u = Some (ref, acts, u')"
  shows "\<not> closes acts"
  using assms shutdown_network_no_close install_network_no_close
  by (fastforce simp: replace_network_def Let_def split: option.splits)

lemma replace_network_clients:
  assumes "clients_ok u" and "replace_network env n r u = Some (ref, acts, u')"
  shows "clients_ok u'"
proof -
  from replace_network_state [OF assms(2)] obtain n' where n': "n_ref n' = u_nextRef u"
    "u_networks u' = sort_key nid (filter (\<lambda>m. n_ref m \<noteq> n_ref n) (u_networks u) @ [n'])"
    "u_downstreamConns u' = u_downstreamConns (patch_clients (n_ref n) (u_nextRef u) u)" by blast
  have "n_ref ` set (u_networks u') = insert (u_nextRef u) (n_ref ` set (u_networks u) - {n_ref n})"
    using n' by auto
  with assms(1) n'(3) show ?thesis
    unfolding clients_ok_def network_by_ref_iff
    by (auto simp: patch_clients_def list_all_iff split: option.splits)
qed

text \<open>C10. Updating a network replaces its object and keeps its clients: no connection is closed, the clients of
  the old object are moved to the new one and the others stay, no client is left with an object that
  is not in the list, and the new object has the stored record, the case mapping and the delivery
  receipts of the old one.\<close>

theorem update_keeps_clients:
  assumes "nets_ok u" and "clients_ok u" and "getNetworkByID u (net_ID r) = Some n"
    and "updateNetwork env r enf u = (Inr ref, acts, u')"
  shows "\<not> closes acts \<and> clients_ok u'
    \<and> u_downstreamConns u' = map (\<lambda>dc. if dc_network dc = Some (n_ref n) then dc\<lparr>dc_network := Some ref\<rparr> else dc) (u_downstreamConns u)
    \<and> (\<exists>n'. network_by_ref u' ref = Some n' \<and> n_record n' = wipe_defaults (u_record u) r \<and> n_casemap n' = n_casemap n
          \<and> n_delivered n' = cmm_SetCaseMapping (n_delivered n) (n_casemap n))"
proof -
  obtain acts' where r: "replace_network env n (wipe_defaults (u_record u) r) u = Some (ref, acts', u')"
    and acts: "acts = UEffect (DbStoreNetwork (wipe_defaults (u_record u) r)) # acts'"
    using assms(3,4) by (auto simp: updateNetwork_def Let_def split: option.splits if_splits)
  from replace_network_state [OF r] obtain n' where
    n': "n' = transfer_network n (newNetwork (u_nextRef u) (wipe_defaults (u_record u) r) (map snd (cmm_ForEach (n_channels n))))"
    "n_ref n' = u_nextRef u" "n_record n' = wipe_defaults (u_record u) r" "ref = u_nextRef u"
    "u_networks u' = sort_key nid (filter (\<lambda>m. n_ref m \<noteq> n_ref n) (u_networks u) @ [n'])"
    "u_downstreamConns u' = u_downstreamConns (patch_clients (n_ref n) (u_nextRef u) u)" by blast
  have n: "n \<in> set (u_networks u)" using find_iff [OF assms(3) [unfolded getNetworkByID_def]] by simp
  have fresh: "n_ref m \<noteq> ref" if "m \<in> set (u_networks u)" for m
    using assms(1) that n'(4) by (auto simp: nets_ok_def list_all_iff)
  obtain k where k: "network_by_ref u' ref = Some k"
    using network_by_ref_iff [of u' ref] n'(2,4,5) by auto
  then have "k \<in> set (u_networks u')" "n_ref k = ref" using find_iff [OF k [unfolded network_by_ref_def]] by auto
  then have "k = n'" using n'(5) fresh by auto
  with k n' show ?thesis
    using replace_network_no_close [OF _ r] fresh [OF n] replace_network_clients [OF assms(2) r]
    by (simp add: acts patch_clients_def transfer_network_def Let_def)
qed

definition one_client :: user_state where
  "one_client = one_network\<lparr>u_downstreamConns := [example_dc 1 []]\<rparr>"

lemma example_checkNetwork: "checkNetwork example_user_env example_record one_client = None"
proof -
  have "network_URL no_tables example_record = Some (irc_url True ''irc.example.org'' [])"
    by (rule network_URL_plain [where pre = "[]"])
      (simp_all add: example_record_def NewNetwork_def authority_def plain_host_def is_letter_def is_digit_def Let_def)
  moreover have "ue_unicode example_user_env = no_tables" by (simp add: example_user_env_def example_env_def)
  ultimately show ?thesis
    by (simp add: checkNetwork_def check_url_def irc_url_def no_url_def authority_def one_client_def one_network_def net_name_def
        example_record_def NewNetwork_def GetName_def HasPrefix_def)
qed

lemma example_updateNetwork: "fst (updateNetwork example_user_env example_record False one_client) = Inr 1"
proof -
  have "wipe_defaults (u_record one_client) example_record = example_record"
    by (simp add: wipe_defaults_def example_record_def NewNetwork_def Let_def)
  moreover have "getNetworkByID one_client (net_ID example_record) = Some (newNetwork 0 example_record [])"
    by (simp add: one_client_def one_network_def getNetworkByID_def)
  moreover have "ue_storeNetwork example_user_env (network_ids one_client) example_record = Some 1" "net_ID example_record \<noteq> 0"
    by (simp_all add: example_record_def example_user_env_def)
  moreover have "\<exists>acts u'. replace_network example_user_env (newNetwork 0 example_record []) example_record one_client = Some (1, acts, u')"
    by (simp add: replace_network_def shutdown_network_def install_network_def removeNetwork_def patch_clients_def network_by_ref_def
        map_network_def one_client_def one_network_def Let_def case_prod_beta newNetwork_def)
  ultimately show ?thesis
    using example_checkNetwork by (auto simp: updateNetwork_def)
qed

theorem update_keeps_clients_witness:
  "\<not> closes (fst (snd (updateNetwork example_user_env example_record False one_client)))
    \<and> u_downstreamConns (snd (snd (updateNetwork example_user_env example_record False one_client))) = [(example_dc 1 [])\<lparr>dc_network := Some 1\<rparr>]"
proof -
  obtain acts u' where u': "updateNetwork example_user_env example_record False one_client = (Inr 1, acts, u')"
    using example_updateNetwork by (metis prod.collapse)
  have g: "getNetworkByID one_client (net_ID example_record) = Some (newNetwork 0 example_record [])"
    by (simp add: one_client_def one_network_def getNetworkByID_def)
  have "nets_ok one_client" "clients_ok one_client" by code_simp+
  note update_keeps_clients [OF this g u']
  then have "\<not> closes acts" "u_downstreamConns u' = [(example_dc 1 [])\<lparr>dc_network := Some 1\<rparr>]"
    by (simp_all add: one_client_def example_dc_def)
  with u' show ?thesis by simp
qed

section \<open>Addresses and attributes\<close>

lemma authority_nonempty: "h \<noteq> [] \<Longrightarrow> authority h p \<noteq> []"
  by (simp add: authority_def)

lemma SplitHostPort_authority:
  assumes "plain_host h" and "list_all is_digit p"
  shows "SplitHostPort (authority h p) = (if p = [] then None else Some (h, p))"
  using SplitHostPort_plain [OF assms] by (simp add: authority_def)

lemma fillNetworkAddrAttrs_plain:
  assumes "plain_host h" and "list_all is_digit p" and "network_URL U net = Some (irc_url tls h p)"
  shows "fillNetworkAddrAttrs U net [] =
    [(''tls'', if tls then ''1'' else ''0''), (''host'', h)] @ (if p = [] then [] else [(''port'', p)])"
  using SplitHostPort_authority [OF assms(1,2)]
  by (simp add: fillNetworkAddrAttrs_def assms(3) irc_url_def no_url_def Let_def authority_def)

lemma networkAddrFromAttrs_plain:
  "h \<noteq> [] \<Longrightarrow> networkAddrFromAttrs [(''tls'', t), (''host'', h), (''port'', p)]
    = (if t = ''0'' then ''irc+insecure://'' else []) @ authority h p"
  "h \<noteq> [] \<Longrightarrow> networkAddrFromAttrs [(''tls'', t), (''host'', h)] = (if t = ''0'' then ''irc+insecure://'' else []) @ h"
  by (simp_all add: networkAddrFromAttrs_def tag_or_empty_def Let_def authority_def)

definition updated_URL :: "unicode_tables \<Rightarrow> attrs_error + db_network \<Rightarrow> go_url option" where
  "updated_URL U res = (case res of Inl _ \<Rightarrow> None | Inr net \<Rightarrow> network_URL U net)"

lemma updated_URL_addr:
  assumes "plain_host h" and "list_all is_digit p" and "h \<noteq> []"
    and "addr = (if t = ''0'' then ''irc+insecure://'' else []) @ authority h p"
  shows "updated_URL U (let addr = addr in if addr = [] then Inl MissingHost else Inr (net\<lparr>net_Addr := addr\<rparr>)) = Some (irc_url (t \<noteq> ''0'') h p)"
proof -
  have "addr \<noteq> []" using assms(3,4) by (simp add: authority_def)
  with network_URL_plain [OF assms(1,2), of "if t = ''0'' then ''irc+insecure://'' else []" "t \<noteq> ''0''" "net\<lparr>net_Addr := addr\<rparr>" U] assms(4)
  show ?thesis by (simp add: updated_URL_def Let_def)
qed

text \<open>C30. The address of a network with a plain host survives its attributes: setting the TLS flag, the host
  or the port through the attributes gives an address that parses to the URL of the old one but for
  the attribute that was set.\<close>

theorem network_attrs_address:
  assumes "plain_host h" and "list_all is_digit p" and "h \<noteq> []"
    and "(pre, tls) \<in> {([], True), (''ircs://'', True), (''irc+insecure://'', False)}" and "net_Addr net = pre @ authority h p"
    and "plain_host h'" and "h' \<noteq> []" and "list_all is_digit p'"
  shows "updated_URL U (updateNetworkAttrs U net [(''tls'', if b then ''1'' else ''0'')]) = Some (irc_url b h p)
    \<and> updated_URL U (updateNetworkAttrs U net [(''host'', h')]) = Some (irc_url tls h' p)
    \<and> updated_URL U (updateNetworkAttrs U net [(''port'', p')]) = Some (irc_url tls h p')"
proof -
  note f = fillNetworkAddrAttrs_plain [OF assms(1,2) network_URL_plain [OF assms(1,2,4,5)]]
  have [simp]: "authority g [] = g" for g by (simp add: authority_def)
  have "updated_URL U (updateNetworkAttrs U net [(''tls'', if b then ''1'' else ''0'')]) = Some (irc_url b h p)"
    using updated_URL_addr [OF assms(1-3) refl, of U "if b then ''1'' else ''0''"] assms(3)
    by (cases "p = []") (simp_all add: updateNetworkAttrs_def f networkAddrFromAttrs_plain)
  moreover have "updated_URL U (updateNetworkAttrs U net [(''host'', h')]) = Some (irc_url tls h' p)"
    using updated_URL_addr [OF assms(6,2,7) refl, of U "if tls then ''1'' else ''0''"] assms(7)
    by (cases "p = []") (simp_all add: updateNetworkAttrs_def f networkAddrFromAttrs_plain)
  moreover have "updated_URL U (updateNetworkAttrs U net [(''port'', p')]) = Some (irc_url tls h p')"
    using updated_URL_addr [OF assms(1,8,3) refl, of U "if tls then ''1'' else ''0''"] assms(3)
    by (cases "p = []") (simp_all add: updateNetworkAttrs_def f networkAddrFromAttrs_plain)
  ultimately show ?thesis by blast
qed

theorem network_attrs_address_witness:
  "updated_URL no_tables (updateNetworkAttrs no_tables (NewNetwork ''irc.example.org:6697'') [(''tls'', ''0'')])
    = Some (irc_url False ''irc.example.org'' ''6697'')"
  using network_attrs_address [of "''irc.example.org''" "''6697''" "[]" True "NewNetwork ''irc.example.org:6697''" "''b''" "''1''" no_tables False]
  by (simp add: plain_host_def is_letter_def is_digit_def Let_def NewNetwork_def authority_def)

section \<open>IPv6 addresses\<close>

definition ipv6_literal :: "string \<Rightarrow> bool" where
  "ipv6_literal a \<longleftrightarrow> list_all (\<lambda>c. is_hex c \<or> c = CHR '':'') a \<and> CHR '':'' \<in> set a"

lemma SplitHostPort_ipv6:
  assumes "ipv6_literal a" and "list_all is_digit p"
  shows "SplitHostPort (''['' @ a @ '']:'' @ p) = Some (a, p)" and "SplitHostPort (a @ '':'' @ p) = None"
proof -
  have a: "CHR ''['' \<notin> set a" "CHR '']'' \<notin> set a"
    using assms(1) by (auto simp: ipv6_literal_def list_all_iff is_hex_def is_digit_def Let_def)
  have p: "CHR '':'' \<notin> set p" "CHR ''['' \<notin> set p" "CHR '']'' \<notin> set p"
    using plain_host_chars [OF plain_digits [OF assms(2)]] by auto
  have "last_index (''['' @ a @ '']:'' @ p) CHR '':'' = Some (length a + 2)"
    using last_index_append [OF p(1), of "''['' @ a @ '']''"] by simp
  moreover have "IndexByte (''['' @ a @ '']:'' @ p) CHR '']'' = Some (Suc (length a))"
    using IndexByte_append [of "CHR '']''" "''['' @ a" "'':'' @ p"] a by simp
  ultimately show "SplitHostPort (''['' @ a @ '']:'' @ p) = Some (a, p)"
    using a p by (simp add: SplitHostPort_def)
  have "(a @ '':'' @ p) ! 0 \<noteq> CHR ''[''" using a(1) by (cases a) auto
  moreover have "last_index (a @ '':'' @ p) CHR '':'' = Some (length a)"
    using last_index_append [OF p(1), of a] by simp
  ultimately show "SplitHostPort (a @ '':'' @ p) = None"
    using assms(1) a p by (simp add: SplitHostPort_def ipv6_literal_def)
qed

text \<open>C39. The brackets of an IPv6 address are lost: changing the TLS flag of such a network through its
  attributes stores an address that no longer splits into a host and a port.\<close>

theorem ipv6_attrs_lose_brackets:
  assumes "ipv6_literal a" and "list_all is_digit p" and "p \<noteq> []"
    and "network_URL U net = Some (no_url\<lparr>url_Scheme := ''irc+insecure'', url_Host := ''['' @ a @ '']:'' @ p\<rparr>)"
  shows "updateNetworkAttrs U net [(''tls'', ''1'')] = Inr (net\<lparr>net_Addr := a @ '':'' @ p\<rparr>)
    \<and> SplitHostPort (a @ '':'' @ p) = None"
proof -
  have "a \<noteq> []" using assms(1) by (auto simp: ipv6_literal_def)
  moreover have "fillNetworkAddrAttrs U net [] = [(''tls'', ''0''), (''host'', a), (''port'', p)]"
    using SplitHostPort_ipv6(1) [OF assms(1,2)]
    by (simp add: fillNetworkAddrAttrs_def assms(4) no_url_def Let_def)
  ultimately show ?thesis
    using SplitHostPort_ipv6(2) [OF assms(1,2)] assms(3)
    by (simp add: updateNetworkAttrs_def networkAddrFromAttrs_plain authority_def)
qed

lemma ipv6_URL:
  "network_URL no_tables (NewNetwork ''irc+insecure://[::1]:6667'')
    = Some (no_url\<lparr>url_Scheme := ''irc+insecure'', url_Host := ''['' @ ''::1'' @ '']:'' @ ''6667''\<rparr>)"
proof -
  have l: "ToLower no_tables ''irc+insecure'' = ''irc+insecure''"
    by (simp add: ToLower_def str_map_ascii_Cons rune_lower_def) code_simp
  have g: "getScheme ''irc+insecure://[::1]:6667'' = Some (''irc+insecure'', ''//[::1]:6667'')" by code_simp
  have a: "parseAuthority ''[::1]:6667'' = Some (False, ''[::1]:6667'')" by code_simp
  have c: "cut_or_all ''irc+insecure://[::1]:6667'' CHR ''#'' = (''irc+insecure://[::1]:6667'', [])"
    "Index ''irc+insecure://[::1]:6667'' ''://'' = Some 12" by code_simp+
  show ?thesis
    using l g a c by (simp add: network_URL_def url_Parse_def url_parse_def NewNetwork_def Let_def no_url_def HasPrefix_def last_index_def cut_or_all_def)
qed

theorem ipv6_attrs_lose_brackets_witness:
  "updateNetworkAttrs no_tables (NewNetwork ''irc+insecure://[::1]:6667'') [(''tls'', ''1'')]
    = Inr (NewNetwork ''::1:6667'')"
proof -
  have "network_URL no_tables (NewNetwork ''irc+insecure://[::1]:6667'')
      = Some (no_url\<lparr>url_Scheme := ''irc+insecure'', url_Host := ''['' @ ''::1'' @ '']:'' @ ''6667''\<rparr>)"
    by (rule ipv6_URL)
  moreover have "ipv6_literal ''::1''" "list_all is_digit ''6667''" by code_simp+
  ultimately show ?thesis
    using ipv6_attrs_lose_brackets [of "''::1''" "''6667''" no_tables "NewNetwork ''irc+insecure://[::1]:6667''"]
    by (simp add: NewNetwork_def)
qed

end
