(* ===== verification/Downstream_Send.thy ===== *)
theory Downstream_Send
  imports Upstream_Messages Msgid
begin

text \<open>
  The sending side of a client connection, \<^verbatim>\<open>src/downstream.go\<close>: \<open>SendMessage\<close> adapts a message to the
  capabilities of the client and gathers the replies to a labelled command, \<open>FlushBatch\<close> ends
  them, \<open>SendBatch\<close> wraps messages in a batch.

  A step on a connection yields the messages put on the wire and the new state.  \<open>dn_label\<close> is the label
  context that the Go context carries for the connection.
\<close>

section \<open>State\<close>

record label_context =
  lc_label :: string
  lc_batch :: string
  lc_pendingMsg :: "irc_message option"

record down_state =
  dn_dc :: downstream_conn
  dn_label :: "label_context option"
  dn_shutdown :: bool

type_synonym down_op = "down_state \<Rightarrow> irc_message list \<times> down_state"

fun do_all :: "down_op list \<Rightarrow> down_op" where
  "do_all [] st = ([], st)"
| "do_all (f # fs) st = (let (out, st) = f st; (out', st) = do_all fs st in (out @ out', st))"

definition set_dc :: "(downstream_conn \<Rightarrow> downstream_conn) \<Rightarrow> down_op" where
  "set_dc f st = ([], st\<lparr>dn_dc := f (dn_dc st)\<rparr>)"

abbreviation cap_on :: "down_state \<Rightarrow> string \<Rightarrow> bool" where
  "cap_on st c \<equiv> caps_IsEnabled (dc_caps (dn_dc st)) c"

section \<open>Sending a message\<close>

definition tag_value :: "irc_message \<Rightarrow> string \<Rightarrow> string" where
  "tag_value msg k = (case go_get (Tags msg) k of None \<Rightarrow> [] | Some v \<Rightarrow> v)"

text \<open>The commands that a client gets only with a capability.\<close>

definition gated_commands :: "(string \<times> string) list" where
  "gated_commands = [(''SETNAME'', ''setname''), (''CHGHOST'', ''chghost''), (''AWAY'', ''away-notify''),
     (''ACCOUNT'', ''account-notify''), (''MARKREAD'', ''draft/read-marker''), (''READ'', ''soju.im/read''),
     (''METADATA'', ''draft/metadata-2''), (''REDACT'', ''draft/message-redaction'')]"

definition tag_supported :: "cap_registry \<Rightarrow> string \<Rightarrow> bool" where
  "tag_supported caps name \<longleftrightarrow>
     (name = ''time'' \<and> caps_IsEnabled caps ''server-time'') \<or> (name = ''account'' \<and> caps_IsEnabled caps ''account-tag'')
     \<or> (name = ''batch'' \<and> caps_IsEnabled caps ''batch'')"

text \<open>The message as the client may see it, \<open>None\<close> when it is not sent; \<open>srv\<close> is the prefix of the bouncer.
  A \<open>JOIN\<close> has a channel parameter, or Go would panic: the handler of a server's \<open>JOIN\<close> and the reader of logs make it with one.\<close>

definition adapt_message :: "irc_prefix \<Rightarrow> cap_registry \<Rightarrow> irc_message \<Rightarrow> irc_message option" where
  "adapt_message srv caps msg =
     (if \<not> caps_IsEnabled caps ''message-tags'' \<and> Command msg = ''TAGMSG'' then None
      else
        let msg = (if caps_IsEnabled caps ''message-tags'' then msg
                   else msg\<lparr>Tags := filter (\<lambda>(k, _). tag_supported caps k) (Tags msg)\<rparr>);
            msg = (if \<not> caps_IsEnabled caps ''batch'' \<and> tag_value msg ''batch'' \<noteq> []
                   then msg\<lparr>Tags := go_del ''batch'' (Tags msg)\<rparr> else msg);
            msg = (if Command msg = ''JOIN'' \<and> \<not> caps_IsEnabled caps ''extended-join''
                   then msg\<lparr>Params := take 1 (Params msg)\<rparr> else msg)
        in if list_ex (\<lambda>(cmd, cap). Command msg = cmd \<and> \<not> caps_IsEnabled caps cap) gated_commands then None
           else
             let msg = (case Prefix msg of Some p \<Rightarrow> if Name p = ''*'' then msg\<lparr>Prefix := None\<rparr> else msg | None \<Rightarrow> msg)
             in Some (if Prefix msg = None \<and> isNumeric (Command msg) then msg\<lparr>Prefix := Some srv\<rparr> else msg))"

definition with_batch :: "string \<Rightarrow> irc_message \<Rightarrow> irc_message" where
  "with_batch ref msg = (if tag_value msg ''batch'' = [] then msg\<lparr>Tags := go_put ''batch'' ref (Tags msg)\<rparr> else msg)"

definition batch_ref :: "64 word \<Rightarrow> string" where
  "batch_ref r = show_nat (unat r)"

text \<open>The replies to a labelled command: the first one waits, the second one opens a batch.\<close>

definition send_labelled :: "irc_message \<Rightarrow> label_context \<Rightarrow> 64 word \<Rightarrow> irc_message list \<times> label_context \<times> 64 word" where
  "send_labelled msg lc lastRef =
     (let (out, lc, lastRef) =
        (case lc_pendingMsg lc of
           None \<Rightarrow> ([], lc, lastRef)
         | Some m \<Rightarrow>
             let ref = batch_ref (lastRef + 1) in
             ([(mk_msg ''BATCH'' [''+'' @ ref, ''labeled-response''])\<lparr>Tags := [(''label'', lc_label lc)]\<rparr>, with_batch ref m],
              lc\<lparr>lc_batch := ref, lc_pendingMsg := None\<rparr>, lastRef + 1))
      in if lc_batch lc \<noteq> [] then (out @ [with_batch (lc_batch lc) msg], lc, lastRef)
         else (out, lc\<lparr>lc_pendingMsg := Some msg\<rparr>, lastRef))"

definition SendMessage :: "irc_prefix \<Rightarrow> irc_message \<Rightarrow> down_op" where
  "SendMessage srv msg st =
     (case adapt_message srv (dc_caps (dn_dc st)) msg of
        None \<Rightarrow> ([], st)
      | Some msg \<Rightarrow>
          (case dn_label st of
             None \<Rightarrow> ([msg], st)
           | Some lc \<Rightarrow>
               if lc_label lc = [] then ([msg], st)
               else
                 let (out, lc, lastRef) = send_labelled msg lc (dc_lastBatchRef (dn_dc st))
                 in (out, st\<lparr>dn_label := Some lc, dn_dc := (dn_dc st)\<lparr>dc_lastBatchRef := lastRef\<rparr>\<rparr>)))"

definition FlushBatch :: "down_state \<Rightarrow> irc_message list" where
  "FlushBatch st =
     (case dn_label st of
        None \<Rightarrow> []
      | Some lc \<Rightarrow>
          if lc_label lc = [] then []
          else (case lc_pendingMsg lc of
              Some m \<Rightarrow> [m\<lparr>Tags := go_put ''label'' (lc_label lc) (Tags m)\<rparr>]
            | None \<Rightarrow>
                if lc_batch lc \<noteq> [] then [mk_msg ''BATCH'' [''-'' @ lc_batch lc]]
                else [(mk_msg ''ACK'' [])\<lparr>Tags := [(''label'', lc_label lc)]\<rparr>]))"

definition send_all :: "irc_prefix \<Rightarrow> irc_message list \<Rightarrow> down_op" where
  "send_all srv msgs = do_all (map (SendMessage srv) msgs)"

text \<open>\<open>f\<close> gives the messages that the callback sends for the reference of the batch.\<close>

definition SendBatch :: "irc_prefix \<Rightarrow> string \<Rightarrow> string list \<Rightarrow> irc_tags \<Rightarrow> (string \<Rightarrow> irc_message list) \<Rightarrow> down_op" where
  "SendBatch srv typ params tags f st =
     (let st = st\<lparr>dn_dc := (dn_dc st)\<lparr>dc_lastBatchRef := dc_lastBatchRef (dn_dc st) + 1\<rparr>\<rparr>;
          ref = batch_ref (dc_lastBatchRef (dn_dc st));
          batch = cap_on st ''batch''
      in do_all
           ((if batch then [SendMessage srv ((mk_msg ''BATCH'' ([''+'' @ ref, typ] @ params))\<lparr>Tags := tags\<rparr>)] else [])
            @ [send_all srv (f ref)]
            @ (if batch then [SendMessage srv (mk_msg ''BATCH'' [''-'' @ ref])] else [])) st)"

section \<open>Delivery\<close>

definition messageSupportsBacklog :: "irc_message \<Rightarrow> bool" where
  "messageSupportsBacklog msg \<longleftrightarrow> Command msg = ''PRIVMSG'' \<or> Command msg = ''NOTICE''"

definition msgid_token :: string where "msgid_token = ''soju-msgid-''"

definition sendPing :: "irc_prefix \<Rightarrow> string \<Rightarrow> down_op" where
  "sendPing srv msgID = SendMessage srv (mk_msg ''PING'' [msgid_token @ msgID])"

definition advanceMessageWithID :: "irc_prefix \<Rightarrow> irc_message \<Rightarrow> string \<Rightarrow> down_op" where
  "advanceMessageWithID srv msg i st =
     (if i = [] \<or> \<not> messageSupportsBacklog msg \<or> cap_on st ''draft/chathistory'' then ([], st) else sendPing srv i st)"

definition sendMessageWithID :: "irc_prefix \<Rightarrow> irc_message \<Rightarrow> string \<Rightarrow> down_op" where
  "sendMessageWithID srv msg i = do_all [SendMessage srv msg, advanceMessageWithID srv msg i]"

text \<open>The acknowledgement stores the receipt in the network of the identifier, if the user has it.\<close>

definition ackMsgID :: "bare_codec \<Rightarrow> string \<Rightarrow> string \<Rightarrow> network list \<Rightarrow> network list" where
  "ackMsgID B client i ns =
     (case ParseMsgID B i None of
        Inl _ \<Rightarrow> ns
      | Inr (netID, entity, _) \<Rightarrow>
          (case find (\<lambda>n. net_ID (n_record n) = netID) ns of
             None \<Rightarrow> ns
           | Some n \<Rightarrow> map (\<lambda>m. if n_ref m = n_ref n then m\<lparr>n_delivered := ds_StoreID (n_delivered m) entity client i\<rparr> else m) ns))"

definition handlePong :: "bare_codec \<Rightarrow> string \<Rightarrow> string \<Rightarrow> network list \<Rightarrow> network list" where
  "handlePong B client token ns =
     (if HasPrefix token msgid_token then ackMsgID B client (drop (length msgid_token) token) ns else ns)"

section \<open>One message for several clients\<close>

text \<open>The copies that \<open>SendMessage\<close> makes to add the batch tag are shallow: they share the tag map of the
  message it was given unless an earlier copy was deep.  \<open>tags_after\<close> is that map after the call.\<close>

definition shares_tags :: "cap_registry \<Rightarrow> irc_message \<Rightarrow> bool" where
  "shares_tags caps msg \<longleftrightarrow> Tags msg \<noteq> [] \<and> caps_IsEnabled caps ''message-tags''
     \<and> \<not> (\<not> caps_IsEnabled caps ''batch'' \<and> tag_value msg ''batch'' \<noteq> [])
     \<and> \<not> (Command msg = ''JOIN'' \<and> \<not> caps_IsEnabled caps ''extended-join'')"

definition tags_after :: "irc_prefix \<Rightarrow> irc_message \<Rightarrow> down_state \<Rightarrow> irc_tags" where
  "tags_after srv msg st =
     (case dn_label (snd (SendMessage srv msg st)) of
        None \<Rightarrow> Tags msg
      | Some lc \<Rightarrow>
          if adapt_message srv (dc_caps (dn_dc st)) msg \<noteq> None \<and> lc_label lc \<noteq> [] \<and> lc_batch lc \<noteq> []
            \<and> shares_tags (dc_caps (dn_dc st)) msg
          then Tags (with_batch (lc_batch lc) msg) else Tags msg)"

fun forward_loop :: "irc_prefix \<Rightarrow> irc_message \<Rightarrow> down_state list \<Rightarrow> (irc_message list \<times> down_state) list" where
  "forward_loop srv msg [] = []"
| "forward_loop srv msg (st # sts) = SendMessage srv msg st # forward_loop srv (msg\<lparr>Tags := tags_after srv msg st\<rparr>) sts"

text \<open>As long as no client before the last one has a batch open, each client gets the message as if it were the only one, which is how the
  handlers of the other theories send it.\<close>

lemma forward_loop_separate:
  assumes "list_all (\<lambda>st. tags_after srv msg st = Tags msg) (butlast sts)"
  shows "forward_loop srv msg sts = map (SendMessage srv msg) sts"
  using assms
proof (induction sts)
  case (Cons st sts)
  then show ?case by (cases sts) auto
qed simp

section \<open>Replies to a labelled command\<close>

lemma batch_ref_nonempty [simp]: "batch_ref r \<noteq> []"
  by (simp add: batch_ref_def)

lemma do_all_append: "do_all (fs @ gs) st = (let (out, st) = do_all fs st; (out', st) = do_all gs st in (out @ out', st))"
  by (induction fs arbitrary: st) (auto simp: case_prod_beta Let_def)

lemma send_all_simps [simp]:
  "send_all srv [] st = ([], st)"
  "send_all srv (m # ms) st = (let (out, st) = SendMessage srv m st; (out', st) = send_all srv ms st in (out @ out', st))"
  by (simp_all add: send_all_def)

lemma SendMessage_caps [simp]: "dc_caps (dn_dc (snd (SendMessage srv m st))) = dc_caps (dn_dc st)"
  by (simp add: SendMessage_def Let_def case_prod_beta split: option.split)

text \<open>The messages of a list that the client may see, adapted.\<close>

definition adapted :: "irc_prefix \<Rightarrow> cap_registry \<Rightarrow> irc_message list \<Rightarrow> irc_message list" where
  "adapted srv caps ms = List.map_filter (adapt_message srv caps) ms"

lemma adapted_simps [simp]:
  "adapted srv caps [] = []"
  "adapted srv caps (m # ms) = (case adapt_message srv caps m of None \<Rightarrow> [] | Some m' \<Rightarrow> [m']) @ adapted srv caps ms"
  by (simp_all add: adapted_def List.map_filter_simps split: option.split)

lemma send_all_batch:
  assumes "dn_label st = Some lc" and "lc_label lc \<noteq> []" and "lc_batch lc \<noteq> []" and "lc_pendingMsg lc = None"
  shows "fst (send_all srv ms st) = map (with_batch (lc_batch lc)) (adapted srv (dc_caps (dn_dc st)) ms)
    \<and> dn_label (snd (send_all srv ms st)) = Some lc"
  using assms(1)
proof (induction ms arbitrary: st)
  case (Cons m ms)
  show ?case
  proof (cases "adapt_message srv (dc_caps (dn_dc st)) m")
    case None
    with Cons show ?thesis by (simp add: SendMessage_def case_prod_beta)
  next
    case (Some m')
    with Cons.IH [of "snd (SendMessage srv m st)"] Cons.prems assms(2-4) show ?thesis
      by (simp add: SendMessage_def send_labelled_def case_prod_beta)
  qed
qed (simp add: assms)

lemma send_all_pending:
  assumes "dn_label st = Some lc" and "lc_label lc \<noteq> []" and "lc_batch lc = []" and "lc_pendingMsg lc = Some m"
  shows "fst (send_all srv ms st) @ FlushBatch (snd (send_all srv ms st)) =
    (let ref = batch_ref (dc_lastBatchRef (dn_dc st) + 1); as = adapted srv (dc_caps (dn_dc st)) ms in
     if as = [] then [m\<lparr>Tags := go_put ''label'' (lc_label lc) (Tags m)\<rparr>]
     else [(mk_msg ''BATCH'' [''+'' @ ref, ''labeled-response''])\<lparr>Tags := [(''label'', lc_label lc)]\<rparr>]
       @ map (with_batch ref) (m # as) @ [mk_msg ''BATCH'' [''-'' @ ref]])"
  using assms(1)
proof (induction ms arbitrary: st)
  case Nil
  then show ?case using assms(2-4) by (simp add: FlushBatch_def)
next
  case (Cons k ms)
  show ?case
  proof (cases "adapt_message srv (dc_caps (dn_dc st)) k")
    case None
    with Cons show ?thesis by (simp add: SendMessage_def case_prod_beta)
  next
    case (Some k')
    let ?ref = "batch_ref (dc_lastBatchRef (dn_dc st) + 1)"
    let ?lc = "lc\<lparr>lc_batch := ?ref, lc_pendingMsg := None\<rparr>"
    let ?st = "snd (SendMessage srv k st)"
    have s: "SendMessage srv k st = ([(mk_msg ''BATCH'' [''+'' @ ?ref, ''labeled-response''])\<lparr>Tags := [(''label'', lc_label lc)]\<rparr>,
        with_batch ?ref m, with_batch ?ref k'], st\<lparr>dn_label := Some ?lc, dn_dc := (dn_dc st)\<lparr>dc_lastBatchRef := dc_lastBatchRef (dn_dc st) + 1\<rparr>\<rparr>)"
      using Some Cons.prems assms(2-4) by (simp add: SendMessage_def send_labelled_def Let_def)
    then have "dn_label ?st = Some ?lc" "dc_caps (dn_dc ?st) = dc_caps (dn_dc st)" by simp_all
    with send_all_batch [of ?st ?lc srv ms] assms(2) s Some show ?thesis
      by (simp add: case_prod_beta FlushBatch_def Let_def)
  qed
qed

definition labelled_reply :: "string \<Rightarrow> string \<Rightarrow> irc_message list \<Rightarrow> irc_message list" where
  "labelled_reply l ref ms =
     (case ms of
        [] \<Rightarrow> [(mk_msg ''ACK'' [])\<lparr>Tags := [(''label'', l)]\<rparr>]
      | [m] \<Rightarrow> [m\<lparr>Tags := go_put ''label'' l (Tags m)\<rparr>]
      | _ \<Rightarrow> [(mk_msg ''BATCH'' [''+'' @ ref, ''labeled-response''])\<lparr>Tags := [(''label'', l)]\<rparr>]
             @ map (with_batch ref) ms @ [mk_msg ''BATCH'' [''-'' @ ref]])"

text \<open>C14. The replies to a labelled command follow the labelled-response protocol: of the messages that the
  handler sends, those the client may see are acknowledged by \<open>ACK\<close> if there are none, carry the label
  if there is one, and are otherwise enclosed, in order, in one batch that carries the label, where every
  message that is in no inner batch is marked as part of it.\<close>

theorem labelled_replies:
  assumes "dn_label st = Some \<lparr>lc_label = l, lc_batch = [], lc_pendingMsg = None\<rparr>" and "l \<noteq> []"
  shows "fst (send_all srv ms st) @ FlushBatch (snd (send_all srv ms st)) =
    labelled_reply l (batch_ref (dc_lastBatchRef (dn_dc st) + 1)) (adapted srv (dc_caps (dn_dc st)) ms)"
  using assms(1)
proof (induction ms arbitrary: st)
  case Nil
  then show ?case using assms(2) by (simp add: FlushBatch_def labelled_reply_def)
next
  case (Cons m ms)
  show ?case
  proof (cases "adapt_message srv (dc_caps (dn_dc st)) m")
    case None
    with Cons show ?thesis by (simp add: SendMessage_def case_prod_beta)
  next
    case (Some m')
    let ?lc = "\<lparr>lc_label = l, lc_batch = [], lc_pendingMsg = Some m'\<rparr>"
    have "SendMessage srv m st = ([], st\<lparr>dn_label := Some ?lc\<rparr>)"
      using Some Cons.prems assms(2) by (simp add: SendMessage_def send_labelled_def)
    with send_all_pending [of "st\<lparr>dn_label := Some ?lc\<rparr>" ?lc m' srv ms] assms(2) Some show ?thesis
      by (cases "adapted srv (dc_caps (dn_dc st)) ms") (simp_all add: case_prod_beta labelled_reply_def Let_def)
  qed
qed

definition example_prefix :: irc_prefix where
  "example_prefix = \<lparr>Name = ''bouncer.example.org'', User = [], Host = []\<rparr>"

definition labelled_state :: down_state where
  "labelled_state = \<lparr>dn_dc = (example_dc 1 [])\<lparr>dc_caps := caps_SetEnabled (caps_SetEnabled NewCapRegistry ''batch'' True) ''message-tags'' True\<rparr>,
     dn_label = Some \<lparr>lc_label = ''x'', lc_batch = [], lc_pendingMsg = None\<rparr>, dn_shutdown = False\<rparr>"

theorem labelled_replies_witness:
  "fst (send_all example_prefix [mk_msg ''PONG'' [''a''], mk_msg ''AWAY'' [], mk_msg ''PONG'' [''b'']] labelled_state)
     @ FlushBatch (snd (send_all example_prefix [mk_msg ''PONG'' [''a''], mk_msg ''AWAY'' [], mk_msg ''PONG'' [''b'']] labelled_state)) =
   labelled_reply ''x'' ''1''
     (adapted example_prefix (dc_caps (dn_dc labelled_state)) [mk_msg ''PONG'' [''a''], mk_msg ''AWAY'' [], mk_msg ''PONG'' [''b'']])
   \<and> length (adapted example_prefix (dc_caps (dn_dc labelled_state)) [mk_msg ''PONG'' [''a''], mk_msg ''AWAY'' [], mk_msg ''PONG'' [''b'']]) = 2"
proof -
  have "batch_ref (dc_lastBatchRef (dn_dc labelled_state) + 1) = ''1''" by code_simp
  moreover have "length (adapted example_prefix (dc_caps (dn_dc labelled_state)) [mk_msg ''PONG'' [''a''], mk_msg ''AWAY'' [], mk_msg ''PONG'' [''b'']]) = 2"
    by code_simp
  ultimately show ?thesis
    using labelled_replies [of labelled_state "''x''" example_prefix "[mk_msg ''PONG'' [''a''], mk_msg ''AWAY'' [], mk_msg ''PONG'' [''b'']]"]
    by (simp add: labelled_state_def)
qed

section \<open>Batches of other clients\<close>

lemma adapt_message_plain:
  assumes "caps_IsEnabled caps ''message-tags''" and "caps_IsEnabled caps ''batch''" and "Command msg = ''PRIVMSG''"
    and "Prefix msg = Some p" and "Name p \<noteq> ''*''"
  shows "adapt_message srv caps msg = Some msg"
  using assms by (simp add: adapt_message_def gated_commands_def Let_def)

text \<open>C37. The batch of a client leaks to the clients after it: when a message is forwarded to several clients
  and the first one is in the batch of a labelled reply, the second one, which handles no labelled
  command, gets the message with the tag of a batch that was never opened on its connection.\<close>

theorem batch_tag_leaks:
  assumes "Command msg = ''PRIVMSG''" and "Prefix msg = Some p" and "Name p \<noteq> ''*''" and "Tags msg \<noteq> []" and "tag_value msg ''batch'' = []"
    and "dn_label st = Some lc" and "lc_label lc \<noteq> []" and "lc_batch lc \<noteq> []" and "lc_pendingMsg lc = None"
    and "cap_on st ''message-tags''" and "cap_on st ''batch''"
    and "dn_label st' = None" and "cap_on st' ''message-tags''" and "cap_on st' ''batch''"
  shows "map fst (forward_loop srv msg [st, st']) = [[with_batch (lc_batch lc) msg], [with_batch (lc_batch lc) msg]]
    \<and> tag_value (with_batch (lc_batch lc) msg) ''batch'' = lc_batch lc"
proof -
  have "SendMessage srv msg st = ([with_batch (lc_batch lc) msg], st)"
    using adapt_message_plain [OF assms(10,11,1-3)] assms(6-9)
    by (simp add: SendMessage_def send_labelled_def)
  moreover from this have "tags_after srv msg st = Tags (with_batch (lc_batch lc) msg)"
    using adapt_message_plain [OF assms(10,11,1-3)] assms
    by (simp add: tags_after_def shares_tags_def)
  moreover have "msg\<lparr>Tags := Tags (with_batch (lc_batch lc) msg)\<rparr> = with_batch (lc_batch lc) msg"
    by (simp add: with_batch_def)
  moreover have "SendMessage srv (with_batch (lc_batch lc) msg) st' = ([with_batch (lc_batch lc) msg], st')"
    using adapt_message_plain [OF assms(13,14), of "with_batch (lc_batch lc) msg" p] assms(1-3,12)
    by (simp add: SendMessage_def with_batch_def)
  ultimately show ?thesis using assms(5,8) by (simp add: with_batch_def tag_value_def)
qed

theorem batch_tag_leaks_witness:
  "map fst (forward_loop example_prefix ((mk_msg ''PRIVMSG'' [''#a'', ''hi''])\<lparr>Tags := [(''time'', ''0'')], Prefix := Some \<lparr>Name = ''eve'', User = [], Host = []\<rparr>\<rparr>)
     [labelled_state\<lparr>dn_label := Some \<lparr>lc_label = ''x'', lc_batch = ''7'', lc_pendingMsg = None\<rparr>\<rparr>, labelled_state\<lparr>dn_label := None\<rparr>])
   = replicate 2 [(mk_msg ''PRIVMSG'' [''#a'', ''hi''])\<lparr>Tags := [(''time'', ''0''), (''batch'', ''7'')], Prefix := Some \<lparr>Name = ''eve'', User = [], Host = []\<rparr>\<rparr>]"
  using batch_tag_leaks [of "(mk_msg ''PRIVMSG'' [''#a'', ''hi''])\<lparr>Tags := [(''time'', ''0'')], Prefix := Some \<lparr>Name = ''eve'', User = [], Host = []\<rparr>\<rparr>"
      "\<lparr>Name = ''eve'', User = [], Host = []\<rparr>" "labelled_state\<lparr>dn_label := Some \<lparr>lc_label = ''x'', lc_batch = ''7'', lc_pendingMsg = None\<rparr>\<rparr>"
      "\<lparr>lc_label = ''x'', lc_batch = ''7'', lc_pendingMsg = None\<rparr>" "labelled_state\<lparr>dn_label := None\<rparr>" example_prefix]
  by (simp add: labelled_state_def tag_value_def with_batch_def numeral_2_eq_2)

end
