(* ===== verification/Downstream_Caps.thy ===== *)
theory Downstream_Caps
  imports Downstream_Send Upstream_Caps Genmsg Go_Url
begin

text \<open>
  What a client is told about its connection, \<^verbatim>\<open>src/downstream.go\<close>: the capabilities it can enable and the
  \<open>CAP\<close> command, the ISUPPORT tokens, and the nick, host, real name, account and case mapping that
  follow the upstream connection.

  The order in which Go iterates over a map is free; the model takes the order of the table or list.
\<close>

section \<open>Environment\<close>

record message_target =
  mt_Target :: string
  mt_Pinned :: bool
  mt_Muted :: bool
  mt_Blocked :: bool

text \<open>\<open>d_user\<close> is the user of the connection, absent until it is welcomed; \<open>d_net\<close> the network object it is
  bound to.  \<open>d_prefixString\<close> is the printer of the IRC library.  \<open>d_messageTargets\<close> is what the
  database has of the targets of the network, absent when it fails.  The rest is the configuration.\<close>

record down_env =
  d_unicode :: unicode_tables
  d_srvPrefix :: irc_prefix
  d_prefixString :: "irc_prefix \<Rightarrow> string"
  d_user :: "db_user option"
  d_net :: "network option"
  d_msgStore :: msg_store_kind
  d_title :: string
  d_iconURL :: string
  d_iconPath :: string
  d_httpIngress :: string
  d_vapid :: string
  d_fileUploader :: bool
  d_messageTargets :: "message_target list option"

definition d_upstream :: "down_env \<Rightarrow> upstream_conn option" where
  "d_upstream env = (case d_net env of None \<Rightarrow> None | Some n \<Rightarrow> n_conn n)"

definition has_history :: "msg_store_kind \<Rightarrow> bool" where
  "has_history k \<longleftrightarrow> k = FSStore \<or> k = DBStore"

definition srv_msg :: "down_env \<Rightarrow> string \<Rightarrow> string list \<Rightarrow> irc_message" where
  "srv_msg env cmd ps = (mk_msg cmd ps)\<lparr>Prefix := Some (d_srvPrefix env)\<rparr>"

text \<open>An error that is sent as a message, one that ends the connection, a panic, and a step that does not return.\<close>

datatype down_error = IrcError irc_message | PlainError | PanicError | HangError

type_synonym down_result = "down_error option \<times> irc_message list \<times> down_state"

definition newUnknownCommandError :: "string \<Rightarrow> down_error" where
  "newUnknownCommandError cmd = IrcError (mk_msg ''421'' [''*'', cmd, ''Unknown command''])"

definition newNeedMoreParamsError :: "string \<Rightarrow> down_error" where
  "newNeedMoreParamsError cmd = IrcError (mk_msg ''461'' [''*'', cmd, ''Not enough parameters''])"

abbreviation down_send :: "down_env \<Rightarrow> irc_message \<Rightarrow> down_op" where
  "down_send env \<equiv> SendMessage (d_srvPrefix env)"

section \<open>Capabilities\<close>

definition permanentDownstreamCaps :: "(string, string) gomap" where
  "permanentDownstreamCaps = [(''batch'', []), (''cap-notify'', []), (''echo-message'', []), (''invite-notify'', []),
     (''server-time'', []), (''setname'', []),
     (''draft/metadata-2'', ''before-connect,max-keys=0,max-value-bytes=1''), (''draft/pre-away'', []), (''draft/read-marker'', []),
     (''draft/no-implicit-names'', []), (''draft/extended-isupport'', []),
     (''soju.im/account-required'', []), (''soju.im/bouncer-networks'', []), (''soju.im/bouncer-networks-notify'', []),
     (''soju.im/no-implicit-names'', []), (''soju.im/read'', []), (''soju.im/webpush'', [])]"

definition passthroughDownstreamCaps :: "(string, string) gomap" where
  "passthroughDownstreamCaps = [(''account-notify'', []), (''account-tag'', []), (''away-notify'', []), (''chghost'', []),
     (''extended-join'', []), (''extended-monitor'', []), (''labeled-response'', []), (''message-tags'', []), (''multi-prefix'', []),
     (''draft/extended-monitor'', []), (''draft/message-redaction'', [])]"

definition set_available :: "string \<Rightarrow> string \<Rightarrow> downstream_conn \<Rightarrow> downstream_conn" where
  "set_available name value dc = dc\<lparr>dc_caps := (dc_caps dc)\<lparr>Available := go_put name value (Available (dc_caps dc))\<rparr>\<rparr>"

definition setSupportedCap :: "down_env \<Rightarrow> string \<Rightarrow> string \<Rightarrow> down_op" where
  "setSupportedCap env name value st =
     (let changed = (go_get (Available (dc_caps (dn_dc st))) name \<noteq> Some value);
          st = st\<lparr>dn_dc := set_available name value (dn_dc st)\<rparr>
      in if \<not> cap_on st ''cap-notify'' \<or> \<not> changed then ([], st)
         else down_send env (srv_msg env ''CAP'' [dc_nick (dn_dc st), ''NEW'',
                if value \<noteq> [] \<and> dc_capVersion (dn_dc st) \<ge> 302 then name @ ''='' @ value else name]) st)"

definition unsetSupportedCap :: "down_env \<Rightarrow> string \<Rightarrow> down_op" where
  "unsetSupportedCap env name st =
     (let hasPrev = caps_IsAvailable (dc_caps (dn_dc st)) name;
          st = st\<lparr>dn_dc := (dn_dc st)\<lparr>dc_caps := caps_Del (dc_caps (dn_dc st)) name\<rparr>\<rparr>
      in if \<not> cap_on st ''cap-notify'' \<or> \<not> hasPrev then ([], st)
         else down_send env (srv_msg env ''CAP'' [dc_nick (dn_dc st), ''DEL'', name]) st)"

definition passthrough_op :: "down_env \<Rightarrow> string \<times> string \<Rightarrow> down_op" where
  "passthrough_op env kv =
     (if (case d_upstream env of None \<Rightarrow> True | Some uc \<Rightarrow> caps_IsEnabled (uc_caps uc) (fst kv))
      then setSupportedCap env (fst kv) (snd kv) else unsetSupportedCap env (fst kv))"

definition sasl_op :: "down_env \<Rightarrow> down_op" where
  "sasl_op env =
     (if (case d_upstream env of None \<Rightarrow> False | Some uc \<Rightarrow> supportsSASL (d_unicode env) uc ''PLAIN'')
      then setSupportedCap env ''sasl'' ''PLAIN,ANONYMOUS''
      else if d_net env \<noteq> None then unsetSupportedCap env ''sasl'' else (\<lambda>st. ([], st)))"

definition account_registration_op :: "down_env \<Rightarrow> down_op" where
  "account_registration_op env =
     (case d_upstream env of
        None \<Rightarrow> unsetSupportedCap env ''draft/account-registration''
      | Some uc \<Rightarrow>
          if caps_IsEnabled (uc_caps uc) ''draft/account-registration'' then
            setSupportedCap env ''draft/account-registration''
              (Join (remove1 ''before-connect''
                 (Split (case go_get (Available (uc_caps uc)) ''draft/account-registration'' of None \<Rightarrow> [] | Some v \<Rightarrow> v) CHR '','')) '','')
          else unsetSupportedCap env ''draft/account-registration'')"

definition updateSupportedCaps :: "down_env \<Rightarrow> down_op" where
  "updateSupportedCaps env = do_all
     (map (passthrough_op env) passthroughDownstreamCaps
      @ [sasl_op env, account_registration_op env,
         if has_history (d_msgStore env) \<and> d_net env \<noteq> None
         then setSupportedCap env ''draft/event-playback'' [] else unsetSupportedCap env ''draft/event-playback''])"

section \<open>The CAP command\<close>

text \<open>The requests of \<open>CAP REQ\<close>: the changes to make, \<open>None\<close> when the whole set is refused.\<close>

definition req_target :: "unicode_tables \<Rightarrow> string \<Rightarrow> string \<times> bool" where
  "req_target U s =
     (let name = ToLower U s in if HasPrefix name ''-'' then (tl name, False) else (name, True))"

definition req_refused :: "downstream_conn \<Rightarrow> string \<Rightarrow> bool \<Rightarrow> bool" where
  "req_refused dc name enable \<longleftrightarrow>
     \<not> caps_IsAvailable (dc_caps dc) name
     \<or> (name = ''cap-notify'' \<and> dc_capVersion dc \<ge> 302 \<and> \<not> enable)
     \<or> name = ''soju.im/account-required''"

fun req_loop :: "unicode_tables \<Rightarrow> downstream_conn \<Rightarrow> string list \<Rightarrow> (string, bool) gomap \<Rightarrow> (string, bool) gomap option" where
  "req_loop U dc [] m = Some m"
| "req_loop U dc (s # ss) m =
     (let (name, enable) = req_target U s in
      if enable = caps_IsEnabled (dc_caps dc) name then req_loop U dc ss m
      else if req_refused dc name enable then None
      else req_loop U dc ss (go_put name enable m))"

definition apply_caps :: "(string, bool) gomap \<Rightarrow> cap_registry \<Rightarrow> cap_registry" where
  "apply_caps m caps = foldl (\<lambda>caps (name, enable). caps_SetEnabled caps name enable) caps m"

definition set_negotiating :: "bool \<Rightarrow> downstream_conn \<Rightarrow> downstream_conn" where
  "set_negotiating b dc =
     (if dc_registered dc then dc
      else dc\<lparr>dc_registration := map_option (\<lambda>r. r\<lparr>reg_negotiatingCaps := b\<rparr>) (dc_registration dc)\<rparr>)"

definition atoi_value :: "string \<Rightarrow> int" where
  "atoi_value s = (case ParseInt64 s of Inr i \<Rightarrow> i | Inl ErrSyntax \<Rightarrow> 0 | Inl ErrRange \<Rightarrow> if HasPrefix s ''-'' then - (2 ^ 63) else 2 ^ 63 - 1)"

definition cap_LS :: "down_env \<Rightarrow> string list \<Rightarrow> down_state \<Rightarrow> down_result" where
  "cap_LS env args st =
     (let dc = dn_dc st;
          dc = (case args of [] \<Rightarrow> dc | v # _ \<Rightarrow> dc\<lparr>dc_capVersion := atoi_value v\<rparr>)
      in if (case args of [] \<Rightarrow> False | v # _ \<Rightarrow> case ParseInt64 v of Inl _ \<Rightarrow> True | Inr _ \<Rightarrow> False)
         then (Some PlainError, [], st\<lparr>dn_dc := dc\<rparr>)
         else
           let dc = (if \<not> dc_registered dc \<and> dc_capVersion dc \<ge> 302
                     then foldl (\<lambda>dc (k, v). set_available k v dc) dc passthroughDownstreamCaps else dc);
               caps = map (\<lambda>(k, v). if dc_capVersion dc \<ge> 302 \<and> v \<noteq> [] then k @ ''='' @ v else k) (Available (dc_caps dc));
               (out, st) = down_send env (srv_msg env ''CAP'' [dc_nick dc, ''LS'', Join caps '' '']) (st\<lparr>dn_dc := dc\<rparr>);
               (_, st) = set_dc (\<lambda>dc. if dc_capVersion dc \<ge> 302 then dc\<lparr>dc_caps := caps_SetEnabled (dc_caps dc) ''cap-notify'' True\<rparr> else dc) st;
               (_, st) = set_dc (set_negotiating True) st
           in (None, out, st))"

definition ERR_INVALIDCAPCMD :: string where "ERR_INVALIDCAPCMD = ''410''"

definition cap_REQ :: "down_env \<Rightarrow> string list \<Rightarrow> down_state \<Rightarrow> down_result" where
  "cap_REQ env args st =
     (case args of
        [] \<Rightarrow> (Some (IrcError (mk_msg ERR_INVALIDCAPCMD [dc_nick (dn_dc st), ''REQ'', ''Missing argument in CAP REQ command''])), [], st)
      | arg # _ \<Rightarrow>
          let res = req_loop (d_unicode env) (dn_dc st) (Fields arg) [];
              (_, st) = set_dc (\<lambda>dc. case res of None \<Rightarrow> dc | Some m \<Rightarrow> dc\<lparr>dc_caps := apply_caps m (dc_caps dc)\<rparr>) st;
              (out, st) = down_send env (srv_msg env ''CAP'' [dc_nick (dn_dc st), if res = None then ''NAK'' else ''ACK'', arg]) st;
              (_, st) = set_dc (set_negotiating True) st
          in (None, out, st))"

definition handleCap :: "down_env \<Rightarrow> irc_message \<Rightarrow> down_state \<Rightarrow> down_result" where
  "handleCap env msg st =
     (case Params msg of
        [] \<Rightarrow> (Some (newNeedMoreParamsError (Command msg)), [], st)
      | c # args \<Rightarrow>
          let cmd = ToUpper (d_unicode env) c in
          if cmd = ''LS'' then cap_LS env args st
          else if cmd = ''LIST'' then
            (let (out, st) = down_send env (srv_msg env ''CAP'' [dc_nick (dn_dc st), ''LIST'', Join (map fst (Enabled (dc_caps (dn_dc st)))) '' '']) st
             in (None, out, st))
          else if cmd = ''REQ'' then cap_REQ env args st
          else if cmd = ''END'' then (None, set_dc (set_negotiating False) st)
          else (Some (IrcError (mk_msg ERR_INVALIDCAPCMD [dc_nick (dn_dc st), cmd, ''Unknown CAP command''])), [], st))"

section \<open>ISUPPORT\<close>

definition permanentIsupport :: "(string, string option) gomap" where
  "permanentIsupport = [(''soju.im/SAFERATE'', None), (''draft/ACCOUNTREQUIRED'', None)]"

definition passthroughIsupport :: "string list" where
  "passthroughIsupport = [''ACCOUNTEXTBAN'', ''AWAYLEN'', ''BOT'', ''CASEMAPPING'', ''CHANLIMIT'', ''CHANMODES'', ''CHANNELLEN'',
     ''CHANTYPES'', ''CLIENTTAGDENY'', ''ELIST'', ''EXCEPTS'', ''EXTBAN'', ''HOSTLEN'', ''INVEX'', ''KICKLEN'', ''LINELEN'', ''MAXLIST'',
     ''MAXTARGETS'', ''MODES'', ''MONITOR'', ''NAMELEN'', ''NETWORK'', ''NICKLEN'', ''PREFIX'', ''SAFELIST'', ''STATUSMSG'', ''TARGMAX'',
     ''TOPICLEN'', ''USERLEN'', ''UTF8ONLY'', ''WHOX'', ''draft/ICON'']"

definition chatHistoryLimit :: nat where "chatHistoryLimit = 1000"

text \<open>The tokens of the bouncer itself, in the order of the code; \<open>go_put\<close> entries follow one another.\<close>

definition own_isupport :: "down_env \<Rightarrow> cap_registry \<Rightarrow> (string, string option) gomap" where
  "own_isupport env caps =
     permanentIsupport
     @ (case d_net env of Some n \<Rightarrow> [(''BOUNCER_NETID'', Some (show_int (net_ID (n_record n))))] | None \<Rightarrow>
          (if d_title env \<noteq> [] then [(''NETWORK'', Some (d_title env))] else [])
          @ (if d_iconURL env \<noteq> [] then [(''draft/ICON'', Some (d_iconURL env))]
             else if d_iconPath env \<noteq> [] then [(''draft/ICON'', Some (d_httpIngress env @ ''/icon''))] else []))
     @ (if d_user env = None then [] else
          (if d_net env = None then [(''BOT'', Some ''B''), (''CASEMAPPING'', Some ''ascii''), (''WHOX'', None), (''CHANTYPES'', Some []),
             (''LINELEN'', Some ''4096'')] else [])
          @ (if has_history (d_msgStore env) \<and> d_net env \<noteq> None
             then [(''CHATHISTORY'', Some (show_nat chatHistoryLimit)), (''MSGREFTYPES'', Some ''timestamp'')] else [])
          @ (if caps_IsEnabled caps ''soju.im/webpush'' then [(''VAPID'', Some (d_vapid env))] else [])
          @ (if d_fileUploader env then [(''soju.im/FILEHOST'', Some (d_httpIngress env @ ''/uploads''))] else []))"

definition buildIsupport :: "down_env \<Rightarrow> cap_registry \<Rightarrow> (string, string option) gomap" where
  "buildIsupport env caps =
     (case d_upstream env of
        None \<Rightarrow> own_isupport env caps
      | Some uc \<Rightarrow>
          let m = own_isupport env caps;
              m = (if go_get (uc_isupport uc) ''CLIENTTAGDENY'' = None \<and> \<not> caps_IsEnabled (uc_caps uc) ''message-tags''
                   then go_put ''CLIENTTAGDENY'' (Some ''*'') m else m)
          in foldl (\<lambda>m k. case go_get (uc_isupport uc) k of None \<Rightarrow> m | Some v \<Rightarrow> go_put k v m) m passthroughIsupport)"

definition sendIsupport :: "down_env \<Rightarrow> (string, string option) gomap \<Rightarrow> down_op" where
  "sendIsupport env m st =
     (if cap_on st ''draft/extended-isupport''
      then SendBatch (d_srvPrefix env) ''draft/isupport'' [] []
             (\<lambda>ref. map (\<lambda>msg. msg\<lparr>Tags := go_put ''batch'' ref (Tags msg)\<rparr>) (GenerateIsupport m)) st
      else send_all (d_srvPrefix env) (GenerateIsupport m) st)"

text \<open>The tokens that turn the map the client knows into the new one.\<close>

definition isupport_changes :: "(string, string option) gomap \<Rightarrow> (string, string option) gomap \<Rightarrow> (string, string option) gomap" where
  "isupport_changes old new =
     filter (\<lambda>(k, v). go_get old k \<noteq> Some v) new
     @ map (\<lambda>(k, _). (''-'' @ k, None)) (filter (\<lambda>(k, _). go_get new k = None) old)"

definition updateIsupport :: "down_env \<Rightarrow> down_op" where
  "updateIsupport env st =
     (if \<not> dc_registered (dn_dc st) \<and> \<not> cap_on st ''draft/extended-isupport'' then ([], st)
      else
        let new = buildIsupport env (dc_caps (dn_dc st));
            (out, st) = sendIsupport env (isupport_changes (dc_isupport (dn_dc st)) new) st
        in (out, st\<lparr>dn_dc := (dn_dc st)\<lparr>dc_isupport := new\<rparr>\<rparr>))"

section \<open>Following the upstream connection\<close>

text \<open>These run for a welcomed connection, which has a user.\<close>

definition updateNick :: "down_env \<Rightarrow> db_user \<Rightarrow> down_op" where
  "updateNick env usr st =
     (let nick = (case d_upstream env of Some uc \<Rightarrow> uc_nick uc | None \<Rightarrow> GetNick usr (map_option n_record (d_net env))) in
      if nick = dc_nick (dn_dc st) then ([], st)
      else do_all
        [\<lambda>st. down_send env (dc_msg (dn_dc st) ''NICK'' [nick]) st,
         set_dc (\<lambda>dc. dc\<lparr>dc_nick := nick, dc_nickCM := dc_casemap dc nick\<rparr>)] st)"

definition RPL_VISIBLEHOST :: string where "RPL_VISIBLEHOST = ''396''"

definition updateHost :: "down_env \<Rightarrow> down_op" where
  "updateHost env st =
     (case d_upstream env of
        None \<Rightarrow> ([], st)
      | Some uc \<Rightarrow>
          let dc = dn_dc st in
          if uc_hostname uc = [] \<or> (uc_hostname uc = dc_hostname dc \<and> uc_username uc = dc_username dc) then ([], st)
          else do_all
            [if cap_on st ''chghost'' then down_send env (dc_msg dc ''CHGHOST'' [uc_username uc, uc_hostname uc])
             else if uc_hostname uc \<noteq> dc_hostname dc
             then down_send env (dc_msg dc RPL_VISIBLEHOST [dc_nick dc, uc_hostname uc, ''is now your visible host''])
             else (\<lambda>st. ([], st)),
             set_dc (\<lambda>dc. dc\<lparr>dc_hostname := uc_hostname uc, dc_username := uc_username uc\<rparr>)] st)"

definition updateRealname :: "down_env \<Rightarrow> db_user \<Rightarrow> down_op" where
  "updateRealname env usr st =
     (if \<not> cap_on st ''setname'' then ([], st)
      else
        let realname = (case d_upstream env of Some uc \<Rightarrow> uc_realname uc | None \<Rightarrow> GetRealname usr (map_option n_record (d_net env))) in
        if realname = dc_realname (dn_dc st) then ([], st)
        else do_all [down_send env (dc_msg (dn_dc st) ''SETNAME'' [realname]), set_dc (\<lambda>dc. dc\<lparr>dc_realname := realname\<rparr>)] st)"

definition account_message :: "down_env \<Rightarrow> downstream_conn \<Rightarrow> string \<Rightarrow> irc_message" where
  "account_message env dc account =
     (if account \<noteq> [] then mk_msg ''900'' [dc_nick dc, d_prefixString env (dc_prefix dc), account, ''You are logged in as '' @ account]
      else mk_msg ''901'' [dc_nick dc, d_prefixString env (dc_prefix dc), ''You are logged out''])"

definition updateAccount :: "down_env \<Rightarrow> db_user \<Rightarrow> down_op" where
  "updateAccount env usr st =
     (case (if d_net env = None then Some (user_Username usr) else map_option uc_account (d_upstream env)) of
        None \<Rightarrow> ([], st)
      | Some account \<Rightarrow>
          if dc_account (dn_dc st) = account \<or> \<not> cap_on st ''sasl'' then ([], st)
          else do_all [down_send env (account_message env (dn_dc st) account), set_dc (\<lambda>dc. dc\<lparr>dc_account := account\<rparr>)] st)"

definition updateCasemapping :: "down_env \<Rightarrow> downstream_conn \<Rightarrow> downstream_conn" where
  "updateCasemapping env dc =
     (let cm = (case d_net env of None \<Rightarrow> casemapASCII | Some n \<Rightarrow> n_casemap n)
      in dc\<lparr>dc_casemap := cm, dc_nickCM := cm (dc_nick dc), dc_monitored := cmm_SetCaseMapping (dc_monitored dc) cm\<rparr>)"

section \<open>A new connection\<close>

definition serverSASLMechanisms :: "bool \<Rightarrow> bool \<Rightarrow> string list" where
  "serverSASLMechanisms plain oauthBearer = (if plain then [''PLAIN''] else []) @ (if oauthBearer then [''OAUTHBEARER''] else [])"

text \<open>\<open>mechanisms\<close> are those of the server's configuration, \<open>cert\<close> says that client certificates are accepted and
  \<open>peer\<close> that the client sent one, \<open>remote\<close> is its address.\<close>

definition new_caps :: "string list \<Rightarrow> bool \<Rightarrow> bool \<Rightarrow> msg_store_kind \<Rightarrow> cap_registry" where
  "new_caps mechanisms cert peer store =
     \<lparr>Available = permanentDownstreamCaps
        @ [(''sasl'', Join (mechanisms @ (if cert \<and> peer then [''EXTERNAL''] else [])) '','')]
        @ (if store = FSStore \<or> store = DBStore then [(''draft/chathistory'', []), (''soju.im/search'', [])] else [])
        @ (if cert then [(''soju.im/client-cert'', [])] else []),
      Enabled = []\<rparr>"

definition newDownstreamConn :: "string list \<Rightarrow> bool \<Rightarrow> bool \<Rightarrow> msg_store_kind \<Rightarrow> string \<Rightarrow> 64 word \<Rightarrow> downstream_conn" where
  "newDownstreamConn mechanisms cert peer store remote i = \<lparr>dc_id = i, dc_closed = False, dc_registered = False, dc_network = None,
     dc_clientName = [], dc_impersonating = False, dc_nick = ''*'', dc_nickCM = ''*'', dc_realname = [], dc_username = ''~u'',
     dc_hostname = (case SplitHostPort remote of Some (host, _) \<Rightarrow> host | None \<Rightarrow> remote),
     dc_account = [], dc_away = None, dc_capVersion = 0, dc_caps = new_caps mechanisms cert peer store, dc_isupport = [], dc_sasl = None,
     dc_registration = Some \<lparr>reg_nick = [], reg_username = [], reg_pass = [], reg_networkName = [], reg_networkID = 0,
        reg_negotiatingCaps = False, reg_authUsername = []\<rparr>,
     dc_lastBatchRef = 0, dc_casemap = casemapASCII, dc_monitored = NewCaseMappingMap casemapASCII, dc_metadataSubs = []\<rparr>"

section \<open>Enabled capabilities are available\<close>

definition caps_ok :: "cap_registry \<Rightarrow> bool" where
  "caps_ok caps \<longleftrightarrow> list_all (\<lambda>(c, _). caps_IsAvailable caps c) (Enabled caps) \<and> caps_IsAvailable caps ''cap-notify''"

lemma caps_ok_iff: "caps_ok caps \<longleftrightarrow> (\<forall>c. caps_IsEnabled caps c \<longrightarrow> caps_IsAvailable caps c) \<and> caps_IsAvailable caps ''cap-notify''"
  by (auto simp: caps_ok_def list_all_iff caps_IsEnabled_def map_of_eq_None_iff)

abbreviation dn_caps :: "down_state \<Rightarrow> cap_registry" where
  "dn_caps st \<equiv> dc_caps (dn_dc st)"

definition keeps_caps :: "down_op \<Rightarrow> bool" where
  "keeps_caps f \<longleftrightarrow> (\<forall>st. caps_ok (dn_caps st) \<longrightarrow> caps_ok (dn_caps (snd (f st))))"

lemma keeps_capsI: "(\<And>st. caps_ok (dn_caps st) \<Longrightarrow> caps_ok (dn_caps (snd (f st)))) \<Longrightarrow> keeps_caps f"
  by (simp add: keeps_caps_def)

lemma keeps_capsD: "keeps_caps f \<Longrightarrow> caps_ok (dn_caps st) \<Longrightarrow> caps_ok (dn_caps (snd (f st)))"
  by (simp add: keeps_caps_def)

lemma do_all_keeps: "list_all keeps_caps fs \<Longrightarrow> keeps_caps (do_all fs)"
  by (induction fs) (auto simp: keeps_caps_def case_prod_beta Let_def)

lemma keeps_caps_nothing: "keeps_caps (\<lambda>st. ([], st))"
  by (simp add: keeps_caps_def)

lemma available_put: "caps_IsAvailable (caps\<lparr>Available := go_put n v (Available caps)\<rparr>) c \<longleftrightarrow> c = n \<or> caps_IsAvailable caps c"
  "caps_IsEnabled (caps\<lparr>Available := go_put n v (Available caps)\<rparr>) c \<longleftrightarrow> caps_IsEnabled caps c"
  by (auto simp: caps_IsAvailable_def caps_IsEnabled_def)

lemma setSupportedCap_keeps: "keeps_caps (setSupportedCap env n v)"
  by (rule keeps_capsI) (auto simp: setSupportedCap_def set_available_def Let_def caps_ok_iff available_put)

lemma unsetSupportedCap_keeps: "n \<noteq> ''cap-notify'' \<Longrightarrow> keeps_caps (unsetSupportedCap env n)"
  by (rule keeps_capsI) (auto simp: unsetSupportedCap_def Let_def caps_ok_iff)

lemma updateSupportedCaps_keeps: "keeps_caps (updateSupportedCaps env)"
proof -
  have "keeps_caps (passthrough_op env kv)" if "kv \<in> set passthroughDownstreamCaps" for kv
    using that by (auto simp: passthrough_op_def passthroughDownstreamCaps_def intro!: setSupportedCap_keeps unsetSupportedCap_keeps)
  moreover have "keeps_caps (sasl_op env)"
    by (simp add: sasl_op_def setSupportedCap_keeps unsetSupportedCap_keeps keeps_caps_nothing)
  moreover have "keeps_caps (account_registration_op env)"
    by (simp add: account_registration_op_def setSupportedCap_keeps unsetSupportedCap_keeps split: option.split)
  ultimately show ?thesis
    unfolding updateSupportedCaps_def
    by (intro do_all_keeps) (auto simp: list_all_iff setSupportedCap_keeps unsetSupportedCap_keeps)
qed

lemma foldl_available: "caps_ok (dc_caps dc) \<Longrightarrow> caps_ok (dc_caps (foldl (\<lambda>dc (k, v). set_available k v dc) dc kvs))"
  by (induction kvs arbitrary: dc) (auto simp: set_available_def caps_ok_iff available_put)

lemma set_negotiating_caps [simp]: "dc_caps (set_negotiating b dc) = dc_caps dc"
  by (simp add: set_negotiating_def)

lemma req_loop_Cons:
  "req_target U s = (n, e) \<Longrightarrow> req_loop U dc (s # ss) m =
    (if e = caps_IsEnabled (dc_caps dc) n then req_loop U dc ss m
     else if req_refused dc n e then None else req_loop U dc ss (go_put n e m))"
  by simp

lemma req_loop_available:
  "req_loop U dc ss m = Some m' \<Longrightarrow> list_all (\<lambda>(n, e). e \<longrightarrow> caps_IsAvailable (dc_caps dc) n) m
    \<Longrightarrow> list_all (\<lambda>(n, e). e \<longrightarrow> caps_IsAvailable (dc_caps dc) n) m'"
proof (induction ss arbitrary: m)
  case (Cons s ss)
  obtain n e where ne: "req_target U s = (n, e)" by fastforce
  show ?case
    using Cons by (auto simp: req_loop_Cons [OF ne] req_refused_def list_all_go_put simp del: req_loop.simps(2) split: if_splits)
qed simp

lemma apply_caps_ok:
  "list_all (\<lambda>(n, e). e \<longrightarrow> caps_IsAvailable caps n) m \<Longrightarrow> caps_ok caps \<Longrightarrow> caps_ok (apply_caps m caps)"
proof (induction m arbitrary: caps)
  case (Cons ne m)
  obtain n e where ne: "ne = (n, e)" by fastforce
  have "caps_ok (caps_SetEnabled caps n e)" using Cons.prems ne by (auto simp: caps_ok_iff)
  with Cons.IH [of "caps_SetEnabled caps n e"] Cons.prems show ?case
    by (simp add: apply_caps_def ne)
qed (simp add: apply_caps_def)

lemma cap_LS_keeps: "caps_ok (dn_caps st) \<Longrightarrow> caps_ok (dn_caps (snd (snd (cap_LS env args st))))"
proof -
  assume ok: "caps_ok (dn_caps st)"
  have e: "caps_ok (caps_SetEnabled caps ''cap-notify'' True)" if "caps_ok caps" for caps
    using that by (auto simp: caps_ok_iff)
  have "caps_ok (dc_caps (if b then foldl (\<lambda>dc (k, v). set_available k v dc) dc passthroughDownstreamCaps else dc))"
    if "dc_caps dc = dn_caps st" for b dc
    using foldl_available [of dc] that ok by simp
  with ok e show ?thesis
    by (auto simp: cap_LS_def Let_def case_prod_beta set_dc_def split: list.split)
qed

lemma handleCap_keeps: "caps_ok (dn_caps st) \<Longrightarrow> caps_ok (dn_caps (snd (snd (handleCap env msg st))))"
proof -
  assume ok: "caps_ok (dn_caps st)"
  have "caps_ok (apply_caps m (dn_caps st))" if "req_loop U (dn_dc st) ss [] = Some m" for U ss m
    using req_loop_available [OF that] apply_caps_ok ok by simp
  with ok have "caps_ok (dn_caps (snd (snd (cap_REQ env args st))))" for args
    by (auto simp: cap_REQ_def Let_def case_prod_beta set_dc_def split: list.split option.split)
  with ok cap_LS_keeps [OF ok] show ?thesis
    by (auto simp: handleCap_def Let_def case_prod_beta set_dc_def split: list.split)
qed

text \<open>A \<open>CAP\<close> command of the client, or a change of the upstream connection.\<close>

fun caps_step :: "down_env \<times> irc_message option \<Rightarrow> down_state \<Rightarrow> down_state" where
  "caps_step (env, Some msg) st = snd (snd (handleCap env msg st))"
| "caps_step (env, None) st = snd (updateSupportedCaps env st)"

interpretation client_caps: step_invariant caps_step "\<lambda>_ _. True" "\<lambda>st. caps_ok (dn_caps st)"
proof
  fix x st assume "caps_ok (dn_caps st)"
  then show "caps_ok (dn_caps (caps_step x st))"
    by (cases x; cases "snd x") (auto simp: handleCap_keeps keeps_capsD [OF updateSupportedCaps_keeps])
qed

text \<open>C16. Whatever capabilities a client asks for and however the capabilities of the server change, the client
  never has a capability enabled that it was not offered, or that was withdrawn; and the notification
  of such changes cannot be withdrawn.\<close>

theorem enabled_caps_available:
  assumes "dn_dc st = newDownstreamConn mechanisms cert peer store remote i"
  shows "caps_ok (dn_caps (run_steps caps_step xs st))"
proof (rule client_caps.run_invariant)
  show "allowed_run caps_step (\<lambda>_ _. True) xs st" by (induction xs arbitrary: st) simp_all
  show "caps_ok (dn_caps st)"
    by (simp add: assms newDownstreamConn_def new_caps_def caps_ok_def caps_IsAvailable_def permanentDownstreamCaps_def)
qed

theorem enabled_caps_available_witness:
  "caps_ok (dn_caps (run_steps caps_step [] \<lparr>dn_dc = newDownstreamConn [''PLAIN''] False False NoStore ''192.0.2.1:1234'' 1, dn_label = None, dn_shutdown = False\<rparr>))"
  by (rule enabled_caps_available) simp

section \<open>Requests are atomic\<close>

definition request_ok :: "unicode_tables \<Rightarrow> downstream_conn \<Rightarrow> string \<Rightarrow> bool" where
  "request_ok U dc s \<longleftrightarrow> (case req_target U s of (n, e) \<Rightarrow> e = caps_IsEnabled (dc_caps dc) n \<or> \<not> req_refused dc n e)"

lemma req_loop_None: "\<not> list_all (request_ok U dc) ss \<Longrightarrow> req_loop U dc ss m = None"
proof (induction ss arbitrary: m)
  case (Cons s ss)
  obtain n e where ne: "req_target U s = (n, e)" by fastforce
  show ?case using Cons by (auto simp: req_loop_Cons [OF ne] request_ok_def ne simp del: req_loop.simps(2))
qed simp

lemma req_loop_Some:
  "list_all (request_ok U dc) ss \<Longrightarrow> distinct (map (fst \<circ> req_target U) ss)
    \<Longrightarrow> \<exists>m'. req_loop U dc ss m = Some m' \<and> (\<forall>c. go_get m' c =
        (case map_of (map (req_target U) ss) c of Some e \<Rightarrow> if e = caps_IsEnabled (dc_caps dc) c then go_get m c else Some e | None \<Rightarrow> go_get m c))"
proof (induction ss arbitrary: m)
  case (Cons s ss)
  obtain n e where ne: "req_target U s = (n, e)" by fastforce
  have new: "map_of (map (req_target U) ss) n = None"
    using Cons.prems(2) by (auto simp: map_of_eq_None_iff ne image_iff)
  show ?case
  proof (cases "e = caps_IsEnabled (dc_caps dc) n")
    case True
    with Cons.IH [of m] Cons.prems obtain m' where m': "req_loop U dc ss m = Some m'"
      "\<forall>c. go_get m' c = (case map_of (map (req_target U) ss) c of Some e \<Rightarrow> if e = caps_IsEnabled (dc_caps dc) c then go_get m c else Some e | None \<Rightarrow> go_get m c)"
      by auto
    with True new show ?thesis by (intro exI [of _ m']) (simp add: req_loop_Cons [OF ne] ne del: req_loop.simps(2))
  next
    case False
    with Cons.IH [of "go_put n e m"] Cons.prems obtain m' where m': "req_loop U dc ss (go_put n e m) = Some m'"
      "\<forall>c. go_get m' c = (case map_of (map (req_target U) ss) c of Some e' \<Rightarrow> if e' = caps_IsEnabled (dc_caps dc) c then go_get (go_put n e m) c else Some e' | None \<Rightarrow> go_get (go_put n e m) c)"
      by auto
    have "\<not> req_refused dc n e" using Cons.prems(1) False by (simp add: request_ok_def ne)
    with False m' new show ?thesis
      by (intro exI [of _ m']) (auto simp: req_loop_Cons [OF ne] ne simp del: req_loop.simps(2) split: option.split)
  qed
qed simp

lemma req_loop_gomap: "req_loop U dc ss m = Some m' \<Longrightarrow> gomap_ok m \<Longrightarrow> gomap_ok m'"
proof (induction ss arbitrary: m)
  case (Cons s ss)
  obtain n e where ne: "req_target U s = (n, e)" by fastforce
  show ?case using Cons by (auto simp: req_loop_Cons [OF ne] simp del: req_loop.simps(2) split: if_splits)
qed simp

lemma apply_caps_get:
  "gomap_ok m \<Longrightarrow> caps_IsEnabled (apply_caps m caps) c = (case go_get m c of Some e \<Rightarrow> e | None \<Rightarrow> caps_IsEnabled caps c)"
proof (induction m arbitrary: caps)
  case (Cons ne m)
  obtain n e where ne: "ne = (n, e)" by fastforce
  have "gomap_ok m" and n: "go_get m n = None" using Cons.prems by (auto simp: gomap_ok_def ne map_of_eq_None_iff)
  from Cons.IH [OF this(1), of "caps_SetEnabled caps n e"] n show ?case
    by (auto simp: apply_caps_def ne split: option.split)
qed (simp add: apply_caps_def)

text \<open>C15. A request for capabilities is granted as a whole or not at all: when every change it asks for is
  permitted the client is sent \<open>ACK\<close> and has exactly the requested capabilities switched, otherwise it is
  sent \<open>NAK\<close> and no capability changes.\<close>

theorem cap_request_atomic:
  assumes "distinct (map (fst \<circ> req_target (d_unicode env)) (Fields arg))" and "dn_label st = None" and "Name (d_srvPrefix env) \<noteq> ''*''"
  shows "let (err, out, st') = cap_REQ env [arg] st; ok = list_all (request_ok (d_unicode env) (dn_dc st)) (Fields arg)
    in err = None
     \<and> out = [srv_msg env ''CAP'' [dc_nick (dn_dc st), if ok then ''ACK'' else ''NAK'', arg]]
     \<and> (if ok then \<forall>c. caps_IsEnabled (dn_caps st') c =
            (case map_of (map (req_target (d_unicode env)) (Fields arg)) c of Some e \<Rightarrow> e | None \<Rightarrow> caps_IsEnabled (dn_caps st) c)
        else dn_caps st' = dn_caps st)"
proof -
  let ?U = "d_unicode env" and ?dc = "dn_dc st"
  have send: "down_send env (srv_msg env ''CAP'' ps) st1 = ([srv_msg env ''CAP'' ps], st1)" if "dn_label st1 = None" for ps st1
    using that assms(3) by (simp add: SendMessage_def adapt_message_def srv_msg_def gated_commands_def tag_value_def isNumeric_def)
  show ?thesis
  proof (cases "list_all (request_ok ?U ?dc) (Fields arg)")
    case True
    from req_loop_Some [OF this assms(1), of "[]"] obtain m where m: "req_loop ?U ?dc (Fields arg) [] = Some m"
      "\<forall>c. go_get m c = (case map_of (map (req_target ?U) (Fields arg)) c of Some e \<Rightarrow> if e = caps_IsEnabled (dc_caps ?dc) c then go_get [] c else Some e | None \<Rightarrow> go_get [] c)"
      by blast
    have "gomap_ok m" using req_loop_gomap [OF m(1)] by simp
    then have "caps_IsEnabled (apply_caps m (dc_caps ?dc)) c =
        (case map_of (map (req_target ?U) (Fields arg)) c of Some e \<Rightarrow> e | None \<Rightarrow> caps_IsEnabled (dc_caps ?dc) c)" for c
      using m(2) by (simp add: apply_caps_get split: option.split)
    with True m(1) assms(2) show ?thesis by (simp add: cap_REQ_def set_dc_def send Let_def)
  next
    case False
    with assms(2) show ?thesis by (simp add: cap_REQ_def set_dc_def send req_loop_None Let_def)
  qed
qed

definition example_down_env :: down_env where
  "example_down_env = \<lparr>d_unicode = no_tables, d_srvPrefix = example_prefix, d_prefixString = Name, d_user = None, d_net = None,
     d_msgStore = NoStore, d_title = [], d_iconURL = [], d_iconPath = [], d_httpIngress = [], d_vapid = [], d_fileUploader = False, d_messageTargets = Some []\<rparr>"

definition new_client :: down_state where
  "new_client = \<lparr>dn_dc = newDownstreamConn [''PLAIN''] False False NoStore ''192.0.2.1:1234'' 1, dn_label = None, dn_shutdown = False\<rparr>"

theorem cap_request_atomic_witness:
  "caps_IsEnabled (dn_caps (snd (snd (cap_REQ example_down_env [''sasl batch''] new_client)))) ''sasl''
   \<and> dn_caps (snd (snd (cap_REQ example_down_env [''sasl x''] new_client))) = dn_caps new_client"
proof -
  have f: "Fields ''sasl batch'' = [''sasl'', ''batch'']" "Fields ''sasl x'' = [''sasl'', ''x'']"
    using Fields_Join [of "[''sasl'', ''batch'']"] Fields_Join [of "[''sasl'', ''x'']"] by (simp_all add: plain_word_def IsSpace_def)
  have r: "req_target no_tables ''sasl'' = (''sasl'', True)" "req_target no_tables ''batch'' = (''batch'', True)" "req_target no_tables ''x'' = (''x'', True)"
    by (simp_all add: req_target_def ToLower_lower HasPrefix_def)
  have ok: "request_ok no_tables (dn_dc new_client) ''sasl''" "request_ok no_tables (dn_dc new_client) ''batch''" "\<not> request_ok no_tables (dn_dc new_client) ''x''"
    by (simp_all add: request_ok_def r req_refused_def new_client_def newDownstreamConn_def new_caps_def caps_IsAvailable_def caps_IsEnabled_def permanentDownstreamCaps_def)
  have e: "d_unicode example_down_env = no_tables" "dn_label new_client = None" "Name (d_srvPrefix example_down_env) \<noteq> ''*''"
    by (simp_all add: example_down_env_def new_client_def example_prefix_def)
  show ?thesis
    using cap_request_atomic [of example_down_env "''sasl batch''" new_client] cap_request_atomic [of example_down_env "''sasl x''" new_client]
    by (simp add: f r ok e case_prod_beta Let_def)
qed

section \<open>Updates of ISUPPORT\<close>

text \<open>What a client makes of a token: a leading dash withdraws it.\<close>

definition apply_token :: "(string, string option) gomap \<Rightarrow> string \<times> string option \<Rightarrow> (string, string option) gomap" where
  "apply_token m kv = (if HasPrefix (fst kv) ''-'' then go_del (tl (fst kv)) m else go_put (fst kv) (snd kv) m)"

lemma apply_removals:
  "go_get (foldl apply_token m (map (\<lambda>(k, _). (''-'' @ k, None)) kvs)) c = (if c \<in> fst ` set kvs then None else go_get m c)"
  by (induction kvs arbitrary: m) (auto simp: apply_token_def HasPrefix_single)

lemma apply_puts:
  "gomap_ok kvs \<Longrightarrow> list_all (\<lambda>(k, _). \<not> HasPrefix k ''-'') kvs \<Longrightarrow>
    go_get (foldl apply_token m kvs) c = (case go_get kvs c of Some v \<Rightarrow> Some v | None \<Rightarrow> go_get m c)"
proof (induction kvs arbitrary: m)
  case (Cons kv kvs)
  obtain k v where kv: "kv = (k, v)" by fastforce
  have "gomap_ok kvs" "go_get kvs k = None" using Cons.prems(1) by (auto simp: gomap_ok_def kv map_of_eq_None_iff)
  with Cons.IH [of "go_put k v m"] Cons.prems(2) show ?case by (auto simp: kv apply_token_def split: option.split)
qed simp

text \<open>The ISUPPORT updates keep the client in step: a client that applies the tokens it is sent to the map it
  knew has exactly the map that the bouncer now keeps for it.\<close>

theorem isupport_changes_correct:
  assumes "gomap_ok old" and "gomap_ok new" and "list_all (\<lambda>(k, _). \<not> HasPrefix k ''-'') new"
  shows "go_get (foldl apply_token old (isupport_changes old new)) c = go_get new c"
proof -
  let ?put = "filter (\<lambda>(k, v). go_get old k \<noteq> Some v) new" and ?del = "filter (\<lambda>(k, _). go_get new k = None) old"
  have g: "gomap_ok ?put" using assms(2) by (auto simp: gomap_ok_def distinct_map inj_on_def)
  have "list_all (\<lambda>(k, _). \<not> HasPrefix k ''-'') ?put" using assms(3) by (auto simp: list_all_iff)
  note p = apply_puts [OF g this, of old c]
  have put: "go_get ?put c = (if go_get new c = go_get old c then None else go_get new c)"
  proof (cases "go_get new c")
    case None
    then have "go_get ?put c = None" unfolding map_of_eq_None_iff by auto
    with None show ?thesis by simp
  next
    case (Some v)
    then have mem: "(c, w) \<in> set new \<longleftrightarrow> w = v" for w using gomap_ok_mem [OF assms(2)] by auto
    have "go_get ?put c = Some w \<longleftrightarrow> w = v \<and> go_get old c \<noteq> Some v" for w
      using gomap_ok_mem [OF g, of c w] mem by auto
    with Some show ?thesis by (metis (lifting) not_Some_eq)
  qed
  have "c \<in> fst ` set ?del \<longleftrightarrow> go_get new c = None \<and> go_get old c \<noteq> None"
    by (force simp: map_of_eq_None_iff image_iff)
  then show ?thesis
    unfolding isupport_changes_def foldl_append apply_removals p put by (auto split: option.split)
qed

theorem isupport_changes_correct_witness:
  "go_get (foldl apply_token [(''A'', None), (''B'', Some ''1'')] (isupport_changes [(''A'', None), (''B'', Some ''1'')] [(''B'', Some ''2'')])) ''A'' = None"
  using isupport_changes_correct [of "[(''A'', None), (''B'', Some ''1'')]" "[(''B'', Some ''2'')]" "''A''"]
  by (simp add: gomap_ok_def HasPrefix_single)

end
