(* ===== verification/Downstream_Register.thy ===== *)
theory Downstream_Register
  imports Downstream_Caps
begin

text \<open>
  Registration of a client, \<^verbatim>\<open>src/downstream.go\<close>: the commands before registration, SASL and password
  authentication, and \<open>runUntilRegistered\<close>, which ends with a registered connection or an error.

  The authentication back ends, the database and the SASL library are parameters: \<open>auth_env\<close> has what
  they answer.
\<close>

section \<open>Authentication back ends\<close>

text \<open>\<open>AuthErr\<close> is an \<open>auth.Error\<close> with its external message, \<open>OtherErr\<close> any other error.\<close>

datatype auth_err = AuthErr string | OtherErr

text \<open>\<open>a_saslNext\<close> is the server side of a mechanism on the responses so far: the challenge, whether the exchange
  is done, and the credentials it has called back with; absent for an error.  \<open>a_deviceUser\<close> finds the
  user of a client certificate, \<open>a_storeDevice\<close> marks the certificate as used.\<close>

record auth_env =
  a_plain :: "(string \<Rightarrow> string \<Rightarrow> auth_err option) option"
  a_oauthBearer :: "(string \<Rightarrow> auth_err + string) option"
  a_clientCertAuth :: bool
  a_peerCert :: "string option"
  a_deviceUser :: "string \<Rightarrow> auth_err + int option"
  a_username :: "int \<Rightarrow> auth_err + string"
  a_storeDevice :: "int \<Rightarrow> auth_err option"
  a_getUser :: "string \<Rightarrow> auth_err + db_user"
  a_saslNext :: "string \<Rightarrow> string option list \<Rightarrow> (string \<times> bool \<times> (string \<times> string \<times> string) option \<times> (string \<times> string) option) option"

definition authErrorReason :: "auth_err \<Rightarrow> string" where
  "authErrorReason e = (case e of AuthErr m \<Rightarrow> m | OtherErr \<Rightarrow> ''Authentication failed'')"

section \<open>User names\<close>

definition is_sep :: "char \<Rightarrow> bool" where
  "is_sep c \<longleftrightarrow> c = CHR ''/'' \<or> c = CHR ''@''"

definition index_sep :: "string \<Rightarrow> nat option" where
  "index_sep s = (if list_ex is_sep s then Some (length (takeWhile (\<lambda>c. \<not> is_sep c) s)) else None)"

definition last_index_sep :: "string \<Rightarrow> nat option" where
  "last_index_sep s = map_option (\<lambda>i. length s - 1 - i) (index_sep (rev s))"

definition unmarshalUsername :: "string \<Rightarrow> string \<times> string \<times> string" where
  "unmarshalUsername raw =
     (case (index_sep raw, last_index_sep raw) of
        (Some i, Some j) \<Rightarrow>
          let (client, network) = (if raw ! j = CHR ''@'' then (drop (Suc j) raw, []) else ([], drop (Suc j) raw));
              mid = take (j - Suc i) (drop (Suc i) raw);
              (client, network) = (if i < j then (if raw ! i = CHR ''@'' then (mid, network) else (client, mid)) else (client, network))
          in (take i raw, client, network)
      | _ \<Rightarrow> (raw, [], []))"

section \<open>State updates\<close>

definition set_reg :: "(downstream_registration \<Rightarrow> downstream_registration) \<Rightarrow> downstream_conn \<Rightarrow> downstream_conn" where
  "set_reg f dc = dc\<lparr>dc_registration := map_option f (dc_registration dc)\<rparr>"

definition setAuthUsername :: "string \<Rightarrow> string \<Rightarrow> string \<Rightarrow> downstream_conn \<Rightarrow> downstream_conn" where
  "setAuthUsername username client network dc =
     set_reg (\<lambda>r. r\<lparr>reg_authUsername := username, reg_networkName := network\<rparr>) (dc\<lparr>dc_clientName := client\<rparr>)"

definition dn_upd :: "(downstream_conn \<Rightarrow> downstream_conn) \<Rightarrow> down_state \<Rightarrow> down_state" where
  "dn_upd f st = st\<lparr>dn_dc := f (dn_dc st)\<rparr>"

section \<open>SASL\<close>

definition ERR_SASLFAIL :: string where "ERR_SASLFAIL = ''904''"

definition sasl_fail :: "downstream_conn \<Rightarrow> string \<Rightarrow> down_error" where
  "sasl_fail dc s = IrcError (mk_msg ERR_SASLFAIL [dc_nick dc, s])"

definition endSASL :: "down_env \<Rightarrow> irc_message option \<Rightarrow> down_op" where
  "endSASL env msg st =
     (if dc_sasl (dn_dc st) = None then ([], st)
      else
        let st = dn_upd (\<lambda>dc. dc\<lparr>dc_sasl := None\<rparr>) st
        in down_send env (case msg of Some m \<Rightarrow> m
             | None \<Rightarrow> mk_msg RPL_SASLSUCCESS [dc_nick (dn_dc st), ''SASL authentication successful'']) st)"

definition sasl_mechanisms :: "string list" where
  "sasl_mechanisms = [''PLAIN'', ''OAUTHBEARER'', ''ANONYMOUS'', ''EXTERNAL'']"

definition maxSASLResponse :: nat where "maxSASLResponse = 10 * 1024"

text \<open>The response that a command adds to the exchange: an error, a wait for the next chunk, or the exchange
  with the new response.\<close>

definition sasl_response :: "down_env \<Rightarrow> downstream_conn \<Rightarrow> string \<Rightarrow> down_error + downstream_sasl \<times> bool" where
  "sasl_response env dc param =
     (case dc_sasl dc of
        None \<Rightarrow>
          let mech = ToUpper (d_unicode env) param in
          if List.member sasl_mechanisms mech
          then Inr (\<lparr>ds_mechanism = mech, ds_responses = [None], ds_plain = None, ds_oauthBearer = None, ds_pendingResp = []\<rparr>, True)
          else Inl (sasl_fail dc ''Unsupported SASL mechanism'')
      | Some sasl \<Rightarrow>
          let chunk = (if param = ''+'' then [] else param) in
          if length (ds_pendingResp sasl) + length chunk > maxSASLResponse then Inl (sasl_fail dc ''Response too long'')
          else
            let sasl = sasl\<lparr>ds_pendingResp := ds_pendingResp sasl @ chunk\<rparr> in
            if length chunk = MaxSASLLength then Inr (sasl, False)
            else (case std_decode (ds_pendingResp sasl) of
                None \<Rightarrow> Inl (sasl_fail dc ''Invalid base64-encoded response'')
              | Some resp \<Rightarrow> Inr (sasl\<lparr>ds_pendingResp := [], ds_responses := ds_responses sasl @ [Some resp]\<rparr>, True)))"

text \<open>An error ends the exchange; the third component are the credentials of an exchange that is done.\<close>

definition handleAuthenticate ::
    "down_env \<Rightarrow> auth_env \<Rightarrow> irc_message \<Rightarrow> down_state \<Rightarrow> down_error option \<times> irc_message list \<times> downstream_sasl option \<times> down_state" where
  "handleAuthenticate env auth msg st =
     (let fail = (\<lambda>e. (Some e, [], None, dn_upd (\<lambda>dc. dc\<lparr>dc_sasl := None\<rparr>) st)); dc = dn_dc st in
      if \<not> cap_on st ''sasl'' then fail (sasl_fail dc ''AUTHENTICATE requires the \"sasl\" capability to be enabled'')
      else (case Params msg of
          [] \<Rightarrow> fail (sasl_fail dc ''Missing AUTHENTICATE argument'')
        | param # _ \<Rightarrow>
            if param = ''*'' then fail (IrcError (mk_msg ERR_SASLABORTED [dc_nick dc, ''SASL authentication aborted'']))
            else (case sasl_response env dc param of
                Inl e \<Rightarrow> fail e
              | Inr (sasl, complete) \<Rightarrow>
                  if \<not> complete then (None, [], None, dn_upd (\<lambda>dc. dc\<lparr>dc_sasl := Some sasl\<rparr>) st)
                  else (case a_saslNext auth (ds_mechanism sasl) (ds_responses sasl) of
                      None \<Rightarrow> fail PlainError
                    | Some (challenge, done, plain, oauth) \<Rightarrow>
                        let sasl = sasl\<lparr>ds_plain := (if plain = None then ds_plain sasl else plain),
                                        ds_oauthBearer := (if oauth = None then ds_oauthBearer sasl else oauth)\<rparr>;
                            st = dn_upd (\<lambda>dc. dc\<lparr>dc_sasl := Some sasl\<rparr>) st
                        in if done then (None, [], Some sasl, st)
                           else
                             let (out, st) = down_send env (mk_msg ''AUTHENTICATE'' [if challenge = [] then ''+'' else std_encode challenge]) st
                             in (None, out, None, st)))))"

text \<open>Checking the credentials.  An error is the reason that the client is given; the error of the PLAIN
  back end is wrapped, which hides its external message.\<close>

datatype auth_result = AuthFailed string | AuthPanic | Authenticated string string string bool

definition auth_plain :: "auth_env \<Rightarrow> string \<times> string \<times> string \<Rightarrow> auth_result" where
  "auth_plain auth cred =
     (case cred of (identity, user, password) \<Rightarrow>
        case unmarshalUsername user of (username, client, network) \<Rightarrow>
          (case a_plain auth of
             None \<Rightarrow> AuthFailed (authErrorReason OtherErr)
           | Some check \<Rightarrow>
               if check username password \<noteq> None then AuthFailed (authErrorReason OtherErr)
               else if identity = [] \<or> identity = user then Authenticated username client network False
               else (case a_getUser auth username of
                   Inl _ \<Rightarrow> AuthFailed (authErrorReason OtherErr)
                 | Inr u \<Rightarrow>
                     if \<not> user_Admin u then AuthFailed (authErrorReason OtherErr)
                     else (case unmarshalUsername identity of (username, client, network) \<Rightarrow>
                         (case a_getUser auth username of
                            Inl _ \<Rightarrow> AuthFailed (authErrorReason OtherErr)
                          | Inr _ \<Rightarrow> Authenticated username client network True)))))"

definition auth_oauthBearer :: "auth_env \<Rightarrow> (string \<times> string) option \<Rightarrow> auth_result" where
  "auth_oauthBearer auth cred =
     (case (a_oauthBearer auth, cred) of
        (None, _) \<Rightarrow> AuthFailed (authErrorReason OtherErr)
      | (Some _, None) \<Rightarrow> AuthPanic
      | (Some check, Some (claimed, token)) \<Rightarrow>
          (case check token of
             Inl e \<Rightarrow> AuthFailed (authErrorReason e)
           | Inr username \<Rightarrow>
               if claimed \<noteq> [] \<and> claimed \<noteq> username then AuthFailed (authErrorReason OtherErr)
               else Authenticated username [] [] False))"

definition auth_external :: "auth_env \<Rightarrow> auth_result" where
  "auth_external auth =
     (if \<not> a_clientCertAuth auth then AuthFailed (authErrorReason OtherErr)
      else (case a_peerCert auth of
          None \<Rightarrow> AuthFailed (authErrorReason OtherErr)
        | Some cert \<Rightarrow>
            (case a_deviceUser auth cert of
               Inl e \<Rightarrow> AuthFailed (authErrorReason e)
             | Inr None \<Rightarrow> AuthFailed (authErrorReason OtherErr)
             | Inr (Some uid) \<Rightarrow>
                 (case a_username auth uid of
                    Inl e \<Rightarrow> AuthFailed (authErrorReason e)
                  | Inr username \<Rightarrow>
                      if username = [] then Authenticated [] [] [] False
                      else (case a_storeDevice auth uid of
                          Some e \<Rightarrow> AuthFailed (authErrorReason e)
                        | None \<Rightarrow> Authenticated username [] [] False)))))"

text \<open>A PLAIN or OAUTHBEARER exchange that is done without credentials is a nil dereference.\<close>

definition check_credentials :: "auth_env \<Rightarrow> downstream_sasl \<Rightarrow> auth_result" where
  "check_credentials auth sasl =
     (if ds_mechanism sasl = ''PLAIN'' then (case ds_plain sasl of None \<Rightarrow> AuthPanic | Some cred \<Rightarrow> auth_plain auth cred)
      else if ds_mechanism sasl = ''OAUTHBEARER'' then auth_oauthBearer auth (ds_oauthBearer sasl)
      else if ds_mechanism sasl = ''EXTERNAL'' then auth_external auth
      else AuthFailed (authErrorReason OtherErr))"

section \<open>Metadata subscriptions\<close>

definition metadata_keys :: "string list" where
  "metadata_keys = [''soju.im/pinned'', ''soju.im/muted'', ''soju.im/blocked'']"

definition bool_value :: "bool \<Rightarrow> string" where
  "bool_value b = (if b then ''1'' else ''0'')"

definition getMessageTargetMetadata :: "message_target \<Rightarrow> (string, string) gomap" where
  "getMessageTargetMetadata mt = [(''soju.im/pinned'', bool_value (mt_Pinned mt)), (''soju.im/muted'', bool_value (mt_Muted mt)),
     (''soju.im/blocked'', bool_value (mt_Blocked mt))]"

definition parseMessageTargetMetadataBool :: "string option \<Rightarrow> (bool \<times> string) option" where
  "parseMessageTargetMetadataBool v =
     (case v of None \<Rightarrow> Some (False, ''0'')
      | Some s \<Rightarrow> if s = ''1'' then Some (True, ''1'') else if s = ''0'' then Some (False, ''0'') else None)"

definition metadata_of :: "string \<Rightarrow> message_target \<Rightarrow> irc_message list" where
  "metadata_of k mt =
     (case go_get (getMessageTargetMetadata mt) k of None \<Rightarrow> [] | Some v \<Rightarrow> [mk_msg ''METADATA'' [mt_Target mt, k, ''*'', v]])"

text \<open>One key of \<open>SUB\<close> and \<open>UNSUB\<close>; the error is the failure of the database.\<close>

definition metadata_sub_key :: "down_env \<Rightarrow> irc_message \<Rightarrow> bool \<Rightarrow> string \<Rightarrow> down_state \<Rightarrow> down_result" where
  "metadata_sub_key env msg sub k st =
     (if \<not> List.member metadata_keys k then
        (let (out, st) = down_send env (mk_msg ''FAIL'' [Command msg, ''KEY_INVALID'', k, ''Invalid key'']) st in (None, out, st))
      else if sub then
        let st = dn_upd (\<lambda>dc. dc\<lparr>dc_metadataSubs := (if List.member (dc_metadataSubs dc) k then dc_metadataSubs dc else dc_metadataSubs dc @ [k])\<rparr>) st
        in (case (if d_net env = None then Some [] else d_messageTargets env) of
              None \<Rightarrow> (Some (IrcError (mk_msg ''FAIL'' [''METADATA'', ''INTERNAL_ERROR'', ''*'', ''Internal error''])), [], st)
            | Some mts \<Rightarrow>
                let (out, st) = send_all (d_srvPrefix env) (concat (map (metadata_of k) mts) @ [mk_msg ''770'' [''*'', k]]) st
                in (None, out, st))
      else
        let st = dn_upd (\<lambda>dc. dc\<lparr>dc_metadataSubs := filter (\<lambda>s. s \<noteq> k) (dc_metadataSubs dc)\<rparr>) st;
            (out, st) = down_send env (mk_msg ''771'' [''*'', k]) st
        in (None, out, st))"

fun metadata_sub_loop :: "down_env \<Rightarrow> irc_message \<Rightarrow> bool \<Rightarrow> string list \<Rightarrow> down_state \<Rightarrow> down_result" where
  "metadata_sub_loop env msg sub [] st = (None, [], st)"
| "metadata_sub_loop env msg sub (k # ks) st =
     (case metadata_sub_key env msg sub (ToLower (d_unicode env) k) st of
        (Some e, out, st) \<Rightarrow> (Some e, out, st)
      | (None, out, st) \<Rightarrow> (case metadata_sub_loop env msg sub ks st of (e, out', st) \<Rightarrow> (e, out @ out', st)))"

text \<open>\<open>None\<close> when the subcommand is not handled here.\<close>

definition handleMetadataSub :: "down_env \<Rightarrow> irc_message \<Rightarrow> down_state \<Rightarrow> down_result option" where
  "handleMetadataSub env msg st =
     (case Params msg of
        _ # sub # ks \<Rightarrow>
          if sub = ''SUB'' \<or> sub = ''UNSUB'' then Some (metadata_sub_loop env msg (sub = ''SUB'') ks st)
          else if sub = ''SUBS'' then
            (let (out, st) = send_all (d_srvPrefix env) (map (\<lambda>k. mk_msg ''772'' [''*'', k]) (dc_metadataSubs (dn_dc st))) st
             in Some (None, out, st))
          else None
      | _ \<Rightarrow> Some (Some (newNeedMoreParamsError (Command msg)), [], st))"

section \<open>Commands before registration\<close>

definition parseBouncerNetID :: "string \<Rightarrow> string \<Rightarrow> down_error + int" where
  "parseBouncerNetID subcommand s =
     (case ParseInt64 s of
        Inr i \<Rightarrow> if i \<le> 0 then Inl (IrcError (mk_msg ''FAIL'' [''BOUNCER'', ''INVALID_NETID'', subcommand, s, ''Invalid network ID''])) else Inr i
      | Inl _ \<Rightarrow> Inl (IrcError (mk_msg ''FAIL'' [''BOUNCER'', ''INVALID_NETID'', subcommand, s, ''Invalid network ID''])))"

definition need_params :: "nat \<Rightarrow> irc_message \<Rightarrow> (string list \<Rightarrow> down_state \<Rightarrow> down_result) \<Rightarrow> down_state \<Rightarrow> down_result" where
  "need_params n msg f st =
     (case parseMessageParams msg n of Inl _ \<Rightarrow> (Some (newNeedMoreParamsError (Command msg)), [], st) | Inr ps \<Rightarrow> f ps st)"

definition unreg_AUTHENTICATE :: "down_env \<Rightarrow> auth_env \<Rightarrow> irc_message \<Rightarrow> down_state \<Rightarrow> down_result" where
  "unreg_AUTHENTICATE env auth msg st =
     (case handleAuthenticate env auth msg st of
        (Some e, out, _, st) \<Rightarrow> (Some e, out, st)
      | (None, out, None, st) \<Rightarrow> (None, out, st)
      | (None, out, Some sasl, st) \<Rightarrow>
          (case check_credentials auth sasl of
             AuthFailed reason \<Rightarrow>
               (let (out', st) = endSASL env (Some (mk_msg ERR_SASLFAIL [dc_nick (dn_dc st), reason])) st in (None, out @ out', st))
           | AuthPanic \<Rightarrow> (Some PanicError, out, st)
           | Authenticated username client network impersonating \<Rightarrow>
               if username = [] then (Some PanicError, out, st)
               else
                 let st = dn_upd (\<lambda>dc. (setAuthUsername username client network dc)\<lparr>dc_impersonating := impersonating\<rparr>) st;
                     (out', st) = endSASL env None st
                 in (None, out @ out', st)))"

definition unreg_BOUNCER :: "down_env \<Rightarrow> irc_message \<Rightarrow> down_state \<Rightarrow> down_result" where
  "unreg_BOUNCER env msg = need_params 1 msg (\<lambda>ps st.
     if ToUpper (d_unicode env) (hd ps) = ''BIND'' then
       need_params 2 msg (\<lambda>ps st.
         if (case dc_registration (dn_dc st) of None \<Rightarrow> True | Some r \<Rightarrow> reg_authUsername r = []) then
           (Some (IrcError (mk_msg ''FAIL'' [''BOUNCER'', ''ACCOUNT_REQUIRED'', ''BIND'', ''Authentication needed to bind to bouncer network''])), [], st)
         else (case parseBouncerNetID (hd ps) (ps ! 1) of
             Inl e \<Rightarrow> (Some e, [], st)
           | Inr i \<Rightarrow> (None, [], dn_upd (set_reg (\<lambda>r. r\<lparr>reg_networkID := i\<rparr>)) st))) st
     else (Some (IrcError (mk_msg ''FAIL'' [''BOUNCER'', ''UNKNOWN_COMMAND'', hd ps, ''Unknown subcommand''])), [], st))"

definition handleMessageUnregistered :: "down_env \<Rightarrow> auth_env \<Rightarrow> irc_message \<Rightarrow> down_state \<Rightarrow> down_result" where
  "handleMessageUnregistered env auth msg st =
     (if Command msg = ''NICK'' then need_params 1 msg (\<lambda>ps st. (None, [], dn_upd (set_reg (\<lambda>r. r\<lparr>reg_nick := ps ! 0\<rparr>)) st)) st
      else if Command msg = ''USER'' then need_params 4 msg (\<lambda>ps st. (None, [], dn_upd (set_reg (\<lambda>r. r\<lparr>reg_username := ps ! 0\<rparr>)) st)) st
      else if Command msg = ''PASS'' then need_params 1 msg (\<lambda>ps st. (None, [], dn_upd (set_reg (\<lambda>r. r\<lparr>reg_pass := ps ! 0\<rparr>)) st)) st
      else if Command msg = ''CAP'' then handleCap env msg st
      else if Command msg = ''AUTHENTICATE'' then unreg_AUTHENTICATE env auth msg st
      else if Command msg = ''BOUNCER'' then unreg_BOUNCER env msg st
      else if Command msg = ''AWAY'' then
        (let st = dn_upd (\<lambda>dc. dc\<lparr>dc_away := (case Params msg of [] \<Rightarrow> None | r # _ \<Rightarrow> Some r)\<rparr>) st;
             (out, st) = down_send env (generateAwayReply (dc_away (dn_dc st) \<noteq> None)) st
         in (None, out, st))
      else if Command msg = ''METADATA'' then
        need_params 2 msg (\<lambda>ps st.
          (case handleMetadataSub env msg st of
             Some res \<Rightarrow> res
           | None \<Rightarrow> (Some (IrcError (mk_msg ''FAIL'' [''METADATA'', ''INVALID_PARAMS'', ps ! 1, ''Unknown command''])), [], st))) st
      else (Some (newUnknownCommandError (Command msg)), [], st))"

section \<open>Messages of a client\<close>

definition fresh_label :: "irc_message \<Rightarrow> down_state \<Rightarrow> down_state" where
  "fresh_label msg st = st\<lparr>dn_label := (case go_get (Tags msg) ''label'' of
     Some l \<Rightarrow> if cap_on st ''labeled-response'' then Some \<lparr>lc_label = l, lc_batch = [], lc_pendingMsg = None\<rparr> else None
   | None \<Rightarrow> None)\<rparr>"

text \<open>\<open>registered\<close> is the handler of a registered connection.\<close>

definition down_handleMessage ::
    "down_env \<Rightarrow> auth_env \<Rightarrow> (irc_message \<Rightarrow> down_state \<Rightarrow> down_result) \<Rightarrow> irc_message \<Rightarrow> down_state \<Rightarrow> down_result" where
  "down_handleMessage env auth registered msg st =
     (let st = fresh_label msg st;
          finish = (\<lambda>out st. (None, out @ FlushBatch st, st\<lparr>dn_label := None\<rparr>))
      in if Command msg = ''QUIT'' then finish [] (st\<lparr>dn_shutdown := True\<rparr>)
         else if Command msg = ''ISUPPORT'' then
           if \<not> cap_on st ''draft/extended-isupport'' then (Some (newUnknownCommandError (Command msg)), [], st\<lparr>dn_label := None\<rparr>)
           else
             let m = buildIsupport env (dc_caps (dn_dc st)); (out, st) = sendIsupport env m st
             in finish out (dn_upd (\<lambda>dc. dc\<lparr>dc_isupport := m\<rparr>) st)
         else
           (case (if dc_registered (dn_dc st) then registered msg st else handleMessageUnregistered env auth msg st) of
              (None, out, st) \<Rightarrow> finish out st
            | (Some (IrcError m), out, st) \<Rightarrow>
                let (out', st) = down_send env (m\<lparr>Prefix := Some (d_srvPrefix env)\<rparr>) st in finish (out @ out') st
            | (Some e, out, st) \<Rightarrow> (Some e, out, st\<lparr>dn_label := None\<rparr>)))"

section \<open>Registration\<close>

definition ERR_PASSWDMISMATCH :: string where "ERR_PASSWDMISMATCH = ''464''"
definition ERR_ERRONEUSNICKNAME :: string where "ERR_ERRONEUSNICKNAME = ''432''"

text \<open>Authentication by \<open>PASS\<close>, when SASL has given no user name.\<close>

definition pass_auth :: "auth_env \<Rightarrow> string \<Rightarrow> downstream_registration \<Rightarrow> down_state \<Rightarrow> down_error option \<times> down_state" where
  "pass_auth auth password r st =
     (let dc = dn_dc st in
      if reg_authUsername r \<noteq> [] then (None, st)
      else if password = [] then
        (Some (IrcError (if cap_on st ''sasl'' then mk_msg ''FAIL'' [''*'', ''ACCOUNT_REQUIRED'', ''Authentication required'']
                         else mk_msg ERR_PASSWDMISMATCH [dc_nick dc, ''Authentication required''])), st)
      else (case a_plain auth of
          None \<Rightarrow> (Some (IrcError (mk_msg ERR_PASSWDMISMATCH [dc_nick dc, ''PASS authentication disabled''])), st)
        | Some check \<Rightarrow>
            (case unmarshalUsername (reg_username r) of (username, client, network) \<Rightarrow>
               (case check username password of
                  Some e \<Rightarrow> (Some (IrcError (mk_msg ERR_PASSWDMISMATCH [dc_nick dc, authErrorReason e])), st)
                | None \<Rightarrow> (None, dn_upd (setAuthUsername username client network) st)))))"

text \<open>The client and network names of the user name are used unless authentication gave others.\<close>

definition fallback_names :: "down_state \<Rightarrow> down_error option \<times> down_state" where
  "fallback_names st =
     (case dc_registration (dn_dc st) of
        None \<Rightarrow> (Some PanicError, st)
      | Some r \<Rightarrow>
          (case unmarshalUsername (reg_username r) of (_, client, network) \<Rightarrow>
             let dc = dn_dc st in
             if dc_clientName dc \<noteq> [] \<and> client \<noteq> [] \<and> dc_clientName dc \<noteq> client
             then (Some (IrcError (mk_msg ERR_ERRONEUSNICKNAME [dc_nick dc, ''Client name mismatch in usernames''])), st)
             else
               let st = dn_upd (\<lambda>dc. if dc_clientName dc = [] then dc\<lparr>dc_clientName := client\<rparr> else dc) st in
               if reg_networkName r \<noteq> [] \<and> network \<noteq> [] \<and> reg_networkName r \<noteq> network
               then (Some (IrcError (mk_msg ERR_ERRONEUSNICKNAME [dc_nick dc, ''Network name mismatch in usernames''])), st)
               else (None, dn_upd (set_reg (\<lambda>r. if reg_networkName r = [] then r\<lparr>reg_networkName := network\<rparr> else r)) st)))"

definition down_register :: "down_env \<Rightarrow> auth_env \<Rightarrow> down_state \<Rightarrow> down_result" where
  "down_register env auth st =
     (if dc_registered (dn_dc st) then (Some PanicError, [], st)
      else
        let (out, st) = endSASL env (Some (mk_msg ERR_SASLABORTED [dc_nick (dn_dc st), ''SASL authentication aborted''])) st in
        (case dc_registration (dn_dc st) of
           None \<Rightarrow> (Some PanicError, out, st)
         | Some r \<Rightarrow>
             (case pass_auth auth (reg_pass r) r (dn_upd (set_reg (\<lambda>r. r\<lparr>reg_pass := []\<rparr>)) st) of
                (Some e, st) \<Rightarrow> (Some e, out, st)
              | (None, st) \<Rightarrow>
                  (case fallback_names st of
                     (Some e, st) \<Rightarrow> (Some e, out, st)
                   | (None, st) \<Rightarrow>
                       (None, out, dn_upd (\<lambda>dc. dc\<lparr>dc_registered := True,
                          dc_username := (case dc_registration dc of None \<Rightarrow> [] | Some r \<Rightarrow> reg_authUsername r)\<rparr>) st)))))"

definition ready_to_register :: "down_state \<Rightarrow> bool" where
  "ready_to_register st \<longleftrightarrow>
     (case dc_registration (dn_dc st) of None \<Rightarrow> False | Some r \<Rightarrow> reg_nick r \<noteq> [] \<and> reg_username r \<noteq> [] \<and> \<not> reg_negotiatingCaps r)"

text \<open>The messages that the client sends; the connection ends with an error when they run out.\<close>

datatype reg_end = Registered | RegClosed | RegError

fun down_runUntilRegistered :: "down_env \<Rightarrow> auth_env \<Rightarrow> irc_message list \<Rightarrow> down_state \<Rightarrow> reg_end \<times> irc_message list \<times> down_state" where
  "down_runUntilRegistered env auth [] st = (RegError, [], st)"
| "down_runUntilRegistered env auth (msg # msgs) st =
     (case down_handleMessage env auth (\<lambda>_ st. (Some PanicError, [], st)) msg st of
        (Some _, out, st) \<Rightarrow> (RegError, out, st)
      | (None, out, st) \<Rightarrow>
          if \<not> ready_to_register st then
            (case down_runUntilRegistered env auth msgs st of (res, out', st) \<Rightarrow> (res, out @ out', st))
          else (case down_register env auth st of
              (None, out', st) \<Rightarrow> (Registered, out @ out', st)
            | (Some (IrcError m), out', st) \<Rightarrow>
                let (out'', st) = down_send env (m\<lparr>Prefix := Some (d_srvPrefix env)\<rparr>) st in (RegClosed, out @ out' @ out'', st)
            | (Some _, out', st) \<Rightarrow> (RegError, out @ out', st)))"

end
