(* ===== verification/Downstream_Auth.thy ===== *)
theory Downstream_Auth
  imports Downstream_Register
begin

text \<open>
  Who is registered: a client that \<open>runUntilRegistered\<close> lets through has shown credentials of the user it
  is registered as, and a client with the right password gets through.
\<close>

section \<open>What a step leaves alone\<close>

text \<open>The part of a connection that decides on its authentication.\<close>

definition auth_view :: "downstream_conn \<Rightarrow> bool \<times> downstream_sasl option \<times> (string \<times> string \<times> string) option" where
  "auth_view dc = (dc_registered dc, dc_sasl dc, map_option (\<lambda>r. (reg_username r, reg_pass r, reg_authUsername r)) (dc_registration dc))"

abbreviation dn_view :: "down_state \<Rightarrow> bool \<times> downstream_sasl option \<times> (string \<times> string \<times> string) option" where
  "dn_view st \<equiv> auth_view (dn_dc st)"

lemma auth_view_update [simp]:
  "auth_view (dc\<lparr>dc_lastBatchRef := x1\<rparr>) = auth_view dc" "auth_view (dc\<lparr>dc_caps := x2\<rparr>) = auth_view dc"
  "auth_view (dc\<lparr>dc_capVersion := x3\<rparr>) = auth_view dc" "auth_view (dc\<lparr>dc_isupport := x4\<rparr>) = auth_view dc"
  "auth_view (dc\<lparr>dc_away := x5\<rparr>) = auth_view dc" "auth_view (dc\<lparr>dc_metadataSubs := x6\<rparr>) = auth_view dc"
  by (simp_all add: auth_view_def)

lemma set_available_view [simp]: "auth_view (set_available k v dc) = auth_view dc"
  by (simp add: set_available_def)

lemma foldl_available_view [simp]: "auth_view (foldl (\<lambda>dc (k, v). set_available k v dc) dc kvs) = auth_view dc"
  by (induction kvs arbitrary: dc) auto

lemma set_negotiating_view [simp]: "auth_view (set_negotiating b dc) = auth_view dc"
  by (simp add: set_negotiating_def auth_view_def option.map_comp comp_def)

lemma SendMessage_view [simp]: "dn_view (snd (SendMessage srv m st)) = dn_view st"
  by (simp add: SendMessage_def Let_def case_prod_beta split: option.split)

lemma send_all_view [simp]: "dn_view (snd (send_all srv ms st)) = dn_view st"
  by (induction ms arbitrary: st) (simp_all add: case_prod_beta Let_def del: send_all_simps(2) add: send_all_simps(2))

lemma SendBatch_view [simp]: "dn_view (snd (SendBatch srv typ ps tags f st)) = dn_view st"
  by (simp add: SendBatch_def Let_def case_prod_beta)

lemma sendIsupport_view [simp]: "dn_view (snd (sendIsupport env m st)) = dn_view st"
  by (simp add: sendIsupport_def)

lemma dn_label_view [simp]: "dn_dc (st\<lparr>dn_label := l\<rparr>) = dn_dc st" "dn_dc (st\<lparr>dn_shutdown := b\<rparr>) = dn_dc st"
  by simp_all

lemma handleCap_view: "dn_view (snd (snd (handleCap env msg st))) = dn_view st"
proof -
  have "dn_view (snd (snd (cap_LS env args st))) = dn_view st" for args
    by (auto simp: cap_LS_def Let_def case_prod_beta set_dc_def split: list.split)
  moreover have "dn_view (snd (snd (cap_REQ env args st))) = dn_view st" for args
    by (auto simp: cap_REQ_def Let_def case_prod_beta set_dc_def split: list.split option.split)
  ultimately show ?thesis
    by (auto simp: handleCap_def Let_def case_prod_beta set_dc_def split: list.split)
qed

lemma metadata_view: "dn_view (snd (snd (metadata_sub_loop env msg sub ks st))) = dn_view st"
proof (induction ks arbitrary: st)
  case (Cons k ks)
  have "dn_view (snd (snd (metadata_sub_key env msg sub k st))) = dn_view st" for k
    by (auto simp: metadata_sub_key_def Let_def case_prod_beta dn_upd_def split: option.split)
  with Cons show ?case
    by (auto simp: case_prod_beta split: option.split)
qed simp

lemma handleMetadataSub_view: "handleMetadataSub env msg st = Some res \<Longrightarrow> dn_view (snd (snd res)) = dn_view st"
  by (auto simp: handleMetadataSub_def case_prod_beta Let_def metadata_view split: list.splits if_splits)

section \<open>Credentials that the client has sent\<close>

definition sasl_chunk_of :: "string \<Rightarrow> string" where
  "sasl_chunk_of p = (if p = ''+'' then [] else p)"

definition sent :: "irc_message list \<Rightarrow> string \<Rightarrow> string \<Rightarrow> bool" where
  "sent msgs cmd p \<longleftrightarrow> (\<exists>m\<in>set msgs. Command m = cmd \<and> (\<exists>ps. Params m = p # ps))"

definition sent_chunks :: "irc_message list \<Rightarrow> string \<Rightarrow> bool" where
  "sent_chunks msgs s \<longleftrightarrow> (\<exists>ps. s = concat (map sasl_chunk_of ps) \<and> list_all (sent msgs ''AUTHENTICATE'') ps)"

definition sent_response :: "irc_message list \<Rightarrow> string option \<Rightarrow> bool" where
  "sent_response msgs r \<longleftrightarrow> (case r of None \<Rightarrow> True | Some b \<Rightarrow> \<exists>s. sent_chunks msgs s \<and> std_decode s = Some b)"

text \<open>An exchange in which every response was sent by the client, and the credentials are those that the
  mechanism found in them.\<close>

definition exchange_sent :: "auth_env \<Rightarrow> irc_message list \<Rightarrow> downstream_sasl \<Rightarrow> bool" where
  "exchange_sent auth msgs sasl \<longleftrightarrow>
     sent_chunks msgs (ds_pendingResp sasl) \<and> list_all (sent_response msgs) (ds_responses sasl)
     \<and> (\<forall>cred. ds_plain sasl = Some cred \<longrightarrow>
          (\<exists>k c d ob. a_saslNext auth (ds_mechanism sasl) (take k (ds_responses sasl)) = Some (c, d, Some cred, ob)))
     \<and> (\<forall>cred. ds_oauthBearer sasl = Some cred \<longrightarrow>
          (\<exists>k c d pl. a_saslNext auth (ds_mechanism sasl) (take k (ds_responses sasl)) = Some (c, d, pl, Some cred)))"

definition proved_by_pass :: "auth_env \<Rightarrow> irc_message list \<Rightarrow> string \<Rightarrow> bool" where
  "proved_by_pass auth msgs name \<longleftrightarrow>
     (\<exists>check raw pw. a_plain auth = Some check \<and> sent msgs ''USER'' raw \<and> sent msgs ''PASS'' pw \<and> name = fst (unmarshalUsername raw) \<and> check name pw = None)"

text \<open>What entitles a SASL exchange to a user name, read off the credentials and the back ends alone: the
  password of the user itself or of an administrator, a token of the user, or a device certificate of the user.\<close>

definition vouches :: "auth_env \<Rightarrow> downstream_sasl \<Rightarrow> string \<Rightarrow> bool" where
  "vouches auth sasl name \<longleftrightarrow>
     (\<exists>identity user pw check. ds_plain sasl = Some (identity, user, pw) \<and> a_plain auth = Some check
        \<and> check (fst (unmarshalUsername user)) pw = None
        \<and> (name = fst (unmarshalUsername user)
           \<or> name = fst (unmarshalUsername identity) \<and> (\<exists>u. a_getUser auth (fst (unmarshalUsername user)) = Inr u \<and> user_Admin u)))
   \<or> (\<exists>claimed token check. ds_oauthBearer sasl = Some (claimed, token) \<and> a_oauthBearer auth = Some check \<and> check token = Inr name)
   \<or> (\<exists>cert uid. a_peerCert auth = Some cert \<and> a_deviceUser auth cert = Inr (Some uid) \<and> a_username auth uid = Inr name)"

definition proved_by_sasl :: "auth_env \<Rightarrow> irc_message list \<Rightarrow> string \<Rightarrow> bool" where
  "proved_by_sasl auth msgs name \<longleftrightarrow> (\<exists>sasl. exchange_sent auth msgs sasl \<and> vouches auth sasl name)"

lemma auth_plain_vouches: "ds_plain sasl = Some cred \<Longrightarrow> auth_plain auth cred = Authenticated name c n i \<Longrightarrow> vouches auth sasl name"
  unfolding auth_plain_def vouches_def by (auto split: prod.splits option.splits if_splits sum.splits)

lemma auth_external_vouches: "auth_external auth = Authenticated name c n i \<Longrightarrow> vouches auth sasl name"
  unfolding auth_external_def vouches_def by (auto split: option.splits if_splits sum.splits)

lemma auth_oauthBearer_vouches: "auth_oauthBearer auth (ds_oauthBearer sasl) = Authenticated name c n i \<Longrightarrow> vouches auth sasl name"
  unfolding auth_oauthBearer_def vouches_def by (auto split: prod.splits option.splits if_splits sum.splits)

lemma check_credentials_vouches: "check_credentials auth sasl = Authenticated name c n i \<Longrightarrow> vouches auth sasl name"
  by (auto simp: check_credentials_def split: if_splits option.splits
      intro: auth_plain_vouches auth_external_vouches auth_oauthBearer_vouches)

definition reg_inv :: "auth_env \<Rightarrow> irc_message list \<Rightarrow> bool \<times> downstream_sasl option \<times> (string \<times> string \<times> string) option \<Rightarrow> bool" where
  "reg_inv auth msgs v \<longleftrightarrow>
     (case v of (registered, sasl, reg) \<Rightarrow>
        \<not> registered \<and> (\<forall>s. sasl = Some s \<longrightarrow> exchange_sent auth msgs s)
        \<and> (\<forall>u p a. reg = Some (u, p, a) \<longrightarrow> (u = [] \<or> sent msgs ''USER'' u) \<and> (p = [] \<or> sent msgs ''PASS'' p) \<and> (a = [] \<or> proved_by_sasl auth msgs a)))"

lemma sent_mono: "sent msgs c p \<Longrightarrow> sent (msgs @ ms) c p"
  by (auto simp: sent_def)

lemma sent_last: "Command m = c \<Longrightarrow> Params m = p # ps \<Longrightarrow> sent (msgs @ [m]) c p"
  by (auto simp: sent_def)

lemma sent_chunks_mono: "sent_chunks msgs s \<Longrightarrow> sent_chunks (msgs @ ms) s"
  using sent_mono by (fastforce simp: sent_chunks_def list_all_iff)

lemma sent_response_mono: "sent_response msgs r \<Longrightarrow> sent_response (msgs @ ms) r"
  using sent_chunks_mono by (fastforce simp: sent_response_def split: option.splits)

lemma exchange_sent_mono: "exchange_sent auth msgs s \<Longrightarrow> exchange_sent auth (msgs @ ms) s"
  using sent_chunks_mono sent_response_mono by (auto simp: exchange_sent_def list_all_iff)

lemma proved_by_pass_mono: "proved_by_pass auth msgs u \<Longrightarrow> proved_by_pass auth (msgs @ ms) u"
  unfolding proved_by_pass_def by (blast intro: sent_mono)

lemma proved_by_sasl_mono: "proved_by_sasl auth msgs u \<Longrightarrow> proved_by_sasl auth (msgs @ ms) u"
  unfolding proved_by_sasl_def by (blast intro: exchange_sent_mono)

lemma reg_inv_mono: "reg_inv auth msgs v \<Longrightarrow> reg_inv auth (msgs @ ms) v"
  using sent_mono exchange_sent_mono
  by (fastforce simp: reg_inv_def proved_by_sasl_def split: prod.splits)

section \<open>The SASL exchange\<close>

lemma sent_chunks_Nil [simp]: "sent_chunks msgs []"
  unfolding sent_chunks_def by (rule exI [of _ "[]"]) simp

lemma sent_chunks_append:
  "sent_chunks msgs s \<Longrightarrow> sent msgs ''AUTHENTICATE'' p \<Longrightarrow> sent_chunks msgs (s @ sasl_chunk_of p)"
  unfolding sent_chunks_def by (elim exE conjE, rule_tac x = "ps @ [p]" in exI) simp

lemma take_append_prefix: "\<exists>k'. take k rs = take k' (rs @ xs)"
  by (rule exI [of _ "min k (length rs)"]) (simp add: min_def)

lemma exchange_sent_response:
  assumes "exchange_sent auth msgs sasl" and "sent_response msgs r"
  shows "exchange_sent auth msgs (sasl\<lparr>ds_pendingResp := [], ds_responses := ds_responses sasl @ [r]\<rparr>)"
proof -
  have "\<exists>k'. take k (ds_responses sasl) = take k' (ds_responses sasl @ [r])" for k by (rule take_append_prefix)
  then show ?thesis using assms unfolding exchange_sent_def by simp metis
qed

lemma sasl_response_sent:
  assumes "sasl_response env dc p = Inr (sasl, complete)" and "\<And>s. dc_sasl dc = Some s \<Longrightarrow> exchange_sent auth msgs s"
    and "sent msgs ''AUTHENTICATE'' p"
  shows "exchange_sent auth msgs sasl"
proof (cases "dc_sasl dc")
  case None
  with assms(1) show ?thesis
    by (auto simp: sasl_response_def Let_def exchange_sent_def sent_response_def split: if_splits)
next
  case (Some s)
  let ?s = "s\<lparr>ds_pendingResp := ds_pendingResp s @ sasl_chunk_of p\<rparr>"
  have s: "exchange_sent auth msgs s" by (rule assms(2) [OF Some])
  then have chunks: "sent_chunks msgs (ds_pendingResp s @ sasl_chunk_of p)"
    using sent_chunks_append assms(3) by (simp add: exchange_sent_def)
  with s have s': "exchange_sent auth msgs ?s" by (simp add: exchange_sent_def)
  show ?thesis
  proof (cases complete)
    case False
    with assms(1) Some s' show ?thesis
      by (auto simp: sasl_response_def Let_def sasl_chunk_of_def split: if_splits option.splits)
  next
    case True
    with assms(1) Some obtain resp where r: "std_decode (ds_pendingResp ?s) = Some resp"
      "sasl = ?s\<lparr>ds_pendingResp := [], ds_responses := ds_responses ?s @ [Some resp]\<rparr>"
      by (auto simp: sasl_response_def Let_def sasl_chunk_of_def split: if_splits option.splits)
    with chunks have "sent_response msgs (Some resp)" by (auto simp: sent_response_def)
    from exchange_sent_response [OF s' this] r(2) show ?thesis by simp
  qed
qed

lemma exchange_sent_next:
  assumes "exchange_sent auth msgs sasl" and "a_saslNext auth (ds_mechanism sasl) (ds_responses sasl) = Some (c, d, plain, oauth)"
  shows "exchange_sent auth msgs (sasl\<lparr>ds_plain := (if plain = None then ds_plain sasl else plain),
           ds_oauthBearer := (if oauth = None then ds_oauthBearer sasl else oauth)\<rparr>)"
proof -
  have "a_saslNext auth (ds_mechanism sasl) (take (length (ds_responses sasl)) (ds_responses sasl)) = Some (c, d, plain, oauth)"
    using assms(2) by simp
  then show ?thesis using assms(1) unfolding exchange_sent_def by (auto, metis+)
qed

lemma handleAuthenticate_inv:
  assumes "handleAuthenticate env auth msg st = (e, out, c, st')" and "reg_inv auth msgs (dn_view st)" and "Command msg = ''AUTHENTICATE''"
  shows "reg_inv auth (msgs @ [msg]) (dn_view st')" and "c = Some sasl \<Longrightarrow> exchange_sent auth (msgs @ [msg]) sasl"
proof -
  let ?ms = "msgs @ [msg]"
  have v: "reg_inv auth ?ms (dn_view st)" by (rule reg_inv_mono [OF assms(2)])
  have upd: "reg_inv auth ?ms (dn_view (dn_upd (\<lambda>dc. dc\<lparr>dc_sasl := s\<rparr>) st))" if "\<And>x. s = Some x \<Longrightarrow> exchange_sent auth ?ms x" for s
    using v that by (auto simp: reg_inv_def auth_view_def dn_upd_def)
  have "reg_inv auth ?ms (dn_view st') \<and> (\<forall>sasl. c = Some sasl \<longrightarrow> exchange_sent auth ?ms sasl)"
  proof (cases "Params msg")
    case Nil
    with assms(1) upd show ?thesis by (auto simp: handleAuthenticate_def Let_def split: if_splits)
  next
    case (Cons p ps)
    show ?thesis
    proof (cases "cap_on st ''sasl'' \<and> p \<noteq> ''*''")
      case False
      with assms(1) upd [of None] Cons show ?thesis by (auto simp: handleAuthenticate_def Let_def split: if_splits)
    next
      case ok: True
      show ?thesis
      proof (cases "sasl_response env (dn_dc st) p")
        case (Inl err)
        with assms(1) upd [of None] Cons ok show ?thesis by (auto simp: handleAuthenticate_def Let_def)
      next
        case (Inr sc)
        obtain sasl complete where sc: "sc = (sasl, complete)" by fastforce
        have x: "exchange_sent auth ?ms sasl"
          using sasl_response_sent [of env "dn_dc st" p sasl complete auth ?ms] Inr sc v sent_last [OF assms(3) Cons]
          by (auto simp: reg_inv_def auth_view_def)
        show ?thesis
        proof (cases "complete \<longrightarrow> a_saslNext auth (ds_mechanism sasl) (ds_responses sasl) = None")
          case True
          with assms(1) upd [of None] upd [of "Some sasl"] x Cons ok Inr sc show ?thesis
            by (auto simp: handleAuthenticate_def Let_def split: if_splits option.splits)
        next
          case False
          then obtain ch fin plain oauth where n: "complete" "a_saslNext auth (ds_mechanism sasl) (ds_responses sasl) = Some (ch, fin, plain, oauth)"
            by auto
          note y = exchange_sent_next [OF x n(2)]
          let ?s = "sasl\<lparr>ds_plain := (if plain = None then ds_plain sasl else plain),
             ds_oauthBearer := (if oauth = None then ds_oauthBearer sasl else oauth)\<rparr>"
          have "st' = dn_upd (\<lambda>dc. dc\<lparr>dc_sasl := Some ?s\<rparr>) st \<and> c = Some ?s
              \<or> dn_view st' = dn_view (dn_upd (\<lambda>dc. dc\<lparr>dc_sasl := Some ?s\<rparr>) st) \<and> c = None"
            using assms(1) Cons ok Inr sc n by (auto simp: handleAuthenticate_def Let_def case_prod_beta simp del: if_split split: if_split_asm)
          with upd [of "Some ?s"] y show ?thesis by auto
        qed
      qed
    qed
  qed
  then show "reg_inv auth ?ms (dn_view st')" "c = Some sasl \<Longrightarrow> exchange_sent auth ?ms sasl" by auto
qed

section \<open>Messages before registration\<close>

lemma endSASL_view: "dn_view (snd (endSASL env m st)) = (case dn_view st of (r, _, g) \<Rightarrow> (r, None, g))"
  by (simp add: endSASL_def Let_def dn_upd_def split: option.split) (simp add: auth_view_def)

lemma endSASL_inv: "reg_inv auth msgs (dn_view st) \<Longrightarrow> reg_inv auth msgs (dn_view (snd (endSASL env m st)))"
  by (auto simp: endSASL_view reg_inv_def split: prod.splits)

lemma set_reg_view:
  "auth_view (set_reg f dc) = (dc_registered dc, dc_sasl dc, map_option (\<lambda>r. (reg_username (f r), reg_pass (f r), reg_authUsername (f r))) (dc_registration dc))"
  by (simp add: set_reg_def auth_view_def option.map_comp comp_def)

lemma unreg_AUTHENTICATE_inv:
  assumes "reg_inv auth msgs (dn_view st)" and "Command msg = ''AUTHENTICATE''"
  shows "reg_inv auth (msgs @ [msg]) (dn_view (snd (snd (unreg_AUTHENTICATE env auth msg st))))"
proof -
  obtain e out c st' where h: "handleAuthenticate env auth msg st = (e, out, c, st')" by (metis prod_cases4)
  note inv = handleAuthenticate_inv(1) [OF h assms]
  show ?thesis
  proof (cases "\<exists>sasl. e = None \<and> c = Some sasl")
    case False
    with inv h show ?thesis by (cases e; cases c) (simp_all add: unreg_AUTHENTICATE_def)
  next
    case True
    then obtain sasl where c: "e = None" "c = Some sasl" by blast
    note x = handleAuthenticate_inv(2) [OF h assms c(2)]
    show ?thesis
    proof (cases "check_credentials auth sasl")
      case (Authenticated u cl n i)
      then have "proved_by_sasl auth (msgs @ [msg]) u" using x by (auto simp: proved_by_sasl_def dest: check_credentials_vouches)
      with inv have "reg_inv auth (msgs @ [msg]) (dn_view (dn_upd (\<lambda>dc. (setAuthUsername u cl n dc)\<lparr>dc_impersonating := i\<rparr>) st'))"
        by (auto simp: reg_inv_def dn_upd_def setAuthUsername_def set_reg_def auth_view_def)
      with Authenticated c h inv endSASL_inv show ?thesis
        by (auto simp: unreg_AUTHENTICATE_def Let_def case_prod_beta)
    qed (use c h inv endSASL_inv in \<open>auto simp: unreg_AUTHENTICATE_def Let_def case_prod_beta\<close>)
  qed
qed

lemma need_params_inv:
  assumes "reg_inv auth msgs (dn_view st)" and "\<And>ps. n \<le> length (Params msg) \<Longrightarrow> ps = take n (Params msg) \<Longrightarrow> reg_inv auth msgs (dn_view (snd (snd (f ps st))))"
  shows "reg_inv auth msgs (dn_view (snd (snd (need_params n msg f st))))"
  using assms by (auto simp: need_params_def parseMessageParams_def)

lemma set_reg_inv:
  assumes "reg_inv auth msgs (dn_view st)"
    and "\<And>r. reg_authUsername (f r) = reg_authUsername r"
    and "\<And>r. reg_username (f r) = reg_username r \<or> sent msgs ''USER'' (reg_username (f r))"
    and "\<And>r. reg_pass (f r) = reg_pass r \<or> sent msgs ''PASS'' (reg_pass (f r))"
  shows "reg_inv auth msgs (dn_view (dn_upd (set_reg f) st))"
proof (cases "dc_registration (dn_dc st)")
  case None
  with assms(1) show ?thesis by (simp add: reg_inv_def dn_upd_def set_reg_view) (simp add: auth_view_def)
next
  case (Some r)
  with assms(1) assms(2-4) [of r] show ?thesis
    by (auto simp: reg_inv_def dn_upd_def set_reg_view) (auto simp: auth_view_def)
qed

lemma sent_hd: "Suc n \<le> length (Params m) \<Longrightarrow> Command m = c \<Longrightarrow> sent (msgs @ [m]) c (take (Suc n) (Params m) ! 0)"
  by (cases "Params m") (auto simp: sent_def)

lemma handleMessageUnregistered_inv:
  assumes "reg_inv auth msgs (dn_view st)"
  shows "reg_inv auth (msgs @ [msg]) (dn_view (snd (snd (handleMessageUnregistered env auth msg st))))"
proof -
  let ?ms = "msgs @ [msg]"
  have v: "reg_inv auth ?ms (dn_view st)" by (rule reg_inv_mono [OF assms])
  have same: "reg_inv auth ?ms (dn_view st')" if "dn_view st' = dn_view st" for st' using v that by simp
  have reg: "reg_inv auth ?ms (dn_view (snd (snd (need_params (Suc n) msg (\<lambda>ps st. (None, [], dn_upd (set_reg (g (ps ! 0))) st)) st))))"
    if "\<And>r p. reg_authUsername (g p r) = reg_authUsername r"
      "\<And>r. Suc n \<le> length (Params msg) \<Longrightarrow> reg_username (g (take (Suc n) (Params msg) ! 0) r) = reg_username r \<or> sent ?ms ''USER'' (reg_username (g (take (Suc n) (Params msg) ! 0) r))"
      "\<And>r. Suc n \<le> length (Params msg) \<Longrightarrow> reg_pass (g (take (Suc n) (Params msg) ! 0) r) = reg_pass r \<or> sent ?ms ''PASS'' (reg_pass (g (take (Suc n) (Params msg) ! 0) r))"
    for n g
  proof (rule need_params_inv [OF v])
    fix ps assume n: "Suc n \<le> length (Params msg)" and ps: "ps = take (Suc n) (Params msg)"
    show "reg_inv auth ?ms (dn_view (snd (snd (None, [], dn_upd (set_reg (g (ps ! 0))) st))))"
      unfolding snd_conv ps by (rule set_reg_inv [OF v that(1) that(2,3) [OF n]])
  qed
  have nick: "reg_inv auth ?ms (dn_view (snd (snd (need_params 1 msg (\<lambda>ps st. (None, [], dn_upd (set_reg (\<lambda>r. r\<lparr>reg_nick := ps ! 0\<rparr>)) st)) st))))"
    using reg [of "\<lambda>p r. r\<lparr>reg_nick := p\<rparr>" 0] by simp
  have pass: "reg_inv auth ?ms (dn_view (snd (snd (need_params 1 msg (\<lambda>ps st. (None, [], dn_upd (set_reg (\<lambda>r. r\<lparr>reg_pass := ps ! 0\<rparr>)) st)) st))))"
    if "Command msg = ''PASS''"
    using reg [of "\<lambda>p r. r\<lparr>reg_pass := p\<rparr>" 0] sent_hd [OF _ that, of 0] by simp
  have user: "reg_inv auth ?ms (dn_view (snd (snd (need_params 4 msg (\<lambda>ps st. (None, [], dn_upd (set_reg (\<lambda>r. r\<lparr>reg_username := ps ! 0\<rparr>)) st)) st))))"
    if "Command msg = ''USER''"
    using reg [of "\<lambda>p r. r\<lparr>reg_username := p\<rparr>" 3] sent_hd [OF _ that, of 3] by (simp add: eval_nat_numeral)
  have bind: "reg_inv auth ?ms (dn_view (snd (snd (unreg_BOUNCER env msg st))))"
    unfolding unreg_BOUNCER_def
    by (intro need_params_inv v) (auto intro!: need_params_inv v set_reg_inv split: sum.split option.split)
  have away: "reg_inv auth ?ms (dn_view (snd (down_send env m (dn_upd (\<lambda>dc. dc\<lparr>dc_away := a\<rparr>) st))))" for m a
    by (rule same) (simp add: dn_upd_def)
  have meta: "reg_inv auth ?ms (dn_view (snd (snd (need_params 2 msg (\<lambda>ps st. (case handleMetadataSub env msg st of
      Some res \<Rightarrow> res | None \<Rightarrow> (Some (e ps), [], st))) st))))" for e
    by (rule need_params_inv [OF v]) (auto simp: v handleMetadataSub_view same split: option.split)
  show ?thesis
    using nick pass user bind away meta v handleCap_view same unreg_AUTHENTICATE_inv [OF assms]
    unfolding handleMessageUnregistered_def by (simp add: case_prod_beta Let_def)
qed

lemma fresh_label_dc [simp]: "dn_dc (fresh_label msg st) = dn_dc st"
  by (simp add: fresh_label_def)

lemma down_handleMessage_inv:
  assumes "reg_inv auth msgs (dn_view st)"
  shows "reg_inv auth (msgs @ [msg]) (dn_view (snd (snd (down_handleMessage env auth h msg st))))"
proof -
  have v: "reg_inv auth (msgs @ [msg]) (dn_view (fresh_label msg st))" using reg_inv_mono [OF assms] by simp
  have n: "\<not> dc_registered (dn_dc st)" using assms by (simp add: reg_inv_def auth_view_def)
  obtain e out st' where u: "handleMessageUnregistered env auth msg (fresh_label msg st) = (e, out, st')" by (metis prod_cases3)
  have i: "reg_inv auth (msgs @ [msg]) (dn_view st')"
    using handleMessageUnregistered_inv [of auth msgs "fresh_label msg st" msg env] assms u by simp
  show ?thesis
  proof (cases e)
    case None
    with v n u i show ?thesis by (simp add: down_handleMessage_def Let_def case_prod_beta dn_upd_def)
  next
    case (Some err)
    with v n u i show ?thesis by (cases err) (simp_all add: down_handleMessage_def Let_def case_prod_beta dn_upd_def)
  qed
qed

section \<open>Registered clients\<close>

lemma pass_auth_username:
  assumes "pass_auth auth pw r st = (None, st')" and "dc_registration (dn_dc st) = Some r'" and "reg_authUsername r' = reg_authUsername r"
  obtains r2 where "dc_registration (dn_dc st') = Some r2"
    and "reg_authUsername r2 = reg_authUsername r \<and> reg_authUsername r \<noteq> []
      \<or> pw \<noteq> [] \<and> reg_authUsername r2 = fst (unmarshalUsername (reg_username r))
        \<and> (\<exists>check. a_plain auth = Some check \<and> check (reg_authUsername r2) pw = None)"
proof (cases "reg_authUsername r = []")
  case False
  with assms that show ?thesis by (simp add: pass_auth_def)
next
  case True
  obtain u c n where u: "unmarshalUsername (reg_username r) = (u, c, n)" by (metis prod_cases3)
  from True assms(1) u obtain check where "pw \<noteq> []" "a_plain auth = Some check" "check u pw = None" "st' = dn_upd (setAuthUsername u c n) st"
    by (auto simp: pass_auth_def Let_def split: if_splits option.splits)
  with assms(2) u that show ?thesis by (auto simp: dn_upd_def setAuthUsername_def set_reg_def)
qed

lemma fallback_names_username:
  assumes "fallback_names st = (None, st')" and "dc_registration (dn_dc st) = Some r"
  obtains r2 where "dc_registration (dn_dc st') = Some r2" and "reg_authUsername r2 = reg_authUsername r"
  using assms that
  by (auto simp: fallback_names_def Let_def dn_upd_def set_reg_def case_prod_beta split: if_splits)

lemma register_proved:
  assumes "down_register env auth st = (None, out, st')" and "reg_inv auth msgs (dn_view st)" and "ready_to_register st"
  shows "dc_registered (dn_dc st') \<and> (proved_by_pass auth msgs (dc_username (dn_dc st')) \<or> proved_by_sasl auth msgs (dc_username (dn_dc st')))"
proof -
  let ?st1 = "snd (endSASL env (Some (mk_msg ERR_SASLABORTED [dc_nick (dn_dc st), ''SASL authentication aborted''])) st)"
  let ?clear = "\<lambda>r. r\<lparr>reg_pass := []\<rparr>"
  have v: "dn_view ?st1 = (case dn_view st of (r, _, g) \<Rightarrow> (r, None, g))" by (rule endSASL_view)
  from assms(3) obtain r0 where r0: "dc_registration (dn_dc st) = Some r0" "reg_username r0 \<noteq> []"
    by (auto simp: ready_to_register_def split: option.splits)
  with v obtain r where r: "dc_registration (dn_dc ?st1) = Some r" "reg_username r = reg_username r0" "reg_pass r = reg_pass r0"
    "reg_authUsername r = reg_authUsername r0"
    by (auto simp: auth_view_def)
  have sent_by: "sent msgs ''USER'' (reg_username r)" "reg_pass r \<noteq> [] \<Longrightarrow> sent msgs ''PASS'' (reg_pass r)"
    "reg_authUsername r \<noteq> [] \<Longrightarrow> proved_by_sasl auth msgs (reg_authUsername r)"
    using assms(2) r0 r by (auto simp: reg_inv_def auth_view_def)
  have nr: "\<not> dc_registered (dn_dc st)" using assms(2) by (simp add: reg_inv_def auth_view_def)
  obtain e2 st2 where p: "pass_auth auth (reg_pass r) r (dn_upd (set_reg ?clear) ?st1) = (e2, st2)" by fastforce
  obtain e3 st3 where f: "fallback_names st2 = (e3, st3)" by fastforce
  from assms(1) r(1) nr p f have st2: "pass_auth auth (reg_pass r) r (dn_upd (set_reg ?clear) ?st1) = (None, st2)"
    and st3: "fallback_names st2 = (None, st3)"
    and st': "st' = dn_upd (\<lambda>dc. dc\<lparr>dc_registered := True, dc_username := (case dc_registration dc of None \<Rightarrow> [] | Some r \<Rightarrow> reg_authUsername r)\<rparr>) st3"
    by (cases e2; cases e3; simp add: down_register_def Let_def case_prod_beta)+
  have "dc_registration (dn_dc (dn_upd (set_reg ?clear) ?st1)) = Some (?clear r)" using r(1) by (simp add: dn_upd_def set_reg_def)
  from pass_auth_username [OF st2 this] obtain r2 where r2: "dc_registration (dn_dc st2) = Some r2"
    and how: "reg_authUsername r2 = reg_authUsername r \<and> reg_authUsername r \<noteq> []
      \<or> reg_pass r \<noteq> [] \<and> reg_authUsername r2 = fst (unmarshalUsername (reg_username r))
        \<and> (\<exists>check. a_plain auth = Some check \<and> check (reg_authUsername r2) (reg_pass r) = None)"
    by auto
  from fallback_names_username [OF st3 r2] obtain r3 where r3: "dc_registration (dn_dc st3) = Some r3" "reg_authUsername r3 = reg_authUsername r2" by blast
  then have "dc_username (dn_dc st') = reg_authUsername r2" "dc_registered (dn_dc st')" by (simp_all add: st' dn_upd_def)
  with how sent_by show ?thesis unfolding proved_by_pass_def by (metis (no_types, lifting))
qed

text \<open>C6. A client that registers has shown credentials of the user it is registered as, whatever it sends: either
  a password that it sent in \<open>PASS\<close> and the password back end accepts for the user named in its \<open>USER\<close>
  command, or an exchange of SASL whose responses it sent in \<open>AUTHENTICATE\<close> and whose credentials are
  accepted for that user: its password or that of an administrator, a token, or a device certificate.\<close>

theorem registration_authenticated:
  assumes "dn_dc st = newDownstreamConn mechanisms cert peer store remote i"
    and "down_runUntilRegistered env auth msgs st = (Registered, out, st')"
  shows "dc_registered (dn_dc st')
    \<and> (proved_by_pass auth msgs (dc_username (dn_dc st')) \<or> proved_by_sasl auth msgs (dc_username (dn_dc st')))"
proof -
  have "reg_inv auth [] (dn_view st)"
    by (simp add: assms(1) newDownstreamConn_def auth_view_def reg_inv_def)
  moreover have "reg_inv auth ms (dn_view st) \<Longrightarrow> down_runUntilRegistered env auth msgs st = (Registered, out, st')
     \<Longrightarrow> dc_registered (dn_dc st') \<and> (proved_by_pass auth (ms @ msgs) (dc_username (dn_dc st')) \<or> proved_by_sasl auth (ms @ msgs) (dc_username (dn_dc st')))" for ms
    using assms(2)
  proof (induction msgs arbitrary: st ms out)
    case (Cons m msgs)
    obtain e o1 st1 where h: "down_handleMessage env auth (\<lambda>_ st. (Some PanicError, [], st)) m st = (e, o1, st1)" by (metis prod_cases3)
    have inv: "reg_inv auth (ms @ [m]) (dn_view st1)"
      using down_handleMessage_inv [OF Cons.prems(1), of m env "\<lambda>_ st. (Some PanicError, [], st)"] h by simp
    have e: "e = None" using Cons.prems(2) h by (cases e) auto
    show ?case
    proof (cases "ready_to_register st1")
      case False
      with Cons.prems(2) h e obtain o2 where "down_runUntilRegistered env auth msgs st1 = (Registered, o2, st')"
        by (auto split: prod.splits)
      with Cons.IH [OF inv this] show ?thesis by simp
    next
      case True
      obtain e2 o2 st2 where r: "down_register env auth st1 = (e2, o2, st2)" by (metis prod_cases3)
      have "e2 = None \<and> st2 = st'"
        using Cons.prems(2) h e True r by (auto simp: case_prod_beta Let_def split: option.splits down_error.splits)
      with r have "down_register env auth st1 = (None, o2, st')" by simp
      from register_proved [OF this inv True] show ?thesis
        using proved_by_pass_mono [of auth "ms @ [m]" _ msgs] proved_by_sasl_mono [of auth "ms @ [m]" _ msgs] by auto
    qed
  qed simp
  ultimately show ?thesis using assms(2) by (metis append_Nil)
qed

section \<open>Registering with a password\<close>

definition password_auth :: "(string \<Rightarrow> string \<Rightarrow> bool) \<Rightarrow> auth_env" where
  "password_auth good = \<lparr>a_plain = Some (\<lambda>u p. if good u p then None else Some OtherErr), a_oauthBearer = None, a_clientCertAuth = False,
     a_peerCert = None, a_deviceUser = (\<lambda>_. Inr None), a_username = (\<lambda>_. Inl OtherErr), a_storeDevice = (\<lambda>_. None),
     a_getUser = (\<lambda>_. Inl OtherErr), a_saslNext = (\<lambda>_ _. None)\<rparr>"

lemma plain_command:
  assumes "c = ''PASS'' \<or> c = ''NICK'' \<or> c = ''USER''" and "\<not> dc_registered (dn_dc st)"
    and "handleMessageUnregistered env auth (mk_msg c ps) (st\<lparr>dn_label := None\<rparr>) = (None, [], st')" and "dn_label st' = None"
  shows "down_handleMessage env auth h (mk_msg c ps) st = (None, [], st')"
proof -
  have "st'\<lparr>dn_label := None\<rparr> = st'" using assms(4) by (cases st') simp
  then show ?thesis using assms by (auto simp: down_handleMessage_def fresh_label_def FlushBatch_def)
qed

definition reg_state :: "down_state \<Rightarrow> string \<Rightarrow> string \<Rightarrow> string \<Rightarrow> down_state" where
  "reg_state st pw nick raw = dn_upd (set_reg (\<lambda>r. r\<lparr>reg_pass := pw, reg_nick := nick, reg_username := raw\<rparr>)) (st\<lparr>dn_label := None\<rparr>)"

lemma set_reg_set_reg: "set_reg f (set_reg g dc) = set_reg (\<lambda>r. f (g r)) dc"
  by (simp add: set_reg_def option.map_comp comp_def)

lemma three_commands:
  assumes "dn_dc st = newDownstreamConn mechanisms cert peer store remote i"
  shows "handleMessageUnregistered env auth (mk_msg ''PASS'' [pw]) (st\<lparr>dn_label := None\<rparr>) = (None, [], reg_state st pw [] [])"
    and "handleMessageUnregistered env auth (mk_msg ''NICK'' [nick]) (reg_state st pw [] []) = (None, [], reg_state st pw nick [])"
    and "handleMessageUnregistered env auth (mk_msg ''USER'' [raw, ''0'', ''*'', real]) (reg_state st pw nick []) = (None, [], reg_state st pw nick raw)"
  by (simp_all add: handleMessageUnregistered_def need_params_def parseMessageParams_def reg_state_def dn_upd_def set_reg_set_reg assms
      newDownstreamConn_def set_reg_def)

text \<open>C7. A client with the right password gets in: after \<open>PASS\<close>, \<open>NICK\<close> and \<open>USER\<close> it is registered as the
  user that its user name names, without an error message.\<close>

theorem password_registers:
  assumes new: "dn_dc st = newDownstreamConn mechanisms cert peer store remote i"
    and "a_plain auth = Some check" and "check (fst (unmarshalUsername raw)) pw = None"
    and "pw \<noteq> []" and "nick \<noteq> []" and "raw \<noteq> []"
  shows "\<exists>st'. down_runUntilRegistered env auth [mk_msg ''PASS'' [pw], mk_msg ''NICK'' [nick], mk_msg ''USER'' [raw, ''0'', ''*'', real]] st
      = (Registered, [], st')
    \<and> dc_username (dn_dc st') = fst (unmarshalUsername raw) \<and> dc_clientName (dn_dc st') = fst (snd (unmarshalUsername raw))"
proof -
  have nr: "\<not> dc_registered (dn_dc (reg_state st a b c))" "\<not> dc_registered (dn_dc st)" "dn_label (reg_state st a b c) = None"
    "(reg_state st a b c)\<lparr>dn_label := None\<rparr> = reg_state st a b c" for a b c
    by (simp_all add: reg_state_def dn_upd_def set_reg_def new newDownstreamConn_def)
  have ready: "ready_to_register (reg_state st a b c) \<longleftrightarrow> b \<noteq> [] \<and> c \<noteq> []" for a b c
    by (simp add: ready_to_register_def reg_state_def dn_upd_def set_reg_def new newDownstreamConn_def)
  obtain u c n where u: "unmarshalUsername raw = (u, c, n)" by (metis prod_cases3)
  have "\<exists>st'. down_register env auth (reg_state st pw nick raw) = (None, [], st') \<and> dc_username (dn_dc st') = u \<and> dc_clientName (dn_dc st') = c"
    using assms(2-4) u
    by (cases "c = []")
      (simp_all add: down_register_def endSASL_def reg_state_def dn_upd_def set_reg_def new newDownstreamConn_def pass_auth_def setAuthUsername_def
        fallback_names_def Let_def)
  then obtain st' where r: "down_register env auth (reg_state st pw nick raw) = (None, [], st')" "dc_username (dn_dc st') = u" "dc_clientName (dn_dc st') = c"
    by blast
  have h: "down_handleMessage env auth h (mk_msg ''PASS'' [pw]) st = (None, [], reg_state st pw [] [])"
    "down_handleMessage env auth h (mk_msg ''NICK'' [nick]) (reg_state st pw [] []) = (None, [], reg_state st pw nick [])"
    "down_handleMessage env auth h (mk_msg ''USER'' [raw, ''0'', ''*'', real]) (reg_state st pw nick []) = (None, [], reg_state st pw nick raw)" for h
    by (rule plain_command; simp add: nr three_commands [OF new])+
  show ?thesis using r u assms(5,6) by (simp add: h ready)
qed

theorem registration_authenticated_witness:
  "\<exists>st' :: down_state. dc_registered (dn_dc st') \<and> (proved_by_pass (password_auth (\<lambda>u p. u = ''alice'' \<and> p = ''secret''))
       [mk_msg ''PASS'' [''secret''], mk_msg ''NICK'' [''al''], mk_msg ''USER'' [''alice'', ''0'', ''*'', ''A'']] (dc_username (dn_dc st'))
     \<or> proved_by_sasl (password_auth (\<lambda>u p. u = ''alice'' \<and> p = ''secret''))
       [mk_msg ''PASS'' [''secret''], mk_msg ''NICK'' [''al''], mk_msg ''USER'' [''alice'', ''0'', ''*'', ''A'']] (dc_username (dn_dc st')))"
proof -
  let ?auth = "password_auth (\<lambda>u p. u = ''alice'' \<and> p = ''secret'')"
  let ?ms = "[mk_msg ''PASS'' [''secret''], mk_msg ''NICK'' [''al''], mk_msg ''USER'' [''alice'', ''0'', ''*'', ''A'']]"
  have new: "dn_dc new_client = newDownstreamConn [''PLAIN''] False False NoStore ''192.0.2.1:1234'' 1" by (simp add: new_client_def)
  have "fst (down_runUntilRegistered example_down_env ?auth ?ms new_client) = Registered" by code_simp
  then obtain out st' where r: "down_runUntilRegistered example_down_env ?auth ?ms new_client = (Registered, out, st')"
    by (metis prod.collapse)
  show ?thesis by (rule exI [of _ st'], rule registration_authenticated [OF new r])
qed

theorem password_registers_witness:
  "\<exists>st'. down_runUntilRegistered example_down_env (password_auth (\<lambda>u p. u = ''alice'' \<and> p = ''secret''))
       [mk_msg ''PASS'' [''secret''], mk_msg ''NICK'' [''al''], mk_msg ''USER'' [''alice/net@phone'', ''0'', ''*'', ''A'']] new_client = (Registered, [], st')
    \<and> dc_username (dn_dc st') = ''alice'' \<and> dc_clientName (dn_dc st') = ''phone''"
proof -
  have "unmarshalUsername ''alice/net@phone'' = (''alice'', ''phone'', ''net'')" by code_simp
  then show ?thesis
    using password_registers [of new_client "[''PLAIN'']" False False NoStore "''192.0.2.1:1234''" 1 "password_auth (\<lambda>u p. u = ''alice'' \<and> p = ''secret'')"
        "\<lambda>u p. if u = ''alice'' \<and> p = ''secret'' then None else Some OtherErr" "''alice/net@phone''" "''secret''" "''al''" example_down_env "''A''"]
    by (simp add: new_client_def password_auth_def)
qed

end
