(* ===== verification/Downstream_Channels.thy ===== *)
theory Downstream_Channels
  imports Downstream_Register Upstream_Dispatch Networks
begin

text \<open>
  What a client is told about a channel or a conversation, \<^verbatim>\<open>src/downstream.go\<close>: the topic, the names and the
  read marker of a channel, the backlog of a target, messages of detached channels, and the metadata
  of a target.
\<close>

section \<open>Channels\<close>

text \<open>\<open>d_receipt\<close> is the read receipt that the database has of a target: absent for an error, \<open>Some None\<close> when there
  is none.  \<open>d_history\<close> are the messages that the message store has after an identifier, absent for an error;
  \<open>d_msgString\<close> is the printer of the IRC library.\<close>

record channel_env =
  d_receipt :: "int \<Rightarrow> string \<Rightarrow> int option option"
  d_history :: "int \<Rightarrow> string \<Rightarrow> string \<Rightarrow> irc_message list option"
  d_msgString :: "irc_message \<Rightarrow> string"

definition RPL_TOPICWHOTIME :: string where "RPL_TOPICWHOTIME = ''333''"

text \<open>The time of a topic is set with its author.\<close>

definition topic_seconds :: "upstream_channel \<Rightarrow> int" where
  "topic_seconds ch = (case uch_TopicTime ch of None \<Rightarrow> zero_time div 1000000000 | Some t \<Rightarrow> t div 1000000000)"

definition sendTopic :: "down_env \<Rightarrow> upstream_channel \<Rightarrow> down_op" where
  "sendTopic env ch st =
     (let nick = dc_nick (dn_dc st) in
      if uch_Topic ch \<noteq> [] then
        send_all (d_srvPrefix env)
          ([mk_msg RPL_TOPIC [nick, uch_Name ch, uch_Topic ch]]
           @ (case uch_TopicWho ch of
                None \<Rightarrow> []
              | Some who \<Rightarrow> [mk_msg RPL_TOPICWHOTIME [nick, uch_Name ch, d_prefixString env who, show_int (topic_seconds ch)]])) st
      else down_send env (mk_msg RPL_NOTOPIC [nick, uch_Name ch, ''No topic is set'']) st)"

definition channel_status :: "upstream_channel \<Rightarrow> char" where
  "channel_status ch = (case uch_Status ch of None \<Rightarrow> CHR 0x00 | Some s \<Rightarrow> s)"

definition sendNames :: "down_env \<Rightarrow> channel_env \<Rightarrow> upstream_channel \<Rightarrow> down_op" where
  "sendNames env cenv ch st =
     send_all (d_srvPrefix env)
       (GenerateNamesReply (d_msgString cenv) (uch_Name ch) (channel_status ch)
         (map (\<lambda>(nick, ms). formatMemberPrefix ms (cap_on st ''multi-prefix'') @ nick) (cmm_ForEach (uch_Members ch)))) st"

definition timestamp_param :: "int option \<Rightarrow> string" where
  "timestamp_param t = (case t of None \<Rightarrow> ''*'' | Some t \<Rightarrow> ''timestamp='' @ FormatServerTime t)"

text \<open>The read marker of a channel, in the form that the client has asked for.\<close>

definition read_marker :: "channel_env \<Rightarrow> network \<Rightarrow> upstream_channel \<Rightarrow> down_state \<Rightarrow> irc_message list" where
  "read_marker cenv net ch st =
     (let cmd = (if cap_on st ''draft/read-marker'' then ''MARKREAD'' else if cap_on st ''soju.im/read'' then ''READ'' else [])
      in if cmd = [] then []
         else (case d_receipt cenv (nid net) (n_casemap net (uch_Name ch)) of
             None \<Rightarrow> []
           | Some r \<Rightarrow> [dc_msg (dn_dc st) cmd [uch_Name ch, timestamp_param r]]))"

text \<open>The callers have checked that the channel is complete.\<close>

definition forwardChannel :: "down_env \<Rightarrow> channel_env \<Rightarrow> network \<Rightarrow> upstream_channel \<Rightarrow> down_op" where
  "forwardChannel env cenv net ch =
     do_all
       [\<lambda>st. if uch_Topic ch \<noteq> [] then sendTopic env ch st else ([], st),
        \<lambda>st. send_all (d_srvPrefix env) (read_marker cenv net ch st) st,
        \<lambda>st. if \<not> cap_on st ''soju.im/no-implicit-names'' \<and> \<not> cap_on st ''draft/no-implicit-names''
             then sendNames env cenv ch st else ([], st)]"

section \<open>Backlog\<close>

definition service_notice :: "downstream_conn \<Rightarrow> string \<Rightarrow> irc_message" where
  "service_notice dc s = (mk_msg ''NOTICE'' [dc_nick dc, s])\<lparr>Prefix := Some servicePrefix\<rparr>"

text \<open>\<open>highlight\<close> tells whether the message mentions the user.  A text message has a source, a target and a text.\<close>

definition relay_message :: "bool \<Rightarrow> downstream_conn \<Rightarrow> irc_message \<Rightarrow> irc_message list" where
  "relay_message highlight dc msg =
     (if Command msg \<noteq> ''PRIVMSG'' \<and> Command msg \<noteq> ''NOTICE'' then []
      else [service_notice dc ((if highlight then ''highlight in '' else ''message in '') @ Params msg ! 0 @ '': <'' @ msg_name msg @ ''> '' @ Params msg ! 1)])"

definition relayDetachedMessage :: "down_env \<Rightarrow> bool \<Rightarrow> irc_message \<Rightarrow> down_op" where
  "relayDetachedMessage env highlight msg st = send_all (d_srvPrefix env) (relay_message highlight (dn_dc st) msg) st"

definition with_tag :: "string \<Rightarrow> string \<Rightarrow> irc_message \<Rightarrow> irc_message" where
  "with_tag k v msg = msg\<lparr>Tags := go_put k v (Tags msg)\<rparr>"

text \<open>\<open>highlight\<close> is \<open>isHighlight\<close> of the network.\<close>

definition backlog_message :: "(irc_message \<Rightarrow> bool) \<Rightarrow> db_channel option \<Rightarrow> downstream_conn \<Rightarrow> string \<Rightarrow> irc_message \<Rightarrow> irc_message list" where
  "backlog_message highlight ch dc ref msg =
     (case ch of
        Some ch \<Rightarrow>
          if ch_Detached ch
          then if detachedMessageNeedsRelay (highlight msg) ch then relay_message (highlight msg) dc msg else []
          else [with_tag ''batch'' ref msg]
      | None \<Rightarrow> [with_tag ''batch'' ref msg])"

definition sendTargetBacklog :: "down_env \<Rightarrow> channel_env \<Rightarrow> (irc_message \<Rightarrow> bool) \<Rightarrow> network \<Rightarrow> string \<Rightarrow> string \<Rightarrow> down_op" where
  "sendTargetBacklog env cenv highlight net target msgID st =
     (if cap_on st ''draft/chathistory'' \<or> d_msgStore env = NoStore then ([], st)
      else (case d_history cenv (nid net) (n_casemap net target) msgID of
          None \<Rightarrow> ([], st)
        | Some history \<Rightarrow>
            SendBatch (d_srvPrefix env) ''chathistory'' [target] []
              (\<lambda>ref. concat (map (backlog_message highlight (cmm_Get (n_channels net) target) (dn_dc st) ref) history)) st))"

section \<open>Metadata of targets\<close>

definition target_metadata :: "downstream_conn \<Rightarrow> message_target \<Rightarrow> string \<Rightarrow> irc_message list" where
  "target_metadata dc mt ref =
     concat (map (\<lambda>k. map (with_tag ''batch'' ref) (metadata_of k mt)) (dc_metadataSubs dc))"

definition sendTargetMetadata :: "down_env \<Rightarrow> message_target \<Rightarrow> down_op" where
  "sendTargetMetadata env mt st =
     (if \<not> cap_on st ''draft/metadata-2'' then ([], st)
      else SendBatch (d_srvPrefix env) ''metadata'' [] [] (target_metadata (dn_dc st) mt) st)"

section \<open>Credentials in messages to NickServ\<close>

definition parseNickServCredentials :: "unicode_tables \<Rightarrow> string \<Rightarrow> string \<Rightarrow> (string \<times> string) option" where
  "parseNickServCredentials U txt nick =
     (case Fields txt of
        cmd # p # ps \<Rightarrow>
          let cmd = ToUpper U cmd in
          if cmd = ''REGISTER'' then Some (nick, p)
          else if cmd = ''IDENTIFY'' then Some (case ps of [] \<Rightarrow> (nick, p) | q # _ \<Rightarrow> (p, q))
          else if cmd = ''SET'' then
            Some (case ps of [q] \<Rightarrow> if EqualFold U p ''PASSWORD'' then (nick, q) else ([], []) | _ \<Rightarrow> ([], []))
          else None
      | _ \<Rightarrow> None)"

end
