(* ===== verification/Go_Flags.thy ===== *)
theory Go_Flags
  imports Go_Unicode
begin

text \<open>
  Functions of Go's standard library that the commands of the bouncer service use on their arguments: \<open>strconv.Quote\<close>,
  booleans and numbers of \<open>strconv\<close>, \<open>encoding/hex\<close>, and \<open>FlagSet.Parse\<close> of the package \<open>flag\<close>.
\<close>

section \<open>Quoted strings\<close>

text \<open>\<open>strconv.Quote\<close>; \<open>hexa\<close> writes the last digits of a number in base sixteen.\<close>

fun hexa :: "nat \<Rightarrow> nat \<Rightarrow> string" where
  "hexa 0 n = []"
| "hexa (Suc k) n = hexa k (n div 16) @ [''0123456789abcdef'' ! (n mod 16)]"

definition IsPrint :: "(rune \<Rightarrow> bool) \<Rightarrow> rune \<Rightarrow> bool" where
  "IsPrint tbl r = (if r \<le> 255 then (32 \<le> r \<and> r < 127) \<or> (161 \<le> r \<and> r \<noteq> 173) else tbl r)"

definition quote_rune :: "(rune \<Rightarrow> bool) \<Rightarrow> rune \<times> string \<Rightarrow> string" where
  "quote_rune tbl rc =
     (let r = fst rc; bs = CHR 0x5C in
      if r = RuneError \<and> length (snd rc) = 1 then bs # CHR ''x'' # hexa 2 (of_char (hd (snd rc)))
      else if r = 34 \<or> r = 92 then bs # snd rc
      else if IsPrint tbl r then snd rc
      else if 7 \<le> r \<and> r \<le> 13 then [bs, ''abtnvfr'' ! (r - 7)]
      else if r < 32 \<or> r = 127 then bs # CHR ''x'' # hexa 2 r
      else if r < 65536 then bs # CHR ''u'' # hexa 4 r
      else bs # CHR ''U'' # hexa 8 r)"

definition Quote :: "(rune \<Rightarrow> bool) \<Rightarrow> string \<Rightarrow> string" where
  "Quote tbl s = CHR 0x22 # concat (map (quote_rune tbl) (rune_chunks s)) @ [CHR 0x22]"

section \<open>Hexadecimal strings\<close>

definition hex_EncodeToString :: "string \<Rightarrow> string" where
  "hex_EncodeToString s = concat (map (\<lambda>c. hexa 2 (of_char c)) s)"

definition hex_digit :: "char \<Rightarrow> nat option" where
  "hex_digit c =
     (let n = of_char c :: nat in
      if 48 \<le> n \<and> n \<le> 57 then Some (n - 48) else if 97 \<le> n \<and> n \<le> 102 then Some (n - 87)
      else if 65 \<le> n \<and> n \<le> 70 then Some (n - 55) else None)"

fun hex_DecodeString :: "string \<Rightarrow> string option" where
  "hex_DecodeString [] = Some []"
| "hex_DecodeString [c] = None"
| "hex_DecodeString (c # d # s) =
     (case (hex_digit c, hex_digit d) of
        (Some a, Some b) \<Rightarrow> map_option ((#) (char_of (16 * a + b))) (hex_DecodeString s)
      | _ \<Rightarrow> None)"

section \<open>Booleans and numbers\<close>

definition ParseBool :: "string \<Rightarrow> bool option" where
  "ParseBool s =
     (if List.member [''1'', ''t'', ''T'', ''TRUE'', ''true'', ''True''] s then Some True
      else if List.member [''0'', ''f'', ''F'', ''FALSE'', ''false'', ''False''] s then Some False else None)"

definition byte_lower :: "char \<Rightarrow> nat" where
  "byte_lower c = (let n = of_char c :: nat in if 65 \<le> n \<and> n \<le> 90 then n + 32 else n)"

text \<open>\<open>ParseUint\<close> with base zero: the base is in the prefix, and digits may be separated by underscores.\<close>

definition uint_base :: "string \<Rightarrow> nat \<times> string" where
  "uint_base s =
     (if \<not> HasPrefix s ''0'' then (10, s)
      else if length s \<ge> 3 \<and> byte_lower (s ! 1) = 98 then (2, drop 2 s)
      else if length s \<ge> 3 \<and> byte_lower (s ! 1) = 111 then (8, drop 2 s)
      else if length s \<ge> 3 \<and> byte_lower (s ! 1) = 120 then (16, drop 2 s)
      else (8, tl s))"

definition uint_digit :: "char \<Rightarrow> nat option" where
  "uint_digit c =
     (let n = byte_lower c in
      if 48 \<le> n \<and> n \<le> 57 then Some (n - 48) else if 97 \<le> n \<and> n \<le> 122 then Some (n - 87) else None)"

fun uint_loop :: "nat \<Rightarrow> string \<Rightarrow> nat \<Rightarrow> num_error + nat" where
  "uint_loop base [] n = Inr n"
| "uint_loop base (c # s) n =
     (if c = CHR ''_'' then uint_loop base s n
      else (case uint_digit c of
          None \<Rightarrow> Inl ErrSyntax
        | Some d \<Rightarrow>
            if d \<ge> base then Inl ErrSyntax
            else if n * base + d \<ge> 2 ^ 64 then Inl ErrRange
            else uint_loop base s (n * base + d)))"

text \<open>The last character: a digit or a prefix, an underscore, something else, or none.\<close>

fun underscore_loop :: "bool \<Rightarrow> char \<Rightarrow> string \<Rightarrow> bool" where
  "underscore_loop hex i [] \<longleftrightarrow> i \<noteq> CHR ''_''"
| "underscore_loop hex i (c # s) \<longleftrightarrow>
     (if is_digit c \<or> (hex \<and> 97 \<le> byte_lower c \<and> byte_lower c \<le> 102) then underscore_loop hex CHR ''0'' s
      else if c = CHR ''_'' then i = CHR ''0'' \<and> underscore_loop hex CHR ''_'' s
      else i \<noteq> CHR ''_'' \<and> underscore_loop hex CHR ''!'' s)"

definition underscoreOK :: "string \<Rightarrow> bool" where
  "underscoreOK s =
     (if length s \<ge> 2 \<and> HasPrefix s ''0'' \<and> List.member [98, 111, 120] (byte_lower (s ! 1))
      then underscore_loop (byte_lower (s ! 1) = 120) CHR ''0'' (drop 2 s)
      else underscore_loop False CHR ''^'' s)"

definition ParseUint_base0 :: "string \<Rightarrow> num_error + nat" where
  "ParseUint_base0 s =
     (if s = [] then Inl ErrSyntax
      else (case uint_base s of
          (base, ds) \<Rightarrow>
            (case uint_loop base ds 0 of
               Inl e \<Rightarrow> Inl e
             | Inr n \<Rightarrow> if CHR ''_'' \<in> set ds \<and> \<not> underscoreOK s then Inl ErrSyntax else Inr n)))"

definition ParseInt_base0 :: "string \<Rightarrow> num_error + int" where
  "ParseInt_base0 s =
     (let (neg, ds) = (if HasPrefix s ''-'' then (True, tl s) else if HasPrefix s ''+'' then (False, tl s) else (False, s))
      in (case ParseUint_base0 ds of
            Inl e \<Rightarrow> Inl e
          | Inr n \<Rightarrow>
              if neg then (if int n > 2 ^ 63 then Inl ErrRange else Inr (- int n))
              else (if int n \<ge> 2 ^ 63 then Inl ErrRange else Inr (int n))))"

text \<open>The text of an error of \<open>strconv\<close>.\<close>

definition num_error_text :: "(rune \<Rightarrow> bool) \<Rightarrow> string \<Rightarrow> string \<Rightarrow> num_error \<Rightarrow> string" where
  "num_error_text tbl fn s e =
     ''strconv.'' @ fn @ '': parsing '' @ Quote tbl s @ '': '' @ (case e of ErrSyntax \<Rightarrow> ''invalid syntax'' | ErrRange \<Rightarrow> ''value out of range'')"

section \<open>Flags\<close>

text \<open>The kinds of flags: strings, booleans and integers of the package, and the flags of \<^verbatim>\<open>src/service.go\<close> that keep a
  pointer.  A boolean flag of the package needs no argument.  A flag that can be given several times keeps all values.\<close>

datatype flag_kind = StringFlag | BoolFlag | IntFlag | BoolPtrFlag | IntPtrFlag

datatype flag_value = VString string | VBool bool | VInt int

datatype flag_error = ErrHelp | FlagError string

type_synonym flag_values = "(string \<times> flag_value) list"

definition set_flag :: "(rune \<Rightarrow> bool) \<Rightarrow> flag_kind \<Rightarrow> string \<Rightarrow> string + flag_value" where
  "set_flag tbl k s =
     (case k of
        StringFlag \<Rightarrow> Inr (VString s)
      | BoolFlag \<Rightarrow> (case ParseBool s of None \<Rightarrow> Inl ''parse error'' | Some b \<Rightarrow> Inr (VBool b))
      | IntFlag \<Rightarrow>
          (case ParseInt_base0 s of
             Inl ErrSyntax \<Rightarrow> Inl ''parse error''
           | Inl ErrRange \<Rightarrow> Inl ''value out of range''
           | Inr i \<Rightarrow> Inr (VInt i))
      | BoolPtrFlag \<Rightarrow> (case ParseBool s of None \<Rightarrow> Inl (num_error_text tbl ''ParseBool'' s ErrSyntax) | Some b \<Rightarrow> Inr (VBool b))
      | IntPtrFlag \<Rightarrow> (case ParseInt64 s of Inl e \<Rightarrow> Inl (num_error_text tbl ''Atoi'' s e) | Inr i \<Rightarrow> Inr (VInt i)))"

text \<open>Whether an argument is a flag: \<open>None\<close> for one that ends the flags.\<close>

definition flag_name :: "string \<Rightarrow> string option" where
  "flag_name s =
     (if length s < 2 \<or> hd s \<noteq> CHR ''-'' then None else Some (if s ! 1 = CHR ''-'' then drop 2 s else tl s))"

text \<open>The name and the value after an equals sign, which cannot be first.\<close>

definition split_value :: "string \<Rightarrow> string \<times> string option" where
  "split_value name =
     (case Cut (tl name) CHR ''='' of None \<Rightarrow> (name, None) | Some (n, v) \<Rightarrow> (hd name # n, Some v))"

definition flag_next :: "bool \<Rightarrow> string option \<Rightarrow> string list \<Rightarrow> (string \<times> string list) option" where
  "flag_next b v args =
     (case v of
        Some s \<Rightarrow> Some (s, args)
      | None \<Rightarrow> if b then Some (''true'', args) else (case args of [] \<Rightarrow> None | a # args \<Rightarrow> Some (a, args)))"

definition flag_failure :: "(rune \<Rightarrow> bool) \<Rightarrow> flag_kind \<Rightarrow> string \<Rightarrow> string option \<Rightarrow> string \<Rightarrow> string \<Rightarrow> string" where
  "flag_failure tbl k name v s e =
     (if k = BoolFlag then (if v = None then ''invalid boolean flag '' @ name @ '': '' @ e
        else ''invalid boolean value '' @ Quote tbl s @ '' for -'' @ name @ '': '' @ e)
      else ''invalid value '' @ Quote tbl s @ '' for flag -'' @ name @ '': '' @ e)"

lemma flag_next_length: "flag_next b v args = Some (s, rest) \<Longrightarrow> length rest \<le> length args"
  by (auto simp: flag_next_def split: option.splits if_splits list.splits)

text \<open>\<open>Parse\<close>: the flags in the order they are set, and the other arguments.\<close>

function flag_Parse :: "(rune \<Rightarrow> bool) \<Rightarrow> (string \<times> flag_kind) list \<Rightarrow> string list \<Rightarrow> flag_error + (flag_values \<times> string list)" where
  "flag_Parse tbl formal [] = Inr ([], [])"
| "flag_Parse tbl formal (s # args) =
     (case flag_name s of
        None \<Rightarrow> Inr ([], s # args)
      | Some body \<Rightarrow>
          if s = ''--'' then Inr ([], args)
          else if body = [] \<or> hd body = CHR ''-'' \<or> hd body = CHR ''='' then Inl (FlagError (''bad flag syntax: '' @ s))
          else
            (case split_value body of
               (name, v) \<Rightarrow>
                 (case map_of formal name of
                    None \<Rightarrow>
                      if name = ''help'' \<or> name = ''h'' then Inl ErrHelp
                      else Inl (FlagError (''flag provided but not defined: -'' @ name))
                  | Some k \<Rightarrow>
                      (case flag_next (k = BoolFlag) v args of
                         None \<Rightarrow> Inl (FlagError (''flag needs an argument: -'' @ name))
                       | Some (a, rest) \<Rightarrow>
                           (case set_flag tbl k a of
                              Inl e \<Rightarrow> Inl (FlagError (flag_failure tbl k name v a e))
                            | Inr x \<Rightarrow>
                                (case flag_Parse tbl formal rest of
                                   Inl e \<Rightarrow> Inl e
                                 | Inr (xs, rest) \<Rightarrow> Inr ((name, x) # xs, rest)))))))"
  by pat_completeness auto
termination
  by (relation "measure (\<lambda>(_, _, args). length args)") (auto dest: flag_next_length)

declare flag_Parse.simps [simp del]

text \<open>The last value of a flag, and all values of a flag that keeps them.\<close>

definition flag_get :: "flag_values \<Rightarrow> string \<Rightarrow> flag_value option" where
  "flag_get fs name = map_of (rev fs) name"

definition flag_string :: "flag_values \<Rightarrow> string \<Rightarrow> string option" where
  "flag_string fs name = (case flag_get fs name of Some (VString s) \<Rightarrow> Some s | _ \<Rightarrow> None)"

definition flag_bool :: "flag_values \<Rightarrow> string \<Rightarrow> bool option" where
  "flag_bool fs name = (case flag_get fs name of Some (VBool b) \<Rightarrow> Some b | _ \<Rightarrow> None)"

definition flag_int :: "flag_values \<Rightarrow> string \<Rightarrow> int option" where
  "flag_int fs name = (case flag_get fs name of Some (VInt i) \<Rightarrow> Some i | _ \<Rightarrow> None)"

definition flag_strings :: "flag_values \<Rightarrow> string \<Rightarrow> string list" where
  "flag_strings fs name = concat (map (\<lambda>(n, x). case x of VString s \<Rightarrow> if n = name then [s] else [] | _ \<Rightarrow> []) fs)"

section \<open>Round trips\<close>

text \<open>A plain flag name neither is empty nor has a dash in front or an equals sign.\<close>

definition plain_flag :: "string \<Rightarrow> bool" where
  "plain_flag name \<longleftrightarrow> name \<noteq> [] \<and> hd name \<noteq> CHR ''-'' \<and> CHR ''='' \<notin> set name"

text \<open>A string flag with its value as the next argument, and an argument that ends the flags.\<close>

definition write_flag :: "string \<times> string \<Rightarrow> string list" where
  "write_flag nv = [CHR ''-'' # fst nv, snd nv]"

lemma flag_Parse_string:
  assumes "plain_flag name" and "map_of formal name = Some StringFlag"
  shows "flag_Parse tbl formal ((CHR ''-'' # name) # v # args)
    = map_sum id (apfst ((#) (name, VString v))) (flag_Parse tbl formal args)"
proof -
  from assms(1) obtain c n where name: "name = c # n" "c \<noteq> CHR ''-''" "c \<noteq> CHR ''=''" "CHR ''='' \<notin> set n"
    by (cases name) (auto simp: plain_flag_def)
  then have "split_value name = (name, None)" by (simp add: split_value_def Cut_None [THEN iffD2, of "CHR ''=''" n])
  moreover have "flag_name (CHR ''-'' # name) = Some name" using name by (simp add: flag_name_def)
  ultimately show ?thesis
    using name(1-3) assms(2)
    by (subst flag_Parse.simps(2)) (simp add: flag_next_def set_flag_def split: sum.split)
qed

lemma flag_Parse_strings:
  assumes "list_all (\<lambda>(name, v). plain_flag name \<and> map_of formal name = Some StringFlag) flags"
    and "args = [] \<or> flag_name (hd args) = None"
  shows "flag_Parse tbl formal (concat (map write_flag flags) @ args)
    = Inr (map (\<lambda>(name, v). (name, VString v)) flags, args)"
  using assms
proof (induction flags)
  case Nil
  then show ?case by (cases args) (simp_all add: flag_Parse.simps)
next
  case (Cons f flags)
  then show ?case by (cases f) (simp add: write_flag_def flag_Parse_string)
qed

lemma hex_digit_nth: "n < 16 \<Longrightarrow> hex_digit (''0123456789abcdef'' ! n) = Some n"
proof -
  assume "n < 16"
  then have "n \<in> set [0..<16]" by simp
  moreover have "list_all (\<lambda>n. hex_digit (''0123456789abcdef'' ! n) = Some n) [0..<16]" by code_simp
  ultimately show ?thesis unfolding list_all_iff by blast
qed

lemma hex_roundtrip: "hex_DecodeString (hex_EncodeToString s) = Some s"
proof (induction s)
  case (Cons c s)
  have "(of_char c :: nat) div 16 < 16" by (rule less_mult_imp_div_less) simp
  moreover have "16 * ((of_char c :: nat) div 16) + of_char c mod 16 = of_char c" by simp
  ultimately show ?case
    using Cons by (simp add: hex_EncodeToString_def numeral_2_eq_2 hex_digit_nth)
qed (simp add: hex_EncodeToString_def)

end
