(* ===== verification/User_World.thy ===== *)
theory User_World
  imports Downstream_Channels Service_Commands Go_Flags
begin

text \<open>
  The state of a user with all connections, on which the event loop of \<^verbatim>\<open>src/user.go\<close> works: the networks with
  their upstream connections, the clients, and the label contexts of the command that is handled.

  The theories of the components describe what a step asks of other components as a list of actions; here
  these actions run: on a client they send messages through its own state, the rest leaves the
  user's goroutine and is listed.  The actions of a step run in order after the step, on the state it left.
\<close>

section \<open>State and environment\<close>

text \<open>\<open>w_labels\<close> holds the label contexts that the Go context carries for connections, by their identifier;
  \<open>w_orphanTimers\<close> are the timers of channel objects that a network has lost.\<close>

record user_world =
  w_user :: user_state
  w_labels :: "(64 word, label_context) gomap"
  w_shutdown :: "64 word list"
  w_orphanTimers :: "nat \<Rightarrow> string list"

text \<open>What leaves the goroutine of the user: messages to clients, closed connections, actions on an upstream
  connection and its network, actions on the list of networks, broadcasts to all users, and writes to
  the database.\<close>

record user_update =
  up_password :: "string option"
  up_admin :: "bool option"
  up_enabled :: "bool option"
  up_maxNetworks :: "int option"

text \<open>What is posted to the queue of another user.\<close>

datatype posted = PostUpdate user_update | PostRun "string list" | PostStop | PostBroadcast irc_message

datatype w_action =
    WOut "64 word" irc_message
  | WClose "64 word"
  | WUp nat up_action
  | WUser user_action
  | WBroadcast irc_message
  | WStoreReceipt int string int
  | WStoreTarget int message_target
  | WStoreCert string string
  | WDeleteCert string
  | WStoreSub int string
  | WDeleteSub int
  | WPush nat irc_message
  | WPost string posted
  | WCreateUser db_user
  | WDeleteUser int
  | WDebug bool

record load_options =
  lo_Network :: int
  lo_Entity :: string
  lo_Limit :: int
  lo_Events :: bool

record search_options =
  so_Start :: "int option"
  so_End :: "int option"
  so_Limit :: int
  so_From :: string
  so_In :: string
  so_Text :: string

record device_certificate =
  cert_ID :: int
  cert_Label :: string
  cert_Fingerprint :: string
  cert_LastUsed :: int
  cert_LastIP :: string

record web_push_subscription =
  sub_ID :: int
  sub_Endpoint :: string
  sub_Auth :: string
  sub_P256DH :: string
  sub_VAPID :: string
  sub_CreatedAt :: int
  sub_UpdatedAt :: int

datatype store_outcome = Stored | Duplicate | StoreFailed

datatype key_kind = RSAKey int | ECDSAKey | Ed25519Key

text \<open>What the bouncer service reads of the server and of libraries: the users with their records, \<open>None\<close> or an
  error text for what fails.  \<open>sv_update\<close>, \<open>sv_run\<close> and \<open>sv_stop\<close> are the answers of another user to what is posted;
  \<open>sv_posted\<close> tells whether a message could be posted before the context was done, \<open>sv_ctxError\<close> is the error of
  a context that is done, \<open>sv_queued\<close> the number of events that wait in the own queue.\<close>

record server_env =
  sv_users :: "db_user list"
  sv_listNetworks :: "int \<Rightarrow> db_network list option"
  sv_update :: "string \<Rightarrow> user_update \<Rightarrow> string option"
  sv_run :: "string \<Rightarrow> string list \<Rightarrow> (string \<times> string option) list"
  sv_stop :: "string \<Rightarrow> string option"
  sv_deleteUser :: "int \<Rightarrow> bool"
  sv_posted :: "string \<Rightarrow> bool"
  sv_ctxError :: string
  sv_queued :: nat
  sv_dbError :: string
  sv_dbStats :: "(int \<times> int \<times> int) option"
  sv_serverStats :: "int \<times> int \<times> int"
  sv_hashPassword :: "string \<Rightarrow> string + string"
  sv_sha1 :: "string \<Rightarrow> string"
  sv_sha256 :: "string \<Rightarrow> string"
  sv_sha512 :: "string \<Rightarrow> string"
  sv_generateKey :: "key_kind \<Rightarrow> string + (string \<times> string)"
  sv_marshalKey :: "string option \<Rightarrow> string + string"
  sv_createCertificate :: "string \<Rightarrow> string \<Rightarrow> string + string"
  sv_parseMessage :: "string \<Rightarrow> string + irc_message"
  sv_parseDuration :: "string \<Rightarrow> int option"
  sv_formatDateTime :: "int \<Rightarrow> string"

text \<open>What a step reads and does not change.  The answers of the database and of the message store are absent or
  \<open>False\<close> for an error.  \<open>we_parseTags\<close> is the tag parser of the
  IRC library, \<open>we_peerCert\<close> the hash of the certificate that a client sent, \<open>we_print\<close> the table of printable characters
  beyond U+00FF, \<open>we_formatLocal\<close> the layout of server times in the location of the time, \<open>we_netErrorText\<close> the texts of
  errors on networks.  \<open>we_storeChannel\<close> gives the identifier of the stored channel.  \<open>we_loadBefore\<close>, \<open>we_loadAfter\<close> and
  \<open>we_targets\<close> are the loads of a store with chat history.\<close>

record world_env =
  we_user :: user_env
  we_down :: down_env
  we_channel :: channel_env
  we_auth :: auth_env
  we_bare :: bare_codec
  we_hostname :: string
  we_motd :: string
  we_enableUsersOnAuth :: bool
  we_parseTags :: "string \<Rightarrow> irc_tags"
  we_storeReceipt :: "int \<Rightarrow> string \<Rightarrow> int \<Rightarrow> bool"
  we_lastMsgID :: "int \<Rightarrow> string \<Rightarrow> string option"
  we_append :: "int \<Rightarrow> string \<Rightarrow> irc_message \<Rightarrow> string option"
  we_getTarget :: "int \<Rightarrow> string \<Rightarrow> message_target option"
  we_storeTarget :: "int \<Rightarrow> message_target \<Rightarrow> bool"
  we_listTargets :: "int \<Rightarrow> message_target list option"
  we_loadBefore :: "int \<Rightarrow> int \<Rightarrow> load_options \<Rightarrow> irc_message list option"
  we_loadAfter :: "int \<Rightarrow> int \<Rightarrow> load_options \<Rightarrow> irc_message list option"
  we_targets :: "int \<Rightarrow> int \<Rightarrow> int \<Rightarrow> int \<Rightarrow> bool \<Rightarrow> (string \<times> int) list option"
  we_search :: "int \<Rightarrow> search_options \<Rightarrow> irc_message list option"
  we_peerCert :: "64 word \<Rightarrow> string option"
  we_print :: "rune \<Rightarrow> bool"
  we_formatLocal :: "int \<Rightarrow> string"
  we_listCerts :: "device_certificate list option"
  we_storeCert :: "string \<Rightarrow> string \<Rightarrow> store_outcome"
  we_deleteCert :: "string \<Rightarrow> bool"
  we_listSubs :: "int \<Rightarrow> web_push_subscription list option"
  we_storeSub :: "int \<Rightarrow> web_push_subscription \<Rightarrow> bool"
  we_deleteSub :: "int \<Rightarrow> bool"
  we_testPush :: "web_push_subscription \<Rightarrow> bool"
  we_sanityCheckServer :: "string \<Rightarrow> bool"
  we_storeChannel :: "db_channel \<Rightarrow> int option"
  we_server :: server_env
  we_netErrorText :: "net_error \<Rightarrow> string"

abbreviation we_now :: "world_env \<Rightarrow> int" where
  "we_now env \<equiv> e_now (ue_up (we_user env))"

abbreviation we_unicode :: "world_env \<Rightarrow> unicode_tables" where
  "we_unicode env \<equiv> d_unicode (we_down env)"

type_synonym w_op = "user_world \<Rightarrow> w_action list \<times> user_world"

fun do_ops :: "w_op list \<Rightarrow> w_op" where
  "do_ops [] w = ([], w)"
| "do_ops (f # fs) w = (let (acts, w) = f w; (acts', w) = do_ops fs w in (acts @ acts', w))"

definition emit :: "w_action list \<Rightarrow> w_op" where
  "emit acts w = (acts, w)"

abbreviation nothing :: w_op where
  "nothing \<equiv> emit []"

section \<open>Clients\<close>

definition clients :: "user_world \<Rightarrow> downstream_conn list" where
  "clients w = u_downstreamConns (w_user w)"

definition client :: "64 word \<Rightarrow> user_world \<Rightarrow> downstream_conn option" where
  "client i w = downstreamByID (clients w) i"

definition client_network :: "user_world \<Rightarrow> downstream_conn \<Rightarrow> network option" where
  "client_network w dc = (case dc_network dc of None \<Rightarrow> None | Some ref \<Rightarrow> network_by_ref (w_user w) ref)"

definition down_env_of :: "world_env \<Rightarrow> user_world \<Rightarrow> network option \<Rightarrow> down_env" where
  "down_env_of env w net = (we_down env)\<lparr>d_user := Some (u_record (w_user w)), d_net := net, d_msgStore := u_msgStore (w_user w),
     d_messageTargets := (case net of None \<Rightarrow> None | Some n \<Rightarrow> we_listTargets env (nid n))\<rparr>"

definition down_state_of :: "user_world \<Rightarrow> downstream_conn \<Rightarrow> down_state" where
  "down_state_of w dc = \<lparr>dn_dc = dc, dn_label = go_get (w_labels w) (dc_id dc), dn_shutdown = List.member (w_shutdown w) (dc_id dc)\<rparr>"

definition set_clients :: "(downstream_conn list \<Rightarrow> downstream_conn list) \<Rightarrow> user_world \<Rightarrow> user_world" where
  "set_clients f w = w\<lparr>w_user := (w_user w)\<lparr>u_downstreamConns := f (clients w)\<rparr>\<rparr>"

definition set_label :: "64 word \<Rightarrow> label_context option \<Rightarrow> user_world \<Rightarrow> user_world" where
  "set_label i l w = w\<lparr>w_labels := (case l of None \<Rightarrow> go_del i (w_labels w) | Some l \<Rightarrow> go_put i l (w_labels w))\<rparr>"

definition put_client :: "64 word \<Rightarrow> down_state \<Rightarrow> user_world \<Rightarrow> user_world" where
  "put_client i st w =
     set_label i (dn_label st)
       ((set_clients (map (\<lambda>dc. if dc_id dc = i then (dn_dc st)\<lparr>dc_id := i\<rparr> else dc)) w)
          \<lparr>w_shutdown := (if dn_shutdown st then i # w_shutdown w else w_shutdown w)\<rparr>)"

text \<open>An operation of a client, with the environment that its network gives it.\<close>

definition on_client :: "world_env \<Rightarrow> 64 word \<Rightarrow> (down_env \<Rightarrow> down_op) \<Rightarrow> w_op" where
  "on_client env i f w =
     (case client i w of
        None \<Rightarrow> ([], w)
      | Some dc \<Rightarrow>
          let (out, st) = f (down_env_of env w (client_network w dc)) (down_state_of w dc)
          in (map (WOut i) out, put_client i st w))"

definition say :: "world_env \<Rightarrow> 64 word \<Rightarrow> irc_message \<Rightarrow> w_op" where
  "say env i msg = on_client env i (\<lambda>denv. down_send denv msg)"

definition say_all :: "world_env \<Rightarrow> 64 word \<Rightarrow> irc_message list \<Rightarrow> w_op" where
  "say_all env i msgs = on_client env i (\<lambda>denv. send_all (d_srvPrefix denv) msgs)"

definition update_client :: "world_env \<Rightarrow> 64 word \<Rightarrow> (downstream_conn \<Rightarrow> downstream_conn) \<Rightarrow> w_op" where
  "update_client env i f = on_client env i (\<lambda>_. set_dc f)"

definition close_client :: "64 word \<Rightarrow> w_op" where
  "close_client i w = ([WClose i], set_clients (map (\<lambda>dc. if dc_id dc = i then dc\<lparr>dc_closed := True\<rparr> else dc)) w)"

section \<open>Networks\<close>

definition put_network :: "nat \<Rightarrow> network \<Rightarrow> user_world \<Rightarrow> user_world" where
  "put_network ref n w = w\<lparr>w_user := map_network ref (\<lambda>_. n) (w_user w)\<rparr>"

text \<open>The state of a network with its connection, for the steps of \<^verbatim>\<open>src/upstream.go\<close>.\<close>

definition up_state_of :: "user_world \<Rightarrow> network \<Rightarrow> upstream_conn \<Rightarrow> up_state" where
  "up_state_of w n uc = \<lparr>us_uc = uc, us_net = n, us_current = True, us_orphanTimers = w_orphanTimers w (n_ref n)\<rparr>"

definition put_up_state :: "up_state \<Rightarrow> network \<Rightarrow> user_world \<Rightarrow> user_world" where
  "put_up_state st n w =
     (put_network (n_ref n) ((us_net st)\<lparr>n_ref := n_ref n, n_conn := Some (us_uc st)\<rparr>) w)
       \<lparr>w_orphanTimers := (w_orphanTimers w)(n_ref n := us_orphanTimers st)\<rparr>"

text \<open>The answers of the database and of the message store are those for the network.\<close>

definition world_up_env :: "world_env \<Rightarrow> user_world \<Rightarrow> network \<Rightarrow> up_env" where
  "world_up_env env w n = (up_env_of (we_user env) (w_user w))\<lparr>
     e_lastMsgID := we_lastMsgID env (nid n), e_append := we_append env (nid n),
     e_messageTarget := (\<lambda>t. map_option (\<lambda>mt. (mt_Muted mt, mt_Blocked mt)) (we_getTarget env (nid n) t))\<rparr>"

definition msg_highlight :: "world_env \<Rightarrow> user_world \<Rightarrow> network \<Rightarrow> irc_message \<Rightarrow> bool" where
  "msg_highlight env w n msg =
     (net_isHighlight (world_up_env env w n)
        \<lparr>us_uc = (case n_conn n of Some uc \<Rightarrow> uc | None \<Rightarrow> new_upstream_conn), us_net = n, us_current = (n_conn n \<noteq> None), us_orphanTimers = []\<rparr>
        msg = Some True)"

section \<open>Running actions\<close>

definition forward_to :: "world_env \<Rightarrow> nat \<Rightarrow> string \<Rightarrow> user_world \<Rightarrow> down_env \<Rightarrow> down_op" where
  "forward_to env ref name w denv =
     (case network_by_ref (w_user w) ref of
        Some n \<Rightarrow>
          (case n_conn n of
             Some uc \<Rightarrow>
               (case cmm_Get (uc_channels uc) name of
                  Some ch \<Rightarrow> forwardChannel denv (we_channel env) n ch
                | None \<Rightarrow> (\<lambda>st. ([], st)))
           | None \<Rightarrow> (\<lambda>st. ([], st)))
      | None \<Rightarrow> (\<lambda>st. ([], st)))"

definition backlog_to :: "world_env \<Rightarrow> nat \<Rightarrow> string \<Rightarrow> string \<Rightarrow> user_world \<Rightarrow> down_env \<Rightarrow> down_op" where
  "backlog_to env ref target msgID w denv =
     (case network_by_ref (w_user w) ref of
        Some n \<Rightarrow> sendTargetBacklog denv (we_channel env) (msg_highlight env w n) n target msgID
      | None \<Rightarrow> (\<lambda>st. ([], st)))"

definition relay_to :: "world_env \<Rightarrow> nat \<Rightarrow> irc_message \<Rightarrow> user_world \<Rightarrow> down_env \<Rightarrow> down_op" where
  "relay_to env ref msg w denv =
     (case network_by_ref (w_user w) ref of
        Some n \<Rightarrow> relayDetachedMessage denv (msg_highlight env w n msg) msg
      | None \<Rightarrow> (\<lambda>st. ([], st)))"

fun run_up_action :: "world_env \<Rightarrow> nat \<Rightarrow> up_action \<Rightarrow> w_op" where
  "run_up_action env ref (ADown i msg) w = say env i msg w"
| "run_up_action env ref (ASendWithID i msg mid) w = on_client env i (\<lambda>d. sendMessageWithID (d_srvPrefix d) msg mid) w"
| "run_up_action env ref (AAdvanceWithID i msg mid) w = on_client env i (\<lambda>d. advanceMessageWithID (d_srvPrefix d) msg mid) w"
| "run_up_action env ref (AUpdateNick i) w = on_client env i (\<lambda>d. updateNick d (u_record (w_user w))) w"
| "run_up_action env ref (AUpdateHost i) w = on_client env i updateHost w"
| "run_up_action env ref (AUpdateRealname i) w = on_client env i (\<lambda>d. updateRealname d (u_record (w_user w))) w"
| "run_up_action env ref (AUpdateAccount i) w = on_client env i (\<lambda>d. updateAccount d (u_record (w_user w))) w"
| "run_up_action env ref (AUpdateSupportedCaps i) w = on_client env i updateSupportedCaps w"
| "run_up_action env ref (AUpdateIsupport i) w = on_client env i updateIsupport w"
| "run_up_action env ref (AUpdateCasemapping i) w = on_client env i (\<lambda>d. set_dc (updateCasemapping d)) w"
| "run_up_action env ref (AForwardChannel i name) w = on_client env i (forward_to env ref name w) w"
| "run_up_action env ref (ABacklog i target mid) w = on_client env i (backlog_to env ref target mid w) w"
| "run_up_action env ref (ARelayDetached i msg) w = on_client env i (relay_to env ref msg w) w"
| "run_up_action env ref (AEndSASL i msg) w = on_client env i (\<lambda>d. endSASL d (Some msg)) w"
| "run_up_action env ref (ALabel i l b) w = ([], set_label i (Some \<lparr>lc_label = l, lc_batch = b, lc_pendingMsg = None\<rparr>) w)"
| "run_up_action env ref (AClearLabel i) w = ([], set_label i (map_option (\<lambda>lc. lc\<lparr>lc_label := []\<rparr>) (go_get (w_labels w) i)) w)"
| "run_up_action env ref (AFlushBatch i) w = on_client env i (\<lambda>_ st. (FlushBatch st, st)) w"
| "run_up_action env ref act w = ([WUp ref act], w)"

definition run_up_actions :: "world_env \<Rightarrow> nat \<Rightarrow> up_action list \<Rightarrow> w_op" where
  "run_up_actions env ref acts = do_ops (map (run_up_action env ref) acts)"

fun run_user_action :: "world_env \<Rightarrow> user_action \<Rightarrow> w_op" where
  "run_user_action env (UEffect (DownSend i msg)) w = say env i msg w"
| "run_user_action env (UEffect (DownClose i)) w = close_client i w"
| "run_user_action env (UEffect (DownEndSASL i msg)) w = on_client env i (\<lambda>d. endSASL d (Some msg)) w"
| "run_user_action env (UUp ref act) w = run_up_action env ref act w"
| "run_user_action env (UUpdateCaps i) w = on_client env i updateSupportedCaps w"
| "run_user_action env (UUpdateCasemapping i) w = on_client env i (\<lambda>d. set_dc (updateCasemapping d)) w"
| "run_user_action env act w = ([WUser act], w)"

definition run_user_actions :: "world_env \<Rightarrow> user_action list \<Rightarrow> w_op" where
  "run_user_actions env acts = do_ops (map (run_user_action env) acts)"

text \<open>A step of the upstream connection of the network \<open>ref\<close>, and one of the user's list of networks.\<close>

definition on_upstream :: "world_env \<Rightarrow> nat \<Rightarrow> (up_env \<Rightarrow> up_state \<Rightarrow> up_action list \<times> up_state) \<Rightarrow> w_op" where
  "on_upstream env ref f w =
     (case network_by_ref (w_user w) ref of
        None \<Rightarrow> ([], w)
      | Some n \<Rightarrow>
          (case n_conn n of
             None \<Rightarrow> ([], w)
           | Some uc \<Rightarrow>
               let (acts, st) = f (world_up_env env w n) (up_state_of w n uc)
               in run_up_actions env ref acts (put_up_state st n w)))"

text \<open>A step of a network that may be disconnected.\<close>

definition on_network :: "world_env \<Rightarrow> nat \<Rightarrow> (up_env \<Rightarrow> up_state \<Rightarrow> up_action list \<times> up_state) \<Rightarrow> w_op" where
  "on_network env ref f w =
     (case network_by_ref (w_user w) ref of
        None \<Rightarrow> ([], w)
      | Some n \<Rightarrow>
          (case n_conn n of
             Some _ \<Rightarrow> on_upstream env ref f w
           | None \<Rightarrow>
               let (acts, st) = f (world_up_env env w n) ((up_state_of w n new_upstream_conn)\<lparr>us_current := False\<rparr>)
               in run_up_actions env ref acts (put_network ref ((us_net st)\<lparr>n_ref := ref, n_conn := None\<rparr>) w)))"

definition on_user :: "world_env \<Rightarrow> (user_env \<Rightarrow> user_state \<Rightarrow> 'r \<times> user_action list \<times> user_state) \<Rightarrow> user_world \<Rightarrow> 'r \<times> w_action list \<times> user_world" where
  "on_user env f w =
     (let (r, acts, u) = f (we_user env) (w_user w); (acts, w) = run_user_actions env acts (w\<lparr>w_user := u\<rparr>) in (r, acts, w))"

end
