(* ===== verification/Client_Commands.thy ===== *)
theory Client_Commands
  imports User_World
begin

text \<open>
  Commands of a registered client, the first half of \<open>handleMessageRegistered\<close> in \<^verbatim>\<open>src/downstream.go\<close>: nick and
  real name, channels, names and users.

  A command works on the user's state; it ends with an error, or none, and the actions that left the
  goroutine.  \<open>dc\<close> is the connection as the command found it.
\<close>

section \<open>Commands\<close>

type_synonym w_cmd = "user_world \<Rightarrow> down_error option \<times> w_action list \<times> user_world"

definition run_op :: "w_op \<Rightarrow> w_cmd" where
  "run_op f w = (let (acts, w) = f w in (None, acts, w))"

definition reject :: "down_error \<Rightarrow> w_cmd" where
  "reject e w = (Some e, [], w)"

abbreviation reject_with :: "string \<Rightarrow> string list \<Rightarrow> w_cmd" where
  "reject_with cmd ps \<equiv> reject (IrcError (mk_msg cmd ps))"

abbreviation skip :: w_cmd where
  "skip \<equiv> run_op nothing"

text \<open>Commands in sequence, up to the first error.\<close>

fun do_cmds :: "w_cmd list \<Rightarrow> w_cmd" where
  "do_cmds [] w = (None, [], w)"
| "do_cmds (c # cs) w =
     (case c w of
        (Some e, acts, w) \<Rightarrow> (Some e, acts, w)
      | (None, acts, w) \<Rightarrow> (case do_cmds cs w of (e, acts', w) \<Rightarrow> (e, acts @ acts', w)))"

definition with_params :: "nat \<Rightarrow> irc_message \<Rightarrow> (string list \<Rightarrow> w_cmd) \<Rightarrow> w_cmd" where
  "with_params n msg f =
     (case parseMessageParams msg n of Inl _ \<Rightarrow> reject (newNeedMoreParamsError (Command msg)) | Inr ps \<Rightarrow> f ps)"

definition param_or :: "irc_message \<Rightarrow> nat \<Rightarrow> string \<Rightarrow> string" where
  "param_or msg n s = (if n < length (Params msg) then Params msg ! n else s)"

text \<open>A step of the client with a result of its own.\<close>

definition on_client_result ::
    "world_env \<Rightarrow> 64 word \<Rightarrow> (down_env \<Rightarrow> down_state \<Rightarrow> 'r \<times> irc_message list \<times> down_state) \<Rightarrow> 'r \<Rightarrow> user_world \<Rightarrow> 'r \<times> w_action list \<times> user_world" where
  "on_client_result env i f r w =
     (case client i w of
        None \<Rightarrow> (r, [], w)
      | Some dc \<Rightarrow>
          let (r, out, st) = f (down_env_of env w (client_network w dc)) (down_state_of w dc)
          in (r, map (WOut i) out, put_client i st w))"

definition newUnknownIRCError :: "string \<Rightarrow> string \<Rightarrow> down_error" where
  "newUnknownIRCError cmd s = IrcError (mk_msg ''400'' [''*'', cmd, s])"

definition upstreamForCommand :: "downstream_conn \<Rightarrow> string \<Rightarrow> (network \<Rightarrow> upstream_conn \<Rightarrow> w_cmd) \<Rightarrow> w_cmd" where
  "upstreamForCommand dc cmd f w =
     (case client_network w dc of
        None \<Rightarrow> reject (newUnknownIRCError cmd
          ''Cannot interact with channels and users on the bouncer connection. Did you mean to use a specific network?'') w
      | Some n \<Rightarrow>
          (case n_conn n of
             None \<Rightarrow> reject (newUnknownIRCError cmd ''Disconnected from upstream network'') w
           | Some uc \<Rightarrow> f n uc w))"

section \<open>Messages to the server\<close>

definition drop_label :: "64 word \<Rightarrow> w_op" where
  "drop_label i w = ([], set_label i (map_option (\<lambda>lc. lc\<lparr>lc_label := []\<rparr>) (go_get (w_labels w) i)) w)"

text \<open>The connection of a network after a step of its queue.\<close>

definition put_conn :: "network \<Rightarrow> upstream_conn \<Rightarrow> user_world \<Rightarrow> user_world" where
  "put_conn n uc w = put_network (n_ref n) (n\<lparr>n_conn := Some uc\<rparr>) w"

text \<open>\<open>SendMessageLabeled\<close> with the label of the command, which it uses up; sending after a reply to the same
  label is a panic.  \<open>useLabel\<close> is false in a context without the label.\<close>

definition send_labeled :: "64 word \<Rightarrow> nat \<Rightarrow> bool \<Rightarrow> irc_message \<Rightarrow> w_cmd" where
  "send_labeled i ref useLabel msg w =
     (case network_by_ref (w_user w) ref of
        None \<Rightarrow> (None, [], w)
      | Some n \<Rightarrow>
          (case n_conn n of
             None \<Rightarrow> (None, [], w)
           | Some uc \<Rightarrow>
               let lc = (if useLabel then go_get (w_labels w) i else None) in
               if (case lc of None \<Rightarrow> False | Some lc \<Rightarrow> lc_pendingMsg lc \<noteq> None \<or> lc_batch lc \<noteq> []) then (Some PanicError, [], w)
               else
                 let label = (case lc of None \<Rightarrow> [] | Some lc \<Rightarrow> lc_label lc);
                     (msg, uc) = SendMessageLabeled uc i label msg;
                     w = (if useLabel then snd (drop_label i w) else w)
                 in (None, [WUp ref (ASend (upstream_SendMessage uc msg))], put_conn n uc w)))"

definition enqueue :: "world_env \<Rightarrow> 64 word \<Rightarrow> nat \<Rightarrow> irc_message \<Rightarrow> w_cmd" where
  "enqueue env i ref msg w =
     (case network_by_ref (w_user w) ref of
        None \<Rightarrow> (None, [], w)
      | Some n \<Rightarrow>
          (case n_conn n of
             None \<Rightarrow> (None, [], w)
           | Some uc \<Rightarrow>
               let label = (case go_get (w_labels w) i of None \<Rightarrow> [] | Some lc \<Rightarrow> lc_label lc); w = snd (drop_label i w) in
               (case enqueueCommand (we_now env) i label msg uc of
                  None \<Rightarrow> (Some PanicError, [], w)
                | Some (msgs, uc) \<Rightarrow> (None, map (\<lambda>m. WUp ref (ASend m)) msgs, put_conn n uc w))))"

text \<open>Several targets drop the label, because local and remote replies may mix.\<close>

definition drop_label_if_several :: "64 word \<Rightarrow> string list \<Rightarrow> w_cmd" where
  "drop_label_if_several i names = (if length names > 1 then run_op (drop_label i) else skip)"

section \<open>Liveness and identity\<close>

definition cmd_PING :: "world_env \<Rightarrow> downstream_conn \<Rightarrow> irc_message \<Rightarrow> w_cmd" where
  "cmd_PING env dc msg = with_params 1 msg (\<lambda>ps.
     let destination = param_or msg 1 [] in
     if destination \<noteq> [] \<and> destination \<noteq> we_hostname env then reject_with ''402'' [dc_nick dc, destination, ''No such server'']
     else run_op (say env (dc_id dc) (srv_msg (we_down env) ''PONG'' [we_hostname env, hd ps])))"

definition cmd_PONG :: "world_env \<Rightarrow> downstream_conn \<Rightarrow> irc_message \<Rightarrow> w_cmd" where
  "cmd_PONG env dc msg w =
     (if Params msg = [] then reject (newNeedMoreParamsError (Command msg)) w
      else (None, [], w\<lparr>w_user := (w_user w)\<lparr>u_networks :=
             handlePong (we_bare env) (dc_clientName dc) (last (Params msg)) (u_networks (w_user w))\<rparr>\<rparr>))"

definition illegalNickChars :: string where "illegalNickChars = '' :@!*?$,.''"
definition illegalChanChars :: string where "illegalChanChars = [CHR '' '', CHR '','', CHR 0x07]"

definition ContainsAny :: "string \<Rightarrow> string \<Rightarrow> bool" where
  "ContainsAny s cs \<longleftrightarrow> list_ex (List.member cs) s"

definition set_network_record :: "nat \<Rightarrow> (db_network \<Rightarrow> db_network) \<Rightarrow> w_op" where
  "set_network_record ref f w = ([], w\<lparr>w_user := map_network ref (\<lambda>n. n\<lparr>n_record := f (n_record n)\<rparr>) (w_user w)\<rparr>)"

text \<open>The clients that are not bound to a network.\<close>

definition bouncer_clients :: "user_world \<Rightarrow> downstream_conn list" where
  "bouncer_clients w = filter (\<lambda>dc. dc_network dc = None) (clients w)"

definition update_bouncer_nicks :: "world_env \<Rightarrow> w_op" where
  "update_bouncer_nicks env w =
     do_ops (map (\<lambda>c. on_client env (dc_id c) (\<lambda>d. updateNick d (u_record (w_user w)))) (bouncer_clients w)) w"

definition update_bouncer_realnames :: "world_env \<Rightarrow> w_op" where
  "update_bouncer_realnames env w =
     do_ops (map (\<lambda>c. on_client env (dc_id c) (\<lambda>d. updateRealname d (u_record (w_user w)))) (bouncer_clients w)) w"

text \<open>A change of the user's record; the error is the reply.\<close>

definition change_user :: "world_env \<Rightarrow> (db_user \<Rightarrow> db_user) \<Rightarrow> irc_message \<Rightarrow> w_cmd" where
  "change_user env f reply w =
     (case on_user env (\<lambda>uenv. updateUser uenv (\<lambda>r. Some (f r))) w of
        (None, acts, w) \<Rightarrow> (None, acts, w)
      | (Some NetPanic, acts, w) \<Rightarrow> (Some PanicError, acts, w)
      | (Some _, acts, w) \<Rightarrow> (Some (IrcError reply), acts, w))"

definition change_network :: "world_env \<Rightarrow> db_network \<Rightarrow> irc_message \<Rightarrow> w_cmd" where
  "change_network env r reply w =
     (case on_user env (\<lambda>uenv. updateNetwork uenv r False) w of
        (Inr _, acts, w) \<Rightarrow> (None, acts, w)
      | (Inl NetPanic, acts, w) \<Rightarrow> (Some PanicError, acts, w)
      | (Inl _, acts, w) \<Rightarrow> (Some (IrcError reply), acts, w))"

text \<open>Storing a record of a network in the database only.\<close>

definition store_network :: "world_env \<Rightarrow> db_network \<Rightarrow> irc_message \<Rightarrow> w_cmd" where
  "store_network env r reply w =
     (case ue_storeNetwork (we_user env) (network_ids (w_user w)) r of
        None \<Rightarrow> reject (IrcError reply) w
      | Some _ \<Rightarrow> run_op (emit [WUser (UEffect (DbStoreNetwork r))]) w)"

definition nick_failed :: "downstream_conn \<Rightarrow> irc_message" where
  "nick_failed dc = mk_msg ''400'' [dc_nick dc, ''NICK'', ''Failed to update nick'']"

definition cmd_NICK :: "world_env \<Rightarrow> downstream_conn \<Rightarrow> irc_message \<Rightarrow> w_cmd" where
  "cmd_NICK env dc msg = with_params 1 msg (\<lambda>ps w.
     let nick = hd ps; i = dc_id dc in
     if nick = [] \<or> ContainsAny nick illegalNickChars
     then reject_with ''432'' [dc_nick dc, nick, ''Nickname contains illegal characters''] w
     else if dc_casemap dc nick = serviceNickCM
     then reject_with ''433'' [dc_nick dc, nick, ''Nickname reserved for bouncer service''] w
     else (case client_network w dc of
         Some n \<Rightarrow>
           do_cmds
             [store_network env ((n_record n)\<lparr>net_Nick := nick\<rparr>) (nick_failed dc),
              run_op (set_network_record (n_ref n) (\<lambda>r. r\<lparr>net_Nick := nick\<rparr>)),
              (case n_conn n of
                 Some _ \<Rightarrow> send_labeled i (n_ref n) True (mk_msg ''NICK'' [nick])
               | None \<Rightarrow> run_op (on_client env i (\<lambda>d. updateNick d (u_record (w_user w)))))] w
       | None \<Rightarrow>
           do_cmds [change_user env (\<lambda>r. r\<lparr>user_Nick := nick\<rparr>) (nick_failed dc), run_op (update_bouncer_nicks env)] w))"

definition realname_failed :: irc_message where
  "realname_failed = mk_msg ''FAIL'' [''SETNAME'', ''CANNOT_CHANGE_REALNAME'', ''Failed to update realname'']"

definition cmd_SETNAME :: "world_env \<Rightarrow> downstream_conn \<Rightarrow> irc_message \<Rightarrow> w_cmd" where
  "cmd_SETNAME env dc msg = with_params 1 msg (\<lambda>ps w.
     let realname = hd ps; i = dc_id dc in
     if dc_realname dc = realname then run_op (say env i (dc_msg dc ''SETNAME'' [realname])) w
     else (case client_network w dc of
         Some n \<Rightarrow>
           let r = (n_record n)\<lparr>net_Realname := (if realname = user_Realname (u_record (w_user w)) then [] else realname)\<rparr> in
           if (case n_conn n of None \<Rightarrow> False | Some uc \<Rightarrow> caps_IsEnabled (uc_caps uc) ''setname'') then
             do_cmds [send_labeled i (n_ref n) True (mk_msg ''SETNAME'' [realname]), store_network env r realname_failed] w
           else change_network env r realname_failed w
       | None \<Rightarrow>
           do_cmds [change_user env (\<lambda>r. r\<lparr>user_Realname := realname\<rparr>) realname_failed, run_op (update_bouncer_realnames env)] w))"

section \<open>Channels\<close>

text \<open>Storing a channel of the network \<open>ref\<close>; the database gives a new channel its identifier.\<close>

definition store_channel :: "world_env \<Rightarrow> nat \<Rightarrow> string \<Rightarrow> w_op" where
  "store_channel env ref name w =
     (case network_by_ref (w_user w) ref of
        None \<Rightarrow> ([], w)
      | Some n \<Rightarrow>
          (case cmm_Get (n_channels n) name of
             None \<Rightarrow> ([], w)
           | Some ch \<Rightarrow>
               (case we_storeChannel env ch of
                  None \<Rightarrow> ([], w)
                | Some i \<Rightarrow>
                    ([WUp ref (AStoreChannel ch)],
                     put_network ref (n\<lparr>n_channels := cmm_Set (n_channels n) name (ch\<lparr>ch_ID := i\<rparr>)\<rparr>) w))))"

definition new_db_channel :: "string \<Rightarrow> string \<Rightarrow> bool \<Rightarrow> db_channel" where
  "new_db_channel name key detached = \<lparr>ch_ID = 0, ch_Name = name, ch_Key = key, ch_Detached = detached, ch_DetachedInternalMsgID = [],
     ch_RelayDetached = FilterDefault, ch_ReattachOn = FilterDefault, ch_DetachAfter = 0, ch_DetachOn = FilterDefault\<rparr>"

text \<open>The channel is attached, or noted with its key; a key that is set is not cleared.\<close>

definition join_channel :: "string \<Rightarrow> string \<Rightarrow> up_env \<Rightarrow> up_state \<Rightarrow> up_action list \<times> up_state" where
  "join_channel name key env st =
     (case cmm_Get (n_channels (us_net st)) name of
        Some ch \<Rightarrow>
          let ch = (if key \<noteq> [] then ch\<lparr>ch_Key := key\<rparr> else ch)
          in net_attach env ch (set_db_channel ch st)
      | None \<Rightarrow> ([], set_db_channel (new_db_channel name key False) st))"

definition join_one :: "world_env \<Rightarrow> downstream_conn \<Rightarrow> nat \<Rightarrow> upstream_conn \<Rightarrow> string \<times> string \<Rightarrow> w_cmd" where
  "join_one env dc ref uc nk =
     (let i = dc_id dc; name = fst nk; key = snd nk in
      if name = [] \<or> ContainsAny name illegalChanChars
      then run_op (say env i (mk_msg ''476'' [dc_nick dc, name, ''Invalid channel name'']))
      else if \<not> isChannel uc name
      then run_op (say env i (mk_msg ''403'' [dc_nick dc, name, ''Not a channel name'']))
      else do_cmds
        [if cmm_Has (uc_channels uc) name then skip
         else send_labeled i ref True (mk_msg ''JOIN'' (name # (if key \<noteq> [] then [key] else []))),
         run_op (on_upstream env ref (join_channel name key)),
         run_op (store_channel env ref name)])"

text \<open>The keys of a \<open>JOIN\<close>, as many as there are names.\<close>

definition join_keys :: "irc_message \<Rightarrow> string list \<Rightarrow> (string \<times> string) list" where
  "join_keys msg names =
     (let keys = (if length (Params msg) > 1 then Split (Params msg ! 1) CHR '','' else [])
      in map (\<lambda>k. (names ! k, if k < length keys then keys ! k else [])) [0..<length names])"

definition cmd_JOIN :: "world_env \<Rightarrow> downstream_conn \<Rightarrow> irc_message \<Rightarrow> w_cmd" where
  "cmd_JOIN env dc msg = upstreamForCommand dc (Command msg) (\<lambda>n uc. with_params 1 msg (\<lambda>ps.
     let names = Split (hd ps) CHR '','' in
     do_cmds (drop_label_if_several (dc_id dc) names # map (join_one env dc (n_ref n) uc) (join_keys msg names))))"

definition detach_channel :: "string \<Rightarrow> up_env \<Rightarrow> up_state \<Rightarrow> up_action list \<times> up_state" where
  "detach_channel name env st =
     (case cmm_Get (n_channels (us_net st)) name of
        Some ch \<Rightarrow> net_detach env ch st
      | None \<Rightarrow> ([], set_db_channel (new_db_channel name [] True) st))"

text \<open>\<open>deleteChannel\<close> and the removal of the target of notifications; the error is only logged.\<close>

definition forget_channel :: "world_env \<Rightarrow> nat \<Rightarrow> string \<Rightarrow> w_op" where
  "forget_channel env ref name w =
     (case network_by_ref (w_user w) ref of
        None \<Rightarrow> ([], w)
      | Some n \<Rightarrow>
          (case deleteChannel (we_user env) n name of
             (_, acts, n) \<Rightarrow> (map WUser acts, put_network ref (n\<lparr>n_pushTargets := cmm_Del (n_pushTargets n) name\<rparr>) w)))"

definition part_one :: "world_env \<Rightarrow> downstream_conn \<Rightarrow> nat \<Rightarrow> string \<Rightarrow> string \<Rightarrow> w_cmd" where
  "part_one env dc ref reason name =
     (if EqualFold (we_unicode env) reason ''detach''
      then do_cmds [run_op (on_upstream env ref (detach_channel name)), run_op (store_channel env ref name)]
      else do_cmds
        [send_labeled (dc_id dc) ref True (mk_msg ''PART'' (name # (if reason \<noteq> [] then [reason] else []))),
         run_op (forget_channel env ref name)])"

definition cmd_PART :: "world_env \<Rightarrow> downstream_conn \<Rightarrow> irc_message \<Rightarrow> w_cmd" where
  "cmd_PART env dc msg = upstreamForCommand dc (Command msg) (\<lambda>n uc. with_params 1 msg (\<lambda>ps.
     let names = Split (hd ps) CHR '','' in
     do_cmds (drop_label_if_several (dc_id dc) names # map (part_one env dc (n_ref n) (param_or msg 1 [])) names)))"

text \<open>\<open>KICK\<close> and \<open>INVITE\<close> are passed on.\<close>

definition pass_on :: "downstream_conn \<Rightarrow> irc_message \<Rightarrow> w_cmd" where
  "pass_on dc msg = upstreamForCommand dc (Command msg) (\<lambda>n uc. send_labeled (dc_id dc) (n_ref n) True msg)"

definition user_mode_reply :: "user_world \<Rightarrow> downstream_conn \<Rightarrow> irc_message" where
  "user_mode_reply w dc = mk_msg ''221'' [dc_nick dc, ''+'' @
     (case client_network w dc of None \<Rightarrow> [] | Some n \<Rightarrow> (case n_conn n of None \<Rightarrow> [] | Some uc \<Rightarrow> uc_modes uc))]"

definition channel_mode_replies :: "downstream_conn \<Rightarrow> string \<Rightarrow> channel_modes \<Rightarrow> string \<Rightarrow> irc_message list" where
  "channel_mode_replies dc name modes creationTime =
     (let (modeStr, modeParams) = channelModes_Format modes
      in mk_msg ''324'' ([dc_nick dc, name, modeStr] @ modeParams)
         # (if creationTime \<noteq> [] then [mk_msg ''329'' [dc_nick dc, name, creationTime]] else []))"

definition cmd_MODE :: "world_env \<Rightarrow> downstream_conn \<Rightarrow> irc_message \<Rightarrow> w_cmd" where
  "cmd_MODE env dc msg = with_params 1 msg (\<lambda>ps w.
     let name = hd ps; modeStr = param_or msg 1 []; i = dc_id dc in
     if dc_casemap dc name = dc_nickCM dc then
       (if modeStr \<noteq> [] then pass_on dc msg w else run_op (say env i (user_mode_reply w dc)) w)
     else upstreamForCommand dc (Command msg) (\<lambda>n uc.
       if \<not> isChannel uc name then reject_with ''502'' [dc_nick dc, ''Cannot change mode for other users'']
       else if modeStr \<noteq> [] then send_labeled i (n_ref n) True (mk_msg ''MODE'' ([name, modeStr] @ drop 2 (Params msg)))
       else (case cmm_Get (uc_channels uc) name of
           None \<Rightarrow> send_labeled i (n_ref n) True msg
         | Some ch \<Rightarrow>
             (case uch_modes ch of
                None \<Rightarrow> skip
              | Some modes \<Rightarrow> run_op (say_all env i (channel_mode_replies dc name modes (uch_creationTime ch)))))) w)"

definition cmd_TOPIC :: "world_env \<Rightarrow> downstream_conn \<Rightarrow> irc_message \<Rightarrow> w_cmd" where
  "cmd_TOPIC env dc msg = with_params 1 msg (\<lambda>ps. upstreamForCommand dc (Command msg) (\<lambda>n uc.
     if length (Params msg) > 1 then send_labeled (dc_id dc) (n_ref n) True (mk_msg ''TOPIC'' [hd ps, Params msg ! 1])
     else (case cmm_Get (uc_channels uc) (hd ps) of
         None \<Rightarrow> send_labeled (dc_id dc) (n_ref n) True msg
       | Some ch \<Rightarrow> run_op (on_client env (dc_id dc) (\<lambda>d. sendTopic d ch)))))"

definition cmd_LIST :: "world_env \<Rightarrow> downstream_conn \<Rightarrow> irc_message \<Rightarrow> w_cmd" where
  "cmd_LIST env dc msg = upstreamForCommand dc (Command msg) (\<lambda>n uc. enqueue env (dc_id dc) (n_ref n) msg)"

definition names_one :: "world_env \<Rightarrow> downstream_conn \<Rightarrow> nat \<Rightarrow> upstream_conn \<Rightarrow> string \<Rightarrow> w_cmd" where
  "names_one env dc ref uc name =
     (case cmm_Get (uc_channels uc) name of
        Some ch \<Rightarrow> run_op (on_client env (dc_id dc) (\<lambda>d. sendNames d (we_channel env) ch))
      | None \<Rightarrow> send_labeled (dc_id dc) ref True (mk_msg ''NAMES'' [name]))"

definition cmd_NAMES :: "world_env \<Rightarrow> downstream_conn \<Rightarrow> irc_message \<Rightarrow> w_cmd" where
  "cmd_NAMES env dc msg = upstreamForCommand dc (Command msg) (\<lambda>n uc.
     case Params msg of
       [] \<Rightarrow> run_op (say env (dc_id dc) (mk_msg ''366'' [dc_nick dc, ''*'', ''End of /NAMES list'']))
     | p # _ \<Rightarrow>
         let channels = Split p CHR '','' in
         do_cmds (drop_label_if_several (dc_id dc) channels # map (names_one env dc (n_ref n) uc) channels))"

section \<open>Users\<close>

definition end_of_who :: "string \<Rightarrow> irc_message" where
  "end_of_who token = mk_msg RPL_ENDOFWHO [''*'', token, ''End of /WHO list'']"

definition own_who_info :: "world_env \<Rightarrow> user_world \<Rightarrow> downstream_conn \<Rightarrow> string \<Rightarrow> whox_info" where
  "own_who_info env w dc token = (let usr = u_record (w_user w) in
     \<lparr>Token = token, wi_Channel = [], Username = user_Username usr, Hostname = dc_hostname dc, Server = we_hostname env,
      Nickname = dc_nick dc, Flags = (if dc_away dc \<noteq> None then ''G'' else ''H'') @ (if user_Admin usr then ''*'' else []),
      Account = user_Username usr, Realname = dc_realname dc\<rparr>)"

definition serviceRealname :: string where "serviceRealname = ''soju bouncer service''"

definition service_who_flags :: "network option \<Rightarrow> string" where
  "service_who_flags net = ''H*'' @
     (case net of
        None \<Rightarrow> ''B''
      | Some n \<Rightarrow>
          (case n_conn n of
             None \<Rightarrow> []
           | Some uc \<Rightarrow>
               (case go_get (uc_isupport uc) ''BOT'' of
                  Some (Some v) \<Rightarrow> if length v = 1 then v else []
                | _ \<Rightarrow> [])))"

definition service_who_info :: "world_env \<Rightarrow> network option \<Rightarrow> string \<Rightarrow> whox_info" where
  "service_who_info env net token = \<lparr>Token = token, wi_Channel = [], Username = User servicePrefix, Hostname = Host servicePrefix,
     Server = we_hostname env, Nickname = serviceNick, Flags = service_who_flags net, Account = serviceNick, Realname = serviceRealname\<rparr>"

text \<open>Membership prefixes come after the away status and the mark of a server operator.\<close>

definition insert_prefixes :: "string \<Rightarrow> string \<Rightarrow> string" where
  "insert_prefixes prefixes flgs = takeWhile (List.member ''GH*'') flgs @ prefixes @ dropWhile (List.member ''GH*'') flgs"

text \<open>One reply from the cache; absent for a nil dereference.\<close>

definition cached_who_info :: "upstream_conn \<Rightarrow> bool \<Rightarrow> string \<Rightarrow> string \<Rightarrow> upstream_user \<Rightarrow> whox_info option" where
  "cached_who_info uc multiPrefix token msk uu =
     (let info = \<lparr>Token = token, wi_Channel = [], Username = uu_Username uu, Hostname = uu_Hostname uu, Server = uu_Server uu,
            Nickname = uu_Nickname uu, Flags = uu_Flags uu, Account = uu_Account uu, Realname = uu_Realname uu\<rparr>
      in if \<not> isChannel uc msk then Some info
         else (case cmm_Get (uc_channels uc) msk of
             None \<Rightarrow> None
           | Some ch \<Rightarrow>
               (case cmm_Get (uch_Members ch) (Nickname info) of
                  None \<Rightarrow> None
                | Some ms \<Rightarrow> Some (info\<lparr>wi_Channel := msk, Flags := insert_prefixes (formatMemberPrefix ms multiPrefix) (Flags info)\<rparr>))))"

fun who_replies :: "world_env \<Rightarrow> 64 word \<Rightarrow> string \<Rightarrow> whox_info option list \<Rightarrow> w_cmd" where
  "who_replies env i flds [] = skip"
| "who_replies env i flds (None # infos) = reject PanicError"
| "who_replies env i flds (Some info # infos) =
     do_cmds [run_op (say env i (GenerateWHOXReply flds info)), who_replies env i flds infos]"

definition cmd_WHO :: "world_env \<Rightarrow> downstream_conn \<Rightarrow> irc_message \<Rightarrow> w_cmd" where
  "cmd_WHO env dc msg w =
     (let i = dc_id dc in
      case Params msg of
        [] \<Rightarrow> run_op (say env i (end_of_who ''*'')) w
      | msk # _ \<Rightarrow>
          let (flds, token) = ParseWHOXOptions (we_unicode env) (param_or msg 1 []); maskCM = dc_casemap dc msk; net = client_network w dc in
          if net = None \<and> maskCM = dc_nickCM dc
          then run_op (say_all env i [GenerateWHOXReply flds (own_who_info env w dc token), end_of_who msk]) w
          else if maskCM = serviceNickCM
          then run_op (say_all env i [GenerateWHOXReply flds (service_who_info env net token), end_of_who msk]) w
          else if net = None then run_op (say env i (end_of_who msk)) w
          else upstreamForCommand dc (Command msg) (\<lambda>n uc.
            case getCachedWHO uc msk flds of
              Some l \<Rightarrow>
                do_cmds
                  [who_replies env i flds (map (cached_who_info uc (caps_IsEnabled (dc_caps dc) ''multi-prefix'') token msk) l),
                   run_op (say env i (end_of_who msk))]
            | None \<Rightarrow> enqueue env i (n_ref n) msg) w)"

definition whois_self :: "world_env \<Rightarrow> db_user \<Rightarrow> downstream_conn \<Rightarrow> irc_message list" where
  "whois_self env usr dc = (let n = dc_nick dc in
     [mk_msg ''311'' [n, n, user_Username usr, dc_hostname dc, ''*'', dc_realname dc],
      mk_msg ''312'' [n, n, we_hostname env, ''soju'']]
     @ (if user_Admin usr then [mk_msg ''313'' [n, n, ''is a bouncer administrator'']] else [])
     @ [mk_msg ''330'' [n, n, user_Username usr, ''is logged in as''], mk_msg ''318'' [n, n, ''End of /WHOIS list'']])"

definition whois_service :: "world_env \<Rightarrow> downstream_conn \<Rightarrow> irc_message list" where
  "whois_service env dc = (let n = dc_nick dc; s = serviceNick in
     [mk_msg ''311'' [n, s, User servicePrefix, Host servicePrefix, ''*'', serviceRealname],
      mk_msg ''312'' [n, s, we_hostname env, ''soju''],
      mk_msg ''313'' [n, s, ''is the bouncer service''],
      mk_msg ''330'' [n, s, s, ''is logged in as''],
      mk_msg ''335'' [n, s, ''is a bot''],
      mk_msg ''318'' [n, s, ''End of /WHOIS list'']])"

definition cmd_WHOIS :: "world_env \<Rightarrow> downstream_conn \<Rightarrow> irc_message \<Rightarrow> w_cmd" where
  "cmd_WHOIS env dc msg w =
     (case Params msg of
        [] \<Rightarrow> reject_with ''431'' [dc_nick dc, ''No nickname given''] w
      | p # ps \<Rightarrow>
          let msk = takeWhile (\<lambda>c. c \<noteq> CHR '','') (case ps of [] \<Rightarrow> p | q # _ \<Rightarrow> q); maskCM = dc_casemap dc msk in
          if client_network w dc = None \<and> maskCM = dc_nickCM dc
          then run_op (say_all env (dc_id dc) (whois_self env (u_record (w_user w)) dc)) w
          else if maskCM = serviceNickCM then run_op (say_all env (dc_id dc) (whois_service env dc)) w
          else upstreamForCommand dc (Command msg) (\<lambda>n uc. enqueue env (dc_id dc) (n_ref n) msg) w)"

end
