(* ===== verification/Service_Handlers.thy ===== *)
theory Service_Handlers
  imports Client_Commands
begin

text \<open>
  The handlers of the bouncer service, \<^verbatim>\<open>src/service.go\<close>, for the networks, the certificates and credentials of networks,
  channels and device certificates of a user.  A handler gets its arguments and works on the state of the user; it
  returns its result, the lines it prints and the actions it takes.
\<close>

section \<open>Results\<close>

text \<open>A handler fails with a text, panics, or waits for ever.\<close>

datatype handler_error = Failed string | Panics | Hangs

type_synonym svc_result = "handler_error handler_result \<times> string list \<times> w_action list \<times> user_world"

type_synonym svc_cmd = "user_world \<Rightarrow> svc_result"

definition fail :: "string \<Rightarrow> svc_cmd" where
  "fail s w = (HandlerFail (Failed s), [], [], w)"

definition answer :: "string list \<Rightarrow> svc_cmd" where
  "answer out w = (HandlerOk, out, [], w)"

definition op_then :: "w_op \<Rightarrow> svc_cmd \<Rightarrow> svc_cmd" where
  "op_then f k w = (let (acts, w) = f w; (r, out, acts', w) = k w in (r, out, acts @ acts', w))"

text \<open>A step with a result and the continuation for it, and one on the list of networks.\<close>

definition cmd_then :: "(user_world \<Rightarrow> 'r \<times> w_action list \<times> user_world) \<Rightarrow> ('r \<Rightarrow> svc_cmd) \<Rightarrow> svc_cmd" where
  "cmd_then f k w = (let (r, acts, w) = f w; (res, out, acts', w) = k r w in (res, out, acts @ acts', w))"

definition user_then :: "world_env \<Rightarrow> (user_env \<Rightarrow> user_state \<Rightarrow> 'r \<times> user_action list \<times> user_state) \<Rightarrow> ('r \<Rightarrow> svc_cmd) \<Rightarrow> svc_cmd" where
  "user_then env f = cmd_then (on_user env f)"

definition net_failed :: "world_env \<Rightarrow> string \<Rightarrow> net_error \<Rightarrow> svc_cmd" where
  "net_failed env prefix e w =
     (case e of NetPanic \<Rightarrow> (HandlerFail Panics, [], [], w) | _ \<Rightarrow> fail (prefix @ we_netErrorText env e) w)"

abbreviation quoted :: "world_env \<Rightarrow> string \<Rightarrow> string" where
  "quoted env \<equiv> Quote (we_print env)"

abbreviation we_dbError :: "world_env \<Rightarrow> string" where
  "we_dbError env \<equiv> sv_dbError (we_server env)"

section \<open>Arguments\<close>

definition with_flags :: "world_env \<Rightarrow> (string \<times> flag_kind) list \<Rightarrow> string list \<Rightarrow> (flag_values \<Rightarrow> string list \<Rightarrow> svc_cmd) \<Rightarrow> svc_cmd" where
  "with_flags env formal params k w =
     (case flag_Parse (we_print env) formal params of
        Inl ErrHelp \<Rightarrow> (HandlerHelp, [], [], w)
      | Inl (FlagError s) \<Rightarrow> fail s w
      | Inr (fs, args) \<Rightarrow> k fs args w)"

definition only_flags :: "world_env \<Rightarrow> (string \<times> flag_kind) list \<Rightarrow> string list \<Rightarrow> (flag_values \<Rightarrow> svc_cmd) \<Rightarrow> svc_cmd" where
  "only_flags env formal params k =
     with_flags env formal params (\<lambda>fs args. if args \<noteq> [] then fail (''unexpected argument: '' @ hd args) else k fs)"

definition string_or :: "string \<Rightarrow> string option \<Rightarrow> string" where
  "string_or d v = (case v of None \<Rightarrow> d | Some s \<Rightarrow> s)"

definition popArg :: "string list \<Rightarrow> string \<times> string list" where
  "popArg params = (if params \<noteq> [] \<and> \<not> HasPrefix (hd params) ''-'' then (hd params, tl params) else ([], params))"

definition ctx_network :: "service_context \<Rightarrow> user_world \<Rightarrow> network option" where
  "ctx_network ctx w = (case sc_network ctx of None \<Rightarrow> None | Some ref \<Rightarrow> network_by_ref (w_user w) ref)"

definition find_network :: "world_env \<Rightarrow> service_context \<Rightarrow> string \<Rightarrow> string \<Rightarrow> (network \<Rightarrow> svc_cmd) \<Rightarrow> svc_cmd" where
  "find_network env ctx missing name k w =
     (if name = [] then (case ctx_network ctx w of None \<Rightarrow> fail missing w | Some n \<Rightarrow> k n w)
      else (case getNetwork (w_user w) name of
          None \<Rightarrow> fail (''unknown network '' @ quoted env name) w
        | Some n \<Rightarrow> k n w))"

definition getNetworkFromArg :: "world_env \<Rightarrow> service_context \<Rightarrow> string list \<Rightarrow> (network \<Rightarrow> string list \<Rightarrow> svc_cmd) \<Rightarrow> svc_cmd" where
  "getNetworkFromArg env ctx params k =
     (case popArg params of
        (name, rest) \<Rightarrow> find_network env ctx ''no network selected, a name argument is required'' name (\<lambda>n. k n rest))"

definition getNetworkFromFlag :: "world_env \<Rightarrow> service_context \<Rightarrow> string \<Rightarrow> (network \<Rightarrow> svc_cmd) \<Rightarrow> svc_cmd" where
  "getNetworkFromFlag env ctx name = find_network env ctx ''no network selected, -network is required'' name"

section \<open>Networks\<close>

definition newNetworkFlagSet :: "(string \<times> flag_kind) list" where
  "newNetworkFlagSet = [(''addr'', StringFlag), (''name'', StringFlag), (''nick'', StringFlag), (''username'', StringFlag),
     (''pass'', StringFlag), (''realname'', StringFlag), (''certfp'', StringFlag), (''auto-away'', BoolPtrFlag), (''enabled'', BoolPtrFlag),
     (''ignore-limit'', BoolFlag), (''connect-command'', StringFlag)]"

definition update_addr :: "world_env \<Rightarrow> string option \<Rightarrow> db_network \<Rightarrow> string + db_network" where
  "update_addr env addr r =
     (case addr of
        None \<Rightarrow> Inr r
      | Some a \<Rightarrow>
          (case Index a ''://'' of
             Some k \<Rightarrow>
               if List.member [''ircs'', ''irc+insecure'', ''unix''] (take k a) then Inr (r\<lparr>net_Addr := a\<rparr>)
               else Inl (''unknown scheme '' @ quoted env (take k a) @ '' (supported schemes: ircs, irc+insecure, unix)'')
           | None \<Rightarrow> Inr (r\<lparr>net_Addr := a\<rparr>)))"

definition update_name :: "world_env \<Rightarrow> string option \<Rightarrow> db_network \<Rightarrow> string + db_network" where
  "update_name env name r =
     (case name of
        None \<Rightarrow> Inr r
      | Some s \<Rightarrow> if s = ''*'' then Inl (''the network name '' @ quoted env s @ '' is reserved'') else Inr (r\<lparr>net_Name := s\<rparr>))"

definition without_colons :: "string \<Rightarrow> string" where
  "without_colons s = filter (\<lambda>c. c \<noteq> CHR '':'') s"

definition update_certfp :: "world_env \<Rightarrow> string option \<Rightarrow> db_network \<Rightarrow> string + db_network" where
  "update_certfp env certfp r =
     (case certfp of
        None \<Rightarrow> Inr r
      | Some s \<Rightarrow>
          let fp = ToLower (we_unicode env) (without_colons s) in
          if hex_DecodeString fp = None then Inl ''the certificate fingerprint must be hex-encoded''
          else if fp = [] then Inr (r\<lparr>net_CertFP := []\<rparr>)
          else if length fp = 64 then Inr (r\<lparr>net_CertFP := ''sha-256:'' @ fp\<rparr>)
          else if length fp = 128 then Inr (r\<lparr>net_CertFP := ''sha-512:'' @ fp\<rparr>)
          else Inl ''the certificate fingerprint must be a SHA256 or SHA512 hash'')"

fun check_commands :: "world_env \<Rightarrow> string list \<Rightarrow> string option" where
  "check_commands env [] = None"
| "check_commands env (c # cs) =
     (case sv_parseMessage (we_server env) c of
        Inl e \<Rightarrow> Some (''flag -connect-command must be a valid raw irc command string: '' @ quoted env c @ '': '' @ e)
      | Inr _ \<Rightarrow> check_commands env cs)"

definition update_commands :: "world_env \<Rightarrow> string list \<Rightarrow> db_network \<Rightarrow> string + db_network" where
  "update_commands env cs r =
     (if cs = [] then Inr r
      else if cs = [[]] then Inr (r\<lparr>net_ConnectCommands := []\<rparr>)
      else if length cs > 20 then Inl ''too many -connect-command flags supplied''
      else (case check_commands env cs of Some e \<Rightarrow> Inl e | None \<Rightarrow> Inr (r\<lparr>net_ConnectCommands := cs\<rparr>)))"

definition sum_bind :: "'e + 'a \<Rightarrow> ('a \<Rightarrow> 'e + 'b) \<Rightarrow> 'e + 'b" where
  "sum_bind x f = (case x of Inl e \<Rightarrow> Inl e | Inr a \<Rightarrow> f a)"

definition networkFlagSet_update :: "world_env \<Rightarrow> flag_values \<Rightarrow> db_network \<Rightarrow> string + db_network" where
  "networkFlagSet_update env fs r =
     sum_bind (update_addr env (flag_string fs ''addr'') r) (\<lambda>r.
     sum_bind (update_name env (flag_string fs ''name'') r) (\<lambda>r.
       let r = r\<lparr>net_Nick := string_or (net_Nick r) (flag_string fs ''nick''), net_Username := string_or (net_Username r) (flag_string fs ''username''),
                net_Pass := string_or (net_Pass r) (flag_string fs ''pass''), net_Realname := string_or (net_Realname r) (flag_string fs ''realname'')\<rparr> in
     sum_bind (update_certfp env (flag_string fs ''certfp'') r) (\<lambda>r.
       let r = (case flag_bool fs ''auto-away'' of None \<Rightarrow> r | Some b \<Rightarrow> r\<lparr>net_AutoAway := b\<rparr>);
           r = (case flag_bool fs ''enabled'' of None \<Rightarrow> r | Some b \<Rightarrow> r\<lparr>net_Enabled := b\<rparr>) in
     update_commands env (flag_strings fs ''connect-command'') r)))"

definition ignore_limit :: "flag_values \<Rightarrow> bool" where
  "ignore_limit fs \<longleftrightarrow> flag_bool fs ''ignore-limit'' = Some True"

definition name_of_ref :: "nat \<Rightarrow> user_world \<Rightarrow> string" where
  "name_of_ref ref w = (case network_by_ref (w_user w) ref of None \<Rightarrow> [] | Some n \<Rightarrow> net_name n)"

definition handleServiceNetworkCreate :: "world_env \<Rightarrow> service_context \<Rightarrow> string list \<Rightarrow> svc_cmd" where
  "handleServiceNetworkCreate env ctx params = only_flags env newNetworkFlagSet params (\<lambda>fs.
     case flag_string fs ''addr'' of
       None \<Rightarrow> fail ''flag -addr is required''
     | Some addr \<Rightarrow>
         if ignore_limit fs \<and> \<not> sc_admin ctx then fail ''you must be an admin to use the flag -ignore-limit''
         else (case networkFlagSet_update env fs (NewNetwork addr) of
             Inl e \<Rightarrow> fail e
           | Inr r \<Rightarrow> user_then env (\<lambda>uenv. createNetwork uenv r (\<not> ignore_limit fs)) (\<lambda>res.
               case res of
                 Inl e \<Rightarrow> net_failed env ''could not create network: '' e
               | Inr ref \<Rightarrow> (\<lambda>w. answer [''created network '' @ quoted env (name_of_ref ref w)] w))))"

definition network_status :: "world_env \<Rightarrow> service_context \<Rightarrow> network \<Rightarrow> string" where
  "network_status env ctx n =
     (let (status, details) = (case n_conn n of
            Some uc \<Rightarrow>
              (if sc_nick ctx \<noteq> [] \<and> sc_nick ctx \<noteq> uc_nick uc then ''connected as '' @ uc_nick uc else ''connected'',
               show_nat (cmm_Len (uc_channels uc)) @ '' channels'')
          | None \<Rightarrow>
              if \<not> net_Enabled (n_record n) then (''disabled'', [])
              else (''disconnected'', string_or [] (n_lastError n)));
          statuses = status # (if sc_network ctx = Some (n_ref n) then [''current''] else []);
          name = net_name n;
          name = (if name \<noteq> net_Addr (n_record n) then name @ '' ('' @ net_Addr (n_record n) @ '')'' else name)
      in name @ '' ['' @ Join statuses '', '' @ '']'' @ (if details \<noteq> [] then '': '' @ details else []))"

definition handleServiceNetworkStatus :: "world_env \<Rightarrow> service_context \<Rightarrow> string list \<Rightarrow> svc_cmd" where
  "handleServiceNetworkStatus env ctx params w =
     (if params \<noteq> [] then fail ''expected no argument'' w
      else if u_networks (w_user w) = [] then answer [''No network configured, add one with '' @ [CHR 0x22] @ ''network create'' @ [CHR 0x22] @ ''.''] w
      else answer (map (network_status env ctx) (u_networks (w_user w))) w)"

definition handleServiceNetworkUpdate :: "world_env \<Rightarrow> service_context \<Rightarrow> string list \<Rightarrow> svc_cmd" where
  "handleServiceNetworkUpdate env ctx params = getNetworkFromArg env ctx params (\<lambda>n params.
     only_flags env newNetworkFlagSet params (\<lambda>fs.
       if ignore_limit fs \<and> \<not> sc_admin ctx then fail ''you must be an admin to use the flag -ignore-limit''
       else (case networkFlagSet_update env fs (n_record n) of
           Inl e \<Rightarrow> fail e
         | Inr r \<Rightarrow> user_then env (\<lambda>uenv. updateNetwork uenv r (\<not> ignore_limit fs \<and> \<not> net_Enabled (n_record n))) (\<lambda>res.
             case res of
               Inl e \<Rightarrow> net_failed env ''could not update network: '' e
             | Inr ref \<Rightarrow> (\<lambda>w. answer [''updated network '' @ quoted env (name_of_ref ref w)] w)))))"

definition handleServiceNetworkDelete :: "world_env \<Rightarrow> service_context \<Rightarrow> string list \<Rightarrow> svc_cmd" where
  "handleServiceNetworkDelete env ctx params =
     (if length params \<noteq> 1 then fail ''expected exactly one argument''
      else getNetworkFromArg env ctx params (\<lambda>n _.
        user_then env (\<lambda>uenv. deleteNetwork uenv (nid n)) (\<lambda>res.
          case res of
            Inl e \<Rightarrow> net_failed env [] e
          | Inr _ \<Rightarrow> answer [''deleted network '' @ quoted env (net_name n)])))"

definition handleServiceNetworkQuote :: "world_env \<Rightarrow> service_context \<Rightarrow> string list \<Rightarrow> svc_cmd" where
  "handleServiceNetworkQuote env ctx params =
     (if length params \<noteq> 1 \<and> length params \<noteq> 2 then fail ''expected one or two arguments''
      else getNetworkFromArg env ctx (butlast params) (\<lambda>n _.
        if n_conn n = None then fail (''network '' @ quoted env (net_name n) @ '' is not currently connected'')
        else (case sv_parseMessage (we_server env) (last params) of
            Inl e \<Rightarrow> fail (''failed to parse command '' @ quoted env (last params) @ '': '' @ e)
          | Inr m \<Rightarrow> op_then (emit [WUp (n_ref n) (ASend m)]) (answer [''sent command to '' @ quoted env (net_name n)]))))"

section \<open>Certificates and credentials of a network\<close>

text \<open>\<open>generateCertFP\<close> of \<^verbatim>\<open>src/certfp.go\<close>: a key of an unknown type stays nil.  The result is the key and the certificate.\<close>

definition generateCertFP :: "server_env \<Rightarrow> string \<Rightarrow> int \<Rightarrow> string + (string \<times> string)" where
  "generateCertFP sv keyType bits =
     sum_bind
       (if keyType = ''rsa'' then map_sum id Some (sv_generateKey sv (RSAKey bits))
        else if keyType = ''ecdsa'' then map_sum id Some (sv_generateKey sv ECDSAKey)
        else if keyType = ''ed25519'' then map_sum id Some (sv_generateKey sv Ed25519Key)
        else Inr None) (\<lambda>key.
     sum_bind (sv_marshalKey sv (map_option fst key)) (\<lambda>privKey.
     sum_bind (sv_createCertificate sv (string_or [] (map_option snd key)) (string_or [] (map_option fst key))) (\<lambda>cert.
     Inr (privKey, cert))))"

definition maxRSABits :: int where "maxRSABits = 8192"

definition sendCertfpFingerprints :: "server_env \<Rightarrow> string \<Rightarrow> string list" where
  "sendCertfpFingerprints sv cert =
     [''SHA-1 fingerprint: '' @ hex_EncodeToString (sv_sha1 sv cert), ''SHA-256 fingerprint: '' @ hex_EncodeToString (sv_sha256 sv cert),
      ''SHA-512 fingerprint: '' @ hex_EncodeToString (sv_sha512 sv cert)]"

text \<open>The record is changed first and stored then; a record that cannot be stored stays changed.\<close>

definition set_sasl :: "world_env \<Rightarrow> network \<Rightarrow> (db_sasl \<Rightarrow> db_sasl) \<Rightarrow> string list \<Rightarrow> svc_cmd" where
  "set_sasl env n f out =
     (let r = (n_record n)\<lparr>net_SASL := f (net_SASL (n_record n))\<rparr> in
      op_then (set_network_record (n_ref n) (\<lambda>r. r\<lparr>net_SASL := f (net_SASL r)\<rparr>))
        (\<lambda>w. case ue_storeNetwork (we_user env) (network_ids (w_user w)) r of
           None \<Rightarrow> fail (we_dbError env) w
         | Some _ \<Rightarrow> op_then (emit [WUser (UEffect (DbStoreNetwork r))]) (answer out) w))"

definition handleServiceCertFPGenerate :: "world_env \<Rightarrow> service_context \<Rightarrow> string list \<Rightarrow> svc_cmd" where
  "handleServiceCertFPGenerate env ctx params =
     only_flags env [(''network'', StringFlag), (''key-type'', StringFlag), (''bits'', IntFlag)] params (\<lambda>fs.
       let bits = (case flag_int fs ''bits'' of None \<Rightarrow> 3072 | Some b \<Rightarrow> b) in
       if bits \<le> 0 \<or> bits > maxRSABits then fail ''invalid value for -bits''
       else getNetworkFromFlag env ctx (string_or [] (flag_string fs ''network'')) (\<lambda>n.
         case generateCertFP (we_server env) (string_or ''rsa'' (flag_string fs ''key-type'')) bits of
           Inl e \<Rightarrow> fail e
         | Inr (privKey, cert) \<Rightarrow>
             set_sasl env n (\<lambda>s. s\<lparr>sasl_CertBlob := Some cert, sasl_PrivKeyBlob := Some privKey, sasl_Mechanism := ''EXTERNAL''\<rparr>)
               (''certificate generated'' # sendCertfpFingerprints (we_server env) cert)))"

definition handleServiceCertFPFingerprints :: "world_env \<Rightarrow> service_context \<Rightarrow> string list \<Rightarrow> svc_cmd" where
  "handleServiceCertFPFingerprints env ctx params =
     only_flags env [(''network'', StringFlag)] params (\<lambda>fs.
       getNetworkFromFlag env ctx (string_or [] (flag_string fs ''network'')) (\<lambda>n.
         if sasl_Mechanism (net_SASL (n_record n)) \<noteq> ''EXTERNAL'' then fail ''CertFP not set up''
         else answer (sendCertfpFingerprints (we_server env) (string_or [] (sasl_CertBlob (net_SASL (n_record n)))))))"

definition sasl_status :: "world_env \<Rightarrow> network \<Rightarrow> string list" where
  "sasl_status env n =
     (let m = sasl_Mechanism (net_SASL (n_record n)) in
      (if m = ''PLAIN'' then [''SASL PLAIN enabled with username '' @ quoted env (sasl_PlainUsername (net_SASL (n_record n)))]
       else if m = ''EXTERNAL'' then [''SASL EXTERNAL (CertFP) enabled'']
       else if m = [] then [''SASL is disabled''] else [])
      @ (case n_conn n of
           Some uc \<Rightarrow>
             if uc_account uc \<noteq> [] then [''Authenticated on upstream network with account '' @ quoted env (uc_account uc)]
             else [''Unauthenticated on upstream network'']
         | None \<Rightarrow> [''Disconnected from upstream network'']))"

definition handleServiceSASLStatus :: "world_env \<Rightarrow> service_context \<Rightarrow> string list \<Rightarrow> svc_cmd" where
  "handleServiceSASLStatus env ctx params =
     only_flags env [(''network'', StringFlag)] params (\<lambda>fs.
       getNetworkFromFlag env ctx (string_or [] (flag_string fs ''network'')) (\<lambda>n. answer (sasl_status env n)))"

definition handleServiceSASLSetPlain :: "world_env \<Rightarrow> service_context \<Rightarrow> string list \<Rightarrow> svc_cmd" where
  "handleServiceSASLSetPlain env ctx params =
     with_flags env [(''network'', StringFlag)] params (\<lambda>fs args.
       if length args \<noteq> 2 then fail ''expected exactly 2 arguments''
       else getNetworkFromFlag env ctx (string_or [] (flag_string fs ''network'')) (\<lambda>n.
         set_sasl env n (\<lambda>s. s\<lparr>sasl_PlainUsername := args ! 0, sasl_PlainPassword := args ! 1, sasl_Mechanism := ''PLAIN''\<rparr>)
           [''credentials saved'']))"

definition handleServiceSASLReset :: "world_env \<Rightarrow> service_context \<Rightarrow> string list \<Rightarrow> svc_cmd" where
  "handleServiceSASLReset env ctx params =
     only_flags env [(''network'', StringFlag)] params (\<lambda>fs.
       getNetworkFromFlag env ctx (string_or [] (flag_string fs ''network'')) (\<lambda>n.
         set_sasl env n (\<lambda>s. s\<lparr>sasl_PlainUsername := [], sasl_PlainPassword := [], sasl_CertBlob := None,
             sasl_PrivKeyBlob := None, sasl_Mechanism := []\<rparr>) [''credentials reset'']))"

section \<open>Channels\<close>

definition without_hash :: "string \<Rightarrow> string" where
  "without_hash s = filter (\<lambda>c. c \<noteq> CHR ''#'') s"

definition channel_line :: "bool \<Rightarrow> network \<Rightarrow> db_channel \<Rightarrow> string" where
  "channel_line all n ch =
     (let name = ch_Name ch @ (if all then ''/'' @ net_name n else []);
          status = (case n_conn n of
             None \<Rightarrow> ''disconnected''
           | Some uc \<Rightarrow> if cmm_Has (uc_channels uc) (ch_Name ch) then ''joined'' else ''parted'')
      in name @ '' ['' @ status @ (if ch_Detached ch then '', detached'' else []) @ '']'')"

definition network_channels :: "bool \<Rightarrow> network \<Rightarrow> string list" where
  "network_channels all n = map (channel_line all n) (sort_key (\<lambda>ch. without_hash (ch_Name ch)) (map snd (cmm_ForEach (n_channels n))))"

definition channel_answer :: "string list \<Rightarrow> svc_cmd" where
  "channel_answer out = answer (if out = [] then [''No channel configured.''] else out)"

definition handleServiceChannelStatus :: "world_env \<Rightarrow> service_context \<Rightarrow> string list \<Rightarrow> svc_cmd" where
  "handleServiceChannelStatus env ctx params w =
     only_flags env [(''network'', StringFlag)] params (\<lambda>fs w.
       let name = string_or (case ctx_network ctx w of None \<Rightarrow> [] | Some n \<Rightarrow> net_name n) (flag_string fs ''network'') in
       if name = [] then channel_answer (concat (map (network_channels True) (u_networks (w_user w)))) w
       else (case getNetwork (w_user w) name of
           None \<Rightarrow> fail (''unknown network '' @ quoted env name) w
         | Some n \<Rightarrow> channel_answer (network_channels False n) w)) w"

definition parseFilter :: "world_env \<Rightarrow> string \<Rightarrow> string + message_filter" where
  "parseFilter env s =
     (if s = ''default'' then Inr FilterDefault else if s = ''none'' then Inr FilterNone
      else if s = ''highlight'' then Inr FilterHighlight else if s = ''message'' then Inr FilterMessage
      else Inl (''unknown filter: '' @ quoted env s))"

definition newChannelFlagSet :: "(string \<times> flag_kind) list" where
  "newChannelFlagSet = [(''detached'', BoolPtrFlag), (''relay-detached'', StringFlag), (''reattach-on'', StringFlag),
     (''detach-after'', StringFlag), (''detach-on'', StringFlag)]"

text \<open>The channel is changed in place: an error leaves the changes before it.\<close>

definition set_filter :: "world_env \<Rightarrow> string option \<Rightarrow> (message_filter \<Rightarrow> db_channel) \<Rightarrow> db_channel \<Rightarrow> string option \<times> db_channel" where
  "set_filter env v f ch =
     (case v of None \<Rightarrow> (None, ch) | Some s \<Rightarrow> (case parseFilter env s of Inl e \<Rightarrow> (Some e, ch) | Inr x \<Rightarrow> (None, f x)))"

definition set_duration :: "world_env \<Rightarrow> string option \<Rightarrow> db_channel \<Rightarrow> string option \<times> db_channel" where
  "set_duration env v ch =
     (case v of
        None \<Rightarrow> (None, ch)
      | Some s \<Rightarrow>
          (case sv_parseDuration (we_server env) s of
             Some d \<Rightarrow> if d < 0 then (Some (''unknown duration for -detach-after '' @ quoted env s @ '' (duration format: 0, 300s, 22h30m, ...)''), ch)
               else (None, ch\<lparr>ch_DetachAfter := d\<rparr>)
           | None \<Rightarrow> (Some (''unknown duration for -detach-after '' @ quoted env s @ '' (duration format: 0, 300s, 22h30m, ...)''), ch)))"

fun change_until :: "('a \<Rightarrow> 'e option \<times> 'a) list \<Rightarrow> 'a \<Rightarrow> 'e option \<times> 'a" where
  "change_until [] x = (None, x)"
| "change_until (f # fs) x = (case f x of (Some e, x) \<Rightarrow> (Some e, x) | (None, x) \<Rightarrow> change_until fs x)"

definition channelFlagSet_update :: "world_env \<Rightarrow> flag_values \<Rightarrow> db_channel \<Rightarrow> string option \<times> db_channel" where
  "channelFlagSet_update env fs = change_until
     [\<lambda>ch. set_filter env (flag_string fs ''relay-detached'') (\<lambda>x. ch\<lparr>ch_RelayDetached := x\<rparr>) ch,
      \<lambda>ch. set_filter env (flag_string fs ''reattach-on'') (\<lambda>x. ch\<lparr>ch_ReattachOn := x\<rparr>) ch,
      set_duration env (flag_string fs ''detach-after''),
      \<lambda>ch. set_filter env (flag_string fs ''detach-on'') (\<lambda>x. ch\<lparr>ch_DetachOn := x\<rparr>) ch]"

definition stripNetworkSuffix :: "world_env \<Rightarrow> service_context \<Rightarrow> string \<Rightarrow> (string \<Rightarrow> network \<Rightarrow> svc_cmd) \<Rightarrow> svc_cmd" where
  "stripNetworkSuffix env ctx name k w =
     (case ctx_network ctx w of
        Some n \<Rightarrow> k name n w
      | None \<Rightarrow>
          (case Cut name CHR ''/'' of
             None \<Rightarrow> fail ''missing network name'' w
           | Some (name, netName) \<Rightarrow>
               (case find (\<lambda>n. net_name n = netName) (u_networks (w_user w)) of
                  Some n \<Rightarrow> k name n w
                | None \<Rightarrow> fail (''unknown network '' @ quoted env netName) w)))"

definition set_channel :: "nat \<Rightarrow> db_channel \<Rightarrow> w_op" where
  "set_channel ref ch w =
     ([], w\<lparr>w_user := map_network ref (\<lambda>n. n\<lparr>n_channels := cmm_Set (n_channels n) (ch_Name ch) ch\<rparr>) (w_user w)\<rparr>)"

text \<open>The channel that has been set, stored: the database gives it its identifier.\<close>

definition store_or_fail :: "world_env \<Rightarrow> nat \<Rightarrow> string \<Rightarrow> string \<Rightarrow> svc_cmd \<Rightarrow> svc_cmd" where
  "store_or_fail env ref name failed k w =
     (case network_by_ref (w_user w) ref of
        None \<Rightarrow> k w
      | Some n \<Rightarrow>
          (case cmm_Get (n_channels n) name of
             None \<Rightarrow> k w
           | Some ch \<Rightarrow>
               if we_storeChannel env ch = None then fail (failed @ we_dbError env) w
               else op_then (store_channel env ref name) k w))"

definition handleServiceChannelCreate :: "world_env \<Rightarrow> service_context \<Rightarrow> string list \<Rightarrow> svc_cmd" where
  "handleServiceChannelCreate env ctx params =
     (if params = [] then fail ''expected at least one argument''
      else only_flags env newChannelFlagSet (tl params) (\<lambda>fs.
        stripNetworkSuffix env ctx (hd params) (\<lambda>name n.
          if name = [] \<or> ContainsAny name illegalChanChars then fail (''invalid channel name: '' @ name)
          else if (case n_conn n of None \<Rightarrow> False | Some uc \<Rightarrow> \<not> isChannel uc name) then fail (''not a channel name: '' @ name)
          else if cmm_Has (n_channels n) name then fail (''channel '' @ quoted env name @ '' already exists'')
          else (case channelFlagSet_update env fs (new_db_channel name [] False) of
              (Some e, _) \<Rightarrow> fail e
            | (None, ch) \<Rightarrow>
                op_then (set_channel (n_ref n) ch)
                  (store_or_fail env (n_ref n) name ''failed to create channel: ''
                    (op_then (emit (if n_conn n = None then [] else [WUp (n_ref n) (ASend (mk_msg ''JOIN'' [name]))]))
                      (answer [''created channel '' @ quoted env name])))))))"

definition set_detached :: "bool \<Rightarrow> db_channel \<Rightarrow> up_env \<Rightarrow> up_state \<Rightarrow> up_action list \<times> up_state" where
  "set_detached b ch env st = (if b then net_detach env ch st else net_attach env ch st)"

definition handleServiceChannelUpdate :: "world_env \<Rightarrow> service_context \<Rightarrow> string list \<Rightarrow> svc_cmd" where
  "handleServiceChannelUpdate env ctx params =
     (if params = [] then fail ''expected at least one argument''
      else only_flags env newChannelFlagSet (tl params) (\<lambda>fs.
        stripNetworkSuffix env ctx (hd params) (\<lambda>name n.
          case cmm_Get (n_channels n) name of
            None \<Rightarrow> fail (''unknown channel '' @ quoted env name)
          | Some ch \<Rightarrow>
              (case channelFlagSet_update env fs ch of
                 (Some e, ch) \<Rightarrow> op_then (set_channel (n_ref n) ch) (fail e)
               | (None, ch) \<Rightarrow>
                   op_then (set_channel (n_ref n) ch)
                     (op_then (case flag_bool fs ''detached'' of
                         None \<Rightarrow> nothing
                       | Some b \<Rightarrow> if b \<noteq> ch_Detached ch then on_network env (n_ref n) (set_detached b ch) else nothing)
                       (op_then (on_upstream env (n_ref n) (\<lambda>_ st. ([], updateChannelAutoDetach name st)))
                         (store_or_fail env (n_ref n) name ''failed to update channel: '' (answer [''updated channel '' @ quoted env name]))))))))"

definition delete_channel :: "world_env \<Rightarrow> nat \<Rightarrow> string \<Rightarrow> user_world \<Rightarrow> net_error option \<times> w_action list \<times> user_world" where
  "delete_channel env ref name w =
     (case network_by_ref (w_user w) ref of
        None \<Rightarrow> (Some NetPanic, [], w)
      | Some n \<Rightarrow> (case deleteChannel (we_user env) n name of (e, acts, n) \<Rightarrow> (e, map WUser acts, put_network ref n w)))"

definition handleServiceChannelDelete :: "world_env \<Rightarrow> service_context \<Rightarrow> string list \<Rightarrow> svc_cmd" where
  "handleServiceChannelDelete env ctx params =
     (if length params \<noteq> 1 then fail ''expected exactly one argument''
      else stripNetworkSuffix env ctx (hd params) (\<lambda>name n.
        cmd_then (delete_channel env (n_ref n) name) (\<lambda>res.
          case res of
            Some e \<Rightarrow> net_failed env ''failed to delete channel: '' e
          | None \<Rightarrow>
              op_then (emit (case n_conn n of
                  Some uc \<Rightarrow> if cmm_Has (uc_channels uc) name then [WUp (n_ref n) (ASend (mk_msg ''PART'' [name]))] else []
                | None \<Rightarrow> []))
                (answer [''deleted channel '' @ quoted env name]))))"

section \<open>Device certificates\<close>

definition deviceCertificateDisplayBytes :: nat where "deviceCertificateDisplayBytes = 6"

definition sha512_Size :: nat where "sha512_Size = 64"

definition upper_hex :: "world_env \<Rightarrow> string \<Rightarrow> string" where
  "upper_hex env h = ToUpper (we_unicode env) (hex_EncodeToString h)"

text \<open>A colon after every second digit.\<close>

fun with_colons :: "string \<Rightarrow> string" where
  "with_colons (a # b # c # s) = a # b # CHR '':'' # with_colons (c # s)"
| "with_colons s = s"

definition cert_line :: "world_env \<Rightarrow> device_certificate \<Rightarrow> string" where
  "cert_line env cert =
     with_colons (upper_hex env (take deviceCertificateDisplayBytes (cert_Fingerprint cert))) @ '' ['' @ cert_LastIP cert @ ''] ['' @ cert_Label cert
       @ ''] ['' @ sv_formatDateTime (we_server env) (cert_LastUsed cert) @ '']''"

definition handleServiceDeviceCertificateStatus :: "world_env \<Rightarrow> service_context \<Rightarrow> string list \<Rightarrow> svc_cmd" where
  "handleServiceDeviceCertificateStatus env ctx params w =
     (if params \<noteq> [] then fail ''expected no argument'' w
      else (case we_listCerts env of
          None \<Rightarrow> fail (''could not get device certificates: '' @ we_dbError env) w
        | Some certs \<Rightarrow>
            if certs = [] then answer [''No device certificate configured.''] w
            else
              let shown = takeWhile (\<lambda>c. deviceCertificateDisplayBytes \<le> length (cert_Fingerprint c)) certs in
              (if length shown = length certs then HandlerOk else HandlerFail Panics, map (cert_line env) shown, [], w)))"

definition handleServiceDeviceCertificateCreate :: "world_env \<Rightarrow> service_context \<Rightarrow> string list \<Rightarrow> svc_cmd" where
  "handleServiceDeviceCertificateCreate env ctx params =
     (if \<not> a_clientCertAuth (we_auth env) then fail ''client certification authentication is disabled''
      else only_flags env [(''fingerprint'', StringFlag), (''label'', StringFlag)] params (\<lambda>fs.
        let given = string_or [] (flag_string fs ''fingerprint'');
            fingerprint = (if given \<noteq> [] then given
              else (case sc_dc ctx of
                  None \<Rightarrow> []
                | Some i \<Rightarrow> (case we_peerCert env i of None \<Rightarrow> [] | Some h \<Rightarrow> with_colons (upper_hex env h))));
            label = string_or [] (flag_string fs ''label'')
        in if fingerprint = [] then fail ''flag -fingerprint is required when no TLS client certificate is used''
           else if label = [] then fail ''flag -label is required''
           else (case hex_DecodeString (without_colons fingerprint) of
               None \<Rightarrow> fail ''the certificate fingerprint must be hex-encoded SHA-512''
             | Some h \<Rightarrow>
                 if length h \<noteq> sha512_Size then fail ''the certificate fingerprint must be hex-encoded SHA-512''
                 else (case we_storeCert env label h of
                     Duplicate \<Rightarrow> fail ''this device certificate fingerprint already exists''
                   | StoreFailed \<Rightarrow> fail (''could not create device certificate: '' @ we_dbError env)
                   | Stored \<Rightarrow> op_then (emit [WStoreCert label h]) (answer [''created device certificate '' @ quoted env fingerprint])))))"

definition handleServiceDeviceCertificateDelete :: "world_env \<Rightarrow> service_context \<Rightarrow> string list \<Rightarrow> svc_cmd" where
  "handleServiceDeviceCertificateDelete env ctx params =
     (if length params \<noteq> 1 then fail ''expected exactly one argument''
      else
        let fingerprint = hd params; invalid = fail ''the certificate fingerprint must be hex-encoded SHA-256'' in
        (case hex_DecodeString (without_colons fingerprint) of
           None \<Rightarrow> invalid
         | Some h \<Rightarrow>
             if length h > sha512_Size \<or> length h < deviceCertificateDisplayBytes then invalid
             else (case we_listCerts env of
                 None \<Rightarrow> fail (''could not get device certificate: '' @ we_dbError env)
               | Some certs \<Rightarrow>
                   (case filter (\<lambda>c. HasPrefix (cert_Fingerprint c) h) certs of
                      [] \<Rightarrow> fail (''no device certificate found for fingerprint '' @ quoted env fingerprint)
                    | [c] \<Rightarrow>
                        if we_deleteCert env (cert_Fingerprint c)
                        then op_then (emit [WDeleteCert (cert_Fingerprint c)]) (answer [''deleted device certificate '' @ quoted env fingerprint])
                        else fail (''could not delete device certificate: '' @ we_dbError env)
                    | _ \<Rightarrow> fail ''multiple device certificates match this fingerprint prefix; pass the full fingerprint''))))"

end
