(* ===== verification/User_Stop.thy ===== *)
theory User_Stop
  imports Prelude
begin

text \<open>
  Stopping a user: \<open>stop\<close> of \<^verbatim>\<open>src/user.go\<close> posts an event to the loop of the user and waits until the loop has returned.  The
  caller and the loop are two goroutines that take turns, unless the caller is a handler of that loop.
\<close>

section \<open>The two goroutines\<close>

text \<open>The loop receives from the queue, is in a handler of some other event, is in the handler that called \<open>stop\<close>, or has returned, which
  closes \<open>done\<close>.\<close>

datatype loop_point = Receiving | InHandler | InCaller | LoopReturned

text \<open>The call is in its first \<open>select\<close>, in the second one, or has returned.\<close>

datatype call_point = Posting | Waiting | StopDone | StopCancelled

text \<open>The queue of events tells for each event whether it is \<open>eventStop\<close>.\<close>

record stop_state =
  sp_events :: "bool list"
  sp_loop :: loop_point
  sp_call :: call_point

definition events_cap :: nat where "events_cap = 64"

definition returned :: "stop_state \<Rightarrow> bool" where
  "returned s \<longleftrightarrow> sp_call s = StopDone \<or> sp_call s = StopCancelled"

text \<open>The steps of the call, of the loop and of others that post events; \<open>c\<close> tells whether the context may be done.\<close>

inductive stop_step :: "bool \<Rightarrow> stop_state \<Rightarrow> stop_state \<Rightarrow> bool" for c where
  already: "sp_call s = Posting \<Longrightarrow> sp_loop s = LoopReturned \<Longrightarrow> stop_step c s (s\<lparr>sp_call := StopDone\<rparr>)"
| posted: "sp_call s = Posting \<Longrightarrow> length (sp_events s) < events_cap \<Longrightarrow> stop_step c s (s\<lparr>sp_events := sp_events s @ [True], sp_call := Waiting\<rparr>)"
| finished: "sp_call s = Waiting \<Longrightarrow> sp_loop s = LoopReturned \<Longrightarrow> stop_step c s (s\<lparr>sp_call := StopDone\<rparr>)"
| cancelled: "c \<Longrightarrow> \<not> returned s \<Longrightarrow> stop_step c s (s\<lparr>sp_call := StopCancelled\<rparr>)"
| other_event: "length (sp_events s) < events_cap \<Longrightarrow> stop_step c s (s\<lparr>sp_events := sp_events s @ [False]\<rparr>)"
| receive: "sp_loop s = Receiving \<Longrightarrow> sp_events s = e # es
    \<Longrightarrow> stop_step c s (s\<lparr>sp_events := es, sp_loop := if e then LoopReturned else InHandler\<rparr>)"
| handled: "sp_loop s = InHandler \<Longrightarrow> stop_step c s (s\<lparr>sp_loop := Receiving\<rparr>)"
| caller_handled: "sp_loop s = InCaller \<Longrightarrow> returned s \<Longrightarrow> stop_step c s (s\<lparr>sp_loop := Receiving\<rparr>)"

inductive_cases stop_stepE: "stop_step c s s'"

section \<open>The outcome of a call\<close>

text \<open>The call with the loop, where each goes on when the other waits and nothing else is posted: how it returns, and absent when both wait for ever.\<close>

definition loop_step :: "stop_state \<Rightarrow> stop_state option" where
  "loop_step s =
     (case sp_loop s of
        Receiving \<Rightarrow> (case sp_events s of [] \<Rightarrow> None | e # es \<Rightarrow> Some (s\<lparr>sp_events := es, sp_loop := if e then LoopReturned else InHandler\<rparr>))
      | InHandler \<Rightarrow> Some (s\<lparr>sp_loop := Receiving\<rparr>)
      | _ \<Rightarrow> None)"

function user_stop :: "stop_state \<Rightarrow> call_point option" where
  "user_stop s =
     (if returned s then Some (sp_call s)
      else if sp_loop s = LoopReturned then Some StopDone
      else if sp_call s = Posting \<and> length (sp_events s) < events_cap then user_stop (s\<lparr>sp_events := sp_events s @ [True], sp_call := Waiting\<rparr>)
      else (case loop_step s of None \<Rightarrow> None | Some s' \<Rightarrow> user_stop s'))"
  by pat_completeness auto
termination
  by (relation "(\<lambda>s. if sp_call s = Posting then 1 else 0) <*mlex*> measure (\<lambda>s. 2 * length (sp_events s) + (if sp_loop s = InHandler then 1 else 0))")
    (auto simp: mlex_iff wf_mlex loop_step_def split: loop_point.splits list.splits)

declare user_stop.simps [simp del]

lemma loop_step_sound: "loop_step s = Some s' \<Longrightarrow> stop_step c s s'"
  by (auto simp: loop_step_def intro: stop_step.receive stop_step.handled split: loop_point.splits list.splits)

lemma user_stop_sound:
  assumes "user_stop s = Some r"
  shows "\<exists>s'. (stop_step c)\<^sup>*\<^sup>* s s' \<and> sp_call s' = r \<and> returned s'"
  using assms
proof (induction s rule: user_stop.induct)
  case (1 s)
  consider (ret) "returned s" | (fin) "\<not> returned s" "sp_loop s = LoopReturned"
    | (post) "\<not> returned s" "sp_loop s \<noteq> LoopReturned" "sp_call s = Posting \<and> length (sp_events s) < events_cap"
    | (loop) "\<not> returned s" "sp_loop s \<noteq> LoopReturned" "\<not> (sp_call s = Posting \<and> length (sp_events s) < events_cap)" by blast
  then show ?case
  proof cases
    case ret
    then show ?thesis using "1.prems" by (subst (asm) user_stop.simps) auto
  next
    case fin
    then have "sp_call s = Posting \<or> sp_call s = Waiting" by (cases "sp_call s") (auto simp: returned_def)
    then have "stop_step c s (s\<lparr>sp_call := StopDone\<rparr>)" using fin by (auto intro: stop_step.already stop_step.finished)
    moreover have "r = StopDone" using fin "1.prems" by (subst (asm) user_stop.simps) simp
    ultimately show ?thesis by (auto simp: returned_def)
  next
    case post
    then have "user_stop (s\<lparr>sp_events := sp_events s @ [True], sp_call := Waiting\<rparr>) = Some r" using "1.prems" by (subst (asm) user_stop.simps) simp
    from "1.IH"(1) [OF post this] obtain s' where
      r: "(stop_step c)\<^sup>*\<^sup>* (s\<lparr>sp_events := sp_events s @ [True], sp_call := Waiting\<rparr>) s'" "sp_call s' = r" "returned s'" by blast
    have "stop_step c s (s\<lparr>sp_events := sp_events s @ [True], sp_call := Waiting\<rparr>)" using post(3) by (intro stop_step.posted) simp_all
    from converse_rtranclp_into_rtranclp [of "stop_step c", OF this r(1)] r(2,3) show ?thesis by blast
  next
    case loop
    then obtain s' where s': "loop_step s = Some s'" "user_stop s' = Some r"
      using "1.prems" by (subst (asm) user_stop.simps) (auto split: option.splits)
    from "1.IH"(2) [OF loop s'] obtain s'' where r: "(stop_step c)\<^sup>*\<^sup>* s' s''" "sp_call s'' = r" "returned s''" by blast
    from converse_rtranclp_into_rtranclp [of "stop_step c", OF loop_step_sound [OF s'(1)] r(1)] r(2,3) show ?thesis by blast
  qed
qed

text \<open>A call from another goroutine returns: the loop gets to the event.\<close>

lemma user_stop_returns:
  assumes "sp_loop s \<noteq> InCaller" and "sp_call s = Waiting \<Longrightarrow> sp_loop s = LoopReturned \<or> True \<in> set (sp_events s)" and "sp_call s \<noteq> StopCancelled"
  shows "user_stop s = Some StopDone"
  using assms
proof (induction s rule: user_stop.induct)
  case (1 s)
  show ?case
  proof (cases "returned s \<or> sp_loop s = LoopReturned")
    case True
    then show ?thesis using "1.prems"(3) by (subst user_stop.simps) (auto simp: returned_def)
  next
    case False
    show ?thesis
    proof (cases "sp_call s = Posting \<and> length (sp_events s) < events_cap")
      case True
      then show ?thesis using "1.IH"(1) [OF _ _ True] "1.prems"(1) False by (subst user_stop.simps) simp
    next
      case full: False
      then have "sp_call s = Waiting \<or> events_cap \<le> length (sp_events s)" using False by (cases "sp_call s") (auto simp: returned_def)
      then have "sp_events s \<noteq> []" using "1.prems"(2) False by (auto simp: events_cap_def)
      then obtain s' where s': "loop_step s = Some s'" "sp_loop s' \<noteq> InCaller" "sp_call s' = sp_call s"
          "sp_loop s' = LoopReturned \<or> (True \<in> set (sp_events s) \<longrightarrow> True \<in> set (sp_events s'))"
        using False "1.prems"(1) by (cases "sp_loop s"; cases "sp_events s") (auto simp: loop_step_def)
      have "user_stop s' = Some StopDone"
        by (rule "1.IH"(2) [OF _ _ full s'(1,2)]) (use s' False "1.prems" in auto)
      then show ?thesis using False full s'(1) by (subst user_stop.simps) auto
    qed
  qed
qed

text \<open>A call from a handler of the loop does not, whatever else happens, unless its context is done.\<close>

lemma own_stop_stuck:
  assumes "(stop_step False)\<^sup>*\<^sup>* s s'" and "sp_loop s = InCaller" and "\<not> returned s"
  shows "sp_loop s' = InCaller \<and> \<not> returned s'"
  using assms(1)
proof (induction rule: rtranclp_induct)
  case base
  show ?case using assms(2,3) by simp
next
  case (step s1 s2)
  from step.hyps(2) step.IH show ?case by (elim stop_stepE) (auto simp: returned_def)
qed

lemma own_stop_hangs: "sp_loop s = InCaller \<Longrightarrow> \<not> returned s \<Longrightarrow> user_stop s = None"
  using user_stop_sound [of s _ False] own_stop_stuck [of s] by (cases "user_stop s") blast+

end
