(* ===== verification/Service_Users.thy ===== *)
theory Service_Users
  imports Service_Handlers User_Stop
begin

text \<open>
  The handlers of the bouncer service for users and the server, \<^verbatim>\<open>src/service.go\<close>, with \<open>createUser\<close> of
  \<^verbatim>\<open>src/server.go\<close>, and the table of all handlers.  Other users have goroutines of their own: what they are asked is posted
  to their queues, and their answers are part of the environment.
\<close>

section \<open>Users\<close>

definition getUser :: "server_env \<Rightarrow> string \<Rightarrow> db_user option" where
  "getUser sv name = find (\<lambda>r. user_Username r = name) (sv_users sv)"

definition maxUsersShown :: nat where "maxUsersShown = 50"

definition user_line :: "db_user \<Rightarrow> nat \<Rightarrow> string" where
  "user_line r networks =
     (let attrs = (if user_Admin r then [''admin''] else []) @ (if user_Enabled r then [] else [''disabled''])
      in user_Username r @ (if attrs \<noteq> [] then '' ('' @ Join attrs '', '' @ '')'' else []) @ '': '' @ show_nat networks @ '' networks''
         @ (if user_MaxNetworks r \<ge> 0 then '' ('' @ show_int (user_MaxNetworks r) @ '' max)'' else []))"

text \<open>A user whose networks cannot be read ends the listing.\<close>

fun user_lines :: "world_env \<Rightarrow> db_user list \<Rightarrow> string option \<times> string list" where
  "user_lines env [] = (None, [])"
| "user_lines env (r # rs) =
     (case sv_listNetworks (we_server env) (user_ID r) of
        None \<Rightarrow> (Some (''could not get networks of user '' @ quoted env (user_Username r) @ '': '' @ we_dbError env), [])
      | Some ns \<Rightarrow> (case user_lines env rs of (e, out) \<Rightarrow> (e, user_line r (length ns) # out)))"

definition show_users :: "world_env \<Rightarrow> db_user list \<Rightarrow> nat \<Rightarrow> svc_cmd" where
  "show_users env rs n w =
     (case user_lines env rs of
        (Some e, out) \<Rightarrow> (HandlerFail (Failed e), out, [], w)
      | (None, out) \<Rightarrow> answer (out @ (if n > length rs then [''('' @ show_nat (n - length rs) @ '' more users omitted)''] else [])) w)"

definition handleUserStatus :: "world_env \<Rightarrow> service_context \<Rightarrow> string list \<Rightarrow> svc_cmd" where
  "handleUserStatus env ctx params =
     (let sv = we_server env in
      if length params > 1 then fail ''expected 0 or 1 argument''
      else if params = [] then show_users env (take maxUsersShown (sv_users sv)) (length (sv_users sv))
      else (case getUser sv (hd params) of
          None \<Rightarrow> fail (''unknown username '' @ quoted env (hd params))
        | Some r \<Rightarrow> show_users env [r] 1))"

text \<open>\<open>SetPassword\<close> and \<open>createUser\<close>.\<close>

definition SetPassword :: "server_env \<Rightarrow> string \<Rightarrow> db_user \<Rightarrow> string + db_user" where
  "SetPassword sv p r = map_sum (\<lambda>e. ''failed to hash password: '' @ e) (\<lambda>h. r\<lparr>user_Password := h\<rparr>) (sv_hashPassword sv p)"

definition createUser :: "world_env \<Rightarrow> db_user \<Rightarrow> svc_cmd \<Rightarrow> svc_cmd" where
  "createUser env r k =
     (if getUser (we_server env) (user_Username r) \<noteq> None
      then fail (''could not create user: user '' @ quoted env (user_Username r) @ '' already exists'')
      else if \<not> ue_storeUser (we_user env) r then fail (''could not create user: could not create user in db: '' @ we_dbError env)
      else op_then (emit [WCreateUser r]) k)"

definition bool_or :: "bool \<Rightarrow> bool option \<Rightarrow> bool" where
  "bool_or d v = (case v of None \<Rightarrow> d | Some b \<Rightarrow> b)"

definition user_flags :: "(string \<times> flag_kind) list" where
  "user_flags = [(''username'', StringFlag), (''password'', StringFlag), (''disable-password'', BoolFlag), (''nick'', StringFlag),
     (''realname'', StringFlag), (''admin'', BoolFlag), (''enabled'', BoolFlag), (''max-networks'', IntFlag)]"

definition handleUserCreate :: "world_env \<Rightarrow> service_context \<Rightarrow> string list \<Rightarrow> svc_cmd" where
  "handleUserCreate env ctx params = only_flags env user_flags params (\<lambda>fs.
     let username = string_or [] (flag_string fs ''username''); password = string_or [] (flag_string fs ''password'');
         disable = bool_or False (flag_bool fs ''disable-password'')
     in if username = [] then fail ''flag -username is required''
        else if password \<noteq> [] \<and> disable then fail ''flags -password and -disable-password are mutually exclusive''
        else if password = [] \<and> \<not> disable then fail ''flag -password is required''
        else
          let r = (NewUser username)\<lparr>user_Nick := string_or [] (flag_string fs ''nick''), user_Realname := string_or [] (flag_string fs ''realname''),
                user_Admin := bool_or False (flag_bool fs ''admin''), user_Enabled := bool_or True (flag_bool fs ''enabled''),
                user_MaxNetworks := (case flag_int fs ''max-networks'' of None \<Rightarrow> - 1 | Some i \<Rightarrow> i)\<rparr>
          in (case (if disable then Inr r else SetPassword (we_server env) password r) of
                Inl e \<Rightarrow> fail e
              | Inr r \<Rightarrow> createUser env r (answer [''created user '' @ quoted env username])))"

section \<open>Changing a user\<close>

definition update_flags :: "(string \<times> flag_kind) list" where
  "update_flags = [(''password'', StringFlag), (''disable-password'', BoolFlag), (''nick'', StringFlag), (''realname'', StringFlag),
     (''admin'', BoolPtrFlag), (''enabled'', BoolPtrFlag), (''max-networks'', IntPtrFlag)]"

text \<open>The new password of another user, hashed, or empty for none.\<close>

definition new_password :: "server_env \<Rightarrow> flag_values \<Rightarrow> string + string option" where
  "new_password sv fs =
     sum_bind (case flag_string fs ''password'' of None \<Rightarrow> Inr None | Some p \<Rightarrow> map_sum id (\<lambda>r. Some (user_Password r)) (SetPassword sv p (NewUser []))) (\<lambda>h.
       Inr (if flag_bool fs ''disable-password'' = Some True then Some [] else h))"

definition update_other :: "world_env \<Rightarrow> service_context \<Rightarrow> string \<Rightarrow> flag_values \<Rightarrow> svc_cmd" where
  "update_other env ctx username fs =
     (let sv = we_server env in
      if \<not> sc_admin ctx then fail ''you must be an admin to update other users''
      else if flag_string fs ''nick'' \<noteq> None then fail ''cannot update -nick of other user''
      else if flag_string fs ''realname'' \<noteq> None then fail ''cannot update -realname of other user''
      else (case new_password sv fs of
          Inl e \<Rightarrow> fail e
        | Inr h \<Rightarrow>
            if getUser sv username = None then fail (''unknown username '' @ quoted env username)
            else if \<not> sv_posted sv username then fail (sv_ctxError sv)
            else
              let e = \<lparr>up_password = h, up_admin = flag_bool fs ''admin'', up_enabled = flag_bool fs ''enabled'', up_maxNetworks = flag_int fs ''max-networks''\<rparr>
              in op_then (emit [WPost username (PostUpdate e)])
                   (case sv_update sv username e of Some e \<Rightarrow> fail e | None \<Rightarrow> answer [''updated user '' @ quoted env username])))"

text \<open>The change of the own record; a password that cannot be hashed ends it.\<close>

definition own_record :: "server_env \<Rightarrow> flag_values \<Rightarrow> db_user \<Rightarrow> string + db_user" where
  "own_record sv fs r =
     sum_bind (case flag_string fs ''password'' of None \<Rightarrow> Inr r | Some p \<Rightarrow> SetPassword sv p r) (\<lambda>r.
       let r = (if flag_bool fs ''disable-password'' = Some True then r\<lparr>user_Password := []\<rparr> else r)
       in Inr (r\<lparr>user_Nick := string_or (user_Nick r) (flag_string fs ''nick''), user_Realname := string_or (user_Realname r) (flag_string fs ''realname''),
            user_MaxNetworks := (case flag_int fs ''max-networks'' of None \<Rightarrow> user_MaxNetworks r | Some i \<Rightarrow> i)\<rparr>))"

definition own_update :: "world_env \<Rightarrow> flag_values \<Rightarrow> user_env \<Rightarrow> user_state \<Rightarrow> net_error option \<times> user_action list \<times> user_state" where
  "own_update env fs uenv = updateUser uenv (\<lambda>r. case own_record (we_server env) fs r of Inl _ \<Rightarrow> None | Inr r \<Rightarrow> Some r)"

definition update_own :: "world_env \<Rightarrow> service_context \<Rightarrow> flag_values \<Rightarrow> svc_cmd" where
  "update_own env ctx fs w =
     (let sv = we_server env; name = user_Username (u_record (w_user w)) in
      if flag_bool fs ''admin'' \<noteq> None then fail ''cannot update -admin of own user'' w
      else if flag_bool fs ''enabled'' \<noteq> None then fail ''cannot update -enabled of own user'' w
      else if flag_int fs ''max-networks'' \<noteq> None \<and> \<not> sc_admin ctx then fail ''cannot update -max-networks of own user'' w
      else user_then env (own_update env fs) (\<lambda>res.
        case res of
          Some e \<Rightarrow> (case own_record sv fs (u_record (w_user w)) of Inl s \<Rightarrow> fail s | Inr _ \<Rightarrow> net_failed env [] e)
        | None \<Rightarrow> answer [''updated user '' @ quoted env name]) w)"

definition handleUserUpdate :: "world_env \<Rightarrow> service_context \<Rightarrow> string list \<Rightarrow> svc_cmd" where
  "handleUserUpdate env ctx params =
     (case popArg params of
        (username, params) \<Rightarrow> only_flags env update_flags params (\<lambda>fs.
          if username = [] \<and> sc_user ctx = None then fail ''cannot determine the user to update''
          else if flag_string fs ''password'' \<noteq> None \<and> flag_bool fs ''disable-password'' = Some True
          then fail ''flags -password and -disable-password are mutually exclusive''
          else if username \<noteq> [] \<and> sc_user ctx \<noteq> Some username then update_other env ctx username fs
          else update_own env ctx fs))"

section \<open>Deleting a user\<close>

definition confirmation :: "server_env \<Rightarrow> string \<Rightarrow> string" where
  "confirmation sv username = hex_EncodeToString (take 3 (sv_sha1 sv username))"

text \<open>The user is stopped, which waits for the end of its goroutine.  Another user answers from a goroutine of its own; a command of the
  user itself runs in that goroutine, behind the events that wait, and with a context that is never done.\<close>

definition own_stop :: "server_env \<Rightarrow> stop_state" where
  "own_stop sv = \<lparr>sp_events = replicate (sv_queued sv) False, sp_loop = InCaller, sp_call = Posting\<rparr>"

definition stop_self :: "server_env \<Rightarrow> string \<Rightarrow> svc_cmd \<Rightarrow> svc_cmd" where
  "stop_self sv username k =
     op_then (emit (if sv_queued sv < events_cap then [WPost username PostStop] else []))
       (case user_stop (own_stop sv) of
          None \<Rightarrow> (\<lambda>w. (HandlerFail Hangs, [], [], w))
        | Some StopDone \<Rightarrow> k
        | Some _ \<Rightarrow> fail (''failed to stop user: '' @ sv_ctxError sv))"

definition stop_other :: "server_env \<Rightarrow> string \<Rightarrow> svc_cmd \<Rightarrow> svc_cmd" where
  "stop_other sv username k =
     (if \<not> sv_posted sv username then fail (''failed to stop user: '' @ sv_ctxError sv)
      else op_then (emit [WPost username PostStop])
        (case sv_stop sv username of Some e \<Rightarrow> fail (''failed to stop user: '' @ e) | None \<Rightarrow> k))"

definition delete_stopped :: "world_env \<Rightarrow> db_user \<Rightarrow> string list \<Rightarrow> svc_cmd" where
  "delete_stopped env r out =
     (if \<not> sv_deleteUser (we_server env) (user_ID r) then fail (''failed to delete user: '' @ we_dbError env)
      else op_then (emit [WDeleteUser (user_ID r)]) (answer out))"

definition print_first :: "string list \<Rightarrow> svc_cmd \<Rightarrow> svc_cmd" where
  "print_first out k w = (case k w of (r, out', acts, w) \<Rightarrow> (r, out @ out', acts, w))"

definition handleUserDelete :: "world_env \<Rightarrow> service_context \<Rightarrow> string list \<Rightarrow> svc_cmd" where
  "handleUserDelete env ctx params =
     (let sv = we_server env; username = hd params; self = (sc_user ctx = Some username) in
      if length params \<noteq> 1 \<and> length params \<noteq> 2 then fail ''expected one or two arguments''
      else if \<not> sc_admin ctx \<and> \<not> self then fail ''only admins may delete other users''
      else (case getUser sv username of
          None \<Rightarrow> fail (''unknown username '' @ quoted env username)
        | Some r \<Rightarrow>
            if length params < 2 then answer [''To confirm user deletion, send '' @ [CHR 0x22] @ ''user delete '' @ username @ '' '' @ confirmation sv username @ [CHR 0x22]]
            else if params ! 1 \<noteq> confirmation sv username then fail (''provided confirmation token doesn'' @ [CHR 0x27] @ ''t match user'')
            else if self
            then print_first [''Goodbye '' @ username @ '', deleting your account. There will be no further confirmation.'']
              (stop_self sv username (delete_stopped env r []))
            else stop_other sv username (delete_stopped env r [''deleted user '' @ quoted env username])))"

lemma own_stop_blocked: "user_stop (own_stop sv) = None"
  by (rule own_stop_hangs) (simp_all add: own_stop_def returned_def)

section \<open>Running a command as a user\<close>

text \<open>The messages of the other user: an empty one ends the command, and so does a context that is done.\<close>

fun run_replies :: "(string \<times> string option) list \<Rightarrow> string option \<times> string list" where
  "run_replies [] = (Some ''timeout executing command'', [])"
| "run_replies ((line, e) # rs) =
     (if line \<noteq> [] then (case run_replies rs of (e, out) \<Rightarrow> (e, line # out)) else (e, []))"

definition handleUserRun ::
    "world_env \<Rightarrow> (service_context \<Rightarrow> string list \<Rightarrow> svc_cmd) \<Rightarrow> service_context \<Rightarrow> string list \<Rightarrow> svc_cmd" where
  "handleUserRun env command ctx params =
     (let sv = we_server env; username = hd params in
      if length params < 2 then fail ''expected at least two arguments''
      else if sc_user ctx = Some username then command ctx (tl params)
      else if getUser sv username = None then fail (''unknown username '' @ quoted env username)
      else if \<not> sv_posted sv username then fail (sv_ctxError sv)
      else op_then (emit [WPost username (PostRun (tl params))])
        (\<lambda>w. case run_replies (sv_run sv username (tl params)) of
           (e, out) \<Rightarrow> ((case e of None \<Rightarrow> HandlerOk | Some e \<Rightarrow> HandlerFail (Failed e)), out, [], w)))"

section \<open>The server\<close>

definition handleServiceServerStatus :: "world_env \<Rightarrow> service_context \<Rightarrow> string list \<Rightarrow> svc_cmd" where
  "handleServiceServerStatus env ctx params =
     (if params \<noteq> [] then fail ''expected no argument''
      else (case sv_dbStats (we_server env) of
          None \<Rightarrow> fail (we_dbError env)
        | Some (dbUsers, networks, channels) \<Rightarrow>
            (case sv_serverStats (we_server env) of
               (users, downstreams, upstreams) \<Rightarrow>
                 answer [show_int users @ ''/'' @ show_int dbUsers @ '' users, '' @ show_int downstreams @ '' downstreams, '' @ show_int upstreams
                   @ '' upstreams, '' @ show_int networks @ '' networks, '' @ show_int channels @ '' channels''])))"

definition handleServiceServerNotice :: "world_env \<Rightarrow> service_context \<Rightarrow> string list \<Rightarrow> svc_cmd" where
  "handleServiceServerNotice env ctx params =
     (if length params \<noteq> 1 then fail ''expected exactly one argument''
      else
        let sv = we_server env;
            msg = (mk_msg ''NOTICE'' [CHR ''$'' # we_hostname env, hd params])\<lparr>Prefix := Some servicePrefix\<rparr>;
            reached = filter (sv_posted sv) (map user_Username (sv_users sv));
            line = ''sent to '' @ show_nat (length reached) @ ''/'' @ show_nat (length (sv_users sv)) @ '' downstream connections''
        in op_then (emit (map (\<lambda>name. WPost name (PostBroadcast msg)) reached))
             (\<lambda>w. (if length reached = length (sv_users sv) then HandlerOk else HandlerFail (Failed (sv_ctxError sv)), [line], [], w)))"

definition handleServiceServerDebug :: "world_env \<Rightarrow> service_context \<Rightarrow> string list \<Rightarrow> svc_cmd" where
  "handleServiceServerDebug env ctx params =
     (if length params \<noteq> 1 then fail ''expected exactly one argument''
      else (case ParseBool (hd params) of
          None \<Rightarrow> fail (num_error_text (we_print env) ''ParseBool'' (hd params) ErrSyntax)
        | Some b \<Rightarrow> op_then (emit [WDebug b]) (answer [])))"

section \<open>The table of handlers\<close>

definition get_error_text :: "world_env \<Rightarrow> get_error \<Rightarrow> string" where
  "get_error_text env e =
     (case e of
        NoCommand \<Rightarrow> ''no command specified''
      | CommandAmbiguous name \<Rightarrow> ''command '' @ quoted env name @ '' is ambiguous''
      | CommandNotFound name \<Rightarrow> ''command '' @ quoted env name @ '' not found'')"

definition split_error_text :: "split_error \<Rightarrow> string" where
  "split_error_text e = (case e of UnterminatedQuote \<Rightarrow> ''unterminated quoted string'' | UnterminatedBackslash \<Rightarrow> ''unterminated backslash sequence'')"

definition in_quotes :: "string \<Rightarrow> string" where
  "in_quotes s = [CHR 0x22] @ s @ [CHR 0x22]"

definition service_error_text :: "world_env \<Rightarrow> handler_error service_error \<Rightarrow> string" where
  "service_error_text env e =
     (case e of
        GetError e \<Rightarrow> get_error_text env e @ '' (type '' @ in_quotes ''help'' @ '' for a list of commands)''
      | SplitError e \<Rightarrow> ''failed to parse command: '' @ split_error_text e
      | AdminRequired \<Rightarrow> ''you must be an admin to use this command''
      | UserRequired \<Rightarrow> ''this command must be run as a user (try running with user run)''
      | CommandWithoutHandler name \<Rightarrow> ''command '' @ quoted env name @ '' not found''
      | UnsupportedFlag name \<Rightarrow> ''unsupported flag (type '' @ in_quotes (''help '' @ name) @ '' for a help message)''
      | HandlerError (Failed s) \<Rightarrow> s
      | HandlerError _ \<Rightarrow> [])"

text \<open>The error of a command, as the command that runs it returns it.\<close>

definition outcome :: "world_env \<Rightarrow> handler_error service_error option \<Rightarrow> handler_error handler_result" where
  "outcome env e =
     (case e of
        None \<Rightarrow> HandlerOk
      | Some (HandlerError Panics) \<Rightarrow> HandlerFail Panics
      | Some (HandlerError Hangs) \<Rightarrow> HandlerFail Hangs
      | Some e \<Rightarrow> HandlerFail (Failed (service_error_text env e)))"

definition help_cmd :: "world_env \<Rightarrow> service_context \<Rightarrow> string list \<Rightarrow> svc_cmd" where
  "help_cmd env ctx params =
     (case handleServiceHelp ctx params of
        (Some e, _) \<Rightarrow> fail (get_error_text env e)
      | (None, out) \<Rightarrow> answer out)"

fun handler_cmd ::
    "world_env \<Rightarrow> (service_context \<Rightarrow> string list \<Rightarrow> svc_cmd) \<Rightarrow> service_handler \<Rightarrow> service_context \<Rightarrow> string list \<Rightarrow> svc_cmd" where
  "handler_cmd env command HServiceHelp = help_cmd env"
| "handler_cmd env command HServiceNetworkCreate = handleServiceNetworkCreate env"
| "handler_cmd env command HServiceNetworkStatus = handleServiceNetworkStatus env"
| "handler_cmd env command HServiceNetworkUpdate = handleServiceNetworkUpdate env"
| "handler_cmd env command HServiceNetworkDelete = handleServiceNetworkDelete env"
| "handler_cmd env command HServiceNetworkQuote = handleServiceNetworkQuote env"
| "handler_cmd env command HServiceCertFPGenerate = handleServiceCertFPGenerate env"
| "handler_cmd env command HServiceCertFPFingerprints = handleServiceCertFPFingerprints env"
| "handler_cmd env command HServiceSASLStatus = handleServiceSASLStatus env"
| "handler_cmd env command HServiceSASLSetPlain = handleServiceSASLSetPlain env"
| "handler_cmd env command HServiceSASLReset = handleServiceSASLReset env"
| "handler_cmd env command HUserStatus = handleUserStatus env"
| "handler_cmd env command HUserCreate = handleUserCreate env"
| "handler_cmd env command HUserUpdate = handleUserUpdate env"
| "handler_cmd env command HUserDelete = handleUserDelete env"
| "handler_cmd env command HUserRun = handleUserRun env command"
| "handler_cmd env command HServiceChannelStatus = handleServiceChannelStatus env"
| "handler_cmd env command HServiceChannelCreate = handleServiceChannelCreate env"
| "handler_cmd env command HServiceChannelUpdate = handleServiceChannelUpdate env"
| "handler_cmd env command HServiceChannelDelete = handleServiceChannelDelete env"
| "handler_cmd env command HServiceDeviceCertificateStatus = handleServiceDeviceCertificateStatus env"
| "handler_cmd env command HServiceDeviceCertificateCreate = handleServiceDeviceCertificateCreate env"
| "handler_cmd env command HServiceDeviceCertificateDelete = handleServiceDeviceCertificateDelete env"
| "handler_cmd env command HServiceServerStatus = handleServiceServerStatus env"
| "handler_cmd env command HServiceServerNotice = handleServiceServerNotice env"
| "handler_cmd env command HServiceServerDebug = handleServiceServerDebug env"

text \<open>The handlers on the state with the actions so far, for the dispatcher.\<close>

type_synonym svc_state = "w_action list \<times> user_world"

definition run_with ::
    "world_env \<Rightarrow> (service_context \<Rightarrow> string list \<Rightarrow> svc_cmd) \<Rightarrow> (handler_error, svc_state) handler_run" where
  "run_with env command h ctx params s =
     (case handler_cmd env command h ctx params (snd s) of (r, out, acts, w) \<Rightarrow> (r, out, fst s @ acts, w))"

definition command_result ::
    "world_env \<Rightarrow> handler_error service_error option \<times> string list \<times> svc_state \<Rightarrow> svc_result" where
  "command_result env res = (case res of (e, out, acts, w) \<Rightarrow> (outcome env e, out, acts, w))"

text \<open>A command can run another one with fewer words, so as many levels as words are enough.\<close>

primrec run_command :: "nat \<Rightarrow> world_env \<Rightarrow> service_context \<Rightarrow> string list \<Rightarrow> svc_cmd" where
  "run_command 0 env ctx words w = answer [] w"
| "run_command (Suc k) env ctx words w =
     command_result env (handleServiceCommand (run_with env (run_command k env)) ctx words ([], w))"

definition service_command_run :: "world_env \<Rightarrow> service_context \<Rightarrow> string list \<Rightarrow> svc_cmd" where
  "service_command_run env ctx words = run_command (Suc (length words)) env ctx words"

definition service_run :: "world_env \<Rightarrow> (handler_error, svc_state) handler_run" where
  "service_run env = run_with env (service_command_run env)"

section \<open>Nested commands\<close>

lemma handleServiceCommand_cong:
  assumes "\<And>h params. length params < length words \<Longrightarrow> run h ctx params s = run' h ctx params s"
  shows "handleServiceCommand run ctx words s = handleServiceCommand run' ctx words s"
  using assms service_Get_length [of serviceCommands words]
  by (auto simp: handleServiceCommand_def split: sum.split option.split)

lemma handler_cmd_cong:
  assumes "\<And>words. length words < length params \<Longrightarrow> f ctx words = g ctx words"
  shows "handler_cmd env f h ctx params = handler_cmd env g h ctx params"
proof (cases "h = HUserRun")
  case True
  moreover have "handleUserRun env f ctx params = handleUserRun env g ctx params"
    using assms [of "tl params"] by (cases params) (simp_all add: handleUserRun_def Let_def cong: if_cong)
  ultimately show ?thesis by simp
qed (cases h; simp)

lemma run_command_enough: "length words < k \<Longrightarrow> run_command k env ctx words = service_command_run env ctx words"
proof (induction "length words" arbitrary: words k rule: less_induct)
  case less
  then obtain j where k: "k = Suc j" by (cases k) auto
  have agree: "run_command j env ctx ws = run_command (length words) env ctx ws" if "length ws < length words" for ws
    using less.hyps [OF that, of j] less.hyps [OF that, of "length words"] that less.prems k by simp
  have "run_with env (run_command j env) h ctx params s = run_with env (run_command (length words) env) h ctx params s"
    if "length params < length words" for h params s
    using handler_cmd_cong [of params "run_command j env" ctx "run_command (length words) env" env h] agree that
    by (simp add: run_with_def)
  then show ?case
    unfolding service_command_run_def k
    by (intro ext) (simp add: handleServiceCommand_cong [of words "run_with env (run_command j env)" ctx _ "run_with env (run_command (length words) env)"])
qed

text \<open>The command that runs as another user is the dispatcher itself.\<close>

lemma service_command_run_unfold:
  "service_command_run env ctx words w = command_result env (handleServiceCommand (service_run env) ctx words ([], w))"
proof -
  have "run_with env (run_command (length words) env) h ctx params s = service_run env h ctx params s"
    if "length params < length words" for h params s
    using handler_cmd_cong [of params "run_command (length words) env" ctx "service_command_run env" env h] run_command_enough that
    by (simp add: run_with_def service_run_def)
  then show ?thesis
    by (simp add: service_command_run_def handleServiceCommand_cong [of words "run_with env (run_command (length words) env)" ctx _ "service_run env"])
qed

end
