(* ===== verification/Client_Messages.thy ===== *)
theory Client_Messages
  imports Service_Users
begin

text \<open>
  Commands of a registered client, continued: messages and broadcasts, authentication to the network, away
  status, monitoring, and the metadata of targets, \<open>handleMessageRegistered\<close> in
  \<^verbatim>\<open>src/downstream.go\<close>.
\<close>

section \<open>Messages\<close>

text \<open>\<open>strings.TrimLeft\<close>.\<close>

definition TrimLeft :: "string \<Rightarrow> string \<Rightarrow> string" where
  "TrimLeft s cutset = concat (map snd (dropWhile (\<lambda>(r, _). List.member (runes cutset) r) (rune_chunks s)))"

definition service_context_of :: "downstream_conn \<Rightarrow> user_world \<Rightarrow> service_context" where
  "service_context_of dc w = \<lparr>sc_admin = user_Admin (u_record (w_user w)), sc_user = Some (user_Username (u_record (w_user w))),
     sc_nick = dc_nick dc, sc_network = dc_network dc, sc_dc = Some (dc_id dc)\<rparr>"

definition service_privmsg :: "string \<Rightarrow> downstream_conn \<Rightarrow> irc_message" where
  "service_privmsg s dc = (mk_msg ''PRIVMSG'' [dc_nick dc, s])\<lparr>Prefix := Some servicePrefix\<rparr>"

definition sendServicePRIVMSG :: "world_env \<Rightarrow> 64 word \<Rightarrow> string \<Rightarrow> w_op" where
  "sendServicePRIVMSG env i s = on_client env i (\<lambda>d st. down_send d (service_privmsg s (dn_dc st)) st)"

text \<open>A command to the bouncer service: what its handler does, then the lines that it prints and its error.\<close>

definition print_lines :: "world_env \<Rightarrow> 64 word \<Rightarrow> string list \<Rightarrow> w_op" where
  "print_lines env i out = do_ops (map (sendServicePRIVMSG env i) out)"

definition service_message :: "world_env \<Rightarrow> downstream_conn \<Rightarrow> string \<Rightarrow> w_cmd" where
  "service_message env dc line w =
     (case handleServicePRIVMSG (service_run env) (service_context_of dc w) line ([], w) of
        (e, out, acts, w) \<Rightarrow>
          let (acts', w) = print_lines env (dc_id dc) (out @
                (case outcome env e of HandlerFail (Failed s) \<Rightarrow> [''error: '' @ s] | _ \<Rightarrow> [])) w
          in ((case outcome env e of HandlerFail Panics \<Rightarrow> Some PanicError | HandlerFail Hangs \<Rightarrow> Some HangError | _ \<Rightarrow> None), acts @ acts', w))"

text \<open>Credentials sent to NickServ are saved.\<close>

definition handleNickServPRIVMSG :: "world_env \<Rightarrow> string \<Rightarrow> up_env \<Rightarrow> up_state \<Rightarrow> up_action list \<times> up_state" where
  "handleNickServPRIVMSG env line uenv st =
     (case parseNickServCredentials (we_unicode env) line (uc_nick (us_uc st)) of
        None \<Rightarrow> ([], st)
      | Some (username, password) \<Rightarrow> autoSaveSASLPlain username password st)"

definition with_time :: "world_env \<Rightarrow> user_world \<Rightarrow> irc_tags \<Rightarrow> irc_tags" where
  "with_time env w tags = go_put ''time'' (user_FormatServerTime (u_msgStore (w_user w)) (we_now env)) tags"

text \<open>The message as the other clients and the log see it, when the server does not echo it.\<close>

definition echo_message :: "world_env \<Rightarrow> user_world \<Rightarrow> upstream_conn \<Rightarrow> irc_tags \<Rightarrow> string \<Rightarrow> string list \<Rightarrow> irc_message" where
  "echo_message env w uc tags cmd params =
     (mk_msg cmd params)\<lparr>
       Tags := (if uc_account uc \<noteq> [] then go_put ''account'' (uc_account uc) (with_time env w tags) else with_time env w tags),
       Prefix := Some \<lparr>Name = uc_nick uc, User = uc_username uc, Host = uc_hostname uc\<rparr>\<rparr>"

text \<open>Sending writes the label into the tags, which the targets of the command share.\<close>

definition client_label :: "64 word \<Rightarrow> user_world \<Rightarrow> string" where
  "client_label i w = (case go_get (w_labels w) i of None \<Rightarrow> [] | Some lc \<Rightarrow> lc_label lc)"

definition shared_tags :: "upstream_conn \<Rightarrow> 64 word \<Rightarrow> string \<Rightarrow> irc_tags \<Rightarrow> irc_tags" where
  "shared_tags uc i label tags = Tags (fst (SendMessageLabeled uc i label ((mk_msg [] [])\<lparr>Tags := tags\<rparr>)))"

definition text_upstream :: "world_env \<Rightarrow> downstream_conn \<Rightarrow> string \<Rightarrow> string \<Rightarrow> string \<Rightarrow> string list \<Rightarrow> irc_tags \<Rightarrow> irc_tags \<Rightarrow> network \<Rightarrow> upstream_conn \<Rightarrow> w_cmd" where
  "text_upstream env dc cmd line name params tags sharedTags n uc w =
     (let ref = n_ref n; i = dc_id dc; echo = caps_IsEnabled (uc_caps uc) ''echo-message'';
          name = TrimLeft name (uc_availableStatusMsg uc)
      in do_cmds
        [if cmd = ''PRIVMSG'' \<and> n_casemap n name = ''nickserv'' then run_op (on_upstream env ref (handleNickServPRIVMSG env line)) else skip,
         send_labeled i ref echo ((mk_msg cmd params)\<lparr>Tags := tags\<rparr>),
         if echo then skip
         else run_op (on_upstream env ref (\<lambda>uenv. produce uenv False name (echo_message env w uc sharedTags cmd params) i)),
         run_op (on_upstream env ref (\<lambda>_ st. ([], updateChannelAutoDetach name st)))] w)"

text \<open>One target of a message: the error, the actions, the state and the shared tags after it.\<close>

definition text_one ::
    "world_env \<Rightarrow> downstream_conn \<Rightarrow> irc_message \<Rightarrow> string \<Rightarrow> string \<Rightarrow> irc_tags \<Rightarrow> user_world
     \<Rightarrow> (down_error option \<times> w_action list \<times> user_world) \<times> irc_tags" where
  "text_one env dc msg line name tags w =
     (let i = dc_id dc; cmd = Command msg; params = name # tl (Params msg); net = client_network w dc in
      if name = ''$'' @ we_hostname env \<or> (name = ''$*'' \<and> net = None) then
        (if \<not> user_Admin (u_record (w_user w))
         then (reject_with ''415'' [dc_nick dc, name, ''Permission denied to broadcast message to all bouncer users''] w, tags)
         else ((None, [WBroadcast ((mk_msg cmd params)\<lparr>Tags := with_time env w tags, Prefix := Some servicePrefix\<rparr>)], w), tags))
      else if net = None \<and> dc_casemap dc name = dc_nickCM dc then
        (run_op (say env i ((dc_msg dc cmd params)\<lparr>Tags := Tags msg\<rparr>)) w, tags)
      else if dc_casemap dc name = serviceNickCM then
        (do_cmds
           [if caps_IsEnabled (dc_caps dc) ''echo-message'' then run_op (say env i ((dc_msg dc cmd params)\<lparr>Tags := with_time env w tags\<rparr>)) else skip,
            if cmd = ''PRIVMSG'' then service_message env dc line else skip] w, tags)
      else
        let sharedTags = (case net of
              Some n \<Rightarrow>
                (case n_conn n of
                   Some uc \<Rightarrow> shared_tags uc i (if caps_IsEnabled (uc_caps uc) ''echo-message'' then client_label i w else []) tags
                 | None \<Rightarrow> tags)
            | None \<Rightarrow> tags)
        in (upstreamForCommand dc cmd (text_upstream env dc cmd line name params tags sharedTags) w, sharedTags))"

text \<open>What an earlier target did to the client, such as binding it to the network object that replaced its own, counts for the later ones.\<close>

definition current_client :: "user_world \<Rightarrow> downstream_conn \<Rightarrow> downstream_conn" where
  "current_client w dc = (case client (dc_id dc) w of None \<Rightarrow> dc | Some dc' \<Rightarrow> dc')"

fun text_loop :: "world_env \<Rightarrow> downstream_conn \<Rightarrow> irc_message \<Rightarrow> string \<Rightarrow> string list \<Rightarrow> irc_tags \<Rightarrow> w_cmd" where
  "text_loop env dc msg line [] tags w = (None, [], w)"
| "text_loop env dc msg line (name # names) tags w =
     (case text_one env (current_client w dc) msg line name tags w of
        ((Some e, acts, w), _) \<Rightarrow> (Some e, acts, w)
      | ((None, acts, w), tags) \<Rightarrow> (case text_loop env dc msg line names tags w of (e, acts', w) \<Rightarrow> (e, acts @ acts', w)))"

definition cmd_text :: "world_env \<Rightarrow> downstream_conn \<Rightarrow> irc_message \<Rightarrow> w_cmd" where
  "cmd_text env dc msg =
     (let isText = (Command msg = ''PRIVMSG'' \<or> Command msg = ''NOTICE'') in
      with_params (if isText then 2 else 1) msg (\<lambda>ps.
        let targets = Split (hd ps) CHR '','' in
        do_cmds
          [drop_label_if_several (dc_id dc) targets,
           text_loop env dc msg (if isText then ps ! 1 else []) targets (copyClientTags (Tags msg))]))"

section \<open>Authentication to the network\<close>

definition end_sasl :: "world_env \<Rightarrow> 64 word \<Rightarrow> irc_message option \<Rightarrow> w_op" where
  "end_sasl env i msg = on_client env i (\<lambda>d. endSASL d msg)"

definition sasl_failed :: "downstream_conn \<Rightarrow> string \<Rightarrow> irc_message option" where
  "sasl_failed dc s = Some (mk_msg ERR_SASLFAIL [dc_nick dc, s])"

definition clear_sasl :: "db_network \<Rightarrow> db_network" where
  "clear_sasl r = r\<lparr>net_SASL := no_sasl\<rparr>"

definition sasl_anonymous :: "world_env \<Rightarrow> downstream_conn \<Rightarrow> network \<Rightarrow> w_cmd" where
  "sasl_anonymous env dc n w =
     (if sasl_Mechanism (net_SASL (n_record n)) = [] then run_op (end_sasl env (dc_id dc) None) w
      else (case on_user env (\<lambda>uenv. updateNetwork uenv (clear_sasl (n_record n)) False) w of
          (Inl NetPanic, acts, w) \<Rightarrow> (Some PanicError, acts, w)
        | (res, acts, w) \<Rightarrow>
            (case run_op (end_sasl env (dc_id dc) (case res of Inl _ \<Rightarrow> sasl_failed dc ''Internal server error'' | Inr _ \<Rightarrow> None)) w of
               (e, acts', w) \<Rightarrow> (e, acts @ acts', w))))"

text \<open>An exchange with PLAIN that is done has credentials; the rest is a nil dereference.\<close>

definition start_sasl :: "world_env \<Rightarrow> downstream_conn \<Rightarrow> network \<Rightarrow> downstream_sasl \<Rightarrow> w_cmd" where
  "start_sasl env dc n sasl w =
     (let i = dc_id dc in
      case network_by_ref (w_user w) (n_ref n) of
        None \<Rightarrow> skip w
      | Some n \<Rightarrow>
          (case n_conn n of
             None \<Rightarrow> skip w
           | Some uc \<Rightarrow>
               if uc_saslClient uc \<noteq> None
               then run_op (end_sasl env i (sasl_failed dc ''Another authentication attempt is already in progress'')) w
               else if ds_mechanism sasl = ''PLAIN'' then
                 (case ds_plain sasl of
                    None \<Rightarrow> reject PanicError w
                  | Some (identity, user, password) \<Rightarrow>
                      if identity \<noteq> [] \<and> identity \<noteq> user then reject_with ERR_SASLFAIL [dc_nick dc, ''SASL PLAIN identity not supported''] w
                      else enqueue env i (n_ref n) (mk_msg ''AUTHENTICATE'' [''PLAIN''])
                             (put_conn n (uc\<lparr>uc_saslClient := Some (SaslPlain user password)\<rparr>) w))
               else if ds_mechanism sasl = ''ANONYMOUS'' then sasl_anonymous env dc n w
               else run_op (end_sasl env i (sasl_failed dc ''Unsupported SASL authentication mechanism'')) w))"

definition cmd_AUTHENTICATE :: "world_env \<Rightarrow> downstream_conn \<Rightarrow> irc_message \<Rightarrow> w_cmd" where
  "cmd_AUTHENTICATE env dc msg w =
     (let unsupported = reject_with ERR_SASLFAIL [dc_nick dc, ''Upstream network authentication not supported''] in
      case client_network w dc of
        None \<Rightarrow> unsupported w
      | Some n \<Rightarrow>
          if (case n_conn n of None \<Rightarrow> True | Some uc \<Rightarrow> \<not> caps_IsEnabled (uc_caps uc) ''sasl'') then unsupported w
          else (case on_client_result env (dc_id dc)
                  (\<lambda>d st. case handleAuthenticate d (we_auth env) msg st of (e, out, c, st) \<Rightarrow> ((e, c), out, st)) (None, None) w of
              ((Some e, _), acts, w) \<Rightarrow> (Some e, acts, w)
            | ((None, None), acts, w) \<Rightarrow> (None, acts, w)
            | ((None, Some sasl), acts, w) \<Rightarrow> (case start_sasl env dc n sasl w of (e, acts', w) \<Rightarrow> (e, acts @ acts', w))))"

definition cmd_REGISTER :: "world_env \<Rightarrow> downstream_conn \<Rightarrow> irc_message \<Rightarrow> w_cmd" where
  "cmd_REGISTER env dc msg w =
     (let unavailable = reject_with ''FAIL'' [Command msg, ''TEMPORARILY_UNAVAILABLE'', ''*'', ''Upstream network account registration not supported''] in
      if (Command msg = ''REGISTER'' \<and> length (Params msg) < 3) \<or> (Command msg = ''VERIFY'' \<and> length (Params msg) < 2)
      then reject (newNeedMoreParamsError (Command msg)) w
      else (case client_network w dc of
          None \<Rightarrow> unavailable w
        | Some n \<Rightarrow>
            if (case n_conn n of None \<Rightarrow> True | Some uc \<Rightarrow> \<not> caps_IsEnabled (uc_caps uc) ''draft/account-registration'') then unavailable w
            else enqueue env (dc_id dc) (n_ref n) msg w))"

section \<open>Away, information and monitoring\<close>

definition cmd_AWAY :: "world_env \<Rightarrow> downstream_conn \<Rightarrow> irc_message \<Rightarrow> w_cmd" where
  "cmd_AWAY env dc msg w =
     (let away = (case Params msg of [] \<Rightarrow> None | r # _ \<Rightarrow> Some r) in
      do_cmds
        [run_op (update_client env (dc_id dc) (\<lambda>dc. dc\<lparr>dc_away := away\<rparr>)),
         run_op (say env (dc_id dc) (generateAwayReply (away \<noteq> None))),
         case client_network w dc of None \<Rightarrow> skip | Some n \<Rightarrow> run_op (on_upstream env (n_ref n) updateAway)] w)"

definition cmd_INFO :: "world_env \<Rightarrow> downstream_conn \<Rightarrow> irc_message \<Rightarrow> w_cmd" where
  "cmd_INFO env dc msg w =
     (case client_network w dc of
        None \<Rightarrow> run_op (say_all env (dc_id dc) [mk_msg ''371'' [dc_nick dc, ''soju <https://soju.im>''], mk_msg ''374'' [dc_nick dc, ''End of INFO'']]) w
      | Some n \<Rightarrow>
          (case n_conn n of
             None \<Rightarrow> reject_with ''421'' [dc_nick dc, Command msg, ''Disconnected from upstream network''] w
           | Some _ \<Rightarrow> send_labeled (dc_id dc) (n_ref n) True msg w))"

definition maxMonitored :: nat where "maxMonitored = 1000"

text \<open>One target of \<open>MONITOR\<close>; \<open>n\<close> and \<open>uc\<close> are the network and its connection.\<close>

definition monitor_one :: "network \<Rightarrow> upstream_conn \<Rightarrow> bool \<Rightarrow> string \<Rightarrow> down_env \<Rightarrow> down_op" where
  "monitor_one n uc add target denv st =
     (let dc = dn_dc st in
      if \<not> add then ([], st\<lparr>dn_dc := dc\<lparr>dc_monitored := cmm_Del (dc_monitored dc) target\<rparr>\<rparr>)
      else if cmm_Len (dc_monitored dc) \<ge> maxMonitored
      then down_send denv (mk_msg ''734'' [dc_nick dc, ''1000'', target, ''Bouncer monitor list is full'']) st
      else
        let st = st\<lparr>dn_dc := dc\<lparr>dc_monitored := cmm_Set (dc_monitored dc) target ()\<rparr>\<rparr> in
        if n_casemap n target = serviceNickCM then down_send denv (mk_msg ''730'' [dc_nick dc, target]) st
        else (case cmm_Get (uc_monitored uc) target of
            None \<Rightarrow> ([], st)
          | Some online \<Rightarrow> down_send denv (mk_msg (if online then ''730'' else ''731'') [dc_nick dc, target]) st))"

definition monitor_status :: "network \<Rightarrow> upstream_conn \<Rightarrow> downstream_conn \<Rightarrow> string \<Rightarrow> irc_message" where
  "monitor_status n uc dc target =
     mk_msg (if n_casemap n target = serviceNickCM \<or> cmm_Get (uc_monitored uc) target = Some True then ''730'' else ''731'') [dc_nick dc, target]"

definition cmd_MONITOR :: "world_env \<Rightarrow> downstream_conn \<Rightarrow> irc_message \<Rightarrow> w_cmd" where
  "cmd_MONITOR env dc msg w =
     (let i = dc_id dc; unknown = reject (newUnknownCommandError (Command msg)) in
      case client_network w dc of
        None \<Rightarrow> unknown w
      | Some n \<Rightarrow>
          (case n_conn n of
             None \<Rightarrow> unknown w
           | Some uc \<Rightarrow>
               if go_get (uc_isupport uc) ''MONITOR'' = None then unknown w
               else with_params 1 msg (\<lambda>ps.
                 let sub = ToUpper (we_unicode env) (hd ps); targets = map fst (cmm_ForEach (dc_monitored dc)) in
                 if sub = ''+'' \<or> sub = ''-'' then
                   with_params 2 msg (\<lambda>ps.
                     do_cmds (map (\<lambda>t. run_op (on_client env i (monitor_one n uc (hd ps = ''+'') t))) (Split (ps ! 1) CHR '','')
                              @ [run_op (on_upstream env (n_ref n) updateMonitor)]))
                 else if sub = ''C'' then
                   do_cmds [run_op (update_client env i (\<lambda>dc. dc\<lparr>dc_monitored := NewCaseMappingMap (n_casemap n)\<rparr>)),
                            run_op (on_upstream env (n_ref n) updateMonitor)]
                 else if sub = ''L'' then
                   run_op (say_all env i (map (\<lambda>t. mk_msg ''732'' [dc_nick dc, t]) targets @ [mk_msg ''733'' [dc_nick dc, ''End of MONITOR list'']]))
                 else if sub = ''S'' then run_op (say_all env i (map (monitor_status n uc dc) targets))
                 else skip) w))"

section \<open>Metadata\<close>

definition invalid_key :: "string \<Rightarrow> irc_message" where
  "invalid_key k = mk_msg ''FAIL'' [''METADATA'', ''KEY_INVALID'', k, ''Invalid key'']"

text \<open>Setting one key: the target after the call and the value to announce, absent when the value is not valid.\<close>

definition set_metadata :: "string \<Rightarrow> string option \<Rightarrow> message_target \<Rightarrow> (message_target \<times> string option) option" where
  "set_metadata k v mt =
     (let (b, s) = (case parseMessageTargetMetadataBool v of None \<Rightarrow> (False, None) | Some (b, s) \<Rightarrow> (b, Some s)) in
      if k = ''soju.im/pinned'' then Some (mt\<lparr>mt_Pinned := b\<rparr>, s)
      else if k = ''soju.im/muted'' then Some (mt\<lparr>mt_Muted := b\<rparr>, s)
      else if k = ''soju.im/blocked'' then Some (mt\<lparr>mt_Blocked := b\<rparr>, s)
      else None)"

text \<open>\<open>ref\<close> is the reference of the batch, empty when there is none.\<close>

definition set_one :: "world_env \<Rightarrow> downstream_conn \<Rightarrow> string \<Rightarrow> string \<Rightarrow> string \<times> string option \<Rightarrow> message_target option \<Rightarrow> user_world
    \<Rightarrow> message_target option \<times> w_action list \<times> user_world" where
  "set_one env dc target ref kv mt w =
     (let i = dc_id dc; k = fst kv;
          tagged = (\<lambda>m. if ref = [] then m else with_tag ''batch'' ref m);
          tell = (\<lambda>mt m. case say env i (tagged m) w of (acts, w) \<Rightarrow> (mt, acts, w))
      in case mt of
           None \<Rightarrow> tell None (invalid_key k)
         | Some t \<Rightarrow>
             (case set_metadata k (snd kv) t of
                None \<Rightarrow> tell (Some t) (invalid_key k)
              | Some (t, None) \<Rightarrow> tell (Some t) (mk_msg ''FAIL'' [''METADATA'', ''VALUE_INVALID'', ''Invalid value''])
              | Some (t, Some v) \<Rightarrow>
                  (case do_ops (say env i (tagged (mk_msg ''761'' [''*'', target, k, ''*'', v]))
                          # map (\<lambda>c. say env (dc_id c) (mk_msg ''METADATA'' [target, k, ''*'', v]))
                              (filter (\<lambda>c. dc_network c = dc_network dc) (clients w))) w of
                     (acts, w) \<Rightarrow> (Some t, acts, w))))"

fun setMessageTargetMetadata :: "world_env \<Rightarrow> downstream_conn \<Rightarrow> string \<Rightarrow> string \<Rightarrow> (string \<times> string option) list \<Rightarrow> message_target option \<Rightarrow> user_world
    \<Rightarrow> message_target option \<times> w_action list \<times> user_world" where
  "setMessageTargetMetadata env dc target ref [] mt w = (mt, [], w)"
| "setMessageTargetMetadata env dc target ref (kv # kvs) mt w =
     (case set_one env dc target ref kv mt w of
        (mt, acts, w) \<Rightarrow>
          (case setMessageTargetMetadata env dc target ref kvs mt w of (mt, acts', w) \<Rightarrow> (mt, acts @ acts', w)))"

definition internal_error :: "string \<Rightarrow> down_error" where
  "internal_error target = IrcError (mk_msg ''FAIL'' [''METADATA'', ''INTERNAL_ERROR'', target, ''Internal error''])"

definition store_target :: "world_env \<Rightarrow> network option \<Rightarrow> string \<Rightarrow> message_target option \<Rightarrow> w_cmd" where
  "store_target env net target mt =
     (case (net, mt) of
        (Some n, Some t) \<Rightarrow>
          if we_storeTarget env (nid n) t then run_op (emit [WStoreTarget (nid n) t]) else reject (internal_error target)
      | _ \<Rightarrow> skip)"

text \<open>A batch of the client around an operation on the user's state.\<close>

definition open_batch :: "world_env \<Rightarrow> 64 word \<Rightarrow> string \<Rightarrow> user_world \<Rightarrow> string \<times> w_action list \<times> user_world" where
  "open_batch env i typ =
     on_client_result env i (\<lambda>d st.
       let st = st\<lparr>dn_dc := (dn_dc st)\<lparr>dc_lastBatchRef := dc_lastBatchRef (dn_dc st) + 1\<rparr>\<rparr>;
           ref = batch_ref (dc_lastBatchRef (dn_dc st));
           (out, st) = (if cap_on st ''batch'' then down_send d (mk_msg ''BATCH'' [''+'' @ ref, typ]) st else ([], st))
       in (ref, out, st)) []"

definition close_batch :: "world_env \<Rightarrow> 64 word \<Rightarrow> string \<Rightarrow> w_op" where
  "close_batch env i ref = on_client env i (\<lambda>d st. if cap_on st ''batch'' then down_send d (mk_msg ''BATCH'' [''-'' @ ref]) st else ([], st))"

definition metadata_SET :: "world_env \<Rightarrow> downstream_conn \<Rightarrow> irc_message \<Rightarrow> network option \<Rightarrow> string \<Rightarrow> message_target option \<Rightarrow> w_cmd" where
  "metadata_SET env dc msg net target mt = with_params 3 msg (\<lambda>ps w.
     let v = (if length (Params msg) > 3 then Some (Params msg ! 3) else None) in
     (case setMessageTargetMetadata env dc target [] [(ToLower (we_unicode env) (ps ! 2), v)] mt w of
        (mt, acts, w) \<Rightarrow> (case store_target env net target mt w of (e, acts', w) \<Rightarrow> (e, acts @ acts', w))))"

definition metadata_CLEAR :: "world_env \<Rightarrow> downstream_conn \<Rightarrow> network option \<Rightarrow> string \<Rightarrow> message_target option \<Rightarrow> w_cmd" where
  "metadata_CLEAR env dc net target mt w =
     (case open_batch env (dc_id dc) ''metadata'' w of
        (ref, acts1, w) \<Rightarrow>
          (case setMessageTargetMetadata env dc target ref (map (\<lambda>k. (k, None)) metadata_keys) mt w of
             (mt, acts2, w) \<Rightarrow>
               (case close_batch env (dc_id dc) ref w of
                  (acts3, w) \<Rightarrow> (case store_target env net target mt w of (e, acts4, w) \<Rightarrow> (e, acts1 @ acts2 @ acts3 @ acts4, w)))))"

definition metadata_list :: "string \<Rightarrow> message_target option \<Rightarrow> string \<Rightarrow> irc_message list" where
  "metadata_list target mt ref =
     map (\<lambda>(k, v). with_tag ''batch'' ref (mk_msg ''761'' [''*'', target, k, ''*'', v]))
       (case mt of None \<Rightarrow> [] | Some t \<Rightarrow> getMessageTargetMetadata t)"

definition metadata_get :: "unicode_tables \<Rightarrow> string \<Rightarrow> message_target option \<Rightarrow> string list \<Rightarrow> string \<Rightarrow> irc_message list" where
  "metadata_get U target mt ks ref =
     map (\<lambda>k. let k = ToLower U k in
       with_tag ''batch'' ref
         (case go_get (case mt of None \<Rightarrow> [] | Some t \<Rightarrow> getMessageTargetMetadata t) k of
            Some v \<Rightarrow> mk_msg ''761'' [''*'', target, k, ''*'', v]
          | None \<Rightarrow> invalid_key k)) ks"

definition send_batch :: "world_env \<Rightarrow> 64 word \<Rightarrow> string \<Rightarrow> string list \<Rightarrow> (string \<Rightarrow> irc_message list) \<Rightarrow> w_cmd" where
  "send_batch env i typ params f = run_op (on_client env i (\<lambda>d. SendBatch (d_srvPrefix d) typ params [] f))"

definition cmd_METADATA :: "world_env \<Rightarrow> downstream_conn \<Rightarrow> irc_message \<Rightarrow> w_cmd" where
  "cmd_METADATA env dc msg = with_params 2 msg (\<lambda>ps w.
     let target = ps ! 0; sub = ps ! 1; i = dc_id dc; net = client_network w dc in
     if sub = ''SUB'' \<or> sub = ''UNSUB'' \<or> sub = ''SUBS'' then
       on_client_result env i (\<lambda>d st. case handleMetadataSub d msg st of Some r \<Rightarrow> r | None \<Rightarrow> (None, [], st)) None w
     else (case (if target = ''*'' then Some None
                 else (case net of None \<Rightarrow> Some None | Some n \<Rightarrow> map_option Some (we_getTarget env (nid n) (n_casemap n target)))) of
         None \<Rightarrow> reject (internal_error target) w
       | Some mt \<Rightarrow>
           if sub = ''LIST'' then send_batch env i ''metadata'' [] (metadata_list target mt) w
           else if sub = ''GET'' then send_batch env i ''metadata'' [] (metadata_get (we_unicode env) target mt (drop 2 (Params msg))) w
           else if sub = ''SET'' then metadata_SET env dc msg net target mt w
           else if sub = ''CLEAR'' then metadata_CLEAR env dc net target mt w
           else reject_with ''FAIL'' [''METADATA'', ''INVALID_PARAMS'', sub, ''Unknown command''] w))"

end
