(* ===== verification/Client_Frame.thy ===== *)
theory Client_Frame
  imports Client_Messages
begin

text \<open>
  What the steps of a client connection keep: its identity, its network, whether it is closed, the invariant of
  its capabilities and of its monitor list, and a label that has been used up.  The invariant of the
  user rests on it.
\<close>

section \<open>The relation\<close>

definition client_ok :: "downstream_conn \<Rightarrow> bool" where
  "client_ok dc \<longleftrightarrow> caps_ok (dc_caps dc) \<and> cmm_Len (dc_monitored dc) \<le> maxMonitored"

definition client_rel :: "downstream_conn \<Rightarrow> downstream_conn \<Rightarrow> bool" where
  "client_rel dc dc' \<longleftrightarrow> dc_id dc' = dc_id dc \<and> dc_network dc' = dc_network dc \<and> dc_closed dc' = dc_closed dc
     \<and> (client_ok dc \<longrightarrow> client_ok dc')"

text \<open>A label that is absent or used up.\<close>

definition label_done :: "label_context option \<Rightarrow> bool" where
  "label_done l \<longleftrightarrow> (case l of None \<Rightarrow> True | Some lc \<Rightarrow> lc_label lc = [])"

definition tame_at :: "down_state \<Rightarrow> down_state \<Rightarrow> bool" where
  "tame_at st st' \<longleftrightarrow> client_rel (dn_dc st) (dn_dc st') \<and> (label_done (dn_label st) \<longrightarrow> dn_label st' = dn_label st)"

definition tame :: "down_op \<Rightarrow> bool" where
  "tame f \<longleftrightarrow> (\<forall>st. tame_at st (snd (f st)))"

lemma client_rel_refl [simp]: "client_rel dc dc"
  by (simp add: client_rel_def)

lemma client_rel_trans: "client_rel dc dc' \<Longrightarrow> client_rel dc' dc'' \<Longrightarrow> client_rel dc dc''"
  by (simp add: client_rel_def)

lemma tame_at_refl [simp]: "tame_at st st"
  by (simp add: tame_at_def)

lemma tame_at_trans: "tame_at st st' \<Longrightarrow> tame_at st' st'' \<Longrightarrow> tame_at st st''"
  unfolding tame_at_def by (auto intro: client_rel_trans)

lemma tameI: "(\<And>st. tame_at st (snd (f st))) \<Longrightarrow> tame f"
  by (simp add: tame_def)

lemma tameD [simp]: "tame f \<Longrightarrow> tame_at st (snd (f st))"
  by (simp add: tame_def)

named_theorems tame_ops

lemma tame_nothing [tame_ops]: "tame (\<lambda>st. ([], st))"
  by (rule tameI) simp

lemma tame_do_all [tame_ops]: "list_all tame fs \<Longrightarrow> tame (do_all fs)"
proof (induction fs)
  case (Cons f fs)
  then have f: "tame f" and fs: "tame (do_all fs)" by simp_all
  show ?case
    by (rule tameI) (auto simp: Let_def case_prod_beta intro: tame_at_trans tameD [OF f] tameD [OF fs])
qed (simp add: tame_nothing tame_def)

lemma tame_set_dc [tame_ops]: "(\<And>dc. client_rel dc (f dc)) \<Longrightarrow> tame (set_dc f)"
  by (rule tameI) (simp add: set_dc_def tame_at_def)

section \<open>Sending\<close>

lemma client_rel_batchRef: "client_rel dc (dc\<lparr>dc_lastBatchRef := r\<rparr>)"
  by (simp add: client_rel_def client_ok_def)

lemma tame_SendMessage [tame_ops]: "tame (SendMessage srv msg)"
  by (rule tameI) (auto simp: SendMessage_def tame_at_def client_rel_batchRef label_done_def case_prod_beta Let_def split: option.split)

lemma tame_send_all [tame_ops]: "tame (send_all srv msgs)"
  unfolding send_all_def by (rule tame_do_all) (auto simp: list_all_iff tame_SendMessage)

lemma tame_SendBatch [tame_ops]: "tame (SendBatch srv typ params tags f)"
proof (rule tameI)
  fix st :: down_state
  define st1 where "st1 = st\<lparr>dn_dc := (dn_dc st)\<lparr>dc_lastBatchRef := dc_lastBatchRef (dn_dc st) + 1\<rparr>\<rparr>"
  have "tame_at st st1" by (simp add: st1_def tame_at_def client_rel_batchRef)
  moreover have "tame_at st1 (snd (SendBatch srv typ params tags f st))"
    unfolding SendBatch_def st1_def [symmetric] Let_def by (rule tameD, rule tame_do_all) (simp add: tame_SendMessage tame_send_all)
  ultimately show "tame_at st (snd (SendBatch srv typ params tags f st))" by (rule tame_at_trans)
qed

text \<open>A step that depends on the state of the client.\<close>

lemma tame_by_state: "(\<And>st. tame (f st)) \<Longrightarrow> tame (\<lambda>st. f st st)"
  by (simp add: tame_def)

lemma tame_if: "tame f \<Longrightarrow> tame g \<Longrightarrow> tame (\<lambda>st. if P st then f st else g st)"
  by (simp add: tame_def)

lemmas tame_sends = tameD [OF tame_SendMessage] tameD [OF tame_send_all] tameD [OF tame_SendBatch]

lemma tame_messages [tame_ops]:
  "tame (sendPing srv i)" "tame (advanceMessageWithID srv msg i)"
  "tame (sendTopic env ch)" "tame (sendNames env cenv ch)" "tame (relayDetachedMessage env b msg)"
  "tame (sendTargetBacklog env cenv h net target mid)" "tame (sendTargetMetadata env mt)" "tame (sendIsupport env m)"
  by (rule tameI, simp add: sendPing_def advanceMessageWithID_def sendTopic_def sendNames_def relayDetachedMessage_def
      sendTargetBacklog_def sendTargetMetadata_def sendIsupport_def Let_def tame_sends del: send_all_simps split: option.split)+

lemma tame_sendMessageWithID [tame_ops]: "tame (sendMessageWithID srv msg i)"
  unfolding sendMessageWithID_def by (rule tame_do_all) (simp add: tame_SendMessage tame_messages)

lemma tame_forwardChannel [tame_ops]: "tame (forwardChannel env cenv net ch)"
  unfolding forwardChannel_def
  by (rule tame_do_all) (auto intro!: tame_if tame_messages tame_nothing tame_by_state [OF tame_send_all])

section \<open>Monitor lists\<close>

lemma length_go_put_le: "length (go_put k v m) \<le> Suc (length m)"
  by (induction m) auto

lemma length_foldl_put: "length (foldl (\<lambda>m (k, e). go_put k e m) m kvs) \<le> length m + length kvs"
proof (induction kvs arbitrary: m)
  case (Cons kv kvs)
  obtain k e where "kv = (k, e)" by fastforce
  with Cons.IH [of "go_put k e m"] length_go_put_le [of k e m] show ?case by simp
qed simp

lemma monitor_Len:
  "cmm_Len (cmm_SetCaseMapping cmm cm) \<le> cmm_Len cmm"
  "cmm_Len (cmm_Del cmm name) \<le> cmm_Len cmm"
  "cmm_Len (cmm_Set cmm name v) \<le> Suc (cmm_Len cmm)"
  "cmm_Len (NewCaseMappingMap cm) = 0"
proof -
  show "cmm_Len (cmm_SetCaseMapping cmm cm) \<le> cmm_Len cmm"
    using length_foldl_put [of "[]" "rekey cm cmm"] by (simp add: cmm_Len_def SetCaseMapping_m rekey_def)
  show "cmm_Len (cmm_Del cmm name) \<le> cmm_Len cmm"
    by (simp add: cmm_Len_def cmm_Del_def AList.length_delete_le)
  show "cmm_Len (cmm_Set cmm name v) \<le> Suc (cmm_Len cmm)"
    by (auto simp: cmm_Len_def cmm_Set_def length_go_put_le Let_def split: option.split)
  show "cmm_Len (NewCaseMappingMap cm) = 0"
    by (simp add: cmm_Len_def NewCaseMappingMap_def)
qed

lemma client_rel_updateCasemapping: "client_rel dc (updateCasemapping env dc)"
  using monitor_Len(1) [of "dc_monitored dc"] by (auto simp: client_rel_def client_ok_def updateCasemapping_def Let_def intro: order_trans)

lemma tame_updateCasemapping [tame_ops]: "tame (set_dc (updateCasemapping env))"
  by (rule tame_set_dc) (rule client_rel_updateCasemapping)

lemma tame_monitor_one [tame_ops]: "tame (monitor_one n uc add target env)"
proof (rule tameI)
  fix st :: down_state
  define f where "f m = st\<lparr>dn_dc := (dn_dc st)\<lparr>dc_monitored := m\<rparr>\<rparr>" for m
  have set: "tame_at st (f (cmm_Set (dc_monitored (dn_dc st)) target ()))" if "cmm_Len (dc_monitored (dn_dc st)) < maxMonitored"
    using monitor_Len(3) [of "dc_monitored (dn_dc st)" target "()"] that by (simp add: f_def tame_at_def client_rel_def client_ok_def)
  have "tame_at st (f (cmm_Del (dc_monitored (dn_dc st)) target))"
    using monitor_Len(2) [of "dc_monitored (dn_dc st)" target] by (simp add: f_def tame_at_def client_rel_def client_ok_def)
  then show "tame_at st (snd (monitor_one n uc add target env st))"
    using set by (auto simp: monitor_one_def Let_def tame_sends not_le split: option.split
        intro: tame_at_trans [OF _ tameD [OF tame_SendMessage]] simp flip: f_def)
qed

section \<open>Capabilities and what follows the upstream connection\<close>

text \<open>A change of the connection followed by a message.\<close>

lemma tame_change: "client_rel (dn_dc st) dc \<Longrightarrow> tame_at st (st\<lparr>dn_dc := dc\<rparr>)"
  by (simp add: tame_at_def)

lemma tame_change_send: "client_rel (dn_dc st) dc \<Longrightarrow> tame_at st (snd (SendMessage srv msg (st\<lparr>dn_dc := dc\<rparr>)))"
  by (rule tame_at_trans [OF tame_change tameD [OF tame_SendMessage]])

lemmas tame_changes = tame_change tame_change_send

lemma client_rel_available: "client_rel dc (set_available n v dc)"
  by (auto simp: client_rel_def client_ok_def set_available_def caps_ok_iff available_put)

lemma client_rel_unavailable: "n \<noteq> ''cap-notify'' \<Longrightarrow> client_rel dc (dc\<lparr>dc_caps := caps_Del (dc_caps dc) n\<rparr>)"
  by (auto simp: client_rel_def client_ok_def caps_ok_iff)

lemma tame_setSupportedCap: "tame (setSupportedCap env n v)"
  by (rule tameI) (simp add: setSupportedCap_def Let_def tame_changes client_rel_available)

lemma tame_unsetSupportedCap: "n \<noteq> ''cap-notify'' \<Longrightarrow> tame (unsetSupportedCap env n)"
  by (rule tameI) (simp add: unsetSupportedCap_def Let_def tame_changes client_rel_unavailable)

lemma tame_updateSupportedCaps [tame_ops]: "tame (updateSupportedCaps env)"
proof -
  have "tame (passthrough_op env kv)" if "kv \<in> set passthroughDownstreamCaps" for kv
    using that by (auto simp: passthrough_op_def passthroughDownstreamCaps_def intro!: tame_setSupportedCap tame_unsetSupportedCap)
  moreover have "tame (sasl_op env)" "tame (account_registration_op env)"
    by (simp_all add: sasl_op_def account_registration_op_def tame_setSupportedCap tame_unsetSupportedCap tame_nothing split: option.split)
  ultimately show ?thesis
    unfolding updateSupportedCaps_def
    by (intro tame_do_all) (auto simp: list_all_iff tame_setSupportedCap tame_unsetSupportedCap)
qed

lemma tame_updateIsupport [tame_ops]: "tame (updateIsupport env)"
proof (rule tameI)
  fix st :: down_state
  have "tame_at st' (st'\<lparr>dn_dc := (dn_dc st')\<lparr>dc_isupport := m\<rparr>\<rparr>)" for m and st' :: down_state
    by (simp add: tame_at_def client_rel_def client_ok_def)
  then show "tame_at st (snd (updateIsupport env st))"
    by (auto simp: updateIsupport_def Let_def case_prod_beta intro: tame_at_trans [OF tameD [OF tame_messages(8)]])
qed

lemma client_rel_fields:
  "client_rel dc (dc\<lparr>dc_nick := n, dc_nickCM := m\<rparr>)" "client_rel dc (dc\<lparr>dc_hostname := n, dc_username := m\<rparr>)"
  "client_rel dc (dc\<lparr>dc_realname := n\<rparr>)" "client_rel dc (dc\<lparr>dc_account := n\<rparr>)" "client_rel dc (dc\<lparr>dc_sasl := s\<rparr>)"
  "client_rel dc (dc\<lparr>dc_metadataSubs := ks\<rparr>)" "client_rel dc (dc\<lparr>dc_away := a\<rparr>)" "client_rel dc (dc\<lparr>dc_isupport := i\<rparr>)"
  "client_rel dc (set_negotiating b dc)" "client_rel dc (dc\<lparr>dc_capVersion := v\<rparr>)"
  by (simp_all add: client_rel_def client_ok_def set_negotiating_def)

lemma tame_followers [tame_ops]:
  "tame (updateNick env usr)" "tame (updateHost env)" "tame (updateRealname env usr)" "tame (updateAccount env usr)"
  by (rule tameI, auto simp: updateNick_def updateHost_def updateRealname_def updateAccount_def Let_def tame_SendMessage tame_nothing
      tame_by_state client_rel_fields simp del: do_all.simps split: option.split intro!: tameD [OF tame_do_all] tame_set_dc)+

lemma tame_endSASL [tame_ops]: "tame (endSASL env msg)"
  by (rule tameI) (simp add: endSASL_def dn_upd_def Let_def tame_changes client_rel_fields)

section \<open>Steps with a result\<close>

lemma tame_handleAuthenticate:
  "handleAuthenticate env auth msg st = (e, out, c, st') \<Longrightarrow> tame_at st st'"
  by (auto simp: handleAuthenticate_def dn_upd_def Let_def tame_changes client_rel_fields case_prod_beta
      split: if_splits list.splits sum.splits option.splits)

lemma tame_metadata_sub_key: "tame_at st (snd (snd (metadata_sub_key env msg sub k st)))"
proof -
  have "tame_at st (st\<lparr>dn_dc := (dn_dc st)\<lparr>dc_metadataSubs := ks\<rparr>\<rparr>)" for ks by (simp add: tame_changes client_rel_fields)
  then show ?thesis
    by (auto simp: metadata_sub_key_def dn_upd_def Let_def case_prod_beta tame_sends split: option.split
        simp del: send_all_simps intro: tame_at_trans [OF _ tameD [OF tame_send_all]] tame_at_trans [OF _ tameD [OF tame_SendMessage]])
qed

lemma tame_metadata_sub_loop: "tame_at st (snd (snd (metadata_sub_loop env msg sub ks st)))"
proof (induction ks arbitrary: st)
  case (Cons k ks)
  obtain e out st1 where 1: "metadata_sub_key env msg sub (ToLower (d_unicode env) k) st = (e, out, st1)" by (metis prod_cases3)
  have "tame_at st st1" using tame_metadata_sub_key [of st env msg sub "ToLower (d_unicode env) k"] by (simp add: 1)
  with Cons.IH [of st1] show ?case by (auto simp: 1 case_prod_beta split: option.split intro: tame_at_trans)
qed simp

lemma tame_handleMetadataSub: "handleMetadataSub env msg st = Some r \<Longrightarrow> tame_at st (snd (snd r))"
  using tame_metadata_sub_loop [of st env msg]
  by (auto simp: handleMetadataSub_def case_prod_beta tame_sends simp del: send_all_simps split: list.splits if_splits)

lemma SendMessage_fields:
  "dc_id (dn_dc (snd (SendMessage srv m st))) = dc_id (dn_dc st)"
  "dc_network (dn_dc (snd (SendMessage srv m st))) = dc_network (dn_dc st)"
  "dc_closed (dn_dc (snd (SendMessage srv m st))) = dc_closed (dn_dc st)"
  "dc_monitored (dn_dc (snd (SendMessage srv m st))) = dc_monitored (dn_dc st)"
  "label_done (dn_label st) \<Longrightarrow> dn_label (snd (SendMessage srv m st)) = dn_label st"
  by (auto simp: SendMessage_def label_done_def Let_def case_prod_beta split: option.split)

lemma foldl_available_fields:
  fixes kvs
  defines "dc' \<equiv> \<lambda>dc. foldl (\<lambda>dc (k, v). set_available k v dc) dc kvs"
  shows "dc_id (dc' dc) = dc_id dc" "dc_network (dc' dc) = dc_network dc" "dc_closed (dc' dc) = dc_closed dc"
    "dc_monitored (dc' dc) = dc_monitored dc"
  unfolding dc'_def by (induction kvs arbitrary: dc) (auto simp: set_available_def)

lemma tame_handleCap: "tame_at st (snd (snd (handleCap env msg st)))"
proof -
  let ?st = "snd (snd (handleCap env msg st))"
  have "dc_id (dn_dc ?st) = dc_id (dn_dc st)" "dc_network (dn_dc ?st) = dc_network (dn_dc st)" "dc_closed (dn_dc ?st) = dc_closed (dn_dc st)"
    "dc_monitored (dn_dc ?st) = dc_monitored (dn_dc st)" "label_done (dn_label st) \<Longrightarrow> dn_label ?st = dn_label st"
    by (auto simp: handleCap_def cap_LS_def cap_REQ_def Let_def case_prod_beta set_dc_def set_negotiating_def SendMessage_fields
        foldl_available_fields split: list.split option.split)
  with handleCap_keeps [of st env msg] show ?thesis by (simp add: tame_at_def client_rel_def client_ok_def)
qed

end
