(* ===== verification/Upstream_Frame.thy ===== *)
theory Upstream_Frame
  imports Upstream_Steps
begin

text \<open>
  What the messages of a server do not touch: the identity of the network, that is its object, the identifier, name and
  address of its record.  The list of networks of the user rests on it.
\<close>

definition us_ident :: "up_state \<Rightarrow> nat \<times> int \<times> string \<times> string" where
  "us_ident st = (n_ref (us_net st), net_ID (n_record (us_net st)), net_Name (n_record (us_net st)), net_Addr (n_record (us_net st)))"

section \<open>Shared steps\<close>

lemma us_ident_uc [simp]: "us_ident (st\<lparr>us_uc := uc\<rparr>) = us_ident st" "us_ident (set_uc f st) = us_ident st"
  "us_ident (st\<lparr>us_orphanTimers := ts\<rparr>) = us_ident st" "us_ident (st\<lparr>us_current := b\<rparr>) = us_ident st"
  by (simp_all add: us_ident_def set_uc_def)

lemma us_ident_net [simp]:
  "us_ident (st\<lparr>us_net := (us_net st)\<lparr>n_channels := a\<rparr>\<rparr>) = us_ident st"
  "us_ident (st\<lparr>us_net := (us_net st)\<lparr>n_delivered := d\<rparr>\<rparr>) = us_ident st"
  "us_ident (st\<lparr>us_net := (us_net st)\<lparr>n_pushTargets := p\<rparr>\<rparr>) = us_ident st"
  "us_ident (st\<lparr>us_net := (us_net st)\<lparr>n_lastError := e\<rparr>\<rparr>) = us_ident st"
  by (simp_all add: us_ident_def)

lemma ident_helpers [simp]:
  "us_ident (put_channel name ch st) = us_ident st"
  "us_ident (set_channels g st) = us_ident st"
  "us_ident (set_db_channel c st) = us_ident st"
  "us_ident (forget_user nick st) = us_ident st"
  "us_ident (updateChannelAutoDetach x st) = us_ident st"
  "us_ident (orphan_timer x st) = us_ident st"
  "us_ident (own_nick_changed env n st) = us_ident st"
  by (simp_all add: put_channel_def set_channels_def set_db_channel_def forget_user_def updateChannelAutoDetach_def orphan_timer_def
      own_nick_changed_def Let_def split: option.split)

lemma cacheUserInfo_ident: "cacheUserInfo nick info st = Some st' \<Longrightarrow> us_ident st' = us_ident st"
  by (auto simp: cacheUserInfo_def)

lemma foldl_ident: "(\<And>x st. us_ident (f st x) = us_ident st) \<Longrightarrow> us_ident (foldl f st xs) = us_ident st"
  by (induction xs arbitrary: st) simp_all

lemma appendLog_ident [simp]: "us_ident (snd (snd (appendLog env e msg st))) = us_ident st"
  by (simp add: appendLog_def Let_def split: option.split)

lemma produce_ident [simp]: "us_ident (snd (produce env b target msg d st)) = us_ident st"
  by (simp add: produce_def Let_def case_prod_beta)

lemma log_all_ident [simp]: "us_ident (snd (log_all env msg names st)) = us_ident st"
  by (induction names arbitrary: st) (simp_all add: case_prod_beta Let_def)

lemma forget_members_ident [simp]: "us_ident (forget_members uch st) = us_ident st"
  by (simp add: forget_members_def foldl_ident case_prod_beta)

lemma updateAway_ident [simp]: "us_ident (snd (updateAway env st)) = us_ident st"
  by (simp add: updateAway_def Let_def)

lemma updateMonitor_ident [simp]: "us_ident (snd (updateMonitor env st)) = us_ident st"
  by (simp add: updateMonitor_def Let_def monitor_forget_def foldl_ident)

lemma attach_ident [simp]: "us_ident (snd (net_attach env ch st)) = us_ident st" "us_ident (snd (net_detach env ch st)) = us_ident st"
  by (simp_all add: net_attach_def net_detach_def Let_def split: option.split)

lemma net_updateCasemapping_ident [simp]: "us_ident (snd (net_updateCasemapping env cm st)) = us_ident st"
  by (simp add: net_updateCasemapping_def Let_def) (simp add: us_ident_def set_uc_def Let_def)

lemma autoSaveSASLPlain_ident [simp]: "us_ident (snd (autoSaveSASLPlain u p st)) = us_ident st"
  by (simp add: autoSaveSASLPlain_def Let_def us_ident_def)

lemma dequeue_ident [simp]: "us_ident (snd (snd (dequeue env cmd st))) = us_ident st"
  by (simp add: dequeue_def case_prod_beta)

lemma dequeue_and_forward_ident [simp]: "us_ident (snd (dequeue_and_forward env d cmd msg st)) = us_ident st"
  by (simp add: dequeue_and_forward_def case_prod_beta Let_def split: option.split)

lemma leave_ident [simp]: "us_ident (leave_channel ch st) = us_ident st" "us_ident (remove_from ch uch nick st) = us_ident st"
  by (simp_all add: leave_channel_def remove_from_def split: option.split)

lemma startRegainNickTimer_ident: "startRegainNickTimer env st = Some st' \<Longrightarrow> us_ident st' = us_ident st"
  by (auto simp: startRegainNickTimer_def Let_def case_prod_beta split: if_splits)

lemma tryRegainNick_ident: "tryRegainNick env nick st = Some (acts, st') \<Longrightarrow> us_ident st' = us_ident st"
  by (auto simp: tryRegainNick_def Let_def case_prod_beta split: if_splits option.splits)

section \<open>Messages\<close>

interpretation ident: up_all_steps "\<lambda>st. us_ident st = i" for i
proof unfold_locales
  show "us_ident (st\<lparr>us_net := (us_net st)\<lparr>n_record := (n_record (us_net st))\<lparr>net_SASL := sasl\<rparr>\<rparr>\<rparr>) = i" if "us_ident st = i" for st sasl
    using that by (simp add: us_ident_def)
qed (auto simp: cacheUserInfo_ident)

lemma up_handleMessage_ident: "up_handleMessage env msg st = (e, acts, st') \<Longrightarrow> us_ident st' = us_ident st"
  by (rule ident.every_message_keeps) simp_all

end
