(* ===== verification/Client_History.thy ===== *)
theory Client_History
  imports Client_Messages
begin

text \<open>
  Commands of a registered client, continued: chat history, read markers, search, certificates, the networks of the
  bouncer and push notifications; and the dispatch on the command, \<open>handleMessageRegistered\<close>
  in \<^verbatim>\<open>src/downstream.go\<close>.
\<close>

section \<open>Chat history\<close>

definition history_error :: "string list \<Rightarrow> w_cmd" where
  "history_error ps = reject_with ''FAIL'' (''CHATHISTORY'' # ps)"

definition newChatHistoryError :: "string \<Rightarrow> string \<Rightarrow> down_error" where
  "newChatHistoryError sub target = IrcError (mk_msg ''FAIL'' [''CHATHISTORY'', ''MESSAGE_ERROR'', sub, target, ''Messages could not be retrieved''])"

text \<open>The bound of the second half of \<open>AROUND\<close>; absent when the time of a message does not parse.\<close>

definition around_bound :: "int \<Rightarrow> irc_message list \<Rightarrow> int option" where
  "around_bound bound before =
     (if before = [] then Some (bound - 1000000000) else ParseServerTime (tag_value (last before) ''time''))"

text \<open>The errors of \<open>AROUND\<close> are those of a variable of the inner block, which the block after the switch does not see.\<close>

definition load_around :: "world_env \<Rightarrow> int \<Rightarrow> load_options \<Rightarrow> irc_message list" where
  "load_around env bound opts =
     (let afterLimit = lo_Limit opts div 2 in
      case we_loadBefore env bound zero_time (opts\<lparr>lo_Limit := lo_Limit opts - afterLimit\<rparr>) of
        None \<Rightarrow> []
      | Some before \<Rightarrow>
          (case around_bound bound before of
             None \<Rightarrow> []
           | Some b \<Rightarrow>
               (case we_loadAfter env b (we_now env) (opts\<lparr>lo_Limit := afterLimit\<rparr>) of
                  None \<Rightarrow> []
                | Some after \<Rightarrow> before @ after)))"

text \<open>The messages of a request other than \<open>TARGETS\<close>; absent for an error.\<close>

definition load_history :: "world_env \<Rightarrow> string \<Rightarrow> int \<Rightarrow> int \<Rightarrow> load_options \<Rightarrow> irc_message list option" where
  "load_history env sub b0 b1 opts =
     (if sub = ''BEFORE'' then we_loadBefore env b0 zero_time opts
      else if sub = ''LATEST'' then we_loadBefore env (we_now env) b0 opts
      else if sub = ''AFTER'' then we_loadAfter env b0 (we_now env) opts
      else if sub = ''AROUND'' then Some (load_around env b0 opts)
      else if b0 < b1 then we_loadAfter env b0 b1 opts
      else we_loadBefore env b0 b1 opts)"

definition history_targets :: "network \<Rightarrow> (string \<times> int) list \<Rightarrow> string \<Rightarrow> irc_message list" where
  "history_targets n targets ref =
     map (\<lambda>(name, t). with_tag ''batch'' ref (mk_msg ''CHATHISTORY'' [''TARGETS'', name, FormatServerTime t]))
       (filter (\<lambda>(name, _). \<not> (case cmm_Get (n_channels n) name of None \<Rightarrow> False | Some ch \<Rightarrow> ch_Detached ch)) targets)"

definition reply_history :: "world_env \<Rightarrow> 64 word \<Rightarrow> network \<Rightarrow> string \<Rightarrow> string \<Rightarrow> int \<Rightarrow> int \<Rightarrow> int \<Rightarrow> bool \<Rightarrow> w_cmd" where
  "reply_history env i n sub target b0 b1 limit events =
     (if sub = ''TARGETS'' then
        (case we_targets env (nid n) b0 b1 limit events of
           None \<Rightarrow> history_error [''MESSAGE_ERROR'', sub, ''Failed to retrieve targets'']
         | Some targets \<Rightarrow> send_batch env i ''draft/chathistory-targets'' [] (history_targets n targets))
      else (case load_history env sub b0 b1 \<lparr>lo_Network = nid n, lo_Entity = target, lo_Limit = limit, lo_Events = events\<rparr> of
          None \<Rightarrow> reject (newChatHistoryError sub target)
        | Some history \<Rightarrow> send_batch env i ''chathistory'' [target] (\<lambda>ref. map (with_tag ''batch'' ref) history)))"

text \<open>The checks on the bounds and the limit.\<close>

definition checked_history :: "world_env \<Rightarrow> downstream_conn \<Rightarrow> network \<Rightarrow> string \<Rightarrow> string \<Rightarrow> string \<Rightarrow> string \<Rightarrow> string \<Rightarrow> w_cmd" where
  "checked_history env dc n sub target s0 s1 limitStr =
     (let b0 = (if sub = ''LATEST'' \<and> s0 = ''*'' then zero_time else parseChatHistoryBound s0);
          b1 = (if s1 \<noteq> [] then parseChatHistoryBound s1 else zero_time)
      in if \<not> (sub = ''LATEST'' \<and> s0 = ''*'') \<and> b0 = zero_time then history_error [''INVALID_PARAMS'', sub, s0, ''Invalid first bound'']
         else if s1 \<noteq> [] \<and> b1 = zero_time then history_error [''INVALID_PARAMS'', sub, s1, ''Invalid second bound'']
         else (case ParseInt64 limitStr of
             Inl _ \<Rightarrow> history_error [''INVALID_PARAMS'', sub, limitStr, ''Invalid limit'']
           | Inr limit \<Rightarrow>
               if limit < 0 \<or> limit > int chatHistoryLimit then history_error [''INVALID_PARAMS'', sub, limitStr, ''Invalid limit'']
               else reply_history env (dc_id dc) n sub target b0 b1 limit (caps_IsEnabled (dc_caps dc) ''draft/event-playback'')))"

definition history_request :: "world_env \<Rightarrow> downstream_conn \<Rightarrow> string \<Rightarrow> string \<Rightarrow> string \<Rightarrow> string \<Rightarrow> string \<Rightarrow> w_cmd" where
  "history_request env dc sub target s0 s1 limitStr w =
     (if dc_casemap dc target = serviceNickCM then send_batch env (dc_id dc) ''chathistory'' [target] (\<lambda>_. []) w
      else if \<not> has_history (u_msgStore (w_user w)) then reject_with ''421'' [dc_nick dc, ''CHATHISTORY'', ''Chat history disabled''] w
      else (case client_network w dc of
          None \<Rightarrow> history_error [''INVALID_TARGET'', sub, target, ''Cannot fetch chat history on bouncer connection''] w
        | Some n \<Rightarrow> checked_history env dc n sub (n_casemap n target) s0 s1 limitStr w))"

definition cmd_CHATHISTORY :: "world_env \<Rightarrow> downstream_conn \<Rightarrow> irc_message \<Rightarrow> w_cmd" where
  "cmd_CHATHISTORY env dc msg = with_params 1 msg (\<lambda>ps w.
     let sub = hd ps in
     if List.member [''AFTER'', ''BEFORE'', ''AROUND'', ''LATEST''] sub then
       with_params 4 msg (\<lambda>ps. history_request env dc sub (ps ! 1) (ps ! 2) [] (ps ! 3)) w
     else if sub = ''BETWEEN'' then
       with_params 5 msg (\<lambda>ps. history_request env dc sub (ps ! 1) (ps ! 2) (ps ! 3) (ps ! 4)) w
     else if sub = ''TARGETS'' then
       (if client_network w dc = None then send_batch env (dc_id dc) ''draft/chathistory-targets'' [] (\<lambda>_. []) w
        else with_params 4 msg (\<lambda>ps. history_request env dc sub [] (ps ! 1) (ps ! 2) (ps ! 3)) w)
     else history_error [''INVALID_PARAMS'', sub, ''Unknown command''] w)"

section \<open>Read markers\<close>

definition marker_error :: "string \<Rightarrow> string list \<Rightarrow> w_cmd" where
  "marker_error cmd ps = reject_with ''FAIL'' (cmd # ps)"

text \<open>The time that a criterion asks for.\<close>

datatype criteria = NoCriteria | UnknownCriteria | InvalidCriteria | Timestamp int

definition parse_criteria :: "string \<Rightarrow> criteria" where
  "parse_criteria s =
     (if s = [] then NoCriteria
      else
        let parts = SplitN s CHR ''='' 2 in
        if length parts \<noteq> 2 \<or> parts ! 0 \<noteq> ''timestamp'' then UnknownCriteria
        else (case ParseServerTime (parts ! 1) of None \<Rightarrow> InvalidCriteria | Some t \<Rightarrow> Timestamp t))"

text \<open>The marker moves forward only, and not past the present: the new time when it moves.\<close>

definition move_marker :: "int \<Rightarrow> int \<Rightarrow> int \<Rightarrow> int option" where
  "move_marker now old t = (let t = (if t > now then now else t) in if old < t then Some t else None)"

definition marker_param :: "int \<Rightarrow> string" where
  "marker_param t = (if t = zero_time then ''*'' else ''timestamp='' @ FormatServerTime t)"

definition announce_marker :: "world_env \<Rightarrow> downstream_conn \<Rightarrow> bool \<Rightarrow> string \<Rightarrow> string \<Rightarrow> w_op" where
  "announce_marker env dc broadcast target ts w =
     do_ops (map (\<lambda>c. on_client env (dc_id c) (\<lambda>d st.
         down_send d (dc_msg (dn_dc st) (if cap_on st ''draft/read-marker'' then ''MARKREAD'' else ''READ'') [target, ts]) st))
       (filter (\<lambda>c. dc_network c = dc_network dc \<and> (broadcast \<or> dc_id c = dc_id dc)) (clients w))) w"

definition read_push :: "nat \<Rightarrow> string \<Rightarrow> int \<Rightarrow> string \<Rightarrow> w_op" where
  "read_push ref target t ts w =
     (case network_by_ref (w_user w) ref of
        None \<Rightarrow> ([], w)
      | Some n \<Rightarrow>
          (case cmm_Get (n_pushTargets n) target of
             None \<Rightarrow> ([], w)
           | Some pushed \<Rightarrow>
               ([WPush ref (mk_msg ''MARKREAD'' [target, ts])],
                if t < pushed then w else put_network ref (n\<lparr>n_pushTargets := cmm_Del (n_pushTargets n) target\<rparr>) w)))"

definition mark_read :: "world_env \<Rightarrow> downstream_conn \<Rightarrow> string \<Rightarrow> network \<Rightarrow> string \<Rightarrow> int \<Rightarrow> int option \<Rightarrow> w_cmd" where
  "mark_read env dc cmd n target old new w =
     (let targetCM = n_casemap n target in
      case new of
        None \<Rightarrow> run_op (announce_marker env dc False target (marker_param old)) w
      | Some t \<Rightarrow>
          if \<not> we_storeReceipt env (nid n) targetCM t then marker_error cmd [''INTERNAL_ERROR'', target, ''Internal error''] w
          else do_cmds
            [run_op (emit [WStoreReceipt (nid n) targetCM t]),
             run_op (announce_marker env dc True target (marker_param t)),
             run_op (read_push (n_ref n) target t (marker_param t))] w)"

definition cmd_MARKREAD :: "world_env \<Rightarrow> downstream_conn \<Rightarrow> irc_message \<Rightarrow> w_cmd" where
  "cmd_MARKREAD env dc msg w =
     (let cmd = Command msg in
      case Params msg of
        [] \<Rightarrow> marker_error cmd [''NEED_MORE_PARAMS'', ''Missing parameters''] w
      | target # _ \<Rightarrow>
          let s = param_or msg 1 [] in
          if dc_casemap dc target = serviceNickCM then run_op (say env (dc_id dc) (dc_msg dc cmd [target, ''*''])) w
          else (case client_network w dc of
              None \<Rightarrow> marker_error cmd [''INTERNAL_ERROR'', target, ''Cannot set read markers on bouncer connection''] w
            | Some n \<Rightarrow>
                (case d_receipt (we_channel env) (nid n) (n_casemap n target) of
                   None \<Rightarrow> marker_error cmd [''INTERNAL_ERROR'', target, ''Internal error''] w
                 | Some r \<Rightarrow>
                     let old = (case r of None \<Rightarrow> zero_time | Some t \<Rightarrow> t) in
                     (case parse_criteria s of
                        NoCriteria \<Rightarrow> mark_read env dc cmd n target old None w
                      | UnknownCriteria \<Rightarrow> marker_error cmd [''INVALID_PARAMS'', s, ''Unknown criteria''] w
                      | InvalidCriteria \<Rightarrow> marker_error cmd [''INVALID_PARAMS'', s, ''Invalid criteria''] w
                      | Timestamp t \<Rightarrow> mark_read env dc cmd n target old (move_marker (we_now env) old t) w))))"

section \<open>Search\<close>

definition searchMaxLimit :: int where "searchMaxLimit = 100"

definition search_error :: "string \<Rightarrow> string \<Rightarrow> down_error" where
  "search_error name s = IrcError (mk_msg ''FAIL'' [''SEARCH'', ''INVALID_PARAMS'', name, s])"

text \<open>One attribute of a search; the flag tells whether the network has been set.\<close>

definition search_attr :: "network option \<Rightarrow> string \<times> string \<Rightarrow> search_options \<times> bool \<Rightarrow> down_error + search_options \<times> bool" where
  "search_attr net kv acc =
     (let name = fst kv; v = snd kv; opts = fst acc in
      if name = ''before'' \<or> name = ''after'' then
        (case ParseServerTime v of
           None \<Rightarrow> Inl (search_error name ''Invalid criteria'')
         | Some t \<Rightarrow> Inr (if name = ''after'' then opts\<lparr>so_Start := Some t\<rparr> else opts\<lparr>so_End := Some t\<rparr>, snd acc))
      else if name = ''from'' then Inr (opts\<lparr>so_From := v\<rparr>, snd acc)
      else if name = ''in'' then
        (case net of
           None \<Rightarrow> Inl (search_error name ''Cannot search on bouncer connection'')
         | Some n \<Rightarrow> Inr (opts\<lparr>so_In := n_casemap n v\<rparr>, True))
      else if name = ''text'' then Inr (opts\<lparr>so_Text := v\<rparr>, snd acc)
      else if name = ''limit'' then
        (case ParseInt64 v of
           Inl _ \<Rightarrow> Inl (search_error name ''Invalid limit'')
         | Inr l \<Rightarrow> if l \<le> 0 then Inl (search_error name ''Invalid limit'') else Inr (opts\<lparr>so_Limit := l\<rparr>, snd acc))
      else Inr acc)"

fun search_attrs :: "network option \<Rightarrow> irc_tags \<Rightarrow> search_options \<times> bool \<Rightarrow> down_error + search_options \<times> bool" where
  "search_attrs net [] acc = Inr acc"
| "search_attrs net (kv # kvs) acc = (case search_attr net kv acc of Inl e \<Rightarrow> Inl e | Inr acc \<Rightarrow> search_attrs net kvs acc)"

definition initial_search :: search_options where
  "initial_search = \<lparr>so_Start = None, so_End = None, so_Limit = searchMaxLimit, so_From = [], so_In = [], so_Text = []\<rparr>"

definition cmd_SEARCH :: "world_env \<Rightarrow> downstream_conn \<Rightarrow> irc_message \<Rightarrow> w_cmd" where
  "cmd_SEARCH env dc msg w =
     (if \<not> has_history (u_msgStore (w_user w)) then reject_with ''421'' [dc_nick dc, ''SEARCH'', ''Unknown command''] w
      else with_params 1 msg (\<lambda>ps.
        case search_attrs (client_network w dc) (we_parseTags env (hd ps)) (initial_search, False) of
          Inl e \<Rightarrow> reject e
        | Inr (opts, hasNet) \<Rightarrow>
            (case (if hasNet then client_network w dc else None) of
               None \<Rightarrow> reject (search_error ''in'' ''The in parameter is mandatory'')
             | Some n \<Rightarrow>
                 (case we_search env (nid n) (opts\<lparr>so_Limit := min (so_Limit opts) searchMaxLimit\<rparr>) of
                    None \<Rightarrow> reject_with ''FAIL'' [''SEARCH'', ''INTERNAL_ERROR'', ''Messages could not be retrieved'']
                  | Some msgs \<Rightarrow> send_batch env (dc_id dc) ''soju.im/search'' [] (\<lambda>ref. map (with_tag ''batch'' ref) msgs)))) w)"

end
