(* ===== verification/Client_Dispatch.thy ===== *)
theory Client_Dispatch
  imports Client_History
begin

text \<open>
  The remaining commands of a registered client: certificates of devices, the networks of the bouncer and push
  notifications; and the dispatch on the command, \<open>handleMessageRegistered\<close> in
  \<^verbatim>\<open>src/downstream.go\<close>.
\<close>

section \<open>Device certificates\<close>

definition cert_error :: "string list \<Rightarrow> w_cmd" where
  "cert_error ps = reject_with ''FAIL'' (''CLIENTCERT'' # ps)"

definition cert_entry :: "world_env \<Rightarrow> string \<Rightarrow> device_certificate \<Rightarrow> irc_message" where
  "cert_entry env ref cert = with_tag ''batch'' ref (mk_msg ''CLIENTCERT'' [''LIST'', upper_hex env (cert_Fingerprint cert),
     ue_formatTags (we_user env) [(''time'', we_formatLocal env (cert_LastUsed cert)), (''ip'', cert_LastIP cert), (''name'', cert_Label cert)]])"

definition delete_cert :: "world_env \<Rightarrow> 64 word \<Rightarrow> string \<Rightarrow> string \<Rightarrow> w_cmd" where
  "delete_cert env i h fingerprint =
     (if we_deleteCert env h
      then do_cmds [run_op (emit [WDeleteCert h]), run_op (say env i (mk_msg ''CLIENTCERT'' [''DELETE'', fingerprint]))]
      else cert_error [''INTERNAL_ERROR'', ''DELETE'', ''Could not delete device certificate''])"

definition cert_DELETE :: "world_env \<Rightarrow> 64 word \<Rightarrow> irc_message \<Rightarrow> w_cmd" where
  "cert_DELETE env i msg =
     (if length (Params msg) > 1 then
        let fingerprint = Params msg ! 1; invalid = cert_error [''INTERNAL_ERROR'', ''DELETE'', ''Invalid device certificate fingerprint''] in
        (case hex_DecodeString fingerprint of
           None \<Rightarrow> invalid
         | Some h \<Rightarrow> if length h \<noteq> sha512_Size then invalid else delete_cert env i h fingerprint)
      else (case we_peerCert env i of
          None \<Rightarrow> cert_error [''NOCERT'', ''DELETE'', ''No TLS client certificate is used'']
        | Some h \<Rightarrow> delete_cert env i h (upper_hex env h)))"

definition cmd_CLIENTCERT :: "world_env \<Rightarrow> downstream_conn \<Rightarrow> irc_message \<Rightarrow> w_cmd" where
  "cmd_CLIENTCERT env dc msg = with_params 1 msg (\<lambda>ps.
     let i = dc_id dc; sub = ToUpper (we_unicode env) (hd ps) in
     if \<not> a_clientCertAuth (we_auth env) then reject (newUnknownCommandError (Command msg))
     else if sub = ''LIST'' then
       (case we_listCerts env of
          None \<Rightarrow> reject PlainError
        | Some certs \<Rightarrow> send_batch env i ''soju.im/client-cert'' [] (\<lambda>ref. map (cert_entry env ref) certs))
     else if sub = ''CREATE'' then
       with_params 2 msg (\<lambda>ps.
         case we_peerCert env i of
           None \<Rightarrow> cert_error [''NOCERT'', ''CREATE'', ''No TLS client certificate is used'']
         | Some h \<Rightarrow>
             if we_storeCert env (ps ! 1) h \<noteq> StoreFailed
             then do_cmds [run_op (emit [WStoreCert (ps ! 1) h]), run_op (say env i (mk_msg ''CLIENTCERT'' [''CREATE'']))]
             else cert_error [''INTERNAL_ERROR'', ''CREATE'', ''Could not create device certificate''])
     else if sub = ''DELETE'' then cert_DELETE env i msg
     else cert_error [''UNKNOWN_COMMAND'', hd ps, ''Unknown subcommand''])"

section \<open>Networks of the bouncer\<close>

definition bouncer_error :: "string list \<Rightarrow> w_cmd" where
  "bouncer_error ps = reject_with ''FAIL'' (''BOUNCER'' # ps)"

definition network_entry :: "world_env \<Rightarrow> user_world \<Rightarrow> string \<Rightarrow> network \<Rightarrow> irc_message" where
  "network_entry env w ref n = with_tag ''batch'' ref (mk_msg ''BOUNCER'' [''NETWORK'', show_int (nid n),
     ue_formatTags (we_user env) (getNetworkAttrs (we_user env) (u_record (w_user w)) n)])"

definition list_networks :: "world_env \<Rightarrow> 64 word \<Rightarrow> w_cmd" where
  "list_networks env i w =
     send_batch env i ''soju.im/bouncer-networks'' [] (\<lambda>ref. map (network_entry env w ref) (u_networks (w_user w))) w"

definition attrs_failed :: "string \<Rightarrow> attrs_error \<Rightarrow> w_cmd" where
  "attrs_failed sub e =
     (case e of
        UnknownAttribute k \<Rightarrow> bouncer_error [''UNKNOWN_ATTRIBUTE'', sub, k, ''Unknown attribute'']
      | MissingHost \<Rightarrow> bouncer_error [''NEED_ATTRIBUTE'', sub, ''host'', ''Missing required host attribute''])"

text \<open>A nick that is the user's name and a real name that is the user's own are not kept.\<close>

definition strip_defaults :: "db_user \<Rightarrow> db_network \<Rightarrow> db_network" where
  "strip_defaults usr r =
     (let r = (if net_Nick r = user_Username usr then r\<lparr>net_Nick := []\<rparr> else r)
      in if net_Realname r = user_Realname usr then r\<lparr>net_Realname := []\<rparr> else r)"

definition bouncer_ADDNETWORK :: "world_env \<Rightarrow> downstream_conn \<Rightarrow> string \<Rightarrow> string \<Rightarrow> w_cmd" where
  "bouncer_ADDNETWORK env dc sub attrs w =
     (case updateNetworkAttrs (we_unicode env) ((NewNetwork [])\<lparr>net_Nick := dc_nick dc\<rparr>) (we_parseTags env attrs) of
        Inl e \<Rightarrow> attrs_failed sub e w
      | Inr r \<Rightarrow>
          (case on_user env (\<lambda>uenv. createNetwork uenv (strip_defaults (u_record (w_user w)) r) True) w of
             (Inl NetPanic, acts, w) \<Rightarrow> (Some PanicError, acts, w)
           | (Inl e, acts, w) \<Rightarrow>
               (Some (IrcError (mk_msg ''FAIL'' [''BOUNCER'', ''UNKNOWN_ERROR'', sub, ''Failed to create network: '' @ we_netErrorText env e])), acts, w)
           | (Inr ref, acts, w) \<Rightarrow>
               (case run_op (say env (dc_id dc) (mk_msg ''BOUNCER'' [''ADDNETWORK'',
                       (case network_by_ref (w_user w) ref of None \<Rightarrow> [] | Some n \<Rightarrow> show_int (nid n))])) w of
                  (e, acts', w) \<Rightarrow> (e, acts @ acts', w))))"

definition bouncer_CHANGENETWORK :: "world_env \<Rightarrow> downstream_conn \<Rightarrow> string \<Rightarrow> string \<Rightarrow> string \<Rightarrow> w_cmd" where
  "bouncer_CHANGENETWORK env dc sub idStr attrs w =
     (case parseBouncerNetID sub idStr of
        Inl e \<Rightarrow> reject e w
      | Inr i \<Rightarrow>
          (case getNetworkByID (w_user w) i of
             None \<Rightarrow> bouncer_error [''INVALID_NETID'', sub, idStr, ''Invalid network ID''] w
           | Some n \<Rightarrow>
               (case updateNetworkAttrs (we_unicode env) (n_record n) (we_parseTags env attrs) of
                  Inl e \<Rightarrow> attrs_failed sub e w
                | Inr r \<Rightarrow>
                    (case on_user env (\<lambda>uenv. updateNetwork uenv (strip_defaults (u_record (w_user w)) r) (\<not> net_Enabled (n_record n))) w of
                       (Inl NetPanic, acts, w) \<Rightarrow> (Some PanicError, acts, w)
                     | (Inl e, acts, w) \<Rightarrow>
                         (Some (IrcError (mk_msg ''FAIL'' [''BOUNCER'', ''UNKNOWN_ERROR'', sub, ''Failed to update network: '' @ we_netErrorText env e])), acts, w)
                     | (Inr _, acts, w) \<Rightarrow>
                         (case run_op (say env (dc_id dc) (mk_msg ''BOUNCER'' [''CHANGENETWORK'', idStr])) w of (e, acts', w) \<Rightarrow> (e, acts @ acts', w))))))"

definition bouncer_DELNETWORK :: "world_env \<Rightarrow> downstream_conn \<Rightarrow> string \<Rightarrow> string \<Rightarrow> w_cmd" where
  "bouncer_DELNETWORK env dc sub idStr w =
     (case parseBouncerNetID sub idStr of
        Inl e \<Rightarrow> reject e w
      | Inr i \<Rightarrow>
          (case getNetworkByID (w_user w) i of
             None \<Rightarrow> bouncer_error [''INVALID_NETID'', sub, idStr, ''Invalid network ID''] w
           | Some n \<Rightarrow>
               (case on_user env (\<lambda>uenv. deleteNetwork uenv (nid n)) w of
                  (Inl NetPanic, acts, w) \<Rightarrow> (Some PanicError, acts, w)
                | (Inl _, acts, w) \<Rightarrow> (Some PlainError, acts, w)
                | (Inr _, acts, w) \<Rightarrow>
                    (case run_op (say env (dc_id dc) (mk_msg ''BOUNCER'' [''DELNETWORK'', idStr])) w of (e, acts', w) \<Rightarrow> (e, acts @ acts', w)))))"

definition cmd_BOUNCER :: "world_env \<Rightarrow> downstream_conn \<Rightarrow> irc_message \<Rightarrow> w_cmd" where
  "cmd_BOUNCER env dc msg = with_params 1 msg (\<lambda>ps.
     let s = hd ps; sub = ToUpper (we_unicode env) s in
     if sub = ''BIND'' then bouncer_error [''REGISTRATION_IS_COMPLETED'', ''BIND'', ''Cannot bind to a network after registration'']
     else if sub = ''LISTNETWORKS'' then list_networks env (dc_id dc)
     else if sub = ''ADDNETWORK'' then with_params 2 msg (\<lambda>ps. bouncer_ADDNETWORK env dc s (ps ! 1))
     else if sub = ''CHANGENETWORK'' then with_params 3 msg (\<lambda>ps. bouncer_CHANGENETWORK env dc s (ps ! 1) (ps ! 2))
     else if sub = ''DELNETWORK'' then with_params 2 msg (\<lambda>ps. bouncer_DELNETWORK env dc s (ps ! 1))
     else bouncer_error [''UNKNOWN_COMMAND'', s, ''Unknown subcommand''])"

section \<open>Push notifications\<close>

definition push_error :: "string list \<Rightarrow> w_cmd" where
  "push_error ps = reject_with ''FAIL'' (''WEBPUSH'' # ps)"

definition findWebPushSubscription :: "web_push_subscription list \<Rightarrow> string \<Rightarrow> web_push_subscription option" where
  "findWebPushSubscription subs endpoint = find (\<lambda>s. sub_Endpoint s = endpoint) subs"

definition listWebPushSubscriptions :: "world_env \<Rightarrow> network option \<Rightarrow> web_push_subscription list option" where
  "listWebPushSubscriptions env net = we_listSubs env (case net of None \<Rightarrow> 0 | Some n \<Rightarrow> nid n)"

definition sanityCheckWebPushEndpoint :: "unicode_tables \<Rightarrow> string \<Rightarrow> bool" where
  "sanityCheckWebPushEndpoint U endpoint = (case url_Parse U endpoint of None \<Rightarrow> False | Some u \<Rightarrow> url_Scheme u = ''https'')"

definition webpushCheckSubscriptionDelay :: int where "webpushCheckSubscriptionDelay = 24 * 3600 * 1000000000"

text \<open>A subscription is checked and stored when it is new, has other keys or has not been checked for a day.\<close>

definition needs_update :: "int \<Rightarrow> web_push_subscription option \<Rightarrow> web_push_subscription \<Rightarrow> bool" where
  "needs_update now old new =
     (case old of
        None \<Rightarrow> True
      | Some o' \<Rightarrow> now - sub_UpdatedAt o' > webpushCheckSubscriptionDelay
          \<or> (sub_Auth o', sub_P256DH o', sub_VAPID o') \<noteq> (sub_Auth new, sub_P256DH new, sub_VAPID new))"

definition push_REGISTER :: "world_env \<Rightarrow> downstream_conn \<Rightarrow> string \<Rightarrow> string \<Rightarrow> string \<Rightarrow> w_cmd" where
  "push_REGISTER env dc sub endpoint keys w =
     (let rawKeys = we_parseTags env keys; net = client_network w dc; reply = mk_msg ''WEBPUSH'' [''REGISTER'', endpoint] in
      case (go_get rawKeys ''auth'', go_get rawKeys ''p256dh'') of
        (Some auth, Some p256dh) \<Rightarrow>
          (case listWebPushSubscriptions env net of
             None \<Rightarrow> push_error [''INTERNAL_ERROR'', sub, ''Internal error''] w
           | Some subs \<Rightarrow>
               if length subs > 25 then push_error [''INTERNAL_ERROR'', sub, ''Too many subscriptions''] w
               else
                 let old = findWebPushSubscription subs endpoint;
                     new = \<lparr>sub_ID = (case old of None \<Rightarrow> 0 | Some s \<Rightarrow> sub_ID s), sub_Endpoint = endpoint, sub_Auth = auth, sub_P256DH = p256dh,
                            sub_VAPID = d_vapid (we_down env), sub_CreatedAt = zero_time, sub_UpdatedAt = zero_time\<rparr>;
                     netID = (case net of None \<Rightarrow> 0 | Some n \<Rightarrow> nid n)
                 in if \<not> needs_update (we_now env) old new then run_op (say env (dc_id dc) reply) w
                    else if \<not> sanityCheckWebPushEndpoint (we_unicode env) endpoint \<or> \<not> we_testPush env new
                    then push_error [''INVALID_PARAMS'', sub, ''Invalid endpoint''] w
                    else if \<not> we_storeSub env netID new then push_error [''INTERNAL_ERROR'', sub, ''Internal error''] w
                    else do_cmds [run_op (emit [WStoreSub netID endpoint]), run_op (say env (dc_id dc) reply)] w)
      | _ \<Rightarrow> push_error [''INVALID_PARAMS'', sub, ''Missing auth or p256dh key''] w)"

definition push_UNREGISTER :: "world_env \<Rightarrow> downstream_conn \<Rightarrow> string \<Rightarrow> string \<Rightarrow> w_cmd" where
  "push_UNREGISTER env dc sub endpoint w =
     (let reply = mk_msg ''WEBPUSH'' [''UNREGISTER'', endpoint] in
      case listWebPushSubscriptions env (client_network w dc) of
        None \<Rightarrow> push_error [''INTERNAL_ERROR'', sub, ''Internal error''] w
      | Some subs \<Rightarrow>
          (case findWebPushSubscription subs endpoint of
             None \<Rightarrow> run_op (say env (dc_id dc) reply) w
           | Some old \<Rightarrow>
               if \<not> we_deleteSub env (sub_ID old) then push_error [''INTERNAL_ERROR'', sub, ''Internal error''] w
               else do_cmds [run_op (emit [WDeleteSub (sub_ID old)]), run_op (say env (dc_id dc) reply)] w))"

definition cmd_WEBPUSH :: "world_env \<Rightarrow> downstream_conn \<Rightarrow> irc_message \<Rightarrow> w_cmd" where
  "cmd_WEBPUSH env dc msg =
     (if \<not> caps_IsEnabled (dc_caps dc) ''soju.im/webpush'' then reject (newUnknownCommandError (Command msg))
      else with_params 1 msg (\<lambda>ps.
        let sub = hd ps in
        if sub = ''REGISTER'' then with_params 3 msg (\<lambda>ps. push_REGISTER env dc sub (ps ! 1) (ps ! 2))
        else if sub = ''UNREGISTER'' then with_params 2 msg (\<lambda>ps. push_UNREGISTER env dc sub (ps ! 1))
        else push_error [''INVALID_PARAMS'', sub, ''Unknown command'']))"

section \<open>Dispatch\<close>

definition cmd_other :: "world_env \<Rightarrow> downstream_conn \<Rightarrow> irc_message \<Rightarrow> w_cmd" where
  "cmd_other env dc msg w =
     (case client_network w dc of
        None \<Rightarrow> reject (newUnknownCommandError (Command msg)) w
      | Some n \<Rightarrow>
          (case n_conn n of
             None \<Rightarrow> reject_with ''421'' [''*'', Command msg, ''Disconnected from upstream network''] w
           | Some _ \<Rightarrow> send_labeled (dc_id dc) (n_ref n) True msg w))"

definition client_commands :: "(string \<times> (world_env \<Rightarrow> downstream_conn \<Rightarrow> irc_message \<Rightarrow> w_cmd)) list" where
  "client_commands =
     [(''CAP'', \<lambda>env dc msg. on_client_result env (dc_id dc) (\<lambda>d. handleCap d msg) None),
      (''PING'', cmd_PING), (''PONG'', cmd_PONG),
      (''USER'', \<lambda>env dc msg. reject_with ''462'' [dc_nick dc, ''You may not reregister'']),
      (''NICK'', cmd_NICK), (''SETNAME'', cmd_SETNAME), (''JOIN'', cmd_JOIN), (''PART'', cmd_PART),
      (''KICK'', \<lambda>env. pass_on), (''MODE'', cmd_MODE), (''TOPIC'', cmd_TOPIC), (''LIST'', cmd_LIST), (''NAMES'', cmd_NAMES),
      (''WHO'', cmd_WHO), (''WHOIS'', cmd_WHOIS),
      (''PRIVMSG'', cmd_text), (''NOTICE'', cmd_text), (''TAGMSG'', cmd_text), (''REDACT'', cmd_text),
      (''INVITE'', \<lambda>env. pass_on), (''AUTHENTICATE'', cmd_AUTHENTICATE), (''REGISTER'', cmd_REGISTER), (''VERIFY'', cmd_REGISTER),
      (''AWAY'', cmd_AWAY), (''INFO'', cmd_INFO), (''MONITOR'', cmd_MONITOR), (''METADATA'', cmd_METADATA),
      (''CHATHISTORY'', cmd_CHATHISTORY), (''READ'', cmd_MARKREAD), (''MARKREAD'', cmd_MARKREAD), (''SEARCH'', cmd_SEARCH),
      (''CLIENTCERT'', cmd_CLIENTCERT), (''BOUNCER'', cmd_BOUNCER), (''WEBPUSH'', cmd_WEBPUSH)]"

definition handleMessageRegistered :: "world_env \<Rightarrow> downstream_conn \<Rightarrow> irc_message \<Rightarrow> w_cmd" where
  "handleMessageRegistered env dc msg =
     (case map_of client_commands (Command msg) of
        Some cmd \<Rightarrow> cmd env dc msg
      | None \<Rightarrow> cmd_other env dc msg)"

text \<open>The message of a client in the list, from its label to the end of its replies.  An error that is no reply closes the
  connection; a panic ends the work for the user.\<close>

definition flush_label :: "world_env \<Rightarrow> 64 word \<Rightarrow> w_op" where
  "flush_label env i = on_client env i (\<lambda>_ st. (FlushBatch st, st\<lparr>dn_label := None\<rparr>))"

definition client_isupport :: "world_env \<Rightarrow> 64 word \<Rightarrow> w_op" where
  "client_isupport env i = on_client env i (\<lambda>d st.
     let m = buildIsupport d (dc_caps (dn_dc st)); (out, st) = sendIsupport d m st in (out, dn_upd (\<lambda>dc. dc\<lparr>dc_isupport := m\<rparr>) st))"

definition client_command :: "world_env \<Rightarrow> downstream_conn \<Rightarrow> irc_message \<Rightarrow> w_cmd" where
  "client_command env dc msg w =
     (let i = dc_id dc in
      if Command msg = ''QUIT'' then (None, [], w\<lparr>w_shutdown := i # w_shutdown w\<rparr>)
      else if Command msg = ''ISUPPORT'' then
        (if \<not> caps_IsEnabled (dc_caps dc) ''draft/extended-isupport'' then (Some (newUnknownCommandError (Command msg)), [], w) else run_op (client_isupport env i) w)
      else (case handleMessageRegistered env dc msg w of
          (Some (IrcError m), acts, w) \<Rightarrow>
            (case run_op (say env i (m\<lparr>Prefix := Some (d_srvPrefix (we_down env))\<rparr>)) w of (e, acts', w) \<Rightarrow> (e, acts @ acts', w))
        | res \<Rightarrow> res))"

definition client_handleMessage :: "world_env \<Rightarrow> 64 word \<Rightarrow> irc_message \<Rightarrow> w_cmd" where
  "client_handleMessage env i msg w =
     (case client i w of
        None \<Rightarrow> skip w
      | Some dc \<Rightarrow>
          let w = set_label i (dn_label (fresh_label msg (down_state_of w dc))) w in
          (case client_command env dc msg w of
             (None, acts, w) \<Rightarrow> (case flush_label env i w of (acts', w) \<Rightarrow> (None, acts @ acts', w))
           | (Some e, acts, w) \<Rightarrow> (Some e, acts, set_label i None w)))"

end
