(* ===== verification/World_Frame.thy ===== *)
theory World_Frame
  imports Client_Frame Upstream_Frame Client_Dispatch
begin

text \<open>
  Contracts of steps on the state of a user: a step relates the state before to the state after and emits actions
  of a kind.  A relation that is reflexive and transitive is kept by sequences of steps; the rules for
  that are proved once, for every such contract.
\<close>

section \<open>Contracts\<close>

type_synonym action_pred = "user_world \<Rightarrow> w_action \<Rightarrow> bool"

definition did :: "(user_world \<Rightarrow> user_world \<Rightarrow> bool) \<Rightarrow> action_pred \<Rightarrow> user_world \<Rightarrow> w_action list \<times> user_world \<Rightarrow> bool" where
  "did R A w res \<longleftrightarrow> R w (snd res) \<and> list_all (A w) (fst res)"

definition op_does :: "(user_world \<Rightarrow> user_world \<Rightarrow> bool) \<Rightarrow> action_pred \<Rightarrow> w_op \<Rightarrow> bool" where
  "op_does R A f \<longleftrightarrow> (\<forall>w. did R A w (f w))"

text \<open>The same for steps with a result, which are commands and events.\<close>

definition cmd_does ::
    "(user_world \<Rightarrow> user_world \<Rightarrow> bool) \<Rightarrow> action_pred \<Rightarrow> (user_world \<Rightarrow> 'r \<times> w_action list \<times> user_world) \<Rightarrow> bool" where
  "cmd_does R A c \<longleftrightarrow> (\<forall>w. did R A w (snd (c w)))"

lemma op_doesI: "(\<And>w. did R A w (f w)) \<Longrightarrow> op_does R A f"
  by (simp add: op_does_def)

lemma cmd_doesI: "(\<And>w. did R A w (snd (c w))) \<Longrightarrow> cmd_does R A c"
  by (simp add: cmd_does_def)

lemma op_doesD: "op_does R A f \<Longrightarrow> did R A w (f w)"
  by (simp add: op_does_def)

lemma cmd_doesD: "cmd_does R A c \<Longrightarrow> did R A w (snd (c w))"
  by (simp add: cmd_does_def)

lemma did_weaken: "did R A w res \<Longrightarrow> (\<And>w w'. R w w' \<Longrightarrow> R' w w') \<Longrightarrow> (\<And>a. A w a \<Longrightarrow> A' w a) \<Longrightarrow> did R' A' w res"
  by (auto simp: did_def list_all_iff)

lemma op_does_weaken: "op_does R A f \<Longrightarrow> (\<And>w w'. R w w' \<Longrightarrow> R' w w') \<Longrightarrow> (\<And>w a. A w a \<Longrightarrow> A' w a) \<Longrightarrow> op_does R' A' f"
  unfolding op_does_def by (blast intro: did_weaken)

lemma cmd_does_weaken: "cmd_does R A c \<Longrightarrow> (\<And>w w'. R w w' \<Longrightarrow> R' w w') \<Longrightarrow> (\<And>w a. A w a \<Longrightarrow> A' w a) \<Longrightarrow> cmd_does R' A' c"
  unfolding cmd_does_def by (blast intro: did_weaken)

text \<open>A step that depends on the state.\<close>

lemma op_by_state: "(\<And>w. op_does R A (f w)) \<Longrightarrow> op_does R A (\<lambda>w. f w w)"
  by (simp add: op_does_def)

lemma cmd_by_state: "(\<And>w. cmd_does R A (c w)) \<Longrightarrow> cmd_does R A (\<lambda>w. c w w)"
  by (simp add: cmd_does_def)

lemma cmd_run_op: "op_does R A f \<Longrightarrow> cmd_does R A (run_op f)"
  by (simp add: op_does_def cmd_does_def run_op_def case_prod_beta)

named_theorems does

locale world_steps =
  fixes R :: "user_world \<Rightarrow> user_world \<Rightarrow> bool" and A :: action_pred
  assumes R_refl: "R w w" and R_trans: "R w w' \<Longrightarrow> R w' w'' \<Longrightarrow> R w w''"
    and A_mono: "R w w' \<Longrightarrow> A w' a \<Longrightarrow> A w a"
begin

lemma did_nothing [simp]: "did R A w ([], w)"
  by (simp add: did_def R_refl)

lemma did_trans: "did R A w (acts, w') \<Longrightarrow> did R A w' (acts', w'') \<Longrightarrow> did R A w (acts @ acts', w'')"
  by (auto simp: did_def list_all_iff intro: R_trans A_mono)

lemma did_then: "did R A w r \<Longrightarrow> did R A (snd r) r' \<Longrightarrow> did R A w (fst r @ fst r', snd r')"
  using did_trans [of w "fst r" "snd r" "fst r'" "snd r'"] by simp

lemma op_emit: "(\<And>w. list_all (A w) acts) \<Longrightarrow> op_does R A (emit acts)"
  by (simp add: op_does_def did_def emit_def R_refl)

lemma op_do_ops: "list_all (op_does R A) fs \<Longrightarrow> op_does R A (do_ops fs)"
proof (induction fs)
  case (Cons f fs)
  then have "op_does R A f" "op_does R A (do_ops fs)" by simp_all
  then show ?case
    by (auto simp: Let_def case_prod_beta intro!: op_doesI did_then dest: op_doesD)
qed (simp add: op_does_def)

lemma cmd_reject: "cmd_does R A (reject e)"
  by (simp add: cmd_does_def reject_def)

lemma cmd_do_cmds: "list_all (cmd_does R A) cs \<Longrightarrow> cmd_does R A (do_cmds cs)"
proof (induction cs)
  case (Cons c cs)
  then have c: "cmd_does R A c" and cs: "cmd_does R A (do_cmds cs)" by simp_all
  show ?case
  proof (rule cmd_doesI)
    fix w
    obtain e acts w1 where 1: "c w = (e, acts, w1)" by (metis prod_cases3)
    obtain e2 acts2 w2 where 2: "do_cmds cs w1 = (e2, acts2, w2)" by (metis prod_cases3)
    have "did R A w (acts, w1)" "did R A w1 (acts2, w2)" using cmd_doesD [OF c, of w] cmd_doesD [OF cs, of w1] by (simp_all add: 1 2)
    then show "did R A w (snd (do_cmds (c # cs) w))" by (auto simp: 1 2 intro: did_trans split: option.split)
  qed
qed (simp add: cmd_does_def)

text \<open>A command after a step with a result.\<close>

lemma cmd_bind:
  assumes "cmd_does R A c" and "\<And>r. cmd_does R A (d r)"
  shows "cmd_does R A (\<lambda>w. case c w of (r, acts, w) \<Rightarrow> (case d r w of (r', acts', w) \<Rightarrow> (r', acts @ acts', w)))"
  using did_then [OF cmd_doesD [OF assms(1)] cmd_doesD [OF assms(2)]] by (simp add: cmd_does_def case_prod_beta)

lemma cmd_with_params: "(\<And>ps. cmd_does R A (f ps)) \<Longrightarrow> cmd_does R A (with_params n msg f)"
  by (simp add: with_params_def cmd_reject split: sum.split)

lemma cmd_upstreamForCommand: "(\<And>n uc. cmd_does R A (f n uc)) \<Longrightarrow> cmd_does R A (upstreamForCommand dc cmd f)"
  by (rule cmd_doesI) (auto simp: upstreamForCommand_def cmd_doesD [OF cmd_reject] split: option.split intro: cmd_doesD)

lemmas steps = op_emit op_do_ops cmd_reject cmd_do_cmds cmd_with_params cmd_upstreamForCommand cmd_run_op

end

section \<open>The frame of the steps on connections\<close>

definition net_ident :: "network \<Rightarrow> nat \<times> int \<times> string \<times> string" where
  "net_ident n = (n_ref n, nid n, net_Name (n_record n), net_Addr (n_record n))"

definition client_frame :: "downstream_conn \<Rightarrow> downstream_conn \<Rightarrow> bool" where
  "client_frame dc dc' \<longleftrightarrow> dc_id dc' = dc_id dc \<and> dc_network dc' = dc_network dc \<and> (dc_closed dc \<longrightarrow> dc_closed dc')
     \<and> (client_ok dc \<longrightarrow> client_ok dc')"

text \<open>Clients have distinct identifiers, so an operation on an identifier is one on the client.\<close>

definition ids_ok :: "user_world \<Rightarrow> bool" where
  "ids_ok w \<longleftrightarrow> distinct (map dc_id (clients w))"

text \<open>The identity of the networks and clients stays; a closed client stays closed, a well-formed one
  well-formed.\<close>

definition frame :: "user_world \<Rightarrow> user_world \<Rightarrow> bool" where
  "frame w w' \<longleftrightarrow>
     (distinct (map n_ref (u_networks (w_user w))) \<longrightarrow> map net_ident (u_networks (w_user w')) = map net_ident (u_networks (w_user w)))
     \<and> u_nextRef (w_user w') = u_nextRef (w_user w) \<and> u_record (w_user w') = u_record (w_user w)
     \<and> (ids_ok w \<longrightarrow> list_all2 client_frame (clients w) (clients w'))"

text \<open>The actions that stay with the user: no broadcast, nothing that is posted to other users, no new or deleted user, no
  change of the user's own record in the database.\<close>

definition plain_user :: "user_action \<Rightarrow> bool" where
  "plain_user a \<longleftrightarrow> (case a of UEffect (DbStoreUser _) \<Rightarrow> False | _ \<Rightarrow> True)"

definition plain_action :: "w_action \<Rightarrow> bool" where
  "plain_action a \<longleftrightarrow>
     (case a of
        WUser a \<Rightarrow> plain_user a
      | WBroadcast _ \<Rightarrow> False | WPost _ _ \<Rightarrow> False | WCreateUser _ \<Rightarrow> False | WDeleteUser _ \<Rightarrow> False | WDebug _ \<Rightarrow> False
      | _ \<Rightarrow> True)"

abbreviation plain :: action_pred where
  "plain \<equiv> \<lambda>_. plain_action"

lemma plain_simps [simp]:
  "plain_action (WOut i m)" "plain_action (WClose i)" "plain_action (WUp ref act)" "plain_action (WUser a) = plain_user a"
  "\<not> plain_action (WBroadcast m)" "plain_action (WStoreReceipt n t k)" "plain_action (WStoreTarget n mt)" "plain_action (WStoreCert l h)"
  "plain_action (WDeleteCert h)" "plain_action (WStoreSub n e)" "plain_action (WDeleteSub n)" "plain_action (WPush ref m)"
  "\<not> plain_action (WPost name p)" "\<not> plain_action (WCreateUser r)" "\<not> plain_action (WDeleteUser j)" "\<not> plain_action (WDebug b)"
  by (simp_all add: plain_action_def)

lemma plain_map [simp]:
  "list_all plain_action (map (WOut i) out)" "list_all plain_action (map (\<lambda>x. WUp ref (h x)) xs)"
  "list_all plain_action (map WUser us) \<longleftrightarrow> list_all plain_user us"
  by (simp_all add: list_all_iff)

lemma plain_user_simps [simp]:
  "plain_user (UUp ref act)" "plain_user (UUpdateCaps i)" "plain_user (UUpdateCasemapping i)" "plain_user (URenameStore r r')" "plain_user UUserUpdated"
  "plain_user (UEffect e) \<longleftrightarrow> (\<forall>r. e \<noteq> DbStoreUser r)"
  by (simp_all add: plain_user_def split: effect.split)

lemma net_ident_ref: "map net_ident ns = map net_ident ms \<Longrightarrow> map n_ref ns = map n_ref ms"
proof -
  assume eq: "map net_ident ns = map net_ident ms"
  have ref: "map n_ref xs = map fst (map net_ident xs)" for xs by (simp add: net_ident_def)
  show ?thesis by (simp only: ref eq)
qed

lemma client_frame_refl: "client_frame dc dc"
  by (simp add: client_frame_def)

lemma frame_refl: "frame w w"
  by (simp add: frame_def list_all2_refl client_frame_refl)

lemma client_frame_ids: "list_all2 client_frame cs cs' \<Longrightarrow> map dc_id cs' = map dc_id cs"
  by (induction cs cs' rule: list_all2_induct) (simp_all add: client_frame_def)

lemma frame_trans: "frame w w' \<Longrightarrow> frame w' w'' \<Longrightarrow> frame w w''"
  unfolding frame_def ids_ok_def
  using list_all2_trans [of client_frame client_frame client_frame "clients w" "clients w'" "clients w''"]
    net_ident_ref [of "u_networks (w_user w')" "u_networks (w_user w)"] client_frame_ids [of "clients w" "clients w'"]
  by (auto simp: client_frame_def)

interpretation framed: world_steps frame plain
  by unfold_locales (auto intro: frame_refl frame_trans)

lemma did_frame [simp]: "did frame plain w res \<longleftrightarrow> frame w (snd res) \<and> list_all plain_action (fst res)"
  by (simp add: did_def)

section \<open>Steps on clients\<close>

lemma clients_set_label [simp]: "clients (set_label i l w) = clients w" "w_user (set_label i l w) = w_user w"
  by (simp_all add: clients_def set_label_def)

lemma w_user_set_clients [simp]:
  "clients (set_clients f w) = f (clients w)" "u_networks (w_user (set_clients f w)) = u_networks (w_user w)"
  "u_nextRef (w_user (set_clients f w)) = u_nextRef (w_user w)" "u_record (w_user (set_clients f w)) = u_record (w_user w)"
  "u_msgStore (w_user (set_clients f w)) = u_msgStore (w_user w)"
  by (simp_all add: clients_def set_clients_def)

lemma clients_upd [simp]: "clients (w\<lparr>w_shutdown := s\<rparr>) = clients w" "clients (w\<lparr>w_orphanTimers := t\<rparr>) = clients w"
  "clients (w\<lparr>w_labels := l\<rparr>) = clients w" "clients (w\<lparr>w_user := u\<rparr>) = u_downstreamConns u"
  by (simp_all add: clients_def)

lemma frame_same_user: "w_user w' = w_user w \<Longrightarrow> frame w w'"
  by (simp add: frame_def clients_def list_all2_refl client_frame_refl)

lemma frame_set_label [simp]: "frame w (set_label i l w)"
  by (rule frame_same_user) simp

lemma frame_set_clients: "(\<And>dc. ids_ok w \<Longrightarrow> dc \<in> set (clients w) \<Longrightarrow> client_frame dc (f dc)) \<Longrightarrow> frame w (set_clients (map f) w)"
  by (auto simp: frame_def list_all2_map2 list.rel_refl_strong)

lemma client_Some: "client i w = Some dc \<Longrightarrow> dc \<in> set (clients w) \<and> dc_id dc = i"
  by (auto simp: client_def downstreamByID_def find_Some_iff)

lemma ids_ok_client: "ids_ok w \<Longrightarrow> client i w = Some dc \<Longrightarrow> dc' \<in> set (clients w) \<Longrightarrow> dc_id dc' = i \<Longrightarrow> dc' = dc"
  using client_Some [of i w dc] by (auto simp: ids_ok_def distinct_map inj_on_def)

lemma frame_put_client:
  assumes "client i w = Some dc" and "tame_at (down_state_of w dc) st"
  shows "frame w (put_client i st w)"
proof -
  let ?f = "\<lambda>dc. if dc_id dc = i then (dn_dc st)\<lparr>dc_id := i\<rparr> else dc"
  have "client_frame dc' (?f dc')" if "ids_ok w" "dc' \<in> set (clients w)" for dc'
    using ids_ok_client [OF that(1) assms(1) that(2)] assms(2) client_Some [OF assms(1)]
    by (auto simp: client_frame_def tame_at_def client_rel_def client_ok_def down_state_of_def)
  then have "frame w (set_clients (map ?f) w)" by (rule frame_set_clients)
  then show ?thesis
    by (rule frame_trans) (rule frame_same_user, simp add: put_client_def)
qed

lemma frame_on_client: "(\<And>d. tame (f d)) \<Longrightarrow> op_does frame plain (on_client env i f)"
  by (rule op_doesI) (auto simp: on_client_def case_prod_beta Let_def frame_refl split: option.split intro: frame_put_client)

lemma frame_on_client_result:
  "(\<And>d st. tame_at st (snd (snd (f d st)))) \<Longrightarrow> cmd_does frame plain (on_client_result env i f r)"
  by (rule cmd_doesI) (auto simp: on_client_result_def case_prod_beta Let_def frame_refl split: option.split intro: frame_put_client)

lemma frame_says: "op_does frame plain (say env i msg)" "op_does frame plain (say_all env i msgs)"
  by (simp_all add: say_def say_all_def frame_on_client tame_ops)

lemma frame_update_client: "(\<And>dc. client_rel dc (f dc)) \<Longrightarrow> op_does frame plain (update_client env i f)"
  unfolding update_client_def by (rule frame_on_client) (rule tame_set_dc)

lemma frame_close_client: "op_does frame plain (close_client i)"
  by (rule op_doesI) (simp add: close_client_def frame_set_clients client_frame_def client_ok_def)

section \<open>Steps on networks\<close>

lemma map_network_idents:
  assumes "distinct (map n_ref ns)" and "find (\<lambda>n. n_ref n = ref) ns = Some n" and "net_ident n' = net_ident n"
  shows "map net_ident (map (\<lambda>m. if n_ref m = ref then n' else m) ns) = map net_ident ns"
proof -
  have "m = n" if "m \<in> set ns" "n_ref m = ref" for m
    using assms(1,2) that by (auto simp: find_Some_iff distinct_map inj_on_def)
  with assms(3) show ?thesis by auto
qed

lemma put_network_simps [simp]:
  "clients (put_network ref n w) = clients w" "u_nextRef (w_user (put_network ref n w)) = u_nextRef (w_user w)"
  "u_record (w_user (put_network ref n w)) = u_record (w_user w)" "w_labels (put_network ref n w) = w_labels w"
  by (simp_all add: put_network_def map_network_def clients_def)

lemma frame_put_network:
  "network_by_ref (w_user w) ref = Some n \<Longrightarrow> net_ident n' = net_ident n \<Longrightarrow> frame w (put_network ref n' w)"
  using map_network_idents [of "u_networks (w_user w)" ref n n']
  by (simp add: frame_def client_frame_refl list_all2_refl network_by_ref_def)
    (simp add: put_network_def map_network_def)

lemma network_by_ref_Some: "network_by_ref u ref = Some n \<Longrightarrow> n_ref n = ref \<and> n \<in> set (u_networks u)"
  by (auto simp: network_by_ref_def find_Some_iff)

lemma us_ident_net_ident: "us_ident st = net_ident (us_net st)"
  by (simp add: us_ident_def net_ident_def)

lemma tame_run_up:
  "tame (forward_to env ref name w d)" "tame (backlog_to env ref target mid w d)" "tame (relay_to env ref msg w d)"
  "tame (\<lambda>st. (FlushBatch st, st))"
  by (auto simp: forward_to_def backlog_to_def relay_to_def tame_ops split: option.split) (simp add: tame_def)

lemma frame_run_up_action: "op_does frame plain (run_up_action env ref act)"
  by (rule op_doesI, cases act)
    (simp_all add: frame_refl op_doesD [OF frame_says(1), unfolded did_frame] op_doesD [OF frame_on_client, unfolded did_frame] tame_ops tame_run_up)

lemma frame_run_up_actions: "op_does frame plain (run_up_actions env ref acts)"
  unfolding run_up_actions_def by (rule framed.op_do_ops) (simp add: list_all_iff frame_run_up_action)

lemma run_user_action_frame: "frame w (snd (run_user_action env act w))"
  and run_user_action_out: "list_all (\<lambda>a. plain_action a \<or> a = WUser act) (fst (run_user_action env act w))"
proof -
  have o: "frame w (snd (f w))" "list_all (\<lambda>a. plain_action a \<or> a = x) (fst (f w))" if "op_does frame plain f" for f x
    using op_doesD [OF that, of w] by (auto simp: list_all_iff)
  have "frame w (snd (run_user_action env act w)) \<and> list_all (\<lambda>a. plain_action a \<or> a = WUser act) (fst (run_user_action env act w))"
    by (cases "(env, act, w)" rule: run_user_action.cases)
      (simp_all add: frame_refl o [OF frame_says(1)] o [OF frame_on_client] o [OF frame_close_client] o [OF frame_run_up_action] tame_ops)
  then show "frame w (snd (run_user_action env act w))" "list_all (\<lambda>a. plain_action a \<or> a = WUser act) (fst (run_user_action env act w))"
    by simp_all
qed

lemma run_user_actions_frame: "frame w (snd (run_user_actions env acts w))"
  by (induction acts arbitrary: w)
    (auto simp: run_user_actions_def frame_refl Let_def case_prod_beta intro: frame_trans run_user_action_frame)

lemma run_user_actions_out: "a \<in> set (fst (run_user_actions env acts w)) \<Longrightarrow> plain_action a \<or> (\<exists>x \<in> set acts. a = WUser x)"
proof (induction acts arbitrary: w)
  case (Cons x acts)
  have "a \<in> set (fst (run_user_action env x w)) \<or> a \<in> set (fst (run_user_actions env acts (snd (run_user_action env x w))))"
    using Cons.prems by (simp add: run_user_actions_def Let_def case_prod_beta)
  with Cons.IH run_user_action_out [of x env w] show ?case by (auto simp: list_all_iff)
qed (simp add: run_user_actions_def)

lemma frame_run_user_actions: "list_all plain_user acts \<Longrightarrow> op_does frame plain (run_user_actions env acts)"
  by (rule op_doesI) (auto simp: run_user_actions_frame list_all_iff dest!: run_user_actions_out)

lemma plain_run_up [simp]: "list_all plain_action (fst (run_up_actions env ref acts w))"
  using op_doesD [OF frame_run_up_actions, of w env ref acts] by simp

text \<open>A step of an upstream connection that keeps the identity of its network.\<close>

definition up_stays :: "(up_env \<Rightarrow> up_state \<Rightarrow> up_action list \<times> up_state) \<Rightarrow> bool" where
  "up_stays f \<longleftrightarrow> (\<forall>e st. us_ident (snd (f e st)) = us_ident st)"

lemma frame_put_up_state:
  assumes "network_by_ref (w_user w) ref = Some n" and "us_ident st = net_ident n"
  shows "frame w (put_up_state st n w)"
proof -
  have "frame w (put_network (n_ref n) ((us_net st)\<lparr>n_ref := n_ref n, n_conn := Some (us_uc st)\<rparr>) w)"
    using assms network_by_ref_Some [OF assms(1)] by (intro frame_put_network) (auto simp: us_ident_def net_ident_def)
  then show ?thesis by (rule frame_trans) (rule frame_same_user, simp add: put_up_state_def)
qed

lemma frame_on_upstream: "up_stays f \<Longrightarrow> op_does frame plain (on_upstream env ref f)"
proof (rule op_doesI)
  fix w assume f: "up_stays f"
  have "frame w (snd (run_up_actions env ref acts (put_up_state st n w)))"
    if "network_by_ref (w_user w) ref = Some n" "f e (up_state_of w n uc) = (acts, st)" for n uc e acts st
  proof (rule frame_trans)
    have "us_ident st = net_ident n"
      using f that(2) unfolding up_stays_def us_ident_net_ident by (metis snd_conv up_state_of_def up_state.select_convs(2))
    with that(1) show "frame w (put_up_state st n w)" by (rule frame_put_up_state)
    show "frame (put_up_state st n w) (snd (run_up_actions env ref acts (put_up_state st n w)))"
      using op_doesD [OF frame_run_up_actions] by simp
  qed
  then show "did frame plain w (on_upstream env ref f w)"
    by (auto simp: on_upstream_def Let_def frame_refl split: option.split prod.split)
qed

lemma frame_on_network: "up_stays f \<Longrightarrow> op_does frame plain (on_network env ref f)"
proof (rule op_doesI)
  fix w assume f: "up_stays f"
  have "frame w (snd (run_up_actions env ref acts (put_network ref ((us_net st)\<lparr>n_ref := ref, n_conn := None\<rparr>) w)))"
    if "network_by_ref (w_user w) ref = Some n" "f e ((up_state_of w n uc)\<lparr>us_current := False\<rparr>) = (acts, st)" for n uc e acts st
  proof (rule frame_trans)
    have "us_ident st = net_ident n"
      using f that(2) unfolding up_stays_def us_ident_net_ident
      by (metis snd_conv up_state_of_def up_state.select_convs(2) up_state.update_convs(3))
    with that(1) show "frame w (put_network ref ((us_net st)\<lparr>n_ref := ref, n_conn := None\<rparr>) w)"
      using network_by_ref_Some [OF that(1)] by (intro frame_put_network) (auto simp: us_ident_def net_ident_def)
    show "frame (put_network ref ((us_net st)\<lparr>n_ref := ref, n_conn := None\<rparr>) w)
      (snd (run_up_actions env ref acts (put_network ref ((us_net st)\<lparr>n_ref := ref, n_conn := None\<rparr>) w)))"
      using op_doesD [OF frame_run_up_actions] by simp
  qed
  with f show "did frame plain w (on_network env ref f w)"
    using op_doesD [OF frame_on_upstream]
    by (auto simp: on_network_def Let_def frame_refl split: option.split prod.split)
qed

section \<open>Messages to the server and channels\<close>

lemma frame_drop_label: "op_does frame plain (drop_label i)"
  by (rule op_doesI) (simp add: drop_label_def)

lemma frame_put_conn: "network_by_ref (w_user w) ref = Some n \<Longrightarrow> frame w (put_conn n uc w)"
  using network_by_ref_Some [of "w_user w" ref n] by (auto simp: put_conn_def net_ident_def intro: frame_put_network)

lemma frame_put_conn_label:
  "network_by_ref (w_user w) ref = Some n \<Longrightarrow> frame w (put_conn n uc (set_label i l w))"
  by (rule frame_trans [of _ "set_label i l w"]) (auto intro: frame_put_conn)

lemma frame_send_labeled: "cmd_does frame plain (send_labeled i ref b msg)"
  by (rule cmd_doesI) (auto simp: send_labeled_def Let_def case_prod_beta drop_label_def frame_refl frame_put_conn frame_put_conn_label split: option.split)

lemma frame_enqueue: "cmd_does frame plain (enqueue env i ref msg)"
  by (rule cmd_doesI) (auto simp: enqueue_def Let_def case_prod_beta drop_label_def frame_refl frame_put_conn_label split: option.split)

lemma frame_store_channel: "op_does frame plain (store_channel env ref name)"
  by (rule op_doesI) (auto simp: store_channel_def frame_refl net_ident_def split: option.split intro: frame_put_network)

lemma deleteChannel_ident: "deleteChannel uenv n name = (e, acts, n') \<Longrightarrow> net_ident n' = net_ident n"
  by (auto simp: deleteChannel_def net_ident_def Let_def split: option.splits if_splits)

lemma deleteChannel_plain: "deleteChannel uenv n name = (e, acts, n') \<Longrightarrow> list_all plain_user acts"
  by (auto simp: deleteChannel_def Let_def split: option.splits if_splits)

lemma frame_forget_channel: "op_does frame plain (forget_channel env ref name)"
proof (rule op_doesI)
  fix w
  have "net_ident (n'\<lparr>n_pushTargets := p\<rparr>) = net_ident n" if "deleteChannel uenv n name = (e, acts, n')" for uenv n e acts n' p
    using deleteChannel_ident [OF that] by (simp add: net_ident_def)
  then show "did frame plain w (forget_channel env ref name w)"
    by (auto simp: forget_channel_def frame_refl deleteChannel_plain split: option.split prod.split intro: frame_put_network)
qed

lemma up_stays_channels:
  "up_stays (join_channel name key)" "up_stays (detach_channel name)" "up_stays updateAway" "up_stays updateMonitor"
  "up_stays (handleNickServPRIVMSG env line)" "up_stays (\<lambda>e. produce e b target msg i)" "up_stays (\<lambda>_ st. ([], updateChannelAutoDetach name st))"
  "up_stays (\<lambda>e. net_detach e ch)"
  by (auto simp: up_stays_def join_channel_def detach_channel_def handleNickServPRIVMSG_def Let_def split: option.split)

end
