(* ===== verification/User_Loop.thy ===== *)
theory User_Loop
  imports Client_Dispatch
begin

text \<open>
  The event loop of a user, \<open>run\<close> in \<^verbatim>\<open>src/user.go\<close>: connections to networks come and go, messages arrive from
  servers and clients; with \<open>welcome\<close> and \<open>loadNetwork\<close> of \<^verbatim>\<open>src/downstream.go\<close>, which bind a new client.
\<close>

section \<open>Start\<close>

text \<open>What the database has of the networks of the user, of the channels and the delivery receipts of a network;
  absent for an error.\<close>

record user_db =
  db_networks :: "db_network list option"
  db_channels :: "int \<Rightarrow> db_channel list option"
  db_receipts :: "int \<Rightarrow> delivery_receipt list option"

definition hasPersistentMsgStore :: "user_state \<Rightarrow> bool" where
  "hasPersistentMsgStore u \<longleftrightarrow> u_msgStore u \<noteq> NoStore \<and> u_msgStore u \<noteq> MemoryStore"

definition restore_receipts :: "delivery_receipt list \<Rightarrow> network \<Rightarrow> network" where
  "restore_receipts rcpts n =
     n\<lparr>n_delivered := foldl (\<lambda>d r. ds_StoreID d (rcpt_Target r) (rcpt_Client r) (rcpt_InternalMsgID r)) (n_delivered n) rcpts\<rparr>"

text \<open>A network whose channels cannot be read is left out; receipts that cannot be read end the work for the user.\<close>

fun load_networks :: "user_db \<Rightarrow> db_network list \<Rightarrow> user_state \<Rightarrow> bool \<times> user_action list \<times> user_state" where
  "load_networks db [] u = (True, [], u)"
| "load_networks db (r # rs) u =
     (case db_channels db (net_ID r) of
        None \<Rightarrow> load_networks db rs u
      | Some chs \<Rightarrow>
          let n = newNetwork (u_nextRef u) r chs;
              add = (\<lambda>n. u\<lparr>u_networks := u_networks u @ [n], u_nextRef := Suc (u_nextRef u)\<rparr>)
          in (case (if hasPersistentMsgStore u then db_receipts db (net_ID r) else Some []) of
                None \<Rightarrow> (False, [], add n)
              | Some rcpts \<Rightarrow>
                  (case load_networks db rs (add (restore_receipts rcpts n)) of
                     (ok, acts, u) \<Rightarrow> (ok, UEffect (NetStart (n_ref n)) # acts, u))))"

definition user_start :: "user_db \<Rightarrow> user_state \<Rightarrow> bool \<times> user_action list \<times> user_state" where
  "user_start db u =
     (case db_networks db of
        None \<Rightarrow> (False, [], u)
      | Some rs \<Rightarrow> load_networks db (sort_key net_ID rs) u)"

section \<open>Binding a client to a network\<close>

definition passwd_mismatch :: "downstream_conn \<Rightarrow> string \<Rightarrow> down_error" where
  "passwd_mismatch dc s = IrcError (mk_msg ERR_PASSWDMISMATCH [dc_nick dc, s])"

text \<open>A network that is not known is tried and saved.  The result is the network object, absent for the
  bouncer itself.\<close>

definition auto_save_network :: "world_env \<Rightarrow> downstream_conn \<Rightarrow> downstream_registration \<Rightarrow> user_world \<Rightarrow> (down_error + nat option) \<times> w_action list \<times> user_world" where
  "auto_save_network env dc r w =
     (let name = reg_networkName r;
          addr = (if List.member name CHR '':'' then name else name @ '':6697'');
          nick = fst (unmarshalUsername (reg_nick r))
      in if \<not> we_sanityCheckServer env addr then (Inl (passwd_mismatch dc (''Failed to connect to '' @ Quote (we_print env) name)), [], w)
         else if nick = [] \<or> ContainsAny nick illegalNickChars
         then (Inl (IrcError (mk_msg ERR_ERRONEUSNICKNAME [dc_nick dc, reg_nick r, ''Nickname contains illegal characters''])), [], w)
         else if casemapASCII nick = serviceNickCM
         then (Inl (IrcError (mk_msg ''433'' [dc_nick dc, reg_nick r, ''Nickname reserved for bouncer service''])), [], w)
         else (case on_user env (\<lambda>uenv. createNetwork uenv ((NewNetwork name)\<lparr>net_Nick := nick\<rparr>) True) w of
             (Inl NetPanic, acts, w) \<Rightarrow> (Inl PanicError, acts, w)
           | (Inl _, acts, w) \<Rightarrow> (Inl PlainError, acts, w)
           | (Inr ref, acts, w) \<Rightarrow> (Inr (Some ref), acts, w)))"

definition loadNetwork :: "world_env \<Rightarrow> downstream_conn \<Rightarrow> downstream_registration \<Rightarrow> user_world \<Rightarrow> (down_error + nat option) \<times> w_action list \<times> user_world" where
  "loadNetwork env dc r w =
     (if reg_networkID r \<noteq> 0 then
        (case getNetworkByID (w_user w) (reg_networkID r) of
           None \<Rightarrow> (Inl (IrcError (mk_msg ''FAIL'' [''BOUNCER'', ''INVALID_NETID'', show_int (reg_networkID r), ''Unknown network ID''])), [], w)
         | Some n \<Rightarrow> (Inr (Some (n_ref n)), [], w))
      else if reg_networkName r = ''*'' then (Inl (passwd_mismatch dc ''Multi-upstream mode is no longer supported''), [], w)
      else if reg_networkName r = [] then (Inr None, [], w)
      else (case getNetwork (w_user w) (reg_networkName r) of
          Some n \<Rightarrow> (Inr (Some (n_ref n)), [], w)
        | None \<Rightarrow> auto_save_network env dc r w))"

section \<open>Welcoming a client\<close>

definition welcome_nick :: "down_env \<Rightarrow> db_user \<Rightarrow> string" where
  "welcome_nick denv usr =
     (case d_upstream denv of
        Some uc \<Rightarrow> uc_nick uc
      | None \<Rightarrow> (case d_net denv of Some n \<Rightarrow> GetNick usr (Some (n_record n)) | None \<Rightarrow> user_Username usr))"

definition user_mode_op :: "down_env \<Rightarrow> db_user \<Rightarrow> down_op" where
  "user_mode_op denv usr st =
     send_all (d_srvPrefix denv)
       ((case d_upstream denv of None \<Rightarrow> [] | Some uc \<Rightarrow> [mk_msg ''221'' [dc_nick (dn_dc st), ''+'' @ uc_modes uc]])
        @ (if d_net denv = None \<and> user_Admin usr then [mk_msg ''221'' [dc_nick (dn_dc st), ''+o'']] else [])) st"

definition motd_op :: "down_env \<Rightarrow> string \<Rightarrow> down_op" where
  "motd_op denv motd st =
     send_all (d_srvPrefix denv)
       (if motd \<noteq> [] \<and> d_net denv = None then GenerateMOTD motd
        else [mk_msg ''422'' [dc_nick (dn_dc st), if d_net denv = None then ''No MOTD'' else ''Use /motd to read the message of the day'']]) st"

definition greet :: "world_env \<Rightarrow> user_world \<Rightarrow> down_env \<Rightarrow> down_op" where
  "greet env w denv =
     (let usr = u_record (w_user w); srv = d_srvPrefix denv in
      do_all
        [updateSupportedCaps denv,
         set_dc (\<lambda>dc. dc\<lparr>dc_nick := welcome_nick denv usr, dc_nickCM := dc_casemap dc (welcome_nick denv usr)\<rparr>),
         \<lambda>st. send_all srv
           [mk_msg ''001'' [dc_nick (dn_dc st), ''Welcome to soju, '' @ dc_nick (dn_dc st)],
            mk_msg ''002'' [dc_nick (dn_dc st), ''Your host is '' @ we_hostname env],
            mk_msg ''004'' [dc_nick (dn_dc st), we_hostname env, ''soju'', ''aiwroO'', ''OovaimnqpsrtklbeI'']] st,
         updateIsupport denv,
         user_mode_op denv usr,
         updateHost denv, updateRealname denv usr, updateAccount denv usr,
         set_dc (updateCasemapping denv),
         motd_op denv (we_motd env),
         \<lambda>st. if cap_on st ''soju.im/bouncer-networks-notify''
              then SendBatch srv ''soju.im/bouncer-networks'' [] [] (\<lambda>ref. map (network_entry env w ref) (u_networks (w_user w))) st
              else ([], st),
         \<lambda>st. if cap_on st ''draft/metadata-2'' then SendBatch srv ''metadata'' [] [] (\<lambda>_. []) st else ([], st)])"

definition join_params :: "upstream_conn \<Rightarrow> upstream_channel \<Rightarrow> down_state \<Rightarrow> string list" where
  "join_params uc ch st = uch_Name ch # (if cap_on st ''extended-join''
     then [if uc_account uc = [] then ''*'' else uc_account uc, uc_realname uc] else [])"

definition joined_channel :: "world_env \<Rightarrow> down_env \<Rightarrow> network \<Rightarrow> upstream_conn \<Rightarrow> upstream_channel \<Rightarrow> down_op" where
  "joined_channel env denv n uc ch =
     do_all [\<lambda>st. down_send denv (dc_msg (dn_dc st) ''JOIN'' (join_params uc ch st)) st, forwardChannel denv (we_channel env) n ch]"

text \<open>The channels that a client sees: those that are complete and attached.\<close>

definition visible_channels :: "network \<Rightarrow> upstream_conn \<Rightarrow> upstream_channel list" where
  "visible_channels n uc =
     filter (\<lambda>ch. uch_complete ch \<and> \<not> (case cmm_Get (n_channels n) (uch_Name ch) of None \<Rightarrow> False | Some r \<Rightarrow> ch_Detached r))
       (map snd (cmm_ForEach (uc_channels uc)))"

definition channels_op :: "world_env \<Rightarrow> down_env \<Rightarrow> down_op" where
  "channels_op env denv =
     (case d_net denv of
        None \<Rightarrow> (\<lambda>st. ([], st))
      | Some n \<Rightarrow>
          (case n_conn n of
             None \<Rightarrow> (\<lambda>st. ([], st))
           | Some uc \<Rightarrow> do_all (map (joined_channel env denv n uc) (visible_channels n uc))))"

text \<open>The backlog of one target, after which its receipt is moved to the last message.\<close>

definition backlog_target :: "world_env \<Rightarrow> user_world \<Rightarrow> down_env \<Rightarrow> string \<Rightarrow> down_state \<times> network \<Rightarrow> irc_message list \<times> down_state \<times> network" where
  "backlog_target env w denv target sn =
     (case sn of (st, n) \<Rightarrow>
        let name = dc_clientName (dn_dc st); lastDelivered = ds_LoadID (n_delivered n) target name in
        if lastDelivered = [] then ([], st, n)
        else (case sendTargetBacklog denv (we_channel env) (msg_highlight env w n) n target lastDelivered st of
            (out, st) \<Rightarrow>
              (out, st, (case we_lastMsgID env (nid n) (n_casemap n target) of
                 None \<Rightarrow> n | Some i \<Rightarrow> n\<lparr>n_delivered := ds_StoreID (n_delivered n) target name i\<rparr>))))"

fun backlog_loop :: "world_env \<Rightarrow> user_world \<Rightarrow> down_env \<Rightarrow> string list \<Rightarrow> down_state \<times> network \<Rightarrow> irc_message list \<times> down_state \<times> network" where
  "backlog_loop env w denv [] sn = ([], sn)"
| "backlog_loop env w denv (t # ts) sn =
     (case backlog_target env w denv t sn of
        (out, sn) \<Rightarrow> (case backlog_loop env w denv ts sn of (out', sn) \<Rightarrow> (out @ out', sn)))"

text \<open>The backlog goes to the first client of a name only.\<close>

definition welcome_backlog :: "world_env \<Rightarrow> down_env \<Rightarrow> down_state \<Rightarrow> user_world \<Rightarrow> irc_message list \<times> down_state \<times> user_world" where
  "welcome_backlog env denv st w =
     (case d_net denv of
        None \<Rightarrow> ([], st, w)
      | Some n \<Rightarrow>
          if cap_on st ''draft/chathistory'' \<or> u_msgStore (w_user w) = NoStore
             \<or> list_ex (\<lambda>c. dc_clientName c = dc_clientName (dn_dc st) \<and> dc_network c = dc_network (dn_dc st)) (clients w)
          then ([], st, w)
          else (case backlog_loop env w denv (ds_ForEachTarget (n_delivered n)) (st, n) of
              (out, st, n) \<Rightarrow> (out, st, put_network (n_ref n) n w)))"

text \<open>A client that is bound to its network.  The connection is returned with its state; it is not in the list of
  clients yet.\<close>

definition welcome_bound :: "world_env \<Rightarrow> downstream_conn \<Rightarrow> user_world \<Rightarrow> down_error option \<times> irc_message list \<times> downstream_conn \<times> user_world" where
  "welcome_bound env dc w =
     (let net = client_network w dc; denv = down_env_of env w net; (out, st) = greet env w denv (down_state_of w dc)
      in case (if net \<noteq> None \<and> cap_on st ''draft/metadata-2'' then d_messageTargets denv else Some []) of
           None \<Rightarrow> (Some PlainError, out, dn_dc st, w)
         | Some mts \<Rightarrow>
             let (out2, st) = do_all (map (sendTargetMetadata denv) mts) st;
                 (out3, st) = channels_op env denv st;
                 (out4, st, w) = welcome_backlog env denv st w
             in (None, out @ out2 @ out3 @ out4, dn_dc st, w))"

text \<open>A panic is a connection that is not registered or has no registration.\<close>

definition dc_welcome :: "world_env \<Rightarrow> downstream_conn \<Rightarrow> user_world \<Rightarrow> down_error option \<times> w_action list \<times> downstream_conn \<times> user_world" where
  "dc_welcome env dc w =
     (case dc_registration dc of
        None \<Rightarrow> (Some PanicError, [], dc, w)
      | Some r \<Rightarrow>
          if \<not> dc_registered dc then (Some PanicError, [], dc, w)
          else (case loadNetwork env dc r w of
              (Inl e, acts, w) \<Rightarrow> (Some e, acts, dc, w)
            | (Inr ref, acts, w) \<Rightarrow>
                (case welcome_bound env (dc\<lparr>dc_network := ref, dc_registration := None\<rparr>) w of
                   (e, out, dc', w) \<Rightarrow> (e, acts @ map (WOut (dc_id dc)) out, dc', w))))"

section \<open>Events\<close>

text \<open>An upstream connection is named by its network object, with the identifier of the network where the object may have been
  replaced; a client by its identifier; \<open>EvDownstreamDisconnected\<close> carries the
  connection for the case that it was never welcomed.\<close>

datatype user_event =
    EvUpstreamConnected nat int upstream_conn
  | EvUpstreamDisconnected nat
  | EvUpstreamConnectionError nat int string
  | EvUpstreamError nat int string
  | EvUpstreamMessage nat irc_message
  | EvChannelDetach nat string
  | EvDownstreamConnected downstream_conn
  | EvDownstreamDisconnected downstream_conn
  | EvDownstreamMessage "64 word" irc_message
  | EvBroadcast irc_message
  | EvUserUpdate user_update
  | EvTryRegainNick nat string
  | EvUserRun "string list"
  | EvStop

text \<open>\<open>Hung\<close> is a step that does not return.\<close>

datatype run_state = Running | Stopped | Panicked | Hung

type_synonym step_result = "run_state \<times> w_action list \<times> user_world"

definition running :: "w_op \<Rightarrow> user_world \<Rightarrow> step_result" where
  "running f w = (let (acts, w) = f w in (Running, acts, w))"

definition network_clients :: "user_world \<Rightarrow> nat \<Rightarrow> downstream_conn list" where
  "network_clients w ref = forEachDownstream (w_user w) ref"

definition notice :: "world_env \<Rightarrow> string \<Rightarrow> downstream_conn \<Rightarrow> w_op" where
  "notice env s c = on_client env (dc_id c) (\<lambda>d st. down_send d (service_notice (dn_dc st) s) st)"

definition notify_state :: "world_env \<Rightarrow> int \<Rightarrow> irc_tags \<Rightarrow> w_op" where
  "notify_state env i attrs w = run_user_actions env (notifyBouncerNetworkState (we_user env) i attrs (w_user w)) w"

definition set_last_error :: "nat \<Rightarrow> string option \<Rightarrow> w_op" where
  "set_last_error ref e w = ([], w\<lparr>w_user := map_network ref (\<lambda>n. n\<lparr>n_lastError := e\<rparr>) (w_user w)\<rparr>)"

definition network_display_name :: "user_world \<Rightarrow> nat \<Rightarrow> string" where
  "network_display_name w ref = (case network_by_ref (w_user w) ref of None \<Rightarrow> [] | Some n \<Rightarrow> net_name n)"

text \<open>A client hears of the new connection.\<close>

definition client_connected :: "world_env \<Rightarrow> nat \<Rightarrow> downstream_conn \<Rightarrow> w_op" where
  "client_connected env ref c w =
     (let i = dc_id c; usr = u_record (w_user w) in
      do_ops
        [on_client env i updateSupportedCaps,
         on_client env i (\<lambda>d st. if cap_on st ''soju.im/bouncer-networks'' then ([], st)
            else down_send d (service_notice (dn_dc st) (''connected to '' @ network_display_name w ref)) st),
         on_client env i (\<lambda>d. updateNick d usr), on_client env i updateHost,
         on_client env i (\<lambda>d. updateRealname d usr), on_client env i (\<lambda>d. updateAccount d usr),
         on_client env i (\<lambda>d. set_dc (updateCasemapping d))] w)"

text \<open>An object that is no longer in the list has no clients, and its connection is closed; the state of the network is announced still.\<close>

definition ev_upstream_connected :: "world_env \<Rightarrow> nat \<Rightarrow> int \<Rightarrow> upstream_conn \<Rightarrow> w_op" where
  "ev_upstream_connected env ref netID uc w =
     (case network_by_ref (w_user w) ref of
        None \<Rightarrow> notify_state env netID [(''state'', ''connected''), (''error'', [])] w
      | Some n \<Rightarrow>
          do_ops
            ([\<lambda>w. ([], w\<lparr>w_user := map_network ref (\<lambda>n. n\<lparr>n_conn := Some uc\<rparr>) (w_user w)\<rparr>),
              on_upstream env ref updateAway, on_upstream env ref updateMonitor]
             @ map (client_connected env ref) (network_clients w ref)
             @ [notify_state env (nid n) [(''state'', ''connected''), (''error'', [])], set_last_error ref None]) w)"

definition ev_upstream_disconnected :: "world_env \<Rightarrow> nat \<Rightarrow> user_world \<Rightarrow> step_result" where
  "ev_upstream_disconnected env ref w =
     (case network_by_ref (w_user w) ref of
        None \<Rightarrow> (Running, [], w)
      | Some n \<Rightarrow>
          (case n_conn n of
             None \<Rightarrow> (Running, [], w)
           | Some uc \<Rightarrow>
               (case handleUpstreamDisconnected (we_user env) ref uc (w_user w) of
                  None \<Rightarrow> (Panicked, [], w)
                | Some (acts, u) \<Rightarrow> running (run_user_actions env acts) (w\<lparr>w_user := u\<rparr>))))"

definition ev_connection_error :: "world_env \<Rightarrow> nat \<Rightarrow> int \<Rightarrow> string \<Rightarrow> w_op" where
  "ev_connection_error env ref netID e w =
     (case network_by_ref (w_user w) ref of
        None \<Rightarrow> notify_state env netID [(''error'', e)] w
      | Some n \<Rightarrow>
          do_ops
            ((if \<not> n_stopped n \<and> n_lastError n \<noteq> Some e
              then map (notice env (''failed connecting/registering to '' @ net_name n @ '': '' @ e)) (network_clients w ref) else [])
             @ [set_last_error ref (Some e), notify_state env (nid n) [(''error'', e)]]) w)"

definition ev_upstream_error :: "world_env \<Rightarrow> nat \<Rightarrow> int \<Rightarrow> string \<Rightarrow> w_op" where
  "ev_upstream_error env ref netID e w =
     (case network_by_ref (w_user w) ref of
        None \<Rightarrow> notify_state env netID [(''error'', e)] w
      | Some n \<Rightarrow>
          do_ops
            (map (notice env (''disconnected from '' @ net_name n @ '': '' @ e)) (network_clients w ref)
             @ [set_last_error ref (Some e), notify_state env (nid n) [(''error'', e)]]) w)"

text \<open>The error of a message is only logged; panics are errors of the model.\<close>

definition ev_upstream_message :: "world_env \<Rightarrow> nat \<Rightarrow> irc_message \<Rightarrow> user_world \<Rightarrow> step_result" where
  "ev_upstream_message env ref msg w =
     (case network_by_ref (w_user w) ref of
        None \<Rightarrow> (Running, [], w)
      | Some n \<Rightarrow>
          (case n_conn n of
             None \<Rightarrow> (Running, [], w)
           | Some uc \<Rightarrow>
               (case up_handleMessage (world_up_env env w n) msg (up_state_of w n uc) of
                  (e, acts, st) \<Rightarrow>
                    if e = Some UpPanic then (Panicked, [], w)
                    else if e = Some UpDiverges then (Hung, [], w)
                    else (case run_up_actions env ref acts (put_up_state st n w) of (acts, w) \<Rightarrow> (Running, acts, w\<lparr>w_labels := []\<rparr>)))))"

definition ev_channel_detach :: "world_env \<Rightarrow> nat \<Rightarrow> string \<Rightarrow> w_op" where
  "ev_channel_detach env ref name w =
     (case network_by_ref (w_user w) ref of
        None \<Rightarrow> ([], w)
      | Some n \<Rightarrow>
          (case cmm_Get (n_channels n) name of
             None \<Rightarrow> ([], w)
           | Some ch \<Rightarrow>
               if ch_Detached ch then ([], w)
               else do_ops [on_network env ref (\<lambda>uenv. net_detach uenv ch), store_channel env ref name] w))"

section \<open>Clients come and go\<close>

definition panics :: "net_error option \<Rightarrow> run_state" where
  "panics e = (if e = Some NetPanic then Panicked else Running)"

definition update_user :: "world_env \<Rightarrow> (db_user \<Rightarrow> db_user) \<Rightarrow> user_world \<Rightarrow> step_result" where
  "update_user env f w =
     (case on_user env (\<lambda>uenv. updateUser uenv (\<lambda>r. Some (f r))) w of (e, acts, w) \<Rightarrow> (panics e, acts, w))"

definition bumpDownstreamInteractionTime :: "world_env \<Rightarrow> user_world \<Rightarrow> step_result" where
  "bumpDownstreamInteractionTime env = update_user env (\<lambda>r. r\<lparr>user_DownstreamInteractedAt := we_now env\<rparr>)"

fun do_steps :: "(user_world \<Rightarrow> step_result) list \<Rightarrow> user_world \<Rightarrow> step_result" where
  "do_steps [] w = (Running, [], w)"
| "do_steps (f # fs) w =
     (case f w of
        (Running, acts, w) \<Rightarrow> (case do_steps fs w of (r, acts', w) \<Rightarrow> (r, acts @ acts', w))
      | res \<Rightarrow> res)"

definition connected_refs :: "user_world \<Rightarrow> nat list" where
  "connected_refs w = map n_ref (filter (\<lambda>n. n_conn n \<noteq> None) (u_networks (w_user w)))"

definition error_to :: "world_env \<Rightarrow> downstream_conn \<Rightarrow> irc_message \<Rightarrow> user_world \<Rightarrow> step_result" where
  "error_to env dc msg w =
     (case down_send (down_env_of env w (client_network w dc)) msg (down_state_of w dc) of (out, st) \<Rightarrow> (Running, map (WOut (dc_id dc)) out, w))"

text \<open>A client that is refused hears why; the connection is not closed.\<close>

definition welcome_client :: "world_env \<Rightarrow> downstream_conn \<Rightarrow> user_world \<Rightarrow> step_result" where
  "welcome_client env dc w =
     (if \<not> user_Enabled (u_record (w_user w)) then error_to env dc (mk_msg ''ERROR'' [''This bouncer account is disabled'']) w
      else (case dc_welcome env dc w of
          (Some PanicError, acts, _, w) \<Rightarrow> (Panicked, acts, w)
        | (Some (IrcError m), acts, dc, w) \<Rightarrow>
            (case error_to env dc (m\<lparr>Prefix := Some (d_srvPrefix (we_down env))\<rparr>) w of (r, acts', w) \<Rightarrow> (r, acts @ acts', w))
        | (Some HangError, acts, _, w) \<Rightarrow> (Hung, acts, w)
        | (Some PlainError, acts, dc, w) \<Rightarrow>
            (case error_to env dc (mk_msg ''ERROR'' [''Internal server error'']) w of (r, acts', w) \<Rightarrow> (r, acts @ acts', w))
        | (None, acts, dc, w) \<Rightarrow>
            let w = set_clients (\<lambda>cs. cs @ [dc]) w;
                lastError = (case client_network w dc of None \<Rightarrow> None | Some n \<Rightarrow> map_option (\<lambda>e. (net_name n, e)) (n_lastError n))
            in do_steps
                 [\<lambda>w. (Running, acts, w),
                  running (case lastError of None \<Rightarrow> nothing | Some (name, e) \<Rightarrow> notice env (''disconnected from '' @ name @ '': '' @ e) dc),
                  running (do_ops (map (\<lambda>ref. on_upstream env ref updateAway) (connected_refs w))),
                  if dc_impersonating dc then running nothing else bumpDownstreamInteractionTime env] w))"

definition ev_downstream_connected :: "world_env \<Rightarrow> downstream_conn \<Rightarrow> user_world \<Rightarrow> step_result" where
  "ev_downstream_connected env dc w =
     (let dc = (case client_network w dc of None \<Rightarrow> dc | Some n \<Rightarrow> dc\<lparr>dc_monitored := cmm_SetCaseMapping (dc_monitored dc) (n_casemap n)\<rparr>) in
      do_steps
        [if \<not> user_Enabled (u_record (w_user w)) \<and> we_enableUsersOnAuth env then update_user env (\<lambda>r. r\<lparr>user_Enabled := True\<rparr>) else running nothing,
         welcome_client env dc] w)"

text \<open>The receipts of a client for the database.\<close>

definition store_receipts :: "nat \<Rightarrow> string \<Rightarrow> w_op" where
  "store_receipts ref name w =
     (case network_by_ref (w_user w) ref of
        None \<Rightarrow> ([], w)
      | Some n \<Rightarrow>
          (case storeClientDeliveryReceipts (u_msgStore (w_user w)) n name of
             None \<Rightarrow> ([], w)
           | Some rs \<Rightarrow> ([WUser (UEffect (DbStoreReceipts (nid n) name rs))], w)))"

definition forget_client :: "64 word \<Rightarrow> up_env \<Rightarrow> up_state \<Rightarrow> up_action list \<times> up_state" where
  "forget_client i env st =
     (let st = st\<lparr>us_uc := cancelPendingCommandsByDownstreamID i (us_uc st)\<rparr>;
          (acts, st) = updateAway env st;
          (acts', st) = updateMonitor env st
      in (acts @ acts', st))"

definition ev_downstream_disconnected :: "world_env \<Rightarrow> downstream_conn \<Rightarrow> user_world \<Rightarrow> step_result" where
  "ev_downstream_disconnected env dc w =
     (let i = dc_id dc; dc = (case client i w of None \<Rightarrow> dc | Some dc \<Rightarrow> dc);
          w = set_clients (filter (\<lambda>c. dc_id c \<noteq> i)) w
      in do_steps
        [running (case dc_network dc of None \<Rightarrow> nothing | Some ref \<Rightarrow> store_receipts ref (dc_clientName dc)),
         running (do_ops (map (\<lambda>ref. on_upstream env ref (forget_client i)) (connected_refs w))),
         if dc_impersonating dc then running nothing else bumpDownstreamInteractionTime env] w)"

text \<open>A message of a closed connection is ignored; an error closes the connection.\<close>

definition ev_downstream_message :: "world_env \<Rightarrow> 64 word \<Rightarrow> irc_message \<Rightarrow> user_world \<Rightarrow> step_result" where
  "ev_downstream_message env i msg w =
     (case client i w of
        None \<Rightarrow> (Running, [], w)
      | Some dc \<Rightarrow>
          if dc_closed dc then (Running, [], w)
          else (case client_handleMessage env i msg w of
              (Some PanicError, acts, w) \<Rightarrow> (Panicked, acts, w)
            | (Some HangError, acts, w) \<Rightarrow> (Hung, acts, w)
            | (Some _, acts, w) \<Rightarrow> do_steps [\<lambda>w. (Running, acts, w), running (close_client i)] w
            | (None, acts, w) \<Rightarrow> (Running, acts, w)))"

definition apply_update :: "user_update \<Rightarrow> db_user \<Rightarrow> db_user" where
  "apply_update e r =
     (let r = (case up_password e of None \<Rightarrow> r | Some p \<Rightarrow> r\<lparr>user_Password := p\<rparr>);
          r = (case up_admin e of None \<Rightarrow> r | Some a \<Rightarrow> r\<lparr>user_Admin := a\<rparr>);
          r = (case up_enabled e of None \<Rightarrow> r | Some b \<Rightarrow> r\<lparr>user_Enabled := b\<rparr>)
      in case up_maxNetworks e of None \<Rightarrow> r | Some m \<Rightarrow> r\<lparr>user_MaxNetworks := m\<rparr>)"

definition close_clients :: w_op where
  "close_clients w = do_ops (map (\<lambda>c. close_client (dc_id c)) (clients w)) w"

definition ev_user_update :: "world_env \<Rightarrow> user_update \<Rightarrow> user_world \<Rightarrow> step_result" where
  "ev_user_update env e =
     do_steps [update_user env (apply_update e), running (if up_password e = None then nothing else close_clients)]"

definition ev_try_regain_nick :: "world_env \<Rightarrow> nat \<Rightarrow> string \<Rightarrow> user_world \<Rightarrow> step_result" where
  "ev_try_regain_nick env ref nick w =
     (case network_by_ref (w_user w) ref of
        None \<Rightarrow> (Running, [], w)
      | Some n \<Rightarrow>
          (case n_conn n of
             None \<Rightarrow> (Running, [], w)
           | Some uc \<Rightarrow>
               (case tryRegainNick (world_up_env env w n) nick (up_state_of w n uc) of
                  None \<Rightarrow> (Panicked, [], w)
                | Some (acts, st) \<Rightarrow> running (run_up_actions env ref acts) (put_up_state st n w))))"

text \<open>A command that an administrator runs for the user; what it prints goes to the administrator.\<close>

definition ev_user_run :: "world_env \<Rightarrow> string list \<Rightarrow> user_world \<Rightarrow> step_result" where
  "ev_user_run env params w =
     (case handleServiceCommand (service_run env) \<lparr>sc_admin = True, sc_user = Some (user_Username (u_record (w_user w))),
             sc_nick = [], sc_network = None, sc_dc = None\<rparr> params ([], w) of
        (e, _, acts, w) \<Rightarrow>
          ((case outcome env e of HandlerFail Panics \<Rightarrow> Panicked | HandlerFail Hangs \<Rightarrow> Hung | _ \<Rightarrow> Running), acts, w))"

definition ev_stop :: "user_world \<Rightarrow> step_result" where
  "ev_stop w =
     (case do_ops
        (close_clients
         # concat (map (\<lambda>n. emit (map WUser (stop_network n)) # map (store_receipts (n_ref n)) (ds_ForEachClient (n_delivered n)))
             (u_networks (w_user w)))) w of
        (acts, w) \<Rightarrow> (Stopped, acts, w))"

fun user_step :: "world_env \<Rightarrow> user_event \<Rightarrow> user_world \<Rightarrow> step_result" where
  "user_step env (EvUpstreamConnected ref netID uc) w = running (ev_upstream_connected env ref netID uc) w"
| "user_step env (EvUpstreamDisconnected ref) w = ev_upstream_disconnected env ref w"
| "user_step env (EvUpstreamConnectionError ref netID e) w = running (ev_connection_error env ref netID e) w"
| "user_step env (EvUpstreamError ref netID e) w = running (ev_upstream_error env ref netID e) w"
| "user_step env (EvUpstreamMessage ref msg) w = ev_upstream_message env ref msg w"
| "user_step env (EvChannelDetach ref name) w = running (ev_channel_detach env ref name) w"
| "user_step env (EvDownstreamConnected dc) w = ev_downstream_connected env dc w"
| "user_step env (EvDownstreamDisconnected dc) w = ev_downstream_disconnected env dc w"
| "user_step env (EvDownstreamMessage i msg) w = ev_downstream_message env i msg w"
| "user_step env (EvBroadcast msg) w = running (do_ops (map (\<lambda>c. say env (dc_id c) msg) (clients w))) w"
| "user_step env (EvUserUpdate e) w = ev_user_update env e w"
| "user_step env (EvTryRegainNick ref nick) w = ev_try_regain_nick env ref nick w"
| "user_step env (EvUserRun params) w = ev_user_run env params w"
| "user_step env EvStop w = ev_stop w"

text \<open>The loop ends with the first event that stops it.\<close>

fun user_run :: "(world_env \<times> user_event) list \<Rightarrow> user_world \<Rightarrow> step_result" where
  "user_run [] w = (Running, [], w)"
| "user_run ((env, ev) # evs) w =
     (case user_step env ev w of
        (Running, acts, w) \<Rightarrow> (case user_run evs w of (r, acts', w) \<Rightarrow> (r, acts @ acts', w))
      | res \<Rightarrow> res)"

end
