(* ===== verification/User_Invariant.thy ===== *)
theory User_Invariant
  imports World_Frame User_Loop Network_Properties
begin

text \<open>
  The invariant of a user: the list of networks is well-formed, clients have distinct identifiers, their
  capabilities and monitor lists are in order, and no open client is bound to a network object that is
  not in the list.  Every event keeps it.
\<close>

section \<open>The invariant\<close>

definition bound :: "user_state \<Rightarrow> downstream_conn \<Rightarrow> bool" where
  "bound u dc \<longleftrightarrow> (case dc_network dc of None \<Rightarrow> True | Some ref \<Rightarrow> ref \<in> n_ref ` set (u_networks u))"

definition u_ok :: "user_state \<Rightarrow> bool" where
  "u_ok u \<longleftrightarrow> nets_ok u \<and> distinct (map dc_id (u_downstreamConns u)) \<and> list_all client_ok (u_downstreamConns u)
     \<and> list_all (\<lambda>dc. dc_closed dc \<or> bound u dc) (u_downstreamConns u)"

definition user_ok :: "user_world \<Rightarrow> bool" where
  "user_ok w \<longleftrightarrow> u_ok (w_user w)"

text \<open>The same before the actions of a step have run: a client may be one that the actions close.\<close>

definition closing_ok :: "user_action list \<Rightarrow> user_state \<Rightarrow> bool" where
  "closing_ok acts u \<longleftrightarrow> nets_ok u \<and> distinct (map dc_id (u_downstreamConns u)) \<and> list_all client_ok (u_downstreamConns u)
     \<and> list_all (\<lambda>dc. dc_closed dc \<or> bound u dc \<or> List.member acts (UEffect (DownClose (dc_id dc)))) (u_downstreamConns u)"

definition net_ids :: "user_state \<Rightarrow> int set" where
  "net_ids u = nid ` set (u_networks u)"

text \<open>What a user is allowed to do does not change, except for the limit on networks of an administrator.\<close>

definition same_rights :: "db_user \<Rightarrow> db_user \<Rightarrow> bool" where
  "same_rights r r' \<longleftrightarrow> user_Admin r' = user_Admin r \<and> user_Username r' = user_Username r
     \<and> (user_Admin r \<or> (user_Enabled r' = user_Enabled r \<and> user_MaxNetworks r' = user_MaxNetworks r))"

definition keeps_user :: "user_world \<Rightarrow> user_world \<Rightarrow> bool" where
  "keeps_user w w' \<longleftrightarrow> (user_ok w \<longrightarrow> user_ok w') \<and> same_rights (u_record (w_user w)) (u_record (w_user w'))"

text \<open>The actions of a step for a user: only an administrator reaches beyond the own account, and what is stored of the own
  record leaves the rights as they are.  A user may ask for the end of the own account.\<close>

definition permitted :: action_pred where
  "permitted w a \<longleftrightarrow> plain_action a \<or> user_Admin (u_record (w_user w)) \<or> a = WPost (user_Username (u_record (w_user w))) PostStop
     \<or> (case a of WUser (UEffect (DbStoreUser r)) \<Rightarrow> same_rights (u_record (w_user w)) r | _ \<Rightarrow> False)"

lemma same_rights_refl [simp]: "same_rights r r"
  by (simp add: same_rights_def)

lemma same_rights_trans: "same_rights r r' \<Longrightarrow> same_rights r' r'' \<Longrightarrow> same_rights r r''"
  by (auto simp: same_rights_def)

lemma plain_permitted: "plain_action a \<Longrightarrow> permitted w a"
  by (simp add: permitted_def)

lemma plain_all_permitted: "list_all plain_action acts \<Longrightarrow> list_all (permitted w) acts"
  by (auto simp: list_all_iff plain_permitted)

lemma permitted_record: "same_rights (u_record (w_user w)) (u_record (w_user w')) \<Longrightarrow> permitted w' a \<Longrightarrow> permitted w a"
  by (auto simp: permitted_def intro: same_rights_trans split: w_action.splits user_action.splits effect.splits) (auto simp: same_rights_def)

interpretation kept: world_steps keeps_user permitted
  by unfold_locales (auto simp: keeps_user_def intro: same_rights_trans permitted_record)

lemma did_kept: "did keeps_user permitted w res \<longleftrightarrow> keeps_user w (snd res) \<and> list_all (permitted w) (fst res)"
  by (simp add: did_def)

section \<open>Steps on connections\<close>

lemma nets_ok_idents:
  assumes "map net_ident ns = map net_ident (u_networks u)"
  shows "nets_ok (u\<lparr>u_networks := ns\<rparr>) = nets_ok u" "n_ref ` set ns = n_ref ` set (u_networks u)" "nid ` set ns = nid ` set (u_networks u)"
proof -
  have "map n_ref xs = map fst (map net_ident xs)" for xs by (simp add: net_ident_def)
  then have r: "map n_ref ns = map n_ref (u_networks u)" by (simp only: assms)
  have "map nid xs = map (fst \<circ> snd) (map net_ident xs)" for xs by (simp add: net_ident_def)
  then have i: "map nid ns = map nid (u_networks u)" by (simp only: assms)
  have "map net_name xs = map (\<lambda>(_, _, name, addr). if name \<noteq> [] then name else addr) (map net_ident xs)" for xs
    by (simp add: net_ident_def net_name_def GetName_def)
  then have n: "map net_name ns = map net_name (u_networks u)" by (simp only: assms)
  have "list_all (\<lambda>n. n_ref n < k \<and> 0 < nid n \<and> name_ok (net_name n)) xs \<longleftrightarrow>
      list_all (\<lambda>i. i < k) (map n_ref xs) \<and> list_all (\<lambda>i. 0 < i) (map nid xs) \<and> list_all name_ok (map net_name xs)" for k xs
    by (auto simp: list_all_iff)
  then show "nets_ok (u\<lparr>u_networks := ns\<rparr>) = nets_ok u" by (simp add: nets_ok_def r i n)
  show "n_ref ` set ns = n_ref ` set (u_networks u)" using arg_cong [OF r, of set] by simp
  show "nid ` set ns = nid ` set (u_networks u)" using arg_cong [OF i, of set] by simp
qed

lemma nets_ok_cong: "u_networks u' = u_networks u \<Longrightarrow> u_nextRef u' = u_nextRef u \<Longrightarrow> nets_ok u' = nets_ok u"
  by (simp add: nets_ok_def)

lemma frame_nets:
  assumes "frame w w'" and "nets_ok (w_user w)"
  shows "nets_ok (w_user w')" "n_ref ` set (u_networks (w_user w')) = n_ref ` set (u_networks (w_user w))"
    "net_ids (w_user w') = net_ids (w_user w)"
proof -
  have eq: "map net_ident (u_networks (w_user w')) = map net_ident (u_networks (w_user w))" "u_nextRef (w_user w') = u_nextRef (w_user w)"
    using assms by (auto simp: frame_def nets_ok_def)
  note e = nets_ok_idents [OF eq(1)]
  show "nets_ok (w_user w')"
    using e(1) assms(2) nets_ok_cong [of "w_user w'" "(w_user w)\<lparr>u_networks := u_networks (w_user w')\<rparr>"] eq(2) by simp
  show "n_ref ` set (u_networks (w_user w')) = n_ref ` set (u_networks (w_user w))" "net_ids (w_user w') = net_ids (w_user w)"
    using e(2,3) by (simp_all add: net_ids_def)
qed

lemma frame_client:
  assumes "frame w w'" and "ids_ok w" and "dc' \<in> set (clients w')"
  shows "\<exists>dc. dc \<in> set (clients w) \<and> client_frame dc dc'"
  using assms by (auto simp: frame_def list_all2_conv_all_nth in_set_conv_nth)

lemma frame_bound:
  assumes "frame w w'" and "nets_ok (w_user w)" and "ids_ok w" and "dc' \<in> set (clients w')"
  obtains dc where "dc \<in> set (clients w)" "client_frame dc dc'" "bound (w_user w') dc' = bound (w_user w) dc"
  using frame_client [OF assms(1,3,4)] that
  by (force simp: bound_def frame_nets(2) [OF assms(1,2)] client_frame_def split: option.split)

lemma frame_user_ok: "frame w w' \<Longrightarrow> user_ok w \<Longrightarrow> user_ok w'"
proof -
  assume f: "frame w w'" and ok: "user_ok w"
  then have nets: "nets_ok (w_user w)" and ids: "ids_ok w" by (simp_all add: user_ok_def u_ok_def ids_ok_def clients_def)
  note n = frame_nets [OF f nets]
  have "map dc_id (clients w') = map dc_id (clients w)" using f ids by (auto simp: frame_def intro: client_frame_ids)
  moreover have "client_ok dc'" "dc_closed dc' \<or> bound (w_user w') dc'" if "dc' \<in> set (clients w')" for dc'
    by (rule frame_bound [OF f nets ids that]; use ok in \<open>auto simp: user_ok_def u_ok_def list_all_iff client_frame_def clients_def\<close>)+
  ultimately show "user_ok w'"
    using ids n by (simp add: user_ok_def u_ok_def list_all_iff clients_def ids_ok_def)
qed

lemma frame_keeps: "frame w w' \<Longrightarrow> keeps_user w w'"
  unfolding keeps_user_def using frame_user_ok [of w w'] by (simp add: frame_def)

lemma op_frame_keeps: "op_does frame plain f \<Longrightarrow> op_does keeps_user permitted f"
  by (erule op_does_weaken) (auto intro: frame_keeps plain_permitted)

lemma cmd_frame_keeps: "cmd_does frame plain c \<Longrightarrow> cmd_does keeps_user permitted c"
  by (erule cmd_does_weaken) (auto intro: frame_keeps plain_permitted)

section \<open>Actions that close clients\<close>

lemma do_ops_append: "do_ops (fs @ gs) w = (let (a, w1) = do_ops fs w; (b, w2) = do_ops gs w1 in (a @ b, w2))"
  by (induction fs arbitrary: w) (simp_all add: Let_def case_prod_beta)

lemma run_closes:
  assumes "ids_ok w" and "UEffect (DownClose i) \<in> set acts" and "dc \<in> set (clients (snd (run_user_actions env acts w)))" and "dc_id dc = i"
  shows "dc_closed dc"
proof -
  from assms(2) obtain as bs where acts: "acts = as @ UEffect (DownClose i) # bs" by (meson split_list)
  define w1 where "w1 = snd (run_user_actions env as w)"
  define w2 where "w2 = snd (close_client i w1)"
  have w': "snd (run_user_actions env acts w) = snd (run_user_actions env bs w2)"
    by (simp add: acts run_user_actions_def do_ops_append Let_def case_prod_beta w1_def w2_def)
  have "frame w w2"
    using frame_trans [of w w1 w2] run_user_actions_frame [of w env as] op_doesD [OF frame_close_client, of w1 i]
    by (simp add: w1_def w2_def)
  then have "ids_ok w2" using assms(1) client_frame_ids [of "clients w" "clients w2"] by (simp add: frame_def ids_ok_def)
  moreover have "frame w2 (snd (run_user_actions env bs w2))" by (rule run_user_actions_frame)
  ultimately obtain dc2 where "dc2 \<in> set (clients w2)" "client_frame dc2 dc"
    using frame_client [of w2 "snd (run_user_actions env bs w2)" dc] assms(3) unfolding w' by blast
  then obtain d1 where "dc2 = (if dc_id d1 = i then d1\<lparr>dc_closed := True\<rparr> else d1)"
    by (force simp: w2_def close_client_def)
  with \<open>client_frame dc2 dc\<close> assms(4) show ?thesis by (cases "dc_id d1 = i") (simp_all add: client_frame_def)
qed

lemma run_user_actions_ok:
  assumes "closing_ok acts (w_user w)"
  shows "user_ok (snd (run_user_actions env acts w))"
    and "net_ids (w_user (snd (run_user_actions env acts w))) = net_ids (w_user w)"
proof -
  let ?w = "snd (run_user_actions env acts w)"
  have f: "frame w ?w" by (rule run_user_actions_frame)
  have nets: "nets_ok (w_user w)" and ids: "ids_ok w" using assms by (simp_all add: closing_ok_def ids_ok_def clients_def)
  note n = frame_nets [OF f nets]
  show "net_ids (w_user ?w) = net_ids (w_user w)" by (rule n(3))
  have "map dc_id (clients ?w) = map dc_id (clients w)" using f ids by (auto simp: frame_def intro: client_frame_ids)
  moreover have "client_ok dc'" "dc_closed dc' \<or> bound (w_user ?w) dc'" if "dc' \<in> set (clients ?w)" for dc'
    by (rule frame_bound [OF f nets ids that];
        use assms run_closes [OF ids _ that] in \<open>auto simp: closing_ok_def list_all_iff client_frame_def clients_def\<close>)+
  ultimately show "user_ok ?w"
    using ids n(1) by (simp add: user_ok_def u_ok_def list_all_iff clients_def ids_ok_def)
qed

section \<open>Steps on the list of networks\<close>

lemma u_ok_closing: "u_ok u \<Longrightarrow> closing_ok acts u"
  by (auto simp: u_ok_def closing_ok_def list_all_iff)

lemma client_ok_network [simp]: "client_ok (dc\<lparr>dc_network := r\<rparr>) = client_ok dc"
  by (simp add: client_ok_def)

lemma replace_network_u_ok:
  assumes ok: "u_ok u" and n: "n \<in> set (u_networks u)" "net_ID r = nid n" and r: "replace_network env n r u = Some (ref, acts, u')"
    and nets: "nets_ok u'"
  shows "u_ok u' \<and> net_ids u' \<subseteq> net_ids u"
proof -
  from replace_network_state [OF r] obtain n' where n': "n_ref n' = u_nextRef u" "n_record n' = r"
    and nets': "u_networks u' = sort_key nid (filter (\<lambda>m. n_ref m \<noteq> n_ref n) (u_networks u) @ [n'])"
    and conns: "u_downstreamConns u' = u_downstreamConns (patch_clients (n_ref n) (u_nextRef u) u)"
    by blast
  have conns': "u_downstreamConns u' =
      map (\<lambda>dc. if dc_network dc = Some (n_ref n) then dc\<lparr>dc_network := Some (u_nextRef u)\<rparr> else dc) (u_downstreamConns u)"
    by (simp add: conns patch_clients_def)
  note u' = nets' conns'
  have ids: "map dc_id (u_downstreamConns u') = map dc_id (u_downstreamConns u)" by (simp add: u')
  have refs: "n_ref ` set (u_networks u') = insert (u_nextRef u) (n_ref ` set (u_networks u) - {n_ref n})"
    using n' by (auto simp: u')
  have "bound u' (if dc_network dc = Some (n_ref n) then dc\<lparr>dc_network := Some (u_nextRef u)\<rparr> else dc)" if "bound u dc" for dc
    using that by (auto simp: bound_def refs split: option.splits)
  then have "client_ok dc \<and> (dc_closed dc \<or> bound u' dc)" if "dc \<in> set (u_downstreamConns u')" for dc
    using that ok unfolding conns' u_ok_def list_all_iff by fastforce
  then have "u_ok u'" using ok nets ids by (simp add: u_ok_def list_all_iff)
  moreover have "net_ids u' \<subseteq> net_ids u" using n n' by (auto simp: net_ids_def u')
  ultimately show ?thesis by simp
qed

lemma updateNetwork_u_ok:
  assumes "u_ok u"
  shows "u_ok (snd (snd (updateNetwork env r enf u))) \<and> net_ids (snd (snd (updateNetwork env r enf u))) \<subseteq> net_ids u"
proof -
  let ?r = "wipe_defaults (u_record u) r"
  have nets: "nets_ok (snd (snd (updateNetwork env r enf u)))" using assms by (intro updateNetwork_ok) (simp add: u_ok_def)
  have "u_ok u' \<and> net_ids u' \<subseteq> net_ids u"
    if "getNetworkByID u (net_ID r) = Some n" "replace_network env n ?r u = Some (ref, acts, u')"
      "updateNetwork env r enf u = (Inr ref, UEffect (DbStoreNetwork ?r) # acts, u')" for n ref acts u'
    using replace_network_u_ok [OF assms _ _ that(2)] find_iff [OF that(1) [unfolded getNetworkByID_def]] nets that(3) by simp
  then show ?thesis
    using assms by (auto simp: updateNetwork_def Let_def split: option.splits if_splits)
qed

lemma deleteNetwork_closing:
  fixes env :: user_env and i :: int
  assumes "u_ok u"
  defines "acts \<equiv> fst (snd (deleteNetwork env i u))" and "u' \<equiv> snd (snd (deleteNetwork env i u))"
  shows "closing_ok acts u'"
proof -
  have nets: "nets_ok u'" using deleteNetwork_ok [of u env i] assms by (simp add: u_ok_def)
  obtain res where res: "deleteNetwork env i u = (res, acts, u')" by (metis acts_def u'_def prod.collapse)
  show ?thesis
  proof (cases "u' = u")
    case True
    with assms(1) show ?thesis by (simp add: u_ok_closing)
  next
    case False
    with res obtain n a where "removeNetwork n u = Some (a, u')" and acts: "acts = UEffect (DbDeleteNetwork i) # a @ notify_clients u' i ''*''"
      by (auto simp: deleteNetwork_def split: option.splits if_splits)
    then have u': "u' = u\<lparr>u_networks := filter (\<lambda>m. n_ref m \<noteq> n_ref n) (u_networks u)\<rparr>"
      and a: "set (map (\<lambda>dc. UEffect (DownClose (dc_id dc))) (forEachDownstream u (n_ref n))) \<subseteq> set a"
      by (auto simp: removeNetwork_def split: if_splits)
    have "UEffect (DownClose (dc_id dc)) \<in> set acts" if "dc \<in> set (u_downstreamConns u)" "dc_network dc = Some (n_ref n)" for dc
      using a acts that by (auto simp: forEachDownstream_def)
    then show "closing_ok acts u'"
      using assms(1) nets unfolding closing_ok_def u_ok_def list_all_iff by (fastforce simp: u' bound_def split: option.splits)
  qed
qed

lemma update_networks_u_ok:
  "u_ok u \<Longrightarrow> u_ok (snd (snd (update_networks env rs u))) \<and> net_ids (snd (snd (update_networks env rs u))) \<subseteq> net_ids u"
proof (induction rs arbitrary: u)
  case (Cons r rs)
  obtain res acts u1 where 1: "updateNetwork env r False u = (res, acts, u1)" by (metis prod_cases3)
  have "u_ok u1" "net_ids u1 \<subseteq> net_ids u" using updateNetwork_u_ok [OF Cons.prems, of env r False] by (simp_all add: 1)
  with Cons.IH [OF this(1)] show ?case
    by (auto simp: 1 case_prod_beta split: sum.split net_error.split)
qed simp

lemma updateUser_state:
  "snd (snd (updateUser env upd u)) = u \<or> (\<exists>r rs. snd (snd (updateUser env upd u)) = snd (snd (update_networks env rs (u\<lparr>u_record := r\<rparr>))))"
proof (cases "upd (u_record u)")
  case (Some r)
  obtain setnames need where p: "(if user_Realname (u_record u) \<noteq> user_Realname r \<or> user_Enabled (u_record u) \<noteq> user_Enabled r
      then realname_updates r (user_Enabled (u_record u) \<noteq> user_Enabled r) (u_networks (u\<lparr>u_record := r\<rparr>)) else ([], [])) = (setnames, need)"
    by fastforce
  obtain e acts u2 where q: "update_networks env need (u\<lparr>u_record := r\<rparr>) = (e, acts, u2)" by (metis prod_cases3)
  have "snd (snd (updateUser env upd u)) = (if ue_storeUser env r then u2 else u)"
    unfolding updateUser_def Some option.case Let_def p prod.case q by (simp split: option.split)
  with q show ?thesis by (metis snd_conv)
qed (simp add: updateUser_def)

lemma updateUser_u_ok:
  assumes "u_ok u"
  shows "u_ok (snd (snd (updateUser env upd u))) \<and> net_ids (snd (snd (updateUser env upd u))) \<subseteq> net_ids u"
proof -
  have "bound (u\<lparr>u_record := r\<rparr>) = bound u" for r by (simp add: fun_eq_iff bound_def split: option.split)
  then have r: "u_ok (u\<lparr>u_record := r\<rparr>)" "net_ids (u\<lparr>u_record := r\<rparr>) = net_ids u" for r
    using assms by (simp_all add: u_ok_def nets_ok_def net_ids_def)
  show ?thesis
    using updateUser_state [of env upd u] update_networks_u_ok [OF r(1), of env] unfolding r(2) using assms by (elim disjE exE) simp_all
qed

lemma createNetwork_u_ok:
  assumes "u_ok u" and "\<And>i. ue_storeNetwork env (network_ids u) r = Some i \<Longrightarrow> 0 < i \<and> getNetworkByID u i = None"
  shows "u_ok (snd (snd (createNetwork env r enf u)))"
proof -
  let ?u = "snd (snd (createNetwork env r enf u))"
  have "nets_ok ?u" using assms by (intro createNetwork_ok) (auto simp: u_ok_def)
  moreover have "u_downstreamConns ?u = u_downstreamConns u" "n_ref ` set (u_networks u) \<subseteq> n_ref ` set (u_networks ?u)"
    by (auto simp: createNetwork_def addNetwork_def Let_def split: option.split)
  ultimately show ?thesis
    using assms(1) unfolding u_ok_def list_all_iff bound_def by (fastforce split: option.splits)
qed

text \<open>The actions of these steps.\<close>

definition user_permitted :: "db_user \<Rightarrow> user_action \<Rightarrow> bool" where
  "user_permitted r a \<longleftrightarrow> plain_user a \<or> (case a of UEffect (DbStoreUser r') \<Rightarrow> same_rights r r' | _ \<Rightarrow> False)"

lemma plain_user_permitted: "list_all plain_user acts \<Longrightarrow> list_all (user_permitted r) acts"
  by (auto simp: list_all_iff user_permitted_def)

lemma removeNetwork_plain: "removeNetwork n u = Some (acts, u') \<Longrightarrow> list_all plain_user acts \<and> u_record u' = u_record u"
  by (auto simp: removeNetwork_def stop_network_def list_all_iff split: if_splits)

lemma abort_loop_plain: "abort_loop dcs ps = Some es \<Longrightarrow> list_all plain_user (map UEffect es)"
  by (induction ps arbitrary: es) (auto simp: abort_reply_def split: option.splits if_splits list.splits)

lemma notify_plain [simp]: "list_all plain_user (notifyBouncerNetworkState env i attrs u)"
  "list_all plain_user (notify_clients u i s)" "plain_user (sendServiceNOTICE dc s)"
  by (simp_all add: notifyBouncerNetworkState_def notify_clients_def sendServiceNOTICE_def list_all_iff)

lemma record_map_network [simp]: "u_record (map_network ref f u) = u_record u"
  by (simp add: map_network_def)

lemma disconnected_plain: "handleUpstreamDisconnected env ref uc u = Some (acts, u') \<Longrightarrow> list_all plain_user acts \<and> u_record u' = u_record u"
  by (auto simp: handleUpstreamDisconnected_def abortPendingCommands_def Let_def list_all_iff [of _ "map _ (filter _ _)"]
      list_all_iff [of _ "map _ (forEachDownstream _ _)"] dest!: abort_loop_plain split: option.splits if_splits)

lemma replace_network_plain:
  assumes "replace_network env n r u = Some (ref, acts, u')"
  shows "list_all plain_user acts \<and> u_record u' = u_record u"
proof -
  have s: "list_all plain_user (stop_network n)" for n by (simp add: stop_network_def)
  have "list_all plain_user acts \<and> u_record u' = u_record u" if "shutdown_network env n u = Some (acts, u')" for u acts u'
    using that disconnected_plain s by (auto simp: shutdown_network_def Let_def split: option.splits)
  moreover have "list_all plain_user acts \<and> u_record u' = u_record u" if "install_network env n fresh u = Some (acts, u')" for fresh u acts u'
    using that
    by (auto simp: install_network_def Let_def patch_clients_def addNetwork_def list_all_iff [of _ "map _ (forEachDownstream _ _)"]
        dest!: removeNetwork_plain split: option.splits)
  ultimately show ?thesis using assms by (fastforce simp: replace_network_def Let_def split: option.splits)
qed

lemma network_steps_plain:
  "list_all plain_user (fst (snd (createNetwork env r b u))) \<and> u_record (snd (snd (createNetwork env r b u))) = u_record u"
  "list_all plain_user (fst (snd (updateNetwork env r b u))) \<and> u_record (snd (snd (updateNetwork env r b u))) = u_record u"
  "list_all plain_user (fst (snd (deleteNetwork env i u))) \<and> u_record (snd (snd (deleteNetwork env i u))) = u_record u"
  by (auto simp: createNetwork_def updateNetwork_def deleteNetwork_def addNetwork_def Let_def
      dest!: replace_network_plain removeNetwork_plain split: option.splits if_splits)

text \<open>A step of the user's list in the state with all connections.\<close>

lemma on_user_kept:
  assumes "f (we_user env) (w_user w) = (r, acts, u)" and "u_ok (w_user w) \<Longrightarrow> closing_ok acts u"
    and "same_rights (u_record (w_user w)) (u_record u)" and "list_all (user_permitted (u_record (w_user w))) acts"
  shows "did keeps_user permitted w (snd (on_user env f w))"
proof -
  let ?w = "w\<lparr>w_user := u\<rparr>"
  have "user_ok w \<Longrightarrow> user_ok (snd (run_user_actions env acts ?w))"
    using run_user_actions_ok [of acts ?w env] assms(2) by (simp add: user_ok_def)
  moreover have "u_record (w_user (snd (run_user_actions env acts ?w))) = u_record u"
    using run_user_actions_frame [of ?w env acts] by (simp add: frame_def)
  moreover have "permitted w a" if "a \<in> set (fst (run_user_actions env acts ?w))" for a
    using run_user_actions_out [OF that] assms(4) by (auto simp: list_all_iff permitted_def user_permitted_def split: user_action.splits effect.splits)
  ultimately show ?thesis
    using assms(3) by (simp add: on_user_def assms(1) Let_def case_prod_beta did_kept keeps_user_def list_all_iff)
qed

lemma on_user_plain:
  assumes "\<And>u. u_ok u \<Longrightarrow> closing_ok (fst (snd (f (we_user env) u))) (snd (snd (f (we_user env) u)))"
    and "\<And>u. list_all plain_user (fst (snd (f (we_user env) u))) \<and> u_record (snd (snd (f (we_user env) u))) = u_record u"
  shows "cmd_does keeps_user permitted (on_user env f)"
proof (rule cmd_doesI)
  fix w :: user_world
  obtain r acts u where f: "f (we_user env) (w_user w) = (r, acts, u)" by (metis prod_cases3)
  from f assms [of "w_user w"] show "did keeps_user permitted w (snd (on_user env f w))"
    by (intro on_user_kept [where f = f, OF f]) (auto intro: plain_user_permitted)
qed

lemma update_networks_plain:
  "list_all plain_user (fst (snd (update_networks env rs u))) \<and> u_record (snd (snd (update_networks env rs u))) = u_record u"
proof (induction rs arbitrary: u)
  case (Cons r rs)
  obtain res acts u1 where 1: "updateNetwork env r False u = (res, acts, u1)" by (metis prod_cases3)
  with network_steps_plain(2) [of env r False u] Cons.IH [of u1] show ?case by (auto simp: case_prod_beta split: sum.split net_error.split)
qed simp

lemma updateUser_rights:
  fixes env :: user_env
  assumes "\<And>r'. upd (u_record u) = Some r' \<Longrightarrow> same_rights (u_record u) r'"
  shows "same_rights (u_record u) (u_record (snd (snd (updateUser env upd u)))) \<and> list_all (user_permitted (u_record u)) (fst (snd (updateUser env upd u)))"
proof (cases "upd (u_record u)")
  case (Some r)
  have m: "list_all (user_permitted old) (map (\<lambda>x. UEffect (UpSend (g x) (m x))) xs)" "list_all (user_permitted old) (map (\<lambda>x. UEffect (DownClose (g' x))) ys)"
    for old g g' m and xs :: "network list" and ys :: "downstream_conn list"
    by (simp_all add: list_all_iff user_permitted_def)
  obtain setnames need where p: "(if user_Realname (u_record u) \<noteq> user_Realname r \<or> user_Enabled (u_record u) \<noteq> user_Enabled r
      then realname_updates r (user_Enabled (u_record u) \<noteq> user_Enabled r) (u_networks (u\<lparr>u_record := r\<rparr>)) else ([], [])) = (setnames, need)"
    by fastforce
  then have "list_all (user_permitted (u_record u)) setnames" by (auto simp: realname_updates_def Let_def m split: if_splits)
  moreover obtain e acts u2 where q: "update_networks env need (u\<lparr>u_record := r\<rparr>) = (e, acts, u2)" by (metis prod_cases3)
  then have "list_all (user_permitted (u_record u)) acts" "u_record u2 = r"
    using update_networks_plain [of env need "u\<lparr>u_record := r\<rparr>"] by (simp_all add: plain_user_permitted)
  moreover have "same_rights (u_record u) r" by (rule assms) (rule Some)
  ultimately show ?thesis
    unfolding updateUser_def Some option.case Let_def p prod.case q by (auto simp: m user_permitted_def [of _ "UEffect (DbStoreUser _)"] split: option.split)
qed (simp add: updateUser_def)

lemma on_user_updateUser:
  assumes "\<And>r'. upd (u_record (w_user w)) = Some r' \<Longrightarrow> same_rights (u_record (w_user w)) r'"
  shows "did keeps_user permitted w (snd (on_user env (\<lambda>e. updateUser e upd) w))"
proof -
  obtain r acts u where f: "updateUser (we_user env) upd (w_user w) = (r, acts, u)" by (metis prod_cases3)
  show ?thesis
    using updateUser_rights [where env = "we_user env" and upd = upd and u = "w_user w", OF assms] updateUser_u_ok [of "w_user w" "we_user env" upd]
    by (intro on_user_kept [of "\<lambda>e. updateUser e upd", OF f]) (auto simp: f u_ok_closing)
qed

lemma on_user_steps:
  "cmd_does keeps_user permitted (on_user env (\<lambda>e. updateNetwork e r b))"
  "cmd_does keeps_user permitted (on_user env (\<lambda>e. deleteNetwork e i))"
  by (rule on_user_plain, simp_all add: updateNetwork_u_ok u_ok_closing deleteNetwork_closing network_steps_plain)+

section \<open>Commands\<close>

lemma cmd_does_result: "cmd_does R A c \<Longrightarrow> (\<And>w. snd (d w) = snd (c w)) \<Longrightarrow> cmd_does R A d"
  by (simp add: cmd_does_def)

lemma keeps_client_ops:
  "op_does keeps_user permitted (say env i msg)" "op_does keeps_user permitted (say_all env i msgs)"
  "op_does keeps_user permitted (drop_label i)" "op_does keeps_user permitted (store_channel env ref name)"
  "op_does keeps_user permitted (forget_channel env ref name)" "op_does keeps_user permitted (close_client i)"
  "list_all plain_user acts \<Longrightarrow> op_does keeps_user permitted (run_user_actions env acts)"
  "cmd_does keeps_user permitted (send_labeled i ref b msg)" "cmd_does keeps_user permitted (enqueue env i ref msg)"
  by (simp_all add: op_frame_keeps cmd_frame_keeps frame_says frame_drop_label frame_store_channel frame_forget_channel frame_close_client
      frame_run_user_actions frame_send_labeled frame_enqueue)

lemma keeps_on_client: "(\<And>d. tame (f d)) \<Longrightarrow> op_does keeps_user permitted (on_client env i f)"
  by (rule op_frame_keeps) (rule frame_on_client)

lemma keeps_on_upstream: "up_stays f \<Longrightarrow> op_does keeps_user permitted (on_upstream env ref f)"
  by (rule op_frame_keeps) (rule frame_on_upstream)

lemma keeps_changes:
  "(\<And>r. same_rights r (f r)) \<Longrightarrow> cmd_does keeps_user permitted (change_user env f reply)"
  "cmd_does keeps_user permitted (change_network env r reply)"
proof -
  show "cmd_does keeps_user permitted (change_user env f reply)" if "\<And>r. same_rights r (f r)"
    by (rule cmd_does_result [where c = "on_user env (\<lambda>e. updateUser e (\<lambda>r. Some (f r)))"])
      (auto simp: change_user_def that split: prod.split option.split net_error.split intro!: cmd_doesI on_user_updateUser)
  show "cmd_does keeps_user permitted (change_network env r reply)"
    by (rule cmd_does_result [OF on_user_steps(1) [of env r False]])
      (auto simp: change_network_def split: prod.split sum.split net_error.split)
qed

lemma keeps_store_network: "cmd_does keeps_user permitted (store_network env r reply)"
  by (rule cmd_doesI) (auto simp: store_network_def reject_def run_op_def emit_def did_kept permitted_def kept.R_refl split: option.split)

lemma keeps_set_network_record:
  "(\<And>r. net_ID (f r) = net_ID r \<and> net_Name (f r) = net_Name r \<and> net_Addr (f r) = net_Addr r)
   \<Longrightarrow> op_does keeps_user permitted (set_network_record ref f)"
proof (rule op_frame_keeps, rule op_doesI)
  fix w
  assume f: "\<And>r. net_ID (f r) = net_ID r \<and> net_Name (f r) = net_Name r \<and> net_Addr (f r) = net_Addr r"
  have "map net_ident (map (\<lambda>n. if n_ref n = ref then n\<lparr>n_record := f (n_record n)\<rparr> else n) ns) = map net_ident ns" for ns
    using f by (induction ns) (simp_all add: net_ident_def)
  then show "did frame plain w (set_network_record ref f w)"
    by (simp add: set_network_record_def frame_def map_network_def clients_def list_all2_refl client_frame_refl)
qed

abbreviation keeps_cmd :: "(user_world \<Rightarrow> 'r \<times> w_action list \<times> user_world) \<Rightarrow> bool" where
  "keeps_cmd \<equiv> cmd_does keeps_user permitted"

abbreviation kept_by :: "user_world \<Rightarrow> 'r \<times> w_action list \<times> user_world \<Rightarrow> bool" where
  "kept_by w res \<equiv> did keeps_user permitted w (snd res)"

lemma keeps_cmdI: "(\<And>w. kept_by w (c w)) \<Longrightarrow> keeps_cmd c"
  by (rule cmd_doesI)

lemma keeps_cmdD: "keeps_cmd c \<Longrightarrow> kept_by w (c w)"
  by (rule cmd_doesD)

lemma keeps_refl [simp]: "keeps_user w w"
  by (rule kept.R_refl)

lemma keeps_do_ops: "list_all (op_does keeps_user permitted) fs \<Longrightarrow> op_does keeps_user permitted (do_ops fs)"
  by (rule kept.op_do_ops)

lemma keeps_emit: "list_all plain_action acts \<Longrightarrow> op_does keeps_user permitted (emit acts)"
  by (rule kept.op_emit) (rule plain_all_permitted)

text \<open>Case distinctions in the body of a command, before and after the state is given.\<close>

lemma keeps_splits:
  "(b \<Longrightarrow> kept_by w x) \<Longrightarrow> (\<not> b \<Longrightarrow> kept_by w y) \<Longrightarrow> kept_by w (if b then x else y)"
  "(o' = None \<Longrightarrow> kept_by w x) \<Longrightarrow> (\<And>a. o' = Some a \<Longrightarrow> kept_by w (f a)) \<Longrightarrow> kept_by w (case o' of None \<Rightarrow> x | Some a \<Rightarrow> f a)"
  "kept_by w x \<Longrightarrow> (\<And>a as. kept_by w (g a as)) \<Longrightarrow> kept_by w (case xs of [] \<Rightarrow> x | a # as \<Rightarrow> g a as)"
  "(\<And>a b. kept_by w (h a b)) \<Longrightarrow> kept_by w (case p of (a, b) \<Rightarrow> h a b)"
  by (simp_all split: option.split list.split prod.split)

lemma keeps_cmd_splits:
  "(b \<Longrightarrow> keeps_cmd c) \<Longrightarrow> (\<not> b \<Longrightarrow> keeps_cmd d) \<Longrightarrow> keeps_cmd (if b then c else d)"
  "keeps_cmd c \<Longrightarrow> (\<And>a. keeps_cmd (f a)) \<Longrightarrow> keeps_cmd (case o' of None \<Rightarrow> c | Some a \<Rightarrow> f a)"
  "keeps_cmd c \<Longrightarrow> (\<And>a as. keeps_cmd (g a as)) \<Longrightarrow> keeps_cmd (case xs of [] \<Rightarrow> c | a # as \<Rightarrow> g a as)"
  "(\<And>a. keeps_cmd (h a)) \<Longrightarrow> (\<And>a. keeps_cmd (f a)) \<Longrightarrow> keeps_cmd (case s of Inl a \<Rightarrow> h a | Inr a \<Rightarrow> f a)"
  by (simp_all split: option.split list.split sum.split)

lemma list_all_intros:
  "list_all P []" "P x \<Longrightarrow> list_all P xs \<Longrightarrow> list_all P (x # xs)" "list_all P xs \<Longrightarrow> list_all P ys \<Longrightarrow> list_all P (xs @ ys)"
  "(\<And>z. P (f z)) \<Longrightarrow> list_all P (map f zs)"
  by (auto simp: list_all_iff)

lemmas keeps_ops = kept.op_do_ops kept.cmd_reject kept.cmd_do_cmds kept.cmd_with_params kept.cmd_upstreamForCommand cmd_run_op keeps_emit
  keeps_client_ops keeps_on_client keeps_on_upstream keeps_changes keeps_store_network tame_ops up_stays_channels

lemmas keeps_intros = keeps_cmd_splits list_all_intros keeps_ops plain_simps plain_user_simps(1-5) TrueI

section \<open>New networks\<close>

text \<open>The database gives a new network a positive identifier that no network of the user has.\<close>

definition fresh_db :: "world_env \<Rightarrow> bool" where
  "fresh_db env \<longleftrightarrow> (\<forall>ids r i. ue_storeNetwork (we_user env) ids r = Some i \<longrightarrow> net_ID r = 0 \<longrightarrow> 0 < i \<and> i \<notin> set ids)"

lemma createNetwork_fresh:
  assumes "fresh_db env" and "u_ok u"
  shows "u_ok (snd (snd (createNetwork (we_user env) r b u)))"
proof (cases "net_ID r = 0")
  case True
  then have "0 < i \<and> i \<notin> set (network_ids u)" if "ue_storeNetwork (we_user env) (network_ids u) r = Some i" for i
    using assms(1) that unfolding fresh_db_def by blast
  then show ?thesis
    by (intro createNetwork_u_ok [OF assms(2)]) (auto simp: network_ids_def getNetworkByID_def find_None_iff)
qed (simp add: createNetwork_def assms(2))

lemma keeps_create:
  assumes "fresh_db env"
  shows "keeps_cmd (on_user env (\<lambda>e. createNetwork e r b))"
  by (rule on_user_plain) (simp_all add: createNetwork_fresh [OF assms] u_ok_closing network_steps_plain)

end
