(* ===== verification/Service_Invariant.thy ===== *)
theory Service_Invariant
  imports User_Invariant
begin

text \<open>
  The handlers of the bouncer service keep the invariant of the user, and for a user who is not an administrator they leave
  the rights of the account as they are and do nothing beyond it.
\<close>

section \<open>Contracts of handlers\<close>

definition svc_does :: "(user_world \<Rightarrow> user_world \<Rightarrow> bool) \<Rightarrow> action_pred \<Rightarrow> svc_cmd \<Rightarrow> bool" where
  "svc_does R A c \<longleftrightarrow> (\<forall>w. did R A w (snd (snd (c w))))"

lemma svc_doesI: "(\<And>w. did R A w (snd (snd (c w)))) \<Longrightarrow> svc_does R A c"
  by (simp add: svc_does_def)

lemma svc_doesD: "svc_does R A c \<Longrightarrow> did R A w (snd (snd (c w)))"
  by (simp add: svc_does_def)

context world_steps
begin

lemma svc_fail: "svc_does R A (fail s)"
  by (simp add: svc_does_def fail_def)

lemma svc_answer: "svc_does R A (answer out)"
  by (simp add: svc_does_def answer_def)

lemma svc_result: "svc_does R A (\<lambda>w. (r w, out w, [], w))"
  by (simp add: svc_does_def)

lemma svc_op_then: "op_does R A f \<Longrightarrow> svc_does R A k \<Longrightarrow> svc_does R A (op_then f k)"
  by (rule svc_doesI) (simp add: op_then_def Let_def case_prod_beta did_then op_doesD svc_doesD)

lemma svc_cmd_then: "cmd_does R A f \<Longrightarrow> (\<And>r. svc_does R A (k r)) \<Longrightarrow> svc_does R A (cmd_then f k)"
  by (rule svc_doesI) (simp add: cmd_then_def Let_def case_prod_beta did_then cmd_doesD svc_doesD)

lemma svc_user_then: "cmd_does R A (on_user env f) \<Longrightarrow> (\<And>r. svc_does R A (k r)) \<Longrightarrow> svc_does R A (user_then env f k)"
  unfolding user_then_def by (rule svc_cmd_then)

lemma svc_net_failed: "svc_does R A (net_failed env prefix e)"
  by (rule svc_doesI) (simp add: net_failed_def fail_def split: net_error.split)

lemma svc_with_flags: "(\<And>fs args. svc_does R A (k fs args)) \<Longrightarrow> svc_does R A (with_flags env formal params k)"
  by (rule svc_doesI) (auto simp: with_flags_def fail_def svc_doesD split: sum.split flag_error.split)

lemma svc_only_flags: "(\<And>fs. svc_does R A (k fs)) \<Longrightarrow> svc_does R A (only_flags env formal params k)"
  unfolding only_flags_def by (rule svc_with_flags) (simp add: svc_fail)

lemma svc_find_network: "(\<And>n. svc_does R A (k n)) \<Longrightarrow> svc_does R A (find_network env ctx missing name k)"
  by (rule svc_doesI) (auto simp: find_network_def fail_def svc_doesD split: option.split)

lemma svc_strip: "(\<And>name n. svc_does R A (k name n)) \<Longrightarrow> svc_does R A (stripNetworkSuffix env ctx name k)"
  by (rule svc_doesI) (auto simp: stripNetworkSuffix_def fail_def svc_doesD split: option.split)

lemma svc_splits:
  "(b \<Longrightarrow> svc_does R A c) \<Longrightarrow> (\<not> b \<Longrightarrow> svc_does R A d) \<Longrightarrow> svc_does R A (if b then c else d)"
  "svc_does R A c \<Longrightarrow> (\<And>a. svc_does R A (f a)) \<Longrightarrow> svc_does R A (case o' of None \<Rightarrow> c | Some a \<Rightarrow> f a)"
  "(\<And>a. svc_does R A (h a)) \<Longrightarrow> (\<And>a. svc_does R A (f' a)) \<Longrightarrow> svc_does R A (case s of Inl a \<Rightarrow> h a | Inr a \<Rightarrow> f' a)"
  "(\<And>a b. svc_does R A (g a b)) \<Longrightarrow> svc_does R A (case p of (a, b) \<Rightarrow> g a b)"
  by (simp_all split: option.split sum.split prod.split)

lemma svc_lists:
  "svc_does R A c \<Longrightarrow> (\<And>a as. svc_does R A (f a as)) \<Longrightarrow> svc_does R A (case xs of [] \<Rightarrow> c | a # as \<Rightarrow> f a as)"
  "svc_does R A x \<Longrightarrow> svc_does R A y \<Longrightarrow> svc_does R A z \<Longrightarrow> svc_does R A (case so of Stored \<Rightarrow> x | Duplicate \<Rightarrow> y | StoreFailed \<Rightarrow> z)"
  by (simp_all split: list.split store_outcome.split)

lemmas svc_steps = svc_splits svc_lists svc_fail svc_answer svc_op_then svc_cmd_then svc_user_then svc_net_failed svc_with_flags svc_only_flags
  svc_find_network svc_strip

end

abbreviation keeps_svc :: "svc_cmd \<Rightarrow> bool" where
  "keeps_svc \<equiv> svc_does keeps_user permitted"

section \<open>Networks\<close>

lemma keeps_network_handlers:
  assumes "fresh_db env"
  shows "keeps_svc (handleServiceNetworkCreate env ctx params)" "keeps_svc (handleServiceNetworkStatus env ctx params)"
    "keeps_svc (handleServiceNetworkUpdate env ctx params)" "keeps_svc (handleServiceNetworkDelete env ctx params)"
    "keeps_svc (handleServiceNetworkQuote env ctx params)"
proof -
  have s: "keeps_svc (\<lambda>w. answer (out w) w)" for out unfolding answer_def by (rule kept.svc_result)
  show "keeps_svc (handleServiceNetworkCreate env ctx params)"
    unfolding handleServiceNetworkCreate_def by (intro kept.svc_steps s keeps_create [OF assms])
  show "keeps_svc (handleServiceNetworkStatus env ctx params)"
    by (rule svc_doesI) (simp add: handleServiceNetworkStatus_def fail_def answer_def)
  show "keeps_svc (handleServiceNetworkUpdate env ctx params)"
    unfolding handleServiceNetworkUpdate_def getNetworkFromArg_def by (intro kept.svc_steps s on_user_steps)
  show "keeps_svc (handleServiceNetworkDelete env ctx params)"
    unfolding handleServiceNetworkDelete_def getNetworkFromArg_def by (intro kept.svc_steps on_user_steps)
  show "keeps_svc (handleServiceNetworkQuote env ctx params)"
    unfolding handleServiceNetworkQuote_def getNetworkFromArg_def by (intro kept.svc_steps keeps_intros)
qed

section \<open>Credentials, channels and certificates\<close>

lemma keeps_set_sasl: "keeps_svc (set_sasl env n f out)"
proof -
  have "keeps_svc (\<lambda>w. case o' w of None \<Rightarrow> fail s w | Some x \<Rightarrow> op_then (emit [WUser (UEffect (DbStoreNetwork r))]) (answer out) w)"
    for o' :: "user_world \<Rightarrow> int option" and s r
    by (rule svc_doesI) (auto split: option.split intro!: svc_doesD [where c = "fail s"] svc_doesD [where c = "op_then _ _"] kept.svc_steps keeps_intros)
  then show ?thesis unfolding set_sasl_def Let_def by (intro kept.svc_op_then keeps_set_network_record) simp
qed

lemma keeps_sasl_handlers:
  "keeps_svc (handleServiceCertFPGenerate env ctx params)" "keeps_svc (handleServiceCertFPFingerprints env ctx params)"
  "keeps_svc (handleServiceSASLStatus env ctx params)" "keeps_svc (handleServiceSASLSetPlain env ctx params)"
  "keeps_svc (handleServiceSASLReset env ctx params)"
  unfolding handleServiceCertFPGenerate_def handleServiceCertFPFingerprints_def handleServiceSASLStatus_def handleServiceSASLSetPlain_def
    handleServiceSASLReset_def getNetworkFromFlag_def Let_def
  by (intro kept.svc_steps keeps_set_sasl)+

lemma frame_set_channel: "op_does frame plain (set_channel ref ch)"
  by (rule op_doesI) (simp add: set_channel_def frame_def map_network_def clients_def list_all2_refl client_frame_refl net_ident_def)

lemma frame_delete_channel: "cmd_does frame plain (delete_channel env ref name)"
  by (rule cmd_doesI)
    (auto simp: delete_channel_def frame_refl deleteChannel_plain deleteChannel_ident split: option.split prod.split intro: frame_put_network)

lemma up_stays_set_detached: "up_stays (set_detached b ch)"
  by (simp add: up_stays_def set_detached_def)

lemma keeps_store_or_fail: "keeps_svc k \<Longrightarrow> keeps_svc (store_or_fail env ref name failed k)"
  by (rule svc_doesI) (auto simp: store_or_fail_def svc_doesD split: option.split intro!: svc_doesD [where c = "fail _"] svc_doesD [where c = "op_then _ _"]
      kept.svc_steps keeps_intros)

lemma keeps_channel_handlers:
  "keeps_svc (handleServiceChannelCreate env ctx params)" "keeps_svc (handleServiceChannelUpdate env ctx params)"
  "keeps_svc (handleServiceChannelDelete env ctx params)"
proof -
  note ops = op_frame_keeps [OF frame_set_channel] op_frame_keeps [OF frame_on_network] cmd_frame_keeps [OF frame_delete_channel]
    up_stays_set_detached keeps_store_or_fail
  have e: "op_does keeps_user permitted (emit (if b then [] else [WUp ref a]))"
    "op_does keeps_user permitted (emit (case o' of None \<Rightarrow> [] | Some uc \<Rightarrow> if P uc then [WUp ref a] else []))" for b ref a o' P
    by (auto intro: keeps_emit split: option.split)
  have d: "op_does keeps_user permitted (case o' of None \<Rightarrow> nothing | Some b \<Rightarrow> if P b then f b else nothing)"
    if "\<And>b. op_does keeps_user permitted (f b)" for o' P f
    using that by (auto intro: keeps_emit split: option.split)
  show "keeps_svc (handleServiceChannelCreate env ctx params)"
    unfolding handleServiceChannelCreate_def by (intro kept.svc_steps ops e)
  show "keeps_svc (handleServiceChannelUpdate env ctx params)"
    unfolding handleServiceChannelUpdate_def by (intro kept.svc_steps ops d keeps_on_upstream up_stays_channels)
  show "keeps_svc (handleServiceChannelDelete env ctx params)"
    unfolding handleServiceChannelDelete_def by (intro kept.svc_steps ops e)
qed

lemma keeps_channel_status: "keeps_svc (handleServiceChannelStatus env ctx params)"
proof -
  have "keeps_svc (only_flags env formal params (\<lambda>fs w. let name = g fs w in if name = [] then channel_answer (a w) w
      else (case getNetwork (w_user w) name of None \<Rightarrow> fail (b name) w | Some n \<Rightarrow> channel_answer (c n) w)))" for formal g a b c
    by (rule kept.svc_only_flags, rule svc_doesI) (simp add: Let_def channel_answer_def answer_def fail_def split: option.split)
  then show ?thesis unfolding handleServiceChannelStatus_def by (rule svc_doesI [OF svc_doesD])
qed

lemma keeps_certificate_handlers:
  "keeps_svc (handleServiceDeviceCertificateStatus env ctx params)" "keeps_svc (handleServiceDeviceCertificateCreate env ctx params)"
  "keeps_svc (handleServiceDeviceCertificateDelete env ctx params)"
proof -
  show "keeps_svc (handleServiceDeviceCertificateStatus env ctx params)"
    by (rule svc_doesI) (simp add: handleServiceDeviceCertificateStatus_def fail_def answer_def Let_def split: option.split)
  show "keeps_svc (handleServiceDeviceCertificateCreate env ctx params)" "keeps_svc (handleServiceDeviceCertificateDelete env ctx params)"
    unfolding handleServiceDeviceCertificateCreate_def handleServiceDeviceCertificateDelete_def Let_def
    by (intro kept.svc_steps keeps_intros)+
qed

section \<open>Users\<close>

text \<open>What the handlers for users need of a contract: an administrator may do everything, a user may ask for the own end, and
  the change of the own record is one of the allowed steps.\<close>

definition user_handlers :: "service_handler list" where
  "user_handlers = [HServiceHelp, HUserStatus, HUserCreate, HUserUpdate, HUserDelete, HUserRun, HServiceServerStatus, HServiceServerNotice, HServiceServerDebug]"

context world_steps
begin

lemma did_emit_then: "list_all (A w) acts \<Longrightarrow> (\<And>w. did R A w (snd (snd (k w)))) \<Longrightarrow> did R A w (snd (snd (op_then (emit acts) k w)))"
  using did_then [of w "(acts, w)"] by (simp add: op_then_def emit_def Let_def case_prod_beta) (simp add: did_def R_refl)

lemma svc_user_update:
  assumes "sc_admin ctx \<Longrightarrow> (\<And>a. A w a)"
    and "\<And>fs. flag_int fs ''max-networks'' = None \<or> sc_admin ctx \<Longrightarrow> did R A w (snd (on_user env (own_update env fs) w))"
  shows "did R A w (snd (snd (handleUserUpdate env ctx params w)))"
proof -
  have other: "did R A w (snd (snd (update_other env ctx username fs w)))" for username fs
    using assms(1) by (auto simp: update_other_def Let_def fail_def answer_def split: sum.split option.split intro!: did_emit_then)
  have own: "did R A w (snd (snd (update_own env ctx fs w)))" for fs
  proof -
    have k: "did R A w' (snd (snd ((case res of Some e \<Rightarrow> (case o' of Inl s \<Rightarrow> fail s | Inr _ \<Rightarrow> net_failed env [] e) | None \<Rightarrow> answer out) w')))" for res o' out w'
      by (auto simp: fail_def answer_def net_failed_def split: option.split sum.split net_error.split)
    have "did R A w (snd (snd (user_then env (own_update env fs) (\<lambda>res. case res of Some e \<Rightarrow>
        (case own_record (we_server env) fs (u_record (w_user w)) of Inl s \<Rightarrow> fail s | Inr _ \<Rightarrow> net_failed env [] e)
        | None \<Rightarrow> answer [''updated user '' @ quoted env (user_Username (u_record (w_user w)))]) w)))"
      if "flag_int fs ''max-networks'' = None \<or> sc_admin ctx"
      using did_then [OF assms(2) [OF that] k] by (simp add: user_then_def cmd_then_def Let_def case_prod_beta)
    then show ?thesis by (auto simp: update_own_def Let_def fail_def)
  qed
  show ?thesis
    by (auto simp: handleUserUpdate_def only_flags_def with_flags_def fail_def other own split: prod.split sum.split flag_error.split)
qed

lemma svc_user_delete:
  assumes "sc_admin ctx \<Longrightarrow> (\<And>a. A w a)" and "\<And>name. sc_user ctx = Some name \<Longrightarrow> A w (WPost name PostStop)"
  shows "did R A w (snd (snd (handleUserDelete env ctx params w)))"
proof -
  have r: "did R A w (r, w)" if "list_all (A w) r" for r using that by (simp add: did_def R_refl)
  note defs = handleUserDelete_def print_first_def stop_self_def stop_other_def delete_stopped_def own_stop_blocked
    Let_def fail_def answer_def op_then_def emit_def
  have "snd (snd (handleUserDelete env ctx params w)) = (fst (snd (snd (handleUserDelete env ctx params w))), w)"
    by (auto simp: defs split: option.split)
  moreover have "list_all (A w) (fst (snd (snd (handleUserDelete env ctx params w))))"
    using assms by (auto simp: defs split: option.split)
  ultimately show ?thesis by (metis r)
qed

lemma svc_handlers:
  assumes "sc_admin ctx \<Longrightarrow> (\<And>a. A w a)" and "\<And>name. sc_user ctx = Some name \<Longrightarrow> A w (WPost name PostStop)"
    and "\<And>fs. flag_int fs ''max-networks'' = None \<or> sc_admin ctx \<Longrightarrow> did R A w (snd (on_user env (own_update env fs) w))"
    and "h \<in> set admin_handlers \<Longrightarrow> sc_admin ctx" and "h \<in> set user_handlers"
    and "\<And>ws. length ws < length params \<Longrightarrow> did R A w (snd (snd (command ctx ws w)))"
  shows "did R A w (snd (snd (handler_cmd env command h ctx params w)))"
proof -
  have e: "did R A w (acts, w)" if "sc_admin ctx" for acts using assms(1) [OF that] by (simp add: did_def R_refl list_all_iff)
  have "did R A w (snd (snd (handleUserRun env command ctx params w)))" if "sc_admin ctx"
    using e [OF that] assms(6) [of "tl params"]
    by (cases params) (auto simp: handleUserRun_def Let_def fail_def op_then_def emit_def case_prod_beta)
  moreover have "did R A w (snd (snd (show_users env rs n w)))" for rs n
    by (auto simp: show_users_def answer_def split: prod.split option.split)
  moreover have "did R A w (snd (snd (handleUserCreate env ctx params w)))" if "sc_admin ctx"
    using e [OF that]
    by (auto simp: handleUserCreate_def only_flags_def with_flags_def createUser_def fail_def answer_def op_then_def emit_def Let_def
        split: sum.split flag_error.split prod.split)
  moreover have "did R A w (snd (snd (help_cmd env ctx params w)))"
    by (auto simp: help_cmd_def fail_def answer_def split: prod.split option.split)
  ultimately show ?thesis
    using assms(4,5) svc_user_update [OF assms(1,3)] svc_user_delete [OF assms(1,2)] e
    by (auto simp: user_handlers_def admin_handlers_def handleUserStatus_def handleServiceServerStatus_def handleServiceServerNotice_def
        handleServiceServerDebug_def fail_def answer_def op_then_def emit_def Let_def split: option.split prod.split)
qed

lemma svc_command:
  assumes "sc_admin ctx \<Longrightarrow> (\<And>a. A w a)" and "\<And>name. sc_user ctx = Some name \<Longrightarrow> A w (WPost name PostStop)"
    and "\<And>fs. flag_int fs ''max-networks'' = None \<or> sc_admin ctx \<Longrightarrow> did R A w (snd (on_user env (own_update env fs) w))"
    and "\<And>h params. h \<notin> set user_handlers \<Longrightarrow> svc_does R A (handler_cmd env (service_command_run env) h ctx params)"
  shows "did R A w (snd (snd (handleServiceCommand (service_run env) ctx words ([], w))))"
proof (induction "length words" arbitrary: words rule: less_induct)
  case less
  obtain e out acts w' where r: "handleServiceCommand (service_run env) ctx words ([], w) = (e, out, acts, w')" by (metis prod_cases4)
  have runs: "did R A w (acts, w')" if "snd (snd (service_run env h ctx params ([], w))) = (acts, w')" "length params < length words"
      "h \<in> set admin_handlers \<longrightarrow> sc_admin ctx" for h params
  proof -
    have rec: "did R A w (snd (snd (service_command_run env ctx ws w)))" if "length ws < length words" for ws
      using less.hyps [OF that] by (simp add: service_command_run_unfold command_result_def case_prod_beta)
    have "did R A w (snd (snd (handler_cmd env (service_command_run env) h ctx params w)))"
    proof (cases "h \<in> set user_handlers")
      case True
      then show ?thesis using that(2,3) rec by (intro svc_handlers assms(1-3)) auto
    next
      case False
      then show ?thesis by (rule assms(4) [THEN svc_doesD])
    qed
    with that(1) show ?thesis by (simp add: service_run_def run_with_def case_prod_beta)
  qed
  show ?case
    unfolding r snd_conv using handleServiceCommand_runs [OF r] runs did_nothing [of w] by (elim disjE exE conjE) (simp, blast)
qed

lemma svc_line:
  assumes "\<And>words. did R A w (snd (snd (handleServiceCommand run ctx words ([], w))))"
  shows "did R A w (snd (snd (handleServicePRIVMSG run ctx line ([], w))))"
  using assms by (simp add: handleServicePRIVMSG_def split: sum.split)

end

section \<open>Commands of a user\<close>

definition ctx_fits :: "service_context \<Rightarrow> user_world \<Rightarrow> bool" where
  "ctx_fits ctx w \<longleftrightarrow> sc_user ctx = Some (user_Username (u_record (w_user w))) \<and> sc_admin ctx = user_Admin (u_record (w_user w))"

lemma keeps_handlers:
  assumes "fresh_db env" and "h \<notin> set user_handlers"
  shows "keeps_svc (handler_cmd env command h ctx params)"
  using assms(2) keeps_network_handlers [OF assms(1)] keeps_sasl_handlers keeps_channel_handlers keeps_channel_status keeps_certificate_handlers
  by (cases h) (simp_all add: user_handlers_def)

lemma own_record_rights:
  assumes "own_record sv fs r = Inr r'" and "flag_int fs ''max-networks'' = None \<or> user_Admin r"
  shows "same_rights r r'"
  using assms by (auto simp: own_record_def sum_bind_def SetPassword_def same_rights_def Let_def map_sum_def split: sum.splits option.splits if_splits)

lemma keeps_service_command:
  assumes "fresh_db env" and "ctx_fits ctx w"
  shows "did keeps_user permitted w (snd (snd (handleServiceCommand (service_run env) ctx words ([], w))))"
proof (rule kept.svc_command)
  show "permitted w a" if "sc_admin ctx" for a using that assms(2) by (simp add: permitted_def ctx_fits_def)
  show "permitted w (WPost name PostStop)" if "sc_user ctx = Some name" for name using that assms(2) by (simp add: permitted_def ctx_fits_def)
  show "did keeps_user permitted w (snd (on_user env (own_update env fs) w))" if "flag_int fs ''max-networks'' = None \<or> sc_admin ctx" for fs
    unfolding own_update_def using own_record_rights that assms(2)
    by (intro on_user_updateUser) (auto simp: ctx_fits_def split: sum.splits)
qed (rule keeps_handlers [OF assms(1)])

end
