(* ===== verification/Command_Invariant.thy ===== *)
theory Command_Invariant
  imports Service_Invariant
begin

text \<open>
  Every command of a client keeps the invariant of the user.
\<close>

section \<open>Nick, real name and channels\<close>

lemma keeps_PING: "keeps_cmd (cmd_PING env dc msg)"
  unfolding cmd_PING_def Let_def by (auto intro!: keeps_ops)

lemma handlePong_idents: "map net_ident (handlePong B c t ns) = map net_ident ns"
  by (auto simp: handlePong_def ackMsgID_def net_ident_def split: sum.split option.split)

lemma keeps_PONG: "keeps_cmd (cmd_PONG env dc msg)"
proof (rule cmd_frame_keeps, rule cmd_doesI)
  fix w
  have "frame w (w\<lparr>w_user := (w_user w)\<lparr>u_networks := handlePong B c t (u_networks (w_user w))\<rparr>\<rparr>)" for B c t
    by (simp add: frame_def handlePong_idents clients_def list_all2_refl client_frame_refl)
  then show "did frame plain w (snd (cmd_PONG env dc msg w))" by (simp add: cmd_PONG_def reject_def frame_refl)
qed

lemma keeps_update_bouncer:
  "op_does keeps_user permitted (update_bouncer_nicks env)" "op_does keeps_user permitted (update_bouncer_realnames env)"
  unfolding update_bouncer_nicks_def update_bouncer_realnames_def
  by (rule op_doesI, rule op_doesD, rule keeps_do_ops, auto simp: list_all_iff intro!: keeps_ops)+

lemma keeps_NICK: "keeps_cmd (cmd_NICK env dc msg)"
  unfolding cmd_NICK_def Let_def
  by (rule kept.cmd_with_params, rule keeps_cmdI; intro keeps_splits; rule keeps_cmdD;
      intro keeps_intros keeps_update_bouncer keeps_set_network_record; simp add: same_rights_def)

lemma keeps_SETNAME: "keeps_cmd (cmd_SETNAME env dc msg)"
  unfolding cmd_SETNAME_def Let_def
  by (rule kept.cmd_with_params, rule keeps_cmdI; intro keeps_splits; rule keeps_cmdD; intro keeps_intros keeps_update_bouncer; simp add: same_rights_def)

lemma keeps_join_one: "keeps_cmd (join_one env dc ref uc nk)"
  unfolding join_one_def Let_def by (intro keeps_intros)

lemma keeps_drop_label_if: "keeps_cmd (drop_label_if_several i names)"
  unfolding drop_label_if_several_def by (intro keeps_intros)

lemma keeps_JOIN: "keeps_cmd (cmd_JOIN env dc msg)"
  unfolding cmd_JOIN_def Let_def by (intro keeps_intros keeps_join_one keeps_drop_label_if)

lemma keeps_PART: "keeps_cmd (cmd_PART env dc msg)"
  unfolding cmd_PART_def part_one_def Let_def by (intro keeps_intros keeps_drop_label_if)

lemma keeps_pass_on: "keeps_cmd (pass_on dc msg)"
  unfolding pass_on_def by (intro keeps_intros)

lemma keeps_MODE: "keeps_cmd (cmd_MODE env dc msg)"
  unfolding cmd_MODE_def Let_def
  by (rule kept.cmd_with_params, rule keeps_cmdI; intro keeps_splits; rule keeps_cmdD; intro keeps_intros keeps_pass_on)

lemma keeps_channel_queries:
  "keeps_cmd (cmd_TOPIC env dc msg)" "keeps_cmd (cmd_LIST env dc msg)" "keeps_cmd (cmd_NAMES env dc msg)"
  unfolding cmd_TOPIC_def cmd_LIST_def cmd_NAMES_def names_one_def Let_def by (intro keeps_intros keeps_drop_label_if)+

lemma keeps_who_replies: "keeps_cmd (who_replies env i flds infos)"
proof (induction infos)
  case (Cons x infos)
  then show ?case by (cases x) (simp_all del: do_cmds.simps add: keeps_ops)
qed (auto intro: keeps_intros)

lemma keeps_WHO: "keeps_cmd (cmd_WHO env dc msg)"
  unfolding cmd_WHO_def Let_def case_prod_beta
  by (rule keeps_cmdI; intro keeps_splits; rule keeps_cmdD; intro keeps_intros keeps_who_replies)

lemma keeps_WHOIS: "keeps_cmd (cmd_WHOIS env dc msg)"
  unfolding cmd_WHOIS_def Let_def by (rule keeps_cmdI; intro keeps_splits; rule keeps_cmdD; intro keeps_intros)

section \<open>Messages\<close>

lemma keeps_sendServicePRIVMSG: "op_does keeps_user permitted (sendServicePRIVMSG env i s)"
  unfolding sendServicePRIVMSG_def by (rule keeps_on_client) (rule tame_by_state, rule tame_SendMessage)

lemma keeps_print_lines: "op_does keeps_user permitted (print_lines env i out)"
  unfolding print_lines_def by (rule keeps_do_ops, rule list_all_intros) (rule keeps_sendServicePRIVMSG)

lemma keeps_service_message:
  assumes "fresh_db env"
  shows "keeps_cmd (service_message env dc line)"
proof (rule keeps_cmdI)
  fix w :: user_world
  obtain e out acts w1 where h: "handleServicePRIVMSG (service_run env) (service_context_of dc w) line ([], w) = (e, out, acts, w1)"
    by (metis prod_cases4)
  have "ctx_fits (service_context_of dc w) w" by (simp add: ctx_fits_def service_context_of_def)
  then have "did keeps_user permitted w (acts, w1)"
    using kept.svc_line [OF keeps_service_command [OF assms], of "service_context_of dc w" w line] by (simp add: h)
  from kept.did_then [OF this, of "print_lines env (dc_id dc) ls w1" for ls] op_doesD [OF keeps_print_lines]
  show "kept_by w (service_message env dc line w)" by (simp add: service_message_def h Let_def case_prod_beta)
qed

lemma keeps_text_upstream: "keeps_cmd (text_upstream env dc cmd line name params tags shared n uc)"
  unfolding text_upstream_def Let_def by (rule keeps_cmdI; rule keeps_cmdD; intro keeps_intros)

lemma kept_after: "did keeps_user permitted w (acts, w') \<Longrightarrow> did keeps_user permitted w' res \<Longrightarrow> did keeps_user permitted w (acts @ fst res, snd res)"
  using kept.did_trans [of w acts w' "fst res" "snd res"] by simp

lemma keeps_fst_if:
  "(b \<Longrightarrow> kept_by w (fst x)) \<Longrightarrow> (\<not> b \<Longrightarrow> kept_by w (fst y)) \<Longrightarrow> kept_by w (fst (if b then x else y))"
  by simp

lemma keeps_text_one:
  assumes "fresh_db env"
  shows "kept_by w (fst (text_one env dc msg line name tags w))"
  unfolding text_one_def Let_def
  by (intro keeps_fst_if; unfold fst_conv;
      ((rule keeps_cmdD, intro keeps_intros keeps_service_message [OF assms] keeps_text_upstream) | simp add: did_kept permitted_def))

lemma keeps_text_loop:
  assumes "fresh_db env"
  shows "kept_by w (text_loop env dc msg line names tags w)"
proof (induction names arbitrary: tags w)
  case (Cons name names)
  obtain e acts w1 tags1 where 1: "text_one env (current_client w dc) msg line name tags w = ((e, acts, w1), tags1)" by (metis surj_pair)
  have "did keeps_user permitted w (acts, w1)" using keeps_text_one [OF assms, of w "current_client w dc" msg line name tags] by (simp add: 1)
  with Cons.IH [of w1 tags1] show ?case by (auto simp: 1 case_prod_beta split: option.split intro!: kept_after)
qed simp

lemma keeps_text: "fresh_db env \<Longrightarrow> keeps_cmd (cmd_text env dc msg)"
  unfolding cmd_text_def Let_def by (intro keeps_intros keeps_drop_label_if keeps_cmdI keeps_text_loop)

section \<open>Authentication, away, monitoring\<close>

lemma keeps_end_sasl: "op_does keeps_user permitted (end_sasl env i msg)"
  unfolding end_sasl_def by (intro keeps_ops)

lemma keeps_after: "did keeps_user permitted w (acts, w') \<Longrightarrow> keeps_cmd c \<Longrightarrow> kept_by w (case c w' of (e, acts', w) \<Rightarrow> (e, acts @ acts', w))"
  using kept_after keeps_cmdD [of c w'] by (simp add: case_prod_beta)

lemma keeps_sasl_anonymous: "keeps_cmd (sasl_anonymous env dc n)"
proof (rule keeps_cmdI)
  fix w
  obtain res acts w1 where u: "on_user env (\<lambda>e. updateNetwork e (clear_sasl (n_record n)) False) w = (res, acts, w1)" by (metis prod_cases3)
  have "did keeps_user permitted w (acts, w1)" using keeps_cmdD [OF on_user_steps(1), of w env "clear_sasl (n_record n)" False] by (simp add: u)
  then show "kept_by w (sasl_anonymous env dc n w)"
    unfolding sasl_anonymous_def u
    by (auto split: sum.split net_error.split intro!: keeps_after keeps_cmdD [OF cmd_run_op] cmd_run_op keeps_end_sasl)
qed

lemma keeps_put_conn_then:
  "network_by_ref (w_user w) ref = Some n \<Longrightarrow> keeps_cmd c \<Longrightarrow> kept_by w (c (put_conn n uc w))"
  using kept_after [of w "[]" "put_conn n uc w"] keeps_cmdD [of c "put_conn n uc w"] frame_keeps [OF frame_put_conn] by (simp add: did_kept)

lemma keeps_start_sasl: "keeps_cmd (start_sasl env dc n sasl)"
  unfolding start_sasl_def Let_def
  by (rule keeps_cmdI; intro keeps_splits;
      ((rule keeps_cmdD, (intro keeps_intros keeps_end_sasl keeps_sasl_anonymous; fail))
        | (rule keeps_put_conn_then, assumption, rule keeps_client_ops)))

lemma tame_authenticate:
  "tame_at st (snd (snd (case handleAuthenticate d auth msg st of (e, out, c, st) \<Rightarrow> ((e, c), out, st))))"
  using tame_handleAuthenticate by (auto split: prod.split)

lemma keeps_AUTHENTICATE: "keeps_cmd (cmd_AUTHENTICATE env dc msg)"
proof (rule keeps_cmdI)
  fix w
  define r where "r = on_client_result env (dc_id dc)
    (\<lambda>d st. case handleAuthenticate d (we_auth env) msg st of (e, out, c, st) \<Rightarrow> ((e, c), out, st)) (None, None) w"
  obtain e c acts w1 where r1: "r = ((e, c), acts, w1)" by (metis prod_cases3 surj_pair)
  have "keeps_cmd (on_client_result env (dc_id dc)
      (\<lambda>d st. case handleAuthenticate d (we_auth env) msg st of (e, out, c, st) \<Rightarrow> ((e, c), out, st)) (None, None))"
    by (intro cmd_frame_keeps frame_on_client_result tame_authenticate)
  from keeps_cmdD [OF this, of w] have "did keeps_user permitted w (acts, w1)" by (simp add: r1 flip: r_def)
  then have step: "kept_by w (case r of ((Some e, _), acts, w) \<Rightarrow> (Some e, acts, w) | ((None, None), acts, w) \<Rightarrow> (None, acts, w)
      | ((None, Some sasl), acts, w) \<Rightarrow> (case start_sasl env dc n sasl w of (e, acts', w) \<Rightarrow> (e, acts @ acts', w)))" for n
    unfolding r1 by (auto split: option.split intro: keeps_after keeps_start_sasl)
  show "kept_by w (cmd_AUTHENTICATE env dc msg w)"
    unfolding cmd_AUTHENTICATE_def Let_def r_def [symmetric]
    by (intro keeps_splits(1,2); (rule step | (rule keeps_cmdD, rule kept.cmd_reject)))
qed

lemma keeps_REGISTER: "keeps_cmd (cmd_REGISTER env dc msg)"
  unfolding cmd_REGISTER_def Let_def by (rule keeps_cmdI; intro keeps_splits; rule keeps_cmdD; intro keeps_intros)

lemma keeps_update_client: "(\<And>dc. client_rel dc (f dc)) \<Longrightarrow> op_does keeps_user permitted (update_client env i f)"
  by (rule op_frame_keeps) (rule frame_update_client)

lemma client_rel_clear: "client_rel dc (dc\<lparr>dc_monitored := NewCaseMappingMap cm\<rparr>)"
  by (simp add: client_rel_def client_ok_def monitor_Len)

lemma keeps_AWAY: "keeps_cmd (cmd_AWAY env dc msg)"
  unfolding cmd_AWAY_def Let_def
  by (rule keeps_cmdI; rule keeps_cmdD; intro keeps_intros keeps_update_client client_rel_fields)

lemma keeps_INFO: "keeps_cmd (cmd_INFO env dc msg)"
  unfolding cmd_INFO_def by (rule keeps_cmdI; intro keeps_splits; rule keeps_cmdD; intro keeps_intros)

lemma keeps_MONITOR: "keeps_cmd (cmd_MONITOR env dc msg)"
  unfolding cmd_MONITOR_def Let_def
  by (rule keeps_cmdI; intro keeps_splits; rule keeps_cmdD; intro keeps_intros keeps_update_client client_rel_clear)

section \<open>Metadata\<close>

lemma keeps_set_one: "kept_by w (set_one env dc target ref kv mt w)"
proof -
  have say: "did keeps_user permitted w (say env i m w)" for i m by (rule op_doesD [OF keeps_client_ops(1)])
  have "op_does keeps_user permitted (do_ops (say env i m # map (\<lambda>c. say env (dc_id c) m') cs))" for i m m' cs
    by (intro keeps_do_ops list_all_intros keeps_client_ops)
  from op_doesD [OF this] say show ?thesis
    by (auto simp: set_one_def Let_def case_prod_beta simp del: do_ops.simps split: option.split)
qed

lemma keeps_setMessageTargetMetadata: "kept_by w (setMessageTargetMetadata env dc target ref kvs mt w)"
proof (induction kvs arbitrary: mt w)
  case (Cons kv kvs)
  obtain mt1 acts w1 where 1: "set_one env dc target ref kv mt w = (mt1, acts, w1)" by (metis prod_cases3)
  have "did keeps_user permitted w (acts, w1)" using keeps_set_one [of w env dc target ref kv mt] by (simp add: 1)
  with Cons.IH [of w1 mt1] show ?case by (auto simp: 1 case_prod_beta intro!: kept_after)
qed simp

lemma keeps_store_target: "keeps_cmd (store_target env net target mt)"
  unfolding store_target_def by (auto split: option.split intro!: keeps_intros)

lemma keeps_batches: "keeps_cmd (open_batch env i typ)" "op_does keeps_user permitted (close_batch env i ref)" "keeps_cmd (send_batch env i typ params f)"
proof -
  have "tame_at st (snd (if b then down_send d m (st\<lparr>dn_dc := (dn_dc st)\<lparr>dc_lastBatchRef := r\<rparr>\<rparr>) else ([], st\<lparr>dn_dc := (dn_dc st)\<lparr>dc_lastBatchRef := r\<rparr>\<rparr>)))"
    for st d m r b by (simp add: tame_changes client_rel_batchRef)
  then show "keeps_cmd (open_batch env i typ)"
    unfolding open_batch_def by (intro cmd_frame_keeps frame_on_client_result) (simp add: Let_def case_prod_beta)
  show "op_does keeps_user permitted (close_batch env i ref)"
    unfolding close_batch_def by (rule keeps_on_client, rule tame_if) (auto intro: tame_ops)
  show "keeps_cmd (send_batch env i typ params f)" unfolding send_batch_def by (intro keeps_intros)
qed

lemma keeps_metadata_writes: "keeps_cmd (metadata_SET env dc msg net target mt)" "keeps_cmd (metadata_CLEAR env dc net target mt)"
proof -
  show "keeps_cmd (metadata_SET env dc msg net target mt)"
    unfolding metadata_SET_def Let_def
    by (rule kept.cmd_with_params, rule kept.cmd_bind [where d = "\<lambda>mt. store_target env net target mt"])
      (rule keeps_cmdI, rule keeps_setMessageTargetMetadata, rule keeps_store_target)
  have c: "keeps_cmd (\<lambda>w. case close_batch env (dc_id dc) ref w of (acts3, w) \<Rightarrow>
      (case store_target env net target mt w of (e, acts4, w) \<Rightarrow> (e, acts3 @ acts4, w)))" for ref mt
    using kept.cmd_bind [OF cmd_run_op [OF keeps_batches(2) [of env "dc_id dc" ref]] keeps_store_target [of env net target mt]]
    by (simp add: run_op_def case_prod_beta)
  have s: "keeps_cmd (setMessageTargetMetadata env dc target ref kvs mt)" for ref kvs mt
    by (rule keeps_cmdI) (rule keeps_setMessageTargetMetadata)
  show "keeps_cmd (metadata_CLEAR env dc net target mt)"
    using kept.cmd_bind [OF keeps_batches(1) kept.cmd_bind [OF s c]]
    by (rule cmd_does_result) (simp add: metadata_CLEAR_def case_prod_beta)
qed

lemma keeps_METADATA: "keeps_cmd (cmd_METADATA env dc msg)"
proof -
  have sub: "keeps_cmd (on_client_result env i (\<lambda>d st. case handleMetadataSub d msg st of Some r \<Rightarrow> r | None \<Rightarrow> (None, [], st)) None)" for i
    by (intro cmd_frame_keeps frame_on_client_result) (auto simp: tame_handleMetadataSub split: option.split)
  show ?thesis
    unfolding cmd_METADATA_def Let_def
    by (rule kept.cmd_with_params, rule keeps_cmdI; intro keeps_splits(1,2); rule keeps_cmdD;
        intro keeps_intros sub keeps_batches keeps_metadata_writes)
qed

section \<open>History, markers and search\<close>

lemma keeps_errors:
  "keeps_cmd (history_error ps)" "keeps_cmd (marker_error cmd ps)" "keeps_cmd (cert_error ps)" "keeps_cmd (bouncer_error ps)" "keeps_cmd (push_error ps)"
  "keeps_cmd (attrs_failed sub e)"
  by (auto simp: history_error_def marker_error_def cert_error_def bouncer_error_def push_error_def attrs_failed_def intro: keeps_ops split: attrs_error.split)

lemma keeps_checked_history: "keeps_cmd (checked_history env dc n sub target s0 s1 limitStr)"
  unfolding checked_history_def reply_history_def Let_def by (intro keeps_intros keeps_errors keeps_batches)

lemma keeps_history_request: "keeps_cmd (history_request env dc sub target s0 s1 limitStr)"
  unfolding history_request_def
  by (rule keeps_cmdI; intro keeps_splits; rule keeps_cmdD; intro keeps_intros keeps_errors keeps_batches keeps_checked_history)

lemma keeps_CHATHISTORY: "keeps_cmd (cmd_CHATHISTORY env dc msg)"
  unfolding cmd_CHATHISTORY_def Let_def
  by (rule kept.cmd_with_params, rule keeps_cmdI; intro keeps_splits; rule keeps_cmdD;
      intro keeps_intros keeps_errors keeps_batches keeps_history_request)

lemma keeps_announce_marker: "op_does keeps_user permitted (announce_marker env dc b target ts)"
  unfolding announce_marker_def
  by (rule op_doesI, rule op_doesD, intro keeps_do_ops list_all_intros keeps_on_client, rule tame_by_state, rule tame_SendMessage)

lemma keeps_read_push: "op_does keeps_user permitted (read_push ref target t ts)"
proof (rule op_frame_keeps, rule op_doesI)
  fix w
  have "frame w (put_network ref (n\<lparr>n_pushTargets := p\<rparr>) w)" if "network_by_ref (w_user w) ref = Some n" for n p
    using that by (rule frame_put_network) (simp add: net_ident_def)
  then show "did frame plain w (read_push ref target t ts w)" by (simp add: read_push_def frame_refl split: option.split)
qed

lemma keeps_mark_read: "keeps_cmd (mark_read env dc cmd n target old new)"
  unfolding mark_read_def Let_def
  by (rule keeps_cmdI; intro keeps_splits; rule keeps_cmdD; intro keeps_intros keeps_errors keeps_announce_marker keeps_read_push)

lemma keeps_criteria_case:
  "kept_by w a \<Longrightarrow> kept_by w b \<Longrightarrow> kept_by w c \<Longrightarrow> (\<And>t. kept_by w (f t))
    \<Longrightarrow> kept_by w (case x of NoCriteria \<Rightarrow> a | UnknownCriteria \<Rightarrow> b | InvalidCriteria \<Rightarrow> c | Timestamp t \<Rightarrow> f t)"
  by (cases x) simp_all

lemma keeps_MARKREAD: "keeps_cmd (cmd_MARKREAD env dc msg)"
  unfolding cmd_MARKREAD_def Let_def
  by (rule keeps_cmdI; intro keeps_splits keeps_criteria_case; rule keeps_cmdD; intro keeps_intros keeps_errors keeps_mark_read)

lemma keeps_SEARCH: "keeps_cmd (cmd_SEARCH env dc msg)"
  unfolding cmd_SEARCH_def case_prod_beta
  by (rule keeps_cmdI; intro keeps_splits; rule keeps_cmdD; intro keeps_intros keeps_batches)

section \<open>Certificates, networks and push notifications\<close>

lemma keeps_CLIENTCERT: "keeps_cmd (cmd_CLIENTCERT env dc msg)"
  unfolding cmd_CLIENTCERT_def cert_DELETE_def delete_cert_def Let_def
  by (intro keeps_intros keeps_errors keeps_batches)

lemma keeps_WEBPUSH: "keeps_cmd (cmd_WEBPUSH env dc msg)"
proof -
  have "keeps_cmd (push_REGISTER env dc sub endpoint keys)" for sub endpoint keys
    unfolding push_REGISTER_def Let_def
    by (rule keeps_cmdI; intro keeps_splits; rule keeps_cmdD; intro keeps_intros keeps_errors)
  moreover have "keeps_cmd (push_UNREGISTER env dc sub endpoint)" for sub endpoint
    unfolding push_UNREGISTER_def Let_def
    by (rule keeps_cmdI; intro keeps_splits; rule keeps_cmdD; intro keeps_intros keeps_errors)
  ultimately show ?thesis unfolding cmd_WEBPUSH_def Let_def by (intro keeps_intros keeps_errors)
qed

lemma keeps_other: "keeps_cmd (cmd_other env dc msg)"
  unfolding cmd_other_def by (rule keeps_cmdI; intro keeps_splits; rule keeps_cmdD; intro keeps_intros)

lemma keeps_after_say: "did keeps_user permitted w (acts, w') \<Longrightarrow> kept_by w (case run_op (say env i m) w' of (e, acts', w) \<Rightarrow> (e, acts @ acts', w))"
  by (erule keeps_after) (intro keeps_ops)

lemmas keeps_net_splits = sum.split net_error.split

lemma keeps_ADDNETWORK:
  assumes "fresh_db env"
  shows "kept_by w (bouncer_ADDNETWORK env dc sub attrs w)"
proof -
  have "kept_by w (bouncer_ADDNETWORK env dc sub attrs w)"
    if "updateNetworkAttrs (we_unicode env) ((NewNetwork [])\<lparr>net_Nick := dc_nick dc\<rparr>) (we_parseTags env attrs) = Inr r" for r
  proof -
    let ?r = "strip_defaults (u_record (w_user w)) r"
    obtain res acts w1 where c: "on_user env (\<lambda>e. createNetwork e ?r True) w = (res, acts, w1)" by (metis prod_cases3)
    have "did keeps_user permitted w (acts, w1)" using keeps_cmdD [OF keeps_create [OF assms], of w ?r True] by (simp add: c)
    then show ?thesis
      unfolding bouncer_ADDNETWORK_def that sum.case c
      by (auto split: keeps_net_splits intro!: keeps_after_say)
  qed
  then show ?thesis
    using keeps_cmdD [OF keeps_errors(6)]
    by (cases "updateNetworkAttrs (we_unicode env) ((NewNetwork [])\<lparr>net_Nick := dc_nick dc\<rparr>) (we_parseTags env attrs)")
      (simp_all add: bouncer_ADDNETWORK_def)
qed

lemma keeps_CHANGENETWORK: "keeps_cmd (bouncer_CHANGENETWORK env dc sub idStr attrs)"
proof (rule keeps_cmdI)
  fix w
  have "kept_by w (bouncer_CHANGENETWORK env dc sub idStr attrs w)"
    if "parseBouncerNetID sub idStr = Inr i" "getNetworkByID (w_user w) i = Some n" "updateNetworkAttrs (we_unicode env) (n_record n) (we_parseTags env attrs) = Inr r"
    for i n r
  proof -
    let ?f = "\<lambda>e. updateNetwork e (strip_defaults (u_record (w_user w)) r) (\<not> net_Enabled (n_record n))"
    obtain res acts w1 where c: "on_user env ?f w = (res, acts, w1)" by (metis prod_cases3)
    have "did keeps_user permitted w (acts, w1)"
      using keeps_cmdD [OF on_user_steps(1), of w env "strip_defaults (u_record (w_user w)) r" "\<not> net_Enabled (n_record n)"] by (simp add: c)
    then show ?thesis
      unfolding bouncer_CHANGENETWORK_def that sum.case option.case c by (auto split: keeps_net_splits intro!: keeps_after_say)
  qed
  then show "kept_by w (bouncer_CHANGENETWORK env dc sub idStr attrs w)"
    using keeps_cmdD [OF keeps_errors(4), of w] keeps_cmdD [OF keeps_errors(6), of w] keeps_cmdD [OF kept.cmd_reject, of w]
    unfolding bouncer_CHANGENETWORK_def by (simp split: sum.split option.split)
qed

lemma keeps_DELNETWORK: "keeps_cmd (bouncer_DELNETWORK env dc sub idStr)"
proof (rule keeps_cmdI)
  fix w
  have "kept_by w (bouncer_DELNETWORK env dc sub idStr w)"
    if "parseBouncerNetID sub idStr = Inr i" "getNetworkByID (w_user w) i = Some n" for i n
  proof -
    obtain res acts w1 where c: "on_user env (\<lambda>e. deleteNetwork e (nid n)) w = (res, acts, w1)" by (metis prod_cases3)
    have "did keeps_user permitted w (acts, w1)" using keeps_cmdD [OF on_user_steps(2), of w env "nid n"] by (simp add: c)
    then show ?thesis
      unfolding bouncer_DELNETWORK_def that sum.case option.case c by (auto split: keeps_net_splits intro!: keeps_after_say)
  qed
  then show "kept_by w (bouncer_DELNETWORK env dc sub idStr w)"
    using keeps_cmdD [OF keeps_errors(4), of w] keeps_cmdD [OF kept.cmd_reject, of w]
    unfolding bouncer_DELNETWORK_def by (simp split: sum.split option.split)
qed

lemma keeps_BOUNCER:
  assumes "fresh_db env"
  shows "kept_by w (cmd_BOUNCER env dc msg w)"
proof -
  have list: "keeps_cmd (list_networks env i)" for i
    unfolding list_networks_def by (rule keeps_cmdI, rule keeps_cmdD, rule keeps_batches)
  have "kept_by w (with_params 2 msg (\<lambda>ps. bouncer_ADDNETWORK env dc sub (ps ! 1)) w)" for sub
    using keeps_ADDNETWORK [OF assms] keeps_cmdD [OF kept.cmd_reject] by (simp add: with_params_def split: sum.split)
  moreover have "keeps_cmd (with_params 3 msg (\<lambda>ps. bouncer_CHANGENETWORK env dc sub (ps ! 1) (ps ! 2)))"
    "keeps_cmd (with_params 2 msg (\<lambda>ps. bouncer_DELNETWORK env dc sub (ps ! 1)))" for sub
    by (intro kept.cmd_with_params keeps_CHANGENETWORK keeps_DELNETWORK)+
  ultimately show ?thesis
    unfolding cmd_BOUNCER_def with_params_def [of 1] Let_def
    using keeps_cmdD [OF kept.cmd_reject, of w] keeps_cmdD [OF keeps_errors(4), of w] keeps_cmdD [OF list, of w]
    by (simp add: keeps_cmdD split: sum.split)
qed

section \<open>Dispatch\<close>

lemma keeps_CAP: "keeps_cmd (on_client_result env i (\<lambda>d. handleCap d msg) None)"
  by (intro cmd_frame_keeps frame_on_client_result tame_handleCap)

lemmas keeps_commands = keeps_CAP keeps_PING keeps_PONG keeps_NICK keeps_SETNAME keeps_JOIN keeps_PART keeps_pass_on keeps_MODE
  keeps_channel_queries keeps_WHO keeps_WHOIS keeps_text keeps_AUTHENTICATE keeps_REGISTER keeps_AWAY keeps_INFO keeps_MONITOR keeps_METADATA
  keeps_CHATHISTORY keeps_MARKREAD keeps_SEARCH keeps_CLIENTCERT keeps_WEBPUSH kept.cmd_reject

lemma keeps_handleMessageRegistered:
  assumes "fresh_db env"
  shows "kept_by w (handleMessageRegistered env dc msg w)"
proof (cases "map_of client_commands (Command msg)")
  case None
  then show ?thesis using keeps_cmdD [OF keeps_other] by (simp add: handleMessageRegistered_def)
next
  case (Some cmd)
  from map_of_SomeD [OF this] have "cmd = cmd_BOUNCER \<or> keeps_cmd (cmd env dc msg)"
    using keeps_commands assms unfolding client_commands_def by auto
  with Some show ?thesis
    using keeps_BOUNCER [OF assms, of w dc msg] by (auto simp: handleMessageRegistered_def keeps_cmdD)
qed

section \<open>Messages of clients\<close>

lemma keeps_client_isupport: "op_does keeps_user permitted (client_isupport env i)"
proof -
  have "tame (\<lambda>st. let m = buildIsupport d (dc_caps (dn_dc st)); (out, st) = sendIsupport d m st in (out, dn_upd (\<lambda>dc. dc\<lparr>dc_isupport := m\<rparr>) st))" for d
    by (rule tameI) (simp add: Let_def case_prod_beta dn_upd_def tame_at_trans [OF tameD [OF tame_messages(8)] tame_change] client_rel_fields)
  then show ?thesis unfolding client_isupport_def by (rule keeps_on_client)
qed

lemma kept_same_user: "w_user w' = w_user w \<Longrightarrow> did keeps_user permitted w ([], w')"
  by (simp add: did_kept keeps_user_def user_ok_def)

lemma keeps_client_command:
  assumes "fresh_db env"
  shows "kept_by w (client_command env dc msg w)"
proof -
  obtain e acts w1 where 1: "handleMessageRegistered env dc msg w = (e, acts, w1)" by (metis prod_cases3)
  have "did keeps_user permitted w (acts, w1)" using keeps_handleMessageRegistered [OF assms, of w dc msg] by (simp add: 1)
  then have "kept_by w (case (e, acts, w1) of (Some (IrcError m), acts, w) \<Rightarrow>
      (case run_op (say env (dc_id dc) (m\<lparr>Prefix := Some (d_srvPrefix (we_down env))\<rparr>)) w of (e, acts', w) \<Rightarrow> (e, acts @ acts', w)) | res \<Rightarrow> res)"
    by (auto split: option.split down_error.split intro!: keeps_after_say)
  then show ?thesis
    unfolding client_command_def Let_def 1
    using keeps_cmdD [OF cmd_run_op [OF keeps_client_isupport], of w env "dc_id dc"] by (simp add: kept_same_user)
qed

text \<open>The label of a command is not part of what the invariant is about.\<close>

lemma keeps_flush_label: "op_does keeps_user permitted (flush_label env i)"
proof (rule op_doesI)
  fix w
  have "keeps_user w (put_client i (st\<lparr>dn_label := None\<rparr>) w)" if "client i w = Some dc" "st = down_state_of w dc" for dc st
  proof (rule kept.R_trans)
    show "keeps_user w (put_client i st w)" unfolding that(2) by (rule frame_keeps, rule frame_put_client [OF that(1)], rule tame_at_refl)
    have "w_user (put_client i (st\<lparr>dn_label := None\<rparr>) w) = w_user (put_client i st w)" by (simp add: put_client_def cong: if_cong)
    then show "keeps_user (put_client i st w) (put_client i (st\<lparr>dn_label := None\<rparr>) w)" by (simp add: keeps_user_def user_ok_def)
  qed
  then show "did keeps_user permitted w (flush_label env i w)"
    by (simp add: flush_label_def on_client_def Let_def did_kept plain_all_permitted split: option.split)
qed

lemma keeps_client_handleMessage:
  assumes "fresh_db env"
  shows "kept_by w (client_handleMessage env i msg w)"
proof (cases "client i w")
  case None
  then show ?thesis using keeps_cmdD [OF cmd_run_op [OF keeps_emit [of "[]"]]] by (simp add: client_handleMessage_def)
next
  case (Some dc)
  let ?w = "set_label i (dn_label (fresh_label msg (down_state_of w dc))) w"
  obtain e acts w1 where 1: "client_command env dc msg ?w = (e, acts, w1)" by (metis prod_cases3)
  have "did keeps_user permitted ?w (acts, w1)" using keeps_client_command [OF assms, of ?w dc msg] by (simp add: 1)
  then have k: "did keeps_user permitted w (acts, w1)"
    using kept_after [OF kept_same_user, of ?w w "(acts, w1)"] by simp
  from kept_after [OF k op_doesD [OF keeps_flush_label]] kept_after [OF k kept_same_user, of "set_label i None w1"]
  show ?thesis by (simp add: client_handleMessage_def Some 1 Let_def case_prod_beta split: option.split)
qed

end
