(* ===== verification/Loop_Invariant.thy ===== *)
theory Loop_Invariant
  imports Command_Invariant
begin

text \<open>
  Every event of a user keeps the invariant, and so does every sequence of events.
\<close>

section \<open>The contract of events\<close>

text \<open>Events need not leave the rights of the user alone: an administrator may change them.\<close>

definition stays_ok :: "user_world \<Rightarrow> user_world \<Rightarrow> bool" where
  "stays_ok w w' \<longleftrightarrow> (user_ok w \<longrightarrow> user_ok w')"

abbreviation any_action :: action_pred where
  "any_action \<equiv> \<lambda>_ _. True"

interpretation evs: world_steps stays_ok any_action
  by unfold_locales (auto simp: stays_ok_def)

lemma stays_refl [simp]: "stays_ok w w"
  by (simp add: stays_ok_def)

lemma did_stays [simp]: "did stays_ok any_action w res \<longleftrightarrow> stays_ok w (snd res)"
  by (simp add: did_def list_all_iff)

abbreviation keeps_ev :: "(user_world \<Rightarrow> 'r \<times> w_action list \<times> user_world) \<Rightarrow> bool" where
  "keeps_ev \<equiv> cmd_does stays_ok any_action"

lemma keeps_evI: "(\<And>w. stays_ok w (snd (snd (c w)))) \<Longrightarrow> keeps_ev c"
  by (rule cmd_doesI) simp

lemma keeps_evD: "keeps_ev c \<Longrightarrow> stays_ok w (snd (snd (c w)))"
  using cmd_doesD [of stays_ok any_action c w] by simp

lemma stays_keeps: "keeps_user w w' \<Longrightarrow> stays_ok w w'"
  by (simp add: keeps_user_def stays_ok_def)

lemma op_stays: "op_does keeps_user permitted f \<Longrightarrow> op_does stays_ok any_action f"
  by (erule op_does_weaken) (auto intro: stays_keeps)

lemma frame_stays: "frame w w' \<Longrightarrow> stays_ok w w'"
  by (rule stays_keeps) (rule frame_keeps)

lemma op_frame_stays: "op_does frame plain f \<Longrightarrow> op_does stays_ok any_action f"
  by (rule op_stays) (rule op_frame_keeps)

lemma stays_client_ops:
  "op_does stays_ok any_action (say env i msg)" "op_does stays_ok any_action (store_channel env ref name)"
  "op_does stays_ok any_action (close_client i)" "op_does stays_ok any_action (run_user_actions env acts)"
  using run_user_actions_frame frame_stays by (auto simp: op_does_def [of _ _ "run_user_actions _ _"] intro: op_stays keeps_client_ops)

lemma stays_on_client: "(\<And>d. tame (f d)) \<Longrightarrow> op_does stays_ok any_action (on_client env i f)"
  by (rule op_frame_stays) (rule frame_on_client)

lemma stays_on_upstream: "up_stays f \<Longrightarrow> op_does stays_ok any_action (on_upstream env ref f)"
  by (rule op_frame_stays) (rule frame_on_upstream)

section \<open>Sequences of steps\<close>

lemma keeps_running: "op_does stays_ok any_action f \<Longrightarrow> keeps_ev (running f)"
  by (simp add: cmd_does_def op_does_def running_def case_prod_beta Let_def)

lemma keeps_do_steps:
  "(\<And>f w'. f \<in> set fs \<Longrightarrow> stays_ok w' (snd (snd (f w')))) \<Longrightarrow> stays_ok w (snd (snd (do_steps fs w)))"
proof (induction fs arbitrary: w)
  case (Cons f fs)
  obtain r acts w1 where 1: "f w = (r, acts, w1)" by (metis prod_cases3)
  have "stays_ok w w1" using Cons.prems [of f w] by (simp add: 1)
  moreover have "stays_ok w1 (snd (snd (do_steps fs w1)))" using Cons by simp
  ultimately show ?case by (auto simp: 1 case_prod_beta split: run_state.split intro: evs.R_trans)
qed simp

lemma keeps_ev_do_steps: "list_all keeps_ev fs \<Longrightarrow> keeps_ev (do_steps fs)"
  by (rule keeps_evI) (auto simp: list_all_iff intro: keeps_do_steps keeps_evD)

lemma keeps_emit_running: "keeps_ev (\<lambda>w. (Running, acts, w))"
  by (rule keeps_evI) simp

section \<open>Messages of clients\<close>

lemma keeps_then: "stays_ok w w' \<Longrightarrow> stays_ok w' w'' \<Longrightarrow> stays_ok w w''"
  by (rule evs.R_trans)

lemma keeps_same_user: "w_user w' = w_user w \<Longrightarrow> stays_ok w w'"
  by (simp add: stays_ok_def user_ok_def)

lemma keeps_ev_message:
  assumes "fresh_db env"
  shows "stays_ok w (snd (snd (ev_downstream_message env i msg w)))"
proof -
  obtain e acts w1 where 1: "client_handleMessage env i msg w = (e, acts, w1)" by (metis prod_cases3)
  have "stays_ok w w1" using keeps_client_handleMessage [OF assms, of w i msg] by (simp add: 1 did_kept stays_keeps)
  moreover have "stays_ok w1 (snd (snd (do_steps [\<lambda>w. (Running, acts, w), running (close_client i)] w1)))"
    by (rule keeps_evD, rule keeps_ev_do_steps) (simp add: keeps_emit_running keeps_running stays_client_ops)
  ultimately show ?thesis
    by (auto simp: ev_downstream_message_def 1 simp del: do_steps.simps split: option.split down_error.split intro: keeps_then)
qed

section \<open>Events of the networks\<close>

lemma frame_map_network:
  "(\<And>n. net_ident (f n) = net_ident n) \<Longrightarrow> frame w (w\<lparr>w_user := map_network ref f (w_user w)\<rparr>)"
proof -
  assume f: "\<And>n. net_ident (f n) = net_ident n"
  have "map net_ident (map (\<lambda>n. if n_ref n = ref then f n else n) ns) = map net_ident ns" for ns using f by (induction ns) simp_all
  then show ?thesis by (simp add: frame_def map_network_def clients_def list_all2_refl client_frame_refl)
qed

lemma keeps_network_ops:
  "op_does stays_ok any_action (set_last_error ref e)" "op_does stays_ok any_action (notify_state env i attrs)"
  "op_does stays_ok any_action (notice env s c)" "op_does stays_ok any_action (client_connected env ref c)"
proof -
  show "op_does stays_ok any_action (set_last_error ref e)"
    by (rule op_frame_stays, rule op_doesI) (simp add: set_last_error_def frame_map_network net_ident_def)
  show "op_does stays_ok any_action (notify_state env i attrs)"
    unfolding notify_state_def by (rule op_doesI, rule op_doesD) (rule stays_client_ops)
  show "op_does stays_ok any_action (notice env s c)"
    unfolding notice_def by (rule stays_on_client, rule tame_by_state) (rule tame_SendMessage)
  have "tame (\<lambda>st. if cap_on st c then ([], st) else down_send d (service_notice (dn_dc st) s) st)" for d c s
    by (rule tame_if [OF tame_nothing tame_by_state]) (rule tame_SendMessage)
  then show "op_does stays_ok any_action (client_connected env ref c)"
    unfolding client_connected_def Let_def
    by (intro op_doesI, intro op_doesD) (simp del: do_ops.simps add: evs.op_do_ops stays_on_client tame_ops)
qed

lemma keeps_opD: "op_does stays_ok any_action f \<Longrightarrow> stays_ok w (snd (f w))"
  using op_doesD [of stays_ok any_action f w] by simp

lemma keeps_upstream_connected: "op_does stays_ok any_action (ev_upstream_connected env ref netID uc)"
proof -
  have "op_does stays_ok any_action (\<lambda>w. ([], w\<lparr>w_user := map_network ref (\<lambda>n. n\<lparr>n_conn := Some uc\<rparr>) (w_user w)\<rparr>))"
    by (rule op_frame_stays, rule op_doesI) (simp add: frame_map_network net_ident_def)
  then have "stays_ok w (snd (do_ops ([\<lambda>w. ([], w\<lparr>w_user := map_network ref (\<lambda>n. n\<lparr>n_conn := Some uc\<rparr>) (w_user w)\<rparr>),
      on_upstream env ref updateAway, on_upstream env ref updateMonitor] @ map (client_connected env ref) cs
      @ [notify_state env i attrs, set_last_error ref None]) w))" for w cs i attrs
    by (intro keeps_opD evs.op_do_ops) (simp add: list_all_iff stays_on_upstream up_stays_channels keeps_network_ops)
  then show ?thesis
    unfolding op_does_def ev_upstream_connected_def using keeps_opD [OF keeps_network_ops(2)]
    by (simp del: do_ops.simps split: option.split)
qed

lemma keeps_upstream_disconnected: "keeps_ev (ev_upstream_disconnected env ref)"
proof (rule keeps_evI)
  fix w :: user_world
  have "stays_ok w (snd (snd (running (run_user_actions env acts) (w\<lparr>w_user := u\<rparr>))))"
    if "handleUpstreamDisconnected (we_user env) ref uc (w_user w) = Some (acts, u)" for uc acts u
  proof (rule keeps_then)
    show "stays_ok w (w\<lparr>w_user := u\<rparr>)"
      unfolding handleUpstreamDisconnected_state [OF that] by (intro frame_stays frame_map_network) (simp add: net_ident_def)
    show "stays_ok (w\<lparr>w_user := u\<rparr>) (snd (snd (running (run_user_actions env acts) (w\<lparr>w_user := u\<rparr>))))"
      by (rule keeps_evD, rule keeps_running) (rule stays_client_ops)
  qed
  then show "stays_ok w (snd (snd (ev_upstream_disconnected env ref w)))"
    by (auto simp: ev_upstream_disconnected_def split: option.split prod.split)
qed

lemma keeps_upstream_errors:
  "op_does stays_ok any_action (ev_connection_error env ref netID e)" "op_does stays_ok any_action (ev_upstream_error env ref netID e)"
proof -
  have "stays_ok w (snd (do_ops ((if b then map (notice env s) cs else []) @ [set_last_error ref x, notify_state env i attrs]) w))"
    for w b s cs x i attrs
    by (rule keeps_opD, rule evs.op_do_ops) (auto simp: list_all_iff keeps_network_ops)
  from this this [where b = True] show "op_does stays_ok any_action (ev_connection_error env ref netID e)"
    "op_does stays_ok any_action (ev_upstream_error env ref netID e)"
    using keeps_opD [OF keeps_network_ops(2)] unfolding op_does_def ev_connection_error_def ev_upstream_error_def by (simp_all del: do_ops.simps split: option.split)
qed

lemma keeps_put_up_state:
  "network_by_ref (w_user w) ref = Some n \<Longrightarrow> us_ident st = us_ident (up_state_of w n uc)
    \<Longrightarrow> stays_ok w (snd (run_up_actions env ref acts (put_up_state st n w)))"
proof (rule keeps_then)
  assume "network_by_ref (w_user w) ref = Some n" "us_ident st = us_ident (up_state_of w n uc)"
  then show "stays_ok w (put_up_state st n w)"
    by (intro frame_stays frame_put_up_state) (simp_all add: us_ident_net_ident up_state_of_def)
  show "stays_ok (put_up_state st n w) (snd (run_up_actions env ref acts (put_up_state st n w)))"
    using op_doesD [OF frame_run_up_actions] by (simp add: frame_stays)
qed

lemma keeps_upstream_message: "keeps_ev (ev_upstream_message env ref msg)"
proof (rule keeps_evI)
  fix w :: user_world
  have "stays_ok w ((snd (run_up_actions env ref acts (put_up_state st n w)))\<lparr>w_labels := []\<rparr>)"
    if "network_by_ref (w_user w) ref = Some n" "up_handleMessage e msg (up_state_of w n uc) = (err, acts, st)" for n uc e err acts st
    using keeps_put_up_state [OF that(1) up_handleMessage_ident [OF that(2)], of env acts] by (rule keeps_then) (simp add: keeps_same_user)
  then show "stays_ok w (snd (snd (ev_upstream_message env ref msg w)))"
    by (auto simp: ev_upstream_message_def case_prod_beta split: option.split) (metis prod.collapse)+
qed

lemma keeps_regain_nick: "keeps_ev (ev_try_regain_nick env ref nick)"
  by (rule keeps_evI)
    (auto simp: ev_try_regain_nick_def running_def case_prod_beta Let_def split: option.split
      intro!: keeps_put_up_state tryRegainNick_ident)

lemma keeps_channel_detach: "op_does stays_ok any_action (ev_channel_detach env ref name)"
proof -
  have "op_does stays_ok any_action (do_ops [on_network env ref (\<lambda>uenv. net_detach uenv ch), store_channel env ref name])" for ch
    by (intro evs.op_do_ops) (simp add: op_frame_stays frame_on_network up_stays_channels stays_client_ops)
  from op_doesD [OF this] show ?thesis
    by (auto simp: ev_channel_detach_def simp del: do_ops.simps intro!: op_doesI split: option.split)
qed

section \<open>Welcoming a client\<close>

text \<open>What an update of the user's record leaves as it is: the identifiers of the clients, and it adds no network.\<close>

lemma updateNetwork_conn_ids:
  "map dc_id (u_downstreamConns (snd (snd (updateNetwork env r b u)))) = map dc_id (u_downstreamConns u)"
proof -
  have "map dc_id (u_downstreamConns u') = map dc_id (u_downstreamConns u)" if "replace_network env n r' u = Some (ref, acts, u')" for n r' ref acts u'
    using replace_network_state [OF that] by (auto simp: patch_clients_def)
  then show ?thesis by (simp add: updateNetwork_def Let_def split: option.split)
qed

lemma update_networks_conn_ids:
  "map dc_id (u_downstreamConns (snd (snd (update_networks env rs u)))) = map dc_id (u_downstreamConns u)"
proof (induction rs arbitrary: u)
  case (Cons r rs)
  obtain res acts u1 where 1: "updateNetwork env r False u = (res, acts, u1)" by (metis prod_cases3)
  have "map dc_id (u_downstreamConns u1) = map dc_id (u_downstreamConns u)" using updateNetwork_conn_ids [of env r False u] by (simp add: 1)
  with Cons.IH [of u1] show ?case by (auto simp: 1 case_prod_beta split: sum.split net_error.split)
qed simp

lemma update_user_rest:
  assumes "user_ok w" and "update_user env f w = (r, acts, w1)"
  shows "user_ok w1" "net_ids (w_user w1) \<subseteq> net_ids (w_user w)" "map dc_id (clients w1) = map dc_id (clients w)"
proof -
  obtain e acts0 u where u: "updateUser (we_user env) (\<lambda>r. Some (f r)) (w_user w) = (e, acts0, u)" by (metis prod_cases3)
  have w1: "w1 = snd (run_user_actions env acts0 (w\<lparr>w_user := u\<rparr>))"
    using assms(2) by (simp add: update_user_def on_user_def u Let_def case_prod_beta)
  have ok: "u_ok u" "net_ids u \<subseteq> net_ids (w_user w)"
    using updateUser_u_ok [of "w_user w" "we_user env" "\<lambda>r. Some (f r)"] assms(1) by (simp_all add: u user_ok_def)
  note run = run_user_actions_ok [of acts0 "w\<lparr>w_user := u\<rparr>" env]
  show "user_ok w1" "net_ids (w_user w1) \<subseteq> net_ids (w_user w)" using run ok by (simp_all add: w1 u_ok_closing)
  have ids: "map dc_id (u_downstreamConns u) = map dc_id (u_downstreamConns (w_user w))"
    using updateUser_state [of "we_user env" "\<lambda>r. Some (f r)" "w_user w"] update_networks_conn_ids [of "we_user env"] by (auto simp: u)
  have "frame (w\<lparr>w_user := u\<rparr>) w1" using run_user_actions_frame [of "w\<lparr>w_user := u\<rparr>" env acts0] by (simp add: w1)
  then have "map dc_id (clients w1) = map dc_id (u_downstreamConns u)"
    using client_frame_ids ok(1) by (auto simp: frame_def ids_ok_def u_ok_def)
  with ids show "map dc_id (clients w1) = map dc_id (clients w)" by (simp add: clients_def)
qed

lemma keeps_update_user: "keeps_ev (update_user env f)"
  by (rule keeps_evI) (metis stays_ok_def prod.collapse update_user_rest(1))

text \<open>The network that a client is bound to is in the list.\<close>

lemma getNetwork_ref: "getNetwork u name = Some n \<Longrightarrow> n_ref n \<in> n_ref ` set (u_networks u)"
  "getNetworkByID u i = Some n \<Longrightarrow> n_ref n \<in> n_ref ` set (u_networks u)"
  by (auto simp: getNetwork_def getNetworkByID_def find_Some_iff)

lemma createNetwork_ref: "createNetwork env r b u = (Inr ref, acts, u') \<Longrightarrow> ref \<in> n_ref ` set (u_networks u')"
  by (auto simp: createNetwork_def addNetwork_def Let_def split: if_splits option.splits)

lemma on_user_create:
  assumes "user_ok w" and "fresh_db env" and "on_user env (\<lambda>e. createNetwork e r b) w = (res, acts, w1)"
  shows "user_ok w1" "map dc_id (clients w1) = map dc_id (clients w)" "\<And>ref. res = Inr ref \<Longrightarrow> ref \<in> n_ref ` set (u_networks (w_user w1))"
proof -
  show ok: "user_ok w1" using keeps_cmdD [OF keeps_create [OF assms(2)], of w r b] assms(1,3) by (simp add: did_kept keeps_user_def)
  obtain acts0 u where c: "createNetwork (we_user env) r b (w_user w) = (res, acts0, u)"
    and w1: "w1 = snd (run_user_actions env acts0 (w\<lparr>w_user := u\<rparr>))"
    using assms(3) by (auto simp: on_user_def Let_def split: prod.splits)
  have f: "frame (w\<lparr>w_user := u\<rparr>) w1" using run_user_actions_frame [of "w\<lparr>w_user := u\<rparr>" env acts0] by (simp add: w1)
  have "u_downstreamConns u = u_downstreamConns (w_user w)"
    using c by (auto simp: createNetwork_def addNetwork_def Let_def split: if_splits option.splits)
  then show "map dc_id (clients w1) = map dc_id (clients w)"
    using f client_frame_ids assms(1) by (auto simp: frame_def ids_ok_def user_ok_def u_ok_def clients_def)
  have nets: "nets_ok (w_user (w\<lparr>w_user := u\<rparr>))"
    using createNetwork_fresh [OF assms(2), of "w_user w" r b] assms(1) c by (simp add: user_ok_def u_ok_def)
  show "ref \<in> n_ref ` set (u_networks (w_user w1))" if "res = Inr ref" for ref
    using createNetwork_ref c that frame_nets(2) [OF f nets] by auto
qed

lemma loadNetwork_bound:
  assumes "user_ok w" and "fresh_db env" and "loadNetwork env dc r w = (res, acts, w1)"
  shows "user_ok w1 \<and> map dc_id (clients w1) = map dc_id (clients w)
    \<and> (\<forall>ref. res = Inr (Some ref) \<longrightarrow> ref \<in> n_ref ` set (u_networks (w_user w1)))"
proof -
  have auto_save: "user_ok w1 \<and> map dc_id (clients w1) = map dc_id (clients w)
      \<and> (\<forall>ref. res = Inr (Some ref) \<longrightarrow> ref \<in> n_ref ` set (u_networks (w_user w1)))"
    if s: "auto_save_network env dc r w = (res, acts, w1)"
  proof -
    let ?r = "(NewNetwork (reg_networkName r))\<lparr>net_Nick := fst (unmarshalUsername (reg_nick r))\<rparr>"
    obtain res0 acts0 w0 where c: "on_user env (\<lambda>e. createNetwork e ?r True) w = (res0, acts0, w0)" by (metis prod_cases3)
    note create = on_user_create [OF assms(1,2) c]
    show ?thesis
      using s create assms(1) unfolding auto_save_network_def Let_def c
      by (auto split: if_splits sum.splits net_error.splits)
  qed
  show ?thesis
    using assms(1,3) getNetwork_ref auto_save by (auto simp: loadNetwork_def split: if_splits option.splits)
qed

lemma tame_greet: "tame (greet env w d)"
proof -
  have "tame (set_dc (\<lambda>dc. dc\<lparr>dc_nick := n, dc_nickCM := dc_casemap dc n\<rparr>))" for n
    by (rule tame_set_dc) (simp add: client_rel_def client_ok_def)
  moreover have "tame (user_mode_op d usr)" "tame (motd_op d motd)" for usr motd
    by (rule tameI, simp add: user_mode_op_def motd_op_def tame_sends del: send_all_simps)+
  ultimately show ?thesis
    unfolding greet_def Let_def
    by (intro tame_do_all) (simp add: tame_ops tame_if tame_by_state [OF tame_send_all] del: send_all_simps)
qed

lemma tame_channels_op: "tame (channels_op env d)"
proof -
  have "tame (joined_channel env d n uc ch)" for n uc ch
    unfolding joined_channel_def by (rule tame_do_all) (simp add: tame_by_state [OF tame_SendMessage] tame_ops)
  then show ?thesis
    by (auto simp: channels_op_def list_all_iff tame_nothing intro!: tame_do_all split: option.split)
qed

lemma backlog_loop_rest:
  "backlog_loop env w d ts (st, n) = (out, st', n') \<Longrightarrow> tame_at st st' \<and> net_ident n' = net_ident n"
proof (induction ts arbitrary: st n out)
  case (Cons t ts)
  obtain out1 st1 n1 where 1: "backlog_target env w d t (st, n) = (out1, st1, n1)" by (metis prod_cases3)
  have "tame_at st st1 \<and> net_ident n1 = net_ident n"
    using 1 tameD [OF tame_messages(6), of st d "we_channel env"]
    by (auto simp: backlog_target_def Let_def net_ident_def split: if_splits prod.splits option.splits) (metis snd_conv)+
  moreover obtain out2 where "backlog_loop env w d ts (st1, n1) = (out2, st', n')" using Cons.prems by (auto simp: 1 split: prod.splits)
  ultimately show ?case using Cons.IH tame_at_trans by metis
qed simp

lemma welcome_backlog_rest:
  assumes "welcome_backlog env (down_env_of env w net) st w = (out, st', w')" and "net = client_network w dc"
  shows "tame_at st st' \<and> frame w w'"
proof (cases net)
  case None
  with assms(1) show ?thesis by (simp add: welcome_backlog_def down_env_of_def frame_refl)
next
  case (Some n)
  with assms(2) have "network_by_ref (w_user w) (n_ref n) = Some n"
    using network_by_ref_Some by (auto simp: client_network_def split: option.splits)
  then have "frame w (put_network (n_ref n') n' w)" if "net_ident n' = net_ident n" for n'
    using that frame_put_network [of w "n_ref n'" n n'] by (simp add: net_ident_def)
  then show ?thesis
    using assms(1) Some backlog_loop_rest
    by (fastforce simp: welcome_backlog_def down_env_of_def frame_refl split: if_splits prod.splits)
qed

lemma welcome_bound_ok:
  assumes "user_ok w" and "welcome_bound env dc w = (e, out, dc', w1)"
  shows "user_ok w1 \<and> map dc_id (clients w1) = map dc_id (clients w)
    \<and> n_ref ` set (u_networks (w_user w1)) = n_ref ` set (u_networks (w_user w)) \<and> client_rel dc dc'"
proof -
  define denv where "denv = down_env_of env w (client_network w dc)"
  obtain out1 st1 where g: "greet env w denv (down_state_of w dc) = (out1, st1)" by fastforce
  define t where "t = (if client_network w dc \<noteq> None \<and> cap_on st1 ''draft/metadata-2'' then d_messageTargets denv else Some [])"
  have st1: "tame_at (down_state_of w dc) st1" using tameD [OF tame_greet, of "down_state_of w dc" env w denv] by (simp add: g)
  note wb = welcome_bound_def [of env dc w, unfolded Let_def, folded denv_def, unfolded g prod.case, folded t_def]
  show ?thesis
  proof (cases t)
    case None
    with assms st1 show ?thesis by (auto simp: wb tame_at_def down_state_of_def)
  next
    case (Some mts)
    obtain out2 st2 where 2: "do_all (map (sendTargetMetadata denv) mts) st1 = (out2, st2)" by fastforce
    obtain out3 st3 where 3: "channels_op env denv st2 = (out3, st3)" by fastforce
    obtain out4 st4 w4 where 4: "welcome_backlog env denv st3 w = (out4, st4, w4)" by (metis prod_cases3)
    have res: "dc' = dn_dc st4" "w1 = w4" using assms(2) by (auto simp: wb Some 2 3 4)
    have "tame (do_all (map (sendTargetMetadata denv) mts))" by (rule tame_do_all) (simp add: list_all_iff tame_messages)
    from tameD [OF this, of st1] have "tame_at st1 st2" by (simp add: 2)
    moreover have "tame_at st2 st3" using tameD [OF tame_channels_op, of st2 env denv] by (simp add: 3)
    moreover have b: "tame_at st3 st4" "frame w w4" using welcome_backlog_rest [OF 4 [unfolded denv_def] refl] by simp_all
    ultimately have "tame_at (down_state_of w dc) st4" using st1 tame_at_trans by blast
    then have "client_rel dc dc'" by (simp add: tame_at_def down_state_of_def res)
    moreover have "user_ok w4" using b(2) assms(1) frame_stays [of w w4] by (simp add: stays_ok_def)
    moreover have "map dc_id (clients w4) = map dc_id (clients w)"
      using b(2) assms(1) client_frame_ids by (auto simp: frame_def user_ok_def u_ok_def ids_ok_def clients_def)
    moreover have "n_ref ` set (u_networks (w_user w4)) = n_ref ` set (u_networks (w_user w))"
      using b(2) assms(1) frame_nets(2) by (auto simp: user_ok_def u_ok_def)
    ultimately show ?thesis by (simp add: res)
  qed
qed

text \<open>A client that is welcomed is bound to the network it asked for.\<close>

lemma dc_welcome_ok:
  assumes "user_ok w" and "fresh_db env" and "client_ok dc" and "dc_welcome env dc w = (e, acts, dc', w1)"
  shows "user_ok w1 \<and> map dc_id (clients w1) = map dc_id (clients w)
    \<and> (e = None \<longrightarrow> dc_id dc' = dc_id dc \<and> client_ok dc' \<and> bound (w_user w1) dc')"
proof (cases "dc_registration dc")
  case None
  with assms(1,4) show ?thesis by (auto simp: dc_welcome_def)
next
  case (Some r)
  obtain res acts0 w0 where l: "loadNetwork env dc r w = (res, acts0, w0)" by (metis prod_cases3)
  note load = loadNetwork_bound [OF assms(1,2) l]
  show ?thesis
  proof (cases "\<exists>ref. dc_registered dc \<and> res = Inr ref")
    case False
    with assms(1,4) load Some l show ?thesis by (auto simp: dc_welcome_def split: if_splits sum.splits)
  next
    case True
    then obtain ref where ref: "dc_registered dc" "res = Inr ref" by blast
    define dc1 where "dc1 = dc\<lparr>dc_network := ref, dc_registration := None\<rparr>"
    obtain out where b: "welcome_bound env dc1 w0 = (e, out, dc', w1)"
      using assms(4) by (auto simp: dc_welcome_def Some l ref dc1_def split: prod.splits)
    show ?thesis
      using welcome_bound_ok [OF _ b] load assms(3) by (auto simp: ref dc1_def client_rel_def client_ok_def bound_def split: option.split)
  qed
qed

lemma user_ok_add_client:
  assumes "user_ok w" and "client_ok dc" and "bound (w_user w) dc" and "dc_id dc \<notin> set (map dc_id (clients w))"
  shows "user_ok (set_clients (\<lambda>cs. cs @ [dc]) w)"
proof -
  let ?u = "w_user (set_clients (\<lambda>cs. cs @ [dc]) w)"
  have "bound ?u = bound (w_user w)" by (simp add: fun_eq_iff bound_def split: option.split)
  moreover have "nets_ok ?u = nets_ok (w_user w)" by (rule nets_ok_cong) simp_all
  moreover have "u_downstreamConns ?u = u_downstreamConns (w_user w) @ [dc]" by (simp add: set_clients_def clients_def)
  ultimately show ?thesis using assms by (auto simp: user_ok_def u_ok_def clients_def)
qed

lemma keeps_bump: "keeps_ev (bumpDownstreamInteractionTime env)"
  unfolding bumpDownstreamInteractionTime_def by (rule keeps_update_user)

lemma keeps_connected_away: "op_does stays_ok any_action (do_ops (map (\<lambda>ref. on_upstream env ref updateAway) refs))"
  by (intro evs.op_do_ops list_all_intros stays_on_upstream up_stays_channels)

lemma welcome_client_ok:
  assumes "user_ok w" and "fresh_db env" and "client_ok dc" and "dc_id dc \<notin> set (map dc_id (clients w))"
  shows "user_ok (snd (snd (welcome_client env dc w)))"
proof -
  obtain e acts dc' w1 where wel: "dc_welcome env dc w = (e, acts, dc', w1)" by (metis prod_cases4)
  note ok = dc_welcome_ok [OF assms(1-3) wel]
  have err: "snd (snd (error_to env d m w')) = w'" for d m w' by (simp add: error_to_def split: prod.split)
  have added: "user_ok (set_clients (\<lambda>cs. cs @ [dc']) w1)" if "e = None"
    using user_ok_add_client [of w1 dc'] ok that assms(4) by auto
  have rest: "keeps_ev (do_steps [\<lambda>w. (Running, acts, w), running (case l of None \<Rightarrow> nothing | Some (name, x) \<Rightarrow> notice env (s name x) dc'),
      running (do_ops (map (\<lambda>ref. on_upstream env ref updateAway) refs)),
      if dc_impersonating dc' then running nothing else bumpDownstreamInteractionTime env])" for l refs and s :: "string \<Rightarrow> string \<Rightarrow> string"
    by (rule keeps_ev_do_steps)
      (auto intro!: keeps_emit_running keeps_running keeps_connected_away keeps_bump evs.op_emit keeps_network_ops split: option.split)
  show ?thesis
  proof (cases "user_Enabled (u_record (w_user w)) \<and> e = None")
    case True
    then have enabled: "user_Enabled (u_record (w_user w))" and e: "e = None" by simp_all
    show ?thesis
      unfolding welcome_client_def wel e prod.case option.case Let_def
      using mp [OF keeps_evD [OF rest, unfolded stays_ok_def] added [OF e]] by (simp only: enabled simp_thms if_False)
  next
    case False
    with ok assms(1) show ?thesis
      by (auto simp: welcome_client_def wel err case_prod_beta split: option.split down_error.split)
  qed
qed

lemma ev_downstream_connected_ok:
  assumes "user_ok w" and "fresh_db env" and "client_ok dc" and "dc_id dc \<notin> set (map dc_id (clients w))"
  shows "user_ok (snd (snd (ev_downstream_connected env dc w)))"
proof -
  define dc1 where "dc1 = (case client_network w dc of None \<Rightarrow> dc | Some n \<Rightarrow> dc\<lparr>dc_monitored := cmm_SetCaseMapping (dc_monitored dc) (n_casemap n)\<rparr>)"
  have dc1: "client_ok dc1" "dc_id dc1 = dc_id dc"
    using assms(3) order_trans [OF monitor_Len(1)] by (auto simp: dc1_def client_ok_def split: option.split)
  obtain r acts w1 where u: "update_user env (\<lambda>r. r\<lparr>user_Enabled := True\<rparr>) w = (r, acts, w1)" by (metis prod_cases3)
  note rest = update_user_rest [OF assms(1) u]
  have "user_ok (snd (snd (welcome_client env dc1 w1)))"
    using welcome_client_ok [OF rest(1) assms(2) dc1(1)] rest(3) assms(4) dc1(2) by (simp flip: set_map)
  moreover have "user_ok (snd (snd (welcome_client env dc1 w)))"
    using welcome_client_ok [OF assms(1,2) dc1(1)] assms(4) dc1(2) by simp
  ultimately show ?thesis
    unfolding ev_downstream_connected_def Let_def dc1_def [symmetric]
    using rest(1) by (auto simp: u running_def emit_def case_prod_beta split: run_state.split)
qed

section \<open>The other events\<close>

lemma keeps_store_receipts: "op_does stays_ok any_action (store_receipts ref name)"
  by (rule op_doesI) (auto simp: store_receipts_def split: option.split)

lemma keeps_filter_clients: "stays_ok w (set_clients (filter P) w)"
proof -
  let ?u = "w_user (set_clients (filter P) w)"
  have "bound ?u = bound (w_user w)" by (simp add: fun_eq_iff bound_def split: option.split)
  moreover have "nets_ok ?u = nets_ok (w_user w)" by (rule nets_ok_cong) simp_all
  moreover have "u_downstreamConns ?u = filter P (u_downstreamConns (w_user w))" by (simp add: set_clients_def clients_def)
  ultimately show ?thesis by (auto simp: stays_ok_def user_ok_def u_ok_def list_all_iff distinct_map_filter)
qed

lemma up_stays_forget_client: "up_stays (forget_client i)"
  by (simp add: up_stays_def forget_client_def Let_def case_prod_beta)

lemma keeps_downstream_disconnected: "keeps_ev (ev_downstream_disconnected env dc)"
proof (rule keeps_evI)
  fix w
  let ?dc = "case client (dc_id dc) w of None \<Rightarrow> dc | Some dc \<Rightarrow> dc"
  let ?w = "set_clients (filter (\<lambda>c. dc_id c \<noteq> dc_id dc)) w"
  have "keeps_ev (do_steps [running (case dc_network ?dc of None \<Rightarrow> nothing | Some ref \<Rightarrow> store_receipts ref (dc_clientName ?dc)),
      running (do_ops (map (\<lambda>ref. on_upstream env ref (forget_client (dc_id dc))) (connected_refs ?w))),
      if dc_impersonating ?dc then running nothing else bumpDownstreamInteractionTime env])"
    by (rule keeps_ev_do_steps)
      (auto intro!: keeps_running keeps_store_receipts evs.op_emit keeps_bump evs.op_do_ops list_all_intros stays_on_upstream up_stays_forget_client
        split: option.split)
  from keeps_evD [OF this, of ?w] show "stays_ok w (snd (snd (ev_downstream_disconnected env dc w)))"
    unfolding ev_downstream_disconnected_def Let_def by (rule keeps_then [OF keeps_filter_clients])
qed

lemma keeps_close_clients: "op_does stays_ok any_action close_clients"
  unfolding close_clients_def by (rule op_doesI, rule op_doesD, intro evs.op_do_ops list_all_intros stays_client_ops)

lemma keeps_user_update: "keeps_ev (ev_user_update env e)"
  unfolding ev_user_update_def
  by (rule keeps_ev_do_steps) (simp add: keeps_update_user keeps_running keeps_close_clients evs.op_emit)

lemma stays_updateUser: "keeps_ev (on_user env (\<lambda>e. updateUser e upd))"
proof (rule keeps_evI)
  fix w :: user_world
  obtain res acts u where u: "updateUser (we_user env) upd (w_user w) = (res, acts, u)" by (metis prod_cases3)
  have "user_ok (snd (run_user_actions env acts (w\<lparr>w_user := u\<rparr>)))" if "user_ok w"
    using run_user_actions_ok [of acts "w\<lparr>w_user := u\<rparr>" env] updateUser_u_ok [of "w_user w" "we_user env" upd] that
    by (simp add: u u_ok_closing user_ok_def)
  then show "stays_ok w (snd (snd (on_user env (\<lambda>e. updateUser e upd) w)))"
    by (simp add: on_user_def u Let_def case_prod_beta stays_ok_def)
qed

text \<open>Commands of the bouncer service, whoever runs them.\<close>

lemma stays_service_command:
  assumes "fresh_db env"
  shows "stays_ok w (snd (snd (snd (handleServiceCommand (service_run env) ctx words ([], w)))))"
proof -
  have "did stays_ok any_action w (snd (snd (handleServiceCommand (service_run env) ctx words ([], w))))"
  proof (rule evs.svc_command)
    show "did stays_ok any_action w (snd (on_user env (own_update env fs) w))" for fs
      unfolding own_update_def by (rule cmd_doesD [OF stays_updateUser])
    show "svc_does stays_ok any_action (handler_cmd env (service_command_run env) h ctx params)" if "h \<notin> set user_handlers" for h params
      using keeps_handlers [OF assms that] unfolding svc_does_def by (auto simp: did_kept stays_keeps)
  qed simp_all
  then show ?thesis by simp
qed

lemma keeps_user_run: "fresh_db env \<Longrightarrow> keeps_ev (ev_user_run env params)"
  by (rule keeps_evI) (simp add: ev_user_run_def case_prod_beta stays_service_command)

lemma keeps_stop: "keeps_ev ev_stop"
proof (rule keeps_evI)
  fix w
  have "op_does stays_ok any_action (do_ops (close_clients # concat (map (\<lambda>n. emit (f n) # map (store_receipts (n_ref n)) (g n)) ns)))"
    for f g and ns :: "network list"
    by (rule evs.op_do_ops) (auto simp: list_all_iff keeps_close_clients keeps_store_receipts intro!: evs.op_emit)
  from keeps_opD [OF this, of w] show "stays_ok w (snd (snd (ev_stop w)))"
    unfolding ev_stop_def by (simp add: case_prod_beta del: do_ops.simps)
qed

section \<open>The event loop\<close>

text \<open>What an event brings along: the database gives fresh identifiers, and a new client has an identifier of its own
  and passed the registration.\<close>

definition event_ok :: "world_env \<Rightarrow> user_event \<Rightarrow> user_world \<Rightarrow> bool" where
  "event_ok env ev w \<longleftrightarrow> fresh_db env
     \<and> (case ev of EvDownstreamConnected dc \<Rightarrow> client_ok dc \<and> \<not> List.member (map dc_id (clients w)) (dc_id dc) | _ \<Rightarrow> True)"

fun events_ok :: "(world_env \<times> user_event) list \<Rightarrow> user_world \<Rightarrow> bool" where
  "events_ok [] w = True"
| "events_ok ((env, ev) # evs) w \<longleftrightarrow> event_ok env ev w
     \<and> (case user_step env ev w of (r, _, w') \<Rightarrow> r = Running \<longrightarrow> events_ok evs w')"

lemma keeps_broadcast: "op_does stays_ok any_action (\<lambda>w. do_ops (map (\<lambda>c. say env (dc_id c) msg) (clients w)) w)"
  by (rule op_doesI, rule op_doesD, intro evs.op_do_ops list_all_intros stays_client_ops)

lemma user_step_ok:
  assumes "event_ok env ev w" and "user_ok w"
  shows "user_ok (snd (snd (user_step env ev w)))"
proof -
  have f: "fresh_db env" using assms(1) by (simp add: event_ok_def)
  have b: "stays_ok w (snd (snd (running (do_ops (map (\<lambda>c. say env (dc_id c) msg) (clients w))) w)))" for msg
    using keeps_opD [OF keeps_broadcast, of w env msg] by (simp add: running_def case_prod_beta Let_def)
  have "stays_ok w (snd (snd (user_step env ev w)))" if "\<forall>dc. ev \<noteq> EvDownstreamConnected dc"
    using that b keeps_ev_message [OF f] keeps_user_run [OF f]
    by (cases ev) (auto intro!: keeps_evD keeps_running keeps_upstream_connected keeps_upstream_disconnected keeps_upstream_errors
        keeps_upstream_message keeps_channel_detach keeps_downstream_disconnected keeps_user_update keeps_regain_nick keeps_stop)
  then show ?thesis
    using assms ev_downstream_connected_ok [OF assms(2) f] by (cases ev) (auto simp: stays_ok_def event_ok_def)
qed

text \<open>The state that a user starts with.\<close>

definition records_ok :: "db_network list \<Rightarrow> bool" where
  "records_ok rs \<longleftrightarrow> distinct (map net_ID rs) \<and> distinct (map GetName rs) \<and> list_all (\<lambda>r. 0 < net_ID r \<and> name_ok (GetName r)) rs"


lemma ident_restored: "net_ident (restore_receipts rcpts n) = net_ident n"
  by (simp add: restore_receipts_def net_ident_def)

lemma nets_ok_append:
  assumes "nets_ok u" and "n_ref n = u_nextRef u" and "0 < nid n" and "name_ok (net_name n)"
    and "list_all (\<lambda>m. nid m < nid n \<and> net_name m \<noteq> net_name n) (u_networks u)"
  shows "nets_ok (u\<lparr>u_networks := u_networks u @ [n], u_nextRef := Suc (u_nextRef u)\<rparr>)"
  using assms by (fastforce simp: nets_ok_def list_all_iff sorted_append)

lemma load_networks_ok:
  assumes "nets_ok u" and "sorted (map net_ID rs)" and "records_ok rs" and "load_networks db rs u = (ok, acts, u')"
    and "list_all (\<lambda>r. list_all (\<lambda>n. nid n < net_ID r \<and> net_name n \<noteq> GetName r) (u_networks u)) rs"
  shows "nets_ok u' \<and> u_downstreamConns u' = u_downstreamConns u"
  using assms
proof (induction db rs u arbitrary: ok acts u' rule: load_networks.induct)
  case (1 db u)
  then show ?case by simp
next
  case (2 db r rs u)
  have rs: "sorted (map net_ID rs)" "records_ok rs" "0 < net_ID r" "name_ok (GetName r)"
    using "2.prems"(2,3) by (simp_all add: records_ok_def)
  have later: "net_ID r < net_ID x" "GetName x \<noteq> GetName r" if "x \<in> set rs" for x
    using "2.prems"(2,3) that by (force simp: records_ok_def less_le, auto simp: records_ok_def image_iff)
  define add where "add n = u\<lparr>u_networks := u_networks u @ [n], u_nextRef := Suc (u_nextRef u)\<rparr>" for n
  have added: "nets_ok (add n)" "list_all (\<lambda>r. list_all (\<lambda>n. nid n < net_ID r \<and> net_name n \<noteq> GetName r) (u_networks (add n))) rs"
    if "net_ident n = net_ident (newNetwork (u_nextRef u) r chs)" for n chs
  proof -
    from that have n: "n_ref n = u_nextRef u" "nid n = net_ID r" "net_name n = GetName r"
      by (simp_all add: net_ident_def newNetwork_def net_name_def GetName_def)
    show "nets_ok (add n)"
      unfolding add_def using nets_ok_append [OF "2.prems"(1) n(1)] "2.prems"(5) rs n by (simp add: list_all_iff)
    show "list_all (\<lambda>r. list_all (\<lambda>n. nid n < net_ID r \<and> net_name n \<noteq> GetName r) (u_networks (add n))) rs"
      using "2.prems"(5) n by (auto simp: add_def list_all_iff later dest: later(2))
  qed
  have conns: "u_downstreamConns (add n) = u_downstreamConns u" for n by (simp add: add_def)
  show ?case
  proof (cases "db_channels db (net_ID r)")
    case None
    with 2 rs show ?thesis by simp
  next
    case (Some chs)
    let ?n = "newNetwork (u_nextRef u) r chs"
    let ?rcpts = "if hasPersistentMsgStore u then db_receipts db (net_ID r) else Some []"
    show ?thesis
    proof (cases ?rcpts)
      case None
      with "2.prems"(4) Some added [where chs = chs, OF refl] conns show ?thesis by (auto simp: Let_def add_def [symmetric])
    next
      case (Some rcpts)
      obtain ok1 acts1 u1 where l: "load_networks db rs (add (restore_receipts rcpts ?n)) = (ok1, acts1, u1)" by (metis prod_cases3)
      have "u' = u1" using "2.prems"(4) l Some \<open>db_channels db (net_ID r) = Some chs\<close> by (auto simp: Let_def add_def [symmetric] simp del: if_split_asm)
      moreover note "2.IH"(2) [OF \<open>db_channels db (net_ID r) = Some chs\<close> refl refl Some, folded add_def,
          OF added(1) rs(1,2) l added(2), OF ident_restored ident_restored]
      ultimately show ?thesis using conns by simp
    qed
  qed
qed

lemma records_ok_sort: "records_ok (sort_key net_ID rs) = records_ok rs"
  by (simp add: records_ok_def distinct_sort_map list_all_iff)

lemma user_start_ok:
  assumes "u_networks u = []" and "u_downstreamConns u = []" and "db_networks db = Some rs" and "records_ok rs"
    and "user_start db u = (ok, acts, u')"
  shows "u_ok u'"
proof -
  have "nets_ok u" using assms(1) by (simp add: nets_ok_def)
  moreover have "load_networks db (sort_key net_ID rs) u = (ok, acts, u')" using assms(3,5) by (simp add: user_start_def)
  ultimately have "nets_ok u' \<and> u_downstreamConns u' = u_downstreamConns u"
    using assms(1,4) by (intro load_networks_ok) (simp_all add: records_ok_sort list_all_iff)
  with assms(2) show ?thesis by (simp add: u_ok_def)
qed

lemma user_run_ok: "events_ok evs w \<Longrightarrow> user_ok w \<Longrightarrow> user_ok (snd (snd (user_run evs w)))"
proof (induction evs arbitrary: w)
  case Nil
  then show ?case by simp
next
  case (Cons e evs)
  obtain env ev where e: "e = (env, ev)" by fastforce
  obtain r acts w1 where s: "user_step env ev w = (r, acts, w1)" by (metis prod_cases3)
  have "user_ok w1" using user_step_ok [of env ev w] Cons.prems by (simp add: e s)
  with Cons.IH [of w1] Cons.prems show ?case by (cases r) (simp_all add: e s case_prod_beta)
qed

end
