(* ===== verification/User_Properties.thy ===== *)
theory User_Properties
  imports Loop_Invariant Downstream_Auth
begin

text \<open>
  What the event loop of a user guarantees, with the commands of clients, the messages of servers and the
  operations on networks taken together.
\<close>

section \<open>The invariant\<close>

text \<open>C3. The invariant of the whole bouncer for a user: the networks are sorted by their identifiers, which are
  unique and positive, with unique non-empty names and objects of their own; the clients have unique identifiers,
  enabled only capabilities that are available to them and monitor at most as many targets as they may; and an
  open client is bound to a network object that exists.  It holds after a start on the records of the
  database and after every sequence of events: messages of servers and of clients, new and lost connections, changes
  of networks by commands, changes of the user.\<close>

theorem user_invariant:
  assumes "u_networks u = []" and "u_downstreamConns u = []" and "db_networks db = Some rs" and "records_ok rs"
    and "user_start db u = (ok, acts, w_user w)" and "events_ok evs w"
  shows "user_ok (snd (snd (user_run evs w)))"
  using user_run_ok [OF assms(6)] user_start_ok [OF assms(1-5)] by (simp add: user_ok_def)

definition example_server_env :: server_env where
  "example_server_env = \<lparr>sv_users = [NewUser ''alice''], sv_listNetworks = \<lambda>_. Some [], sv_update = \<lambda>_ _. None, sv_run = \<lambda>_ _. [], sv_stop = \<lambda>_. None,
     sv_deleteUser = \<lambda>_. True, sv_posted = \<lambda>_. True, sv_ctxError = [], sv_queued = 0, sv_dbError = [], sv_dbStats = Some (1, 1, 1), sv_serverStats = (1, 1, 1),
     sv_hashPassword = Inr, sv_sha1 = \<lambda>s. s, sv_sha256 = \<lambda>s. s, sv_sha512 = \<lambda>s. s, sv_generateKey = \<lambda>_. Inl [], sv_marshalKey = \<lambda>_. Inl [],
     sv_createCertificate = \<lambda>_ _. Inl [], sv_parseMessage = \<lambda>_. Inl [], sv_parseDuration = \<lambda>_. None, sv_formatDateTime = \<lambda>_. []\<rparr>"

definition example_world_env :: world_env where
  "example_world_env = \<lparr>we_user = example_user_env, we_down = example_down_env,
     we_channel = \<lparr>d_receipt = \<lambda>_ _. Some None, d_history = \<lambda>_ _ _. Some [], d_msgString = \<lambda>_. []\<rparr>, we_auth = password_auth (\<lambda>_ _. True),
     we_bare = bare_concrete, we_hostname = ''bouncer.example.org'', we_motd = [], we_enableUsersOnAuth = False, we_parseTags = \<lambda>_. [],
     we_storeReceipt = \<lambda>_ _ _. True, we_lastMsgID = \<lambda>_ _. Some [], we_append = \<lambda>_ _ _. Some [], we_getTarget = \<lambda>_ _. None,
     we_storeTarget = \<lambda>_ _. True, we_listTargets = \<lambda>_. Some [], we_loadBefore = \<lambda>_ _ _. Some [], we_loadAfter = \<lambda>_ _ _. Some [],
     we_targets = \<lambda>_ _ _ _ _. Some [], we_search = \<lambda>_ _. Some [], we_peerCert = \<lambda>_. None, we_print = \<lambda>_. True, we_formatLocal = \<lambda>_. [],
     we_listCerts = Some [], we_storeCert = \<lambda>_ _. Stored, we_deleteCert = \<lambda>_. True,
     we_listSubs = \<lambda>_. Some [], we_storeSub = \<lambda>_ _. True, we_deleteSub = \<lambda>_. True, we_testPush = \<lambda>_. True, we_sanityCheckServer = \<lambda>_. True,
     we_storeChannel = \<lambda>_. Some 1, we_server = example_server_env, we_netErrorText = \<lambda>_. []\<rparr>"

definition example_db :: user_db where
  "example_db = \<lparr>db_networks = Some [example_record], db_channels = \<lambda>_. Some [], db_receipts = \<lambda>_. Some []\<rparr>"

definition example_world :: user_world where
  "example_world = \<lparr>w_user = one_network, w_labels = [], w_shutdown = [], w_orphanTimers = \<lambda>_. []\<rparr>"

definition example_client :: downstream_conn where
  "example_client = (newDownstreamConn [''PLAIN''] False False NoStore ''192.0.2.1:1234'' 1)\<lparr>dc_registered := True, dc_nick := ''alice'', dc_network := Some 0\<rparr>"

lemma less_foldr_max: "i \<in> set ids \<Longrightarrow> (i :: int) < foldr max ids 0 + 1"
  by (induction ids) (auto simp: max_def)

lemma foldr_max_nonneg: "0 \<le> foldr max ids (0 :: int)"
  by (induction ids) (auto simp: max_def)

lemma example_fresh: "fresh_db example_world_env"
  using foldr_max_nonneg by (auto simp: fresh_db_def example_world_env_def example_user_env_def add_nonneg_pos dest!: less_foldr_max)

theorem user_invariant_witness:
  "user_ok (snd (snd (user_run [(example_world_env, EvBroadcast (mk_msg ''NOTICE'' [''*'', ''hello''])),
      (example_world_env, EvDownstreamConnected example_client)] example_world)))"
proof (rule user_invariant)
  have client: "client_ok example_client"
    by (simp add: client_ok_def example_client_def newDownstreamConn_def new_caps_def caps_ok_def caps_IsAvailable_def permanentDownstreamCaps_def
      cmm_Len_def NewCaseMappingMap_def)
  show "u_networks new_user = []" "u_downstreamConns new_user = []" by (simp_all add: new_user_def)
  show "db_networks example_db = Some [example_record]" by (simp add: example_db_def)
  show "records_ok [example_record]" by code_simp
  show "user_start example_db new_user = (True, [UEffect (NetStart 0)], w_user example_world)"
    by (simp add: user_start_def example_db_def example_world_def one_network_def new_user_def newNetwork_def hasPersistentMsgStore_def restore_receipts_def)
  show "events_ok [(example_world_env, EvBroadcast (mk_msg ''NOTICE'' [''*'', ''hello''])),
      (example_world_env, EvDownstreamConnected example_client)] example_world"
    using client
    by (simp add: event_ok_def example_fresh example_world_def one_network_def new_user_def running_def clients_def)
qed

section \<open>Users without privileges\<close>

text \<open>What the commands of a user with the record \<open>r\<close> may ask of the rest of the bouncer.\<close>

definition confined :: "db_user \<Rightarrow> w_action \<Rightarrow> bool" where
  "confined r a \<longleftrightarrow>
     (case a of
        WBroadcast _ \<Rightarrow> False
      | WPost name p \<Rightarrow> name = user_Username r \<and> p = PostStop
      | WCreateUser _ \<Rightarrow> False
      | WDeleteUser _ \<Rightarrow> False
      | WDebug _ \<Rightarrow> False
      | WUser (UEffect (DbStoreUser r')) \<Rightarrow> same_rights r r'
      | _ \<Rightarrow> True)"

definition client_event :: "world_env \<times> user_event \<Rightarrow> bool" where
  "client_event e \<longleftrightarrow> fresh_db (fst e) \<and> (case snd e of EvDownstreamMessage _ _ \<Rightarrow> True | _ \<Rightarrow> False)"

lemma confined_permitted:
  assumes "\<not> user_Admin (u_record (w_user w))" and "permitted w a"
  shows "confined (u_record (w_user w)) a"
  using assms by (auto simp: permitted_def confined_def plain_action_def plain_user_def split: w_action.splits user_action.splits effect.splits)

lemma same_rights_confined: "\<not> user_Admin r \<Longrightarrow> same_rights r r' \<Longrightarrow> confined r' a \<Longrightarrow> confined r a"
  by (auto simp: confined_def same_rights_def split: w_action.splits user_action.splits effect.splits)

lemma message_kept:
  assumes "fresh_db env"
  shows "kept_by w (ev_downstream_message env i msg w)"
proof -
  obtain e acts w1 where 1: "client_handleMessage env i msg w = (e, acts, w1)" by (metis prod_cases3)
  have k: "did keeps_user permitted w (acts, w1)" using keeps_client_handleMessage [OF assms, of w i msg] by (simp add: 1)
  have "kept_by w (do_steps [\<lambda>w. (Running, acts, w), running (close_client i)] w1)"
    using kept_after [OF k op_doesD [OF keeps_client_ops(6)], of i] by (simp add: running_def case_prod_beta Let_def)
  with k kept_same_user [of w w] show ?thesis
    by (simp add: ev_downstream_message_def 1 del: do_steps.simps split: option.split down_error.split)
qed

text \<open>C4. A user who is not an administrator stays one, with the same limit on networks, whatever the clients send: no sequence of
  their messages, with all commands of IRC and of the bouncer service, makes the bouncer broadcast, change, stop or
  delete another user, create a user or switch its logging, and what is stored of the own record has the same
  rights.  The one thing that leaves the account is the request to stop it.\<close>

theorem unprivileged_confined:
  assumes "\<not> user_Admin (u_record (w_user w))" and "list_all client_event evs" and "user_run evs w = (r, acts, w')"
  shows "same_rights (u_record (w_user w)) (u_record (w_user w')) \<and> list_all (confined (u_record (w_user w))) acts"
  using assms
proof (induction evs arbitrary: w acts r)
  case Nil
  then show ?case by simp
next
  case (Cons e evs)
  obtain env i msg where e: "e = (env, EvDownstreamMessage i msg)" and f: "fresh_db env"
    using Cons.prems(2) by (cases e) (auto simp: client_event_def split: user_event.splits)
  obtain r1 acts1 w1 where s: "ev_downstream_message env i msg w = (r1, acts1, w1)" by (metis prod_cases3)
  have k: "same_rights (u_record (w_user w)) (u_record (w_user w1))" "list_all (permitted w) acts1"
    using message_kept [OF f, of w i msg] by (simp_all add: s did_kept keeps_user_def)
  have a: "list_all (confined (u_record (w_user w))) acts1"
    using k(2) confined_permitted [OF Cons.prems(1)] by (simp add: list_all_iff)
  show ?case
  proof (cases "r1 = Running")
    case True
    obtain r2 acts2 where t: "user_run evs w1 = (r2, acts2, w')" "acts = acts1 @ acts2" using Cons.prems(3) by (auto simp: e s True split: prod.splits)
    have "\<not> user_Admin (u_record (w_user w1))" using k(1) Cons.prems(1) by (simp add: same_rights_def)
    from Cons.IH [OF this _ t(1)] Cons.prems(1,2) k(1) a show ?thesis
      by (auto simp: t(2) list_all_iff intro: same_rights_trans same_rights_confined)
  next
    case False
    then have "acts = acts1" "w' = w1" using Cons.prems(3) by (cases r1; simp add: e s)+
    with k(1) a show ?thesis by simp
  qed
qed

definition client_world :: user_world where
  "client_world = example_world\<lparr>w_user := one_network\<lparr>u_downstreamConns := [example_client]\<rparr>\<rparr>"

definition broadcast_attempt :: "(world_env \<times> user_event) list" where
  "broadcast_attempt = [(example_world_env, EvDownstreamMessage 1 (mk_msg ''PRIVMSG'' [''$bouncer.example.org'', ''hello''])),
     (example_world_env, EvDownstreamMessage 1 (mk_msg ''PRIVMSG'' [''BouncerServ'', ''user update alice -max-networks 100'']))]"

theorem unprivileged_confined_witness:
  "same_rights (u_record (w_user client_world)) (u_record (w_user (snd (snd (user_run broadcast_attempt client_world)))))
   \<and> list_all (confined (u_record (w_user client_world))) (fst (snd (user_run broadcast_attempt client_world)))"
proof (rule unprivileged_confined)
  show "\<not> user_Admin (u_record (w_user client_world))" by (simp add: client_world_def one_network_def new_user_def NewUser_def)
  show "list_all client_event broadcast_attempt" by (simp add: broadcast_attempt_def client_event_def example_fresh)
  show "user_run broadcast_attempt client_world = (fst (user_run broadcast_attempt client_world),
      fst (snd (user_run broadcast_attempt client_world)), snd (snd (user_run broadcast_attempt client_world)))" by simp
qed

section \<open>Deleting the own account\<close>

lemma user_delete_command: "service_Get serviceCommands (''user'' # ''delete'' # params)
   = Inr (ServiceCommand ''<username> [confirmation token]'' ''delete a user'' (Some HUserDelete) [] False True, params)"
  by (simp add: serviceCommands_def find_command_def)

lemma user_delete_self:
  fixes env :: world_env and w :: user_world
  defines "name \<equiv> user_Username (u_record (w_user w))"
  assumes "getUser (we_server env) name \<noteq> None" and "sc_user ctx = Some name"
  shows "handleServiceCommand (service_run env) ctx [''user'', ''delete'', name, confirmation (we_server env) name] ([], w)
    = (Some (HandlerError Hangs), [''Goodbye '' @ name @ '', deleting your account. There will be no further confirmation.''],
       if sv_queued (we_server env) < events_cap then [WPost name PostStop] else [], w)"
  using assms(2,3)
  by (auto simp: handleServiceCommand_def user_delete_command service_run_def run_with_def handleUserDelete_def print_first_def stop_self_def
      own_stop_blocked op_then_def emit_def Let_def simp del: service_Get.simps)

text \<open>A command that a client sends to the service.\<close>

definition to_service :: "string \<Rightarrow> irc_message" where
  "to_service line = mk_msg ''PRIVMSG'' [serviceNick, line]"

lemma say_record: "u_record (w_user (snd (say env i msg w))) = u_record (w_user w)"
  using op_doesD [OF frame_says(1), of w env i msg] by (simp add: did_def frame_def)

lemma plain_say: "list_all plain_action (fst (say env i msg w))"
  using op_doesD [OF frame_says(1), of w env i msg] by (simp add: did_def)

lemma plain_print_lines: "list_all plain_action (fst (print_lines env i out w))"
proof -
  have "op_does frame plain (print_lines env i out)"
    unfolding print_lines_def sendServicePRIVMSG_def
    by (rule framed.op_do_ops, rule list_all_intros) (rule frame_on_client, rule tame_by_state, rule tame_SendMessage)
  from op_doesD [OF this, of w] show ?thesis by (simp add: did_def)
qed

lemma plain_none: "list_all plain_action acts \<Longrightarrow> filter (\<lambda>a. \<not> plain_action a) acts = []"
  by (simp add: filter_empty_conv list_all_iff)

lemma service_message_hangs:
  fixes env :: world_env and w :: user_world
  defines "name \<equiv> user_Username (u_record (w_user w))"
  assumes "splitWords line = Inr [''user'', ''delete'', name, confirmation (we_server env) name]" and "getUser (we_server env) name \<noteq> None"
  shows "\<exists>acts w'. service_message env dc line w = (Some HangError, acts, w')
    \<and> filter (\<lambda>a. \<not> plain_action a) acts = (if sv_queued (we_server env) < events_cap then [WPost name PostStop] else [])"
proof -
  have "sc_user (service_context_of dc w) = Some name" by (simp add: service_context_of_def name_def)
  note h = user_delete_self [OF assms(3) [unfolded name_def] this [unfolded name_def], folded name_def]
  show ?thesis
    using assms(2) by (auto simp: service_message_def handleServicePRIVMSG_def h outcome_def case_prod_beta Let_def plain_none plain_print_lines)
qed

text \<open>The way of such a message through the commands of a client.\<close>

lemma text_to_service_hangs:
  fixes env :: world_env and w :: user_world
  defines "name \<equiv> user_Username (u_record (w_user w))"
  assumes "client (dc_id dc) w = Some dc" and "dc_casemap dc serviceNick = serviceNickCM" and "dc_nickCM dc \<noteq> serviceNickCM"
    and "splitWords line = Inr [''user'', ''delete'', name, confirmation (we_server env) name]" and "getUser (we_server env) name \<noteq> None"
  shows "\<exists>acts w'. text_loop env dc (to_service line) line [serviceNick] tags w = (Some HangError, acts, w')
    \<and> filter (\<lambda>a. \<not> plain_action a) acts = (if sv_queued (we_server env) < events_cap then [WPost name PostStop] else [])"
proof -
  define echo where "echo = (if caps_IsEnabled (dc_caps dc) ''echo-message''
    then say env (dc_id dc) ((dc_msg dc ''PRIVMSG'' [serviceNick, line])\<lparr>Tags := with_time env w tags\<rparr>) else nothing)"
  obtain acts1 w1 where e: "echo w = (acts1, w1)" by fastforce
  have "list_all plain_action (fst (echo w))" "u_record (w_user (snd (echo w))) = u_record (w_user w)"
    by (simp_all add: echo_def plain_say say_record emit_def)
  then have w1: "filter (\<lambda>a. \<not> plain_action a) acts1 = []" "user_Username (u_record (w_user w1)) = name"
    by (simp_all add: e plain_none name_def)
  from service_message_hangs [of line w1 env dc, unfolded w1(2), OF assms(5,6)] obtain acts w2
    where m: "service_message env dc line w1 = (Some HangError, acts, w2)"
      "filter (\<lambda>a. \<not> plain_action a) acts = (if sv_queued (we_server env) < events_cap then [WPost name PostStop] else [])" by blast
  have "text_one env dc (to_service line) line serviceNick tags w = ((Some HangError, acts1 @ acts, w2), tags)"
    using e m(1) assms(3,4)
    by (simp add: text_one_def to_service_def echo_def run_op_def emit_def Let_def serviceNick_def split: if_splits)
  then show ?thesis using m(2) w1(1) assms(2) by (simp add: current_client_def)
qed

lemma client_command_text:
  "client_command env dc (to_service line) w =
     (case text_loop env dc (to_service line) line [serviceNick] (copyClientTags []) w of
        (Some (IrcError m), acts, w) \<Rightarrow>
          (case run_op (say env (dc_id dc) (m\<lparr>Prefix := Some (d_srvPrefix (we_down env))\<rparr>)) w of (e, acts', w) \<Rightarrow> (e, acts @ acts', w))
      | res \<Rightarrow> res)"
proof -
  have "map_of client_commands ''PRIVMSG'' = Some cmd_text" by (simp add: client_commands_def)
  moreover have "cmd_text env dc (to_service line) w = text_loop env dc (to_service line) line [serviceNick] (copyClientTags []) w"
    by (simp add: cmd_text_def with_params_def parseMessageParams_def to_service_def drop_label_if_several_def serviceNick_def run_op_def emit_def case_prod_beta
        del: text_loop.simps)
      (simp add: prod.expand split: option.split del: text_loop.simps)
  ultimately show ?thesis by (simp add: client_command_def handleMessageRegistered_def Let_def to_service_def)
qed

text \<open>C36. A user who confirms the deletion of the own account in a message to the service is not deleted, and the goroutine of the user never gets
  on: the event of that message does not end, and the only thing that leaves it is the request to stop, if the queue has room for it.  The
  handler calls \<open>stop\<close>, which waits for the loop that the handler runs in: whatever events others post and in
  whatever order the goroutines take their turns, that call never returns; called from another goroutine it would.\<close>

theorem delete_own_account_hangs:
  fixes env :: world_env and w :: user_world
  defines "name \<equiv> user_Username (u_record (w_user w))"
  assumes "client i w = Some dc" and "\<not> dc_closed dc" and "dc_casemap dc serviceNick = serviceNickCM" and "dc_nickCM dc \<noteq> serviceNickCM"
    and "splitWords line = Inr [''user'', ''delete'', name, confirmation (we_server env) name]" and "getUser (we_server env) name \<noteq> None"
  shows "(\<exists>acts w'. user_step env (EvDownstreamMessage i (to_service line)) w = (Hung, acts, w')
      \<and> filter (\<lambda>a. \<not> plain_action a) acts = (if sv_queued (we_server env) < events_cap then [WPost name PostStop] else []))
    \<and> (\<forall>s. (stop_step False)\<^sup>*\<^sup>* (own_stop (we_server env)) s \<longrightarrow> \<not> returned s)
    \<and> user_stop ((own_stop (we_server env))\<lparr>sp_loop := InHandler\<rparr>) = Some StopDone"
proof (intro conjI allI impI)
  define w1 where "w1 = set_label i (dn_label (fresh_label (to_service line) (down_state_of w dc))) w"
  have id: "dc_id dc = i" using assms(2) by (auto simp: client_def downstreamByID_def find_Some_iff)
  have w1: "u_record (w_user w1) = u_record (w_user w)" "client i w1 = Some dc" using assms(2) by (simp_all add: w1_def set_label_def client_def)
  obtain acts w2 where t: "text_loop env dc (to_service line) line [serviceNick] (copyClientTags []) w1 = (Some HangError, acts, w2)"
    "filter (\<lambda>a. \<not> plain_action a) acts = (if sv_queued (we_server env) < events_cap then [WPost name PostStop] else [])"
    using text_to_service_hangs [OF _ assms(4,5), of w1 line env "copyClientTags []"] assms(6,7) id w1 by (auto simp: name_def current_client_def)
  then have "client_handleMessage env i (to_service line) w = (Some HangError, acts, set_label i None w2)"
    using assms(2) by (simp add: client_handleMessage_def w1_def [symmetric] client_command_text id Let_def)
  then show "\<exists>acts w'. user_step env (EvDownstreamMessage i (to_service line)) w = (Hung, acts, w')
      \<and> filter (\<lambda>a. \<not> plain_action a) acts = (if sv_queued (we_server env) < events_cap then [WPost name PostStop] else [])"
    using assms(2,3) t(2) by (simp add: ev_downstream_message_def)
next
  fix s assume "(stop_step False)\<^sup>*\<^sup>* (own_stop (we_server env)) s"
  then show "\<not> returned s" using own_stop_stuck by (simp add: own_stop_def returned_def)
next
  show "user_stop ((own_stop (we_server env))\<lparr>sp_loop := InHandler\<rparr>) = Some StopDone"
    by (rule user_stop_returns) (simp_all add: own_stop_def)
qed

theorem delete_own_account_hangs_witness:
  "\<exists>acts w'. user_step example_world_env (EvDownstreamMessage 1 (to_service ''user delete alice 616c69'')) client_world = (Hung, acts, w')
    \<and> filter (\<lambda>a. \<not> plain_action a) acts = [WPost ''alice'' PostStop]"
proof -
  have name: "user_Username (u_record (w_user client_world)) = ''alice''"
    by (simp add: client_world_def example_world_def one_network_def new_user_def NewUser_def)
  have c: "client 1 client_world = Some example_client" by (simp add: client_def client_world_def downstreamByID_def example_client_def newDownstreamConn_def)
  have d: "\<not> dc_closed example_client" "dc_casemap example_client serviceNick = serviceNickCM" "dc_nickCM example_client \<noteq> serviceNickCM"
    by code_simp+
  have token: "confirmation example_server_env ''alice'' = ''616c69''"
    by (simp add: confirmation_def example_server_env_def hex_EncodeToString_def) code_simp
  have r: "runes ''user delete alice 616c69'' = [117, 115, 101, 114, 32, 100, 101, 108, 101, 116, 101, 32, 97, 108, 105, 99, 101, 32, 54, 49, 54, 99, 54, 57]"
    by code_simp
  have "map encode_runes (fields_runes IsSpace [] (runes ''user delete alice 616c69'')) = [''user'', ''delete'', ''alice'', ''616c69'']"
    unfolding r by (simp add: IsSpace_def encode_runes_def, code_simp)
  moreover have "list_all plain_rune (runes ''user delete alice 616c69'')" unfolding r by (simp add: plain_rune_def)
  ultimately have words: "splitWords ''user delete alice 616c69'' = Inr [''user'', ''delete'', ''alice'', ''616c69'']" using splitWords_plain by metis
  have env: "we_server example_world_env = example_server_env" "getUser example_server_env ''alice'' \<noteq> None" "sv_queued example_server_env = 0"
    by (simp_all add: example_world_env_def example_server_env_def getUser_def NewUser_def)
  show ?thesis
    using delete_own_account_hangs [OF c d, of "''user delete alice 616c69''" example_world_env] by (simp add: name token words env events_cap_def)
qed

end
