(* ===== verification/Znc_Log.thy ===== *)
theory Znc_Log
  imports Bouncer_State Go_Time
begin

text \<open>
  The lines of the logs of the file message store, \<^verbatim>\<open>src/msgstore/znclog\<close>: writing a message with its time of day, and
  reading a line back.  With the local times of Go's \<open>time\<close> package; the time zone is a parameter.
\<close>

section \<open>Local times\<close>

text \<open>A zone is the function \<open>Location.lookup\<close>: the offset in use at a time in seconds, with the range of times it is in
  use.  \<open>time.Date\<close> looks the offset up for the local time and, when the result is outside of the range, again; months outside of the year are carried.\<close>

record zone =
  z_lookup :: "int \<Rightarrow> int \<times> int \<times> int"

definition second_ns :: int where "second_ns = 1000000000"

definition local_secs :: "zone \<Rightarrow> int \<Rightarrow> int" where
  "local_secs z t = t div second_ns + fst (z_lookup z (t div second_ns))"

definition local_Date :: "zone \<Rightarrow> int \<Rightarrow> int \<times> int \<times> int" where
  "local_Date z t = date_of_days (local_secs z t div 86400)"

definition local_Clock :: "zone \<Rightarrow> int \<Rightarrow> int \<times> int \<times> int" where
  "local_Clock z t = (let s = local_secs z t mod 86400 in (s div 3600, s div 60 mod 60, s mod 60))"

definition time_Date :: "zone \<Rightarrow> int \<times> int \<times> int \<Rightarrow> int \<times> int \<times> int \<Rightarrow> int" where
  "time_Date z date clock =
     (case (date, clock) of
        ((y, mo, d), (h, mi, s)) \<Rightarrow>
          let unix = days_of_date (y + (mo - 1) div 12) ((mo - 1) mod 12 + 1) d * 86400 + h * 3600 + mi * 60 + s;
              (offset, start, end) = z_lookup z unix;
              utc = unix - offset;
              offset = (if offset \<noteq> 0 \<and> (utc < start \<or> utc \<ge> end) then fst (z_lookup z utc) else offset)
          in (unix - offset) * second_ns)"

text \<open>A zone with one offset, and times that their local date and clock determine up to the second.\<close>

definition fixed_zone :: "int \<Rightarrow> zone" where
  "fixed_zone offset = \<lparr>z_lookup = \<lambda>_. (offset, - (2 ^ 63), 2 ^ 63 - 1)\<rparr>"

definition unambiguous :: "zone \<Rightarrow> int \<Rightarrow> bool" where
  "unambiguous z t \<longleftrightarrow> time_Date z (local_Date z t) (local_Clock z t) = t - t mod second_ns"

lemma le_div_int: "0 < c \<Longrightarrow> q \<le> (x :: int) div c \<longleftrightarrow> q * c \<le> x"
proof -
  assume c: "0 < c"
  have "q \<le> x div c" if "q * c \<le> x" using zdiv_mono1 [OF that c] c by simp
  moreover have "q * c \<le> x" if "q \<le> x div c"
  proof -
    have "q * c \<le> x div c * c" using that c by simp
    also have "\<dots> \<le> x" using c minus_mod_eq_div_mult [of x c] pos_mod_sign [OF c, of x] by linarith
    finally show ?thesis .
  qed
  ultimately show ?thesis by blast
qed

lemma local_Clock_range:
  assumes "local_Clock z t = (h, mi, s)"
  shows "0 \<le> h" "h < 24" "0 \<le> mi" "mi < 60" "0 \<le> s" "s < 60"
proof -
  define x where "x = local_secs z t mod 86400"
  have x: "0 \<le> x" "x \<le> 86399" by (auto simp: x_def)
  have e: "h = x div 3600" "mi = x div 60 mod 60" "s = x mod 60" using assms by (auto simp: local_Clock_def Let_def x_def)
  show "0 \<le> h" "0 \<le> mi" "mi < 60" "0 \<le> s" "s < 60" using x by (auto simp: e)
  show "h < 24" using zdiv_mono1 [OF x(2), of 3600] by (simp add: e)
qed

lemma clock_seconds:
  fixes x :: int
  assumes "0 \<le> x"
  shows "x div 3600 * 3600 + x div 60 mod 60 * 60 + x mod 60 = x"
proof -
  have "x div 60 div 60 = x div 3600" using zdiv_zmult2_eq [of 60 x 60] by simp
  then show ?thesis using div_mult_mod_eq [of "x div 60" 60] div_mult_mod_eq [of x 60] by linarith
qed

text \<open>The time that a local time stands for, in seconds.\<close>

definition from_local :: "zone \<Rightarrow> int \<Rightarrow> int" where
  "from_local z l =
     (case z_lookup z l of
        (offset, start, end) \<Rightarrow> l - (if offset \<noteq> 0 \<and> (l - offset < start \<or> l - offset \<ge> end) then fst (z_lookup z (l - offset)) else offset))"

lemma time_Date_local:
  assumes "date_of_days D = (y, mo, d)"
  shows "time_Date z (y, mo, d) (h, mi, s) = from_local z (D * 86400 + h * 3600 + mi * 60 + s) * second_ns"
  using date_of_days_spec [OF assms] by (simp add: time_Date_def from_local_def Let_def mod_pos_pos_trivial split: prod.split)

lemma unambiguous_local: "unambiguous z t \<longleftrightarrow> from_local z (local_secs z t) = t div second_ns"
proof -
  define l where "l = local_secs z t"
  obtain y mo d where date: "date_of_days (l div 86400) = (y, mo, d)" by (metis prod_cases3)
  have "l mod 86400 div 3600 * 3600 + l mod 86400 div 60 mod 60 * 60 + l mod 86400 mod 60 = l mod 86400"
    by (rule clock_seconds) simp
  then have "l div 86400 * 86400 + l mod 86400 div 3600 * 3600 + l mod 86400 div 60 mod 60 * 60 + l mod 86400 mod 60 = l"
    using div_mult_mod_eq [of l 86400] by linarith
  then have "time_Date z (local_Date z t) (local_Clock z t) = from_local z l * second_ns"
    unfolding local_Date_def local_Clock_def l_def [symmetric] date Let_def time_Date_local [OF date] by simp
  then show ?thesis by (simp add: unambiguous_def minus_mod_eq_div_mult second_ns_def l_def)
qed

lemma from_local_fixed: "from_local (fixed_zone offset) l = l - offset"
  by (simp add: from_local_def fixed_zone_def)

lemma fixed_zone_unambiguous: "unambiguous (fixed_zone offset) t"
  unfolding unambiguous_local from_local_fixed by (simp add: local_secs_def fixed_zone_def)

section \<open>Writing\<close>

text \<open>\<open>None\<close> is a panic: a message without prefix or with too few parameters.  An empty line means that the message is not
  logged.\<close>

definition formatMessage :: "unicode_tables \<Rightarrow> irc_message \<Rightarrow> string option" where
  "formatMessage U msg =
     (let cmd = ToUpper U (Command msg); params = Params msg; n = length params in
      if \<not> List.member [''NICK'', ''JOIN'', ''PART'', ''KICK'', ''QUIT'', ''TOPIC'', ''MODE'', ''NOTICE'', ''PRIVMSG''] cmd then Some []
      else (case Prefix msg of
          None \<Rightarrow> None
        | Some p \<Rightarrow>
            let full = Name p @ '' ('' @ User p @ ''@'' @ Host p @ '')'' in
            if cmd = ''NICK'' then (if n < 1 then None else Some (''*** '' @ Name p @ '' is now known as '' @ params ! 0))
            else if cmd = ''JOIN'' then Some (''*** Joins: '' @ full)
            else if cmd = ''PART'' then Some (''*** Parts: '' @ full @ '' ('' @ (if n > 1 then params ! 1 else []) @ '')'')
            else if cmd = ''KICK'' then
              (if n < 2 then None
               else Some (''*** '' @ params ! 1 @ '' was kicked by '' @ Name p @ '' ('' @ (if n > 2 then params ! 2 else []) @ '')''))
            else if cmd = ''QUIT'' then Some (''*** Quits: '' @ full @ '' ('' @ (if n > 0 then params ! 0 else []) @ '')'')
            else if cmd = ''TOPIC'' then Some (''*** '' @ Name p @ '' changes topic to '' @ [CHR 0x27] @ (if n > 1 then params ! 1 else []) @ [CHR 0x27])
            else if cmd = ''MODE'' then
              (if n < 1 then None else Some (''*** '' @ Name p @ '' sets mode: '' @ Join (tl params) '' ''))
            else if cmd = ''NOTICE'' then (if n < 2 then None else Some (''-'' @ Name p @ ''- '' @ params ! 1))
            else (case ParseCTCPMessage U msg of
                Some (ctcp, ps) \<Rightarrow>
                  if ctcp = ''ACTION'' then Some (''* '' @ Name p @ '' '' @ ps)
                  else if n < 2 then None else Some (''<'' @ Name p @ ''> '' @ params ! 1)
              | None \<Rightarrow> if n < 2 then None else Some (''<'' @ Name p @ ''> '' @ params ! 1))))"

definition timestamp :: "int \<times> int \<times> int \<Rightarrow> string" where
  "timestamp clock =
     (case clock of (h, mi, s) \<Rightarrow> ''['' @ appendInt h 2 @ '':'' @ appendInt mi 2 @ '':'' @ appendInt s 2 @ ''] '')"

definition MarshalLine :: "unicode_tables \<Rightarrow> zone \<Rightarrow> irc_message \<Rightarrow> int \<Rightarrow> string option" where
  "MarshalLine U z msg t =
     (case formatMessage U msg of
        None \<Rightarrow> None
      | Some s \<Rightarrow> if s = [] then Some [] else Some (timestamp (local_Clock z t) @ s))"

section \<open>Reading the time\<close>

text \<open>\<open>fmt.Sscanf\<close> with the format \<^verbatim>\<open>[%02d:%02d:%02d] \<close>: a number may have spaces in front, a sign, and with it at most two
  runes; the blank at the end stands for one space or more, or the end of the line.\<close>

definition scan_space :: "rune list \<Rightarrow> rune list option" where
  "scan_space rs = (if 10 \<in> set (takeWhile IsSpace rs) then None else Some (dropWhile IsSpace rs))"

definition rune_digit :: "rune \<Rightarrow> bool" where
  "rune_digit r \<longleftrightarrow> 48 \<le> r \<and> r \<le> 57"

definition scan_digits :: "nat \<Rightarrow> rune list \<Rightarrow> (int \<times> rune list) option" where
  "scan_digits k rs =
     (let ds = takeWhile rune_digit (take k rs) in
      if ds = [] then None else Some (foldl (\<lambda>a r. a * 10 + (int r - 48)) 0 ds, drop (length ds) rs))"

definition scan_int2 :: "rune list \<Rightarrow> (int \<times> rune list) option" where
  "scan_int2 rs =
     Option.bind (scan_space rs) (\<lambda>rs.
       case rs of
         [] \<Rightarrow> None
       | r # rest \<Rightarrow>
           if r = 43 then scan_digits 1 rest
           else if r = 45 then map_option (apfst uminus) (scan_digits 1 rest)
           else scan_digits 2 rs)"

definition scan_rune :: "rune \<Rightarrow> rune list \<Rightarrow> rune list option" where
  "scan_rune c rs = (case rs of [] \<Rightarrow> None | r # rs \<Rightarrow> if r = c then Some rs else None)"

definition scan_blank :: "rune list \<Rightarrow> bool" where
  "scan_blank rs \<longleftrightarrow> (case rs of [] \<Rightarrow> True | r # _ \<Rightarrow> IsSpace r \<and> r \<noteq> 10)"

definition scan_timestamp :: "string \<Rightarrow> (int \<times> int \<times> int) option" where
  "scan_timestamp line =
     Option.bind (scan_rune 91 (runes line)) (\<lambda>rs.
     Option.bind (scan_int2 rs) (\<lambda>(h, rs).
     Option.bind (scan_rune 58 rs) (\<lambda>rs.
     Option.bind (scan_int2 rs) (\<lambda>(mi, rs).
     Option.bind (scan_rune 58 rs) (\<lambda>rs.
     Option.bind (scan_int2 rs) (\<lambda>(s, rs).
     Option.bind (scan_rune 93 rs) (\<lambda>rs.
     if scan_blank rs then Some (h, mi, s) else None)))))))"

section \<open>Reading a line\<close>

definition TrimPrefix :: "string \<Rightarrow> string \<Rightarrow> string" where
  "TrimPrefix s p = (if HasPrefix s p then drop (length p) s else s)"

definition TrimSuffix :: "string \<Rightarrow> string \<Rightarrow> string" where
  "TrimSuffix s p = (if HasPrefix (rev s) (rev p) then take (length s - length p) s else s)"

definition parens :: "string \<Rightarrow> string" where
  "parens s = TrimSuffix (TrimPrefix s ''('') '')''"

text \<open>\<open>strings.SplitN(s, sep, 2)\<close> when there are two parts.\<close>

definition split_at :: "string \<Rightarrow> string \<Rightarrow> (string \<times> string) option" where
  "split_at s sep = map_option (\<lambda>k. (take k s, drop (k + length sep) s)) (Index s sep)"

definition strip :: "string \<Rightarrow> string \<Rightarrow> string option" where
  "strip s p = (if HasPrefix s p then Some (drop (length p) s) else None)"

type_synonym log_entry = "string \<times> irc_prefix \<times> string list"

definition only_name :: "string \<Rightarrow> irc_prefix" where
  "only_name s = \<lparr>Name = s, User = [], Host = []\<rparr>"

definition opt_param :: "string \<Rightarrow> string list" where
  "opt_param s = (if s = [] then [] else [s])"

definition membership_line :: "string \<Rightarrow> string \<Rightarrow> string \<Rightarrow> log_entry option" where
  "membership_line kind rest entity =
     (case SplitN rest CHR '' '' 3 of
        nick # um # args \<Rightarrow>
          (case Cut (parens um) CHR ''@'' of
             None \<Rightarrow> None
           | Some (user, host) \<Rightarrow>
               let p = \<lparr>Name = nick, User = user, Host = host\<rparr>; reason = (case args of [] \<Rightarrow> [] | r # _ \<Rightarrow> parens r) in
               if kind = ''Joins:'' then Some (''JOIN'', p, [entity])
               else if kind = ''Parts:'' then Some (''PART'', p, entity # opt_param reason)
               else Some (''QUIT'', p, opt_param reason))
      | _ \<Rightarrow> None)"

definition event_line :: "string \<Rightarrow> string \<Rightarrow> log_entry option" where
  "event_line line entity =
     (case Cut line CHR '' '' of
        None \<Rightarrow> None
      | Some (nick, rest) \<Rightarrow>
          if List.member [''Joins:'', ''Parts:'', ''Quits:''] nick then membership_line nick rest entity
          else (case strip rest ''is now known as '' of
              Some r \<Rightarrow> Some (''NICK'', only_name nick, [r])
            | None \<Rightarrow>
          (case strip rest ''was kicked by '' of
              Some r \<Rightarrow>
                (case Cut r CHR '' '' of
                   None \<Rightarrow> None
                 | Some (kicker, reason) \<Rightarrow> Some (''KICK'', only_name kicker, [entity, nick] @ opt_param (parens reason)))
            | None \<Rightarrow>
          (case strip rest ''changes topic to '' of
              Some r \<Rightarrow> Some (''TOPIC'', only_name nick, [entity, TrimSuffix (TrimPrefix r [CHR 0x27]) [CHR 0x27]])
            | None \<Rightarrow>
          (case strip rest ''sets mode: '' of
              Some r \<Rightarrow> Some (''MODE'', only_name nick, entity # Split r CHR '' '')
            | None \<Rightarrow> None)))))"

definition text_line :: "db_user \<Rightarrow> db_network option \<Rightarrow> string \<Rightarrow> string \<Rightarrow> log_entry option" where
  "text_line user network line entity =
     (case (if HasPrefix line ''<'' then map_option (Pair ''PRIVMSG'') (split_at (tl line) ''> '')
            else if HasPrefix line ''-'' then map_option (Pair ''NOTICE'') (split_at (tl line) ''- '')
            else if HasPrefix line ''* '' then
              map_option (\<lambda>(sender, s). (''PRIVMSG'', sender, [ctcp_delim] @ ''ACTION '' @ s @ [ctcp_delim])) (Cut (drop 2 line) CHR '' '')
            else None) of
        None \<Rightarrow> None
      | Some (cmd, sender, s) \<Rightarrow>
          Some (cmd, only_name sender, [if entity = sender then GetNick user network else entity, s]))"

datatype line_error = MalformedTimestamp | TimestampTooShort

definition timestampPrefixLen :: nat where "timestampPrefixLen = length ''[01:02:03] ''"

definition UnmarshalLine ::
    "zone \<Rightarrow> string \<Rightarrow> db_user \<Rightarrow> db_network option \<Rightarrow> string \<Rightarrow> int \<Rightarrow> bool \<Rightarrow> line_error + (irc_message \<times> int) option" where
  "UnmarshalLine z line user network entity ref events =
     (case scan_timestamp line of
        None \<Rightarrow> Inl MalformedTimestamp
      | Some clock \<Rightarrow>
          if length line < timestampPrefixLen then Inl TimestampTooShort
          else
            let line = drop timestampPrefixLen line in
            (case (if events \<and> HasPrefix line ''*** '' then event_line (drop 4 line) entity else text_line user network line entity) of
               None \<Rightarrow> Inr None
             | Some (cmd, p, params) \<Rightarrow>
                 let t = time_Date z (local_Date z ref) clock in
                 Inr (Some (\<lparr>Tags = [(''time'', FormatServerTime t)], Prefix = Some p, Command = cmd, Params = params\<rparr>, t))))"

section \<open>Reading back\<close>

lemma TrimPrefix_append [simp]: "TrimPrefix (p @ s) p = s"
  by (simp add: TrimPrefix_def)

lemma TrimSuffix_append [simp]: "TrimSuffix (s @ p) p = s"
  by (simp add: TrimSuffix_def)

lemma parens_append [simp]: "parens (''('' @ s @ '')'') = s"
  using TrimPrefix_append [of "''(''" "s @ '')''"] by (simp add: parens_def del: append_Cons TrimPrefix_append)

lemma strip_append [simp]: "strip (p @ s) p = Some s"
  by (simp add: strip_def)

lemma Index_append:
  assumes "CHR '' '' \<notin> set a"
  shows "Index (a @ c # CHR '' '' # b) [c, CHR '' ''] = Some (length a)"
  using assms
proof (induction a)
  case (Cons x a)
  then show ?case by (cases a) (auto simp: HasPrefix_def)
qed (simp add: HasPrefix_def)

lemma split_at_append: "CHR '' '' \<notin> set a \<Longrightarrow> split_at (a @ c # CHR '' '' # b) [c, CHR '' ''] = Some (a, b)"
  by (simp add: split_at_def Index_append)

lemma runes_digits: "list_all is_digit s \<Longrightarrow> runes (s @ r) = map of_char s @ runes r"
  by (induction s) (auto simp: is_digit_def)

lemma scan_space_id: "rs = r # rs' \<Longrightarrow> \<not> IsSpace r \<Longrightarrow> scan_space rs = Some rs"
  by (simp add: scan_space_def)

lemma scan_int2_pad:
  assumes "0 \<le> x" "x < 100"
  shows "scan_int2 (map of_char (appendInt x 2) @ rs) = Some (x, rs)"
proof -
  have d: "appendInt x 2 = [digit_char (nat x div 10), digit_char (nat x mod 10)]"
    using assms by (auto simp: appendInt_pos numeral_2_eq_2)
  have v: "nat x div 10 < 10" using assms by (simp add: less_mult_imp_div_less)
  have c: "of_char (digit_char n) = 48 + n" if "n < 10" for n using that by (simp add: digit_char_def)
  have "int (nat x div 10) * 10 + int (nat x mod 10) = x"
    using assms by (simp add: zdiv_int zmod_int)
  with v show ?thesis
    unfolding d by (simp add: scan_int2_def c scan_space_def IsSpace_def scan_digits_def rune_digit_def numeral_2_eq_2)
qed

lemma scan_timestamp_written:
  assumes "local_Clock z t = (h, mi, s)"
  shows "scan_timestamp (timestamp (h, mi, s) @ r) = Some (h, mi, s)" "length (timestamp (h, mi, s)) = timestampPrefixLen"
proof -
  note b = local_Clock_range [OF assms]
  have dig: "list_all is_digit (appendInt x 2)" "length (appendInt x 2) = 2" if "0 \<le> x" "x < 60" for x
    using that pad_nat_digits pad_nat_length [of "nat x" 2] by (simp_all add: appendInt_pos)
  have "runes (timestamp (h, mi, s) @ r) = 91 # map of_char (appendInt h 2) @ 58 # map of_char (appendInt mi 2) @ 58 # map of_char (appendInt s 2) @ 93 # 32 # runes r"
    using b dig by (simp add: timestamp_def runes_digits)
  then show "scan_timestamp (timestamp (h, mi, s) @ r) = Some (h, mi, s)"
    using b by (simp add: scan_timestamp_def scan_rune_def scan_int2_pad scan_blank_def IsSpace_def)
  show "length (timestamp (h, mi, s)) = timestampPrefixLen"
    using b dig by (simp add: timestamp_def timestampPrefixLen_def)
qed

text \<open>What the log keeps of a message: the prefix of a joining, parting or quitting user and the name of any other, no empty
  reason, the target as the name of the log, and for a message to the user the nick that is configured.\<close>

definition log_view :: "unicode_tables \<Rightarrow> db_user \<Rightarrow> db_network option \<Rightarrow> string \<Rightarrow> irc_message \<Rightarrow> irc_prefix \<Rightarrow> log_entry" where
  "log_view U user network entity msg p =
     (let cmd = Command msg; params = Params msg; p' = only_name (Name p);
          tgt = (if entity = Name p then GetNick user network else entity)
      in if cmd = ''JOIN'' then (cmd, p, [entity])
         else if cmd = ''PART'' then (cmd, p, entity # opt_param (if length params > 1 then params ! 1 else []))
         else if cmd = ''QUIT'' then (cmd, p, opt_param (if params = [] then [] else params ! 0))
         else if cmd = ''NICK'' then (cmd, p', [params ! 0])
         else if cmd = ''KICK'' then (cmd, p', [entity, params ! 1] @ opt_param (if length params > 2 then params ! 2 else []))
         else if cmd = ''TOPIC'' then (cmd, p', [entity, if length params > 1 then params ! 1 else []])
         else if cmd = ''MODE'' then (cmd, p', entity # tl params)
         else (cmd, p', [tgt, case ParseCTCPMessage U msg of
             Some (ctcp, s) \<Rightarrow> if cmd = ''PRIVMSG'' \<and> ctcp = ''ACTION'' then [ctcp_delim] @ ''ACTION '' @ s @ [ctcp_delim] else params ! 1
           | None \<Rightarrow> params ! 1]))"

text \<open>Messages that IRC allows: names without spaces that are none of the marks of the log, users and hosts without spaces, mode
  parameters without spaces, and as many parameters as the command has.\<close>

definition nick_ok :: "string \<Rightarrow> bool" where
  "nick_ok s \<longleftrightarrow> CHR '' '' \<notin> set s \<and> \<not> List.member [''Joins:'', ''Parts:'', ''Quits:''] s"

definition loggable :: "irc_message \<Rightarrow> irc_prefix \<Rightarrow> bool" where
  "loggable msg p \<longleftrightarrow>
     Prefix msg = Some p \<and> nick_ok (Name p) \<and> CHR '' '' \<notin> set (User p) \<and> CHR ''@'' \<notin> set (User p) \<and> CHR '' '' \<notin> set (Host p)
     \<and> (let cmd = Command msg; params = Params msg in
          List.member [''JOIN'', ''PART'', ''QUIT'', ''TOPIC''] cmd
          \<or> (cmd = ''NICK'' \<and> params \<noteq> [])
          \<or> (cmd = ''KICK'' \<and> length params > 1 \<and> nick_ok (params ! 1))
          \<or> (cmd = ''MODE'' \<and> length params > 1 \<and> list_all (\<lambda>s. CHR '' '' \<notin> set s) (tl params))
          \<or> (List.member [''PRIVMSG'', ''NOTICE''] cmd \<and> length params > 1))"


text \<open>The entry of a line without its time.\<close>

definition line_entry :: "db_user \<Rightarrow> db_network option \<Rightarrow> string \<Rightarrow> string \<Rightarrow> log_entry option" where
  "line_entry user network line entity =
     (if HasPrefix line ''*** '' then event_line (drop 4 line) entity else text_line user network line entity)"

lemma line_entry_event: "line_entry user network (''*** '' @ s) entity = event_line s entity"
  by (simp add: line_entry_def HasPrefix_def)

lemma SplitN_3: "CHR '' '' \<notin> set a \<Longrightarrow> CHR '' '' \<notin> set b \<Longrightarrow> SplitN (a @ CHR '' '' # b @ CHR '' '' # c) CHR '' '' 3 = [a, b, c]"
  by (simp add: numeral_3_eq_3)

lemma SplitN_3_two: "CHR '' '' \<notin> set a \<Longrightarrow> CHR '' '' \<notin> set b \<Longrightarrow> SplitN (a @ CHR '' '' # b) CHR '' '' 3 = [a, b]"
  by (simp add: numeral_3_eq_3 Cut_None [THEN iffD2])

lemma event_line_nick: "nick_ok nick \<Longrightarrow> event_line (nick @ CHR '' '' # rest) entity = 
   (case strip rest ''is now known as '' of
              Some r \<Rightarrow> Some (''NICK'', only_name nick, [r])
            | None \<Rightarrow>
          (case strip rest ''was kicked by '' of
              Some r \<Rightarrow>
                (case Cut r CHR '' '' of
                   None \<Rightarrow> None
                 | Some (kicker, reason) \<Rightarrow> Some (''KICK'', only_name kicker, [entity, nick] @ opt_param (parens reason)))
            | None \<Rightarrow>
          (case strip rest ''changes topic to '' of
              Some r \<Rightarrow> Some (''TOPIC'', only_name nick, [entity, TrimSuffix (TrimPrefix r [CHR 0x27]) [CHR 0x27]])
            | None \<Rightarrow>
          (case strip rest ''sets mode: '' of
              Some r \<Rightarrow> Some (''MODE'', only_name nick, entity # Split r CHR '' '')
            | None \<Rightarrow> None))))"
  by (simp add: event_line_def nick_ok_def)

lemma membership_line_written:
  assumes "nick_ok (Name p)" "CHR '' '' \<notin> set (User p)" "CHR ''@'' \<notin> set (User p)" "CHR '' '' \<notin> set (Host p)"
  shows "membership_line ''Joins:'' (Name p @ '' ('' @ User p @ ''@'' @ Host p @ '')'') entity = Some (''JOIN'', p, [entity])"
    and "kind \<noteq> ''Joins:'' \<Longrightarrow> membership_line kind (Name p @ '' ('' @ User p @ ''@'' @ Host p @ '') ('' @ r @ '')'') entity
      = Some (if kind = ''Parts:'' then (''PART'', p, entity # opt_param r) else (''QUIT'', p, opt_param r))"
proof -
  have m: "parens (CHR ''('' # User p @ CHR ''@'' # Host p @ '')'') = User p @ CHR ''@'' # Host p"
    using parens_append [of "User p @ CHR ''@'' # Host p"] by simp
  have r: "parens (CHR ''('' # r @ '')'') = r" using parens_append [of r] by simp
  have n: "CHR '' '' \<notin> set (Name p)" using assms(1) by (simp add: nick_ok_def)
  note two = SplitN_3_two [OF n, of "CHR ''('' # User p @ CHR ''@'' # Host p @ '')''"]
  show "membership_line ''Joins:'' (Name p @ '' ('' @ User p @ ''@'' @ Host p @ '')'') entity = Some (''JOIN'', p, [entity])"
    using assms two m by (simp add: membership_line_def)
  note three = SplitN_3 [OF n, of "CHR ''('' # User p @ CHR ''@'' # Host p @ '')''" "CHR ''('' # r @ '')''"]
  show "membership_line kind (Name p @ '' ('' @ User p @ ''@'' @ Host p @ '') ('' @ r @ '')'') entity
      = Some (if kind = ''Parts:'' then (''PART'', p, entity # opt_param r) else (''QUIT'', p, opt_param r))" if "kind \<noteq> ''Joins:''"
    using assms three m r that by (simp add: membership_line_def)
qed


lemma ToUpper_upper: "list_all (\<lambda>c. (of_char c :: nat) < 97) s \<Longrightarrow> ToUpper U s = s"
  by (induction s) (auto simp: ToUpper_def str_map_ascii_Cons rune_upper_def)

lemma ToUpper_commands [simp]:
  "ToUpper U ''NICK'' = ''NICK''" "ToUpper U ''JOIN'' = ''JOIN''" "ToUpper U ''PART'' = ''PART''" "ToUpper U ''KICK'' = ''KICK''"
  "ToUpper U ''QUIT'' = ''QUIT''" "ToUpper U ''TOPIC'' = ''TOPIC''" "ToUpper U ''MODE'' = ''MODE''" "ToUpper U ''NOTICE'' = ''NOTICE''"
  "ToUpper U ''PRIVMSG'' = ''PRIVMSG''"
  by (rule ToUpper_upper; simp)+

lemma log_membership:
  assumes "loggable msg p" "List.member [''JOIN'', ''PART'', ''QUIT''] (Command msg)"
  shows "\<exists>s. formatMessage U msg = Some s \<and> s \<noteq> [] \<and> line_entry user network s entity = Some (log_view U user network entity msg p)"
proof -
  have p: "Prefix msg = Some p" "nick_ok (Name p)" "CHR '' '' \<notin> set (User p)" "CHR ''@'' \<notin> set (User p)" "CHR '' '' \<notin> set (Host p)"
    using assms(1) by (simp_all add: loggable_def)
  note m = membership_line_written [OF p(2-5), where entity = entity]
  have e: "line_entry user network (''*** '' @ kind @ '' '' @ rest) entity = membership_line kind rest entity"
    if "List.member [''Joins:'', ''Parts:'', ''Quits:''] kind" for kind rest
    unfolding line_entry_event using that by (auto simp: event_line_def)
  consider "Command msg = ''JOIN''" | "Command msg = ''PART''" | "Command msg = ''QUIT''" using assms(2) by auto
  then show ?thesis
  proof cases
    case 1
    then show ?thesis using m(1) e [of "''Joins:''"] p(1) by (simp add: formatMessage_def log_view_def Let_def)
  next
    case 2
    show ?thesis using m(2) [of "''Parts:''"] m(2) [of "''Parts:''" "[]"] e [of "''Parts:''"] p(1) 2
      by (cases "length (Params msg) > 1") (simp_all add: formatMessage_def log_view_def Let_def)
  next
    case 3
    show ?thesis using m(2) [of "''Quits:''"] m(2) [of "''Quits:''" "[]"] e [of "''Quits:''"] p(1) 3
      by (cases "Params msg") (simp_all add: formatMessage_def log_view_def Let_def)
  qed
qed

lemma log_event:
  assumes "loggable msg p" "List.member [''NICK'', ''KICK'', ''TOPIC'', ''MODE''] (Command msg)"
  shows "\<exists>s. formatMessage U msg = Some s \<and> s \<noteq> [] \<and> line_entry user network s entity = Some (log_view U user network entity msg p)"
proof -
  have p: "Prefix msg = Some p" "nick_ok (Name p)" using assms(1) by (simp_all add: loggable_def)
  note l = line_entry_event [of user network _ entity]
  have e: "event_line (nick @ '' is now known as '' @ r) entity = Some (''NICK'', only_name nick, [r])"
    "event_line (nick @ '' changes topic to '' @ [CHR 0x27] @ r @ [CHR 0x27]) entity = Some (''TOPIC'', only_name nick, [entity, r])"
    "event_line (nick @ '' sets mode: '' @ r) entity = Some (''MODE'', only_name nick, entity # Split r CHR '' '')" if "nick_ok nick" for nick r
    using event_line_nick [OF that] strip_append [of "''is now known as ''" r] strip_append [of "''sets mode: ''" r]
      strip_append [of "''changes topic to ''" "[CHR 0x27] @ r @ [CHR 0x27]"] TrimPrefix_append [of "[CHR 0x27]" "r @ [CHR 0x27]"]
    by (simp_all add: strip_def HasPrefix_def)
  have k: "event_line (nick @ '' was kicked by '' @ kicker @ '' ('' @ r @ '')'') entity = Some (''KICK'', only_name kicker, [entity, nick] @ opt_param r)"
    if "nick_ok nick" "nick_ok kicker" for nick r kicker
    using event_line_nick [OF that(1), of "''was kicked by '' @ kicker @ '' ('' @ r @ '')''"] that(2) parens_append [of r]
    by (simp add: strip_def HasPrefix_def nick_ok_def)
  consider "Command msg = ''NICK''" | "Command msg = ''KICK''" | "Command msg = ''TOPIC''" | "Command msg = ''MODE''" using assms(2) by auto
  then show ?thesis
  proof cases
    case 1
    then show ?thesis using e(1) [OF p(2)] l p(1) assms(1) by (cases "Params msg") (simp_all add: formatMessage_def log_view_def loggable_def Let_def)
  next
    case 2
    show ?thesis using k [OF _ p(2), of "Params msg ! 1"] k [OF _ p(2), of "Params msg ! 1" "[]"] l p(1) assms(1) 2
      by (cases "length (Params msg) > 2") (simp_all add: formatMessage_def log_view_def loggable_def Let_def)
  next
    case 3
    show ?thesis using e(2) [OF p(2)] e(2) [OF p(2), of "[]"] l p(1) 3
      by (cases "length (Params msg) > 1") (simp_all add: formatMessage_def log_view_def Let_def)
  next
    case 4
    then have "length (Params msg) > 1" and sp: "list_all (\<lambda>s. CHR '' '' \<notin> set s) (tl (Params msg))" using assms(1) by (simp_all add: loggable_def Let_def)
    then have "Split (Join (tl (Params msg)) '' '') CHR '' '' = tl (Params msg)"
      by (intro Split_Join) (auto simp: list_all_iff tl_Nil)
    then show ?thesis using e(3) [OF p(2)] l p(1) 4 \<open>length (Params msg) > 1\<close>
      by (cases "Params msg") (simp_all add: formatMessage_def log_view_def Let_def)
  qed
qed

lemma log_text:
  assumes "loggable msg p" "List.member [''PRIVMSG'', ''NOTICE''] (Command msg)"
  shows "\<exists>s. formatMessage U msg = Some s \<and> s \<noteq> [] \<and> line_entry user network s entity = Some (log_view U user network entity msg p)"
proof -
  have p: "Prefix msg = Some p" "CHR '' '' \<notin> set (Name p)" "length (Params msg) > 1" using assms by (auto simp: loggable_def nick_ok_def)
  have t: "text_line user network (''<'' @ Name p @ ''> '' @ r) entity = Some (''PRIVMSG'', only_name (Name p), [if entity = Name p then GetNick user network else entity, r])"
    "text_line user network (''-'' @ Name p @ ''- '' @ r) entity = Some (''NOTICE'', only_name (Name p), [if entity = Name p then GetNick user network else entity, r])"
    "text_line user network (''* '' @ Name p @ '' '' @ r) entity
      = Some (''PRIVMSG'', only_name (Name p), [if entity = Name p then GetNick user network else entity, [ctcp_delim] @ ''ACTION '' @ r @ [ctcp_delim]])" for r
    using split_at_append [OF p(2)] p(2) by (simp_all add: text_line_def HasPrefix_def)
  have l: "line_entry user network (''<'' @ Name p @ ''> '' @ r) entity = text_line user network (''<'' @ Name p @ ''> '' @ r) entity"
    "line_entry user network (''-'' @ Name p @ ''- '' @ r) entity = text_line user network (''-'' @ Name p @ ''- '' @ r) entity"
    "line_entry user network (''* '' @ Name p @ '' '' @ r) entity = text_line user network (''* '' @ Name p @ '' '' @ r) entity" for r
    by (simp_all add: line_entry_def HasPrefix_def)
  consider (notice) "Command msg = ''NOTICE''" | (action) ps where "Command msg = ''PRIVMSG''" "ParseCTCPMessage U msg = Some (''ACTION'', ps)"
    | (other) "Command msg = ''PRIVMSG''" "\<nexists>ps. ParseCTCPMessage U msg = Some (''ACTION'', ps)" using assms(2) by auto
  then show ?thesis
  proof cases
    case notice
    then show ?thesis using p t(2) l(2) by (simp add: formatMessage_def log_view_def Let_def split: option.split)
  next
    case action
    then show ?thesis using p t(3) l(3) by (simp add: formatMessage_def log_view_def Let_def)
  next
    case other
    then show ?thesis using p t(1) l(1) by (cases "ParseCTCPMessage U msg") (auto simp: formatMessage_def log_view_def Let_def)
  qed
qed


lemma log_entry_written:
  assumes "loggable msg p"
  shows "\<exists>s. formatMessage U msg = Some s \<and> s \<noteq> [] \<and> line_entry user network s entity = Some (log_view U user network entity msg p)"
proof -
  consider "List.member [''JOIN'', ''PART'', ''QUIT''] (Command msg)" | "List.member [''NICK'', ''KICK'', ''TOPIC'', ''MODE''] (Command msg)"
    | "List.member [''PRIVMSG'', ''NOTICE''] (Command msg)"
    using assms unfolding loggable_def Let_def by fastforce
  then show ?thesis by cases (use log_membership log_event log_text assms in blast)+
qed

text \<open>The messages that are read when events are not asked for.\<close>

definition is_text :: "irc_message \<Rightarrow> bool" where
  "is_text msg \<longleftrightarrow> List.member [''PRIVMSG'', ''NOTICE''] (Command msg)"

lemma event_marked:
  assumes "loggable msg p" and "formatMessage U msg = Some s"
  shows "HasPrefix s ''*** '' \<longleftrightarrow> \<not> is_text msg"
proof -
  consider (plain) "is_text msg" | (event) "List.member [''JOIN'', ''PART'', ''QUIT'', ''TOPIC'', ''NICK'', ''KICK'', ''MODE''] (Command msg)"
    using assms(1) unfolding loggable_def Let_def is_text_def by fastforce
  then show ?thesis
  proof cases
    case plain
    then show ?thesis using assms by (auto simp: is_text_def loggable_def formatMessage_def Let_def HasPrefix_def split: option.splits if_splits)
  next
    case event
    then have "\<not> is_text msg" by (auto simp: is_text_def)
    moreover have "HasPrefix s ''*** ''"
      using event assms unfolding List.member_iff list.set
      by (elim insertE emptyE) (auto simp: loggable_def formatMessage_def Let_def HasPrefix_def split: if_splits)
    ultimately show ?thesis by simp
  qed
qed

lemma event_no_text: "HasPrefix s ''*** '' \<Longrightarrow> text_line user network s entity = None"
proof -
  assume "HasPrefix s ''*** ''"
  then obtain r where "s = ''*** '' @ r" unfolding HasPrefix_iff ..
  then show ?thesis by (simp add: text_line_def HasPrefix_def)
qed

lemma unmarshal_marshal:
  assumes "loggable msg p" and "MarshalLine U z msg t = Some line" and "local_Date z ref = local_Date z t" and "unambiguous z t"
    and "log_view U user network entity msg p = (cmd, p', params)"
  shows "UnmarshalLine z line user network entity ref events
    = Inr (if events \<or> is_text msg
        then Some (\<lparr>Tags = [(''time'', FormatServerTime (t - t mod second_ns))], Prefix = Some p', Command = cmd, Params = params\<rparr>, t - t mod second_ns)
        else None)"
proof -
  obtain s where s: "formatMessage U msg = Some s" "s \<noteq> []" "line_entry user network s entity = Some (cmd, p', params)"
    using log_entry_written [OF assms(1)] assms(5) by metis
  obtain h mi sec where c: "local_Clock z t = (h, mi, sec)" by (metis prod_cases3)
  have line: "line = timestamp (h, mi, sec) @ s" using assms(2) s(1,2) by (simp add: MarshalLine_def c)
  note ts = scan_timestamp_written [OF c]
  have time: "time_Date z (local_Date z ref) (h, mi, sec) = t - t mod second_ns" using assms(3,4) by (simp add: unambiguous_def c)
  have "(if events \<and> HasPrefix s ''*** '' then event_line (drop 4 s) entity else text_line user network s entity)
      = (if events \<or> is_text msg then Some (cmd, p', params) else None)"
    using s(3) event_marked [OF assms(1) s(1)] event_no_text [of s user network entity] by (auto simp: line_entry_def)
  moreover have "scan_timestamp line = Some (h, mi, sec)" using ts(1) line by simp
  moreover have "drop timestampPrefixLen line = s" "\<not> length line < timestampPrefixLen" using ts(2) line by simp_all
  ultimately show ?thesis using time by (simp add: UnmarshalLine_def Let_def)
qed

text \<open>C29. A line of the log gives the message back: reading the line that was written for a message at a time, on the same local day,
  gives the command, the sender and the parameters that the log keeps, and the time up to the second, also as a tag; for every
  command that is logged, with any text and reason.\<close>

theorem znclog_roundtrip:
  assumes "loggable msg p" and "MarshalLine U z msg t = Some line" and "local_Date z ref = local_Date z t" and "unambiguous z t"
    and "log_view U user network entity msg p = (cmd, p', params)"
  shows "UnmarshalLine z line user network entity ref True
    = Inr (Some (\<lparr>Tags = [(''time'', FormatServerTime (t - t mod second_ns))], Prefix = Some p', Command = cmd, Params = params\<rparr>, t - t mod second_ns))"
  using unmarshal_marshal [OF assms, of True] by simp

theorem znclog_roundtrip_witness:
  "UnmarshalLine (fixed_zone 3600) ''[23:13:20] <bob> hello: you'' (NewUser ''alice'') None ''bob'' 1700001111000000000 True
    = Inr (Some (\<lparr>Tags = [(''time'', FormatServerTime (1700000000123456789 - 1700000000123456789 mod second_ns))], Prefix = Some (only_name ''bob''),
        Command = ''PRIVMSG'', Params = [''alice'', ''hello: you'']\<rparr>, 1700000000123456789 - 1700000000123456789 mod second_ns))"
proof (rule znclog_roundtrip)
  let ?msg = "\<lparr>Tags = [], Prefix = Some \<lparr>Name = ''bob'', User = ''b'', Host = ''h''\<rparr>, Command = ''PRIVMSG'', Params = [''alice'', ''hello: you'']\<rparr>"
  show "loggable ?msg \<lparr>Name = ''bob'', User = ''b'', Host = ''h''\<rparr>" by code_simp
  have "local_Clock (fixed_zone 3600) 1700000000123456789 = (23, 13, 20)"
    by (simp add: local_Clock_def local_secs_def fixed_zone_def second_ns_def)
  moreover have "formatMessage no_tables ?msg = Some ''<bob> hello: you''"
    by (simp add: formatMessage_def ParseCTCPMessage_def HasPrefix_def ctcp_delim_def)
  moreover have "timestamp (23, 13, 20) = ''[23:13:20] ''" by code_simp
  ultimately show "MarshalLine no_tables (fixed_zone 3600) ?msg 1700000000123456789 = Some ''[23:13:20] <bob> hello: you''"
    by (simp add: MarshalLine_def)
  show "local_Date (fixed_zone 3600) 1700001111000000000 = local_Date (fixed_zone 3600) 1700000000123456789"
    by (simp add: local_Date_def local_secs_def fixed_zone_def second_ns_def)
  show "unambiguous (fixed_zone 3600) 1700000000123456789" by (rule fixed_zone_unambiguous)
  show "log_view no_tables (NewUser ''alice'') None ''bob'' ?msg \<lparr>Name = ''bob'', User = ''b'', Host = ''h''\<rparr>
    = (''PRIVMSG'', only_name ''bob'', [''alice'', ''hello: you''])" by code_simp
qed

end
