(* ===== verification/Fs_Store.thy ===== *)
theory Fs_Store
  imports Znc_Log Memory_Store
begin

text \<open>
  The message store on disk, \<^verbatim>\<open>src/msgstore/fs.go\<close>: one log per network, entity and local day, in the format of
  \<open>Znc_Log\<close>.  Appending through a small table of open files, identifiers made of a date and an offset, and loading backwards
  and forwards in time over the logs of several days.
\<close>

section \<open>Paths and files\<close>

definition EscapeFilename :: "string \<Rightarrow> string" where
  "EscapeFilename unsafe =
     (if unsafe = ''.'' then ''-'' else if unsafe = ''..'' then ''--''
      else map (\<lambda>c. if c = CHR ''/'' \<or> c = CHR 0x5C then CHR ''-'' else c) unsafe)"

text \<open>A path below the root directory of the store, as its components: \<open>filepath.Join\<close> leaves empty ones out.\<close>

type_synonym path = "string list"

text \<open>A number padded by \<open>Sprintf\<close>, where the sign counts.\<close>

definition sprintf_pad :: "nat \<Rightarrow> int \<Rightarrow> string" where
  "sprintf_pad w x = (if x < 0 then ''-'' @ pad_nat (w - 1) (nat (- x)) else pad_nat w (nat x))"

definition log_name :: "int \<times> int \<times> int \<Rightarrow> string" where
  "log_name date = (case date of (y, m, d) \<Rightarrow> sprintf_pad 4 y @ ''-'' @ sprintf_pad 2 m @ ''-'' @ sprintf_pad 2 d @ ''.log'')"

definition logPath :: "zone \<Rightarrow> db_network \<Rightarrow> string \<Rightarrow> int \<Rightarrow> path" where
  "logPath z network entity t =
     filter (\<lambda>s. s \<noteq> []) [EscapeFilename (GetName network), EscapeFilename entity, log_name (local_Date z t)]"

text \<open>The disk: the directories of networks, the files by their paths, and the contents of files.  A file that is open is a
  file of its own, also when its path changes.\<close>

record disk =
  dk_dirs :: "string list"
  dk_files :: "path \<Rightarrow> nat option"
  dk_data :: "nat \<Rightarrow> string"
  dk_next :: nat

record fs_file =
  ff_name :: path
  ff_inode :: nat
  ff_lastUse :: int

record fs_store =
  fs_user :: db_user
  fs_files :: "(string, fs_file) gomap"

text \<open>What the operating system answers, the time, the zone and the libraries.  A write that fails may have written the first bytes.\<close>

record fs_env =
  fe_unicode :: unicode_tables
  fe_zone :: zone
  fe_bare :: bare_codec
  fe_now :: int
  fe_mkdir :: "path \<Rightarrow> bool"
  fe_create :: "path \<Rightarrow> bool"
  fe_write :: "path \<Rightarrow> nat option"
  fe_stat :: "path \<Rightarrow> bool"
  fe_open :: "path \<Rightarrow> bool"
  fe_cancelled :: "int \<Rightarrow> bool"
  fe_rename :: "string \<Rightarrow> string \<Rightarrow> bool"

datatype fs_error =
    FsBadTime | FsPanic | FsMkdir | FsOpen | FsClosed | FsWrite | FsStat
  | FsLine line_error | FsScan | FsID msg_id_error | FsMismatch | FsCancelled | FsExists | FsRename

definition NewFSStore :: "db_user \<Rightarrow> fs_store" where
  "NewFSStore user = \<lparr>fs_user = user, fs_files = []\<rparr>"

section \<open>Identifiers\<close>

definition newDate :: "zone \<Rightarrow> int \<Rightarrow> fs_date" where
  "newDate z t = (case local_Date z t of (y, m, d) \<Rightarrow> \<lparr>Year = y, Month = m, Day = d\<rparr>)"

definition date_Time :: "zone \<Rightarrow> fs_date \<Rightarrow> int" where
  "date_Time z d = time_Date z (Year d, Month d, Day d) (0, 0, 0)"

definition formatFSMsgID :: "fs_env \<Rightarrow> int \<Rightarrow> string \<Rightarrow> int \<Rightarrow> int \<Rightarrow> string" where
  "formatFSMsgID env netID entity t offset = formatMsgID (fe_bare env) netID entity (FSMsgID (newDate (fe_zone env) t) offset)"

definition parseFSMsgID :: "fs_env \<Rightarrow> string \<Rightarrow> msg_id_error + (int \<times> string \<times> int \<times> int)" where
  "parseFSMsgID env s =
     (case ParseMsgID (fe_bare env) s (Some msgIDFS) of
        Inl e \<Rightarrow> Inl e
      | Inr (netID, entity, Some (FSMsgID d offset)) \<Rightarrow> Inr (netID, entity, date_Time (fe_zone env) d, offset)
      | Inr _ \<Rightarrow> Inl IDBadBody)"

definition fs_LastMsgID :: "fs_env \<Rightarrow> disk \<Rightarrow> db_network \<Rightarrow> string \<Rightarrow> int \<Rightarrow> fs_error + string" where
  "fs_LastMsgID env dk network entity t =
     (let p = logPath (fe_zone env) network entity t in
      case dk_files dk p of
        None \<Rightarrow> Inr (formatFSMsgID env (net_ID network) entity t (- 1))
      | Some i \<Rightarrow>
          if \<not> fe_stat env p then Inl FsStat
          else Inr (formatFSMsgID env (net_ID network) entity t (int (length (dk_data dk i)) - 1)))"

section \<open>Appending\<close>

definition fsMessageStoreMaxFiles :: nat where "fsMessageStoreMaxFiles = 20"

definition message_time :: "fs_env \<Rightarrow> irc_message \<Rightarrow> int option" where
  "message_time env msg = (case go_get (Tags msg) ''time'' of None \<Rightarrow> Some (fe_now env) | Some tag \<Rightarrow> ParseServerTime tag)"

text \<open>Opening a log for appending creates it when it is not there.\<close>

definition create_file :: "path \<Rightarrow> disk \<Rightarrow> nat \<times> disk" where
  "create_file p dk =
     (case dk_files dk p of
        Some i \<Rightarrow> (i, dk)
      | None \<Rightarrow>
          (dk_next dk, dk\<lparr>dk_files := (dk_files dk)(p \<mapsto> dk_next dk), dk_data := (dk_data dk)(dk_next dk := []), dk_next := Suc (dk_next dk)\<rparr>))"

definition make_dir :: "path \<Rightarrow> disk \<Rightarrow> disk" where
  "make_dir p dk = dk\<lparr>dk_dirs := List.insert (hd p) (dk_dirs dk)\<rparr>"

definition open_log :: "fs_env \<Rightarrow> string \<Rightarrow> path \<Rightarrow> fs_store \<Rightarrow> disk \<Rightarrow> fs_error option \<times> fs_store \<times> disk" where
  "open_log env entity p st dk =
     (if (case go_get (fs_files st) entity of None \<Rightarrow> False | Some f \<Rightarrow> ff_name f = p) then (None, st, dk)
      else if \<not> fe_mkdir env p then (Some FsMkdir, st, dk)
      else if \<not> fe_create env p then (Some FsOpen, st, make_dir p dk)
      else (case create_file p (make_dir p dk) of
          (i, dk) \<Rightarrow> (None, st\<lparr>fs_files := go_put entity \<lparr>ff_name = p, ff_inode = i, ff_lastUse = 0\<rparr> (fs_files st)\<rparr>, dk)))"

text \<open>The files that were used last stay open.\<close>

definition close_old :: "(string, fs_file) gomap \<Rightarrow> (string, fs_file) gomap" where
  "close_old files =
     (if length files > fsMessageStoreMaxFiles
      then drop (length files - fsMessageStoreMaxFiles) (sort_key (\<lambda>e. ff_lastUse (snd e)) files) else files)"

definition write_line :: "fs_env \<Rightarrow> fs_file \<Rightarrow> string \<Rightarrow> disk \<Rightarrow> fs_error option \<times> disk" where
  "write_line env f s dk =
     (case fe_write env (ff_name f) of
        None \<Rightarrow> (None, dk\<lparr>dk_data := (dk_data dk)(ff_inode f := dk_data dk (ff_inode f) @ s @ [CHR 0x0A])\<rparr>)
      | Some n \<Rightarrow> (Some FsWrite, dk\<lparr>dk_data := (dk_data dk)(ff_inode f := dk_data dk (ff_inode f) @ take n (s @ [CHR 0x0A]))\<rparr>))"

definition fs_Append :: "fs_env \<Rightarrow> db_network \<Rightarrow> string \<Rightarrow> irc_message \<Rightarrow> fs_store \<times> disk \<Rightarrow> (fs_error + string) \<times> fs_store \<times> disk" where
  "fs_Append env network entity msg sd =
     (case sd of
        (st, dk) \<Rightarrow>
          (case message_time env msg of
             None \<Rightarrow> (Inl FsBadTime, st, dk)
           | Some t \<Rightarrow>
               (case MarshalLine (fe_unicode env) (fe_zone env) msg t of
                  None \<Rightarrow> (Inl FsPanic, st, dk)
                | Some line \<Rightarrow>
                    if line = [] then (Inr [], st, dk)
                    else
                      (case open_log env entity (logPath (fe_zone env) network entity t) st dk of
                         (Some e, st, dk) \<Rightarrow> (Inl e, st, dk)
                       | (None, st, dk) \<Rightarrow>
                           (case go_get (fs_files st) entity of
                              None \<Rightarrow> (Inl FsPanic, st, dk)
                            | Some f \<Rightarrow>
                                let f = f\<lparr>ff_lastUse := fe_now env\<rparr>;
                                    st = st\<lparr>fs_files := close_old (go_put entity f (fs_files st))\<rparr>
                                in if go_get (fs_files st) entity = None then (Inl FsClosed, st, dk)
                                   else
                                     let msgID = formatFSMsgID env (net_ID network) entity t (int (length (dk_data dk (ff_inode f))))
                                     in (case write_line env f line dk of
                                           (Some e, dk) \<Rightarrow> (Inl e, st, dk)
                                         | (None, dk) \<Rightarrow> (Inr msgID, st, dk)))))))"

section \<open>Reading a log\<close>

text \<open>\<open>bufio.Scanner\<close> over the lines of a file.  A line that does not fit into the buffer is an error (\<open>None\<close>); a scan after
  it gets what is in the buffer.\<close>

definition maxTokenSize :: nat where "maxTokenSize = 65536"

definition dropCR :: "string \<Rightarrow> string" where
  "dropCR s = (if s \<noteq> [] \<and> last s = CHR 0x0D then butlast s else s)"

function scan_tokens :: "string \<Rightarrow> string option list" where
  "scan_tokens s =
     (if s = [] then []
      else (case Cut (take maxTokenSize s) CHR 0x0A of
          Some (line, _) \<Rightarrow> Some (dropCR line) # scan_tokens (drop (Suc (length line)) s)
        | None \<Rightarrow>
            if length s < maxTokenSize then [Some (dropCR s)] else [None, Some (dropCR (take maxTokenSize s))]))"
  by pat_completeness auto
termination by (relation "measure length") auto

declare scan_tokens.simps [simp del]

text \<open>The limit is no negative number: \<open>CHATHISTORY\<close> and \<open>SEARCH\<close> refuse one, and the limit of a backlog is fixed.\<close>

record fs_options =
  fo_Network :: db_network
  fo_Entity :: string
  fo_Limit :: nat
  fo_Events :: bool

definition parseMessage :: "fs_env \<Rightarrow> db_user \<Rightarrow> fs_options \<Rightarrow> int \<Rightarrow> string \<Rightarrow> line_error + (irc_message \<times> int) option" where
  "parseMessage env user opts ref line =
     UnmarshalLine (fe_zone env) line user (Some (fo_Network opts)) (fo_Entity opts) ref (fo_Events opts)"

text \<open>The loop of \<open>parseMessagesBefore\<close> fills a ring with the messages between \<open>end\<close> and \<open>ref\<close>.\<close>

fun before_loop ::
    "(string \<Rightarrow> line_error + (irc_message \<times> int) option) \<Rightarrow> int \<Rightarrow> int \<Rightarrow> (irc_message \<Rightarrow> bool) \<Rightarrow> nat
      \<Rightarrow> string option list \<Rightarrow> irc_message option list \<times> nat \<Rightarrow> fs_error + (irc_message option list \<times> nat)" where
  "before_loop parse ref lo sel limit [] r = Inr r"
| "before_loop parse ref lo sel limit (None # ts) r = Inl FsScan"
| "before_loop parse ref lo sel limit (Some line # ts) r =
     (case parse line of
        Inl e \<Rightarrow> Inl (FsLine e)
      | Inr None \<Rightarrow> before_loop parse ref lo sel limit ts r
      | Inr (Some (msg, t)) \<Rightarrow>
          if \<not> t > lo then before_loop parse ref lo sel limit ts r
          else if \<not> t < ref then Inr r
          else if \<not> sel msg then before_loop parse ref lo sel limit ts r
          else (case r of (ring, k) \<Rightarrow> before_loop parse ref lo sel limit ts (ring[k mod limit := Some msg], Suc k)))"

definition ring_messages :: "nat \<Rightarrow> irc_message option list \<times> nat \<Rightarrow> irc_message option list" where
  "ring_messages limit r =
     (case r of
        (ring, k) \<Rightarrow>
          let n = (if k < limit then k else limit); start = (k - n + limit) mod limit in
          if start + n \<le> limit then take n (drop start ring) else drop start ring @ take (n - (limit - start)) ring)"

definition parseMessagesBefore ::
    "fs_env \<Rightarrow> fs_store \<times> disk \<Rightarrow> int \<Rightarrow> int \<Rightarrow> fs_options \<Rightarrow> int \<Rightarrow> (irc_message \<Rightarrow> bool) \<Rightarrow> fs_error + irc_message list" where
  "parseMessagesBefore env sd ref lo opts afterOffset sel =
     (let (st, dk) = sd; p = logPath (fe_zone env) (fo_Network opts) (fo_Entity opts) ref; limit = fo_Limit opts in
      case dk_files dk p of
        None \<Rightarrow> Inr []
      | Some i \<Rightarrow>
          if \<not> fe_open env p then Inl FsOpen
          else
            let (failed, tokens) = (if afterOffset \<ge> 0
                  then (case scan_tokens (drop (nat afterOffset) (dk_data dk i)) of [] \<Rightarrow> (False, []) | x # ts \<Rightarrow> (x = None, ts))
                  else (False, scan_tokens (dk_data dk i)))
            in (case before_loop (parseMessage env (fs_user st) opts ref) ref lo sel limit tokens (replicate limit None, 0) of
                  Inl e \<Rightarrow> Inl e
                | Inr r \<Rightarrow> if failed then Inl FsScan else Inr (map the (ring_messages limit r))))"

fun after_loop ::
    "(string \<Rightarrow> line_error + (irc_message \<times> int) option) \<Rightarrow> int \<Rightarrow> int \<Rightarrow> (irc_message \<Rightarrow> bool) \<Rightarrow> nat
      \<Rightarrow> string option list \<Rightarrow> irc_message list \<Rightarrow> fs_error + irc_message list" where
  "after_loop parse ref hi sel limit [] history = Inr history"
| "after_loop parse ref hi sel limit (None # ts) history = Inl FsScan"
| "after_loop parse ref hi sel limit (Some line # ts) history =
     (if \<not> length history < limit then Inr history
      else (case parse line of
          Inl e \<Rightarrow> Inl (FsLine e)
        | Inr None \<Rightarrow> after_loop parse ref hi sel limit ts history
        | Inr (Some (msg, t)) \<Rightarrow>
            if \<not> t > ref then after_loop parse ref hi sel limit ts history
            else if \<not> t < hi then Inr history
            else if \<not> sel msg then after_loop parse ref hi sel limit ts history
            else after_loop parse ref hi sel limit ts (history @ [msg])))"

definition parseMessagesAfter ::
    "fs_env \<Rightarrow> fs_store \<times> disk \<Rightarrow> int \<Rightarrow> int \<Rightarrow> fs_options \<Rightarrow> (irc_message \<Rightarrow> bool) \<Rightarrow> fs_error + irc_message list" where
  "parseMessagesAfter env sd ref hi opts sel =
     (let (st, dk) = sd; p = logPath (fe_zone env) (fo_Network opts) (fo_Entity opts) ref in
      case dk_files dk p of
        None \<Rightarrow> Inr []
      | Some i \<Rightarrow>
          if \<not> fe_open env p then Inl FsOpen
          else after_loop (parseMessage env (fs_user st) opts ref) ref hi sel (fo_Limit opts) (scan_tokens (dk_data dk i)) [])"

section \<open>Loading over several days\<close>

definition fsMessageStoreMaxTries :: nat where "fsMessageStoreMaxTries = 100"

definition truncateDay :: "zone \<Rightarrow> int \<Rightarrow> int" where
  "truncateDay z t = time_Date z (local_Date z t) (0, 0, 0)"

definition next_day :: "zone \<Rightarrow> int \<Rightarrow> int" where
  "next_day z t = (case local_Date z t of (y, m, d) \<Rightarrow> time_Date z (y, m, d + 1) (0, 0, 0))"

text \<open>The loops go on while messages are missing, the last hundred days were not all empty, and the condition on the time holds.
  \<open>load\<close> reads one day.\<close>

function day_loop ::
    "fs_env \<Rightarrow> (int \<Rightarrow> nat \<Rightarrow> fs_error + irc_message list) \<Rightarrow> (int \<Rightarrow> bool) \<Rightarrow> (int \<Rightarrow> int)
      \<Rightarrow> (irc_message list \<Rightarrow> irc_message list \<Rightarrow> irc_message list) \<Rightarrow> int \<Rightarrow> nat \<Rightarrow> nat \<Rightarrow> irc_message list \<Rightarrow> fs_error + irc_message list" where
  "day_loop env load continue step join t remaining tries messages =
     (if remaining > 0 \<and> tries < fsMessageStoreMaxTries \<and> continue t
      then (case load t remaining of
          Inl e \<Rightarrow> Inl e
        | Inr ms \<Rightarrow>
            if fe_cancelled env (step t) then Inl FsCancelled
            else day_loop env load continue step join (step t) (remaining - length ms) (if ms = [] then Suc tries else 0) (join ms messages))
      else Inr messages)"
  by pat_completeness auto
termination
  by (relation "(\<lambda>(_, _, _, _, _, _, remaining, tries, _). remaining) <*mlex*> measure (\<lambda>(_, _, _, _, _, _, _, tries, _). fsMessageStoreMaxTries - tries)")
    (auto simp: mlex_iff wf_mlex)

declare day_loop.simps [simp del]

definition day_before :: "zone \<Rightarrow> int \<Rightarrow> int" where
  "day_before z t = truncateDay z t - 1"

definition getBeforeTime ::
    "fs_env \<Rightarrow> fs_store \<times> disk \<Rightarrow> int \<Rightarrow> int \<Rightarrow> fs_options \<Rightarrow> (irc_message \<Rightarrow> bool) \<Rightarrow> fs_error + irc_message list" where
  "getBeforeTime env sd start lo opts sel =
     day_loop env (\<lambda>t n. parseMessagesBefore env sd t lo (opts\<lparr>fo_Limit := n\<rparr>) (- 1) sel) (\<lambda>t. lo < t) (day_before (fe_zone env)) (@)
       (if start = zero_time then fe_now env else start) (fo_Limit opts) 0 []"

definition fs_LoadBeforeTime :: "fs_env \<Rightarrow> fs_store \<times> disk \<Rightarrow> int \<Rightarrow> int \<Rightarrow> fs_options \<Rightarrow> fs_error + irc_message list" where
  "fs_LoadBeforeTime env sd start lo opts = getBeforeTime env sd start lo opts (\<lambda>_. True)"

definition getAfterTime ::
    "fs_env \<Rightarrow> fs_store \<times> disk \<Rightarrow> int \<Rightarrow> int \<Rightarrow> fs_options \<Rightarrow> (irc_message \<Rightarrow> bool) \<Rightarrow> fs_error + irc_message list" where
  "getAfterTime env sd start hi opts sel =
     (let hi = (if hi = zero_time then fe_now env else hi) in
      day_loop env (\<lambda>t n. parseMessagesAfter env sd t hi (opts\<lparr>fo_Limit := n\<rparr>) sel) (\<lambda>t. t < hi) (next_day (fe_zone env)) (\<lambda>b m. m @ b)
        start (fo_Limit opts) 0 [])"

definition fs_LoadAfterTime :: "fs_env \<Rightarrow> fs_store \<times> disk \<Rightarrow> int \<Rightarrow> int \<Rightarrow> fs_options \<Rightarrow> fs_error + irc_message list" where
  "fs_LoadAfterTime env sd start hi opts = getAfterTime env sd start hi opts (\<lambda>_. True)"

definition load_latest :: "fs_env \<Rightarrow> fs_store \<times> disk \<Rightarrow> int \<Rightarrow> int \<Rightarrow> fs_options \<Rightarrow> fs_error + irc_message list" where
  "load_latest env sd afterTime afterOffset opts =
     day_loop env
       (\<lambda>t n. parseMessagesBefore env sd t zero_time (opts\<lparr>fo_Limit := n\<rparr>)
          (if afterOffset \<ge> 0 \<and> truncateDay (fe_zone env) t = afterTime then afterOffset else - 1) (\<lambda>_. True))
       (\<lambda>t. \<not> truncateDay (fe_zone env) t < afterTime) (day_before (fe_zone env)) (@) (fe_now env) (fo_Limit opts) 0 []"

definition fs_LoadLatestID :: "fs_env \<Rightarrow> fs_store \<times> disk \<Rightarrow> string \<Rightarrow> fs_options \<Rightarrow> fs_error + irc_message list" where
  "fs_LoadLatestID env sd msgid opts =
     (if msgid = [] then load_latest env sd zero_time 0 opts
      else (case parseFSMsgID env msgid of
          Inl e \<Rightarrow> Inl (FsID e)
        | Inr (idNet, idEntity, afterTime, afterOffset) \<Rightarrow>
            if idNet \<noteq> net_ID (fo_Network opts) \<or> idEntity \<noteq> fo_Entity opts then Inl FsMismatch
            else load_latest env sd afterTime afterOffset opts))"

section \<open>Targets, search and renaming\<close>

definition truncateSecond :: "zone \<Rightarrow> int \<Rightarrow> int" where
  "truncateSecond z t = time_Date z (local_Date z t) (local_Clock z t)"

definition isTimeBetween :: "int \<Rightarrow> int \<Rightarrow> int \<Rightarrow> bool" where
  "isTimeBetween t start end = (if end < start then end < t \<and> t < start else start < t \<and> t < end)"

text \<open>The listing of a directory: it is not there, it cannot be read, or it has names.  The entries of a target are their times of
  modification.\<close>

datatype listing = NoDir | Unreadable | Names "string list"

fun target_loop :: "fs_env \<Rightarrow> (string \<Rightarrow> int list option) \<Rightarrow> int \<Rightarrow> int \<Rightarrow> string list \<Rightarrow> fs_error + (string \<times> int) list" where
  "target_loop env entries start end [] = Inr []"
| "target_loop env entries start end (name # names) =
     (case entries name of
        None \<Rightarrow> Inl FsOpen
      | Some mtimes \<Rightarrow>
          let t = truncateSecond (fe_zone env) (fold max mtimes zero_time);
              found = isTimeBetween t start end
          in if found \<and> fe_cancelled env t then Inl FsCancelled
             else map_sum id (\<lambda>ts. if found then (name, t) # ts else ts) (target_loop env entries start end names))"

definition fs_ListTargets ::
    "fs_env \<Rightarrow> (string \<Rightarrow> listing) \<Rightarrow> (string \<Rightarrow> string \<Rightarrow> int list option) \<Rightarrow> db_network \<Rightarrow> int \<Rightarrow> int \<Rightarrow> nat \<Rightarrow> fs_error + (string \<times> int) list" where
  "fs_ListTargets env readdir entries network start end limit =
     (let dir = EscapeFilename (GetName network) in
      case readdir dir of
        NoDir \<Rightarrow> Inr []
      | Unreadable \<Rightarrow> Inl FsOpen
      | Names names \<Rightarrow>
          map_sum id (\<lambda>ts. take limit (sort_key (\<lambda>x. if start < end then snd x else - snd x) ts)) (target_loop env (entries dir) start end names))"

text \<open>Messages are read without events, so that a message has a text (\<open>text_line_params\<close>).\<close>

definition search_selector :: "unicode_tables \<Rightarrow> string \<Rightarrow> string \<Rightarrow> irc_message \<Rightarrow> bool" where
  "search_selector U sender s m \<longleftrightarrow>
     (sender = [] \<or> (case Prefix m of None \<Rightarrow> False | Some p \<Rightarrow> Name p = sender))
     \<and> (ToLower U s = [] \<or> Index (ToLower U (Params m ! 1)) (ToLower U s) \<noteq> None)"

definition fs_Search ::
    "fs_env \<Rightarrow> fs_store \<times> disk \<Rightarrow> db_network \<Rightarrow> int \<Rightarrow> int \<Rightarrow> nat \<Rightarrow> string \<Rightarrow> string \<Rightarrow> string \<Rightarrow> fs_error + irc_message list" where
  "fs_Search env sd network start end limit sender entity s =
     (let sel = search_selector (fe_unicode env) sender s;
          opts = \<lparr>fo_Network = network, fo_Entity = entity, fo_Limit = limit, fo_Events = False\<rparr>
      in if start \<noteq> zero_time then getAfterTime env sd start end opts sel else getBeforeTime env sd end start opts sel)"

text \<open>Renaming a network moves its directory; the files that are open keep the names they were opened with.\<close>

definition rename_dir :: "string \<Rightarrow> string \<Rightarrow> disk \<Rightarrow> disk" where
  "rename_dir old new dk =
     dk\<lparr>dk_dirs := new # removeAll old (dk_dirs dk),
        dk_files := (\<lambda>p. if p \<noteq> [] \<and> hd p = new then dk_files dk (old # tl p) else if p \<noteq> [] \<and> hd p = old then None else dk_files dk p)\<rparr>"

definition fs_RenameNetwork :: "fs_env \<Rightarrow> db_network \<Rightarrow> db_network \<Rightarrow> disk \<Rightarrow> fs_error option \<times> disk" where
  "fs_RenameNetwork env oldNet newNet dk =
     (let old = EscapeFilename (GetName oldNet); new = EscapeFilename (GetName newNet) in
      if List.member (dk_dirs dk) new then (Some FsExists, dk)
      else if \<not> List.member (dk_dirs dk) old \<or> \<not> fe_rename env old new then (Some FsRename, dk)
      else (None, rename_dir old new dk))"

text \<open>The paths of logs stay below the directory of the store: every component is a plain name.\<close>

definition plain_name :: "string \<Rightarrow> bool" where
  "plain_name s \<longleftrightarrow> s \<noteq> [] \<and> s \<noteq> ''.'' \<and> s \<noteq> ''..'' \<and> CHR ''/'' \<notin> set s \<and> CHR 0x5C \<notin> set s"

lemma EscapeFilename_plain: "s \<noteq> [] \<Longrightarrow> plain_name (EscapeFilename s)"
proof -
  define f :: "char \<Rightarrow> char" where "f = (\<lambda>c. if c = CHR ''/'' \<or> c = CHR 0x5C then CHR ''-'' else c)"
  have f: "f c \<noteq> CHR ''/''" "f c \<noteq> CHR 0x5C" "f c = CHR ''.'' \<Longrightarrow> c = CHR ''.''" for c by (auto simp: f_def split: if_splits)
  have "map f s \<noteq> ''.''" if "s \<noteq> ''.''" using that f(3) by (auto simp: map_eq_Cons_conv)
  moreover have "map f s \<noteq> ''..''" if "s \<noteq> ''..''" using that f(3) by (auto simp: map_eq_Cons_conv)
  moreover have "c \<notin> set (map f s)" if "c = CHR ''/'' \<or> c = CHR 0x5C" for c using that f(1,2) by fastforce
  moreover assume "s \<noteq> []"
  ultimately show ?thesis by (auto simp: plain_name_def EscapeFilename_def f_def [symmetric])
qed

lemma sprintf_pad_chars: "c \<in> set (sprintf_pad w x) \<Longrightarrow> c = CHR ''-'' \<or> is_digit c"
  using pad_nat_digits [of w "nat x"] pad_nat_digits [of "w - 1" "nat (- x)"] by (auto simp: sprintf_pad_def list_all_iff split: if_splits)

lemma log_name_plain: "plain_name (log_name date)"
proof -
  obtain y m d where date: "date = (y, m, d)" by (metis prod_cases3)
  have "c \<noteq> CHR ''/'' \<and> c \<noteq> CHR 0x5C" if "c \<in> set (log_name date)" for c
    using that sprintf_pad_chars [of c] by (auto simp: log_name_def date is_digit_def)
  moreover have "length (log_name date) \<ge> 6" by (simp add: log_name_def date)
  ultimately show ?thesis by (auto simp: plain_name_def)
qed

lemma text_line_params: "text_line user network line entity = Some (cmd, p, params) \<Longrightarrow> length params = 2"
  by (auto simp: text_line_def split: option.splits)

lemma text_message_params:
  assumes "UnmarshalLine z line user network entity ref False = Inr (Some (msg, t))"
  shows "length (Params msg) = 2"
  using assms text_line_params by (auto simp: UnmarshalLine_def Let_def split: option.splits if_splits)

end
