(* ===== verification/Fs_Properties.thy ===== *)
theory Fs_Properties
  imports Fs_Store
begin

text \<open>
  What the message store on disk guarantees: the ring buffer of the reader keeps the last messages, loading in time respects
  its bounds, and loading from an identifier gives the messages that were appended after it, over several days.
\<close>

section \<open>The ring of the reader\<close>

text \<open>The messages the loop selects, in a list.\<close>

fun select_before ::
    "(string \<Rightarrow> line_error + (irc_message \<times> int) option) \<Rightarrow> int \<Rightarrow> int \<Rightarrow> (irc_message \<Rightarrow> bool) \<Rightarrow> string option list \<Rightarrow> fs_error + irc_message list" where
  "select_before parse ref lo sel [] = Inr []"
| "select_before parse ref lo sel (None # ts) = Inl FsScan"
| "select_before parse ref lo sel (Some line # ts) =
     (case parse line of
        Inl e \<Rightarrow> Inl (FsLine e)
      | Inr None \<Rightarrow> select_before parse ref lo sel ts
      | Inr (Some (msg, t)) \<Rightarrow>
          if lo < t \<and> \<not> t < ref then Inr []
          else if lo < t \<and> sel msg then map_sum id ((#) msg) (select_before parse ref lo sel ts)
          else select_before parse ref lo sel ts)"

definition ring_repr :: "nat \<Rightarrow> irc_message list \<Rightarrow> irc_message option list \<times> nat \<Rightarrow> bool" where
  "ring_repr limit ms r \<longleftrightarrow>
     length (fst r) = limit \<and> snd r = length ms \<and> (\<forall>i < length ms. length ms \<le> i + limit \<longrightarrow> fst r ! (i mod limit) = Some (ms ! i))"

lemma ring_repr_new: "ring_repr limit [] (replicate limit None, 0)"
  by (simp add: ring_repr_def)

lemma mod_window_neq:
  fixes i k n :: nat
  assumes "i < k" "k < i + n"
  shows "i mod n \<noteq> k mod n"
proof
  assume "i mod n = k mod n"
  then have "n dvd k - i" using assms(1) by (metis mod_eq_dvd_iff_nat order_less_imp_le)
  with assms show False by (auto dest: dvd_imp_le)
qed

lemma ring_repr_put:
  assumes "ring_repr limit ms (ring, k)" "limit > 0"
  shows "ring_repr limit (ms @ [m]) (ring[k mod limit := Some m], Suc k)"
proof -
  have r: "length ring = limit" "k = length ms" "\<And>i. i < length ms \<Longrightarrow> length ms \<le> i + limit \<Longrightarrow> ring ! (i mod limit) = Some (ms ! i)"
    using assms(1) by (auto simp: ring_repr_def)
  have "ring[k mod limit := Some m] ! (i mod limit) = Some ((ms @ [m]) ! i)" if "i < Suc (length ms)" "Suc (length ms) \<le> i + limit" for i
  proof (cases "i = length ms")
    case True
    then show ?thesis using r assms(2) by simp
  next
    case False
    then have "i < length ms" "length ms < i + limit" using that by auto
    then show ?thesis using r mod_window_neq [of i "length ms" limit] by (simp add: nth_append)
  qed
  then show ?thesis using r by (simp add: ring_repr_def)
qed

lemma before_loop_repr:
  assumes "ring_repr limit ms r" "limit > 0"
  shows "case select_before parse ref lo sel ts of
      Inl e \<Rightarrow> before_loop parse ref lo sel limit ts r = Inl e
    | Inr xs \<Rightarrow> \<exists>r'. before_loop parse ref lo sel limit ts r = Inr r' \<and> ring_repr limit (ms @ xs) r'"
  using assms
proof (induction parse ref lo sel ts arbitrary: r ms rule: select_before.induct)
  case (3 parse ref lo sel line ts)
  show ?case
  proof (cases "parse line")
    case (Inr x)
    show ?thesis
    proof (cases x)
      case None
      then show ?thesis using "3.IH"(1) [OF Inr None "3.prems"] Inr by (cases "select_before parse ref lo sel ts") simp_all
    next
      case (Some mt)
      obtain msg t where mt: "mt = (msg, t)" by fastforce
      obtain ring k where r: "r = (ring, k)" by fastforce
      have put: "ring_repr limit (ms @ [msg]) (ring[k mod limit := Some msg], Suc k)" using ring_repr_put "3.prems" r by simp
      note IH = "3.IH"(2,3) [OF Inr Some mt [symmetric]]
      consider (stop) "lo < t" "\<not> t < ref" | (take) "lo < t" "t < ref" "sel msg" | (skip) "\<not> (lo < t \<and> \<not> t < ref)" "\<not> (lo < t \<and> sel msg)" by blast
      then show ?thesis
      proof cases
        case stop
        then show ?thesis using "3.prems" Inr Some mt by simp
      next
        case take
        then show ?thesis using IH(1) [OF _ _ put "3.prems"(2)] Inr Some mt r by (cases "select_before parse ref lo sel ts") auto
      next
        case skip
        then show ?thesis using IH(2) [OF _ _ "3.prems"] Inr Some mt by (cases "select_before parse ref lo sel ts") auto
      qed
    qed
  qed simp
qed simp_all

lemma ring_messages_repr:
  assumes "ring_repr limit ms r" "limit > 0"
  shows "ring_messages limit r = map Some (last_n limit ms)"
proof -
  obtain ring k where e: "r = (ring, k)" by fastforce
  have r: "length ring = limit" "k = length ms" "\<And>i. i < length ms \<Longrightarrow> length ms \<le> i + limit \<Longrightarrow> ring ! (i mod limit) = Some (ms ! i)"
    using assms(1) by (auto simp: ring_repr_def e)
  show ?thesis
  proof (cases "k < limit")
    case True
    then have "take k ring = map Some ms" using r by (intro nth_equalityI) (auto simp: mod_less)
    with True show ?thesis by (simp add: ring_messages_def e last_n_def r(2))
  next
    case False
    have m: "(k - limit) mod limit = k mod limit" using False by (simp add: le_mod_geq)
    have "ring_messages limit r = rotate (k mod limit) ring"
      using False assms(2) r(1) by (cases "k mod limit = 0") (auto simp: ring_messages_def e Let_def rotate_drop_take m)
    moreover have "rotate (k mod limit) ring = map Some (last_n limit ms)"
    proof (rule nth_equalityI)
      show "length (rotate (k mod limit) ring) = length (map Some (last_n limit ms))" using False r by (simp add: last_n_def)
      fix j assume "j < length (rotate (k mod limit) ring)"
      then have j: "j < limit" using r by simp
      have "(k mod limit + j) mod limit = (length ms - limit + j) mod limit"
        using False r(2) by (metis (no_types, opaque_lifting) le_add_diff_inverse2 linorder_not_less mod_add_left_eq mod_add_self2 add.commute add.assoc)
      then show "rotate (k mod limit) ring ! j = map Some (last_n limit ms) ! j"
        using r(3) [of "length ms - limit + j"] r(1,2) j False by (simp add: nth_rotate last_n_def)
    qed
    ultimately show ?thesis by simp
  qed
qed

lemma before_loop_last:
  assumes "limit > 0"
  shows "map_sum id (\<lambda>r. map the (ring_messages limit r)) (before_loop parse ref lo sel limit ts (replicate limit None, 0))
    = map_sum id (last_n limit) (select_before parse ref lo sel ts)"
  using before_loop_repr [OF ring_repr_new assms, of parse ref lo sel ts] ring_messages_repr [OF _ assms]
  by (cases "select_before parse ref lo sel ts") (auto simp: comp_def)

text \<open>What one log gives, without the ring.\<close>

definition log_tokens :: "int \<Rightarrow> string \<Rightarrow> string option list" where
  "log_tokens afterOffset s = (if afterOffset \<ge> 0 then tl (scan_tokens (drop (nat afterOffset) s)) else scan_tokens s)"

lemma parseMessagesBefore_select:
  fixes env st dk ref opts
  defines "p \<equiv> logPath (fe_zone env) (fo_Network opts) (fo_Entity opts) ref"
  assumes "fo_Limit opts > 0" and "dk_files dk p = Some i" and "fe_open env p"
    and "afterOffset \<ge> 0 \<Longrightarrow> None \<notin> set (scan_tokens (drop (nat afterOffset) (dk_data dk i)))"
  shows "parseMessagesBefore env (st, dk) ref lo opts afterOffset sel
    = map_sum id (last_n (fo_Limit opts)) (select_before (parseMessage env (fs_user st) opts ref) ref lo sel (log_tokens afterOffset (dk_data dk i)))"
proof -
  have "parseMessagesBefore env (st, dk) ref lo opts afterOffset sel
      = map_sum id (\<lambda>r. map the (ring_messages (fo_Limit opts) r)) (before_loop (parseMessage env (fs_user st) opts ref) ref lo sel (fo_Limit opts)
          (log_tokens afterOffset (dk_data dk i)) (replicate (fo_Limit opts) None, 0))"
    using assms(3-5) unfolding p_def
    by (cases "scan_tokens (drop (nat afterOffset) (dk_data dk i))") (auto simp: parseMessagesBefore_def log_tokens_def Let_def split: sum.split)
  then show ?thesis by (simp only: before_loop_last [OF assms(2)])
qed

section \<open>The lines of a log\<close>

definition clean_line :: "string \<Rightarrow> bool" where
  "clean_line s \<longleftrightarrow> CHR 0x0A \<notin> set s \<and> (s \<noteq> [] \<longrightarrow> last s \<noteq> CHR 0x0D) \<and> length s < maxTokenSize"

definition log_of :: "string list \<Rightarrow> string" where
  "log_of lines = concat (map (\<lambda>s. s @ [CHR 0x0A]) lines)"

lemma log_of_simps [simp]: "log_of [] = []" "log_of (s # ss) = s @ CHR 0x0A # log_of ss" "log_of (ss @ ts) = log_of ss @ log_of ts"
  by (simp_all add: log_of_def)

lemma scan_tokens_log: "list_all clean_line lines \<Longrightarrow> scan_tokens (log_of lines) = map Some lines"
proof (induction lines)
  case Nil
  show ?case by (simp add: scan_tokens.simps)
next
  case (Cons s lines)
  then have s: "CHR 0x0A \<notin> set s" "s \<noteq> [] \<longrightarrow> last s \<noteq> CHR 0x0D" "length s < maxTokenSize" by (simp_all add: clean_line_def)
  then have "take maxTokenSize (s @ CHR 0x0A # log_of lines) = s @ CHR 0x0A # take (maxTokenSize - Suc (length s)) (log_of lines)"
    by (simp add: Suc_diff_Suc take_Cons')
  then have "Cut (take maxTokenSize (s @ CHR 0x0A # log_of lines)) CHR 0x0A = Some (s, take (maxTokenSize - Suc (length s)) (log_of lines))"
    using s(1) by simp
  moreover have "dropCR s = s" using s(2) by (auto simp: dropCR_def)
  ultimately show ?case using Cons by (simp add: scan_tokens.simps [of "s @ CHR 0x0A # log_of lines"])
qed

lemma log_tokens_after:
  assumes "list_all clean_line (pre @ s # post)"
  shows "log_tokens (int (length (log_of pre))) (log_of (pre @ s # post)) = map Some post"
  using assms scan_tokens_log [of "s # post"] by (simp add: log_tokens_def)

section \<open>Days\<close>

definition day_of :: "zone \<Rightarrow> int \<Rightarrow> int" where
  "day_of z t = local_secs z t div 86400"

lemma local_Date_day: "local_Date z t = date_of_days (day_of z t)"
  by (simp add: local_Date_def day_of_def)

text \<open>Where a day starts, as \<open>time.Date\<close> computes it.\<close>

definition midnight :: "zone \<Rightarrow> int \<Rightarrow> int" where
  "midnight z D = from_local z (D * 86400) * second_ns"

lemma truncateDay_midnight: "truncateDay z t = midnight z (day_of z t)"
proof -
  obtain y m d where date: "date_of_days (day_of z t) = (y, m, d)" by (metis prod_cases3)
  from time_Date_local [OF this, of z 0 0 0] show ?thesis by (simp add: truncateDay_def local_Date_day date midnight_def)
qed

lemma next_day_midnight: "next_day z t = midnight z (day_of z t + 1)"
proof -
  obtain y m d where date: "date_of_days (day_of z t) = (y, m, d)" by (metis prod_cases3)
  note s = date_of_days_spec [OF date]
  have "days_of_date y m (d + 1) = day_of z t + 1" using s(5) by (simp add: days_of_date_def Let_def)
  then show ?thesis
    using s(1,2) by (simp add: next_day_def local_Date_day date midnight_def time_Date_def from_local_def Let_def mod_pos_pos_trivial split: prod.split)
qed

text \<open>Days that the clock of the zone passes in order: they have times, and the times from the start of such a day on are those of this
  day and of later ones.  So it is for every day of a zone with one offset, and for the days around the changes to and from summer time
  when these are not at midnight.\<close>

definition regular_days :: "zone \<Rightarrow> int \<Rightarrow> int \<Rightarrow> bool" where
  "regular_days z lo hi \<longleftrightarrow> (\<forall>D. lo \<le> D \<and> D \<le> hi \<longrightarrow> (\<exists>t. day_of z t = D) \<and> (\<forall>t. midnight z D \<le> t \<longleftrightarrow> D \<le> day_of z t))"

lemma regular_daysD:
  assumes "regular_days z lo hi" and "lo \<le> D" and "D \<le> hi"
  shows "midnight z D \<le> t \<longleftrightarrow> D \<le> day_of z t" and "\<exists>t. day_of z t = D"
  using assms by (auto simp: regular_days_def)

lemma midnight_less:
  assumes "regular_days z lo hi" and "lo \<le> D" and "D < D'" and "D' \<le> hi"
  shows "midnight z D < midnight z D'"
proof -
  obtain t where t: "day_of z t = D" using regular_daysD(2) [OF assms(1,2)] assms(3,4) by auto
  then have "midnight z D \<le> t" "\<not> midnight z D' \<le> t" using regular_daysD(1) [OF assms(1)] assms(2-4) by auto
  then show ?thesis by linarith
qed

lemma truncateDay_compare:
  assumes "regular_days z lo hi" and "lo \<le> day_of z s" and "day_of z s \<le> hi" and "lo \<le> day_of z t" and "day_of z t \<le> hi"
  shows "truncateDay z s < truncateDay z t \<longleftrightarrow> day_of z s < day_of z t" and "truncateDay z s = truncateDay z t \<longleftrightarrow> day_of z s = day_of z t"
  using midnight_less [OF assms(1,2) _ assms(5)] midnight_less [OF assms(1,4) _ assms(3)] unfolding truncateDay_midnight
  by (cases "day_of z s" "day_of z t" rule: linorder_cases; force)+

lemma day_of_before:
  assumes "regular_days z lo hi" and "lo < day_of z t" and "day_of z t \<le> hi"
  shows "day_of z (day_before z t) = day_of z t - 1"
proof -
  have "midnight z (day_of z t - 1) \<le> day_before z t"
    using midnight_less [OF assms(1), of "day_of z t - 1" "day_of z t"] assms(2,3) by (simp add: day_before_def truncateDay_midnight)
  moreover have "\<not> midnight z (day_of z t) \<le> day_before z t" by (simp add: day_before_def truncateDay_midnight)
  ultimately show ?thesis using regular_daysD(1) [OF assms(1)] assms(2,3) by auto
qed

lemma day_before_late:
  assumes "regular_days z lo hi" and "lo \<le> day_of z t" and "day_of z t \<le> hi" and "day_of z s < day_of z t"
  shows "s - s mod second_ns < day_before z t"
proof -
  have "\<not> midnight z (day_of z t) \<le> s" using regular_daysD(1) [OF assms(1-3), of s] assms(4) by simp
  then have "s div second_ns * second_ns < from_local z (day_of z t * 86400) * second_ns"
    using minus_mod_eq_div_mult [of s second_ns] pos_mod_sign [of second_ns s] by (simp add: midnight_def second_ns_def)
  then have "(s div second_ns + 1) * second_ns \<le> from_local z (day_of z t * 86400) * second_ns" by (simp add: second_ns_def)
  then show ?thesis by (simp add: day_before_def truncateDay_midnight midnight_def minus_mod_eq_div_mult second_ns_def)
qed

lemma fixed_zone_regular: "regular_days (fixed_zone offset) lo hi"
proof -
  have day: "day_of (fixed_zone offset) t = (t div second_ns + offset) div 86400" for t by (simp add: day_of_def local_secs_def fixed_zone_def)
  have "midnight (fixed_zone offset) D \<le> t \<longleftrightarrow> D \<le> day_of (fixed_zone offset) t" for D t
  proof -
    have "midnight (fixed_zone offset) D \<le> t \<longleftrightarrow> D * 86400 - offset \<le> t div second_ns"
      by (simp add: midnight_def from_local_fixed second_ns_def le_div_int)
    also have "\<dots> \<longleftrightarrow> D \<le> day_of (fixed_zone offset) t" by (auto simp: day le_div_int)
    finally show ?thesis .
  qed
  moreover have "day_of (fixed_zone offset) ((D * 86400 - offset) * second_ns) = D" for D by (simp add: day second_ns_def)
  ultimately show ?thesis unfolding regular_days_def by blast
qed

lemma date_of_days_inject: "date_of_days a = date_of_days b \<Longrightarrow> a = b"
  by (metis date_of_days_spec(5) prod_cases3)

lemma log_name_inject:
  assumes "log_name (y, m, d) = log_name (y', m', d')" and "0 \<le> y" "0 \<le> m" "0 \<le> d" "0 \<le> y'" "0 \<le> m'" "0 \<le> d'"
  shows "(y, m, d) = (y', m', d')"
proof -
  have pad: "CHR ''-'' \<notin> set (pad_nat w n)" "CHR ''.'' \<notin> set (pad_nat w n)" for w n
    using pad_nat_digits [of w n] by (auto simp: list_all_iff is_digit_def)
  have 1: "pad_nat 4 (nat y) @ CHR ''-'' # pad_nat 2 (nat m) @ CHR ''-'' # pad_nat 2 (nat d) @ ''.log''
      = pad_nat 4 (nat y') @ CHR ''-'' # pad_nat 2 (nat m') @ CHR ''-'' # pad_nat 2 (nat d') @ ''.log''"
    using assms by (simp add: log_name_def sprintf_pad_def)
  have 2: "pad_nat 4 (nat y) = pad_nat 4 (nat y')" "pad_nat 2 (nat m) @ CHR ''-'' # pad_nat 2 (nat d) @ ''.log'' = pad_nat 2 (nat m') @ CHR ''-'' # pad_nat 2 (nat d') @ ''.log''"
    using arg_cong [OF 1, of "\<lambda>s. Cut s CHR ''-''"] pad by simp_all
  have 3: "pad_nat 2 (nat m) = pad_nat 2 (nat m')" "pad_nat 2 (nat d) = pad_nat 2 (nat d')"
    using arg_cong [OF 2(2), of "\<lambda>s. Cut s CHR ''-''"] pad by simp_all
  have "nat y = nat y'" "nat m = nat m'" "nat d = nat d'" using 2(1) 3 by (metis pad_nat_value)+
  then show ?thesis using assms(2-7) by (simp add: eq_nat_nat_iff)
qed

lemma log_name_day:
  assumes "days_of_date 0 1 1 \<le> a" "days_of_date 0 1 1 \<le> b"
  shows "log_name (date_of_days a) = log_name (date_of_days b) \<longleftrightarrow> a = b"
proof
  assume e: "log_name (date_of_days a) = log_name (date_of_days b)"
  obtain y m d y' m' d' where ab: "date_of_days a = (y, m, d)" "date_of_days b = (y', m', d')" by (metis prod_cases3)
  note s = date_of_days_spec(1,3) [OF ab(1)] date_of_days_spec(1,3) [OF ab(2)] date_year_bound(1) [OF ab(1) assms(1)] date_year_bound(1) [OF ab(2) assms(2)]
  have "(y, m, d) = (y', m', d')" by (rule log_name_inject) (use e ab s in simp_all)
  then show "a = b" using date_of_days_inject ab by metis
qed simp

definition log_dir :: "db_network \<Rightarrow> string \<Rightarrow> path" where
  "log_dir network entity = filter (\<lambda>s. s \<noteq> []) [EscapeFilename (GetName network), EscapeFilename entity]"

lemma logPath_split: "logPath z network entity t = log_dir network entity @ [log_name (local_Date z t)]"
  using log_name_plain [of "local_Date z t"] by (simp add: logPath_def log_dir_def plain_name_def)

lemma logPath_eq:
  assumes "days_of_date 0 1 1 \<le> day_of z s" "days_of_date 0 1 1 \<le> day_of z t"
  shows "logPath z n e s = logPath z n' e' t \<longleftrightarrow> log_dir n e = log_dir n' e' \<and> day_of z s = day_of z t"
  using log_name_day [OF assms] by (auto simp: logPath_split local_Date_day)

section \<open>Appending\<close>

definition content :: "disk \<Rightarrow> path \<Rightarrow> string" where
  "content dk p = (case dk_files dk p of None \<Rightarrow> [] | Some i \<Rightarrow> dk_data dk i)"

definition disk_ok :: "disk \<Rightarrow> bool" where
  "disk_ok dk \<longleftrightarrow> (\<forall>p q i. dk_files dk p = Some i \<longrightarrow> i < dk_next dk \<and> (dk_files dk q = Some i \<longrightarrow> p = q))"

text \<open>The open files are the files of their names, and at most twenty.\<close>

definition store_ok :: "int \<Rightarrow> fs_store \<times> disk \<Rightarrow> bool" where
  "store_ok now sd \<longleftrightarrow>
     disk_ok (snd sd) \<and> gomap_ok (fs_files (fst sd)) \<and> length (fs_files (fst sd)) \<le> fsMessageStoreMaxFiles
     \<and> list_all (\<lambda>(_, f). ff_lastUse f \<le> now \<and> dk_files (snd sd) (ff_name f) = Some (ff_inode f)) (fs_files (fst sd))"

definition env_ok :: "zone \<Rightarrow> fs_env \<Rightarrow> bool" where
  "env_ok z env \<longleftrightarrow> fe_zone env = z
     \<and> (\<forall>p. fe_mkdir env p \<and> fe_create env p \<and> fe_write env p = None \<and> fe_open env p) \<and> (\<forall>t. \<not> fe_cancelled env t)"

lemma create_file_ok:
  assumes "disk_ok dk" "create_file p dk = (i, dk')"
  shows "disk_ok dk'" "dk_files dk' p = Some i" "content dk' = content dk" "\<And>q j. dk_files dk q = Some j \<Longrightarrow> dk_files dk' q = Some j"
proof -
  have "dk_files dk q \<noteq> Some (dk_next dk)" for q using assms(1) by (auto simp: disk_ok_def)
  then show "disk_ok dk'" "dk_files dk' p = Some i"
    using assms by (auto simp: create_file_def disk_ok_def less_Suc_eq split: option.splits if_splits)
  show "content dk' = content dk"
    using assms by (fastforce simp: create_file_def disk_ok_def content_def split: option.splits)
  show "dk_files dk' q = Some j" if "dk_files dk q = Some j" for q j
    using assms(2) that by (auto simp: create_file_def split: option.splits)
qed

lemma insort_key_before: "f a \<le> f x \<Longrightarrow> insort_key f a (ys @ [x]) = insort_key f a ys @ [x]"
  by (induction ys) auto

lemma sort_key_snoc: "\<forall>y\<in>set xs. f y \<le> f x \<Longrightarrow> sort_key f (xs @ [x]) = sort_key f xs @ [x]"
  by (induction xs) (auto simp: insort_key_before)

lemma close_old_keeps:
  assumes "gomap_ok files" "length files \<le> fsMessageStoreMaxFiles" "list_all (\<lambda>(_, f). ff_lastUse f \<le> now) files" "ff_lastUse f = now"
  shows "go_get (close_old (go_put entity f files)) entity = Some f" "gomap_ok (close_old (go_put entity f files))"
    "length (close_old (go_put entity f files)) \<le> fsMessageStoreMaxFiles" "set (close_old (go_put entity f files)) \<subseteq> set (go_put entity f files)"
proof -
  let ?files = "go_put entity f files" and ?key = "\<lambda>e. ff_lastUse (snd e)"
  have ok: "gomap_ok ?files" by (rule gomap_ok_put [OF assms(1)])
  have d: "distinct (map fst (sort_key ?key ?files))"
    using ok by (simp add: gomap_ok_def distinct_map)
  show g: "gomap_ok (close_old ?files)" using ok d by (auto simp: close_old_def gomap_ok_def distinct_drop drop_map [symmetric] simp del: drop_map)
  show "length (close_old ?files) \<le> fsMessageStoreMaxFiles" by (simp add: close_old_def)
  show "set (close_old ?files) \<subseteq> set ?files" by (auto simp: close_old_def dest: in_set_dropD)
  have "(entity, f) \<in> set (close_old ?files)"
  proof (cases "length ?files > fsMessageStoreMaxFiles")
    case False
    then show ?thesis using go_get_put [of entity f files entity] by (auto simp: close_old_def intro: go_get_mem)
  next
    case True
    then have new: "go_get files entity = None" and l: "length files = fsMessageStoreMaxFiles" using assms(2) by (auto simp: length_go_put split: if_splits)
    have "sort_key ?key ?files = sort_key ?key files @ [(entity, f)]"
      unfolding go_put_new [OF new] using assms(3,4) by (intro sort_key_snoc) (auto simp: list_all_iff)
    then show ?thesis using l True by (simp add: close_old_def length_go_put new fsMessageStoreMaxFiles_def)
  qed
  with g show "go_get (close_old ?files) entity = Some f" by (simp add: gomap_ok_mem)
qed

lemma open_log_ok:
  assumes "disk_ok dk" "fe_mkdir env p" "fe_create env p" "list_all (\<lambda>(_, f). dk_files dk (ff_name f) = Some (ff_inode f)) (fs_files st)"
  obtains st1 dk1 f where "open_log env e p st dk = (None, st1, dk1)" "go_get (fs_files st1) e = Some f" "ff_name f = p"
    "dk_files dk1 p = Some (ff_inode f)" "disk_ok dk1" "content dk1 = content dk" "fs_user st1 = fs_user st"
    "\<And>f'. go_put e f' (fs_files st1) = go_put e f' (fs_files st)" "\<And>q j. dk_files dk q = Some j \<Longrightarrow> dk_files dk1 q = Some j"
proof (cases "\<exists>f. go_get (fs_files st) e = Some f \<and> ff_name f = p")
  case True
  then obtain f where f: "go_get (fs_files st) e = Some f" "ff_name f = p" by blast
  moreover have "dk_files dk p = Some (ff_inode f)" using go_get_mem [OF f(1)] assms(4) f(2) by (auto simp: list_all_iff)
  ultimately show ?thesis using that [of st dk f] assms(1) by (simp add: open_log_def)
next
  case False
  obtain i dk1 where c: "create_file p (make_dir p dk) = (i, dk1)" by fastforce
  have "disk_ok (make_dir p dk)" "content (make_dir p dk) = content dk" "dk_files (make_dir p dk) = dk_files dk"
    using assms(1) by (auto simp: make_dir_def disk_ok_def content_def fun_eq_iff split: option.split)
  note k = create_file_ok [OF this(1) c] this(2,3)
  have "open_log env e p st dk = (None, st\<lparr>fs_files := go_put e \<lparr>ff_name = p, ff_inode = i, ff_lastUse = 0\<rparr> (fs_files st)\<rparr>, dk1)"
    using False assms(2,3) c by (auto simp: open_log_def split: option.split)
  then show ?thesis using that [of _ _ "\<lparr>ff_name = p, ff_inode = i, ff_lastUse = 0\<rparr>"] k by simp
qed

text \<open>What an append to a good store does: the line is at the end of its log, no other log changes, and the identifier has the
  length of the log before.\<close>

lemma append_step:
  fixes n :: db_network and e :: string
  assumes "store_ok now (st, dk)" "env_ok z env" "now \<le> fe_now env" "message_time env msg = Some t"
    "MarshalLine (fe_unicode env) (fe_zone env) msg t = Some line" "line \<noteq> []"
  defines "p \<equiv> logPath z n e t"
  obtains st' dk' where "fs_Append env n e msg (st, dk) = (Inr (formatFSMsgID env (net_ID n) e t (int (length (content dk p)))), st', dk')"
    "store_ok (fe_now env) (st', dk')" "content dk' = (content dk)(p := content dk p @ line @ [CHR 0x0A])" "fs_user st' = fs_user st"
proof -
  have env: "fe_zone env = z" "fe_mkdir env p" "fe_create env p" "fe_write env q = None" for q using assms(2) by (simp_all add: env_ok_def)
  have ok: "disk_ok dk" "gomap_ok (fs_files st)" "length (fs_files st) \<le> fsMessageStoreMaxFiles"
    "list_all (\<lambda>(_, f). ff_lastUse f \<le> fe_now env \<and> dk_files dk (ff_name f) = Some (ff_inode f)) (fs_files st)"
    using assms(1,3) by (auto simp: store_ok_def list_all_iff)
  obtain st1 dk1 f where o: "open_log env e p st dk = (None, st1, dk1)" "go_get (fs_files st1) e = Some f" "ff_name f = p"
    "dk_files dk1 p = Some (ff_inode f)" "disk_ok dk1" "content dk1 = content dk" "fs_user st1 = fs_user st"
    "\<And>f'. go_put e f' (fs_files st1) = go_put e f' (fs_files st)"
    "\<And>q j. dk_files dk q = Some j \<Longrightarrow> dk_files dk1 q = Some j"
    by (rule open_log_ok [OF ok(1) env(2,3), of st e]) (use ok(4) in \<open>auto simp: list_all_iff\<close>)
  define f' where "f' = f\<lparr>ff_lastUse := fe_now env\<rparr>"
  have old: "list_all (\<lambda>(_, f). ff_lastUse f \<le> fe_now env) (fs_files st)" using ok(4) by (auto simp: list_all_iff)
  have "ff_lastUse f' = fe_now env" by (simp add: f'_def)
  note c = close_old_keeps [OF ok(2,3) old this, of e]
  have "\<forall>(_, g)\<in>set (go_put e f' (fs_files st)). ff_lastUse g \<le> fe_now env \<and> dk_files dk1 (ff_name g) = Some (ff_inode g)"
    using ok(4) o(3,4,9) by (auto simp: set_go_put [OF ok(2)] list_all_iff f'_def)
  then have inodes: "\<forall>(_, g)\<in>set (close_old (go_put e f' (fs_files st))). ff_lastUse g \<le> fe_now env \<and> dk_files dk1 (ff_name g) = Some (ff_inode g)"
    using c(4) by blast
  define st2 where "st2 = st1\<lparr>fs_files := close_old (go_put e f' (fs_files st))\<rparr>"
  define dk2 where "dk2 = dk1\<lparr>dk_data := (dk_data dk1)(ff_inode f := dk_data dk1 (ff_inode f) @ line @ [CHR 0x0A])\<rparr>"
  show ?thesis
  proof (rule that)
    show "fs_Append env n e msg (st, dk) = (Inr (formatFSMsgID env (net_ID n) e t (int (length (content dk p)))), st2, dk2)"
      using assms(4-6) o c(1) env(4)
      by (simp add: fs_Append_def env(1) p_def [symmetric] f'_def [symmetric] st2_def dk2_def write_line_def Let_def content_def flip: o(6))
        (simp add: f'_def)
    show "fs_user st2 = fs_user st" by (simp add: st2_def o(7))
    show "content dk2 = (content dk)(p := content dk p @ line @ [CHR 0x0A])"
      using o(4,5) unfolding o(6) [symmetric] by (auto simp: content_def dk2_def disk_ok_def fun_eq_iff split: option.split)
    show "store_ok (fe_now env) (st2, dk2)"
      using c(2,3) inodes o(5) by (auto simp: store_ok_def st2_def dk2_def disk_ok_def list_all_iff)
  qed
qed

section \<open>Runs of appends\<close>

type_synonym fs_op = "fs_env \<times> db_network \<times> string \<times> irc_message"

fun append_all :: "fs_op list \<Rightarrow> fs_store \<times> disk \<Rightarrow> fs_store \<times> disk" where
  "append_all [] sd = sd"
| "append_all ((env, n, e, msg) # ops) sd = append_all ops (snd (fs_Append env n e msg sd))"

definition op_now :: "fs_op \<Rightarrow> int" where "op_now op = fe_now (fst op)"

definition op_dir :: "fs_op \<Rightarrow> path" where "op_dir op = (case op of (_, n, e, _) \<Rightarrow> log_dir n e)"

definition op_time :: "fs_op \<Rightarrow> int" where
  "op_time op = (case op of (env, _, _, msg) \<Rightarrow> case message_time env msg of None \<Rightarrow> 0 | Some t \<Rightarrow> t)"

definition op_line :: "fs_op \<Rightarrow> string" where
  "op_line op = (case op of (env, _, _, msg) \<Rightarrow> case MarshalLine (fe_unicode env) (fe_zone env) msg (op_time op) of None \<Rightarrow> [] | Some s \<Rightarrow> s)"

text \<open>An append of a message that IRC allows, at a time after year 1 that its local clock determines (not in an hour that the
  end of summer time repeats), whose line fits into the buffer of the reader.\<close>

definition op_ok :: "zone \<Rightarrow> fs_op \<Rightarrow> bool" where
  "op_ok z op \<longleftrightarrow>
     (case op of (env, _, _, msg) \<Rightarrow>
        env_ok z env \<and> message_time env msg \<noteq> None \<and> (case Prefix msg of None \<Rightarrow> False | Some p \<Rightarrow> loggable msg p)
        \<and> unambiguous z (op_time op) \<and> zero_time < op_time op - op_time op mod second_ns \<and> days_of_date 0 1 1 \<le> day_of z (op_time op)
        \<and> clean_line (op_line op))"

definition day_ops :: "zone \<Rightarrow> path \<Rightarrow> int \<Rightarrow> fs_op list \<Rightarrow> fs_op list" where
  "day_ops z dir D ops = filter (\<lambda>op. op_dir op = dir \<and> day_of z (op_time op) = D) ops"

lemma op_okD:
  assumes "op_ok z (env, n, e, msg)"
  obtains p where "env_ok z env" "message_time env msg = Some (op_time (env, n, e, msg))" "loggable msg p"
    "MarshalLine (fe_unicode env) z msg (op_time (env, n, e, msg)) = Some (op_line (env, n, e, msg))" "op_line (env, n, e, msg) \<noteq> []"
proof -
  obtain p where p: "loggable msg p" and env: "env_ok z env" and t: "message_time env msg = Some (op_time (env, n, e, msg))"
    using assms by (auto simp: op_ok_def op_time_def split: option.splits)
  obtain s where "formatMessage (fe_unicode env) msg = Some s" "s \<noteq> []"
    using log_entry_written [OF p, of "fe_unicode env"] by metis
  then have "MarshalLine (fe_unicode env) z msg (op_time (env, n, e, msg)) = Some (op_line (env, n, e, msg))" "op_line (env, n, e, msg) \<noteq> []"
    using env by (simp_all add: op_line_def MarshalLine_def env_ok_def)
  with p env t that show ?thesis by blast
qed

lemma append_op:
  assumes "store_ok now sd" "op_ok z (env, n, e, msg)" "now \<le> fe_now env"
  obtains sd' where "fs_Append env n e msg sd = (Inr (formatFSMsgID env (net_ID n) e (op_time (env, n, e, msg))
      (int (length (content (snd sd) (logPath z n e (op_time (env, n, e, msg))))))), sd')"
    "store_ok (fe_now env) sd'" "fs_user (fst sd') = fs_user (fst sd)"
    "content (snd sd') = (content (snd sd))(logPath z n e (op_time (env, n, e, msg)) :=
       content (snd sd) (logPath z n e (op_time (env, n, e, msg))) @ log_of [op_line (env, n, e, msg)])"
proof -
  obtain st dk where sd: "sd = (st, dk)" by fastforce
  obtain p where o: "env_ok z env" "message_time env msg = Some (op_time (env, n, e, msg))"
    "MarshalLine (fe_unicode env) z msg (op_time (env, n, e, msg)) = Some (op_line (env, n, e, msg))" "op_line (env, n, e, msg) \<noteq> []"
    using op_okD [OF assms(2)] by metis
  have z: "fe_zone env = z" using o(1) by (simp add: env_ok_def)
  show ?thesis
    by (rule append_step [OF assms(1) [unfolded sd] o(1) assms(3) o(2), unfolded z, OF o(3,4), of n e]) (use that sd in auto)
qed

lemma append_all_content:
  assumes "store_ok now sd" "list_all (op_ok z) ops" "sorted (now # map op_now ops)"
  shows "store_ok (last (now # map op_now ops)) (append_all ops sd) \<and> fs_user (fst (append_all ops sd)) = fs_user (fst sd)
    \<and> (\<forall>n e t. days_of_date 0 1 1 \<le> day_of z t \<longrightarrow> content (snd (append_all ops sd)) (logPath z n e t)
        = content (snd sd) (logPath z n e t) @ log_of (map op_line (day_ops z (log_dir n e) (day_of z t) ops)))"
  using assms
proof (induction ops arbitrary: now sd)
  case Nil
  then show ?case by (simp add: day_ops_def)
next
  case (Cons op ops)
  obtain env n e msg where op: "op = (env, n, e, msg)" by (metis prod_cases4)
  have ok: "op_ok z (env, n, e, msg)" "now \<le> fe_now env" using Cons.prems(2,3) by (simp_all add: op op_now_def)
  obtain sd' where a: "snd (fs_Append env n e msg sd) = sd'" "store_ok (fe_now env) sd'" "fs_user (fst sd') = fs_user (fst sd)"
    "content (snd sd') = (content (snd sd))(logPath z n e (op_time op) :=
       content (snd sd) (logPath z n e (op_time op)) @ log_of [op_line op])"
    by (rule append_op [OF Cons.prems(1) ok]) (simp add: op)
  have day: "days_of_date 0 1 1 \<le> day_of z (op_time op)" using ok(1) by (simp add: op op_ok_def)
  have "op_now op = fe_now env" by (simp add: op op_now_def)
  then have "sorted (fe_now env # map op_now ops)" using Cons.prems(3) by simp
  from Cons.IH [OF a(2) _ this] Cons.prems(2)
  have IH: "store_ok (last (fe_now env # map op_now ops)) (append_all ops sd')" "fs_user (fst (append_all ops sd')) = fs_user (fst sd')"
    "\<And>n e t. days_of_date 0 1 1 \<le> day_of z t \<Longrightarrow> content (snd (append_all ops sd')) (logPath z n e t)
        = content (snd sd') (logPath z n e t) @ log_of (map op_line (day_ops z (log_dir n e) (day_of z t) ops))"
    by simp_all
  have run: "append_all (op # ops) sd = append_all ops sd'" by (simp add: op a(1))
  have dir: "op_dir op = log_dir n e" by (simp add: op op_dir_def)
  have "content (snd (append_all (op # ops) sd)) (logPath z n' e' t)
      = content (snd sd) (logPath z n' e' t) @ log_of (map op_line (day_ops z (log_dir n' e') (day_of z t) (op # ops)))"
    if "days_of_date 0 1 1 \<le> day_of z t" for n' e' t
  proof -
    have "content (snd sd') (logPath z n' e' t)
        = content (snd sd) (logPath z n' e' t) @ (if log_dir n' e' = log_dir n e \<and> day_of z t = day_of z (op_time op) then log_of [op_line op] else [])"
      unfolding a(4) logPath_eq [OF that day, of n' e' n e, symmetric] by (simp only: fun_upd_apply split: if_split) simp
    then show ?thesis unfolding run IH(3) [OF that, of n' e'] by (simp add: day_ops_def dir eq_commute [of "log_dir n e"] eq_commute [of "day_of z (op_time op)"])
  qed
  moreover have "last (now # map op_now (op # ops)) = last (fe_now env # map op_now ops)" by (simp add: op op_now_def)
  ultimately show ?case using IH(1,2) a(3) unfolding run by simp
qed

section \<open>Reading the appended messages\<close>

definition op_view :: "fs_options \<Rightarrow> db_user \<Rightarrow> fs_op \<Rightarrow> irc_message" where
  "op_view opts user op =
     (case op of (env, _, _, msg) \<Rightarrow>
        case Prefix msg of None \<Rightarrow> msg | Some p \<Rightarrow>
          (case log_view (fe_unicode env) user (Some (fo_Network opts)) (fo_Entity opts) msg p of
             (cmd, p', params) \<Rightarrow> \<lparr>Tags = [(''time'', FormatServerTime (op_time op - op_time op mod second_ns))], Prefix = Some p', Command = cmd, Params = params\<rparr>))"

text \<open>A load without events skips the lines that are no text messages.\<close>

definition op_read :: "fs_options \<Rightarrow> fs_op \<Rightarrow> bool" where
  "op_read opts op \<longleftrightarrow> (case op of (_, _, _, msg) \<Rightarrow> fo_Events opts \<or> is_text msg)"

lemma op_read_limit [simp]: "op_read (opts\<lparr>fo_Limit := n\<rparr>) op = op_read opts op"
  by (simp add: op_read_def)

lemma parse_op:
  assumes "op_ok z op" "fe_zone env = z" "day_of z ref = day_of z (op_time op)"
  shows "parseMessage env user opts ref (op_line op)
    = Inr (if op_read opts op then Some (op_view opts user op, op_time op - op_time op mod second_ns) else None)"
proof -
  obtain env' n e msg where op: "op = (env', n, e, msg)" by (metis prod_cases4)
  obtain p where p: "loggable msg p" and m: "MarshalLine (fe_unicode env') z msg (op_time op) = Some (op_line op)"
    using op_okD [OF assms(1) [unfolded op]] op by metis
  have pre: "Prefix msg = Some p" using p by (simp add: loggable_def)
  obtain cmd p' params where v: "log_view (fe_unicode env') user (Some (fo_Network opts)) (fo_Entity opts) msg p = (cmd, p', params)" by (metis prod_cases3)
  have "local_Date z ref = local_Date z (op_time op)" using assms(3) by (simp add: local_Date_day)
  moreover have "unambiguous z (op_time op)" using assms(1) by (auto simp: op_ok_def op)
  ultimately show ?thesis
    using unmarshal_marshal [OF p m _ _ v] assms(2) v pre by (simp add: parseMessage_def op_view_def op_read_def op)
qed

lemma select_ops:
  assumes "list_all (\<lambda>op. op_ok z op \<and> day_of z (op_time op) = day_of z ref \<and> op_time op - op_time op mod second_ns < ref) ops"
    and "fe_zone env = z"
  shows "select_before (parseMessage env user opts ref) ref zero_time (\<lambda>_. True) (map Some (map op_line ops))
    = Inr (map (op_view opts user) (filter (op_read opts) ops))"
  using assms(1)
proof (induction ops)
  case (Cons op ops)
  then have op: "op_ok z op" "day_of z ref = day_of z (op_time op)" "op_time op - op_time op mod second_ns < ref"
    "zero_time < op_time op - op_time op mod second_ns" by (auto simp: op_ok_def)
  show ?case using Cons parse_op [OF op(1) assms(2) op(2), of user opts] op(3,4) by simp
qed simp

section \<open>Loading over the days\<close>

lemma last_n_concat: "last_n (r - length (last_n r ys)) xs @ last_n r ys = last_n r (xs @ ys)"
  by (cases "r \<le> length ys") (simp_all add: last_n_def)

lemma last_n_length [simp]: "last_n 0 xs = []" "length (last_n n xs) = min n (length xs)"
  by (auto simp: last_n_def)

lemma day_loop_back:
  assumes "\<And>t. P t \<Longrightarrow> lo \<le> day t \<Longrightarrow> P (step t) \<and> day (step t) = day t - 1"
    and "\<And>t n. P t \<Longrightarrow> 0 < n \<Longrightarrow> lo \<le> day t \<Longrightarrow> load t n = Inr (last_n n (msgs (day t)))"
    and "\<And>t. P t \<Longrightarrow> continue t \<longleftrightarrow> lo \<le> day t" and "\<And>t. \<not> fe_cancelled env t"
    and "P t" and "tries + nat (day t - lo + 1) \<le> fsMessageStoreMaxTries"
  shows "day_loop env load continue step (@) t remaining tries acc = Inr (last_n remaining (concat (map msgs [lo..day t])) @ acc)"
  using assms(5,6)
proof (induction "nat (day t - lo + 1)" arbitrary: t remaining tries acc)
  case 0
  then have "\<not> lo \<le> day t" by simp
  then show ?case using assms(3) [OF "0.prems"(1)] by (subst day_loop.simps) (simp add: last_n_def)
next
  case (Suc k)
  then have day: "lo \<le> day t" and tries: "tries < fsMessageStoreMaxTries" by simp_all
  show ?case
  proof (cases "remaining = 0")
    case True
    then show ?thesis by (subst day_loop.simps) simp
  next
    case False
    define ms where "ms = last_n remaining (msgs (day t))"
    note s = assms(1) [OF Suc.prems(1) day]
    have k: "k = nat (day (step t) - lo + 1)" using Suc.hyps(2) s by simp
    have "(if ms = [] then Suc tries else 0) + nat (day (step t) - lo + 1) \<le> fsMessageStoreMaxTries" using Suc.hyps(2) Suc.prems(2) k by simp
    note IH = Suc.hyps(1) [OF k _ this, of "remaining - length ms" "ms @ acc"]
    have "day_loop env load continue step (@) t remaining tries acc
        = day_loop env load continue step (@) (step t) (remaining - length ms) (if ms = [] then Suc tries else 0) (ms @ acc)"
      using assms(2) [OF Suc.prems(1), of remaining] assms(3) [OF Suc.prems(1)] assms(4) day tries False
      by (subst day_loop.simps) (simp add: ms_def)
    also have "\<dots> = Inr (last_n (remaining - length ms) (concat (map msgs [lo..day t - 1])) @ ms @ acc)" using IH s by simp
    also have "\<dots> = Inr (last_n remaining (concat (map msgs [lo..day t])) @ acc)"
      using last_n_concat [of remaining "msgs (day t)" "concat (map msgs [lo..day t - 1])"] upto_rec2 [OF day] by (simp add: ms_def)
    finally show ?thesis .
  qed
qed

lemma concat_by_key:
  fixes key :: "'a \<Rightarrow> int"
  assumes "sorted (map key xs)"
  shows "concat (map (\<lambda>D. filter (\<lambda>x. key x = D) xs) [lo..hi]) = filter (\<lambda>x. lo \<le> key x \<and> key x \<le> hi) xs"
proof (induction "nat (hi - lo + 1)" arbitrary: lo)
  case 0
  then have "hi < lo" by simp
  then show ?case by (auto simp: filter_empty_conv)
next
  case (Suc k)
  then have "lo \<le> hi" by simp
  have join: "filter (\<lambda>x. key x = lo) ys @ filter (\<lambda>x. lo + 1 \<le> key x \<and> key x \<le> hi) ys = filter (\<lambda>x. lo \<le> key x \<and> key x \<le> hi) ys"
    if "sorted (map key ys)" for ys
    using that \<open>lo \<le> hi\<close>
  proof (induction ys)
    case (Cons y ys)
    moreover have "filter (\<lambda>x. key x = lo) ys = []" if "lo < key y" using Cons.prems(1) that by (auto simp: filter_empty_conv)
    ultimately show ?case by (cases "key y = lo") auto
  qed simp
  from Suc have "k = nat (hi - (lo + 1) + 1)" by simp
  from Suc.hyps(1) [OF this] join [OF assms] show ?case by (simp add: upto_rec1 [OF \<open>lo \<le> hi\<close>])
qed

lemma log_of_Nil [simp]: "log_of lines = [] \<longleftrightarrow> lines = []" "[] = log_of lines \<longleftrightarrow> lines = []"
  by (cases lines; simp)+

lemma op_view_limit [simp]: "op_view (opts\<lparr>fo_Limit := n\<rparr>) user op = op_view opts user op"
  by (auto simp: op_view_def split: prod.split option.split)

lemma load_day:
  assumes "env_ok z env" "0 < k"
    and "content (snd sd) (logPath z (fo_Network opts) (fo_Entity opts) t) = log_of lines" "list_all clean_line lines"
    and "log_tokens off (log_of lines) = map Some (map op_line ops)"
    and "off \<ge> 0 \<Longrightarrow> None \<notin> set (scan_tokens (drop (nat off) (log_of lines)))"
    and "list_all (\<lambda>op. op_ok z op \<and> day_of z (op_time op) = day_of z t \<and> op_time op - op_time op mod second_ns < t) ops"
  shows "parseMessagesBefore env sd t zero_time (opts\<lparr>fo_Limit := k\<rparr>) off (\<lambda>_. True)
    = Inr (last_n k (map (op_view opts (fs_user (fst sd))) (filter (op_read opts) ops)))"
proof -
  obtain st dk where sd: "sd = (st, dk)" by fastforce
  have z: "fe_zone env = z" "fe_open env p" for p using assms(1) by (simp_all add: env_ok_def)
  let ?p = "logPath z (fo_Network opts) (fo_Entity opts) t"
  show ?thesis
  proof (cases "dk_files dk ?p")
    case None
    then have "lines = []" using assms(3) by (simp add: sd content_def)
    then have "ops = []" using assms(5) scan_tokens_log [of "[]"] by (simp add: log_tokens_def split: if_splits)
    then show ?thesis using None by (simp add: parseMessagesBefore_def sd z last_n_def)
  next
    case (Some i)
    then have data: "dk_data dk i = log_of lines" using assms(3) by (simp add: sd content_def)
    have "select_before (parseMessage env (fs_user st) (opts\<lparr>fo_Limit := k\<rparr>) t) t zero_time (\<lambda>_. True) (log_tokens off (dk_data dk i))
        = Inr (map (op_view opts (fs_user st)) (filter (op_read opts) ops))"
      using select_ops [OF assms(7) z(1), of "fs_user st" "opts\<lparr>fo_Limit := k\<rparr>"] assms(5) data by (simp add: op_read_limit [abs_def])
    then show ?thesis
      using parseMessagesBefore_select [of "opts\<lparr>fo_Limit := k\<rparr>" dk env t i off st zero_time "\<lambda>_. True"] assms(2,6) data Some z
      by (simp add: sd)
  qed
qed

lemma append_all_append: "append_all (ops @ ops') sd = append_all ops' (append_all ops sd)"
  by (induction ops sd rule: append_all.induct) simp_all

lemma parseFSMsgID_format:
  assumes "bare_ok (fe_bare env)" "fe_bare env' = fe_bare env" "fe_zone env' = fe_zone env"
    "msgid_ok (fe_bare env) netID e (FSMsgID (newDate (fe_zone env) t) off)"
  shows "parseFSMsgID env (formatFSMsgID env' netID e t off) = Inr (netID, e, truncateDay (fe_zone env) t, off)"
  using ParseMsgID_format [OF assms(1,4), of "Some msgIDFS"] assms(2,3)
  by (simp add: parseFSMsgID_def formatFSMsgID_def date_Time_def newDate_def truncateDay_def split: prod.split)

definition empty_disk :: disk where
  "empty_disk = \<lparr>dk_dirs = [], dk_files = \<lambda>_. None, dk_data = \<lambda>_. [], dk_next = 0\<rparr>"

lemma empty_store_ok: "store_ok now (NewFSStore user, empty_disk)"
  by (simp add: store_ok_def NewFSStore_def empty_disk_def disk_ok_def)

lemma content_empty: "content empty_disk p = []"
  by (simp add: content_def empty_disk_def)

text \<open>The messages of the logs that a run of appends left, day by day.\<close>

lemma ops_early:
  assumes "regular_days z lo hi" and "t = now \<or> (\<exists>s. t = day_before z s \<and> day_of z s = day_of z t + 1 \<and> day_of z s \<le> hi)"
    and "lo \<le> day_of z t" and "op_time op < now" and "day_of z (op_time op) = day_of z t"
  shows "op_time op - op_time op mod second_ns < t"
  using assms(2)
proof (elim disjE exE conjE)
  assume "t = now"
  moreover have "0 \<le> op_time op mod second_ns" by (simp add: second_ns_def)
  ultimately show ?thesis using assms(4) by linarith
next
  fix s assume "t = day_before z s" "day_of z s = day_of z t + 1" "day_of z s \<le> hi"
  then show ?thesis using day_before_late [OF assms(1), of s "op_time op"] assms(3,5) by simp
qed

lemma day_ops_append [simp]: "day_ops z dir D (xs @ ys) = day_ops z dir D xs @ day_ops z dir D ys"
  by (simp add: day_ops_def)

lemma load_after_day:
  fixes n :: db_network and e :: string and z :: zone and op0 :: fs_op
  defines "dir \<equiv> log_dir n e" and "D0 \<equiv> day_of z (op_time op0)"
  assumes env: "env_ok z env" and opts: "fo_Network opts = n" "fo_Entity opts = e" and op0: "op_dir op0 = dir"
    and ok: "list_all (op_ok z) (before @ op0 # after)" and days: "sorted (map (\<lambda>op. day_of z (op_time op)) (before @ op0 # after))"
    and now: "list_all (\<lambda>op. op_time op < now) after"
    and content: "content (snd sd) (logPath z n e t) = log_of (map op_line (day_ops z dir (day_of z t) (before @ op0 # after)))"
    and regular: "regular_days z lo hi" "lo \<le> D0"
    and t: "t = now \<or> (\<exists>s. t = day_before z s \<and> day_of z s = day_of z t + 1 \<and> day_of z s \<le> hi)" "D0 \<le> day_of z t" and "0 < k"
  shows "parseMessagesBefore env sd t zero_time (opts\<lparr>fo_Limit := k\<rparr>)
       (if day_of z t = D0 then int (length (log_of (map op_line (day_ops z dir D0 before)))) else - 1) (\<lambda>_. True)
      = Inr (last_n k (map (op_view opts (fs_user (fst sd))) (filter (op_read opts) (day_ops z dir (day_of z t) after))))"
proof -
  let ?D = "day_of z t"
  define lines where "lines = map op_line (day_ops z dir ?D (before @ op0 # after))"
  have clean: "list_all clean_line lines" using ok by (auto simp: lines_def day_ops_def list_all_iff op_ok_def)
  have sel: "list_all (\<lambda>op. op_ok z op \<and> day_of z (op_time op) = ?D \<and> op_time op - op_time op mod second_ns < t) (day_ops z dir ?D after)"
    using ok now ops_early [OF regular(1) t(1)] regular(2) t(2) by (auto simp: list_all_iff day_ops_def)
  have "content (snd sd) (logPath z n e t) = log_of lines" using content by (simp only: lines_def)
  note load = load_day [OF env \<open>0 < k\<close>, where opts = opts and sd = sd and t = t and lines = lines and ops = "day_ops z dir ?D after", unfolded opts(1,2), OF this clean _ _ sel]
  show ?thesis
  proof (cases "?D = D0")
    case True
    then have l: "lines = map op_line (day_ops z dir D0 before) @ op_line op0 # map op_line (day_ops z dir D0 after)"
      using op0 by (simp add: lines_def day_ops_def D0_def)
    have "None \<notin> set (scan_tokens (drop (nat (int (length (log_of (map op_line (day_ops z dir D0 before)))))) (log_of lines)))"
      using scan_tokens_log [of "op_line op0 # map op_line (day_ops z dir D0 after)"] clean by (auto simp: l)
    with load [of "int (length (log_of (map op_line (day_ops z dir D0 before))))"] show ?thesis
      using True log_tokens_after [OF clean [unfolded l], folded l] by simp
  next
    case False
    then have "day_ops z dir ?D (before @ [op0]) = []"
      using t(2) days by (auto simp: day_ops_def filter_empty_conv sorted_append D0_def)
    then have "lines = map op_line (day_ops z dir ?D after)"
      using day_ops_append [of z dir ?D "before @ [op0]" after] by (simp add: lines_def del: day_ops_append)
    with load [of "- 1"] show ?thesis using False scan_tokens_log [OF clean] by (simp add: log_tokens_def)
  qed
qed

lemma day_of_mono_regular:
  assumes "regular_days z lo hi" and "lo \<le> day_of z t" and "day_of z t < hi" and "s \<le> t"
  shows "day_of z s \<le> day_of z t"
proof -
  have "\<not> midnight z (day_of z t + 1) \<le> t" using regular_daysD(1) [OF assms(1), of "day_of z t + 1" t] assms(2,3) by simp
  then have "\<not> midnight z (day_of z t + 1) \<le> s" using assms(4) by linarith
  then show ?thesis using regular_daysD(1) [OF assms(1), of "day_of z t + 1" s] assms(2,3) by simp
qed

lemma days_joined:
  fixes day :: "'a \<Rightarrow> int"
  assumes "sorted (map day xs)" and "\<And>x. x \<in> set xs \<Longrightarrow> lo \<le> day x \<and> day x \<le> hi"
  shows "concat (map (\<lambda>D. map f (filter P (filter (\<lambda>x. day x = D) xs))) [lo..hi]) = map f (filter P xs)"
proof -
  have "concat (map (\<lambda>D. filter (\<lambda>x. day x = D) xs) [lo..hi]) = xs"
    unfolding concat_by_key [OF assms(1)] using assms(2) by (simp add: filter_id_conv)
  then have "map f (filter P (concat (map (\<lambda>D. filter (\<lambda>x. day x = D) xs) [lo..hi]))) = map f (filter P xs)" by simp
  then show ?thesis by (simp add: map_concat filter_concat comp_def)
qed

lemma load_after_append:
  fixes n :: db_network and e :: string and z :: zone and op0 :: fs_op
  defines "dir \<equiv> log_dir n e" and "D0 \<equiv> day_of z (op_time op0)"
  assumes env: "env_ok z env" and opts: "fo_Network opts = n" "fo_Entity opts = e" and op0: "op_dir op0 = dir"
    and ok: "list_all (op_ok z) (before @ op0 # after)" and days: "sorted (map (\<lambda>op. day_of z (op_time op)) (before @ op0 # after))"
    and now: "list_all (\<lambda>op. op_time op < fe_now env) (op0 # after)"
    and regular: "regular_days z lo hi" "lo < D0" "day_of z (fe_now env) < hi" and gap: "day_of z (fe_now env) - D0 < int fsMessageStoreMaxTries"
    and content: "\<And>t. days_of_date 0 1 1 \<le> day_of z t \<Longrightarrow>
      content (snd sd) (logPath z n e t) = log_of (map op_line (day_ops z dir (day_of z t) (before @ op0 # after)))"
    and D0: "D0 \<le> day_of z (fe_now env)"
  shows "load_latest env sd (truncateDay z (op_time op0)) (int (length (log_of (map op_line (day_ops z dir D0 before))))) opts
    = Inr (last_n (fo_Limit opts) (map (op_view opts (fs_user (fst sd))) (filter (\<lambda>op. op_dir op = dir \<and> op_read opts op) after)))"
proof -
  let ?view = "op_view opts (fs_user (fst sd))" and ?now = "day_of z (fe_now env)"
  define P where "P = (\<lambda>t. (t = fe_now env \<or> (\<exists>s. t = day_before z s \<and> day_of z s = day_of z t + 1 \<and> day_of z s \<le> hi)) \<and> D0 - 1 \<le> day_of z t \<and> day_of z t \<le> ?now)"
  have z: "fe_zone env = z" "\<not> fe_cancelled env t" for t using env by (simp_all add: env_ok_def)
  have year: "days_of_date 0 1 1 \<le> D0" using ok by (auto simp: D0_def op_ok_def)
  have after: "list_all (\<lambda>op. op_time op < fe_now env) after" using now by simp
  note load = load_after_day [OF env opts op0 [unfolded dir_def] ok days after, folded dir_def D0_def, OF _ regular(1) less_imp_le [OF regular(2)]]
  have "load_latest env sd (truncateDay z (op_time op0)) (int (length (log_of (map op_line (day_ops z dir D0 before))))) opts
      = Inr (last_n (fo_Limit opts) (concat (map (\<lambda>D. map ?view (filter (op_read opts) (day_ops z dir D after))) [D0..?now])) @ [])"
    unfolding load_latest_def z(1)
  proof (rule day_loop_back [where P = P and day = "day_of z"])
    show "P (day_before z t) \<and> day_of z (day_before z t) = day_of z t - 1" if "P t" "D0 \<le> day_of z t" for t
    proof -
      have "day_of z (day_before z t) = day_of z t - 1" using day_of_before [OF regular(1), of t] that regular by (simp add: P_def)
      then show ?thesis using that regular(3) by (auto simp: P_def)
    qed
    show "(\<not> truncateDay z t < truncateDay z (op_time op0)) = (D0 \<le> day_of z t)" if "P t" for t
      using truncateDay_compare(1) [OF regular(1), of t "op_time op0"] that regular(2,3) D0 by (auto simp: P_def D0_def)
    show "P (fe_now env)" using D0 by (simp add: P_def)
    show "0 + nat (?now - D0 + 1) \<le> fsMessageStoreMaxTries" using gap by simp
    fix t k assume t: "P t" "0 < (k :: nat)" "D0 \<le> day_of z t"
    have "truncateDay z t = truncateDay z (op_time op0) \<longleftrightarrow> day_of z t = D0"
      using truncateDay_compare(2) [OF regular(1), of t "op_time op0"] t regular(2,3) D0 by (simp add: P_def D0_def)
    then show "parseMessagesBefore env sd t zero_time (opts\<lparr>fo_Limit := k\<rparr>)
        (if int (length (log_of (map op_line (day_ops z dir D0 before)))) \<ge> 0 \<and> truncateDay z t = truncateDay z (op_time op0)
         then int (length (log_of (map op_line (day_ops z dir D0 before)))) else - 1) (\<lambda>_. True)
      = Inr (last_n k (map ?view (filter (op_read opts) (day_ops z dir (day_of z t) after))))"
      using load [OF content _ t(3,2)] t year by (simp add: P_def)
  qed (rule z(2))
  moreover have "concat (map (\<lambda>D. map ?view (filter (op_read opts) (day_ops z dir D after))) [D0..?now])
      = map ?view (filter (op_read opts) (filter (\<lambda>op. op_dir op = dir) after))"
  proof -
    define xs where "xs = filter (\<lambda>op. op_dir op = dir) after"
    have s: "sorted (map (\<lambda>op. day_of z (op_time op)) xs)" using days by (auto simp: xs_def sorted_append intro: sorted_filter)
    have "D0 \<le> day_of z (op_time op) \<and> day_of z (op_time op) \<le> ?now" if "op \<in> set xs" for op
      using that days after day_of_mono_regular [OF regular(1), of "fe_now env" "op_time op"] regular(2,3) D0
      by (auto simp: xs_def sorted_append D0_def list_all_iff)
    from days_joined [OF s this, of ?view "op_read opts"] show ?thesis by (simp add: day_ops_def xs_def conj_commute)
  qed
  ultimately show ?thesis by (simp add: conj_commute)
qed

lemma length_log_of_day: "length (log_of (map op_line (day_ops z dir D ops))) \<le> length (log_of (map op_line ops))"
  by (induction ops) (simp_all add: day_ops_def)

lemma fs_msgid_ok:
  assumes "int64_ok netID" "accepts B e" "days_of_date 0 1 1 \<le> day_of z t" "day_of z t < days_of_date 10000 1 1" "k < 2 ^ 63"
  shows "msgid_ok B netID e (FSMsgID (newDate z t) (int k))"
proof -
  obtain y m d where date: "date_of_days (day_of z t) = (y, m, d)" by (metis prod_cases3)
  note s = date_of_days_spec [OF date] date_year_bound [OF date]
  have "d < 100" using s(4) days_in_bound [of m y] by simp
  moreover have "int k < 2 ^ 63" using assms(5) by (metis of_nat_less_iff of_nat_numeral of_nat_power)
  ultimately show ?thesis using assms(1-4) s by (simp add: msgid_ok_def newDate_def local_Date_day date int64_ok_def)
qed

lemma formatMsgID_nonempty:
  assumes "bare_ok B" "int64_ok netID" "accepts B tgt"
  shows "formatMsgID B netID tgt body \<noteq> []"
proof
  define h where "h = (\<lambda>i. \<lparr>Version = msgIDVersion, Network = i, Target = tgt, IDType = msgIDType body\<rparr>)"
  define i where "i = (if netID = 0 then 1 else 0 :: int)"
  have ok: "header_ok B (h netID)" "header_ok B (h i)" using assms(2,3) by (simp_all add: h_def i_def header_ok_def msgIDVersion_def int64_ok_def)
  have "unmarshalHeader B (marshalHeader B (h netID) @ marshalHeader B (h i)) = Some (h netID, marshalHeader B (h i))"
    "unmarshalHeader B (marshalHeader B (h i) @ []) = Some (h i, [])" using assms(1) ok unfolding bare_ok_def by blast+
  then have "marshalHeader B (h netID) \<noteq> []" by (auto simp: h_def i_def split: if_splits)
  moreover assume "formatMsgID B netID tgt body = []"
  then have "raw_url_encode (marshalHeader B (h netID) @ marshalBody B body) = raw_url_encode []" by (simp add: formatMsgID_def h_def raw_url_encode_def)
  then have "marshalHeader B (h netID) @ marshalBody B body = []" by (metis raw_url_decode_encode option.inject)
  ultimately show False by simp
qed

text \<open>C18. Loading from the identifier that the append of a message returned gives exactly the messages that were appended to that
  log later, oldest first, cut to the limit: all of them when events are asked for, else the text messages among them, whatever was appended
  before and to other logs; each message as the log keeps it, with its time up to the second.  No append fails, since the table of open files
  never closes the one in use.  The zone may change its offset, as long as the days from the one before the message to the one after the load are in
  order; messages are appended in the order of their days, dated before the load and at times that the local clock determines, and the load is less than
  hundred days later.\<close>

theorem fs_store_load:
  fixes z :: zone and before after :: "fs_op list" and env0 :: fs_env and n :: db_network and e :: string and msg :: irc_message
  defines "op0 \<equiv> (env0, n, e, msg)"
  assumes "env_ok z env" and "bare_ok (fe_bare env)" and "fe_bare env0 = fe_bare env" and "int64_ok (net_ID n)" and "accepts (fe_bare env) e"
    and "fo_Network opts = n" and "fo_Entity opts = e"
    and "list_all (op_ok z) (before @ op0 # after)" and "sorted (map op_now (before @ op0 # after))"
    and "sorted (map (\<lambda>op. day_of z (op_time op)) (before @ op0 # after))" and "list_all (\<lambda>op. op_time op < fe_now env) (op0 # after)"
    and "day_of z (op_time op0) < days_of_date 10000 1 1" and "length (log_of (map op_line before)) < 2 ^ 63"
    and "day_of z (fe_now env) - day_of z (op_time op0) < int fsMessageStoreMaxTries"
    and "regular_days z lo hi" and "lo < day_of z (op_time op0)" and "day_of z (op_time op0) \<le> hi" and "day_of z (fe_now env) < hi"
  shows "\<exists>msgid sd. fs_Append env0 n e msg (append_all before (NewFSStore user, empty_disk)) = (Inr msgid, sd)
    \<and> fs_LoadLatestID env (append_all after sd) msgid opts
      = Inr (last_n (fo_Limit opts) (map (op_view opts user) (filter (\<lambda>op. op_dir op = log_dir n e \<and> op_read opts op) after)))"
proof -
  let ?sd = "(NewFSStore user, empty_disk)" and ?dir = "log_dir n e" and ?D = "day_of z (op_time op0)"
  let ?now = "hd (map op_now (before @ op0 # after))"
  let ?off = "length (log_of (map op_line (day_ops z ?dir ?D before)))"
  have "midnight z ?D \<le> op_time op0" using regular_daysD(1) [OF assms(16), of ?D "op_time op0"] assms(17,18) by simp
  moreover have "op_time op0 < fe_now env" using assms(12) by simp
  ultimately have later: "?D \<le> day_of z (fe_now env)" using regular_daysD(1) [OF assms(16), of ?D "fe_now env"] assms(17,18) by simp
  have ok: "list_all (op_ok z) before" "op_ok z (env0, n, e, msg)" using assms(9) by (simp_all add: op0_def)
  have day: "days_of_date 0 1 1 \<le> ?D" using ok(2) by (simp add: op_ok_def op0_def)
  have sorted: "sorted (?now # map op_now (before @ op0 # after))" using assms(10) by (cases before) auto
  then have sb: "sorted (?now # map op_now before)" "last (?now # map op_now before) \<le> fe_now env0"
    by (cases before rule: rev_cases; auto simp: sorted_append op0_def op_now_def)+
  note b = append_all_content [OF empty_store_ok ok(1) sb(1), of user]
  have off: "content (snd (append_all before ?sd)) (logPath z n e (op_time op0)) = log_of (map op_line (day_ops z ?dir ?D before))"
    using b day by (simp add: content_empty)
  obtain sd where a: "fs_Append env0 n e msg (append_all before ?sd) = (Inr (formatFSMsgID env0 (net_ID n) e (op_time op0) (int ?off)), sd)"
    using append_op [OF conjunct1 [OF b] ok(2) sb(2)] off unfolding op0_def by metis
  have run: "append_all after sd = append_all (before @ op0 # after) ?sd" by (simp add: append_all_append op0_def a)
  note r = append_all_content [OF empty_store_ok assms(9) sorted, of user]
  have z: "fe_zone env = z" "fe_zone env0 = z" using assms(2) ok(2) by (simp_all add: env_ok_def op_ok_def)
  have "?off < 2 ^ 63" using assms(14) length_log_of_day [of z ?dir ?D before] by linarith
  then have "parseFSMsgID env (formatFSMsgID env0 (net_ID n) e (op_time op0) (int ?off)) = Inr (net_ID n, e, truncateDay z (op_time op0), int ?off)"
    using parseFSMsgID_format [OF assms(3,4)] fs_msgid_ok [OF assms(5,6) day assms(13)] z by simp
  moreover have "formatFSMsgID env0 (net_ID n) e (op_time op0) (int ?off) \<noteq> []"
    using assms(3-6) by (simp add: formatFSMsgID_def formatMsgID_nonempty)
  moreover have "op_dir op0 = log_dir n e" by (simp add: op0_def op_dir_def)
  note load = load_after_append [OF assms(2,7,8) this assms(9,11,12,16,17,19,15) _ later, of "append_all after sd"]
  ultimately have "fs_LoadLatestID env (append_all after sd) (formatFSMsgID env0 (net_ID n) e (op_time op0) (int ?off)) opts
      = Inr (last_n (fo_Limit opts) (map (op_view opts user) (filter (\<lambda>op. op_dir op = ?dir \<and> op_read opts op) after)))"
    using load r assms(7,8) by (simp add: fs_LoadLatestID_def run content_empty NewFSStore_def)
  with a show ?thesis by blast
qed
text \<open>Central European time in 2023: summer time from the 26th of March to the 29th of October.\<close>

definition berlin :: zone where
  "berlin = \<lparr>z_lookup = \<lambda>s. if s < 1679792400 then (3600, - (2 ^ 63), 1679792400)
     else if s < 1698541200 then (7200, 1679792400, 1698541200) else (3600, 1698541200, 2 ^ 63 - 1)\<rparr>"

lemma berlin_local: "local_secs berlin t = t div second_ns + (if t div second_ns < 1679792400 then 3600 else if t div second_ns < 1698541200 then 7200 else 3600)"
  by (simp add: local_secs_def berlin_def)

lemma berlin_winter: "1698541200 \<le> secs \<Longrightarrow> from_local berlin (local_secs berlin (secs * second_ns)) = secs"
  unfolding berlin_local by (simp add: from_local_def berlin_def second_ns_def)

lemma berlin_midnight: "midnight berlin D = (D * 86400 - (if D \<le> 19442 then 3600 else if D \<le> 19659 then 7200 else 3600)) * second_ns"
proof -
  consider "D \<le> 19442" | "19443 \<le> D" "D \<le> 19659" | "19660 \<le> D" "D \<le> 106751991167" | "106751991168 \<le> D" by linarith
  then show ?thesis by cases (simp_all add: midnight_def from_local_def berlin_def)
qed

lemma berlin_day: "midnight berlin D \<le> t \<longleftrightarrow> D \<le> day_of berlin t"
proof -
  define x where "x = t div second_ns"
  have "midnight berlin D \<le> t \<longleftrightarrow> D * 86400 - (if D \<le> 19442 then 3600 else if D \<le> 19659 then 7200 else 3600) \<le> x"
    by (simp add: berlin_midnight x_def le_div_int second_ns_def)
  also have "\<dots> \<longleftrightarrow> D * 86400 \<le> x + (if x < 1679792400 then 3600 else if x < 1698541200 then 7200 else 3600)"
    by (cases "D \<le> 19442"; cases "D \<le> 19659"; cases "x < 1679792400"; cases "x < 1698541200"; simp; linarith)
  also have "\<dots> \<longleftrightarrow> D \<le> day_of berlin t" by (simp only: day_of_def berlin_local x_def le_div_int)
  finally show ?thesis .
qed

lemma berlin_regular: "regular_days berlin lo hi"
proof -
  have "\<exists>t. day_of berlin t = D" for D
  proof
    have "midnight berlin D < midnight berlin (D + 1)" by (simp add: berlin_midnight second_ns_def)
    then have "D \<le> day_of berlin (midnight berlin D)" "\<not> D + 1 \<le> day_of berlin (midnight berlin D)"
      using berlin_day [of D "midnight berlin D"] berlin_day [of "D + 1" "midnight berlin D"] by simp_all
    then show "day_of berlin (midnight berlin D) = D" by linarith
  qed
  then show ?thesis by (simp add: regular_days_def berlin_day)
qed

definition good_env :: fs_env where
  "good_env = \<lparr>fe_unicode = no_tables, fe_zone = berlin, fe_bare = bare_concrete, fe_now = 1700100000000000000, fe_mkdir = \<lambda>_. True,
     fe_create = \<lambda>_. True, fe_write = \<lambda>_. None, fe_stat = \<lambda>_. True, fe_open = \<lambda>_. True, fe_cancelled = \<lambda>_. False, fe_rename = \<lambda>_ _. True\<rparr>"

definition said :: "string \<Rightarrow> irc_message" where
  "said s = \<lparr>Tags = [], Prefix = Some (only_name ''bob''), Command = ''PRIVMSG'', Params = [''#soju'', s]\<rparr>"

definition at_time :: "int \<Rightarrow> string \<Rightarrow> string \<Rightarrow> fs_op" where
  "at_time secs entity s = (good_env\<lparr>fe_now := secs * second_ns\<rparr>, NewNetwork ''irc.example.org'', entity, said s)"

lemma at_time_simps:
  "op_time (at_time secs entity s) = secs * second_ns" "op_now (at_time secs entity s) = secs * second_ns"
  "op_dir (at_time secs entity s) = log_dir (NewNetwork ''irc.example.org'') entity"
  by (simp_all add: at_time_def op_time_def op_now_def op_dir_def message_time_def said_def)

lemma at_time_line:
  assumes "\<not> HasPrefix s [ctcp_delim]"
  shows "op_line (at_time secs entity s) = timestamp (local_Clock berlin (secs * second_ns)) @ ''<bob> '' @ s"
proof -
  have "ParseCTCPMessage no_tables (said s) = None" using assms by (simp add: ParseCTCPMessage_def said_def)
  then have "formatMessage no_tables (said s) = Some (''<bob> '' @ s)" by (simp add: formatMessage_def said_def only_name_def)
  then show ?thesis using at_time_simps(1) [of secs entity s] by (simp add: op_line_def MarshalLine_def at_time_def good_env_def)
qed

lemma timestamp_clean: "CHR 0x0A \<notin> set (timestamp (local_Clock z t))" "length (timestamp (local_Clock z t)) = 11"
proof -
  obtain h mi sec where c: "local_Clock z t = (h, mi, sec)" by (metis prod_cases3)
  have "CHR 0x0A \<notin> set (pad_nat 2 k)" for k using pad_nat_digits [of 2 k] by (auto simp: list_all_iff is_digit_def)
  then show "CHR 0x0A \<notin> set (timestamp (local_Clock z t))" using local_Clock_range [OF c] by (simp add: c timestamp_def appendInt_pos)
  show "length (timestamp (local_Clock z t)) = 11" using scan_timestamp_written(2) [OF c] by (simp add: c timestampPrefixLen_def)
qed

lemma op_ok_example:
  assumes "0 \<le> secs" and "unambiguous berlin (secs * second_ns)" and "message_time (good_env\<lparr>fe_now := secs * second_ns\<rparr>) msg = Some (secs * second_ns)"
    and "loggable msg p" and "clean_line (op_line (good_env\<lparr>fe_now := secs * second_ns\<rparr>, n, e, msg))"
  shows "op_ok berlin (good_env\<lparr>fe_now := secs * second_ns\<rparr>, n, e, msg)"
proof -
  have "0 \<le> day_of berlin (secs * second_ns)" using assms(1) by (simp add: day_of_def berlin_local second_ns_def pos_imp_zdiv_nonneg_iff)
  moreover have "days_of_date 0 1 1 \<le> 0" "zero_time < 0" by (simp_all add: days_of_date_def zero_time_def day_ns_def)
  moreover have "0 \<le> secs * second_ns" using assms(1) by (simp add: second_ns_def)
  moreover have "env_ok berlin (good_env\<lparr>fe_now := t\<rparr>)" for t by (simp add: env_ok_def good_env_def)
  moreover have "Prefix msg = Some p" using assms(4) by (simp add: loggable_def)
  ultimately show ?thesis using assms by (simp add: op_ok_def op_time_def)
qed

lemma at_time_ok:
  assumes "0 \<le> secs" "from_local berlin (local_secs berlin (secs * second_ns)) = secs"
    "\<not> HasPrefix s [ctcp_delim]" "s \<noteq> []" "CHR 0x0A \<notin> set s" "last s \<noteq> CHR 0x0D" "length s < 1000"
  shows "op_ok berlin (at_time secs entity s)"
  unfolding at_time_def
proof (rule op_ok_example [OF assms(1)])
  show "unambiguous berlin (secs * second_ns)" using assms(2) by (simp add: unambiguous_local second_ns_def)
  show "message_time (good_env\<lparr>fe_now := secs * second_ns\<rparr>) (said s) = Some (secs * second_ns)" by (simp add: message_time_def said_def)
  show "loggable (said s) (only_name ''bob'')" by (simp add: loggable_def said_def only_name_def nick_ok_def)
  show "clean_line (op_line (good_env\<lparr>fe_now := secs * second_ns\<rparr>, NewNetwork ''irc.example.org'', entity, said s))"
    using assms at_time_line timestamp_clean by (simp add: clean_line_def maxTokenSize_def flip: at_time_def)
qed

definition joined :: irc_message where
  "joined = \<lparr>Tags = [], Prefix = Some \<lparr>Name = ''eve'', User = ''e'', Host = ''h''\<rparr>, Command = ''JOIN'', Params = [''#soju'']\<rparr>"

definition join_at :: "int \<Rightarrow> fs_op" where
  "join_at secs = (good_env\<lparr>fe_now := secs * second_ns\<rparr>, NewNetwork ''irc.example.org'', ''#soju'', joined)"

lemma join_at_simps:
  "op_time (join_at secs) = secs * second_ns" "op_now (join_at secs) = secs * second_ns" "op_dir (join_at secs) = log_dir (NewNetwork ''irc.example.org'') ''#soju''"
  by (simp_all add: join_at_def op_time_def op_now_def op_dir_def message_time_def joined_def)

lemma join_at_ok:
  assumes "0 \<le> secs" "from_local berlin (local_secs berlin (secs * second_ns)) = secs"
  shows "op_ok berlin (join_at secs)"
  unfolding join_at_def
proof (rule op_ok_example [OF assms(1)])
  show "unambiguous berlin (secs * second_ns)" using assms(2) by (simp add: unambiguous_local second_ns_def)
  show "message_time (good_env\<lparr>fe_now := secs * second_ns\<rparr>) joined = Some (secs * second_ns)" by (simp add: message_time_def joined_def)
  show "loggable joined \<lparr>Name = ''eve'', User = ''e'', Host = ''h''\<rparr>" by (simp add: loggable_def joined_def nick_ok_def)
  have "op_line (join_at secs) = timestamp (local_Clock berlin (secs * second_ns)) @ ''*** Joins: eve (e@h)''"
    using join_at_simps(1) [of secs] by (simp add: op_line_def join_at_def good_env_def MarshalLine_def formatMessage_def joined_def)
  then show "clean_line (op_line (good_env\<lparr>fe_now := secs * second_ns\<rparr>, NewNetwork ''irc.example.org'', ''#soju'', joined))"
    using timestamp_clean by (simp add: clean_line_def maxTokenSize_def flip: join_at_def)
qed

definition example_opts :: fs_options where
  "example_opts = \<lparr>fo_Network = NewNetwork ''irc.example.org'', fo_Entity = ''#soju'', fo_Limit = 10, fo_Events = True\<rparr>"

text \<open>The backlog of a client, over the end of summer time.\<close>

definition backlog_opts :: fs_options where
  "backlog_opts = example_opts\<lparr>fo_Events := False\<rparr>"

definition later_ops :: "fs_op list" where
  "later_ops = [at_time 1698490000 ''#soju'' ''z'', at_time 1698560000 ''#a'' ''v'', join_at 1698560001, at_time 1698570000 ''#soju'' ''w'']"

theorem fs_store_load_witness:
  "\<exists>msgid sd. fs_Append (good_env\<lparr>fe_now := 1698480100 * second_ns\<rparr>) (NewNetwork ''irc.example.org'') ''#soju'' (said ''y'')
      (append_all [at_time 1698480000 ''#a'' ''x''] (NewFSStore (NewUser ''alice''), empty_disk)) = (Inr msgid, sd)
    \<and> fs_LoadLatestID good_env (append_all later_ops sd) msgid backlog_opts
      = Inr (last_n (fo_Limit backlog_opts) (map (op_view backlog_opts (NewUser ''alice''))
          (filter (\<lambda>op. op_dir op = log_dir (NewNetwork ''irc.example.org'') ''#soju'' \<and> op_read backlog_opts op) later_ops)))"
proof (rule fs_store_load [where z = berlin and lo = 19650 and hi = 19700], unfold at_time_def [of 1698480100 "''#soju''" "''y''", symmetric])
  show "env_ok berlin good_env" by (simp add: env_ok_def good_env_def)
  show "bare_ok (fe_bare good_env)" by (simp add: good_env_def bare_concrete_ok)
  show "accepts (fe_bare good_env) ''#soju''" by (simp add: good_env_def bare_concrete_def)
  have "op_ok berlin (at_time secs entity [c])"
    if "0 \<le> secs" "from_local berlin (local_secs berlin (secs * second_ns)) = secs" "c \<noteq> ctcp_delim" "c \<noteq> CHR 0x0A" "c \<noteq> CHR 0x0D" for secs entity c
    using that by (intro at_time_ok) (simp_all add: HasPrefix_def)
  then show "list_all (op_ok berlin) ([at_time 1698480000 ''#a'' ''x''] @ at_time 1698480100 ''#soju'' ''y'' # later_ops)"
    using join_at_ok [of 1698560001]
    by (simp add: later_ops_def ctcp_delim_def berlin_local) (simp add: from_local_def berlin_def second_ns_def)
  have "length (op_line (at_time 1698480000 ''#a'' ''x'')) = 18" by (simp add: at_time_line HasPrefix_def ctcp_delim_def timestamp_clean)
  then show "length (log_of (map op_line [at_time 1698480000 ''#a'' ''x''])) < 2 ^ 63" by simp
  show "regular_days berlin 19650 19700" by (rule berlin_regular)
qed (simp_all add: good_env_def int64_ok_def NewNetwork_def example_opts_def backlog_opts_def later_ops_def at_time_simps join_at_simps
    day_of_def berlin_local second_ns_def days_of_date_def fsMessageStoreMaxTries_def)

section \<open>Bounds of a load\<close>

definition dated :: "int \<Rightarrow> int \<Rightarrow> irc_message \<Rightarrow> bool" where
  "dated lo hi m \<longleftrightarrow> (\<exists>t. lo < t \<and> t < hi \<and> Tags m = [(''time'', FormatServerTime t)])"

lemma parse_dated: "parseMessage env user opts ref line = Inr (Some (m, t)) \<Longrightarrow> Tags m = [(''time'', FormatServerTime t)]"
  by (auto simp: parseMessage_def UnmarshalLine_def Let_def split: option.splits if_splits)

lemma select_before_dated:
  assumes "select_before (parseMessage env user opts ref) ref lo sel ts = Inr ms"
  shows "list_all (\<lambda>m. sel m \<and> dated lo ref m) ms"
  using assms
proof (induction ts arbitrary: ms)
  case (Cons x ts)
  obtain line where x: "x = Some line" using Cons.prems by (cases x) auto
  obtain r where r: "parseMessage env user opts ref line = Inr r" using Cons.prems by (cases "parseMessage env user opts ref line") (auto simp: x)
  show ?case
  proof (cases r)
    case None
    then show ?thesis using Cons r by (simp add: x)
  next
    case (Some mt)
    obtain m t where mt: "mt = (m, t)" by fastforce
    have tag: "Tags m = [(''time'', FormatServerTime t)]" using parse_dated r Some mt by metis
    have select: "(if lo < t \<and> \<not> t < ref then Inr [] else if lo < t \<and> sel m then map_sum id ((#) m) (select_before (parseMessage env user opts ref) ref lo sel ts)
        else select_before (parseMessage env user opts ref) ref lo sel ts) = Inr ms" using Cons.prems r Some mt by (simp add: x)
    then show ?thesis
      using Cons.IH tag by (cases "select_before (parseMessage env user opts ref) ref lo sel ts") (auto simp: dated_def split: if_splits)
  qed
qed simp

lemma after_loop_dated:
  assumes "after_loop (parseMessage env user opts ref) ref hi sel limit ts history = Inr ms"
    and "list_all (\<lambda>m. sel m \<and> dated ref hi m) history" "length history \<le> limit"
  shows "list_all (\<lambda>m. sel m \<and> dated ref hi m) ms \<and> length ms \<le> limit"
  using assms
proof (induction ts arbitrary: history)
  case (Cons x ts)
  have "list_all (\<lambda>m. sel m \<and> dated ref hi m) (history @ [msg])" if "parseMessage env user opts ref line = Inr (Some (msg, t))" "ref < t" "t < hi" "sel msg" for line msg t
    using that Cons.prems(2) parse_dated by (auto simp: dated_def)
  with Cons show ?case
    by (cases x) (auto split: sum.splits option.splits if_splits)
qed simp

lemma dated_mono: "dated lo hi m \<Longrightarrow> lo' \<le> lo \<Longrightarrow> hi \<le> hi' \<Longrightarrow> dated lo' hi' m"
  unfolding dated_def by force

lemma day_loop_all:
  assumes "\<And>t. P t \<Longrightarrow> continue t \<Longrightarrow> P (step t)" "\<And>t n ms. P t \<Longrightarrow> 0 < n \<Longrightarrow> load t n = Inr ms \<Longrightarrow> length ms \<le> n \<and> list_all Q ms"
    and "\<And>xs ys. set (join xs ys) = set xs \<union> set ys \<and> length (join xs ys) = length xs + length ys"
    and "day_loop env load continue step join t remaining tries acc = Inr ms" "P t" "list_all Q acc"
  shows "list_all Q ms \<and> length ms \<le> remaining + length acc"
  using assms
proof (induction env load continue step join t remaining tries acc rule: day_loop.induct)
  case (1 env load continue step join t remaining tries acc)
  show ?case
  proof (cases "remaining > 0 \<and> tries < fsMessageStoreMaxTries \<and> continue t")
    case False
    then have "ms = acc" using "1.prems"(4) by (subst (asm) day_loop.simps) auto
    then show ?thesis using "1.prems"(6) by simp
  next
    case True
    obtain xs where xs: "load t remaining = Inr xs" using True "1.prems"(4) by (subst (asm) day_loop.simps) (auto split: sum.splits)
    have go: "\<not> fe_cancelled env (step t)" and rest: "day_loop env load continue step join (step t) (remaining - length xs) (if xs = [] then Suc tries else 0) (join xs acc) = Inr ms"
      using True "1.prems"(4) xs by (subst (asm) day_loop.simps, simp split: if_splits)+
    have q: "length xs \<le> remaining" "list_all Q xs" using "1.prems"(2) [OF "1.prems"(5) _ xs] True by auto
    have j: "length (join xs acc) = length xs + length acc" "list_all Q (join xs acc)"
      using "1.prems"(3) [of xs acc] "1.prems"(6) q(2) by (auto simp: list_all_iff)
    from "1.IH" [OF True xs go "1.prems"(1-3) rest "1.prems"(1) [OF "1.prems"(5) conjunct2 [OF conjunct2 [OF True]]] j(2)] show ?thesis using j(1) q(1) by simp
  qed
qed

lemma parseMessagesBefore_dated:
  assumes "parseMessagesBefore env sd ref lo opts (- 1) sel = Inr ms" "0 < fo_Limit opts"
  shows "length ms \<le> fo_Limit opts \<and> list_all (\<lambda>m. sel m \<and> dated lo ref m) ms"
proof -
  obtain st dk where sd: "sd = (st, dk)" by fastforce
  define p where "p = logPath (fe_zone env) (fo_Network opts) (fo_Entity opts) ref"
  show ?thesis
  proof (cases "dk_files dk p")
    case None
    then show ?thesis using assms(1) by (simp add: parseMessagesBefore_def sd p_def)
  next
    case (Some i)
    have "fe_open env p" using assms(1) Some by (auto simp: parseMessagesBefore_def sd p_def Let_def split: if_splits)
    from parseMessagesBefore_select [OF assms(2) Some [unfolded p_def] this [unfolded p_def], of "- 1" st lo sel] assms(1)
    obtain xs where "select_before (parseMessage env (fs_user st) opts ref) ref lo sel (log_tokens (- 1) (dk_data dk i)) = Inr xs" "ms = last_n (fo_Limit opts) xs"
      by (cases "select_before (parseMessage env (fs_user st) opts ref) ref lo sel (log_tokens (- 1) (dk_data dk i))") (auto simp: sd)
    then show ?thesis using select_before_dated by (force simp: last_n_def list_all_iff dest: in_set_dropD)
  qed
qed

lemma parseMessagesAfter_dated:
  assumes "parseMessagesAfter env sd ref hi opts sel = Inr ms"
  shows "length ms \<le> fo_Limit opts \<and> list_all (\<lambda>m. sel m \<and> dated ref hi m) ms"
  using assms after_loop_dated [of env "fs_user (fst sd)" opts ref hi sel "fo_Limit opts" _ "[]" ms]
  by (auto simp: parseMessagesAfter_def Let_def split: option.splits if_splits prod.splits)

lemma getBeforeTime_within:
  fixes start :: int and env :: fs_env
  defines "upper \<equiv> if start = zero_time then fe_now env else start"
  assumes "getBeforeTime env sd start lo opts sel = Inr ms"
  shows "length ms \<le> fo_Limit opts \<and> list_all (\<lambda>m. sel m \<and> (\<exists>hi. dated lo hi m)) ms"
    and "(\<And>t. lo < t \<Longrightarrow> t \<le> upper \<Longrightarrow> truncateDay (fe_zone env) t \<le> t) \<Longrightarrow> list_all (dated lo upper) ms"
proof -
  note loop = assms(2) [unfolded getBeforeTime_def upper_def [symmetric]]
  have "list_all (\<lambda>m. sel m \<and> (\<exists>hi. dated lo hi m)) ms \<and> length ms \<le> fo_Limit opts + length ([] :: irc_message list)"
  proof (rule day_loop_all [where P = "\<lambda>_. True", OF _ _ _ loop])
    show "length xs \<le> n \<and> list_all (\<lambda>m. sel m \<and> (\<exists>hi. dated lo hi m)) xs"
      if "0 < n" "parseMessagesBefore env sd t lo (opts\<lparr>fo_Limit := n\<rparr>) (- 1) sel = Inr xs" for t n xs
      using parseMessagesBefore_dated [OF that(2)] that(1) by (auto simp: list_all_iff)
  qed auto
  then show "length ms \<le> fo_Limit opts \<and> list_all (\<lambda>m. sel m \<and> (\<exists>hi. dated lo hi m)) ms" by simp
  show "list_all (dated lo upper) ms" if day: "\<And>t. lo < t \<Longrightarrow> t \<le> upper \<Longrightarrow> truncateDay (fe_zone env) t \<le> t"
  proof (rule conjunct1 [OF day_loop_all [where P = "\<lambda>t. t \<le> upper", OF _ _ _ loop]])
    show "day_before (fe_zone env) t \<le> upper" if "t \<le> upper" "lo < t" for t using day [OF that(2,1)] that(1) by (simp add: day_before_def)
    show "length xs \<le> n \<and> list_all (dated lo upper) xs"
      if "t \<le> upper" "0 < n" "parseMessagesBefore env sd t lo (opts\<lparr>fo_Limit := n\<rparr>) (- 1) sel = Inr xs" for t n xs
      using parseMessagesBefore_dated [OF that(3)] that(1,2) dated_mono [of lo t _ lo upper] by (simp add: list_all_iff)
  qed auto
qed

lemma getAfterTime_within:
  fixes hi :: int and env :: fs_env
  defines "upper \<equiv> if hi = zero_time then fe_now env else hi"
  assumes "getAfterTime env sd start hi opts sel = Inr ms"
  shows "length ms \<le> fo_Limit opts \<and> list_all (\<lambda>m. sel m \<and> (\<exists>lo. dated lo upper m)) ms"
    and "(\<And>t. start \<le> t \<Longrightarrow> t < upper \<Longrightarrow> t \<le> next_day (fe_zone env) t) \<Longrightarrow> list_all (dated start upper) ms"
proof -
  note loop = assms(2) [unfolded getAfterTime_def Let_def upper_def [symmetric]]
  have "list_all (\<lambda>m. sel m \<and> (\<exists>lo. dated lo upper m)) ms \<and> length ms \<le> fo_Limit opts + length ([] :: irc_message list)"
  proof (rule day_loop_all [where P = "\<lambda>_. True", OF _ _ _ loop])
    show "length xs \<le> n \<and> list_all (\<lambda>m. sel m \<and> (\<exists>lo. dated lo upper m)) xs"
      if "parseMessagesAfter env sd t upper (opts\<lparr>fo_Limit := n\<rparr>) sel = Inr xs" for t n xs
      using parseMessagesAfter_dated [OF that] by (auto simp: list_all_iff)
  qed auto
  then show "length ms \<le> fo_Limit opts \<and> list_all (\<lambda>m. sel m \<and> (\<exists>lo. dated lo upper m)) ms" by simp
  show "list_all (dated start upper) ms" if day: "\<And>t. start \<le> t \<Longrightarrow> t < upper \<Longrightarrow> t \<le> next_day (fe_zone env) t"
  proof (rule conjunct1 [OF day_loop_all [where P = "\<lambda>t. start \<le> t", OF _ _ _ loop]])
    show "start \<le> next_day (fe_zone env) t" if "start \<le> t" "t < upper" for t using day [OF that] that(1) by simp
    show "length xs \<le> n \<and> list_all (dated start upper) xs"
      if "start \<le> t" "0 < n" "parseMessagesAfter env sd t upper (opts\<lparr>fo_Limit := n\<rparr>) sel = Inr xs" for t n xs
      using parseMessagesAfter_dated [OF that(3)] that(1) dated_mono [of t upper _ start upper] by (simp add: list_all_iff)
  qed auto
qed

text \<open>C19. Loading respects its bounds, in every zone and however the logs look: what is loaded before or after a time has at most as many messages as asked
  for, each wanted by the selector, those before a time dated after the other bound and those after a time dated before the other bound.  Each message lies
  between both bounds if, between them, no time is before the start of its day and none after the start of the next day, as the zone has them; the clocks
  of some zones are set back over midnight.\<close>

theorem load_within_bounds:
  assumes "getBeforeTime env sd start lo opts sel = Inr before" and "getAfterTime env sd start hi opts sel = Inr after"
  shows "length before \<le> fo_Limit opts \<and> list_all (\<lambda>m. sel m \<and> (\<exists>u. dated lo u m)) before
    \<and> length after \<le> fo_Limit opts \<and> list_all (\<lambda>m. sel m \<and> (\<exists>l. dated l (if hi = zero_time then fe_now env else hi) m)) after
    \<and> ((\<forall>t. lo < t \<and> t \<le> (if start = zero_time then fe_now env else start) \<longrightarrow> truncateDay (fe_zone env) t \<le> t)
        \<longrightarrow> list_all (dated lo (if start = zero_time then fe_now env else start)) before)
    \<and> ((\<forall>t. start \<le> t \<and> t < (if hi = zero_time then fe_now env else hi) \<longrightarrow> t \<le> next_day (fe_zone env) t)
        \<longrightarrow> list_all (dated start (if hi = zero_time then fe_now env else hi)) after)"
  using getBeforeTime_within [OF assms(1)] getAfterTime_within [OF assms(2)] by blast

definition bob_said :: "fs_store \<times> disk" where
  "bob_said = append_all [at_time 1700000000 ''#soju'' ''hi'', at_time 1700000001 ''#soju'' ''there''] (NewFSStore (NewUser ''alice''), empty_disk)"

lemma load_bob:
  "getBeforeTime good_env bob_said (1700000010 * second_ns) zero_time (example_opts\<lparr>fo_Limit := 1\<rparr>) (\<lambda>_. True)
    = Inr [op_view example_opts (NewUser ''alice'') (at_time 1700000001 ''#soju'' ''there'')]"
proof -
  let ?ops = "[at_time 1700000000 ''#soju'' ''hi'', at_time 1700000001 ''#soju'' ''there'']" and ?t = "1700000010 * second_ns"
  have ok: "list_all (op_ok berlin) ?ops" by (simp add: at_time_ok berlin_winter HasPrefix_def ctcp_delim_def)
  have env: "env_ok berlin good_env" by (simp add: env_ok_def good_env_def)
  have "day_ops berlin (log_dir (NewNetwork ''irc.example.org'') ''#soju'') (day_of berlin ?t) ?ops = ?ops"
    by (simp add: day_ops_def at_time_simps day_of_def berlin_local second_ns_def)
  moreover have "days_of_date 0 1 1 \<le> day_of berlin ?t" by (simp add: days_of_date_def day_of_def berlin_local second_ns_def)
  ultimately have c: "content (snd bob_said) (logPath (berlin) (fo_Network example_opts) (fo_Entity example_opts) ?t) = log_of (map op_line ?ops)"
    and u: "fs_user (fst bob_said) = NewUser ''alice''"
    using append_all_content [OF empty_store_ok [of 0 "NewUser ''alice''"] ok]
    by (simp_all add: bob_said_def content_empty example_opts_def at_time_simps second_ns_def NewFSStore_def)
  have clean: "list_all clean_line (map op_line ?ops)" using ok by (auto simp: op_ok_def list_all_iff)
  have "parseMessagesBefore good_env bob_said ?t zero_time (example_opts\<lparr>fo_Limit := 1\<rparr>) (- 1) (\<lambda>_. True)
      = Inr (last_n 1 (map (op_view example_opts (fs_user (fst bob_said))) (filter (op_read example_opts) ?ops)))"
    by (rule load_day [OF env _ c clean])
      (use ok scan_tokens_log [OF clean] in \<open>simp_all add: example_opts_def log_tokens_def at_time_simps day_of_def berlin_local second_ns_def\<close>)
  moreover have "?t \<noteq> zero_time" "zero_time < ?t" by (simp_all add: second_ns_def zero_time_def days_of_date_def day_ns_def)
  moreover have "\<not> fe_cancelled good_env x" for x by (simp add: good_env_def)
  moreover have "op_read example_opts op" for op by (simp add: op_read_def example_opts_def split: prod.split)
  ultimately show ?thesis
    by (simp add: getBeforeTime_def day_loop.simps [of _ _ _ _ _ _ "Suc 0"] day_loop.simps [of _ _ _ _ _ _ 0] fsMessageStoreMaxTries_def last_n_def u)
qed

theorem load_within_bounds_witness:
  "dated zero_time (1700000010 * second_ns) (op_view example_opts (NewUser ''alice'') (at_time 1700000001 ''#soju'' ''there''))"
proof -
  have z: "1700000010 * second_ns \<noteq> zero_time" by (simp add: second_ns_def zero_time_def days_of_date_def day_ns_def)
  then have a: "getAfterTime good_env bob_said (1700000010 * second_ns) (1700000010 * second_ns) (example_opts\<lparr>fo_Limit := 1\<rparr>) (\<lambda>_. True) = Inr []"
    by (simp add: getAfterTime_def day_loop.simps)
  have "truncateDay (fe_zone good_env) t \<le> t" for t by (simp add: good_env_def truncateDay_midnight berlin_day)
  then show ?thesis using load_within_bounds [OF load_bob a] z by simp
qed

section \<open>Paths\<close>

text \<open>C23. The logs stay below the directory of the store, whatever the names of networks, channels and users: every component of the path of
  a log is a plain file name, without separators and none of the two dots of directories.\<close>

theorem log_path_confined: "list_all plain_name (logPath z network entity t)"
proof -
  have "plain_name (EscapeFilename s)" if "EscapeFilename s \<noteq> []" for s
    using that by (intro EscapeFilename_plain) (auto simp: EscapeFilename_def)
  then show ?thesis using log_name_plain by (simp add: logPath_def)
qed

section \<open>One log\<close>

text \<open>C22. The ring buffer of the reader is a list cut to its end: reading a log backwards gives the last messages, up to the limit, of those
  that a plain pass over the lines selects, and fails when that pass fails.\<close>

theorem reader_ring_equivalence:
  fixes env :: fs_env and opts :: fs_options and ref :: int
  defines "p \<equiv> logPath (fe_zone env) (fo_Network opts) (fo_Entity opts) ref"
  assumes "fo_Limit opts > 0" and "dk_files dk p = Some i" and "fe_open env p"
  shows "parseMessagesBefore env (st, dk) ref lo opts (- 1) sel
    = map_sum id (last_n (fo_Limit opts)) (select_before (parseMessage env (fs_user st) opts ref) ref lo sel (scan_tokens (dk_data dk i)))"
  using parseMessagesBefore_select [OF assms(2-4) [unfolded p_def], of "- 1"] by (simp add: log_tokens_def)

definition one_log :: disk where
  "one_log = \<lparr>dk_dirs = [''irc.example.org''], dk_files = (\<lambda>_. Some 0), dk_data = (\<lambda>_. log_of [''[10:00:00] <bob> hi'', ''[11:00:00] <bob> there'']), dk_next = 1\<rparr>"

theorem reader_ring_equivalence_witness:
  "parseMessagesBefore good_env (NewFSStore (NewUser ''alice''), one_log) 1700000000000000000 zero_time example_opts (- 1) (\<lambda>_. True)
    = map_sum id (last_n 10) (select_before (parseMessage good_env (NewUser ''alice'') example_opts 1700000000000000000) 1700000000000000000 zero_time (\<lambda>_. True)
        (scan_tokens (dk_data one_log 0)))"
  using reader_ring_equivalence [of example_opts one_log good_env 1700000000000000000 0 "NewFSStore (NewUser ''alice'')" zero_time "\<lambda>_. True"]
  by (simp add: example_opts_def one_log_def good_env_def NewFSStore_def)

section \<open>Renaming a network\<close>

text \<open>C38. A file stays open under the name of a network that has been renamed.  When another network takes that name, its messages go on
  into the log of the renamed network, and its own log is never created.\<close>

theorem rename_mixes_logs:
  fixes a b a' :: db_network and e :: string and t :: int and z :: zone
  defines "p \<equiv> logPath z a e t" and "q \<equiv> logPath z b e t"
  assumes "store_ok now (st, dk)" and "go_get (fs_files st) e = Some f" and "ff_name f = p"
    and "GetName a \<noteq> []" and "GetName b \<noteq> []" and "EscapeFilename (GetName a) \<noteq> EscapeFilename (GetName b)"
    and "fs_RenameNetwork env0 a b dk = (None, dk')"
    and "env_ok z env" and "now \<le> fe_now env" and "GetName a' = GetName a" and "message_time env msg = Some t"
    and "MarshalLine (fe_unicode env) (fe_zone env) msg t = Some line" and "line \<noteq> []"
  shows "\<exists>msgid st' dk''. fs_Append env a' e msg (st, dk') = (Inr msgid, st', dk'')
    \<and> content dk'' q = content dk p @ line @ [CHR 0x0A] \<and> dk_files dk'' p = None"
proof -
  have esc: "EscapeFilename (GetName a) \<noteq> []" "EscapeFilename (GetName b) \<noteq> []" using assms(6,7) by (auto simp: EscapeFilename_def)
  define r where "r = tl p"
  have pq: "p = EscapeFilename (GetName a) # r" "q = EscapeFilename (GetName b) # r" using esc by (simp_all add: p_def q_def r_def logPath_def)
  have path: "logPath z a' e t = p" by (simp add: p_def logPath_def assms(12))
  have dk': "dk' = rename_dir (EscapeFilename (GetName a)) (EscapeFilename (GetName b)) dk"
    using assms(9) by (simp add: fs_RenameNetwork_def Let_def split: if_splits)
  have i: "dk_files dk p = Some (ff_inode f)" using assms(3,5) go_get_mem [OF assms(4)] by (auto simp: store_ok_def list_all_iff)
  have files: "dk_files dk' q = Some (ff_inode f)" "dk_files dk' p = None" "dk_data dk' = dk_data dk"
    using i assms(8) by (simp_all add: dk' rename_dir_def pq)
  define f' where "f' = f\<lparr>ff_lastUse := fe_now env\<rparr>"
  have ok: "gomap_ok (fs_files st)" "length (fs_files st) \<le> fsMessageStoreMaxFiles" "list_all (\<lambda>(_, f). ff_lastUse f \<le> fe_now env) (fs_files st)"
    using assms(3,11) by (auto simp: store_ok_def list_all_iff)
  have keep: "go_get (close_old (go_put e f' (fs_files st))) e = Some f'" using close_old_keeps(1) [OF ok, of f' e] by (simp add: f'_def)
  have env: "fe_zone env = z" "fe_write env x = None" for x using assms(10) by (simp_all add: env_ok_def)
  have "open_log env e p st dk' = (None, st, dk')" using assms(4,5) by (simp add: open_log_def)
  then have "fs_Append env a' e msg (st, dk') = (Inr (formatFSMsgID env (net_ID a') e t (int (length (dk_data dk' (ff_inode f))))),
      st\<lparr>fs_files := close_old (go_put e f' (fs_files st))\<rparr>, dk'\<lparr>dk_data := (dk_data dk')(ff_inode f := dk_data dk' (ff_inode f) @ line @ [CHR 0x0A])\<rparr>)"
    using assms(4,13-15) keep env by (simp add: fs_Append_def path f'_def [symmetric] write_line_def Let_def) (simp add: f'_def)
  then show ?thesis using files i by (auto simp: content_def)
qed

definition renamed :: db_network where
  "renamed = (NewNetwork ''irc.example.org'')\<lparr>net_Name := ''old''\<rparr>"

definition soju_log :: path where
  "soju_log = logPath (berlin) (NewNetwork ''irc.example.org'') ''#soju'' (1700000000 * second_ns)"

definition open_store :: fs_store where
  "open_store = \<lparr>fs_user = NewUser ''alice'', fs_files = [(''#soju'', \<lparr>ff_name = soju_log, ff_inode = 0, ff_lastUse = 0\<rparr>)]\<rparr>"

definition open_disk :: disk where
  "open_disk = \<lparr>dk_dirs = [''irc.example.org''], dk_files = [soju_log \<mapsto> 0], dk_data = (\<lambda>_. []), dk_next = 1\<rparr>"

theorem rename_mixes_logs_witness:
  "\<exists>msgid st' dk''. fs_Append (good_env\<lparr>fe_now := 1700000000 * second_ns\<rparr>) (NewNetwork ''irc.example.org'') ''#soju'' (said ''hi'')
        (open_store, snd (fs_RenameNetwork good_env (NewNetwork ''irc.example.org'') renamed open_disk)) = (Inr msgid, st', dk'')
    \<and> content dk'' (logPath (berlin) renamed ''#soju'' (1700000000 * second_ns))
      = content open_disk soju_log @ op_line (at_time 1700000000 ''#soju'' ''hi'') @ [CHR 0x0A]
    \<and> dk_files dk'' soju_log = None"
  unfolding soju_log_def
proof (rule rename_mixes_logs [where now = 0 and f = "\<lparr>ff_name = soju_log, ff_inode = 0, ff_lastUse = 0\<rparr>"])
  have "op_ok berlin (at_time 1700000000 ''#soju'' ''hi'')" by (rule at_time_ok) (simp_all add: berlin_winter HasPrefix_def ctcp_delim_def)
  then obtain p where o: "env_ok berlin (good_env\<lparr>fe_now := 1700000000 * second_ns\<rparr>)"
    "MarshalLine no_tables (berlin) (said ''hi'') (1700000000 * second_ns) = Some (op_line (at_time 1700000000 ''#soju'' ''hi''))"
    "op_line (at_time 1700000000 ''#soju'' ''hi'') \<noteq> []"
    using at_time_simps(1) [of 1700000000 "''#soju''" "''hi''"] unfolding at_time_def
    by (elim op_okD) (simp add: good_env_def)
  show "env_ok berlin (good_env\<lparr>fe_now := 1700000000 * second_ns\<rparr>)" "op_line (at_time 1700000000 ''#soju'' ''hi'') \<noteq> []" by fact+
  show "MarshalLine (fe_unicode (good_env\<lparr>fe_now := 1700000000 * second_ns\<rparr>)) (fe_zone (good_env\<lparr>fe_now := 1700000000 * second_ns\<rparr>)) (said ''hi'') (1700000000 * second_ns)
      = Some (op_line (at_time 1700000000 ''#soju'' ''hi''))" using o(2) by (simp add: good_env_def)
  show "store_ok 0 (open_store, open_disk)"
    by (auto simp: store_ok_def disk_ok_def open_store_def open_disk_def gomap_ok_def fsMessageStoreMaxFiles_def split: if_splits)
  show "fs_RenameNetwork good_env (NewNetwork ''irc.example.org'') renamed open_disk
      = (None, snd (fs_RenameNetwork good_env (NewNetwork ''irc.example.org'') renamed open_disk))"
    by (simp add: fs_RenameNetwork_def Let_def renamed_def open_disk_def NewNetwork_def GetName_def EscapeFilename_def good_env_def)
qed (simp_all add: open_store_def soju_log_def renamed_def NewNetwork_def GetName_def EscapeFilename_def message_time_def said_def second_ns_def)

end
