(* ===== verification/Fs_Cleanup.thy ===== *)
theory Fs_Cleanup
  imports Fs_Properties "HOL-Library.List_Lexorder" "HOL-Library.Char_ord"
begin

text \<open>
  The retention of logs, \<open>DeleteMessagesBefore\<close> of \<^verbatim>\<open>src/msgstore/fs.go\<close>: a walk over the directory of logs that deletes the
  expired ones, and a second one that deletes the directories that are left empty.
\<close>

section \<open>The directory tree\<close>

text \<open>A directory has its entries in the order of their names.  The answers of the operating system are a parameter: whether a file or
  directory can be removed, whether a directory can be read, and after how many entries reading it in parts fails.\<close>

datatype node = LogFile | Folder "(string \<times> node) list"

record dir_env =
  de_remove :: "path \<Rightarrow> bool"
  de_read :: "path \<Rightarrow> bool"
  de_fails :: "path \<Rightarrow> nat option"

datatype dir_error = RemoveFailed path | ReadFailed path

definition cutoff_date :: "int \<times> int \<times> int \<Rightarrow> string" where
  "cutoff_date date = (case date of (y, m, d) \<Rightarrow> appendInt y 4 @ ''-'' @ appendInt m 2 @ ''-'' @ appendInt d 2)"

text \<open>Whether the walk deletes a file: a log whose name starts with a date before the cutoff.\<close>

definition log_expired :: "string \<Rightarrow> string \<Rightarrow> bool" where
  "log_expired cutoff name \<longleftrightarrow> HasPrefix (rev name) (rev ''.log'') \<and> \<not> length name < 10 \<and> \<not> cutoff \<le> take 10 name"

text \<open>The walk stops at the first error.\<close>

fun walk_entries :: "dir_env \<Rightarrow> string \<Rightarrow> path \<Rightarrow> (string \<times> node) list \<Rightarrow> dir_error option \<times> (string \<times> node) list"
  and walk_node :: "dir_env \<Rightarrow> string \<Rightarrow> path \<Rightarrow> string \<Rightarrow> node \<Rightarrow> dir_error option \<times> (string \<times> node) list" where
  "walk_entries env cutoff p [] = (None, [])"
| "walk_entries env cutoff p ((name, n) # es) =
     (case walk_node env cutoff (p @ [name]) name n of
        (Some e, ns) \<Rightarrow> (Some e, ns @ es)
      | (None, ns) \<Rightarrow> (case walk_entries env cutoff p es of (e, es) \<Rightarrow> (e, ns @ es)))"
| "walk_node env cutoff p name LogFile =
     (if \<not> log_expired cutoff name then (None, [(name, LogFile)])
      else if de_remove env p then (None, []) else (Some (RemoveFailed p), [(name, LogFile)]))"
| "walk_node env cutoff p name (Folder es) =
     (if \<not> de_read env p then (Some (ReadFailed p), [(name, Folder es)])
      else (case walk_entries env cutoff p es of (e, es) \<Rightarrow> (e, [(name, Folder es)])))"

text \<open>The second pass: whether a directory is empty now, the errors, and what is left of its entries.  An error does not stop it,
  except that the entries after one that cannot be read are left.\<close>

fun cleanup_entries :: "dir_env \<Rightarrow> path \<Rightarrow> nat option \<Rightarrow> (string \<times> node) list \<Rightarrow> bool \<times> dir_error list \<times> (string \<times> node) list"
  and cleanup_node :: "dir_env \<Rightarrow> path \<Rightarrow> string \<Rightarrow> node \<Rightarrow> bool \<times> dir_error list \<times> (string \<times> node) list" where
  "cleanup_entries env p k [] = (if k = Some 0 then (False, [ReadFailed p], []) else (True, [], []))"
| "cleanup_entries env p k ((name, n) # es) =
     (if k = Some 0 then (False, [ReadFailed p], (name, n) # es)
      else (case cleanup_node env (p @ [name]) name n of
          (gone, errs, ns) \<Rightarrow>
            (case cleanup_entries env p (map_option (\<lambda>k. k - 1) k) es of (bare, errs', es) \<Rightarrow> (gone \<and> bare, errs @ errs', ns @ es))))"
| "cleanup_node env p name LogFile = (False, [], [(name, LogFile)])"
| "cleanup_node env p name (Folder es) =
     (if \<not> de_read env p then (False, [ReadFailed p], [(name, Folder es)])
      else (case cleanup_entries env p (de_fails env p) es of
          (bare, errs, es) \<Rightarrow>
            if \<not> bare then (False, errs, [(name, Folder es)])
            else if de_remove env p then (True, errs, []) else (False, errs @ [RemoveFailed p], [(name, Folder es)])))"

text \<open>The root directory is kept.  The result is the error of the walk or the errors of the second pass.\<close>

definition DeleteMessagesBefore :: "dir_env \<Rightarrow> string \<Rightarrow> (string \<times> node) list \<Rightarrow> dir_error list \<times> (string \<times> node) list" where
  "DeleteMessagesBefore env cutoff es =
     (if \<not> de_read env [] then ([ReadFailed []], es)
      else (case walk_entries env cutoff [] es of
          (Some e, es) \<Rightarrow> ([e], es)
        | (None, es) \<Rightarrow> (case cleanup_entries env [] (de_fails env []) es of (_, errs, es) \<Rightarrow> (errs, es))))"

section \<open>What is kept\<close>

fun files_in :: "path \<Rightarrow> (string \<times> node) list \<Rightarrow> path list" and node_files :: "path \<Rightarrow> node \<Rightarrow> path list" where
  "files_in p [] = []"
| "files_in p ((name, n) # es) = node_files (p @ [name]) n @ files_in p es"
| "node_files p LogFile = [p]"
| "node_files p (Folder es) = files_in p es"

fun tidy :: "(string \<times> node) list \<Rightarrow> bool" and tidy_node :: "node \<Rightarrow> bool" where
  "tidy [] = True"
| "tidy ((_, n) # es) = (tidy_node n \<and> tidy es)"
| "tidy_node LogFile = True"
| "tidy_node (Folder es) = (es \<noteq> [] \<and> tidy es)"

abbreviation kept_logs :: "string \<Rightarrow> path list \<Rightarrow> path list" where
  "kept_logs cutoff ps \<equiv> filter (\<lambda>p. \<not> log_expired cutoff (last p)) ps"

lemma files_append [simp]: "files_in p (es @ es') = files_in p es @ files_in p es'"
  by (induction es) auto

lemma tidy_append [simp]: "tidy (es @ es') \<longleftrightarrow> tidy es \<and> tidy es'"
  by (induction es) auto

lemma walk_files:
  "walk_entries env cutoff p es = (e, es') \<Longrightarrow>
     kept_logs cutoff (files_in p es') = kept_logs cutoff (files_in p es) \<and> set (files_in p es') \<subseteq> set (files_in p es)
     \<and> (e = None \<longrightarrow> files_in p es' = kept_logs cutoff (files_in p es))"
  "last p' = name \<Longrightarrow> p' = q @ [name] \<Longrightarrow> walk_node env cutoff p' name n = (e, es') \<Longrightarrow>
     kept_logs cutoff (files_in q es') = kept_logs cutoff (node_files p' n) \<and> set (files_in q es') \<subseteq> set (node_files p' n)
     \<and> (e = None \<longrightarrow> files_in q es' = kept_logs cutoff (node_files p' n))"
proof (induction env cutoff p es and env cutoff p' name n arbitrary: e es' and e es' q rule: walk_entries_walk_node.induct)
  case (2 env cutoff p name n es)
  obtain e1 ns where 1: "walk_node env cutoff (p @ [name]) name n = (e1, ns)" by fastforce
  obtain e2 es2 where 2: "walk_entries env cutoff p es = (e2, es2)" by fastforce
  note IH1 = "2.IH"(1) [OF _ _ 1, of p] and IH2 = "2.IH"(2) [OF 1 [symmetric] _ 2]
  show ?case
  proof (cases e1)
    case None
    then show ?thesis using "2.prems" IH1 IH2 1 2 by auto
  next
    case (Some x)
    then show ?thesis using "2.prems" IH1 1 by auto
  qed
qed (auto split: if_splits prod.splits)

lemma cleanup_files:
  "cleanup_entries env p k es = (bare, errs, es') \<Longrightarrow>
     files_in p es' = files_in p es \<and> (bare \<longrightarrow> es' = []) \<and> (errs = [] \<longrightarrow> tidy es' \<and> (es' = [] \<longrightarrow> bare))"
  "p' = q @ [name] \<Longrightarrow> cleanup_node env p' name n = (bare, errs, es') \<Longrightarrow>
     files_in q es' = node_files p' n \<and> (bare \<longrightarrow> es' = []) \<and> (errs = [] \<longrightarrow> tidy es' \<and> (es' = [] \<longrightarrow> bare))"
proof (induction env p k es and env p' name n arbitrary: bare errs es' and bare errs es' q rule: cleanup_entries_cleanup_node.induct)
  case (2 env p k name n es)
  obtain g errs1 ns where 1: "cleanup_node env (p @ [name]) name n = (g, errs1, ns)" by (metis prod_cases3)
  obtain g2 errs2 es2 where 2: "cleanup_entries env p (map_option (\<lambda>k. k - 1) k) es = (g2, errs2, es2)" by (metis prod_cases3)
  show ?case
  proof (cases "k = Some 0")
    case True
    then show ?thesis using "2.prems" by auto
  next
    case False
    note IH = "2.IH"(1) [OF False _ 1, of p] "2.IH"(2) [OF False 1 [symmetric] refl 2]
    show ?thesis using "2.prems" IH 1 2 False by auto
  qed
qed (auto split: if_splits prod.splits)

text \<open>C20. Retention deletes expired logs and nothing else: whatever fails on the way, every other file stays where it is; when nothing
  fails, exactly the expired logs are gone and no empty directory is left below the root.\<close>

theorem retention_exact:
  assumes "DeleteMessagesBefore env cutoff es = (errs, es')"
  shows "kept_logs cutoff (files_in [] es') = kept_logs cutoff (files_in [] es) \<and> set (files_in [] es') \<subseteq> set (files_in [] es)
    \<and> (errs = [] \<longrightarrow> files_in [] es' = kept_logs cutoff (files_in [] es) \<and> tidy es')"
proof -
  obtain e es1 where 1: "walk_entries env cutoff [] es = (e, es1)" by fastforce
  obtain g errs2 es2 where 2: "cleanup_entries env [] (de_fails env []) es1 = (g, errs2, es2)" by (metis prod_cases3)
  note w = walk_files(1) [OF 1] and c = cleanup_files(1) [OF 2]
  consider (unread) "\<not> de_read env []" | (stop) x where "de_read env []" "e = Some x" | (ok) "de_read env []" "e = None" by (cases e) auto
  then show ?thesis
  proof cases
    case unread
    then show ?thesis using assms by (auto simp: DeleteMessagesBefore_def)
  next
    case stop
    then show ?thesis using assms w by (auto simp: DeleteMessagesBefore_def 1)
  next
    case ok
    then have "errs = errs2" "es' = es2" using assms by (simp_all add: DeleteMessagesBefore_def 1 2)
    then show ?thesis using w c ok by (simp del: filter_filter)
  qed
qed

definition log_tree :: "(string \<times> node) list" where
  "log_tree = [(''alice'', Folder [(''net'', Folder [(''#a'', Folder [(''2023-01-31.log'', LogFile), (''2023-02-01.log'', LogFile)]),
     (''#b'', Folder [(''2022-12-31.log'', LogFile), (''note'', Folder [])])])])]"

definition willing :: dir_env where
  "willing = \<lparr>de_remove = \<lambda>_. True, de_read = \<lambda>_. True, de_fails = \<lambda>_. None\<rparr>"

theorem retention_exact_witness:
  "files_in [] (snd (DeleteMessagesBefore willing ''2023-02-01'' log_tree)) = [[''alice'', ''net'', ''#a'', ''2023-02-01.log'']]"
proof -
  have "fst (DeleteMessagesBefore willing ''2023-02-01'' log_tree) = []" by code_simp
  then have "DeleteMessagesBefore willing ''2023-02-01'' log_tree = ([], snd (DeleteMessagesBefore willing ''2023-02-01'' log_tree))" by (metis prod.collapse)
  from retention_exact [OF this] have "files_in [] (snd (DeleteMessagesBefore willing ''2023-02-01'' log_tree)) = kept_logs ''2023-02-01'' (files_in [] log_tree)" by blast
  moreover have "kept_logs ''2023-02-01'' (files_in [] log_tree) = [[''alice'', ''net'', ''#a'', ''2023-02-01.log'']]" by code_simp
  ultimately show ?thesis by simp
qed

section \<open>Dates of logs\<close>

lemma list_less_same_length:
  fixes xs ys us vs :: "'a :: linorder list"
  assumes "length xs = length ys"
  shows "xs @ us < ys @ vs \<longleftrightarrow> xs < ys \<or> (xs = ys \<and> us < vs)"
  using assms by (induction xs ys rule: list_induct2) auto

lemma digit_char_less: "a < 10 \<Longrightarrow> b < 10 \<Longrightarrow> digit_char a < digit_char b \<longleftrightarrow> a < b"
  by (simp add: digit_char_def less_char_def)

lemma div_mod_less:
  fixes m n :: nat
  shows "m div 10 < n div 10 \<or> (m div 10 = n div 10 \<and> m mod 10 < n mod 10) \<longleftrightarrow> m < n"
proof -
  have "m = m div 10 * 10 + m mod 10" "n = n div 10 * 10 + n mod 10" "m mod 10 < 10" "n mod 10 < 10" by simp_all
  then show ?thesis by linarith
qed

lemma pad_nat_less:
  assumes "m < 10 ^ w" "n < 10 ^ w"
  shows "pad_nat w m < pad_nat w n \<longleftrightarrow> m < n"
  using assms
proof (induction w arbitrary: m n)
  case (Suc w)
  have b: "m div 10 < 10 ^ w" "n div 10 < 10 ^ w" using Suc.prems by (auto simp: less_mult_imp_div_less)
  have "pad_nat w (m div 10) = pad_nat w (n div 10) \<longleftrightarrow> m div 10 = n div 10" by (metis pad_nat_value)
  then have "pad_nat (Suc w) m < pad_nat (Suc w) n \<longleftrightarrow> m div 10 < n div 10 \<or> (m div 10 = n div 10 \<and> m mod 10 < n mod 10)"
    using Suc.IH [OF b] pad_nat_length [OF b(1)] pad_nat_length [OF b(2)] by (simp add: list_less_same_length digit_char_less)
  also have "\<dots> \<longleftrightarrow> m < n" by (rule div_mod_less)
  finally show ?case .
qed simp

definition date_ok :: "int \<times> int \<times> int \<Rightarrow> bool" where
  "date_ok date \<longleftrightarrow> (case date of (y, m, d) \<Rightarrow> 0 \<le> y \<and> y < 10000 \<and> 1 \<le> m \<and> m \<le> 12 \<and> 1 \<le> d \<and> d < 100)"

lemma cutoff_date_less:
  assumes "date_ok (y, m, d)" "date_ok (y', m', d')"
  shows "cutoff_date (y, m, d) < cutoff_date (y', m', d') \<longleftrightarrow> y < y' \<or> (y = y' \<and> (m < m' \<or> (m = m' \<and> d < d')))"
proof -
  have l: "length (appendInt y 4) = length (appendInt y' 4)" "length (appendInt m 2) = length (appendInt m' 2)"
    using assms by (simp_all add: date_ok_def appendInt_pos pad_nat_length nat_less_iff)
  have c: "appendInt a w < appendInt b w \<longleftrightarrow> a < b" "appendInt a w = appendInt b w \<longleftrightarrow> a = b"
    if "0 \<le> a" "0 \<le> b" "nat a < 10 ^ w" "nat b < 10 ^ w" for a b w
  proof -
    show "appendInt a w < appendInt b w \<longleftrightarrow> a < b" using that pad_nat_less [OF that(3,4)] by (auto simp: appendInt_pos)
    show "appendInt a w = appendInt b w \<longleftrightarrow> a = b" using that pad_nat_value by (metis appendInt_pos eq_nat_nat_iff)
  qed
  show ?thesis
    using assms l c(1) [of y y' 4] c(2) [of y y' 4] c(1) [of m m' 2] c(2) [of m m' 2] c(1) [of d d' 2]
    by (simp add: cutoff_date_def date_ok_def list_less_same_length nat_less_iff)
qed

text \<open>Later days have later dates.  \<open>year_start\<close> is the day number of the first of March.\<close>

definition year_start :: "int \<Rightarrow> int" where
  "year_start y = 365 * y + y div 4 - y div 100 + y div 400"

lemma succ_div:
  fixes y k :: int
  assumes "1 < k"
  shows "(y + 1) div k = y div k + (if (y + 1) mod k = 0 then 1 else 0)"
proof -
  have r: "0 \<le> y mod k" "y mod k < k" using assms by simp_all
  have e: "(y + 1) div k = y div k + (y mod k + 1) div k" "(y + 1) mod k = (y mod k + 1) mod k"
    using assms div_add1_eq [of y 1 k] by (simp_all add: mod_add_left_eq)
  show ?thesis
  proof (cases "y mod k + 1 = k")
    case True
    then show ?thesis using e assms by simp
  next
    case False
    then have "(y mod k + 1) div k = 0" "(y mod k + 1) mod k = y mod k + 1" using r by (simp_all add: div_pos_pos_trivial mod_pos_pos_trivial)
    then show ?thesis using e r by simp
  qed
qed

lemma year_start_next: "year_start (y + 1) = year_start y + (if is_leap (y + 1) then 366 else 365)"
proof -
  have "(y + 1) mod 100 mod 4 = (y + 1) mod 4" "(y + 1) mod 400 mod 100 = (y + 1) mod 100" by (rule mod_mod_cancel; simp)+
  then have "(y + 1) mod 100 = 0 \<Longrightarrow> (y + 1) mod 4 = 0" "(y + 1) mod 400 = 0 \<Longrightarrow> (y + 1) mod 100 = 0" by (metis mod_0)+
  note sub = this
  have d: "(y + 1) div 4 = y div 4 + (if (y + 1) mod 4 = 0 then 1 else 0)"
    "(y + 1) div 100 = y div 100 + (if (y + 1) mod 100 = 0 then 1 else 0)"
    "(y + 1) div 400 = y div 400 + (if (y + 1) mod 400 = 0 then 1 else 0)"
    by (rule succ_div; simp)+
  show ?thesis
    unfolding year_start_def d is_leap_def using sub
    by (cases "(y + 1) mod 4 = 0"; cases "(y + 1) mod 100 = 0"; cases "(y + 1) mod 400 = 0") (simp_all only: if_True if_False simp_thms, simp_all)
qed

lemma year_start_mono: "y < y' \<Longrightarrow> year_start y + (if is_leap (y + 1) then 366 else 365) \<le> year_start y'"
proof (induction "nat (y' - y)" arbitrary: y')
  case (Suc k)
  show ?case
  proof (cases "y' = y + 1")
    case True
    then show ?thesis by (simp add: year_start_next)
  next
    case False
    then have "k = nat ((y' - 1) - y)" "y < y' - 1" using Suc by auto
    from Suc.hyps(1) [OF this] show ?thesis using year_start_next [of "y' - 1"] by (simp split: if_splits)
  qed
qed simp

lemma date_of_days_mono:
  assumes "date_of_days a = (y, m, d)" "date_of_days b = (y', m', d')" "a < b"
  shows "y < y' \<or> (y = y' \<and> (m < m' \<or> (m = m' \<and> d < d')))"
proof -
  obtain Y doy Y' doy' where yd: "year_day a = (Y, doy)" "year_day b = (Y', doy')" by fastforce
  note s = year_day_spec [OF yd(1)] and s' = year_day_spec [OF yd(2)]
  have n: "a + 719468 = year_start Y + doy" "b + 719468 = year_start Y' + doy'" using s(4) s'(4) by (simp_all add: year_start_def)
  have "doy < (if is_leap (Y + 1) then 366 else 365)" using s(2,3) by (cases "doy = 365") auto
  moreover have "doy' < (if is_leap (Y' + 1) then 366 else 365)" using s'(2,3) by (cases "doy' = 365") auto
  ultimately have "doy < (if is_leap (Y + 1) then 366 else 365)" "doy' < (if is_leap (Y' + 1) then 366 else 365)" .
  then have lex: "Y < Y' \<or> (Y = Y' \<and> doy < doy')"
    using n assms(3) year_start_mono [of Y' Y] s(1) s'(1) by (cases "Y < Y'"; cases "Y = Y'") auto
  define mp mp' where "mp = (5 * doy + 2) div 153" and "mp' = (5 * doy' + 2) div 153"
  have mp: "0 \<le> mp" "mp \<le> 11" "0 \<le> mp'" "mp' \<le> 11" using s(1,2) s'(1,2) by (auto simp: mp_def mp'_def)
  have dm: "d = doy - (153 * mp + 2) div 5 + 1" "m = (if mp < 10 then mp + 3 else mp - 9)" "y = (if m \<le> 2 then Y + 1 else Y)"
    using assms(1) unfolding date_of_days_def yd(1) Let_def prod.case mp_def [symmetric] prod.inject by blast+
  have dm': "d' = doy' - (153 * mp' + 2) div 5 + 1" "m' = (if mp' < 10 then mp' + 3 else mp' - 9)" "y' = (if m' \<le> 2 then Y' + 1 else Y')"
    using assms(2) unfolding date_of_days_def yd(2) Let_def prod.case mp'_def [symmetric] prod.inject by blast+
  have "mp \<le> mp'" if "doy < doy'" using that unfolding mp_def mp'_def by (intro zdiv_mono1) simp_all
  with lex have "Y < Y' \<or> (Y = Y' \<and> (mp < mp' \<or> (mp = mp' \<and> d < d')))" using dm(1) dm'(1) by fastforce
  then show ?thesis using mp dm(2,3) dm'(2,3) by (auto split: if_splits)
qed

lemma day_less_iff_date:
  assumes "date_of_days a = (y, m, d)" "date_of_days b = (y', m', d')"
  shows "a < b \<longleftrightarrow> y < y' \<or> (y = y' \<and> (m < m' \<or> (m = m' \<and> d < d')))"
  using date_of_days_mono [OF assms] date_of_days_mono [OF assms(2,1)] date_of_days_inject [of a b] assms by (cases a b rule: linorder_cases) auto

text \<open>C21. A log is expired exactly when its day is before the day of the cutoff, for all days of the years 0 to 9999: comparing the names of
  files as strings compares the dates.\<close>

theorem expired_by_day:
  assumes "days_of_date 0 1 1 \<le> a" and "a < days_of_date 10000 1 1" and "days_of_date 0 1 1 \<le> c" and "c < days_of_date 10000 1 1"
  shows "log_expired (cutoff_date (date_of_days c)) (log_name (date_of_days a)) \<longleftrightarrow> a < c"
proof -
  obtain y m d y' m' d' where ac: "date_of_days a = (y, m, d)" "date_of_days c = (y', m', d')" by (metis prod_cases3)
  note s = date_of_days_spec [OF ac(1)] and s' = date_of_days_spec [OF ac(2)]
  have "d < 100" "d' < 100" using s(4) s'(4) days_in_bound [of m y] days_in_bound [of m' y'] by simp_all
  then have ok: "date_ok (y, m, d)" "date_ok (y', m', d')"
    using s s' date_year_bound [OF ac(1)] date_year_bound [OF ac(2)] assms by (simp_all add: date_ok_def)
  have name: "log_name (y, m, d) = cutoff_date (y, m, d) @ ''.log''"
    using ok(1) by (simp add: log_name_def cutoff_date_def sprintf_pad_def appendInt_pos date_ok_def)
  have "length (cutoff_date (y, m, d)) = 10" using ok(1) by (simp add: cutoff_date_def date_ok_def appendInt_pos pad_nat_length nat_less_iff)
  then have "log_expired (cutoff_date (y', m', d')) (log_name (y, m, d)) \<longleftrightarrow> cutoff_date (y, m, d) < cutoff_date (y', m', d')"
    by (simp add: log_expired_def name HasPrefix_def not_le)
  also have "\<dots> \<longleftrightarrow> a < c" using cutoff_date_less [OF ok] day_less_iff_date [OF ac] by simp
  finally show ?thesis by (simp add: ac)
qed

theorem expired_by_day_witness:
  "log_expired (cutoff_date (date_of_days 19700)) (log_name (date_of_days 19699)) \<and> \<not> log_expired (cutoff_date (date_of_days 19700)) (log_name (date_of_days 19700))"
  using expired_by_day [of 19699 19700] expired_by_day [of 19700 19700] by (simp add: days_of_date_def)

end
