(* ===== verification/Spec2Isabelle.thy ===== *)
theory Spec2Isabelle
  imports Genmsg Backoff Modes Memory_Store Highlight Service_Words Service_Commands Upstream_Properties Network_Properties Downstream_Auth User_Properties
    Fs_Cleanup
begin

text \<open>
  A verification library for soju, an IRC bouncer written in Go (the files under \<^verbatim>\<open>src\<close>).

  \<^bold>\<open>The program.\<close>  A user of the bouncer has several networks.  For each of them the bouncer keeps one
  connection to the IRC server (the upstream connection, \<^verbatim>\<open>src/upstream.go\<close>); the user's own IRC clients connect
  to the bouncer (downstream connections, \<^verbatim>\<open>src/downstream.go\<close>).  One goroutine per user (\<^verbatim>\<open>src/user.go\<close>)
  takes events from a queue, one at a time: a message of a server or of a client, a connection that came or went, a
  change of the user.  Handling an event changes the records of the user, its networks and connections, sends messages to
  clients and servers, writes to the message store (\<^verbatim>\<open>src/msgstore\<close>) and to the database, and commands of the
  bouncer service (\<^verbatim>\<open>src/service.go\<close>) change the networks.  All state below belongs to that goroutine, so an
  execution is the sequence of its events.

  \<^bold>\<open>Language and library.\<close>  \<open>Prelude\<close> has IRC messages, Go maps as association lists without repeated keys, the
  functions of \<^verbatim>\<open>strings\<close> and \<^verbatim>\<open>strconv\<close> the program calls, and runs of steps with a locale for invariants of runs.
  \<open>Go_Unicode\<close> has UTF-8 and the Unicode predicates (their tables are a parameter), \<open>Go_Time\<close> the civil calendar and
  the layouts of \<^verbatim>\<open>time\<close>, \<open>Go_Url\<close> has \<^verbatim>\<open>url.Parse\<close> and \<^verbatim>\<open>net.SplitHostPort\<close>, \<open>Base64\<close> the two encodings in use,
  \<open>Go_Flags\<close> quoted strings, hexadecimal strings and \<^verbatim>\<open>FlagSet.Parse\<close>.

  \<^bold>\<open>Protocol helpers.\<close>
  \<^item> \<open>Casemapping\<close> (\<^verbatim>\<open>src/xirc/casemapping.go\<close>): the case mappings and the map keyed by names up to case; a locale
    gives the laws of a map, interpreted on it, also across a change of the case mapping.
  \<^item> \<open>Xirc\<close>, \<open>Genmsg\<close> (\<^verbatim>\<open>src/xirc\<close>): CTCP, membership sets, WHOX, capabilities, and the generators that split long
    lists: what they carry, that parsing what was generated gives the fields back, and bounds on the sizes.
  \<^item> \<open>Modes\<close>, \<open>Highlight\<close> (\<^verbatim>\<open>src/irc.go\<close>): mode changes, memberships ordered by rank, highlights.
  \<^item> \<open>Backoff\<close> (\<^verbatim>\<open>src/rate.go\<close>): the delays between attempts to connect, on 64-bit durations.
  \<^item> \<open>Msgid\<close>, \<open>Memory_Store\<close> (\<^verbatim>\<open>src/msgstore\<close>): internal message identifiers, and the ring buffer of the memory store
    as a refinement of a list of the last messages.
  \<^item> \<open>Znc_Log\<close> (\<^verbatim>\<open>src/msgstore/znclog\<close>): the lines of the logs and local times; reading a line that was written gives
    the message back.  \<open>Fs_Store\<close> (\<^verbatim>\<open>src/msgstore/fs.go\<close>): the message store on disk, over a model of files that are open apart
    from the paths that lead to them.  \<open>Fs_Properties\<close>: what was appended is loaded by its identifier, with or without events, over several days,
    in zones with summer time and for any interleaving of entities (\<open>regular_days\<close> says which days of a zone are meant); what is loaded is
    within the bounds and selected; paths stay below the directory of the
    store; what a renaming does to files that are open.  \<open>Fs_Cleanup\<close>: the deletion of old logs, which files it keeps and
    that comparing names compares days.

  \<^bold>\<open>The upstream connection.\<close>  \<open>Bouncer_State\<close> has the records of the database and of the connections.
  \<open>Upstream_Queue\<close> has the queues of commands whose replies carry no mark, and labels; \<open>Upstream_Caps\<close> registration and
  capabilities; \<open>Upstream_State\<close> the helpers; \<open>Upstream_Channels\<close>, \<open>Upstream_Messages\<close> and \<open>Upstream_Dispatch\<close> the
  branches of \<^verbatim>\<open>handleMessage\<close>, in the order of the code, as functions from the state to an error, the list of actions in the
  order of the calls, and the new state.  \<open>Upstream_Channels\<close> refines the tracking of members to abstract events;
  \<open>Upstream_Steps\<close> has the contract of these branches: the locale \<open>up_steps\<close> lists the few steps by which they change the state, and
  a predicate that survives each step survives every message.  It is interpreted three times: \<open>Upstream_Invariant\<close> shows that every message,
  errors included, keeps all maps of the network and the connection well formed, and in the case mapping of the
  network once this was announced, and the queues in order; \<open>Upstream_Frame\<close> what messages never touch; \<open>Upstream_Properties\<close> that
  other messages do not disturb registration, with which it shows that registration ends when all nicks are refused.  It also shows that replies
  reach the client that asked, and what is hidden of a blocked sender.

  \<^bold>\<open>Networks and clients.\<close>  \<open>Networks\<close> and \<open>Network_Properties\<close> (\<^verbatim>\<open>src/user.go\<close>): creating, updating and deleting
  networks, the checks on records and the limit.  A network object has a reference, since an update puts a new object in the
  place of the old one and the clients have to follow.  \<open>Downstream_Send\<close>, \<open>Downstream_Caps\<close>, \<open>Downstream_Register\<close> and
  \<open>Downstream_Channels\<close>: the sending side of a client with labelled replies and batches, capabilities and ISUPPORT,
  registration with SASL and passwords, topics, names and backlogs.  \<open>Downstream_Auth\<close>: a client that registers has shown
  credentials of the user it acts for, and the right password registers.

  \<^bold>\<open>The user.\<close>  \<open>User_World\<close> has the state of a user with all connections and runs the actions of the components on it.
  \<open>Client_Commands\<close>, \<open>Client_Messages\<close>, \<open>Client_History\<close> and \<open>Client_Dispatch\<close> have every command of a registered
  client, \<open>User_Loop\<close> the start of a user and every event of the loop.  \<open>User_Stop\<close> has \<open>stop\<close>, with which another goroutine ends the loop, as
  a step relation of the two goroutines with the queue of events between them and as a function that gives its outcome.  \<open>Client_Frame\<close> and \<open>World_Frame\<close> have the contracts of
  steps: a locale \<open>world_steps\<close> of a relation between states and a predicate on actions that sequences of steps keep, with its
  interpretations; \<open>User_Invariant\<close>, \<open>Command_Invariant\<close> and \<open>Loop_Invariant\<close> show that every operation, command and event
  keeps the invariant of the user, and \<open>User_Properties\<close> states it for all runs of the loop.

  \<^bold>\<open>The bouncer service.\<close>  \<open>Service_Words\<close> and \<open>Service_Commands\<close> (\<^verbatim>\<open>src/service.go\<close>): splitting of a command line,
  the command table, lookup by prefix, the guards of the dispatcher and the help.  \<open>Service_Handlers\<close> and \<open>Service_Users\<close> have the
  handler of every command: networks, channels, credentials and certificates of a user, and users and the server, with
  \<open>createUser\<close> and \<open>getUser\<close> of \<^verbatim>\<open>src/server.go\<close>.  Other users have goroutines of their own: what a handler asks of them is an
  action, and their answer is part of the environment.  \<open>Service_Invariant\<close> has the contract of handlers and shows that every
  handler keeps it; with it \<open>User_Properties\<close> shows that no message of a client of a user without privileges changes the rights
  of the user or reaches beyond the account, and that deleting the own account, whose handler calls \<open>stop\<close> from inside the loop, never ends.

  \<^bold>\<open>Effects and errors.\<close>  Functions are total: an error of Go is a value of an error type or \<open>None\<close>, a panic is a value of
  its own (\<open>PanicError\<close>, \<open>Panicked\<close>, \<open>None\<close> where the comment says so), so is waiting for ever (\<open>HangError\<close>, \<open>Hung\<close>), and a theorem about a result shows that there is one.
  What leaves the goroutine (messages on connections, timers, the database, the message store) is a list of actions in the order
  of the calls.  What comes from outside is an environment per event: the time, the answers of the database and of the message
  store, SASL and cryptographic libraries, the IRC parser, durations, the BARE codec,
  the time zone, and whether a call on files or directories fails.  What a theorem relies on is a hypothesis, such as fresh identifiers for
  stored networks.  Integers have 64 bits where they can wrap (identifiers, cursors, durations) and are unbounded where
  the program only counts what is in memory.

  \<^bold>\<open>Bounds and fuel.\<close>  Loops over lists are structural or have a measure; \<open>runUntilRegistered\<close> is a recursion over the messages
  that arrive, and the loops of the splitting generators decrease the rest.  Fuel is used once: the command \<open>user run\<close> runs
  another command with fewer words, so \<open>run_command\<close> has as many levels as there are words, and
  \<open>service_command_run_unfold\<close> shows that they are enough.

  \<^bold>\<open>Simplifications.\<close>  The actions of a step of a component run after the step, in order, on the state it left.  The iteration
  over a Go map, whose order Go leaves open, follows the order of the list.  A message of a connection that is not a client of
  the user any more is ignored, and a message of a server belongs to the connection that its network has.  The actions for
  several clients carry the message each on its own; that Go's copies share one map of tags is the subject of \<open>forward_loop\<close>, which agrees with
  the rest unless a client has a batch open (\<open>forward_loop_separate\<close>).  An object of a network that was removed or replaced has no
  state any more: its events only announce the state of the network, and when a service command in a message to several targets removes the network of
  the client, the later targets find no network, where Go still has the stopped object.  What a command of the service prints comes after what it does.
  Equal elements of \<open>sort.Sort\<close> keep their order.  Log lines and metrics are left out.

  \<^bold>\<open>Not modelled.\<close>  Dialing, TLS, reading and writing of connections (\<^verbatim>\<open>src/conn.go\<close>, the loops of \<^verbatim>\<open>network.run\<close> and
  \<^verbatim>\<open>server.go\<close>): input and output and the scheduling of goroutines.  The SQL back ends (\<^verbatim>\<open>src/database/sqlite.go\<close>,
  \<^verbatim>\<open>src/database/postgres.go\<close>, \<^verbatim>\<open>src/msgstore/db.go\<close>): statements of an external engine.  The importers, the command-line
  programs, identd, file upload, the authentication services and the configuration file: calls into libraries around the core.
\<close>

end
